(* ===== verification/Prelude.thy ===== *)
theory Prelude
  imports Main
begin

text \<open>
  Shared ground of the development: the lemma collections the component theories fill, Go's
  built-in notions that several components use (range order over a map, zero-value map reads,
  non-negative lengths), and generic facts on lists and maps.

  A Go \<open>string\<close> or \<open>[]byte\<close> is a HOL \<open>string\<close>, one \<open>char\<close> per byte.  A Go \<open>map\<close> is a
  partial function with a finite domain; where the source ranges over a map, the operation takes
  the iteration order as an argument (Go leaves it unspecified), and the lemmas hold for every
  order that is an enumeration of the domain.
\<close>

named_theorems frame "fields an operation leaves alone"
named_theorems preserves "an operation keeps a component's invariant"
named_theorems closed_defs "definitions unfolded to evaluate a closed term"

type_synonym bytes = string

subsection \<open>Go maps\<close>

definition range_order :: "('k \<rightharpoonup> 'v) \<Rightarrow> 'k list \<Rightarrow> bool" where
  "range_order m ks \<longleftrightarrow> distinct ks \<and> set ks = dom m"

definition zero_get :: "'v \<Rightarrow> ('k \<rightharpoonup> 'v) \<Rightarrow> 'k \<Rightarrow> 'v" where
  "zero_get z m k = (case m k of None \<Rightarrow> z | Some v \<Rightarrow> v)"

lemma zero_get_upd [simp]: "zero_get z (m(k \<mapsto> v)) k' = (if k' = k then v else zero_get z m k')"
  by (simp add: zero_get_def)

lemma zero_get_del [simp]: "zero_get z (m(k := None)) k' = (if k' = k then z else zero_get z m k')"
  by (simp add: zero_get_def)

lemma zero_get_None [simp]: "m k = None \<Longrightarrow> zero_get z m k = z"
  by (simp add: zero_get_def)

lemma zero_get_Some [simp]: "m k = Some v \<Longrightarrow> zero_get z m k = v"
  by (simp add: zero_get_def)

lemma range_order_distinct: "range_order m ks \<Longrightarrow> distinct ks"
  by (simp add: range_order_def)

lemma range_order_iff: "range_order m ks \<Longrightarrow> k \<in> set ks \<longleftrightarrow> k \<in> dom m"
  by (simp add: range_order_def)

lemma range_order_length: "range_order m ks \<Longrightarrow> length ks = card (dom m)"
  by (metis distinct_card range_order_def)

subsection \<open>Lists\<close>

definition last_n :: "nat \<Rightarrow> 'a list \<Rightarrow> 'a list" where
  "last_n n xs = drop (length xs - n) xs"

lemma length_last_n [simp]: "length (last_n n xs) = min n (length xs)"
  by (simp add: last_n_def min_def)

lemma last_n_all [simp]: "length xs \<le> n \<Longrightarrow> last_n n xs = xs"
  by (simp add: last_n_def)

text \<open>Appending to a ring that drops its oldest entry when full keeps the last entries.\<close>

lemma last_n_snoc:
  assumes "0 < n"
  shows "last_n n (xs @ [x]) =
    (if n \<le> length (last_n n xs) then tl (last_n n xs) else last_n n xs) @ [x]"
proof (cases "n \<le> length xs")
  case True
  then have "Suc (length xs) - n = Suc (length xs - n)" by simp
  moreover have "drop (Suc (length xs - n)) (xs @ [x]) = tl (drop (length xs - n) xs) @ [x]"
    using True assms by (simp add: drop_Suc tl_drop)
  ultimately show ?thesis using True by (simp add: last_n_def)
next
  case False
  then show ?thesis by (simp add: last_n_def)
qed

lemma take_append_free:
  "length q \<le> c \<Longrightarrow> (q @ [m]) @ take (c - length (q @ [m])) ms = q @ m # take (c - Suc (length q)) ms"
  by simp

lemma filter_eq_all: "(\<And>x. x \<in> set xs \<Longrightarrow> P x) \<Longrightarrow> filter P xs = xs"
  by (induction xs) auto

lemma foldl_invariant:
  assumes "P s" and "\<And>s x. x \<in> set xs \<Longrightarrow> P s \<Longrightarrow> P (f s x)"
  shows "P (foldl f s xs)"
  using assms by (induction xs arbitrary: s) auto

end
