(* ===== verification/Hub.thy ===== *)
theory Hub
  imports Prelude
begin

text \<open>
  The SSE hub of \<open>internal/queue/ssehub.go\<close>: per-client channels, a replay ring per client and
  the client-to-user table.  A channel is an address into a heap of channels, because
  \<open>UnregisterIfCurrent\<close> compares channels for identity and the consumer of a stream holds the same
  channel as the hub.  Every call of \<open>onDrop\<close> is recorded in \<open>drops\<close> with the handler installed.
\<close>

subsection \<open>State\<close>

record 'm chan =
  ch_cap :: nat
  ch_q :: "'m list"

record 'm hub =
  clients :: "string \<rightharpoonup> nat"
  buffer :: "string \<rightharpoonup> 'm list"
  userOf :: "string \<rightharpoonup> string"
  maxBuffer :: int
  onDrop :: nat
  chans :: "nat \<Rightarrow> 'm chan"
  drops :: "(nat \<times> string \<times> 'm \<times> string) list"

record hub_stats =
  st_clients :: nat
  st_buffered_clients :: nat
  st_buffered_events :: nat

datatype hub_option = WithReplayBufferSize int | WithDropHandler nat

definition DefaultReplayBufferSize :: int where
  "DefaultReplayBufferSize = 64"

definition DefaultClientQueueSize :: nat where
  "DefaultClientQueueSize = 64"

fun apply_option :: "'m hub \<Rightarrow> hub_option \<Rightarrow> 'm hub" where
  "apply_option h (WithReplayBufferSize n) = h\<lparr>maxBuffer := n\<rparr>"
| "apply_option h (WithDropHandler f) = h\<lparr>onDrop := f\<rparr>"

text \<open>The default drop handler (a log line) has number 0.\<close>

definition new_hub :: "hub_option list \<Rightarrow> 'm hub" where
  "new_hub opts = foldl apply_option
     \<lparr>clients = Map.empty, buffer = Map.empty, userOf = Map.empty,
      maxBuffer = DefaultReplayBufferSize, onDrop = 0,
      chans = (\<lambda>_. \<lparr>ch_cap = DefaultClientQueueSize, ch_q = []\<rparr>), drops = []\<rparr> opts"

subsection \<open>Operations\<close>

definition on_drop :: "string \<Rightarrow> 'm \<Rightarrow> string \<Rightarrow> 'm hub \<Rightarrow> 'm hub" where
  "on_drop cid m reason h = h\<lparr>drops := drops h @ [(onDrop h, cid, m, reason)]\<rparr>"

text \<open>The non-blocking channel send of a \<open>select\<close> with a \<open>default\<close> branch.\<close>

definition try_send :: "nat \<Rightarrow> 'm \<Rightarrow> 'm hub \<Rightarrow> 'm hub option" where
  "try_send c m h =
     (if length (ch_q (chans h c)) < ch_cap (chans h c)
      then Some (h\<lparr>chans := (chans h)(c := (chans h c)\<lparr>ch_q := ch_q (chans h c) @ [m]\<rparr>)\<rparr>)
      else None)"

fun replay :: "string \<Rightarrow> nat \<Rightarrow> 'm list \<Rightarrow> 'm hub \<Rightarrow> 'm hub" where
  "replay cid c [] h = h"
| "replay cid c (m # ms) h =
     replay cid c ms (case try_send c m h of
        Some h' \<Rightarrow> h'
      | None \<Rightarrow> on_drop cid m ''slow-client-replay'' h)"

definition register :: "string \<Rightarrow> string \<Rightarrow> nat \<Rightarrow> 'm hub \<Rightarrow> 'm hub" where
  "register cid uid c h =
     (let h1 = h\<lparr>clients := (clients h)(cid \<mapsto> c), userOf := (userOf h)(cid \<mapsto> uid)\<rparr>;
          h2 = replay cid c (zero_get [] (buffer h1) cid) h1
      in h2\<lparr>buffer := (buffer h2)(cid := None)\<rparr>)"

definition unregister :: "string \<Rightarrow> 'm hub \<Rightarrow> 'm hub" where
  "unregister cid h = h\<lparr>clients := (clients h)(cid := None),
     buffer := (buffer h)(cid := None), userOf := (userOf h)(cid := None)\<rparr>"

definition unregister_if_current :: "string \<Rightarrow> nat \<Rightarrow> 'm hub \<Rightarrow> 'm hub" where
  "unregister_if_current cid c h = (if clients h cid = Some c then unregister cid h else h)"

definition buffer_event :: "string \<Rightarrow> 'm \<Rightarrow> 'm hub \<Rightarrow> 'm hub" where
  "buffer_event cid m h =
     (if maxBuffer h \<le> 0 then on_drop cid m ''replay-disabled'' h
      else let buf = zero_get [] (buffer h) cid;
               buf' = (if maxBuffer h \<le> int (length buf) then tl buf else buf)
           in h\<lparr>buffer := (buffer h)(cid \<mapsto> buf' @ [m])\<rparr>)"

text \<open>
  \<open>Send\<close> reads the channel under the read lock, releases it, and then delivers: other operations
  may run in between, so the two halves are operations of their own and \<open>send\<close> is their
  composition when nothing runs in between.
\<close>

definition send_attempt :: "string \<Rightarrow> 'm \<Rightarrow> nat option \<Rightarrow> 'm hub \<Rightarrow> 'm hub \<times> bool" where
  "send_attempt cid m co h =
     (case co of
        None \<Rightarrow> (h, True)
      | Some c \<Rightarrow> (case try_send c m h of
            Some h' \<Rightarrow> (h', False)
          | None \<Rightarrow> (on_drop cid m ''slow-client'' h, True)))"

definition send_deliver :: "string \<Rightarrow> 'm \<Rightarrow> nat option \<Rightarrow> 'm hub \<Rightarrow> 'm hub" where
  "send_deliver cid m co h =
     (case send_attempt cid m co h of
        (h', needs_buffer) \<Rightarrow> if needs_buffer then buffer_event cid m h' else h')"

definition send :: "string \<Rightarrow> 'm \<Rightarrow> 'm hub \<Rightarrow> 'm hub" where
  "send cid m h = send_deliver cid m (clients h cid) h"

definition send_ctx :: "bool \<Rightarrow> string \<Rightarrow> 'm \<Rightarrow> 'm hub \<Rightarrow> 'm hub" where
  "send_ctx cancelled cid m h = (if cancelled then h else send cid m h)"

text \<open>
  \<open>SendBlocking\<close>: when both the channel and the context are ready, Go's \<open>select\<close> may take either
  branch; \<open>prefer_ctx\<close> is that choice.  With neither ready the call has not returned.
\<close>

datatype send_result = Returned_nil | Returned_ctx_err | Blocked

definition blocking_select ::
  "bool \<Rightarrow> bool \<Rightarrow> string \<Rightarrow> 'm \<Rightarrow> nat \<Rightarrow> 'm hub \<Rightarrow> 'm hub \<times> send_result" where
  "blocking_select cancelled prefer_ctx cid m c h =
     (if cancelled \<and> (prefer_ctx \<or> try_send c m h = None)
      then (on_drop cid m ''send-blocking-cancelled'' h, Returned_ctx_err)
      else case try_send c m h of
         Some h' \<Rightarrow> (h', Returned_nil)
       | None \<Rightarrow> (h, Blocked))"

definition send_blocking ::
  "bool \<Rightarrow> bool \<Rightarrow> string \<Rightarrow> 'm \<Rightarrow> 'm hub \<Rightarrow> 'm hub \<times> send_result" where
  "send_blocking cancelled prefer_ctx cid m h =
     (case clients h cid of
        None \<Rightarrow> (buffer_event cid m h, Returned_nil)
      | Some c \<Rightarrow> blocking_select cancelled prefer_ctx cid m c h)"

fun fan_out :: "string \<Rightarrow> (string \<Rightarrow> bool) \<Rightarrow> string list \<Rightarrow> 'm \<Rightarrow> 'm hub \<Rightarrow> 'm hub" where
  "fan_out reason keep [] m h = h"
| "fan_out reason keep (cid # ids) m h =
     fan_out reason keep ids m
       (if \<not> keep cid then h
        else case clients h cid of
            None \<Rightarrow> h
          | Some c \<Rightarrow> (case try_send c m h of
                Some h' \<Rightarrow> h'
              | None \<Rightarrow> on_drop cid m reason h))"

definition broadcast_except :: "string list \<Rightarrow> 'm \<Rightarrow> string \<Rightarrow> 'm hub \<Rightarrow> 'm hub" where
  "broadcast_except ids m exclude h =
     fan_out ''slow-client-broadcast'' (\<lambda>cid. cid \<noteq> exclude) ids m h"

definition broadcast :: "string list \<Rightarrow> 'm \<Rightarrow> 'm hub \<Rightarrow> 'm hub" where
  "broadcast ids m h = fan_out ''slow-client-broadcast'' (\<lambda>_. True) ids m h"

definition broadcast_to_user :: "string list \<Rightarrow> 'm \<Rightarrow> string \<Rightarrow> string \<Rightarrow> 'm hub \<Rightarrow> 'm hub" where
  "broadcast_to_user ids m uid exclude h =
     fan_out ''slow-client-broadcast-user''
       (\<lambda>cid. cid \<noteq> exclude \<and> zero_get '''' (userOf h) cid = uid) ids m h"

definition is_registered :: "string \<Rightarrow> 'm hub \<Rightarrow> bool" where
  "is_registered cid h \<longleftrightarrow> clients h cid \<noteq> None"

definition stats :: "string list \<Rightarrow> string list \<Rightarrow> 'm hub \<Rightarrow> hub_stats" where
  "stats ids bids h =
     foldl (\<lambda>s cid. if zero_get [] (buffer h) cid \<noteq> []
                    then s\<lparr>st_buffered_clients := st_buffered_clients s + 1,
                           st_buffered_events := st_buffered_events s + length (zero_get [] (buffer h) cid)\<rparr>
                    else s)
       \<lparr>st_clients = length ids, st_buffered_clients = 0, st_buffered_events = 0\<rparr> bids"

definition count_user_clients :: "string list \<Rightarrow> 'm hub \<Rightarrow> nat" where
  "count_user_clients uids h =
     foldl (\<lambda>n cid. if zero_get '''' (userOf h) cid \<noteq> '''' then n + 1 else n) 0 uids"

text \<open>The consumer side: the stream handler takes the oldest message of its channel.\<close>

definition recv :: "nat \<Rightarrow> 'm hub \<Rightarrow> ('m \<times> 'm hub) option" where
  "recv c h =
     (case ch_q (chans h c) of
        [] \<Rightarrow> None
      | m # ms \<Rightarrow> Some (m, h\<lparr>chans := (chans h)(c := (chans h c)\<lparr>ch_q := ms\<rparr>)\<rparr>))"

subsection \<open>Frame and shape lemmas\<close>

lemma try_send_eq_Some:
  "try_send c m h = Some h' \<longleftrightarrow>
     length (ch_q (chans h c)) < ch_cap (chans h c) \<and>
     h' = h\<lparr>chans := (chans h)(c := (chans h c)\<lparr>ch_q := ch_q (chans h c) @ [m]\<rparr>)\<rparr>"
  by (auto simp: try_send_def)

lemma try_send_eq_None:
  "try_send c m h = None \<longleftrightarrow> ch_cap (chans h c) \<le> length (ch_q (chans h c))"
  by (auto simp: try_send_def)

lemma on_drop_frame [frame, simp]:
  "clients (on_drop cid m r h) = clients h" "buffer (on_drop cid m r h) = buffer h"
  "userOf (on_drop cid m r h) = userOf h" "maxBuffer (on_drop cid m r h) = maxBuffer h"
  "onDrop (on_drop cid m r h) = onDrop h" "chans (on_drop cid m r h) = chans h"
  by (simp_all add: on_drop_def)

lemma drops_on_drop [simp]: "drops (on_drop cid m r h) = drops h @ [(onDrop h, cid, m, r)]"
  by (simp add: on_drop_def)

lemma replay_frame [frame, simp]:
  "clients (replay cid c ms h) = clients h" "buffer (replay cid c ms h) = buffer h"
  "userOf (replay cid c ms h) = userOf h" "maxBuffer (replay cid c ms h) = maxBuffer h"
  "onDrop (replay cid c ms h) = onDrop h"
  by (induction cid c ms h rule: replay.induct)
    (auto simp: try_send_eq_Some split: option.splits)

lemma fan_out_frame [frame, simp]:
  "clients (fan_out r keep ids m h) = clients h" "buffer (fan_out r keep ids m h) = buffer h"
  "userOf (fan_out r keep ids m h) = userOf h" "maxBuffer (fan_out r keep ids m h) = maxBuffer h"
  "onDrop (fan_out r keep ids m h) = onDrop h"
  by (induction r keep ids m h rule: fan_out.induct)
    (auto simp: try_send_eq_Some split: option.splits)

lemma buffer_event_frame [frame, simp]:
  "clients (buffer_event cid m h) = clients h" "userOf (buffer_event cid m h) = userOf h"
  "maxBuffer (buffer_event cid m h) = maxBuffer h" "onDrop (buffer_event cid m h) = onDrop h"
  "chans (buffer_event cid m h) = chans h"
  by (simp_all add: buffer_event_def Let_def)

text \<open>What the replay loop does to the channel and to the drop log, in one equation each.\<close>

lemma replay_chans:
  "chans (replay cid c ms h) x = (if x = c then (chans h c)\<lparr>ch_q :=
     ch_q (chans h c) @ take (ch_cap (chans h c) - length (ch_q (chans h c))) ms\<rparr> else chans h x)"
proof (induction cid c ms h rule: replay.induct)
  case (1 cid c h)
  then show ?case by simp
next
  case (2 cid c m ms h)
  show ?case
  proof (cases "try_send c m h")
    case None
    then have "ch_cap (chans h c) - length (ch_q (chans h c)) = 0"
      by (simp add: try_send_eq_None)
    with 2 None show ?thesis by simp
  next
    case (Some h')
    then have room: "0 < ch_cap (chans h c) - length (ch_q (chans h c))"
      and h': "h' = h\<lparr>chans := (chans h)(c := (chans h c)\<lparr>ch_q := ch_q (chans h c) @ [m]\<rparr>)\<rparr>"
      by (simp_all add: try_send_eq_Some)
    have IH: "chans (replay cid c ms h') x = (if x = c then (chans h' c)\<lparr>ch_q :=
        ch_q (chans h' c) @ take (ch_cap (chans h' c) - length (ch_q (chans h' c))) ms\<rparr>
        else chans h' x)"
      using 2 Some by simp
    have "replay cid c (m # ms) h = replay cid c ms h'" using Some by simp
    then show ?thesis using IH room h' by (simp add: take_Cons')
  qed
qed

lemma replay_drops:
  "drops (replay cid c ms h) = drops h @ map (\<lambda>m. (onDrop h, cid, m, ''slow-client-replay''))
     (drop (ch_cap (chans h c) - length (ch_q (chans h c))) ms)"
proof (induction cid c ms h rule: replay.induct)
  case (1 cid c h)
  then show ?case by simp
next
  case (2 cid c m ms h)
  show ?case
  proof (cases "try_send c m h")
    case None
    then have "ch_cap (chans h c) - length (ch_q (chans h c)) = 0"
      by (simp add: try_send_eq_None)
    with 2 None show ?thesis by simp
  next
    case (Some h')
    then have room: "0 < ch_cap (chans h c) - length (ch_q (chans h c))"
      and h': "h' = h\<lparr>chans := (chans h)(c := (chans h c)\<lparr>ch_q := ch_q (chans h c) @ [m]\<rparr>)\<rparr>"
      by (simp_all add: try_send_eq_Some)
    have IH: "drops (replay cid c ms h') =
        drops h' @ map (\<lambda>m. (onDrop h', cid, m, ''slow-client-replay''))
          (drop (ch_cap (chans h' c) - length (ch_q (chans h' c))) ms)"
      using 2 Some by simp
    have "replay cid c (m # ms) h = replay cid c ms h'" using Some by simp
    then show ?thesis using IH room h' by (simp add: drop_Cons')
  qed
qed

text \<open>
  Every connection creates its own channel, so no channel serves two clients; under that the
  fan-out loop appends to exactly the channels of the kept clients that have room, whatever the
  iteration order.
\<close>

definition own_channels :: "'m hub \<Rightarrow> bool" where
  "own_channels h \<longleftrightarrow> (\<forall>a b c. clients h a = Some c \<and> clients h b = Some c \<longrightarrow> a = b)"

definition has_room :: "'m hub \<Rightarrow> nat \<Rightarrow> bool" where
  "has_room h c \<longleftrightarrow> length (ch_q (chans h c)) < ch_cap (chans h c)"

lemma fan_out_caps [frame, simp]: "ch_cap (chans (fan_out r keep ids m h) c) = ch_cap (chans h c)"
  by (induction r keep ids m h rule: fan_out.induct)
    (auto simp: try_send_eq_Some split: option.splits)

lemma fan_out_queue:
  assumes "own_channels h" and "distinct ids"
  shows "ch_q (chans (fan_out r keep ids m h) c) =
    (if (\<exists>cid \<in> set ids. keep cid \<and> clients h cid = Some c) \<and> has_room h c
     then ch_q (chans h c) @ [m] else ch_q (chans h c))"
  using assms
proof (induction r keep ids m h rule: fan_out.induct)
  case (1 r keep m h)
  then show ?case by simp
next
  case (2 r keep cid ids m h)
  let ?h' = "if \<not> keep cid then h else case clients h cid of None \<Rightarrow> h
    | Some c \<Rightarrow> (case try_send c m h of Some h' \<Rightarrow> h' | None \<Rightarrow> on_drop cid m r h)"
  have cl: "clients ?h' = clients h"
    by (auto simp: try_send_eq_Some split: option.splits)
  then have own: "own_channels ?h'"
    using "2.prems"(1) by (simp add: own_channels_def)
  have IH: "ch_q (chans (fan_out r keep ids m ?h') c) =
      (if (\<exists>x \<in> set ids. keep x \<and> clients h x = Some c) \<and> has_room ?h' c
       then ch_q (chans ?h' c) @ [m] else ch_q (chans ?h' c))"
    using "2.IH"[OF own] "2.prems"(2) cl by simp
  show ?case
  proof (cases "keep cid \<and> clients h cid = Some c")
    case True
    then have "\<not> (\<exists>x \<in> set ids. keep x \<and> clients h x = Some c)"
      using "2.prems" by (auto simp: own_channels_def)
    with IH True show ?thesis
      by (auto simp: has_room_def try_send_def)
  next
    case False
    then have "chans ?h' c = chans h c"
      by (auto simp: try_send_eq_Some split: option.splits)
    with IH False show ?thesis by (auto simp: has_room_def)
  qed
qed

subsection \<open>Invariant and interleavings\<close>

definition hub_inv :: "'m hub \<Rightarrow> bool" where
  "hub_inv h \<longleftrightarrow> dom (clients h) = dom (userOf h) \<and> own_channels h \<and>
     (\<forall>cid ms. buffer h cid = Some ms \<longrightarrow> ms \<noteq> [] \<and> int (length ms) \<le> maxBuffer h) \<and>
     (\<forall>c. length (ch_q (chans h c)) \<le> ch_cap (chans h c))"

lemma hub_invI [intro]:
  assumes "dom (clients h) = dom (userOf h)" and "own_channels h"
    and "\<And>cid ms. buffer h cid = Some ms \<Longrightarrow> ms \<noteq> [] \<and> int (length ms) \<le> maxBuffer h"
    and "\<And>c. length (ch_q (chans h c)) \<le> ch_cap (chans h c)"
  shows "hub_inv h"
  using assms by (simp add: hub_inv_def)

lemma new_hub_fields:
  fixes h :: "'m hub"
  assumes "h = new_hub opts"
  shows "clients h = Map.empty \<and> buffer h = Map.empty \<and> userOf h = Map.empty \<and> drops h = [] \<and>
    chans h = (\<lambda>_. \<lparr>ch_cap = DefaultClientQueueSize, ch_q = []\<rparr>)"
proof -
  define P where "P = (\<lambda>h :: 'm hub. clients h = Map.empty \<and> buffer h = Map.empty \<and>
    userOf h = Map.empty \<and> drops h = [] \<and>
    chans h = (\<lambda>_. \<lparr>ch_cap = DefaultClientQueueSize, ch_q = []\<rparr>))"
  have step: "P (apply_option h opt)" if "P h" for h opt
    using that by (cases opt) (simp_all add: P_def)
  have "P (new_hub opts)"
    unfolding new_hub_def
  proof (rule foldl_invariant)
    show "P \<lparr>clients = Map.empty, buffer = Map.empty, userOf = Map.empty,
        maxBuffer = DefaultReplayBufferSize, onDrop = 0,
        chans = (\<lambda>_. \<lparr>ch_cap = DefaultClientQueueSize, ch_q = []\<rparr>), drops = []\<rparr>"
      by (simp add: P_def)
  qed (rule step)
  with assms show ?thesis by (simp add: P_def)
qed

lemma new_hub_inv [preserves]: "hub_inv (new_hub opts)"
  by (rule hub_invI) (auto simp: new_hub_fields [OF refl] own_channels_def)

lemma own_channels_register:
  "own_channels h \<Longrightarrow> c \<notin> ran (clients h) \<Longrightarrow> own_channels (register cid uid c h)"
  by (auto simp: own_channels_def register_def Let_def ran_def)

lemma register_inv [preserves]:
  assumes "hub_inv h" and "c \<notin> ran (clients h)"
  shows "hub_inv (register cid uid c h)"
proof -
  have "dom (clients (register cid uid c h)) = dom (userOf (register cid uid c h))"
    using assms(1) by (simp add: hub_inv_def register_def Let_def)
  moreover have "own_channels (register cid uid c h)"
    using assms by (simp add: hub_inv_def own_channels_register)
  moreover have "length (ch_q (chans (register cid uid c h) x))
      \<le> ch_cap (chans (register cid uid c h) x)" for x
  proof -
    have "length (ch_q (chans h x)) \<le> ch_cap (chans h x)" and
      "length (ch_q (chans h c)) \<le> ch_cap (chans h c)"
      using assms(1) by (simp_all add: hub_inv_def)
    then show ?thesis by (cases "x = c") (simp_all add: register_def Let_def replay_chans)
  qed
  ultimately show ?thesis
    using assms(1) by (auto simp: hub_inv_def register_def Let_def split: if_splits)
qed

lemma unregister_inv [preserves]: "hub_inv h \<Longrightarrow> hub_inv (unregister cid h)"
  by (auto simp: hub_inv_def unregister_def own_channels_def split: if_splits)

lemma unregister_if_current_inv [preserves]:
  "hub_inv h \<Longrightarrow> hub_inv (unregister_if_current cid c h)"
  by (simp add: unregister_if_current_def unregister_inv)

lemma on_drop_inv [preserves]: "hub_inv h \<Longrightarrow> hub_inv (on_drop cid m r h)"
  by (simp add: hub_inv_def own_channels_def)

lemma buffer_event_inv [preserves]:
  assumes "hub_inv h"
  shows "hub_inv (buffer_event cid m h)"
proof (cases "maxBuffer h \<le> 0")
  case True
  with assms show ?thesis by (simp add: buffer_event_def on_drop_inv)
next
  case False
  have "int (length (zero_get [] (buffer h) cid)) \<le> maxBuffer h"
    using assms False by (cases "buffer h cid") (auto simp: hub_inv_def)
  with assms False show ?thesis
    by (auto simp: hub_inv_def buffer_event_def own_channels_def Let_def split: if_splits)
qed

lemma try_send_inv [preserves]: "hub_inv h \<Longrightarrow> try_send c m h = Some h' \<Longrightarrow> hub_inv h'"
  by (auto simp: hub_inv_def try_send_eq_Some own_channels_def)

lemma send_attempt_inv [preserves]:
  "hub_inv h \<Longrightarrow> send_attempt cid m co h = (h', b) \<Longrightarrow> hub_inv h'"
  by (auto simp: send_attempt_def split: option.splits intro: try_send_inv on_drop_inv)

lemma blocking_select_inv [preserves]:
  "hub_inv h \<Longrightarrow> blocking_select cancelled pref cid m c h = (h', r) \<Longrightarrow> hub_inv h'"
  by (auto simp: blocking_select_def split: option.splits if_splits intro: try_send_inv on_drop_inv)

lemma try_send_or_drop_inv:
  "hub_inv h \<Longrightarrow> hub_inv (case try_send c m h of None \<Rightarrow> on_drop cid m r h | Some h' \<Rightarrow> h')"
  by (cases "try_send c m h") (simp_all add: on_drop_inv try_send_inv)

lemma fan_out_inv [preserves]: "hub_inv h \<Longrightarrow> hub_inv (fan_out r keep ids m h)"
proof (induction r keep ids m h rule: fan_out.induct)
  case (2 r keep cid ids m h)
  then show ?case
    by (cases "keep cid"; cases "clients h cid") (simp_all add: try_send_or_drop_inv)
qed simp

lemma recv_inv [preserves]:
  assumes "hub_inv h" and "recv c h = Some (m, h')"
  shows "hub_inv h'"
proof -
  from assms(2) obtain ms where q: "ch_q (chans h c) = m # ms"
    and h': "h' = h\<lparr>chans := (chans h)(c := (chans h c)\<lparr>ch_q := ms\<rparr>)\<rparr>"
    by (auto simp: recv_def split: list.splits)
  have "length (ch_q (chans h' x)) \<le> ch_cap (chans h' x)" for x
  proof -
    have "length (ch_q (chans h x)) \<le> ch_cap (chans h x)"
      using assms(1) by (simp add: hub_inv_def)
    with q h' show ?thesis by (cases "x = c") auto
  qed
  with assms(1) h' show ?thesis by (simp add: hub_inv_def own_channels_def)
qed

text \<open>
  The hub under concurrent callers.  \<open>Send\<close> and \<open>SendBlocking\<close> hold no lock between reading the
  channel and using it, nor before \<open>bufferEvent\<close> takes the write lock, so a call in flight is a
  pending item and its halves are steps of their own; every other operation runs under the lock.
\<close>

datatype 'm pending =
    Deliver string 'm "nat option"
  | ToBuffer string 'm
  | Select string 'm nat

inductive hub_step :: "'m hub \<times> 'm pending list \<Rightarrow> 'm hub \<times> 'm pending list \<Rightarrow> bool" where
  Register: "c \<notin> ran (clients h) \<Longrightarrow> hub_step (h, ps) (register cid uid c h, ps)"
| Unregister: "hub_step (h, ps) (unregister cid h, ps)"
| UnregisterIfCurrent: "hub_step (h, ps) (unregister_if_current cid c h, ps)"
| Send_lookup: "hub_step (h, ps) (h, Deliver cid m (clients h cid) # ps)"
| Send_deliver: "Deliver cid m co \<in> set ps \<Longrightarrow> send_attempt cid m co h = (h', nb) \<Longrightarrow>
    hub_step (h, ps) (h', (if nb then [ToBuffer cid m] else []) @ remove1 (Deliver cid m co) ps)"
| Send_buffer: "ToBuffer cid m \<in> set ps \<Longrightarrow>
    hub_step (h, ps) (buffer_event cid m h, remove1 (ToBuffer cid m) ps)"
| Blocking_lookup: "hub_step (h, ps)
    (h, (case clients h cid of None \<Rightarrow> ToBuffer cid m | Some c \<Rightarrow> Select cid m c) # ps)"
| Blocking_select: "Select cid m c \<in> set ps \<Longrightarrow>
    blocking_select cancelled pref cid m c h = (h', r) \<Longrightarrow> r \<noteq> Blocked \<Longrightarrow>
    hub_step (h, ps) (h', remove1 (Select cid m c) ps)"
| Broadcast: "range_order (clients h) ids \<Longrightarrow> hub_step (h, ps) (broadcast ids m h, ps)"
| BroadcastExcept: "range_order (clients h) ids \<Longrightarrow>
    hub_step (h, ps) (broadcast_except ids m ex h, ps)"
| BroadcastToUser: "range_order (clients h) ids \<Longrightarrow>
    hub_step (h, ps) (broadcast_to_user ids m uid ex h, ps)"
| Receive: "recv c h = Some (m, h') \<Longrightarrow> hub_step (h, ps) (h', ps)"

inductive hub_reachable :: "hub_option list \<Rightarrow> 'm hub \<times> 'm pending list \<Rightarrow> bool"
  for opts where
  start: "hub_reachable opts (new_hub opts, [])"
| step: "hub_reachable opts s \<Longrightarrow> hub_step s t \<Longrightarrow> hub_reachable opts t"

lemma hub_step_inv:
  "hub_step s t \<Longrightarrow> hub_inv (fst s) \<Longrightarrow> hub_inv (fst t)"
proof (induction rule: hub_step.induct)
  case (Send_deliver cid m co ps h h' nb)
  from send_attempt_inv [OF _ Send_deliver(2)] Send_deliver(3) show ?case by simp
next
  case (Blocking_select cid m c ps cancelled pref h h' r)
  from blocking_select_inv [OF _ Blocking_select(2)] Blocking_select(4) show ?case by simp
next
  case (Receive c h m h' ps)
  from recv_inv [OF _ Receive(1)] Receive(2) show ?case by simp
qed (simp_all add: broadcast_def broadcast_except_def broadcast_to_user_def register_inv
  unregister_inv unregister_if_current_inv buffer_event_inv fan_out_inv)

text \<open>C5: In every state the hub can reach, under any interleaving of registrations, reconnects,
  sends cut at their unlocked points, broadcasts and receives: the user table has exactly the
  connected clients, no channel serves two clients, every replay ring is non-empty and within the
  configured size, and no channel holds more than its capacity.\<close>
theorem hub_reachable_inv:
  fixes h :: "'a hub"
  assumes "hub_reachable opts (h, ps)"
  shows "dom (clients h) = dom (userOf h) \<and> own_channels h \<and>
    (\<forall>cid ms. buffer h cid = Some ms \<longrightarrow> ms \<noteq> [] \<and> int (length ms) \<le> maxBuffer h) \<and>
    (\<forall>c. length (ch_q (chans h c)) \<le> ch_cap (chans h c))"
proof -
  have "hub_reachable opts s \<Longrightarrow> hub_inv (fst s)" for s :: "'a hub \<times> 'a pending list"
  proof (induction rule: hub_reachable.induct)
    case start
    show ?case by (simp add: new_hub_inv)
  next
    case (step s t)
    then show ?case by (simp add: hub_step_inv)
  qed
  from this [OF assms] show ?thesis by (simp add: hub_inv_def)
qed

text \<open>A run of the hub for the witnesses: one client connects and one message is sent to it.\<close>

lemma hub_run_example:
  "hub_reachable [] (register ''t1'' ''u1'' 0 (new_hub []), [Deliver ''t1'' (7::nat) (Some 0)])"
proof -
  have "hub_reachable [] (register ''t1'' ''u1'' 0 (new_hub []) :: nat hub, [])"
    by (rule hub_reachable.step [OF hub_reachable.start])
      (rule hub_step.Register, simp add: new_hub_fields [OF refl])
  then show ?thesis
    by (rule hub_reachable.step)
      (use hub_step.Send_lookup [of "register ''t1'' ''u1'' 0 (new_hub []) :: nat hub" "[]" "''t1''" 7]
        in \<open>simp add: register_def Let_def\<close>)
qed

theorem hub_reachable_inv_witness:
  "dom (clients (register ''t1'' ''u1'' 0 (new_hub []) :: nat hub)) = {''t1''} \<and>
   dom (userOf (register ''t1'' ''u1'' 0 (new_hub []) :: nat hub)) = {''t1''}"
  using hub_reachable_inv [OF hub_run_example]
  by (simp add: register_def Let_def new_hub_fields [OF refl])

subsection \<open>Replay\<close>

text \<open>Registering a client replays its whole ring, oldest first, into the new channel: what fits
  is queued behind what the channel held, what does not fit is reported to the drop handler, the ring
  is emptied, and no other client, ring or channel changes.\<close>
lemma register_replays:
  "let buf = zero_get [] (buffer h) cid;
       room = ch_cap (chans h c) - length (ch_q (chans h c));
       h' = register cid uid c h
   in clients h' = (clients h)(cid \<mapsto> c) \<and> userOf h' = (userOf h)(cid \<mapsto> uid) \<and>
      buffer h' = (buffer h)(cid := None) \<and>
      chans h' = (chans h)(c := (chans h c)\<lparr>ch_q := ch_q (chans h c) @ take room buf\<rparr>) \<and>
      drops h' = drops h @ map (\<lambda>m. (onDrop h, cid, m, ''slow-client-replay'')) (drop room buf)"
  by (auto simp: register_def Let_def replay_chans replay_drops fun_eq_iff)

lemma send_unregistered:
  "clients h cid = None \<Longrightarrow> send cid m h = buffer_event cid m h"
  by (simp add: send_def send_deliver_def send_attempt_def)

lemma sends_unregistered:
  assumes "clients h cid = None" and "0 < maxBuffer h"
    and "zero_get [] (buffer h) cid = last_n (nat (maxBuffer h)) ms0"
  shows "let h' = foldl (\<lambda>h m. send cid m h) h ms in
    zero_get [] (buffer h') cid = last_n (nat (maxBuffer h)) (ms0 @ ms) \<and>
    clients h' = clients h \<and> userOf h' = userOf h \<and> maxBuffer h' = maxBuffer h \<and>
    chans h' = chans h \<and> drops h' = drops h \<and> onDrop h' = onDrop h"
  using assms
proof (induction ms arbitrary: h ms0)
  case Nil
  then show ?case by simp
next
  case (Cons m ms)
  let ?h1 = "buffer_event cid m h"
  have "zero_get [] (buffer ?h1) cid = last_n (nat (maxBuffer h)) (ms0 @ [m])"
    using Cons.prems last_n_snoc [of "nat (maxBuffer h)" ms0 m]
    by (auto simp: buffer_event_def Let_def min_def split: if_splits)
  moreover have "drops ?h1 = drops h"
    using Cons.prems(2) by (simp add: buffer_event_def Let_def)
  ultimately show ?case
    using Cons.IH [of ?h1 "ms0 @ [m]"] Cons.prems by (simp add: send_unregistered Let_def)
qed

text \<open>C8: A tab that connects after any number of events were sent to it, with an empty channel at
  least as large as the ring, receives exactly the most recent \<open>maxBuffer\<close> of them in order, and no
  event is reported as dropped.\<close>
theorem late_subscriber_gets_last_events:
  assumes "clients h cid = None" and "buffer h cid = None" and "0 < maxBuffer h"
    and "ch_q (chans h c) = []" and "maxBuffer h \<le> int (ch_cap (chans h c))"
  shows "let h' = register cid uid c (foldl (\<lambda>h m. send cid m h) h ms) in
    ch_q (chans h' c) = last_n (nat (maxBuffer h)) ms \<and> drops h' = drops h \<and> buffer h' cid = None"
proof -
  have "zero_get [] (buffer h) cid = last_n (nat (maxBuffer h)) []"
    using assms(2) by (simp add: last_n_def)
  from sends_unregistered [OF assms(1,3) this, of ms] assms(4,5)
  show ?thesis by (simp add: register_def Let_def replay_chans replay_drops)
qed

theorem late_subscriber_gets_last_events_witness:
  "ch_q (chans (register ''t1'' ''u1'' 3
     (foldl (\<lambda>h m. send ''t1'' m h) (new_hub [WithReplayBufferSize 2]) [1, 2, 3 :: nat])) 3) = [2, 3]"
proof -
  have "maxBuffer (new_hub [WithReplayBufferSize 2] :: nat hub) = 2" by (simp add: new_hub_def)
  then show ?thesis
    using late_subscriber_gets_last_events [of "new_hub [WithReplayBufferSize 2] :: nat hub" "''t1''" 3
        "''u1''" "[1, 2, 3]"]
    by (simp add: new_hub_fields [OF refl] DefaultClientQueueSize_def Let_def last_n_def)
qed

subsection \<open>Reconnects\<close>

text \<open>C7: The deferred cleanup of an old connection leaves the hub exactly as it is when a newer
  connection of the same client has replaced its channel, while the cleanup of the current
  connection disconnects the client.\<close>
theorem stale_cleanup_is_noop:
  assumes "c_old \<noteq> c_new"
  shows "unregister_if_current cid c_old (register cid uid c_new h) = register cid uid c_new h \<and>
    is_registered cid (unregister_if_current cid c_old (register cid uid c_new h)) \<and>
    \<not> is_registered cid (unregister_if_current cid c_new (register cid uid c_new h))"
  using assms
  by (simp add: unregister_if_current_def is_registered_def register_def Let_def unregister_def)

theorem stale_cleanup_is_noop_witness:
  "unregister_if_current ''t1'' 0 (register ''t1'' ''u1'' 1 (new_hub [] :: nat hub)) =
   register ''t1'' ''u1'' 1 (new_hub [])"
  by (rule conjunct1 [OF stale_cleanup_is_noop]) simp

subsection \<open>Fan-out\<close>

text \<open>C6: A record event broadcast to a user is appended once to the channel of every connected tab
  of that user other than the originating one, as long as the channel has room, and to no other
  channel; the order in which the client map is iterated does not matter, and clients, users and
  replay rings stay as they are.\<close>
theorem broadcast_to_user_exact:
  assumes "hub_inv h" and "range_order (clients h) ids"
  shows "let h' = broadcast_to_user ids m uid exclude h in
    (\<forall>c. ch_q (chans h' c) =
      (if (\<exists>cid. cid \<noteq> exclude \<and> clients h cid = Some c \<and> userOf h cid = Some uid) \<and> has_room h c
       then ch_q (chans h c) @ [m] else ch_q (chans h c))) \<and>
    clients h' = clients h \<and> userOf h' = userOf h \<and> buffer h' = buffer h"
proof -
  have own: "own_channels h" and dom: "dom (clients h) = dom (userOf h)"
    using assms(1) by (simp_all add: hub_inv_def)
  have "(\<exists>cid \<in> set ids. (cid \<noteq> exclude \<and> zero_get '''' (userOf h) cid = uid) \<and> clients h cid = Some c)
    = (\<exists>cid. cid \<noteq> exclude \<and> clients h cid = Some c \<and> userOf h cid = Some uid)" for c
    using assms(2) dom by (fastforce simp: range_order_def zero_get_def split: option.splits)
  then show ?thesis
    using fan_out_queue [OF own range_order_distinct [OF assms(2)]]
    by (simp add: broadcast_to_user_def Let_def)
qed

definition two_user_hub :: "nat hub" where
  "two_user_hub = register ''b'' ''u2'' 7 (register ''a'' ''u1'' 0 (new_hub []))"

lemma two_user_hub_facts:
  "hub_inv two_user_hub" "clients two_user_hub = [''a'' \<mapsto> 0, ''b'' \<mapsto> 7]"
  "userOf two_user_hub = [''a'' \<mapsto> ''u1'', ''b'' \<mapsto> ''u2'']"
  "ch_q (chans two_user_hub c) = []" "ch_cap (chans two_user_hub c) = 64"
proof -
  have "hub_inv (register ''a'' ''u1'' 0 (new_hub []) :: nat hub)"
    by (rule register_inv [OF new_hub_inv]) (simp add: new_hub_fields [OF refl])
  then show "hub_inv two_user_hub"
    unfolding two_user_hub_def
    by (rule register_inv) (simp add: register_def Let_def new_hub_fields [OF refl])
qed (simp_all add: two_user_hub_def register_def Let_def replay_chans new_hub_fields [OF refl]
  DefaultClientQueueSize_def)

theorem broadcast_to_user_exact_witness:
  "ch_q (chans (broadcast_to_user [''b'', ''a''] 9 ''u2'' ''z'' two_user_hub) 7) = [9] \<and>
   ch_q (chans (broadcast_to_user [''b'', ''a''] 9 ''u2'' ''z'' two_user_hub) 0) = []"
proof -
  have "range_order (clients two_user_hub) [''b'', ''a'']"
    by (auto simp: range_order_def two_user_hub_facts)
  note exact = broadcast_to_user_exact [OF two_user_hub_facts(1) this, of 9 "''u2''" "''z''",
      unfolded Let_def, THEN conjunct1]
  have "has_room two_user_hub c" for c
    by (simp add: has_room_def two_user_hub_facts)
  moreover have "\<not> (\<exists>cid. cid \<noteq> ''z'' \<and> clients two_user_hub cid = Some 0 \<and>
      userOf two_user_hub cid = Some ''u2'')"
    by (auto simp: two_user_hub_facts split: if_splits)
  moreover have "\<exists>cid. cid \<noteq> ''z'' \<and> clients two_user_hub cid = Some 7 \<and>
      userOf two_user_hub cid = Some ''u2''"
    by (rule exI [of _ "''b''"]) (simp add: two_user_hub_facts)
  ultimately show ?thesis
    using exact [THEN spec, of 0] exact [THEN spec, of 7] two_user_hub_facts(4) by simp
qed

lemma broadcast_except_queue:
  assumes "hub_inv h" and "range_order (clients h) ids"
  shows "ch_q (chans (broadcast_except ids m exclude h) c) =
    (if (\<exists>cid. cid \<noteq> exclude \<and> clients h cid = Some c) \<and> has_room h c
     then ch_q (chans h c) @ [m] else ch_q (chans h c))"
proof -
  have own: "own_channels h" using assms(1) by (simp add: hub_inv_def)
  have "(\<exists>cid \<in> set ids. cid \<noteq> exclude \<and> clients h cid = Some c) =
      (\<exists>cid. cid \<noteq> exclude \<and> clients h cid = Some c)"
    using assms(2) by (auto simp: range_order_def)
  then show ?thesis
    using fan_out_queue [OF own range_order_distinct [OF assms(2)]]
    by (simp add: broadcast_except_def)
qed

lemma broadcast_queue:
  assumes "hub_inv h" and "range_order (clients h) ids"
  shows "ch_q (chans (broadcast ids m h) c) =
    (if c \<in> ran (clients h) \<and> has_room h c then ch_q (chans h c) @ [m] else ch_q (chans h c))"
proof -
  have own: "own_channels h" using assms(1) by (simp add: hub_inv_def)
  have "(\<exists>cid \<in> set ids. clients h cid = Some c) = (c \<in> ran (clients h))"
    using assms(2) by (auto simp: range_order_def ran_def)
  then show ?thesis
    using fan_out_queue [OF own range_order_distinct [OF assms(2)]]
    by (simp add: broadcast_def)
qed

subsection \<open>Counting\<close>

lemma count_user_clients_card:
  assumes "range_order (userOf h) uids"
  shows "count_user_clients uids h = card {cid. \<exists>u. userOf h cid = Some u \<and> u \<noteq> ''''}"
proof -
  have "foldl (\<lambda>n cid. if zero_get '''' (userOf h) cid \<noteq> '''' then n + 1 else n) k xs =
      k + length (filter (\<lambda>cid. zero_get '''' (userOf h) cid \<noteq> '''') xs)" for k xs
    by (induction xs arbitrary: k) auto
  then have "count_user_clients uids h =
      card (set (filter (\<lambda>cid. zero_get '''' (userOf h) cid \<noteq> '''') uids))"
    using assms
    by (simp add: count_user_clients_def range_order_distinct distinct_card del: set_filter)
  moreover have "set (filter (\<lambda>cid. zero_get '''' (userOf h) cid \<noteq> '''') uids) =
      {cid. \<exists>u. userOf h cid = Some u \<and> u \<noteq> ''''}"
    using assms by (auto simp: range_order_def zero_get_def split: option.splits)
  ultimately show ?thesis by simp
qed

subsection \<open>Delivery to one connected client\<close>

definition chan_push :: "nat \<Rightarrow> 'm list \<Rightarrow> 'm hub \<Rightarrow> 'm hub" where
  "chan_push c ms h = h\<lparr>chans := (chans h)(c := (chans h c)\<lparr>ch_q := ch_q (chans h c) @ ms\<rparr>)\<rparr>"

lemma chan_push_fields [simp]:
  "clients (chan_push c ms h) = clients h" "buffer (chan_push c ms h) = buffer h"
  "userOf (chan_push c ms h) = userOf h" "drops (chan_push c ms h) = drops h"
  "maxBuffer (chan_push c ms h) = maxBuffer h" "onDrop (chan_push c ms h) = onDrop h"
  "ch_cap (chans (chan_push c ms h) c') = ch_cap (chans h c')"
  "ch_q (chans (chan_push c ms h) c') = (if c' = c then ch_q (chans h c) @ ms else ch_q (chans h c'))"
  by (simp_all add: chan_push_def)

lemma chan_push_Nil [simp]: "chan_push c [] h = h"
  by (simp add: chan_push_def)

lemma chan_push_push [simp]: "chan_push c ms' (chan_push c ms h) = chan_push c (ms @ ms') h"
  by (simp add: chan_push_def)

lemma send_connected:
  assumes "clients h cid = Some c" and "length (ch_q (chans h c)) < ch_cap (chans h c)"
  shows "send cid m h = chan_push c [m] h"
  using assms by (simp add: send_def send_deliver_def send_attempt_def try_send_def chan_push_def)

end
