(* ===== verification/GoLib.thy ===== *)
theory GoLib
  imports Prelude
begin

text \<open>
  The parts of Go's standard library the modelled code calls on strings and byte slices:
  \<open>strings.HasPrefix\<close>, \<open>TrimPrefix\<close>, \<open>IndexByte\<close>, \<open>Split\<close>, \<open>Cut\<close>, \<open>TrimSpace\<close>, \<open>Join\<close>, the ASCII
  case mapping and \<open>strconv\<close>'s decimal printing and parsing, each with the laws the components use.
\<close>

subsection \<open>Prefixes\<close>

fun has_prefix :: "'a list \<Rightarrow> 'a list \<Rightarrow> bool" where
  "has_prefix s [] = True"
| "has_prefix [] (p # ps) = False"
| "has_prefix (x # s) (p # ps) = (x = p \<and> has_prefix s ps)"

definition trim_prefix :: "'a list \<Rightarrow> 'a list \<Rightarrow> 'a list" where
  "trim_prefix s p = (if has_prefix s p then drop (length p) s else s)"

definition has_suffix :: "'a list \<Rightarrow> 'a list \<Rightarrow> bool" where
  "has_suffix s p = has_prefix (rev s) (rev p)"

definition trim_suffix :: "'a list \<Rightarrow> 'a list \<Rightarrow> 'a list" where
  "trim_suffix s p = (if has_suffix s p then take (length s - length p) s else s)"

lemma has_prefix_iff: "has_prefix s p \<longleftrightarrow> (\<exists>t. s = p @ t)"
  by (induction s p rule: has_prefix.induct) auto

lemma has_prefix_append [simp]: "has_prefix (p @ t) p"
  by (auto simp: has_prefix_iff)

lemma has_prefix_take: "has_prefix s p \<longleftrightarrow> take (length p) s = p"
  by (induction s p rule: has_prefix.induct) auto

lemma trim_prefix_append [simp]: "trim_prefix (p @ t) p = t"
  by (simp add: trim_prefix_def)

lemma has_prefix_trim: "has_prefix s p \<Longrightarrow> p @ trim_prefix s p = s"
  by (auto simp: has_prefix_iff)

lemma has_suffix_iff: "has_suffix s p \<longleftrightarrow> (\<exists>t. s = t @ p)"
proof
  assume "has_suffix s p"
  then obtain t where "rev s = rev p @ t" by (auto simp: has_suffix_def has_prefix_iff)
  then have "s = rev t @ p" by (metis rev_append rev_rev_ident)
  then show "\<exists>t. s = t @ p" ..
qed (auto simp: has_suffix_def)

subsection \<open>Searching\<close>

text \<open>\<open>bytes.IndexByte\<close>: the first position of a byte, \<open>None\<close> for -1.\<close>

fun index_byte :: "'a \<Rightarrow> 'a list \<Rightarrow> nat option" where
  "index_byte b [] = None"
| "index_byte b (x # xs) = (if x = b then Some 0 else map_option Suc (index_byte b xs))"

lemma index_byte_None [simp]: "index_byte b xs = None \<longleftrightarrow> b \<notin> set xs"
  by (induction xs) auto

lemma index_byte_append_Cons: "b \<notin> set xs \<Longrightarrow> index_byte b (xs @ b # ys) = Some (length xs)"
  by (induction xs) auto

lemma index_byte_SomeD:
  "index_byte b xs = Some i \<Longrightarrow> i < length xs \<and> xs ! i = b \<and> b \<notin> set (take i xs)"
  by (induction xs arbitrary: i) (auto split: if_splits)

text \<open>\<open>strings.Cut\<close> with a one-byte separator.\<close>

definition cut_byte :: "'a \<Rightarrow> 'a list \<Rightarrow> 'a list \<times> 'a list \<times> bool" where
  "cut_byte b s = (case index_byte b s of
     None \<Rightarrow> (s, [], False)
   | Some i \<Rightarrow> (take i s, drop (i + 1) s, True))"

text \<open>\<open>strings.Contains\<close>.\<close>

fun contains_str :: "'a list \<Rightarrow> 'a list \<Rightarrow> bool" where
  "contains_str [] p = (p = [])"
| "contains_str (x # xs) p = (has_prefix (x # xs) p \<or> contains_str xs p)"

lemma contains_str_iff: "contains_str s p \<longleftrightarrow> (\<exists>a b. s = a @ p @ b)"
proof (induction s)
  case (Cons x xs)
  show ?case
  proof
    assume "contains_str (x # xs) p"
    then consider t where "x # xs = p @ t" | a b where "xs = a @ p @ b"
      using Cons.IH by (auto simp: has_prefix_iff)
    then show "\<exists>a b. x # xs = a @ p @ b"
    proof cases
      case (1 t)
      then have "x # xs = [] @ p @ t" by simp
      then show ?thesis by blast
    next
      case (2 a b)
      then have "x # xs = (x # a) @ p @ b" by simp
      then show ?thesis by blast
    qed
  next
    assume "\<exists>a b. x # xs = a @ p @ b"
    then obtain a b where ab: "x # xs = a @ p @ b" by blast
    then show "contains_str (x # xs) p"
    proof (cases a)
      case Nil
      with ab have "has_prefix (x # xs) p" by simp
      then show ?thesis by simp
    next
      case (Cons y ys)
      with ab show ?thesis using Cons.IH by auto
    qed
  qed
qed auto

subsection \<open>Splitting and joining\<close>

fun split_byte :: "'a \<Rightarrow> 'a list \<Rightarrow> 'a list list" where
  "split_byte b [] = [[]]"
| "split_byte b (x # xs) =
     (if x = b then [] # split_byte b xs
      else case split_byte b xs of [] \<Rightarrow> [[x]] | w # ws \<Rightarrow> (x # w) # ws)"

fun join_str :: "'a list \<Rightarrow> 'a list list \<Rightarrow> 'a list" where
  "join_str sep [] = []"
| "join_str sep [w] = w"
| "join_str sep (w # v # ws) = w @ sep @ join_str sep (v # ws)"

lemma split_byte_not_Nil [simp]: "split_byte b s \<noteq> []"
  by (induction s) (auto split: list.splits)

lemma join_split [simp]: "join_str [b] (split_byte b s) = s"
proof (induction s)
  case (Cons x xs)
  then show ?case
    by (cases "split_byte b xs" rule: list.exhaust; cases "tl (split_byte b xs)")
      (auto split: list.splits)
qed simp

lemma split_byte_no_sep: "w \<in> set (split_byte b s) \<Longrightarrow> b \<notin> set w"
  by (induction s arbitrary: w) (auto split: if_splits list.splits)

lemma split_byte_plain: "b \<notin> set w \<Longrightarrow> split_byte b w = [w]"
  by (induction w) auto

lemma split_byte_append: "b \<notin> set w \<Longrightarrow> split_byte b (w @ b # s) = w # split_byte b s"
  by (induction w) auto

lemma split_join:
  "ws \<noteq> [] \<Longrightarrow> (\<And>w. w \<in> set ws \<Longrightarrow> b \<notin> set w) \<Longrightarrow> split_byte b (join_str [b] ws) = ws"
  by (induction ws rule: induct_list012) (simp_all add: split_byte_append split_byte_plain)

subsection \<open>Blanks and case\<close>

text \<open>The white space of ASCII.\<close>

definition is_space :: "char \<Rightarrow> bool" where
  "is_space c \<longleftrightarrow> c \<in> {CHR '' '', CHR 0x09, CHR 0x0A, CHR 0x0B, CHR 0x0C, CHR 0x0D}"

text \<open>
  The white space of Unicode (\<open>unicode.IsSpace\<close>) in UTF-8.  Since no encoding of one character begins
  inside another's, looking for these byte sequences finds what decoding the text would, invalid text
  included.
\<close>

definition blanks :: "string list" where
  "blanks = [[CHR '' ''], [CHR 0x09], [CHR 0x0A], [CHR 0x0B], [CHR 0x0C], [CHR 0x0D],
     [CHR 0xC2, CHR 0x85], [CHR 0xC2, CHR 0xA0], [CHR 0xE1, CHR 0x9A, CHR 0x80],
     [CHR 0xE2, CHR 0x80, CHR 0x80], [CHR 0xE2, CHR 0x80, CHR 0x81], [CHR 0xE2, CHR 0x80, CHR 0x82],
     [CHR 0xE2, CHR 0x80, CHR 0x83], [CHR 0xE2, CHR 0x80, CHR 0x84], [CHR 0xE2, CHR 0x80, CHR 0x85],
     [CHR 0xE2, CHR 0x80, CHR 0x86], [CHR 0xE2, CHR 0x80, CHR 0x87], [CHR 0xE2, CHR 0x80, CHR 0x88],
     [CHR 0xE2, CHR 0x80, CHR 0x89], [CHR 0xE2, CHR 0x80, CHR 0x8A], [CHR 0xE2, CHR 0x80, CHR 0xA8],
     [CHR 0xE2, CHR 0x80, CHR 0xA9], [CHR 0xE2, CHR 0x80, CHR 0xAF], [CHR 0xE2, CHR 0x81, CHR 0x9F],
     [CHR 0xE3, CHR 0x80, CHR 0x80]]"

text \<open>The length of the first of \<open>ps\<close> that begins \<open>s\<close>, 0 if none does.\<close>

fun lead_blank :: "string list \<Rightarrow> string \<Rightarrow> nat" where
  "lead_blank [] s = 0"
| "lead_blank (p # ps) s = (if has_prefix s p then length p else lead_blank ps s)"

lemma lead_blank_cases: "lead_blank ps s = 0 \<or> (\<exists>p \<in> set ps. lead_blank ps s = length p \<and> has_prefix s p)"
  by (induction ps) auto

lemma lead_blank_le: "lead_blank ps s \<le> length s"
  using lead_blank_cases [of ps s] by (auto simp: has_prefix_iff)

function trim_by :: "string list \<Rightarrow> string \<Rightarrow> string" where
  "trim_by ps s = (if lead_blank ps s = 0 then s else trim_by ps (drop (lead_blank ps s) s))"
  by pat_completeness auto
termination
proof (relation "measure (\<lambda>(ps, s). length s)")
  fix ps s
  assume "lead_blank ps s \<noteq> 0"
  then show "((ps, drop (lead_blank ps s) s), (ps, s)) \<in> measure (\<lambda>(ps, s). length s)"
    using lead_blank_le [of ps s] by simp
qed simp

declare trim_by.simps [simp del]

lemma trim_by_none: "lead_blank ps s = 0 \<Longrightarrow> trim_by ps s = s"
  by (subst trim_by.simps) simp

definition trim_space :: "string \<Rightarrow> string" where
  "trim_space s = rev (trim_by (map rev blanks) (rev (trim_by blanks s)))"

definition blank_byte :: "char \<Rightarrow> bool" where
  "blank_byte c \<longleftrightarrow> c \<in> set (concat blanks)"

definition to_lower_char :: "char \<Rightarrow> char" where
  "to_lower_char c = (let n = of_char c :: nat in if 65 \<le> n \<and> n \<le> 90 then char_of (n + 32) else c)"

definition to_lower :: "string \<Rightarrow> string" where
  "to_lower s = map to_lower_char s"

lemma lead_blank_none:
  assumes "\<And>p. p \<in> set ps \<Longrightarrow> c \<notin> set p"
  shows "lead_blank ps (c # s) = 0"
proof (rule ccontr)
  assume "lead_blank ps (c # s) \<noteq> 0"
  with lead_blank_cases [of ps "c # s"] obtain p where p: "p \<in> set ps" "has_prefix (c # s) p" "length p \<noteq> 0" by auto
  then obtain q qs where "p = q # qs" by (auto simp: length_Suc_conv neq_Nil_conv)
  with p(2) have "c \<in> set p" by simp
  with assms p(1) show False by blast
qed

text \<open>Trimming stops at the latest at a byte of no blank.\<close>

lemma trim_by_stops:
  assumes "\<And>p. p \<in> set ps \<Longrightarrow> x \<notin> set p"
  shows "\<exists>a'. set a' \<subseteq> set a \<and> trim_by ps (a @ x # b) = a' @ x # b"
proof (induction a rule: length_induct)
  case (1 a)
  let ?k = "lead_blank ps (a @ x # b)"
  show ?case
  proof (cases "?k = 0")
    case True
    then have "trim_by ps (a @ x # b) = a @ x # b" by (simp add: trim_by.simps)
    then show ?thesis by blast
  next
    case False
    with lead_blank_cases [of ps "a @ x # b"] obtain p where
      p: "p \<in> set ps" "?k = length p" "has_prefix (a @ x # b) p" by auto
    have le: "length p \<le> length a"
    proof (rule ccontr)
      assume "\<not> length p \<le> length a"
      moreover from p(3) obtain t where "a @ x # b = p @ t" by (auto simp: has_prefix_iff)
      ultimately have "x \<in> set p"
        by (metis append_eq_append_conv_if in_set_conv_nth linorder_not_le nth_append nth_append_length)
      with assms p(1) show False by blast
    qed
    with False p(2) have "length (drop ?k a) < length a" using le by (cases a) auto
    with 1 obtain a' where "set a' \<subseteq> set (drop ?k a)" "trim_by ps (drop ?k a @ x # b) = a' @ x # b" by blast
    moreover have "drop ?k (a @ x # b) = drop ?k a @ x # b" using le p(2) by simp
    ultimately have "set a' \<subseteq> set a \<and> trim_by ps (a @ x # b) = a' @ x # b"
      using False set_drop_subset [of ?k a] by (simp add: trim_by.simps [of ps "a @ x # b"] subset_iff)
    then show ?thesis by blast
  qed
qed

lemma not_blank_byte: "\<not> blank_byte c \<Longrightarrow> p \<in> set blanks \<Longrightarrow> c \<notin> set p"
  by (auto simp: blank_byte_def)

lemma not_blank_byte_rev: "\<not> blank_byte c \<Longrightarrow> p \<in> set (map rev blanks) \<Longrightarrow> c \<notin> set p"
  by (auto simp: blank_byte_def)

lemma trim_space_around:
  assumes "\<not> blank_byte x" and "\<not> blank_byte y"
  shows "\<exists>a' b'. set a' \<subseteq> set a \<and> trim_space (a @ x # c @ y # b) = a' @ x # c @ y # b'"
proof -
  obtain a' where a': "set a' \<subseteq> set a" "trim_by blanks (a @ x # c @ y # b) = a' @ x # c @ y # b"
    using trim_by_stops [OF not_blank_byte [OF assms(1)]] by blast
  have "rev (a' @ x # c @ y # b) = rev b @ y # rev (a' @ x # c)" by simp
  then obtain b' where "trim_by (map rev blanks) (rev (a' @ x # c @ y # b)) = b' @ y # rev (a' @ x # c)"
    using trim_by_stops [OF not_blank_byte_rev [OF assms(2)]] by metis
  then have "trim_space (a @ x # c @ y # b) = a' @ x # c @ y # rev b'"
    by (simp add: trim_space_def a'(2))
  with a'(1) show ?thesis by blast
qed

lemma trim_space_id:
  assumes "s \<noteq> []" and "\<not> blank_byte (hd s)" and "\<not> blank_byte (last s)"
  shows "trim_space s = s"
proof -
  obtain x t where t: "s = x # t" using assms(1) by (cases s) auto
  obtain u y where u: "s = u @ [y]" using assms(1) by (cases s rule: rev_cases) auto
  have "lead_blank blanks s = 0"
    using assms(2) unfolding t by (intro lead_blank_none) (simp add: not_blank_byte)
  then have "trim_by blanks s = s" by (rule trim_by_none)
  moreover have "lead_blank (map rev blanks) (rev s) = 0"
    using assms(3) unfolding u by (simp only: rev.simps rev_append append.simps)
      (intro lead_blank_none, simp add: not_blank_byte_rev)
  then have "trim_by (map rev blanks) (rev s) = rev s" by (rule trim_by_none)
  ultimately show ?thesis by (simp add: trim_space_def)
qed

lemma set_trim_by: "set (trim_by ps s) \<subseteq> set s"
proof (induction ps s rule: trim_by.induct)
  case (1 ps s)
  then show ?case using set_drop_subset [of "lead_blank ps s" s] by (subst trim_by.simps) auto
qed

lemma set_trim_space: "set (trim_space s) \<subseteq> set s"
  using set_trim_by [of "map rev blanks" "rev (trim_by blanks s)"] set_trim_by [of blanks s]
  by (auto simp: trim_space_def)

lemma trim_by_Nil [simp]: "trim_by ps [] = []"
  using lead_blank_le [of ps "[]"] by (simp add: trim_by.simps)

lemma trim_space_Nil [simp]: "trim_space [] = []"
  by (simp add: trim_space_def)

subsection \<open>Decimal numbers\<close>

definition digit_char :: "nat \<Rightarrow> char" where
  "digit_char d = char_of (48 + d)"

definition is_digit :: "char \<Rightarrow> bool" where
  "is_digit c \<longleftrightarrow> 48 \<le> (of_char c :: nat) \<and> (of_char c :: nat) \<le> 57"

definition digit_val :: "char \<Rightarrow> nat" where
  "digit_val c = of_char c - 48"

fun nat_str :: "nat \<Rightarrow> string" where
  "nat_str n = (if n < 10 then [digit_char n] else nat_str (n div 10) @ [digit_char (n mod 10)])"

declare nat_str.simps [simp del]

definition int_str :: "int \<Rightarrow> string" where
  "int_str i = (if i < 0 then CHR ''-'' # nat_str (nat (- i)) else nat_str (nat i))"

fun parse_digits :: "nat \<Rightarrow> string \<Rightarrow> nat option" where
  "parse_digits acc [] = Some acc"
| "parse_digits acc (c # cs) =
     (if is_digit c then parse_digits (acc * 10 + digit_val c) cs else None)"

lemma digit_char_props [simp]:
  "d < 10 \<Longrightarrow> is_digit (digit_char d)" "d < 10 \<Longrightarrow> digit_val (digit_char d) = d"
  by (simp_all add: is_digit_def digit_val_def digit_char_def of_char_of take_bit_nat_def)

lemma parse_digits_append:
  "parse_digits a (s @ t) = (case parse_digits a s of None \<Rightarrow> None | Some a' \<Rightarrow> parse_digits a' t)"
  by (induction s arbitrary: a) auto

lemma parse_nat_str: "parse_digits 0 (nat_str n) = Some n"
proof (induction n rule: nat_str.induct)
  case (1 n)
  then show ?case
    by (subst nat_str.simps) (simp add: parse_digits_append)
qed

lemma nat_str_digits: "c \<in> set (nat_str n) \<Longrightarrow> is_digit c"
proof (induction n arbitrary: c rule: nat_str.induct)
  case (1 n)
  from "1.prems" show ?case
    by (subst (asm) nat_str.simps) (auto split: if_splits intro: "1.IH")
qed

lemma nat_str_not_Nil [simp]: "nat_str n \<noteq> []"
  by (subst nat_str.simps) simp

lemma nat_str_inj [simp]: "nat_str m = nat_str n \<longleftrightarrow> m = n"
  by (metis option.inject parse_nat_str)

end
