(* ===== verification/Json.thy ===== *)
theory Json
  imports GoLib
begin

text \<open>
  The part of \<open>encoding/json\<close> the program relies on: values as trees (numbers keep their literal
  text), \<open>Marshal\<close> with Go's escaping of strings, \<open>Unmarshal\<close> as a recursive-descent parser, and the
  decoding of an object into struct fields (case-insensitive names, the last occurrence wins, null
  leaves the zero value, a value of the wrong kind is an error).  Strings are byte lists; bytes from
  128 on pass through, as they do in valid UTF-8 without the two line-separator code points.
\<close>

datatype jval =
    JNull
  | JBool bool
  | JNum string
  | JStr string
  | JArr "jval list"
  | JObj "(string \<times> jval) list"

abbreviation JInt :: "int \<Rightarrow> jval" where
  "JInt i \<equiv> JNum (int_str i)"

subsection \<open>Printing\<close>

definition hex_digit :: "nat \<Rightarrow> char" where
  "hex_digit d = (if d < 10 then char_of (48 + d) else char_of (87 + d))"

definition escape_char :: "char \<Rightarrow> string" where
  "escape_char c = (let n = of_char c :: nat in
     if c = CHR 0x22 then [CHR 0x5C, CHR 0x22]
     else if c = CHR 0x5C then [CHR 0x5C, CHR 0x5C]
     else if c = CHR 0x08 then [CHR 0x5C, CHR ''b'']
     else if c = CHR 0x0C then [CHR 0x5C, CHR ''f'']
     else if c = CHR 0x0A then [CHR 0x5C, CHR ''n'']
     else if c = CHR 0x0D then [CHR 0x5C, CHR ''r'']
     else if c = CHR 0x09 then [CHR 0x5C, CHR ''t'']
     else if n < 32 \<or> c \<in> {CHR ''<'', CHR ''>'', CHR ''&''}
       then [CHR 0x5C, CHR ''u'', CHR ''0'', CHR ''0'', hex_digit (n div 16), hex_digit (n mod 16)]
     else [c])"

definition marshal_str :: "string \<Rightarrow> string" where
  "marshal_str s = CHR 0x22 # concat (map escape_char s) @ [CHR 0x22]"

fun marshal :: "jval \<Rightarrow> string" where
  "marshal JNull = ''null''"
| "marshal (JBool b) = (if b then ''true'' else ''false'')"
| "marshal (JNum s) = s"
| "marshal (JStr s) = marshal_str s"
| "marshal (JArr vs) = ''['' @ join_str '','' (map marshal vs) @ '']''"
| "marshal (JObj kvs) = ''{'' @
     join_str '','' (map (\<lambda>kv. marshal_str (fst kv) @ '':'' @ marshal (snd kv)) kvs) @ ''}''"

subsection \<open>Parsing\<close>

definition json_ws :: "char \<Rightarrow> bool" where
  "json_ws c \<longleftrightarrow> c \<in> {CHR '' '', CHR 0x09, CHR 0x0A, CHR 0x0D}"

definition skip_ws :: "string \<Rightarrow> string" where
  "skip_ws s = dropWhile json_ws s"

definition eat :: "char \<Rightarrow> string \<Rightarrow> string option" where
  "eat c s = (case skip_ws s of [] \<Rightarrow> None | x # r \<Rightarrow> if x = c then Some r else None)"

definition unhex :: "char \<Rightarrow> nat option" where
  "unhex c = (let n = of_char c :: nat in
     if 48 \<le> n \<and> n \<le> 57 then Some (n - 48)
     else if 97 \<le> n \<and> n \<le> 102 then Some (n - 87)
     else if 65 \<le> n \<and> n \<le> 70 then Some (n - 55)
     else None)"

fun unhex4 :: "nat \<Rightarrow> nat \<Rightarrow> string \<Rightarrow> (nat \<times> string) option" where
  "unhex4 0 acc s = Some (acc, s)"
| "unhex4 (Suc k) acc [] = None"
| "unhex4 (Suc k) acc (c # s) =
     (case unhex c of None \<Rightarrow> None | Some d \<Rightarrow> unhex4 k (16 * acc + d) s)"

definition utf8_enc :: "nat \<Rightarrow> string" where
  "utf8_enc n =
     (if n < 128 then [char_of n]
      else if n < 2048 then [char_of (192 + n div 64), char_of (128 + n mod 64)]
      else if n < 65536 then
        [char_of (224 + n div 4096), char_of (128 + n div 64 mod 64), char_of (128 + n mod 64)]
      else [char_of (240 + n div 262144), char_of (128 + n div 4096 mod 64),
        char_of (128 + n div 64 mod 64), char_of (128 + n mod 64)])"

text \<open>The body of a \<open>u\<close> escape: a surrogate pair is one code point, a lone surrogate is U+FFFD.\<close>

definition u_escape :: "string \<Rightarrow> (string \<times> string) option" where
  "u_escape s = (case unhex4 4 0 s of
     None \<Rightarrow> None
   | Some (u, r) \<Rightarrow>
       if u < 55296 \<or> 57344 \<le> u then Some (utf8_enc u, r)
       else if u < 56320 \<and> has_prefix r [CHR 0x5C, CHR ''u''] then
         (case unhex4 4 0 (drop 2 r) of
            None \<Rightarrow> Some (utf8_enc 65533, r)
          | Some (l, r') \<Rightarrow>
              if 56320 \<le> l \<and> l < 57344
              then Some (utf8_enc (65536 + (u - 55296) * 1024 + (l - 56320)), r')
              else Some (utf8_enc 65533, r))
       else Some (utf8_enc 65533, r))"

definition simple_escape :: "char \<Rightarrow> char option" where
  "simple_escape e =
     (if e \<in> {CHR 0x22, CHR 0x5C, CHR ''/''} then Some e
      else if e = CHR ''b'' then Some (CHR 0x08)
      else if e = CHR ''f'' then Some (CHR 0x0C)
      else if e = CHR ''n'' then Some (CHR 0x0A)
      else if e = CHR ''r'' then Some (CHR 0x0D)
      else if e = CHR ''t'' then Some (CHR 0x09)
      else None)"

lemma unhex4_length: "unhex4 k acc s = Some (u, r) \<Longrightarrow> length r \<le> length s"
  by (induction k acc s rule: unhex4.induct) (auto split: option.splits)

lemma u_escape_length: "u_escape s = Some (w, r) \<Longrightarrow> length r \<le> length s"
  by (auto simp: u_escape_def split: option.splits if_splits prod.splits dest!: unhex4_length)

function parse_str :: "string \<Rightarrow> (string \<times> string) option" where
  "parse_str [] = None"
| "parse_str (c # cs) =
     (if c = CHR 0x22 then Some ([], cs)
      else if c = CHR 0x5C then
        (case cs of
           [] \<Rightarrow> None
         | e # r \<Rightarrow>
             (if e = CHR ''u'' then
                (case u_escape r of
                   None \<Rightarrow> None
                 | Some (w, r') \<Rightarrow> map_option (\<lambda>(s, q). (w @ s, q)) (parse_str r'))
              else case simple_escape e of
                   None \<Rightarrow> None
                 | Some x \<Rightarrow> map_option (\<lambda>(s, q). (x # s, q)) (parse_str r)))
      else if (of_char c :: nat) < 32 then None
      else map_option (\<lambda>(s, q). (c # s, q)) (parse_str cs))"
  by pat_completeness auto
termination
  by (relation "measure length") (auto dest: u_escape_length)

fun drop_digits :: "string \<Rightarrow> string" where
  "drop_digits [] = []"
| "drop_digits (c # cs) = (if is_digit c then drop_digits cs else c # cs)"

definition starts_digit :: "string \<Rightarrow> bool" where
  "starts_digit s = (case s of [] \<Rightarrow> False | c # _ \<Rightarrow> is_digit c)"

definition valid_exp :: "string \<Rightarrow> bool" where
  "valid_exp s = (case s of
     [] \<Rightarrow> True
   | c # cs \<Rightarrow> c \<in> {CHR ''e'', CHR ''E''} \<and>
       (let ds = (if has_prefix cs ''+'' \<or> has_prefix cs ''-'' then tl cs else cs)
        in starts_digit ds \<and> drop_digits ds = []))"

definition valid_frac :: "string \<Rightarrow> bool" where
  "valid_frac s = (if has_prefix s ''.'' then starts_digit (tl s) \<and> valid_exp (drop_digits (tl s))
     else valid_exp s)"

definition valid_num :: "string \<Rightarrow> bool" where
  "valid_num s = (let m = (if has_prefix s ''-'' then tl s else s) in
     starts_digit m \<and>
     valid_frac (if has_prefix m ''0'' then tl m else drop_digits m))"

definition num_char :: "char \<Rightarrow> bool" where
  "num_char c \<longleftrightarrow> is_digit c \<or> c \<in> {CHR ''-'', CHR ''+'', CHR ''.'', CHR ''e'', CHR ''E''}"

fun parse_val :: "nat \<Rightarrow> string \<Rightarrow> (jval \<times> string) option"
and parse_elems :: "nat \<Rightarrow> string \<Rightarrow> (jval list \<times> string) option"
and parse_members :: "nat \<Rightarrow> string \<Rightarrow> ((string \<times> jval) list \<times> string) option" where
  "parse_val 0 s = None"
| "parse_val (Suc n) s = (let t = skip_ws s in
     if t = [] then None
     else if hd t = CHR 0x22 then map_option (\<lambda>(w, r). (JStr w, r)) (parse_str (tl t))
     else if hd t = CHR ''['' then
       (case eat (CHR '']'') (tl t) of
          Some r \<Rightarrow> Some (JArr [], r)
        | None \<Rightarrow> map_option (\<lambda>(vs, r). (JArr vs, r)) (parse_elems n (tl t)))
     else if hd t = CHR ''{'' then
       (case eat (CHR ''}'') (tl t) of
          Some r \<Rightarrow> Some (JObj [], r)
        | None \<Rightarrow> map_option (\<lambda>(kvs, r). (JObj kvs, r)) (parse_members n (tl t)))
     else if has_prefix t ''null'' then Some (JNull, drop 4 t)
     else if has_prefix t ''true'' then Some (JBool True, drop 4 t)
     else if has_prefix t ''false'' then Some (JBool False, drop 5 t)
     else let w = takeWhile num_char t in
       if valid_num w then Some (JNum w, dropWhile num_char t) else None)"
| "parse_elems 0 s = None"
| "parse_elems (Suc n) s =
     (case parse_val n s of
        None \<Rightarrow> None
      | Some (v, r) \<Rightarrow>
          (case eat (CHR '','') r of
             Some r' \<Rightarrow> map_option (\<lambda>(vs, q). (v # vs, q)) (parse_elems n r')
           | None \<Rightarrow> map_option (\<lambda>q. ([v], q)) (eat (CHR '']'') r)))"
| "parse_members 0 s = None"
| "parse_members (Suc n) s =
     (case eat (CHR 0x22) s of
        None \<Rightarrow> None
      | Some s1 \<Rightarrow>
     (case parse_str s1 of
        None \<Rightarrow> None
      | Some (k, s2) \<Rightarrow>
     (case eat (CHR '':'') s2 of
        None \<Rightarrow> None
      | Some s3 \<Rightarrow>
     (case parse_val n s3 of
        None \<Rightarrow> None
      | Some (v, r) \<Rightarrow>
          (case eat (CHR '','') r of
             Some r' \<Rightarrow> map_option (\<lambda>(kvs, q). ((k, v) # kvs, q)) (parse_members n r')
           | None \<Rightarrow> map_option (\<lambda>q. ([(k, v)], q)) (eat (CHR ''}'') r))))))"

definition unmarshal :: "string \<Rightarrow> jval option" where
  "unmarshal s = (case parse_val (Suc (length s)) s of
     None \<Rightarrow> None
   | Some (v, r) \<Rightarrow> if skip_ws r = [] then Some v else None)"

subsection \<open>Round trip\<close>

lemma of_char_eq_iff: "(of_char c = (of_char d :: nat)) \<longleftrightarrow> c = d"
  by (metis char_of_char)

lemma unhex_hex_digit: "d < 16 \<Longrightarrow> unhex (hex_digit d) = Some d"
  by (auto simp: unhex_def hex_digit_def of_char_of take_bit_nat_def Let_def)

lemma unhex4_4: "unhex4 4 acc s = unhex4 (Suc (Suc (Suc (Suc 0)))) acc s"
  by (simp only: numeral_eq_Suc pred_numeral_simps BitM.simps numeral_One)

lemma u_escape_byte:
  assumes "(of_char c :: nat) < 128"
  shows "u_escape (CHR ''0'' # CHR ''0'' # hex_digit (of_char c div 16) #
    hex_digit (of_char c mod 16) # t) = Some ([c], t)"
proof -
  have u0: "unhex (CHR ''0'') = Some 0" by (simp add: unhex_def)
  have "(of_char c :: nat) div 16 < 16" using assms by simp
  then have "unhex4 4 0 (CHR ''0'' # CHR ''0'' # hex_digit (of_char c div 16) #
      hex_digit (of_char c mod 16) # t) = Some (of_char c, t)"
    by (simp add: unhex4_4 unhex_hex_digit u0)
  then show ?thesis
    using assms by (simp add: u_escape_def utf8_enc_def)
qed

lemma simple_escapes:
  "simple_escape (CHR 0x22) = Some (CHR 0x22)" "simple_escape (CHR 0x5C) = Some (CHR 0x5C)"
  "simple_escape (CHR ''b'') = Some (CHR 0x08)" "simple_escape (CHR ''f'') = Some (CHR 0x0C)"
  "simple_escape (CHR ''n'') = Some (CHR 0x0A)" "simple_escape (CHR ''r'') = Some (CHR 0x0D)"
  "simple_escape (CHR ''t'') = Some (CHR 0x09)"
  by (simp_all add: simple_escape_def)

lemma parse_escape_char:
  "parse_str (escape_char c @ t) = map_option (\<lambda>(s, q). (c # s, q)) (parse_str t)"
proof -
  define S where "S = {CHR 0x22, CHR 0x5C, CHR 0x08, CHR 0x0C, CHR 0x0A, CHR 0x0D, CHR 0x09}"
  define H where "H = {CHR ''<'', CHR ''>'', CHR ''&''}"
  show ?thesis
  proof (cases "c \<in> S")
    case True
    then show ?thesis unfolding S_def by (auto simp: escape_char_def simple_escapes)
  next
    case out: False
    then have ne: "c \<noteq> CHR 0x22" "c \<noteq> CHR 0x5C" "c \<noteq> CHR 0x08" "c \<noteq> CHR 0x0C" "c \<noteq> CHR 0x0A"
      "c \<noteq> CHR 0x0D" "c \<noteq> CHR 0x09"
      by (simp_all add: S_def)
    show ?thesis
    proof (cases "(of_char c :: nat) < 32 \<or> c \<in> H")
      case True
      then have "(of_char c :: nat) < 128" unfolding H_def by auto
      from u_escape_byte [OF this] True ne show ?thesis
        by (simp add: escape_char_def Let_def H_def)
    next
      case False
      with ne show ?thesis by (simp add: escape_char_def Let_def H_def)
    qed
  qed
qed

lemma parse_str_marshal:
  "parse_str (concat (map escape_char s) @ CHR 0x22 # rest) = Some (s, rest)"
  by (induction s) (simp_all add: parse_escape_char)

fun jsize :: "jval \<Rightarrow> nat" where
  "jsize (JArr vs) = Suc (sum_list (map (\<lambda>v. Suc (jsize v)) vs))"
| "jsize (JObj kvs) = Suc (sum_list (map (\<lambda>kv. Suc (jsize (snd kv))) kvs))"
| "jsize _ = 1"

text \<open>Every number in the value is a JSON number literal.\<close>

fun wf_json :: "jval \<Rightarrow> bool" where
  "wf_json (JNum s) = (valid_num s \<and> list_all num_char s)"
| "wf_json (JArr vs) = list_all wf_json vs"
| "wf_json (JObj kvs) = list_all (\<lambda>kv. wf_json (snd kv)) kvs"
| "wf_json _ = True"

text \<open>What may follow a value: nothing that a number literal could swallow.\<close>

definition ends_num :: "string \<Rightarrow> bool" where
  "ends_num rest \<longleftrightarrow> rest = [] \<or> \<not> num_char (hd rest)"

lemma eat_Cons [simp]: "\<not> json_ws x \<Longrightarrow> eat c (x # r) = (if x = c then Some r else None)"
  by (simp add: eat_def skip_ws_def)

lemma punct_not_ws [simp]:
  "\<not> json_ws (CHR 0x22)" "\<not> json_ws (CHR ''['')" "\<not> json_ws (CHR '']'')" "\<not> json_ws (CHR ''{'')"
  "\<not> json_ws (CHR ''}'')" "\<not> json_ws (CHR '','')" "\<not> json_ws (CHR '':'')"
  "\<not> json_ws (CHR ''n'')" "\<not> json_ws (CHR ''t'')" "\<not> json_ws (CHR ''f'')"
  by (simp_all add: json_ws_def)

lemma punct_ends_num [simp]:
  "ends_num (CHR '']'' # r)" "ends_num (CHR ''}'' # r)" "ends_num (CHR '','' # r)" "ends_num []"
  by (simp_all add: ends_num_def num_char_def is_digit_def)

lemma valid_num_head: "valid_num s \<Longrightarrow> s \<noteq> [] \<and> (is_digit (hd s) \<or> hd s = CHR ''-'')"
  by (cases s) (auto simp: valid_num_def starts_digit_def Let_def split: if_splits)

lemma parse_num:
  assumes "valid_num s" "list_all num_char s" "ends_num rest"
  shows "parse_val (Suc n) (s @ rest) = Some (JNum s, rest)"
proof -
  obtain c cs where s: "s = c # cs" and c: "is_digit c \<or> c = CHR ''-''"
    using valid_num_head [OF assms(1)] by (cases s) auto
  have span: "takeWhile num_char (s @ rest) = s" "dropWhile num_char (s @ rest) = rest"
    using assms(2,3) by (cases rest; auto simp: ends_num_def list_all_iff takeWhile_append)+
  have "\<not> json_ws c" using c by (auto simp: json_ws_def is_digit_def)
  then have ws: "skip_ws (s @ rest) = s @ rest" by (simp add: s skip_ws_def)
  have ne: "c \<noteq> CHR 0x22 \<and> c \<noteq> CHR ''['' \<and> c \<noteq> CHR ''{'' \<and> c \<noteq> CHR ''n'' \<and> c \<noteq> CHR ''t'' \<and>
      c \<noteq> CHR ''f''"
    using c by (auto simp: is_digit_def)
  have pre: "\<not> has_prefix (s @ rest) ''null'' \<and> \<not> has_prefix (s @ rest) ''true'' \<and>
      \<not> has_prefix (s @ rest) ''false''"
    using ne by (simp add: s)
  have hd: "s @ rest \<noteq> []" "hd (s @ rest) = c" by (simp_all add: s)
  show ?thesis
    unfolding parse_val.simps Let_def ws span using ne pre hd assms(1) by simp
qed

lemma marshal_head: "wf_json v \<Longrightarrow> marshal v \<noteq> [] \<and> \<not> json_ws (hd (marshal v)) \<and> hd (marshal v) \<noteq> CHR '']''"
proof (cases v)
  case (JNum s)
  assume "wf_json v"
  with JNum have "s \<noteq> [] \<and> (is_digit (hd s) \<or> hd s = CHR ''-'')" by (simp add: valid_num_head)
  then show ?thesis by (cases s) (auto simp: JNum json_ws_def is_digit_def)
qed (simp_all add: marshal_str_def)

lemma eat_marshal: "wf_json v \<Longrightarrow> eat (CHR '']'') (marshal v @ t) = None"
  using marshal_head [of v] by (cases "marshal v") auto

lemma parse_str_marshal_str: "eat (CHR 0x22) (marshal_str k @ t) = Some (concat (map escape_char k) @ CHR 0x22 # t)"
  by (simp add: marshal_str_def)

definition member_text :: "string \<times> jval \<Rightarrow> string" where
  "member_text kv = marshal_str (fst kv) @ '':'' @ marshal (snd kv)"

lemma parse_elems_marshal:
  assumes "vs \<noteq> []" and "list_all wf_json vs"
    and "\<And>v n r. v \<in> set vs \<Longrightarrow> jsize v \<le> n \<Longrightarrow> ends_num r \<Longrightarrow>
      parse_val n (marshal v @ r) = Some (v, r)"
    and "sum_list (map (\<lambda>v. Suc (jsize v)) vs) \<le> n"
  shows "parse_elems n (join_str '','' (map marshal vs) @ CHR '']'' # r) = Some (vs, r)"
  using assms
proof (induction vs arbitrary: n rule: induct_list012)
  case (2 v)
  then obtain k where "n = Suc k" by (cases n) auto
  with 2 show ?case by simp
next
  case (3 v w vs)
  then obtain k where n: "n = Suc k" by (cases n) auto
  have "parse_elems k (join_str '','' (map marshal (w # vs)) @ CHR '']'' # r) = Some (w # vs, r)"
    using 3 n by simp
  moreover have "parse_val k (marshal v @ CHR '','' # join_str '','' (map marshal (w # vs)) @ CHR '']'' # r) =
      Some (v, CHR '','' # join_str '','' (map marshal (w # vs)) @ CHR '']'' # r)"
    by (rule "3.prems"(3)) (use "3.prems"(4) n in simp_all)
  ultimately show ?case by (simp add: n)
qed simp

lemma parse_members_marshal:
  assumes "kvs \<noteq> []" and "list_all (\<lambda>kv. wf_json (snd kv)) kvs"
    and "\<And>kv n r. kv \<in> set kvs \<Longrightarrow> jsize (snd kv) \<le> n \<Longrightarrow> ends_num r \<Longrightarrow>
      parse_val n (marshal (snd kv) @ r) = Some (snd kv, r)"
    and "sum_list (map (\<lambda>kv. Suc (jsize (snd kv))) kvs) \<le> n"
  shows "parse_members n (join_str '','' (map member_text kvs) @ CHR ''}'' # r) = Some (kvs, r)"
  using assms
proof (induction kvs arbitrary: n rule: induct_list012)
  case (2 kv)
  then obtain k where "n = Suc k" by (cases n) auto
  with 2 show ?case
    by (simp add: member_text_def parse_str_marshal_str parse_str_marshal)
next
  case (3 kv w kvs)
  then obtain k where n: "n = Suc k" by (cases n) auto
  let ?rest = "join_str '','' (map member_text (w # kvs)) @ CHR ''}'' # r"
  have "parse_members k ?rest = Some (w # kvs, r)"
    using 3 n by simp
  moreover have "parse_val k (marshal (snd kv) @ CHR '','' # ?rest) = Some (snd kv, CHR '','' # ?rest)"
    by (rule "3.prems"(3)) (use "3.prems"(4) n in simp_all)
  ultimately show ?case
    by (simp add: n member_text_def [of kv] parse_str_marshal_str parse_str_marshal)
qed simp

lemma parse_val_marshal:
  "wf_json v \<Longrightarrow> jsize v \<le> n \<Longrightarrow> ends_num r \<Longrightarrow> parse_val n (marshal v @ r) = Some (v, r)"
proof (induction v arbitrary: n r)
  case JNull
  then show ?case by (cases n) (simp_all add: skip_ws_def)
next
  case (JBool b)
  then show ?case by (cases n; cases b) (simp_all add: skip_ws_def)
next
  case (JNum s)
  then show ?case by (cases n) (simp_all add: parse_num del: parse_val.simps)
next
  case (JStr s)
  then show ?case
    by (cases n) (simp_all add: skip_ws_def marshal_str_def parse_str_marshal)
next
  case (JArr vs)
  then obtain k where n: "n = Suc k" by (cases n) auto
  show ?case
  proof (cases vs)
    case Nil
    then show ?thesis by (simp add: n skip_ws_def)
  next
    case (Cons v ws)
    let ?text = "join_str '','' (map marshal vs) @ CHR '']'' # r"
    have "parse_elems k ?text = Some (vs, r)"
      by (rule parse_elems_marshal) (use JArr n Cons in \<open>auto simp: list_all_iff\<close>)
    moreover have "\<exists>t. ?text = marshal v @ t"
      by (cases ws) (simp_all add: Cons)
    then have "eat (CHR '']'') ?text = None"
      using JArr.prems(1) Cons by (auto simp: eat_marshal)
    ultimately show ?thesis by (simp add: n skip_ws_def)
  qed
next
  case (JObj kvs)
  then obtain k where n: "n = Suc k" by (cases n) auto
  have eq: "marshal (JObj kvs) = ''{'' @ join_str '','' (map member_text kvs) @ ''}''"
    by (simp add: member_text_def [abs_def])
  show ?case
  proof (cases kvs)
    case Nil
    then show ?thesis by (simp add: n skip_ws_def)
  next
    case (Cons kv ws)
    let ?text = "join_str '','' (map member_text kvs) @ CHR ''}'' # r"
    have vals: "parse_val n (marshal (snd kv) @ r) = Some (snd kv, r)"
      if "kv \<in> set kvs" "jsize (snd kv) \<le> n" "ends_num r" for kv n r
      using JObj.IH [OF that(1), of "snd kv"] JObj.prems(1) that
      by (cases kv) (auto simp: list_all_iff)
    have "parse_members k ?text = Some (kvs, r)"
      by (rule parse_members_marshal) (use JObj.prems n Cons vals in \<open>simp_all\<close>)
    moreover have "\<exists>t. ?text = CHR 0x22 # t"
      by (cases ws) (simp_all add: Cons member_text_def marshal_str_def)
    then have "eat (CHR ''}'') ?text = None" by auto
    ultimately show ?thesis unfolding eq by (simp add: n skip_ws_def)
  qed
qed

lemma sum_le_join:
  assumes "\<And>x. x \<in> set xs \<Longrightarrow> f x \<le> length (g x)"
  shows "sum_list (map (\<lambda>x. Suc (f x)) xs) \<le> Suc (length (join_str [c] (map g xs)))"
  using assms
proof (induction xs rule: induct_list012)
  case (3 x y zs)
  have "f x \<le> length (g x)" using "3.prems" by simp
  with 3 show ?case by fastforce
qed auto

lemma jsize_le_length: "wf_json v \<Longrightarrow> jsize v \<le> length (marshal v)"
proof (induction v)
  case (JNum s)
  then show ?case using valid_num_head [of s] by (cases s) auto
next
  case (JArr vs)
  then show ?case
    using sum_le_join [of vs jsize marshal "CHR '',''"] by (simp add: list_all_iff)
next
  case (JObj kvs)
  have "jsize (snd kv) \<le> length (member_text kv)" if "kv \<in> set kvs" for kv
    using JObj.IH [OF that, of "snd kv"] JObj.prems that
    by (cases kv) (auto simp: member_text_def list_all_iff)
  with JObj show ?case
    using sum_le_join [of kvs "\<lambda>kv. jsize (snd kv)" member_text "CHR '',''"]
    by (simp add: member_text_def [abs_def])
qed (simp_all add: marshal_str_def)

lemma unmarshal_marshal [simp]: "wf_json v \<Longrightarrow> unmarshal (marshal v) = Some v"
proof -
  assume a: "wf_json v"
  then have "parse_val (Suc (length (marshal v))) (marshal v @ []) = Some (v, [])"
    by (intro parse_val_marshal) (simp_all add: jsize_le_length le_SucI)
  then show ?thesis by (simp add: unmarshal_def skip_ws_def del: parse_val.simps)
qed

subsection \<open>Decoding into struct fields\<close>

text \<open>
  \<open>decode_field conv z name kvs\<close> runs over the members in order: a member whose name matches
  (ASCII case folding) is converted over the value so far, which starts as the zero value; \<open>None\<close>
  is the type error \<open>Unmarshal\<close> returns.
\<close>

definition decode_field :: "('a \<Rightarrow> jval \<Rightarrow> 'a option) \<Rightarrow> 'a \<Rightarrow> string \<Rightarrow> (string \<times> jval) list \<Rightarrow> 'a option" where
  "decode_field conv z name kvs = foldl (\<lambda>acc kv.
     if to_lower (fst kv) = to_lower name
     then (case acc of None \<Rightarrow> None | Some old \<Rightarrow> conv old (snd kv)) else acc) (Some z) kvs"

fun dec_str :: "string \<Rightarrow> jval \<Rightarrow> string option" where
  "dec_str old (JStr s) = Some s"
| "dec_str old JNull = Some old"
| "dec_str old _ = None"

fun dec_bool :: "bool \<Rightarrow> jval \<Rightarrow> bool option" where
  "dec_bool old (JBool b) = Some b"
| "dec_bool old JNull = Some old"
| "dec_bool old _ = None"

definition parse_int :: "string \<Rightarrow> int option" where
  "parse_int s = (if s = [] \<or> s = ''-'' then None
     else if has_prefix s ''-'' then map_option (\<lambda>n. - int n) (parse_digits 0 (tl s))
     else map_option int (parse_digits 0 s))"

text \<open>An \<open>int\<close> field: an integer literal in the range of \<open>int64\<close>.\<close>

fun dec_int :: "int \<Rightarrow> jval \<Rightarrow> int option" where
  "dec_int old (JNum s) = (case parse_int s of
     None \<Rightarrow> None
   | Some i \<Rightarrow> if - (2 ^ 63) \<le> i \<and> i < 2 ^ 63 then Some i else None)"
| "dec_int old JNull = Some old"
| "dec_int old _ = None"

text \<open>A \<open>json.RawMessage\<close> field takes any value, null included.\<close>

definition dec_raw :: "jval option \<Rightarrow> jval \<Rightarrow> jval option option" where
  "dec_raw old v = Some (Some v)"

definition raw_json :: "jval option \<Rightarrow> jval" where
  "raw_json p = (case p of None \<Rightarrow> JNull | Some v \<Rightarrow> v)"

fun wf_raw :: "jval option \<Rightarrow> bool" where
  "wf_raw None = True"
| "wf_raw (Some v) = wf_json v"

lemma wf_raw_json [simp]: "wf_json (raw_json p) = wf_raw p"
  by (cases p) (simp_all add: raw_json_def)

lemma decode_field_Nil [simp]: "decode_field conv z name [] = Some z"
  by (simp add: decode_field_def)

lemma decode_field_snoc [simp]:
  "decode_field conv z name (kvs @ [(k, v)]) =
    (if to_lower k = to_lower name
     then (case decode_field conv z name kvs of None \<Rightarrow> None | Some old \<Rightarrow> conv old v)
     else decode_field conv z name kvs)"
  by (simp add: decode_field_def split: option.splits)

lemma decode_field_Cons:
  "decode_field conv z name ((k, v) # kvs) =
    (if to_lower k = to_lower name
     then (case conv z v of None \<Rightarrow> None | Some z' \<Rightarrow> decode_field conv z' name kvs)
     else decode_field conv z name kvs)"
proof -
  have "foldl (\<lambda>acc kv. if to_lower (fst kv) = to_lower name
      then (case acc of None \<Rightarrow> None | Some old \<Rightarrow> conv old (snd kv)) else acc) None kvs = None"
    by (induction kvs) auto
  then show ?thesis by (auto simp: decode_field_def split: option.splits)
qed

lemma parse_int_str [simp]: "parse_int (int_str i) = Some i"
proof -
  have "hd (nat_str n) \<noteq> CHR ''-''" for n
    using nat_str_digits [of "hd (nat_str n)" n] by (auto simp: is_digit_def)
  then have "\<not> has_prefix (nat_str n) ''-'' \<and> nat_str n \<noteq> ''-''" for n
    by (metis has_prefix_iff hd_append list.sel(1) list.discI append_self_conv)
  then show ?thesis
    by (auto simp: parse_int_def int_str_def parse_nat_str)
qed

lemma drop_digits_all: "list_all is_digit s \<Longrightarrow> drop_digits s = []"
  by (induction s) auto

lemma nat_str_head_zero: "hd (nat_str n) = CHR ''0'' \<Longrightarrow> n = 0"
proof (induction n rule: nat_str.induct)
  case (1 n)
  show ?case
  proof (cases "n < 10")
    case True
    with 1 have "digit_val (digit_char n) = 0"
      by (subst (asm) (2) nat_str.simps) (simp add: digit_val_def)
    with True show ?thesis by simp
  next
    case False
    with 1 have "n div 10 = 0"
      by (subst (asm) (2) nat_str.simps) (simp add: hd_append)
    with False show ?thesis by simp
  qed
qed

lemma wf_JInt [simp]: "wf_json (JInt i)"
proof -
  have dig: "list_all is_digit (nat_str n)" for n
    using nat_str_digits by (auto simp: list_all_iff)
  have nat_ok: "starts_digit (nat_str n) \<and>
      valid_frac (if has_prefix (nat_str n) ''0'' then tl (nat_str n) else drop_digits (nat_str n))" for n
  proof -
    obtain c cs where cs: "nat_str n = c # cs" by (cases "nat_str n") auto
    have "cs = []" if "c = CHR ''0''"
    proof -
      have "n = 0" using nat_str_head_zero [of n] cs that by simp
      then show ?thesis using cs by (subst (asm) nat_str.simps) simp
    qed
    then show ?thesis
      using dig [of n] cs drop_digits_all [OF dig [of n]]
      by (auto simp: starts_digit_def valid_frac_def valid_exp_def)
  qed
  have ne: "\<not> has_prefix (nat_str n) ''-''" for n
  proof
    assume "has_prefix (nat_str n) ''-''"
    then have "is_digit (CHR ''-'')" using dig [of n] by (auto simp: has_prefix_iff)
    then show False by (simp add: is_digit_def)
  qed
  have nc: "list_all num_char (nat_str n)" for n
    using dig [of n] by (auto simp: list_all_iff num_char_def)
  show ?thesis
    using nat_ok ne nc by (simp add: int_str_def valid_num_def num_char_def)
qed

subsection \<open>Quoted strings and byte slices\<close>

text \<open>\<open>%q\<close>: Go's quoting of a string, of bytes below 128; the others are printable UTF-8.\<close>

definition quote_char :: "char \<Rightarrow> string" where
  "quote_char c = (let n = of_char c :: nat; bs = CHR 0x5C in
     if c = CHR 0x22 then [bs, CHR 0x22]
     else if c = bs then [bs, bs]
     else if n = 7 then [bs, CHR ''a'']
     else if n = 8 then [bs, CHR ''b'']
     else if n = 12 then [bs, CHR ''f'']
     else if n = 10 then [bs, CHR ''n'']
     else if n = 13 then [bs, CHR ''r'']
     else if n = 9 then [bs, CHR ''t'']
     else if n = 11 then [bs, CHR ''v'']
     else if n < 32 \<or> n = 127 then [bs, CHR ''x'', hex_digit (n div 16), hex_digit (n mod 16)]
     else [c])"

definition go_quote :: "string \<Rightarrow> string" where
  "go_quote s = CHR 0x22 # concat (map quote_char s) @ [CHR 0x22]"

text \<open>A \<open>[]byte\<close> value is marshalled as a string in base 64.\<close>

definition b64_char :: "nat \<Rightarrow> char" where
  "b64_char n = (if n < 26 then char_of (65 + n) else if n < 52 then char_of (71 + n)
     else if n < 62 then char_of (n - 4) else if n = 62 then CHR ''+'' else CHR ''/'')"

fun base64 :: "bytes \<Rightarrow> string" where
  "base64 [] = []"
| "base64 [a] = (let x = of_char a * 65536 in
     [b64_char (x div 262144 mod 64), b64_char (x div 4096 mod 64), CHR ''='', CHR ''=''])"
| "base64 [a, b] = (let x = of_char a * 65536 + of_char b * 256 in
     [b64_char (x div 262144 mod 64), b64_char (x div 4096 mod 64), b64_char (x div 64 mod 64), CHR ''=''])"
| "base64 (a # b # d # r) = (let x = of_char a * 65536 + of_char b * 256 + of_char d in
     [b64_char (x div 262144 mod 64), b64_char (x div 4096 mod 64), b64_char (x div 64 mod 64), b64_char (x mod 64)]) @
     base64 r"

definition json_bytes :: "bytes \<Rightarrow> jval" where
  "json_bytes b = JStr (base64 b)"

end
