(* ===== verification/Jobs.thy ===== *)
theory Jobs
  imports Json Hub
begin

text \<open>
  The job envelope and the handler registry of \<open>internal/queue/handlers.go\<close>.  A handler is a
  value of an arbitrary type \<open>'h\<close>; looking up an unknown type yields the not-found handler.
\<close>

record job =
  jb_type :: string
  jb_client :: string
  jb_payload :: "jval option"

definition job_json :: "job \<Rightarrow> jval" where
  "job_json j = JObj [(''type'', JStr (jb_type j)), (''clientID'', JStr (jb_client j)),
     (''payload'', raw_json (jb_payload j))]"

definition encode_job :: "job \<Rightarrow> bytes" where
  "encode_job j = marshal (job_json j)"

definition decode_job_json :: "jval \<Rightarrow> job option" where
  "decode_job_json v = (case v of
     JNull \<Rightarrow> Some \<lparr>jb_type = '''', jb_client = '''', jb_payload = None\<rparr>
   | JObj kvs \<Rightarrow>
       (case decode_field dec_str '''' ''type'' kvs of None \<Rightarrow> None | Some t \<Rightarrow>
       (case decode_field dec_str '''' ''clientID'' kvs of None \<Rightarrow> None | Some c \<Rightarrow>
       (case decode_field dec_raw None ''payload'' kvs of None \<Rightarrow> None | Some p \<Rightarrow>
         Some \<lparr>jb_type = t, jb_client = c, jb_payload = p\<rparr>)))
   | _ \<Rightarrow> None)"

text \<open>\<open>DecodeJob\<close>; \<open>None\<close> is the error.\<close>

definition decode_job :: "bytes \<Rightarrow> job option" where
  "decode_job body = (case unmarshal body of None \<Rightarrow> None | Some v \<Rightarrow> decode_job_json v)"

subsection \<open>Registry\<close>

record 'h registry =
  reg_handlers :: "string \<rightharpoonup> 'h"
  reg_not_found :: 'h

definition new_registry :: "'h \<Rightarrow> 'h registry" where
  "new_registry nf = \<lparr>reg_handlers = Map.empty, reg_not_found = nf\<rparr>"

text \<open>\<open>None\<close> is the panic on a duplicate registration.\<close>

definition reg_register :: "string \<Rightarrow> 'h \<Rightarrow> 'h registry \<Rightarrow> 'h registry option" where
  "reg_register t h r = (case reg_handlers r t of
     Some _ \<Rightarrow> None
   | None \<Rightarrow> Some (r\<lparr>reg_handlers := (reg_handlers r)(t \<mapsto> h)\<rparr>))"

definition reg_lookup :: "string \<Rightarrow> 'h registry \<Rightarrow> 'h" where
  "reg_lookup t r = (case reg_handlers r t of Some h \<Rightarrow> h | None \<Rightarrow> reg_not_found r)"

definition set_not_found :: "'h \<Rightarrow> 'h registry \<Rightarrow> 'h registry" where
  "set_not_found h r = r\<lparr>reg_not_found := h\<rparr>"

fun register_all :: "(string \<times> 'h) list \<Rightarrow> 'h registry \<Rightarrow> 'h registry option" where
  "register_all [] r = Some r"
| "register_all ((t, h) # xs) r =
     (case reg_register t h r of None \<Rightarrow> None | Some r' \<Rightarrow> register_all xs r')"

subsection \<open>Lemmas\<close>

lemma wf_job_json [simp]: "wf_json (job_json j) = wf_raw (jb_payload j)"
  by (simp add: job_json_def)

lemma lower_names [simp]:
  "to_lower ''type'' = ''type''" "to_lower ''clientID'' = ''clientid''"
  "to_lower ''payload'' = ''payload''"
  by code_simp+

lemma decode_job_json_job: "decode_job_json (job_json j) =
    Some (j\<lparr>jb_payload := Some (raw_json (jb_payload j))\<rparr>)"
  by (simp add: decode_job_json_def job_json_def decode_field_Cons dec_raw_def)

lemma decode_encode:
  "wf_raw (jb_payload j) \<Longrightarrow>
    decode_job (encode_job j) = Some (j\<lparr>jb_payload := Some (raw_json (jb_payload j))\<rparr>)"
  by (simp add: decode_job_def encode_job_def decode_job_json_job)

text \<open>Decoding an encoded job gives the job back, with a missing payload read as JSON null.\<close>
lemma decode_encode_job:
  assumes "wf_raw (jb_payload j)"
  shows "decode_job (encode_job j) = Some (j\<lparr>jb_payload := Some (raw_json (jb_payload j))\<rparr>)"
  using assms by (rule decode_encode)

lemma decode_encode_job_witness:
  "decode_job (encode_job \<lparr>jb_type = ''retry'', jb_client = ''t\"1'', jb_payload = Some (JBool True)\<rparr>) =
   Some \<lparr>jb_type = ''retry'', jb_client = ''t\"1'', jb_payload = Some (JBool True)\<rparr>"
  by (subst decode_encode_job) (simp_all add: raw_json_def)

lemma reg_lookup_register:
  "reg_register t h r = Some r' \<Longrightarrow> reg_lookup t' r' = (if t' = t then h else reg_lookup t' r)"
  by (auto simp: reg_register_def reg_lookup_def split: option.splits)

lemma register_all_append:
  "register_all (xs @ ys) r = (case register_all xs r of None \<Rightarrow> None | Some r' \<Rightarrow> register_all ys r')"
  by (induction xs r rule: register_all.induct) (auto split: option.splits)

text \<open>Registering a sequence of handlers panics exactly when a type is registered twice;
  otherwise every registered type finds its own handler and every other type the not-found handler,
  whatever the order of registration.\<close>
lemma register_all_spec:
  "(case register_all xs (new_registry nf) of
      None \<Rightarrow> \<not> distinct (map fst xs)
    | Some r \<Rightarrow> distinct (map fst xs) \<and>
        (\<forall>t. reg_lookup t r = (case map_of xs t of Some h \<Rightarrow> h | None \<Rightarrow> nf)))"
proof -
  have "(case register_all xs r of
      None \<Rightarrow> \<not> distinct (map fst xs) \<or> (\<exists>t \<in> set (map fst xs). reg_handlers r t \<noteq> None)
    | Some r' \<Rightarrow> distinct (map fst xs) \<and> (\<forall>t \<in> set (map fst xs). reg_handlers r t = None) \<and>
        reg_not_found r' = reg_not_found r \<and> reg_handlers r' = reg_handlers r ++ map_of xs)" for r
  proof (induction xs r rule: register_all.induct)
    case (2 t h xs r)
    show ?case
    proof (cases "reg_register t h r")
      case None
      then show ?thesis by (auto simp: reg_register_def split: option.splits)
    next
      case (Some r')
      then have r': "r' = r\<lparr>reg_handlers := (reg_handlers r)(t \<mapsto> h)\<rparr>" and free: "reg_handlers r t = None"
        by (auto simp: reg_register_def split: option.splits)
      have "(reg_handlers r)(t \<mapsto> h) ++ map_of xs = (reg_handlers r ++ map_of xs)(t \<mapsto> h)"
        if "t \<notin> fst ` set xs"
        using that by (simp add: map_add_upd_left dom_map_of_conv_image_fst)
      note upd = this
      show ?thesis
      proof (cases "register_all xs r'")
        case none: None
        with 2 [OF Some] have "\<not> distinct (map fst xs) \<or> (\<exists>u \<in> set (map fst xs). reg_handlers r' u \<noteq> None)"
          by simp
        then show ?thesis using Some none r' by (auto split: if_splits)
      next
        case r2: (Some r2)
        with 2 [OF Some] have IH: "distinct (map fst xs)" "\<And>u. u \<in> fst ` set xs \<Longrightarrow> reg_handlers r' u = None"
          "reg_not_found r2 = reg_not_found r'" "reg_handlers r2 = reg_handlers r' ++ map_of xs"
          by auto
        have "t \<notin> fst ` set xs" using IH(2) [of t] by (auto simp: r')
        moreover from this have "reg_handlers r u = None" if "u \<in> fst ` set xs" for u
          using IH(2) [OF that] that by (auto simp: r' split: if_splits)
        ultimately show ?thesis
          using Some r2 r' IH(1,3,4) free upd by (simp del: fun_upd_apply)
      qed
    qed
  qed (simp add: )
  from this [of "new_registry nf"] show ?thesis
    by (cases "register_all xs (new_registry nf)")
      (auto simp: new_registry_def reg_lookup_def cong: option.case_cong)
qed

end
