(* ===== verification/Retry.thy ===== *)
theory Retry
  imports Jobs "HOL-Library.Word"
begin

text \<open>
  \<open>internal/queue/retry.go\<close>: the retry policy around the external \<open>retry.Do\<close>.  The library
  function is a parameter; what is used of its documentation is \<open>retry_contract\<close>.  Durations are
  nanoseconds.  The closure given to the library threads its own attempt counter, the caller's
  world and the hub.
\<close>

subsection \<open>Errors\<close>

text \<open>
  A Go error value as the code sees it: a plain message, a message wrapping another error
  (\<open>%w\<close>), or an API error of the LLM client with its HTTP status.
\<close>

datatype go_error =
    Plain string
  | Wrapped string go_error
  | APIError int string

fun error_text :: "go_error \<Rightarrow> string" where
  "error_text (Plain s) = s"
| "error_text (Wrapped s e) = s @ '': '' @ error_text e"
| "error_text (APIError st s) = s"

fun as_api_error :: "go_error \<Rightarrow> int option" where
  "as_api_error (Plain s) = None"
| "as_api_error (Wrapped s e) = as_api_error e"
| "as_api_error (APIError st s) = Some st"

definition err_msg :: "go_error option \<Rightarrow> string" where
  "err_msg e = (case e of None \<Rightarrow> '''' | Some e \<Rightarrow> error_text e)"

definition is_auth_error :: "go_error option \<Rightarrow> bool" where
  "is_auth_error err = (case err of
     None \<Rightarrow> False
   | Some e \<Rightarrow> (case as_api_error e of
        None \<Rightarrow> False
      | Some st \<Rightarrow>
          if st = 401 \<or> st = 403 then True
          else if st = 429 then False
          else if st \<ge> 400 \<and> st < 500 then True
          else False))"

subsection \<open>Policy\<close>

record retry_config =
  rc_attempts :: nat
  rc_delay :: int
  rc_max_delay :: int
  rc_jitter_percent :: int

definition default_retry :: retry_config where
  "default_retry = \<lparr>rc_attempts = 3, rc_delay = 2 * 10 ^ 9, rc_max_delay = 30 * 10 ^ 9,
     rc_jitter_percent = 20\<rparr>"

text \<open>
  \<open>float64(x)\<close> of an \<open>int64\<close>: exact below 2^53, else rounded to 53 significant bits, ties to even.
\<close>

fun bit_len :: "nat \<Rightarrow> nat" where
  "bit_len n = (if n = 0 then 0 else Suc (bit_len (n div 2)))"

declare bit_len.simps [simp del]

definition f64_of_int :: "int \<Rightarrow> int" where
  "f64_of_int x = (let a = nat \<bar>x\<bar>; k = bit_len a - 53; q = a div 2 ^ k; r = a mod 2 ^ k;
     up = (2 * r > 2 ^ k \<or> (2 * r = 2 ^ k \<and> odd q));
     y = int ((if k > 0 \<and> up then q + 1 else q) * 2 ^ k)
   in if x < 0 then - y else y)"

text \<open>\<open>int(1) << (n-1)\<close> with \<open>n\<close> a 64-bit \<open>uint\<close>: the subtraction wraps, a shift by the width or more
  is 0, a shift by 63 is the least integer.\<close>

definition shift_one :: "64 word \<Rightarrow> int" where
  "shift_one n = (let k = unat (n - 1) in if k < 64 then sint (push_bit k (1 :: 64 word)) else 0)"

text \<open>
  The \<open>DelayType\<close> callback.  Both factors are floats and the second is a power of two (or 0), so the
  product is exact; converting it to a \<open>Duration\<close> outside of the range of \<open>int64\<close> is
  implementation-specific in Go, which is the parameter \<open>ovf\<close>.
\<close>

definition backoff :: "(int \<Rightarrow> int) \<Rightarrow> retry_config \<Rightarrow> 64 word \<Rightarrow> int" where
  "backoff ovf cfg n =
     (let v = f64_of_int (rc_delay cfg) * shift_one n;
          d = (if - (2 ^ 63) \<le> v \<and> v < 2 ^ 63 then v else ovf v)
      in min d (rc_max_delay cfg))"

subsection \<open>The library call\<close>

record retry_opts =
  ro_attempts :: nat
  ro_cancelled :: bool
  ro_delay_type :: "64 word \<Rightarrow> int"
  ro_retry_if :: "go_error \<Rightarrow> bool"

type_synonym ('s, 'e) call = "'s \<Rightarrow> 's \<times> 'e option"

type_synonym 's retry_do = "retry_opts \<Rightarrow> ('s, go_error) call \<Rightarrow> 's \<Rightarrow> 's \<times> go_error option"

primrec after_calls :: "('s, 'e) call \<Rightarrow> nat \<Rightarrow> 's \<Rightarrow> 's" where
  "after_calls f 0 s = s"
| "after_calls f (Suc n) s = fst (f (after_calls f n s))"

definition call_error :: "('s, 'e) call \<Rightarrow> nat \<Rightarrow> 's \<Rightarrow> 'e option" where
  "call_error f i s = snd (f (after_calls f i s))"

text \<open>
  What the code relies on of \<open>retry.Do\<close> with \<open>LastErrorOnly\<close>: it calls the function at most
  \<open>Attempts\<close> times, goes on only after an error that \<open>RetryIf\<close> accepts, and returns the result of
  the last call; a cancelled context may cut it short with an error.
\<close>

definition retry_contract :: "'s retry_do \<Rightarrow> bool" where
  "retry_contract rd \<longleftrightarrow> (\<forall>opts f s. 0 < ro_attempts opts \<longrightarrow>
     (\<exists>k \<le> ro_attempts opts. fst (rd opts f s) = after_calls f k s \<and>
       (\<forall>i. Suc i < k \<longrightarrow> (\<exists>e. call_error f i s = Some e \<and> ro_retry_if opts e)) \<and>
       (if ro_cancelled opts
        then snd (rd opts f s) = None \<longrightarrow> 0 < k \<and> call_error f (k - 1) s = None
        else 0 < k \<and> snd (rd opts f s) = call_error f (k - 1) s \<and>
          (k < ro_attempts opts \<longrightarrow>
             (case call_error f (k - 1) s of None \<Rightarrow> True | Some e \<Rightarrow> \<not> ro_retry_if opts e)))))"

subsection \<open>Do\<close>

definition retry_payload :: "string \<Rightarrow> nat \<Rightarrow> go_error option \<Rightarrow> jval" where
  "retry_payload op n err = JObj [
     (''attempt'', JInt (int n)), (''error'', JStr (err_msg err)),
     (''operation'', JStr op),
     (''status'', JStr (if err = None then ''success'' else ''attempt''))]"

definition retry_event :: "string \<Rightarrow> string \<Rightarrow> nat \<Rightarrow> go_error option \<Rightarrow> bytes" where
  "retry_event cid op n err =
     encode_job \<lparr>jb_type = ''retry'', jb_client = cid, jb_payload = Some (retry_payload op n err)\<rparr>"

text \<open>The closure: count, run, report to the client's stream.\<close>

definition attempt_once ::
  "bool \<Rightarrow> string \<Rightarrow> string \<Rightarrow> ('w \<times> bytes hub, go_error) call \<Rightarrow>
   (nat \<times> 'w \<times> bytes hub, go_error) call" where
  "attempt_once has_hub cid op fn st =
     (case st of (n, wh) \<Rightarrow>
        (case fn wh of ((w, h), err) \<Rightarrow>
           ((n + 1, w, if has_hub \<and> cid \<noteq> '''' then send cid (retry_event cid op (n + 1) err) h else h),
            err)))"

definition retry_options :: "(int \<Rightarrow> int) \<Rightarrow> retry_config \<Rightarrow> bool \<Rightarrow> retry_opts" where
  "retry_options ovf cfg cancelled = \<lparr>ro_attempts = rc_attempts cfg, ro_cancelled = cancelled,
     ro_delay_type = backoff ovf cfg, ro_retry_if = (\<lambda>e. \<not> is_auth_error (Some e))\<rparr>"

definition retry_do_fn ::
  "(nat \<times> 'w \<times> bytes hub) retry_do \<Rightarrow> (int \<Rightarrow> int) \<Rightarrow> retry_config \<Rightarrow> bool \<Rightarrow> bool \<Rightarrow> string \<Rightarrow> string \<Rightarrow>
   ('w \<times> bytes hub, go_error) call \<Rightarrow> ('w \<times> bytes hub, go_error) call" where
  "retry_do_fn rd ovf cfg cancelled has_hub cid op fn wh =
     (case rd (retry_options ovf cfg cancelled) (attempt_once has_hub cid op fn) (0, wh) of
        ((n, wh'), err) \<Rightarrow> (wh', err))"

definition do_silent ::
  "(nat \<times> 'w \<times> bytes hub) retry_do \<Rightarrow> (int \<Rightarrow> int) \<Rightarrow> retry_config \<Rightarrow> bool \<Rightarrow>
   ('w \<times> bytes hub, go_error) call \<Rightarrow> ('w \<times> bytes hub, go_error) call" where
  "do_silent rd ovf cfg cancelled fn = retry_do_fn rd ovf cfg cancelled False '''' '''' fn"

subsection \<open>A loop that meets the contract\<close>

text \<open>The contract is satisfiable: the plain retry loop over the remaining attempts meets it.\<close>

fun retry_loop :: "retry_opts \<Rightarrow> ('s, go_error) call \<Rightarrow> nat \<Rightarrow> 's \<Rightarrow> 's \<times> go_error option" where
  "retry_loop opts f 0 s = (s, None)"
| "retry_loop opts f (Suc n) s = (case f s of
     (s', None) \<Rightarrow> (s', None)
   | (s', Some e) \<Rightarrow> if ro_retry_if opts e \<and> 0 < n then retry_loop opts f n s' else (s', Some e))"

definition simple_retry :: "'s retry_do" where
  "simple_retry opts f s = retry_loop opts f (ro_attempts opts) s"

lemma after_calls_shift: "after_calls f (Suc n) s = after_calls f n (fst (f s))"
  by (induction n) simp_all

lemma retry_loop_calls:
  assumes "0 < n"
  shows "\<exists>k \<le> n. 0 < k \<and> retry_loop opts f n s = (after_calls f k s, call_error f (k - 1) s) \<and>
    (\<forall>i. Suc i < k \<longrightarrow> (\<exists>e. call_error f i s = Some e \<and> ro_retry_if opts e)) \<and>
    (k < n \<longrightarrow> (case call_error f (k - 1) s of None \<Rightarrow> True | Some e \<Rightarrow> \<not> ro_retry_if opts e))"
  using assms
proof (induction opts f n s rule: retry_loop.induct)
  case (2 opts f n s)
  obtain s' r where fs: "f s = (s', r)" by (cases "f s") auto
  show ?case
  proof (cases "\<exists>e. r = Some e \<and> ro_retry_if opts e \<and> 0 < n")
    case False
    then show ?thesis
      by (intro exI [of _ 1]) (auto simp: fs call_error_def split: option.splits)
  next
    case True
    then obtain e where e: "r = Some e" "ro_retry_if opts e" "0 < n" by blast
    from "2.IH" [of s' r e] fs e obtain k where k: "k \<le> n" "0 < k"
      "retry_loop opts f n s' = (after_calls f k s', call_error f (k - 1) s')"
      "\<forall>i. Suc i < k \<longrightarrow> (\<exists>e. call_error f i s' = Some e \<and> ro_retry_if opts e)"
      "k < n \<longrightarrow> (case call_error f (k - 1) s' of None \<Rightarrow> True | Some e \<Rightarrow> \<not> ro_retry_if opts e)"
      by auto
    have shift: "call_error f (Suc i) s = call_error f i s'" for i
      by (simp add: call_error_def after_calls_shift fs del: after_calls.simps)
    have first: "call_error f 0 s = Some e" by (simp add: call_error_def fs e)
    have last: "call_error f k s = call_error f (k - 1) s'"
      using shift [of "k - 1"] k(2) by simp
    have mid: "\<exists>e. call_error f i s = Some e \<and> ro_retry_if opts e" if "Suc i < Suc k" for i
      using that k(4) first e by (cases i) (auto simp: shift)
    show ?thesis
      by (rule exI [of _ "Suc k"])
        (use k e mid last after_calls_shift [of f k s] fs in auto)
  qed
qed simp

lemma simple_retry_contract: "retry_contract simple_retry"
  unfolding retry_contract_def
proof (intro allI impI)
  fix opts :: retry_opts and f and s :: 'a
  assume "0 < ro_attempts opts"
  from retry_loop_calls [OF this, of opts f s] show "\<exists>k \<le> ro_attempts opts.
      fst (simple_retry opts f s) = after_calls f k s \<and>
      (\<forall>i. Suc i < k \<longrightarrow> (\<exists>e. call_error f i s = Some e \<and> ro_retry_if opts e)) \<and>
      (if ro_cancelled opts
       then snd (simple_retry opts f s) = None \<longrightarrow> 0 < k \<and> call_error f (k - 1) s = None
       else 0 < k \<and> snd (simple_retry opts f s) = call_error f (k - 1) s \<and>
         (k < ro_attempts opts \<longrightarrow>
            (case call_error f (k - 1) s of None \<Rightarrow> True | Some e \<Rightarrow> \<not> ro_retry_if opts e)))"
    unfolding simple_retry_def by (elim exE conjE) (rule exI, auto)
qed

lemma contract_live:
  assumes "retry_contract rd" and "0 < ro_attempts opts" and "\<not> ro_cancelled opts"
  shows "\<exists>k \<le> ro_attempts opts. 0 < k \<and> rd opts f s = (after_calls f k s, call_error f (k - 1) s) \<and>
    (\<forall>i. Suc i < k \<longrightarrow> (\<exists>e. call_error f i s = Some e \<and> ro_retry_if opts e)) \<and>
    (k < ro_attempts opts \<longrightarrow>
       (case call_error f (k - 1) s of None \<Rightarrow> True | Some e \<Rightarrow> \<not> ro_retry_if opts e))"
proof -
  from assms(1) [unfolded retry_contract_def, THEN spec, of opts, THEN spec, of f, THEN spec, of s]
  obtain k where "k \<le> ro_attempts opts" "fst (rd opts f s) = after_calls f k s" "0 < k"
    "snd (rd opts f s) = call_error f (k - 1) s"
    "\<forall>i. Suc i < k \<longrightarrow> (\<exists>e. call_error f i s = Some e \<and> ro_retry_if opts e)"
    "k < ro_attempts opts \<longrightarrow>
       (case call_error f (k - 1) s of None \<Rightarrow> True | Some e \<Rightarrow> \<not> ro_retry_if opts e)"
    using assms(2,3) by auto
  then show ?thesis by (intro exI [of _ k]) (simp add: prod_eq_iff)
qed

lemma retry_options_fields [simp]:
  "ro_attempts (retry_options ovf cfg b) = rc_attempts cfg"
  "ro_cancelled (retry_options ovf cfg b) = b"
  "ro_retry_if (retry_options ovf cfg b) e = (\<not> is_auth_error (Some e))"
  by (simp_all add: retry_options_def)

subsection \<open>Feedback\<close>

text \<open>A function that only appends messages to one client's channel, as long as there is room for \<open>n\<close>.\<close>

definition pushes ::
  "string \<Rightarrow> nat \<Rightarrow> nat \<Rightarrow> ('w \<times> bytes hub, go_error) call \<Rightarrow> ('w \<Rightarrow> 'w) \<Rightarrow> ('w \<Rightarrow> bytes list) \<Rightarrow>
   ('w \<Rightarrow> go_error option) \<Rightarrow> bool" where
  "pushes cid c n fn g outs e \<longleftrightarrow> (\<forall>w. length (outs w) \<le> n) \<and>
     (\<forall>w h. clients h cid = Some c \<longrightarrow> length (ch_q (chans h c)) + n \<le> ch_cap (chans h c) \<longrightarrow>
        fn (w, h) = ((g w, chan_push c (outs w) h), e w))"

lemma pushes_nothing: "pushes cid c 0 (\<lambda>(w, h). ((g w, h), e w)) g (\<lambda>_. []) e"
  by (simp add: pushes_def)

definition attempt_outs ::
  "string \<Rightarrow> string \<Rightarrow> ('w \<Rightarrow> 'w) \<Rightarrow> ('w \<Rightarrow> bytes list) \<Rightarrow> ('w \<Rightarrow> go_error option) \<Rightarrow> 'w \<Rightarrow> nat \<Rightarrow> bytes list" where
  "attempt_outs cid op g outs e w k =
     concat (map (\<lambda>i. outs ((g ^^ i) w) @ [retry_event cid op (Suc i) (e ((g ^^ i) w))]) [0..<k])"

lemma attempt_outs_length:
  "(\<And>w. length (outs w) \<le> n) \<Longrightarrow> length (attempt_outs cid op g outs e w k) \<le> k * Suc n"
proof (induction k)
  case (Suc k)
  have "length (outs ((g ^^ k) w)) \<le> n" by (rule Suc.prems)
  moreover have "length (attempt_outs cid op g outs e w k) \<le> k * Suc n" by (rule Suc.IH [OF Suc.prems])
  moreover have "length (attempt_outs cid op g outs e w (Suc k)) =
      length (attempt_outs cid op g outs e w k) + length (outs ((g ^^ k) w)) + 1"
    by (simp add: attempt_outs_def)
  ultimately show ?case by simp
qed (simp add: attempt_outs_def)

lemma attempts_run:
  assumes "pushes cid c n fn g outs e" and "clients h cid = Some c" and "cid \<noteq> ''''"
    and "length (ch_q (chans h c)) + k * Suc n \<le> ch_cap (chans h c)"
  shows "after_calls (attempt_once True cid op fn) k (0, w, h) =
    (k, (g ^^ k) w, chan_push c (attempt_outs cid op g outs e w k) h)"
  using assms(4)
proof (induction k)
  case (Suc k)
  let ?h = "chan_push c (attempt_outs cid op g outs e w k) h"
  have len: "length (outs v) \<le> n" for v using assms(1) by (simp add: pushes_def)
  have room: "length (ch_q (chans ?h c)) + Suc n \<le> ch_cap (chans ?h c)"
    using Suc.prems attempt_outs_length [of outs n cid op g e w k] len by (simp add: )
  then have "fn ((g ^^ k) w, ?h) = ((g ((g ^^ k) w), chan_push c (outs ((g ^^ k) w)) ?h), e ((g ^^ k) w))"
    using assms(1,2) by (simp add: pushes_def)
  moreover have "length (ch_q (chans (chan_push c (outs ((g ^^ k) w)) ?h) c)) <
      ch_cap (chans (chan_push c (outs ((g ^^ k) w)) ?h) c)"
    using room len [of "(g ^^ k) w"] by simp
  ultimately show ?case
    using Suc assms(2,3) by (simp add: attempt_once_def send_connected attempt_outs_def)
qed (simp add: attempt_outs_def)

lemma retry_do_pushes:
  fixes rd :: "(nat \<times> 'w \<times> bytes hub) retry_do" and h :: "bytes hub"
  assumes "retry_contract rd" and "0 < rc_attempts cfg" and "pushes cid c n fn g outs e"
    and "clients h cid = Some c" and "cid \<noteq> ''''"
    and "length (ch_q (chans h c)) + rc_attempts cfg * Suc n \<le> ch_cap (chans h c)"
  shows "\<exists>k h'. 1 \<le> k \<and> k \<le> rc_attempts cfg \<and>
    retry_do_fn rd ovf cfg False True cid op fn (w, h) = (((g ^^ k) w, h'), e ((g ^^ (k - 1)) w)) \<and>
    (\<forall>i < k - 1. e ((g ^^ i) w) \<noteq> None \<and> \<not> is_auth_error (e ((g ^^ i) w))) \<and>
    (k < rc_attempts cfg \<longrightarrow> e ((g ^^ (k - 1)) w) = None \<or> is_auth_error (e ((g ^^ (k - 1)) w))) \<and>
    h' = chan_push c (attempt_outs cid op g outs e w k) h"
proof -
  let ?f = "attempt_once True cid op fn"
  let ?opts = "retry_options ovf cfg False"
  have room: "length (ch_q (chans h c)) + i * Suc n \<le> ch_cap (chans h c)" if "i \<le> rc_attempts cfg" for i
    using assms(6) mult_le_mono1 [OF that, of "Suc n"] by linarith
  have err: "call_error ?f i (0, w, h) = e ((g ^^ i) w)" if "i < rc_attempts cfg" for i
  proof -
    let ?h = "chan_push c (attempt_outs cid op g outs e w i) h"
    have "after_calls ?f i (0, w, h) = (i, (g ^^ i) w, ?h)"
      using attempts_run [OF assms(3-5) room] that by simp
    moreover have "length (ch_q (chans ?h c)) + n \<le> ch_cap (chans ?h c)"
      using room [of "Suc i"] that attempt_outs_length [of outs n cid op g e w i] assms(3)
      by (simp add: pushes_def)
    then have "snd (fn ((g ^^ i) w, ?h)) = e ((g ^^ i) w)" using assms(3,4) by (simp add: pushes_def)
    ultimately show ?thesis by (auto simp: call_error_def attempt_once_def split: prod.splits)
  qed
  have opts: "0 < ro_attempts ?opts" "\<not> ro_cancelled ?opts"
    using assms(2) by simp_all
  from contract_live [OF assms(1) opts, of ?f "(0, w, h)"] obtain k where k:
    "k \<le> rc_attempts cfg" "0 < k"
    "rd ?opts ?f (0, w, h) = (after_calls ?f k (0, w, h), call_error ?f (k - 1) (0, w, h))"
    "\<forall>i. Suc i < k \<longrightarrow> (\<exists>e. call_error ?f i (0, w, h) = Some e \<and> \<not> is_auth_error (Some e))"
    "k < rc_attempts cfg \<longrightarrow> (case call_error ?f (k - 1) (0, w, h) of None \<Rightarrow> True
       | Some e \<Rightarrow> is_auth_error (Some e))"
    by (auto cong: option.case_cong)
  have last: "call_error ?f (k - 1) (0, w, h) = e ((g ^^ (k - 1)) w)"
    using err [of "k - 1"] k(1,2) by simp
  have "e ((g ^^ i) w) \<noteq> None \<and> \<not> is_auth_error (e ((g ^^ i) w))" if "i < k - 1" for i
  proof -
    have i: "Suc i < k" "i < rc_attempts cfg" using that k(1) by auto
    from k(4) i(1) obtain x where "call_error ?f i (0, w, h) = Some x" "\<not> is_auth_error (Some x)" by blast
    then show ?thesis using err [OF i(2)] by simp
  qed
  moreover have "k < rc_attempts cfg \<longrightarrow> e ((g ^^ (k - 1)) w) = None \<or> is_auth_error (e ((g ^^ (k - 1)) w))"
    using k(5) last by (auto split: option.splits)
  moreover have "rd ?opts ?f (0, w, h) =
      ((k, (g ^^ k) w, chan_push c (attempt_outs cid op g outs e w k) h), e ((g ^^ (k - 1)) w))"
    using k(3) last attempts_run [OF assms(3-5) room [OF k(1)]] by (simp add: prod_eq_iff)
  ultimately show ?thesis using k(1,2)
    by (intro exI [of _ k] exI [of _ "chan_push c (attempt_outs cid op g outs e w k) h"])
      (simp add: retry_do_fn_def)
qed

lemma retry_do_calls:
  fixes rd :: "(nat \<times> 'w \<times> bytes hub) retry_do" and h :: "bytes hub"
  assumes "retry_contract rd" and "0 < rc_attempts cfg"
    and "clients h cid = Some c" and "cid \<noteq> ''''"
    and "length (ch_q (chans h c)) + rc_attempts cfg \<le> ch_cap (chans h c)"
  shows "\<exists>k h'. 1 \<le> k \<and> k \<le> rc_attempts cfg \<and>
    retry_do_fn rd ovf cfg False True cid op (\<lambda>(w, h). ((g w, h), e w)) (w, h) =
      (((g ^^ k) w, h'), e ((g ^^ (k - 1)) w)) \<and>
    (\<forall>i < k - 1. e ((g ^^ i) w) \<noteq> None \<and> \<not> is_auth_error (e ((g ^^ i) w))) \<and>
    (k < rc_attempts cfg \<longrightarrow> e ((g ^^ (k - 1)) w) = None \<or> is_auth_error (e ((g ^^ (k - 1)) w))) \<and>
    ch_q (chans h' c) = ch_q (chans h c) @
      map (\<lambda>i. retry_event cid op (Suc i) (e ((g ^^ i) w))) [0..<k] \<and>
    drops h' = drops h \<and> buffer h' = buffer h"
proof -
  have outs: "attempt_outs cid op g (\<lambda>_. []) e w k = map (\<lambda>i. retry_event cid op (Suc i) (e ((g ^^ i) w))) [0..<k]" for k
    by (simp add: attempt_outs_def)
  have room: "length (ch_q (chans h c)) + rc_attempts cfg * Suc 0 \<le> ch_cap (chans h c)" using assms(5) by simp
  from retry_do_pushes [OF assms(1,2) pushes_nothing assms(3,4) room, of ovf op g e w]
  obtain k h' where "1 \<le> k" "k \<le> rc_attempts cfg"
    "retry_do_fn rd ovf cfg False True cid op (\<lambda>(w, h). ((g w, h), e w)) (w, h) =
      (((g ^^ k) w, h'), e ((g ^^ (k - 1)) w))"
    "\<forall>i < k - 1. e ((g ^^ i) w) \<noteq> None \<and> \<not> is_auth_error (e ((g ^^ i) w))"
    "k < rc_attempts cfg \<longrightarrow> e ((g ^^ (k - 1)) w) = None \<or> is_auth_error (e ((g ^^ (k - 1)) w))"
    and h': "h' = chan_push c (attempt_outs cid op g (\<lambda>_. []) e w k) h" by (elim exE conjE)
  moreover have "ch_q (chans h' c) = ch_q (chans h c) @
      map (\<lambda>i. retry_event cid op (Suc i) (e ((g ^^ i) w))) [0..<k]" "drops h' = drops h" "buffer h' = buffer h"
    by (simp_all add: h' outs)
  ultimately show ?thesis by (intro exI conjI)
qed

text \<open>C3: Under the documented behaviour of the retry library and a live context, \<open>Do\<close> makes between
  one and \<open>Attempts\<close> calls; every call before the last failed with an error other than an
  authorisation or client error, stopping early means success or such an error, the result is the
  last call's, and the client's stream receives exactly one event per call, numbered from 1 and
  carrying the status of that call.\<close>
theorem retry_do_feedback:
  fixes rd :: "(nat \<times> 'w \<times> bytes hub) retry_do" and h :: "bytes hub"
  assumes "retry_contract rd" and "0 < rc_attempts cfg"
    and "clients h cid = Some c" and "cid \<noteq> ''''"
    and "length (ch_q (chans h c)) + rc_attempts cfg \<le> ch_cap (chans h c)"
  shows "\<exists>k h'. 1 \<le> k \<and> k \<le> rc_attempts cfg \<and>
    retry_do_fn rd ovf cfg False True cid op (\<lambda>(w, h). ((g w, h), e w)) (w, h) =
      (((g ^^ k) w, h'), e ((g ^^ (k - 1)) w)) \<and>
    (\<forall>i < k - 1. e ((g ^^ i) w) \<noteq> None \<and> \<not> is_auth_error (e ((g ^^ i) w))) \<and>
    (k < rc_attempts cfg \<longrightarrow> e ((g ^^ (k - 1)) w) = None \<or> is_auth_error (e ((g ^^ (k - 1)) w))) \<and>
    ch_q (chans h' c) = ch_q (chans h c) @
      map (\<lambda>i. retry_event cid op (Suc i) (e ((g ^^ i) w))) [0..<k] \<and>
    drops h' = drops h \<and> buffer h' = buffer h"
  using assms by (rule retry_do_calls)

theorem retry_do_feedback_witness:
  "\<exists>k h'. retry_do_fn simple_retry (\<lambda>x. x) default_retry False True ''t1'' ''chat''
      (\<lambda>(w, h). ((w + 1, h), if w = (0 :: nat) then Some (APIError 429 ''slow down'') else None))
      (0, register ''t1'' ''u1'' 0 (new_hub [])) = ((k, h'), None) \<and>
    ch_q (chans h' 0) = [retry_event ''t1'' ''chat'' 1 (Some (APIError 429 ''slow down'')),
      retry_event ''t1'' ''chat'' 2 None]"
proof -
  let ?e = "\<lambda>w :: nat. if w = 0 then Some (APIError 429 ''slow down'') else None"
  let ?h = "register ''t1'' ''u1'' 0 (new_hub []) :: bytes hub"
  have h: "clients ?h ''t1'' = Some 0" "ch_q (chans ?h 0) = []" "ch_cap (chans ?h 0) = 64"
    by (simp_all add: register_def Let_def replay_chans new_hub_fields [OF refl]
        DefaultClientQueueSize_def)
  have pow: "((\<lambda>w. w + 1) ^^ n) (0 :: nat) = n" for n by (induction n) simp_all
  have auth: "\<not> is_auth_error (Some (APIError 429 s))" for s by (simp add: is_auth_error_def)
  from retry_do_feedback [where g = "\<lambda>w. w + 1" and e = ?e and w = 0 and h = ?h and c = 0
      and cid = "''t1''" and op = "''chat''" and ovf = "\<lambda>x. x" and cfg = default_retry,
      OF simple_retry_contract] h
  obtain k h' where r: "1 \<le> k"
      "retry_do_fn simple_retry (\<lambda>x. x) default_retry False True ''t1'' ''chat''
        (\<lambda>(w, h). ((w + 1, h), ?e w)) (0, ?h) = ((k, h'), ?e (k - 1))"
      "\<forall>i < k - 1. ?e i \<noteq> None"
      "k < 3 \<longrightarrow> ?e (k - 1) = None \<or> is_auth_error (?e (k - 1))"
      "ch_q (chans h' 0) = map (\<lambda>i. retry_event ''t1'' ''chat'' (Suc i) (?e i)) [0..<k]"
    unfolding pow by (auto simp: default_retry_def)
  have "k = 2"
  proof (rule ccontr)
    assume "k \<noteq> 2"
    with r(1) consider "k = 1" | "3 \<le> k" by linarith
    then show False
    proof cases
      case 1
      with r(4) auth show False by simp
    next
      case 2
      then have "1 < k - 1" by simp
      with r(3) have "?e 1 \<noteq> None" by blast
      then show False by simp
    qed
  qed
  with r show ?thesis by (auto simp: upt_rec numeral_2_eq_2)
qed

subsection \<open>Backoff\<close>

lemma bit_len_le: "n < 2 ^ k \<Longrightarrow> bit_len n \<le> k"
proof (induction k arbitrary: n)
  case (Suc k)
  show ?case
  proof (cases "n = 0")
    case False
    then have "bit_len n = Suc (bit_len (n div 2))" by (subst bit_len.simps) simp
    then show ?thesis using Suc.IH [of "n div 2"] Suc.prems by simp
  qed (simp add: bit_len.simps)
qed (simp add: bit_len.simps)

lemma f64_exact:
  assumes "\<bar>x\<bar> < 2 ^ 53"
  shows "f64_of_int x = x"
proof -
  have "nat \<bar>x\<bar> < 2 ^ 53" using assms by (simp add: nat_less_iff)
  then have "bit_len (nat \<bar>x\<bar>) - 53 = 0" using bit_len_le by simp
  then show ?thesis unfolding f64_of_int_def Let_def by (simp only:) simp
qed

lemma sint_power_two:
  assumes "k < 63"
  shows "sint (2 ^ k :: 64 word) = 2 ^ k"
proof -
  have p: "(2 :: int) ^ k < 2 ^ 63" using assms by (intro power_strict_increasing) auto
  have "(2 ^ k :: 64 word) = word_of_int (2 ^ k)" by simp
  then have "sint (2 ^ k :: 64 word) = signed_take_bit 63 (2 ^ k)"
    by (simp only: sint_sbintrunc') simp
  also have "\<dots> = 2 ^ k"
    by (rule signed_take_bit_int_eq_self) (use p in \<open>simp_all add: order_trans [of _ 0]\<close>)
  finally show ?thesis .
qed

lemma shift_one_small:
  assumes "k < 63"
  shows "shift_one (of_nat (Suc k)) = 2 ^ k"
proof -
  have "unat (of_nat (Suc k) - 1 :: 64 word) = k"
    using assms by (simp add: unat_of_nat take_bit_nat_eq_self_iff)
  moreover have "sint (push_bit k (1 :: 64 word)) = 2 ^ k"
    using sint_power_two [OF assms] by simp
  ultimately show ?thesis using assms by (simp add: shift_one_def Let_def)
qed

text \<open>C15: The wait before retry \<open>n\<close> is the initial delay doubled \<open>n-1\<close> times, capped at the maximum,
  for every \<open>n\<close> up to 63 whose doubled delay fits into 64 bits; it never exceeds the cap and never
  shrinks from one retry to the next.  No jitter is added, whatever the jitter factor.\<close>
theorem backoff_doubles:
  assumes "0 \<le> rc_delay cfg" and "rc_delay cfg < 2 ^ 53" and "k < 62"
    and "rc_delay cfg * 2 ^ Suc k < 2 ^ 63"
  shows "backoff ovf cfg (of_nat (Suc k)) = min (rc_delay cfg * 2 ^ k) (rc_max_delay cfg) \<and>
    backoff ovf cfg (of_nat (Suc k)) \<le> backoff ovf cfg (of_nat (Suc (Suc k))) \<and>
    backoff ovf (cfg\<lparr>rc_jitter_percent := j\<rparr>) (of_nat (Suc k)) = backoff ovf cfg (of_nat (Suc k))"
proof -
  have f: "f64_of_int (rc_delay cfg) = rc_delay cfg" using assms(1,2) by (simp add: f64_exact)
  have eq: "backoff ovf cfg (of_nat (Suc i)) = min (rc_delay cfg * 2 ^ i) (rc_max_delay cfg)"
    if "i \<le> Suc k" for i
  proof -
    have "rc_delay cfg * 2 ^ i \<le> rc_delay cfg * 2 ^ Suc k"
      using assms(1) that by (intro mult_left_mono power_increasing) auto
    then have "rc_delay cfg * 2 ^ i < 2 ^ 63" using assms(4) by linarith
    moreover have "- (2 ^ 63) \<le> rc_delay cfg * 2 ^ i"
      using assms(1) by (simp add: order_trans [of _ 0])
    moreover have "shift_one (of_nat (Suc i)) = 2 ^ i"
      using that assms(3) by (intro shift_one_small) simp
    ultimately show ?thesis unfolding backoff_def f Let_def by simp
  qed
  have "rc_delay cfg * 2 ^ k \<le> rc_delay cfg * 2 ^ Suc k"
    using assms(1) by simp
  then show ?thesis
    using eq [of k] eq [of "Suc k"] by (auto simp: backoff_def Let_def min_def)
qed

theorem backoff_doubles_witness:
  "backoff (\<lambda>_. 0) default_retry (of_nat (Suc 4)) = 30 * 10 ^ 9 \<and>
   backoff (\<lambda>_. 0) default_retry (of_nat (Suc 1)) = 4 * 10 ^ 9"
  using backoff_doubles [of default_retry 4 "\<lambda>_. 0"] backoff_doubles [of default_retry 1 "\<lambda>_. 0"]
  by (simp add: default_retry_def)

end
