(* ===== verification/Workers.thy ===== *)
theory Workers
  imports Retry
begin

text \<open>
  The worker pool of \<open>internal/queue/workers.go\<close> and the \<open>Queue\<close> wrapper of \<open>goqite.go\<close>.  The
  goqite queue is the parameter \<open>timed_queue\<close> (its send, receive and delete calls) with the laws
  \<open>timed_laws\<close>; a worker's loop is driven by the list of what happens around it at each iteration.
\<close>

type_synonym ('w) handler = "job \<Rightarrow> ('w \<times> bytes hub, go_error) call"

record msg =
  msg_id :: nat
  msg_body :: bytes

subsection \<open>The queue\<close>

record 'q timed_queue =
  tq_receive :: "int \<Rightarrow> 'q \<Rightarrow> 'q \<times> msg option"
  tq_delete :: "nat \<Rightarrow> 'q \<Rightarrow> 'q"
  tq_send :: "int \<Rightarrow> bytes \<Rightarrow> 'q \<Rightarrow> 'q"

record entry =
  en_body :: bytes
  en_visible :: int
  en_received :: nat

text \<open>
  goqite's documented behaviour for the stored messages \<open>view q\<close>, with a timeout and a limit of receives: a
  receive returns a message that is visible and has not been received too often, and hides it until the
  timeout is over; if there is none it returns none.  A message that is sent gets a new id and is visible
  at once.
\<close>

definition ready :: "nat \<Rightarrow> int \<Rightarrow> entry \<Rightarrow> bool" where
  "ready limit now e \<longleftrightarrow> en_visible e \<le> now \<and> en_received e < limit"

definition timed_laws :: "'q timed_queue \<Rightarrow> ('q \<Rightarrow> nat \<rightharpoonup> entry) \<Rightarrow> ('q \<Rightarrow> nat) \<Rightarrow> int \<Rightarrow> nat \<Rightarrow> bool" where
  "timed_laws Q view fresh timeout limit \<longleftrightarrow> 0 < timeout \<and>
     (\<forall>now q. (\<forall>i e. view q i = Some e \<longrightarrow> \<not> ready limit now e) \<longrightarrow> tq_receive Q now q = (q, None)) \<and>
     (\<forall>now q i e. view q i = Some e \<longrightarrow> ready limit now e \<longrightarrow> snd (tq_receive Q now q) \<noteq> None) \<and>
     (\<forall>now q q' m. tq_receive Q now q = (q', Some m) \<longrightarrow>
        (\<exists>e. view q (msg_id m) = Some e \<and> ready limit now e \<and> msg_body m = en_body e \<and> fresh q' = fresh q \<and>
          view q' = (view q)(msg_id m \<mapsto> e\<lparr>en_visible := now + timeout, en_received := Suc (en_received e)\<rparr>))) \<and>
     (\<forall>q i. view (tq_delete Q i q) = (view q)(i := None) \<and> fresh (tq_delete Q i q) = fresh q) \<and>
     (\<forall>now b q. view (tq_send Q now b q) =
          (view q)(fresh q \<mapsto> \<lparr>en_body = b, en_visible = now, en_received = 0\<rparr>) \<and>
        fresh (tq_send Q now b q) = Suc (fresh q))"

lemma timed_lawsD:
  assumes "timed_laws Q view fresh timeout limit"
  shows "0 < timeout"
    and "view q i = Some e \<Longrightarrow> ready limit now e \<Longrightarrow> snd (tq_receive Q now q) \<noteq> None"
    and "tq_receive Q now q = (q', Some m) \<Longrightarrow> \<exists>e. view q (msg_id m) = Some e \<and> ready limit now e \<and>
      msg_body m = en_body e \<and> fresh q' = fresh q \<and>
      view q' = (view q)(msg_id m \<mapsto> e\<lparr>en_visible := now + timeout, en_received := Suc (en_received e)\<rparr>)"
    and "view (tq_delete Q i q) = (view q)(i := None)" and "fresh (tq_delete Q i q) = fresh q"
    and "view (tq_send Q now b q) = (view q)(fresh q \<mapsto> \<lparr>en_body = b, en_visible = now, en_received = 0\<rparr>)"
    and "fresh (tq_send Q now b q) = Suc (fresh q)"
  using assms unfolding timed_laws_def by blast+

subsection \<open>Dispatch\<close>

record 'w pool =
  pl_reg :: "'w handler registry"
  pl_retry :: retry_config

definition new_worker_pool :: "'w handler registry \<Rightarrow> 'w pool" where
  "new_worker_pool r = \<lparr>pl_reg = r, pl_retry = default_retry\<rparr>"

definition set_retry :: "retry_config \<Rightarrow> 'w pool \<Rightarrow> 'w pool" where
  "set_retry cfg p = p\<lparr>pl_retry := cfg\<rparr>"

definition job_type_of :: "bytes \<Rightarrow> string" where
  "job_type_of body = (case unmarshal body of
     Some (JObj kvs) \<Rightarrow> (case decode_field dec_str '''' ''type'' kvs of None \<Rightarrow> '''' | Some t \<Rightarrow> t)
   | _ \<Rightarrow> '''')"

definition process_message ::
  "(nat \<times> 'w \<times> bytes hub) retry_do \<Rightarrow> (int \<Rightarrow> int) \<Rightarrow> 'w pool \<Rightarrow> msg \<Rightarrow> 'w \<times> bytes hub \<Rightarrow> 'w \<times> bytes hub" where
  "process_message rd ovf p m wh = (case decode_job (msg_body m) of
     None \<Rightarrow> wh
   | Some job \<Rightarrow>
       fst (retry_do_fn rd ovf (pl_retry p) False True (jb_client job) (jb_type job)
         (reg_lookup (jb_type job) (pl_reg p) job) wh))"

subsection \<open>The loop\<close>

text \<open>
  What happens around a worker during one iteration: whether the pool is stopped or the queue closed before
  the receive, when the receive happens and whether it fails, whether the pool is stopped while the worker
  waits after an error or an empty receive, and whether the queue is closed or the delete fails after the
  processing.  A receive or delete that fails leaves the stored messages as they were.
\<close>

record tick =
  stop_before :: bool
  queue_closed :: bool
  tk_now :: int
  receive_fails :: bool
  stop_after :: bool
  closed_after :: bool
  delete_fails :: bool

datatype worker_status = Exited | Running

definition worker_step ::
  "'q timed_queue \<Rightarrow> (msg \<Rightarrow> 's \<Rightarrow> 's) \<Rightarrow> tick \<Rightarrow> 'q \<times> 's \<Rightarrow> ('q \<times> 's) \<times> worker_status" where
  "worker_step Q process t qs =
     (if stop_before t \<or> queue_closed t then (qs, Exited)
      else if receive_fails t then (qs, if stop_after t then Exited else Running)
      else case qs of (q, s) \<Rightarrow>
        (case tq_receive Q (tk_now t) q of
           (q', None) \<Rightarrow> ((q', s), if stop_after t then Exited else Running)
         | (q', Some m) \<Rightarrow>
             ((if closed_after t \<or> delete_fails t then q' else tq_delete Q (msg_id m) q', process m s), Running)))"

fun worker ::
  "'q timed_queue \<Rightarrow> (msg \<Rightarrow> 's \<Rightarrow> 's) \<Rightarrow> tick list \<Rightarrow> 'q \<times> 's \<Rightarrow> ('q \<times> 's) \<times> worker_status" where
  "worker Q process [] qs = (qs, Running)"
| "worker Q process (t # ts) qs = (case worker_step Q process t qs of
     (qs', Exited) \<Rightarrow> (qs', Exited)
   | (qs', Running) \<Rightarrow> worker Q process ts qs')"

definition enqueue :: "'q timed_queue \<Rightarrow> int \<Rightarrow> bytes \<Rightarrow> 'q \<Rightarrow> 'q" where
  "enqueue Q now body q = tq_send Q now body q"

subsection \<open>Lemmas\<close>

text \<open>An iteration that is not disturbed: the pool runs, and the receive and the delete succeed.\<close>

definition undisturbed :: "tick \<Rightarrow> bool" where
  "undisturbed t \<longleftrightarrow> \<not> stop_before t \<and> \<not> queue_closed t \<and> \<not> receive_fails t \<and> \<not> closed_after t \<and> \<not> delete_fails t"

lemma worker_stops:
  "stop_before t \<or> queue_closed t \<Longrightarrow> worker Q process (t # ts) qs = (qs, Exited)"
  by (simp add: worker_step_def)

lemma ready_later: "ready limit now e \<Longrightarrow> now \<le> now' \<Longrightarrow> ready limit now' e"
  by (simp add: ready_def)

text \<open>One undisturbed iteration on a queue in which some message is ready.\<close>

lemma worker_takes_one:
  assumes "timed_laws Q view fresh timeout limit" and "undisturbed t"
    and "view q i = Some e" and "ready limit (tk_now t) e"
  obtains m e' q' where "view q (msg_id m) = Some e'" "msg_body m = en_body e'"
    "view q' = (view q)(msg_id m := None)" "worker_step Q process t (q, s) = ((q', process m s), Running)"
proof -
  note D = timed_lawsD [OF assms(1)]
  from D(2) [OF assms(3,4)] obtain q1 m where r: "tq_receive Q (tk_now t) q = (q1, Some m)"
    by (cases "tq_receive Q (tk_now t) q") auto
  from D(3) [OF r] obtain e' where e': "view q (msg_id m) = Some e'" "msg_body m = en_body e'"
    "view q1 = (view q)(msg_id m \<mapsto> e'\<lparr>en_visible := tk_now t + timeout, en_received := Suc (en_received e')\<rparr>)"
    by blast
  have "view (tq_delete Q (msg_id m) q1) = (view q)(msg_id m := None)" by (simp add: D(4) e'(3))
  moreover have "worker_step Q process t (q, s) = ((tq_delete Q (msg_id m) q1, process m s), Running)"
    using assms(2) r by (simp add: worker_step_def undisturbed_def)
  ultimately show ?thesis using that e'(1,2) by blast
qed

text \<open>A message whose delete fails has been processed and stays stored, hidden until its timeout.\<close>

lemma failed_delete_keeps_message:
  assumes "timed_laws Q view fresh timeout limit" and "tq_receive Q (tk_now t) q = (q1, Some m)"
    and "\<not> stop_before t" "\<not> queue_closed t" "\<not> receive_fails t" "closed_after t \<or> delete_fails t"
  shows "worker_step Q process t (q, s) = ((q1, process m s), Running) \<and>
    (\<exists>e. view q1 (msg_id m) = Some e \<and> en_visible e = tk_now t + timeout)"
  using timed_lawsD(3) [OF assms(1,2)] assms(2-6) by (auto simp: worker_step_def)

text \<open>With nothing ready (all hidden, or received too often) a worker leaves the queue as it is.\<close>

lemma nothing_ready_nothing_done:
  assumes "timed_laws Q view fresh timeout limit" and "\<forall>i e. view q i = Some e \<longrightarrow> \<not> ready limit (tk_now t) e"
  shows "fst (worker_step Q process t (q, s)) = (q, s)"
proof -
  have "tq_receive Q (tk_now t) q = (q, None)" using assms unfolding timed_laws_def by blast
  then show ?thesis by (simp add: worker_step_def)
qed

text \<open>C13: A worker that is left running, and whose receives and deletes succeed, processes every message
  that is ready (visible and not received too often) exactly once, in some order, and deletes each from
  the queue whether or not its handler succeeded: after as many iterations as there were messages the
  queue is empty.\<close>
theorem worker_drains:
  assumes "timed_laws Q view fresh timeout limit" and "finite (dom (view q))"
    and "\<forall>i e. view q i = Some e \<longrightarrow> ready limit now e"
    and "length ts = card (dom (view q))" and "\<forall>t \<in> set ts. undisturbed t \<and> now \<le> tk_now t"
  shows "\<exists>ms q'. distinct (map msg_id ms) \<and> set (map msg_id ms) = dom (view q) \<and>
    (\<forall>m \<in> set ms. \<exists>e. view q (msg_id m) = Some e \<and> msg_body m = en_body e) \<and> view q' = Map.empty \<and>
    worker Q process ts (q, s) = ((q', foldl (\<lambda>s m. process m s) s ms), Running)"
  using assms(2-5)
proof (induction ts arbitrary: q s)
  case Nil
  then show ?case by (intro exI [of _ "[]"] exI [of _ q]) simp
next
  case (Cons t ts)
  have "dom (view q) \<noteq> {}" using Cons.prems(3) by auto
  then obtain i e where ie: "view q i = Some e" by blast
  have t: "undisturbed t" "now \<le> tk_now t" using Cons.prems(4) by simp_all
  have rdy: "ready limit (tk_now t) e" using Cons.prems(2) ie t(2) ready_later by blast
  obtain m e' q1 where m: "view q (msg_id m) = Some e'" "msg_body m = en_body e'"
    "view q1 = (view q)(msg_id m := None)" "worker_step Q process t (q, s) = ((q1, process m s), Running)"
    by (rule worker_takes_one [OF assms(1) t(1) ie rdy])
  have d1: "dom (view q1) = dom (view q) - {msg_id m}" using m(3) by auto
  have l1: "length ts = card (dom (view q1))" using Cons.prems(1,3) m(1) d1 by (simp add: domI)
  have f1: "finite (dom (view q1))" using Cons.prems(1) d1 by simp
  have r1: "\<forall>i e. view q1 i = Some e \<longrightarrow> ready limit now e" using Cons.prems(2) m(3) by (auto split: if_splits)
  from Cons.IH [OF f1 r1 l1, of "process m s"] Cons.prems(4) obtain ms q' where
    IH: "distinct (map msg_id ms)" "set (map msg_id ms) = dom (view q1)"
      "\<forall>x \<in> set ms. \<exists>e. view q1 (msg_id x) = Some e \<and> msg_body x = en_body e" "view q' = Map.empty"
      "worker Q process ts (q1, process m s) = ((q', foldl (\<lambda>s m. process m s) (process m s) ms), Running)"
    by auto
  have "distinct (map msg_id (m # ms))" using IH(1,2) d1 by auto
  moreover have "set (map msg_id (m # ms)) = dom (view q)" using IH(2) d1 m(1) by auto
  moreover have "\<forall>x \<in> set (m # ms). \<exists>e. view q (msg_id x) = Some e \<and> msg_body x = en_body e"
    using IH(3) m(1,2,3) by (auto split: if_splits)
  moreover have "worker Q process (t # ts) (q, s) = ((q', foldl (\<lambda>s m. process m s) s (m # ms)), Running)"
    using m(4) IH(5) by simp
  ultimately show ?case using IH(4) by blast
qed

subsection \<open>A queue as a list\<close>

definition small_queue :: "int \<Rightarrow> nat \<Rightarrow> (nat \<times> (nat \<times> entry) list) timed_queue" where
  "small_queue timeout limit = \<lparr>
     tq_receive = (\<lambda>now (n, es). case find (\<lambda>i. ready limit now (the (map_of es i))) (map fst es) of
       None \<Rightarrow> ((n, es), None)
     | Some i \<Rightarrow> let e = the (map_of es i) in
         ((n, (i, e\<lparr>en_visible := now + timeout, en_received := Suc (en_received e)\<rparr>) # es),
          Some \<lparr>msg_id = i, msg_body = en_body e\<rparr>)),
     tq_delete = (\<lambda>i (n, es). (n, filter (\<lambda>(k, _). k \<noteq> i) es)),
     tq_send = (\<lambda>now b (n, es). (Suc n, (n, \<lparr>en_body = b, en_visible = now, en_received = 0\<rparr>) # es))\<rparr>"

abbreviation small_view :: "nat \<times> (nat \<times> entry) list \<Rightarrow> nat \<rightharpoonup> entry" where
  "small_view q \<equiv> map_of (snd q)"

lemma map_of_filter_neq: "map_of (filter (\<lambda>(k, _). k \<noteq> i) es) = (map_of es)(i := None)"
  by (induction es) (auto simp: fun_eq_iff)

lemma find_ready:
  assumes "find (\<lambda>i. ready limit now (the (map_of es i))) (map fst es) = r"
  shows "r = None \<Longrightarrow> map_of es i = Some e \<Longrightarrow> \<not> ready limit now e"
    and "r = Some i \<Longrightarrow> \<exists>e. map_of es i = Some e \<and> ready limit now e"
proof -
  show "\<not> ready limit now e" if "r = None" "map_of es i = Some e"
    using assms that map_of_SomeD [OF that(2)] by (force simp: find_None_iff)
  show "\<exists>e. map_of es i = Some e \<and> ready limit now e" if "r = Some i"
  proof -
    from assms that have "i \<in> set (map fst es)" "ready limit now (the (map_of es i))"
      by (metis find_Some_iff nth_mem)+
    then show ?thesis by (cases "map_of es i") (auto simp: map_of_eq_None_iff image_iff)
  qed
qed

lemma small_receive:
  "tq_receive (small_queue timeout limit) now q = (q', Some m) \<Longrightarrow>
    \<exists>e. small_view q (msg_id m) = Some e \<and> ready limit now e \<and> msg_body m = en_body e \<and> fst q' = fst q \<and>
      small_view q' = (small_view q)(msg_id m \<mapsto> e\<lparr>en_visible := now + timeout, en_received := Suc (en_received e)\<rparr>)"
  by (cases q) (auto simp: small_queue_def Let_def split: option.splits dest!: find_ready(2))

lemma small_queue_laws: "0 < timeout \<Longrightarrow> timed_laws (small_queue timeout limit) small_view fst timeout limit"
  unfolding timed_laws_def
proof (intro conjI allI impI)
  fix now :: int and q :: "nat \<times> (nat \<times> entry) list"
  assume "\<forall>i e. small_view q i = Some e \<longrightarrow> \<not> ready limit now e"
  then show "tq_receive (small_queue timeout limit) now q = (q, None)"
    by (cases q) (auto simp: small_queue_def split: option.splits dest!: find_ready(2))
next
  fix now :: int and q :: "nat \<times> (nat \<times> entry) list" and i e
  assume "small_view q i = Some e" "ready limit now e"
  then show "snd (tq_receive (small_queue timeout limit) now q) \<noteq> None"
    using find_ready(1) [OF refl, where es = "snd q" and limit = limit and now = now and i = i and e = e]
    by (cases q) (auto simp: small_queue_def Let_def split: option.splits)
next
  fix now :: int and q q' :: "nat \<times> (nat \<times> entry) list" and m
  assume "tq_receive (small_queue timeout limit) now q = (q', Some m)"
  then show "\<exists>e. small_view q (msg_id m) = Some e \<and> ready limit now e \<and> msg_body m = en_body e \<and> fst q' = fst q \<and>
      small_view q' = (small_view q)(msg_id m \<mapsto> e\<lparr>en_visible := now + timeout, en_received := Suc (en_received e)\<rparr>)"
    by (rule small_receive)
qed (auto simp: small_queue_def map_of_filter_neq split: prod.splits)

abbreviation live_tick :: tick where
  "live_tick \<equiv> \<lparr>stop_before = False, queue_closed = False, tk_now = 0, receive_fails = False, stop_after = False,
     closed_after = False, delete_fails = False\<rparr>"

abbreviation two_waiting :: "nat \<times> (nat \<times> entry) list" where
  "two_waiting \<equiv> (2, [(1, \<lparr>en_body = ''b'', en_visible = 0, en_received = 0\<rparr>),
     (0, \<lparr>en_body = ''a'', en_visible = 0, en_received = 0\<rparr>)])"

theorem worker_drains_witness:
  "\<exists>(ms :: msg list) q'. distinct (map msg_id ms) \<and> set (map msg_id ms) = {0, 1} \<and> small_view q' = Map.empty \<and>
    worker (small_queue 5 3) (\<lambda>m s. s @ [msg_body m]) [live_tick, live_tick] (two_waiting, []) =
      ((q', foldl (\<lambda>s m. s @ [msg_body m]) [] ms), Running)"
proof -
  have l: "timed_laws (small_queue 5 3) small_view fst 5 3" by (rule small_queue_laws) simp
  have d: "dom (small_view two_waiting) = {0, 1}" by auto
  have r: "\<forall>i e. small_view two_waiting i = Some e \<longrightarrow> ready 3 0 e" by (auto simp: ready_def split: if_splits)
  have t: "\<forall>t \<in> set [live_tick, live_tick]. undisturbed t \<and> 0 \<le> tk_now t" by (simp add: undisturbed_def)
  have c: "length [live_tick, live_tick] = card (dom (small_view two_waiting))" unfolding d by simp
  have f: "finite (dom (small_view two_waiting))" unfolding d by simp
  from worker_drains [OF l f r c t, of "\<lambda>m s. s @ [msg_body m]" "[]"]
  show ?thesis unfolding d by blast
qed

lemma process_undecodable:
  "decode_job (msg_body m) = None \<Longrightarrow> process_message rd ovf p m wh = wh"
  by (simp add: process_message_def)

text \<open>C4: A job enqueued as an encoded envelope reaches the handler registered for its type (or the
  not-found handler) with its fields intact, and the client it names sees one retry event per
  attempt, numbered from 1; fewer attempts than configured means that the last one succeeded or met
  an authorisation or client error.\<close>
theorem enqueued_job_feedback:
  fixes rd :: "(nat \<times> 'w \<times> bytes hub) retry_do" and h :: "bytes hub"
  assumes "retry_contract rd" and "0 < rc_attempts (pl_retry p)" and "wf_raw (jb_payload j)"
    and "jb_client j \<noteq> ''''" and "clients h (jb_client j) = Some c"
    and "length (ch_q (chans h c)) + rc_attempts (pl_retry p) \<le> ch_cap (chans h c)"
    and "reg_lookup (jb_type j) (pl_reg p) (j\<lparr>jb_payload := Some (raw_json (jb_payload j))\<rparr>) =
      (\<lambda>(w, h). ((g w, h), e w))"
  shows "\<exists>k h'. 1 \<le> k \<and> k \<le> rc_attempts (pl_retry p) \<and>
    process_message rd ovf p \<lparr>msg_id = i, msg_body = encode_job j\<rparr> (w, h) = ((g ^^ k) w, h') \<and>
    ch_q (chans h' c) = ch_q (chans h c) @
      map (\<lambda>i. retry_event (jb_client j) (jb_type j) (Suc i) (e ((g ^^ i) w))) [0..<k] \<and>
    (k < rc_attempts (pl_retry p) \<longrightarrow> e ((g ^^ (k - 1)) w) = None \<or> is_auth_error (e ((g ^^ (k - 1)) w)))"
proof -
  from retry_do_calls [OF assms(1,2,5,4,6), where ovf = ovf and op = "jb_type j" and g = g and e = e
      and w = w]
  obtain k h' where k: "1 \<le> k" "k \<le> rc_attempts (pl_retry p)"
    "retry_do_fn rd ovf (pl_retry p) False True (jb_client j) (jb_type j) (\<lambda>(w, h). ((g w, h), e w)) (w, h) =
      (((g ^^ k) w, h'), e ((g ^^ (k - 1)) w))"
    "k < rc_attempts (pl_retry p) \<longrightarrow> e ((g ^^ (k - 1)) w) = None \<or> is_auth_error (e ((g ^^ (k - 1)) w))"
    "ch_q (chans h' c) = ch_q (chans h c) @
      map (\<lambda>i. retry_event (jb_client j) (jb_type j) (Suc i) (e ((g ^^ i) w))) [0..<k]"
    by blast
  have dec: "decode_job (encode_job j) = Some (j\<lparr>jb_payload := Some (raw_json (jb_payload j))\<rparr>)"
    using assms(3) by (rule decode_encode)
  show ?thesis
    by (intro exI [of _ k] exI [of _ h'])
      (use k in \<open>simp add: process_message_def dec assms(7)\<close>)
qed

theorem enqueued_job_feedback_witness:
  "\<exists>k h'. 1 \<le> k \<and> process_message simple_retry (\<lambda>x. x)
      (new_worker_pool (new_registry (\<lambda>j (w, h). ((w + 1, h), Some (Plain (jb_type j))))))
      \<lparr>msg_id = 1, msg_body = encode_job \<lparr>jb_type = ''nope'', jb_client = ''t1'', jb_payload = None\<rparr>\<rparr>
      (0 :: nat, register ''t1'' ''u1'' 0 (new_hub [])) = (k, h') \<and>
    length (ch_q (chans h' 0)) = k"
proof -
  let ?p = "new_worker_pool (new_registry (\<lambda>j (w, h). ((w + 1, h), Some (Plain (jb_type j))))) :: nat pool"
  let ?j = "\<lparr>jb_type = ''nope'', jb_client = ''t1'', jb_payload = None\<rparr>"
  let ?h = "register ''t1'' ''u1'' 0 (new_hub []) :: bytes hub"
  have pow: "((\<lambda>w. w + 1) ^^ n) (0 :: nat) = n" for n by (induction n) simp_all
  have "clients ?h ''t1'' = Some 0" "ch_q (chans ?h 0) = []" "ch_cap (chans ?h 0) = 64"
    by (simp_all add: register_def Let_def replay_chans new_hub_fields [OF refl]
        DefaultClientQueueSize_def)
  with enqueued_job_feedback [OF simple_retry_contract, of ?p ?j ?h 0 "\<lambda>w. w + 1"
      "\<lambda>_. Some (Plain ''nope'')" "\<lambda>x. x" 1 0]
  show ?thesis
    unfolding pow
    by (auto simp: new_worker_pool_def new_registry_def reg_lookup_def default_retry_def)
qed

end
