(* ===== verification/Transport.thy ===== *)
theory Transport
  imports GoLib "HOL-Library.Word"
begin

text \<open>
  The JetStream op transport of \<open>features/store/crdtstore/transport.go\<close>: publishing a Loro update
  on the owner's subject with the publisher's fingerprint in front of the body, and the
  subscription callback that strips it again and drops the process's own ops.  The JetStream server
  is a parameter: its publish call and its stream creation on a server state \<open>'js\<close>.
\<close>

unbundle bit_operations_syntax

datatype retention = LimitsPolicy | InterestPolicy | WorkQueuePolicy

text \<open>\<open>js_add_stream\<close> takes the stream's name, subjects, retention policy and maximal age.\<close>

record 'js jetstream =
  js_publish :: "string \<Rightarrow> bytes \<Rightarrow> string \<Rightarrow> 'js \<Rightarrow> 'js \<times> bool"
  js_add_stream :: "string \<Rightarrow> string list \<Rightarrow> retention \<Rightarrow> int \<Rightarrow> 'js \<Rightarrow> 'js \<times> bool"

record 'js transport =
  tr_js :: "'js jetstream option"
  tr_publisher :: string

record op =
  op_id :: string
  op_publisher :: string
  op_owner :: string
  op_updates :: bytes

record nats_msg =
  nm_subject :: string
  nm_data :: bytes
  nm_msg_id :: string

definition transport_subject_prefix :: string where
  "transport_subject_prefix = ''app.todo_crdt.''"

definition transport_op_ttl :: int where
  "transport_op_ttl = 24 * 60 * 60 * 1000000000"

definition transport_stream_name :: string where
  "transport_stream_name = ''TODO_CRDT_OPS''"

text \<open>\<open>uuid.NewString\<close> is an argument.\<close>

definition new_transport :: "string \<Rightarrow> 'js transport \<Rightarrow> 'js transport" where
  "new_transport uuid cfg = (if tr_publisher cfg = '''' then cfg\<lparr>tr_publisher := uuid\<rparr> else cfg)"

subsection \<open>Fingerprints\<close>

definition fnv32a_step :: "32 word \<Rightarrow> char \<Rightarrow> 32 word" where
  "fnv32a_step h c = (h XOR of_nat (of_char c)) * 16777619"

definition fnv32a :: "bytes \<Rightarrow> 32 word" where
  "fnv32a s = foldl fnv32a_step 2166136261 s"

definition nibble_char :: "nat \<Rightarrow> char" where
  "nibble_char d = (if d < 10 then char_of (48 + d) else char_of (87 + d))"

text \<open>\<open>%0<k>x\<close> of a number below 16^k.\<close>

fun hex_digits :: "nat \<Rightarrow> nat \<Rightarrow> string" where
  "hex_digits 0 n = []"
| "hex_digits (Suc k) n = hex_digits k (n div 16) @ [nibble_char (n mod 16)]"

definition publisher_prefix_len :: nat where
  "publisher_prefix_len = 8"

definition publisher_prefix :: "string \<Rightarrow> string" where
  "publisher_prefix pid = (if pid = '''' then '''' else hex_digits 8 (unat (fnv32a pid)))"

definition fingerprint :: "string \<Rightarrow> string" where
  "fingerprint pid = publisher_prefix pid"

text \<open>\<open>splitPublisherPrefix\<close>: \<open>None\<close> is \<open>ok = false\<close>, which leaves the body untouched.\<close>

definition split_publisher_prefix :: "bytes \<Rightarrow> (string \<times> bytes) option" where
  "split_publisher_prefix d =
     (if length d < publisher_prefix_len + 1 then None
      else case index_byte (CHR '':'') (drop publisher_prefix_len d) of
        None \<Rightarrow> None
      | Some i \<Rightarrow> Some (take publisher_prefix_len d, drop (publisher_prefix_len + i + 1) d))"

subsection \<open>Publish and subscribe\<close>

datatype publish_result = PubOk | PubMissingIds | PubFailed

definition op_body :: "op \<Rightarrow> bytes" where
  "op_body o1 = publisher_prefix (op_publisher o1) @ '':'' @ op_updates o1"

definition publish :: "'js transport \<Rightarrow> op \<Rightarrow> 'js \<Rightarrow> 'js \<times> publish_result" where
  "publish t o0 js =
     (case tr_js t of
        None \<Rightarrow> (js, PubOk)
      | Some api \<Rightarrow>
          if op_id o0 = '''' \<or> op_owner o0 = '''' then (js, PubMissingIds)
          else let o1 = (if op_publisher o0 = '''' then o0\<lparr>op_publisher := tr_publisher t\<rparr> else o0);
                   subject = transport_subject_prefix @ op_owner o1
               in (case js_publish api subject (op_body o1) (op_id o1) js of
                     (js', ok) \<Rightarrow> (js', if ok then PubOk else PubFailed)))"

text \<open>The callback installed by \<open>Subscribe\<close>: the op passed to the handler, or \<open>None\<close> when it returns
  without calling it.\<close>

definition on_message :: "'js transport \<Rightarrow> string \<Rightarrow> nats_msg \<Rightarrow> op option" where
  "on_message t owner m =
     (let o0 = \<lparr>op_id = nm_msg_id m, op_publisher = '''', op_owner = owner, op_updates = nm_data m\<rparr>;
          o1 = (case split_publisher_prefix (nm_data m) of
                  None \<Rightarrow> o0
                | Some (p, b) \<Rightarrow> o0\<lparr>op_publisher := p, op_updates := b\<rparr>)
      in if op_id o1 = '''' then None
         else if op_publisher o1 \<noteq> '''' \<and> op_publisher o1 = fingerprint (tr_publisher t) then None
         else Some o1)"

text \<open>\<open>Subscribe\<close>: the subject to subscribe to, \<open>None\<close> in single-process mode.\<close>

definition subscribe_subject :: "'js transport \<Rightarrow> string \<Rightarrow> string option" where
  "subscribe_subject t owner =
     (case tr_js t of None \<Rightarrow> None | Some _ \<Rightarrow> Some (transport_subject_prefix @ owner))"

definition ensure_stream :: "'js transport \<Rightarrow> 'js \<Rightarrow> 'js \<times> bool" where
  "ensure_stream t js =
     (case tr_js t of
        None \<Rightarrow> (js, True)
      | Some api \<Rightarrow> js_add_stream api transport_stream_name [transport_subject_prefix @ ''>'']
          InterestPolicy transport_op_ttl js)"

subsection \<open>Fingerprints are eight hexadecimal digits\<close>

lemma length_hex_digits [simp]: "length (hex_digits k n) = k"
  by (induction k n rule: hex_digits.induct) simp_all

lemma nibble_inj: "d < 16 \<Longrightarrow> e < 16 \<Longrightarrow> nibble_char d = nibble_char e \<longleftrightarrow> d = e"
  by (auto simp: nibble_char_def char_of_eq_iff take_bit_nat_eq_self)

lemma hex_digits_inj:
  "m < 16 ^ k \<Longrightarrow> n < 16 ^ k \<Longrightarrow> hex_digits k m = hex_digits k n \<longleftrightarrow> m = n"
proof (induction k arbitrary: m n)
  case (Suc k)
  have "m div 16 < 16 ^ k" "n div 16 < 16 ^ k" using Suc.prems by auto
  then have "hex_digits (Suc k) m = hex_digits (Suc k) n \<longleftrightarrow>
      m div 16 = n div 16 \<and> m mod 16 = n mod 16"
    using Suc.IH [of "m div 16" "n div 16"] by (auto simp: nibble_inj)
  also have "\<dots> \<longleftrightarrow> m = n" by (metis div_mult_mod_eq)
  finally show ?case .
qed simp

lemma fingerprint_length: "pid \<noteq> '''' \<Longrightarrow> length (publisher_prefix pid) = 8"
  by (simp add: publisher_prefix_def)

lemma fingerprint_eq_iff:
  assumes "p \<noteq> ''''" and "q \<noteq> ''''"
  shows "publisher_prefix p = publisher_prefix q \<longleftrightarrow> fnv32a p = fnv32a q"
proof -
  have "unat w < 16 ^ 8" for w :: "32 word"
  proof -
    have "unat w < 2 ^ LENGTH(32)" by (rule unsigned_less)
    then show ?thesis by simp
  qed
  then show ?thesis
    using assms by (simp add: publisher_prefix_def hex_digits_inj word_unat_eq_iff)
qed

lemma split_prefix_body:
  assumes "pid \<noteq> ''''"
  shows "split_publisher_prefix (publisher_prefix pid @ CHR '':'' # u) = Some (publisher_prefix pid, u)"
  using fingerprint_length [OF assms]
  by (simp add: split_publisher_prefix_def publisher_prefix_len_def)

text \<open>The op a subscriber of the owner's own subject receives for a message of \<open>publish\<close>.\<close>

lemma on_message_published:
  assumes "tr_publisher t \<noteq> ''''" and "pid \<noteq> ''''" and "i \<noteq> ''''"
  shows "on_message t owner \<lparr>nm_subject = s, nm_data = publisher_prefix pid @ CHR '':'' # u, nm_msg_id = i\<rparr> =
    (if fnv32a pid = fnv32a (tr_publisher t) then None
     else Some \<lparr>op_id = i, op_publisher = publisher_prefix pid, op_owner = owner, op_updates = u\<rparr>)"
proof -
  have "publisher_prefix pid \<noteq> ''''" using fingerprint_length [OF assms(2)] by force
  then show ?thesis
    using assms split_prefix_body [OF assms(2), of u]
    by (simp add: on_message_def Let_def fingerprint_def fingerprint_eq_iff)
qed

subsection \<open>Delivery\<close>

text \<open>
  What the code relies on of a JetStream stream.  \<open>sent js\<close> are the messages the stream has accepted so far;
  it hands each to the subscriptions there are at that moment (under \<open>InterestPolicy\<close> it keeps it only until
  these have it, and not at all if there is none).  \<open>recent js\<close> are the ids accepted within the duplicate
  window, two minutes by default.  A successful publish is accepted unless its id is recent, and its id is
  recent then; a publish that reports an error may still have been accepted.
\<close>

abbreviation js_message :: "string \<Rightarrow> bytes \<Rightarrow> string \<Rightarrow> nats_msg" where
  "js_message s d i \<equiv> \<lparr>nm_subject = s, nm_data = d, nm_msg_id = i\<rparr>"

definition js_contract :: "'js jetstream \<Rightarrow> ('js \<Rightarrow> nats_msg list) \<Rightarrow> ('js \<Rightarrow> string set) \<Rightarrow> bool" where
  "js_contract api sent recent \<longleftrightarrow> (\<forall>s d i js js' ok. i \<noteq> '''' \<longrightarrow> js_publish api s d i js = (js', ok) \<longrightarrow>
     (i \<in> recent js \<longrightarrow> sent js' = sent js) \<and>
     (i \<notin> recent js \<longrightarrow> ok \<longrightarrow> sent js' = sent js @ [js_message s d i]) \<and>
     (i \<notin> recent js \<longrightarrow> \<not> ok \<longrightarrow> sent js' = sent js \<or> sent js' = sent js @ [js_message s d i]) \<and>
     (ok \<longrightarrow> i \<in> recent js'))"

text \<open>A stream whose duplicate window never ends.\<close>

definition list_js :: "nats_msg list jetstream" where
  "list_js = \<lparr>js_publish = (\<lambda>s d i ms. (if i \<in> nm_msg_id ` set ms then ms
      else ms @ [\<lparr>nm_subject = s, nm_data = d, nm_msg_id = i\<rparr>], True)),
     js_add_stream = (\<lambda>_ _ _ _ ms. (ms, True))\<rparr>"

abbreviation list_recent :: "nats_msg list \<Rightarrow> string set" where
  "list_recent ms \<equiv> nm_msg_id ` set ms"

lemma list_js_contract: "js_contract list_js (\<lambda>ms. ms) list_recent"
  by (auto simp: js_contract_def list_js_def)

abbreviation message_of :: "'js transport \<Rightarrow> op \<Rightarrow> nats_msg" where
  "message_of t x \<equiv> js_message (transport_subject_prefix @ op_owner x)
     (publisher_prefix (if op_publisher x = '''' then tr_publisher t else op_publisher x) @ '':'' @ op_updates x)
     (op_id x)"

lemma publish_js:
  assumes "tr_js t = Some api" and "op_id x \<noteq> ''''" and "op_owner x \<noteq> ''''"
  shows "publish t x js = (case js_publish api (nm_subject (message_of t x)) (nm_data (message_of t x)) (op_id x) js of
    (js', ok) \<Rightarrow> (js', if ok then PubOk else PubFailed))"
  using assms by (simp add: publish_def op_body_def Let_def split: if_splits)

lemma publish_sent:
  assumes "js_contract api sent recent" and "tr_js t = Some api"
    and "op_id x \<noteq> ''''" and "op_owner x \<noteq> ''''" and "publish t x js = (js', r)"
  shows "op_id x \<in> recent js \<Longrightarrow> sent js' = sent js"
    and "op_id x \<notin> recent js \<Longrightarrow> r = PubOk \<Longrightarrow> sent js' = sent js @ [message_of t x]"
    and "sent js' = sent js \<or> sent js' = sent js @ [message_of t x]"
    and "r = PubOk \<Longrightarrow> op_id x \<in> recent js'"
proof -
  obtain js1 ok where run: "js_publish api (nm_subject (message_of t x)) (nm_data (message_of t x)) (op_id x) js = (js1, ok)"
    by fastforce
  then have eq: "js' = js1" "r = (if ok then PubOk else PubFailed)"
    using publish_js [OF assms(2-4), of js] assms(5) by simp_all
  note L = assms(1) [unfolded js_contract_def, rule_format, OF assms(3) run]
  show "op_id x \<in> recent js \<Longrightarrow> sent js' = sent js" using L eq by simp
  show "op_id x \<notin> recent js \<Longrightarrow> r = PubOk \<Longrightarrow> sent js' = sent js @ [message_of t x]"
    using L eq by (simp split: if_splits)
  show "sent js' = sent js \<or> sent js' = sent js @ [message_of t x]" using L eq by (auto split: if_splits)
  show "r = PubOk \<Longrightarrow> op_id x \<in> recent js'" using L eq by (simp split: if_splits)
qed



text \<open>With the wildcard subscription of the deployment every op is handed on with \<open>>\<close> in its owner
  field, whatever the subject it arrived on.\<close>
lemma wildcard_owner_is_literal:
  "on_message t ''>'' m = Some x \<Longrightarrow> op_owner x = ''>'' \<and> op_id x = nm_msg_id m"
  by (auto simp: on_message_def Let_def split: option.splits if_splits)

lemma wildcard_owner_is_literal_witness:
  "\<exists>x. on_message \<lparr>tr_js = Some list_js, tr_publisher = ''b''\<rparr> ''>''
      \<lparr>nm_subject = ''app.todo_crdt.u1'', nm_data = publisher_prefix ''a'' @ CHR '':'' # ''z'', nm_msg_id = ''i''\<rparr>
    = Some x \<and> op_owner x = ''>''"
proof -
  have "fnv32a ''a'' \<noteq> fnv32a ''b''" by (simp add: fnv32a_def fnv32a_step_def)
  then obtain x where "on_message \<lparr>tr_js = Some list_js, tr_publisher = ''b''\<rparr> ''>''
      \<lparr>nm_subject = ''app.todo_crdt.u1'', nm_data = publisher_prefix ''a'' @ CHR '':'' # ''z'', nm_msg_id = ''i''\<rparr>
    = Some x"
    using on_message_published [of "\<lparr>tr_js = Some list_js, tr_publisher = ''b''\<rparr>" "''a''" "''i''"
      "''>''" "''app.todo_crdt.u1''" "''z''"] by simp
  with wildcard_owner_is_literal [OF this] show ?thesis by blast
qed

end
