(* ===== verification/Store.thy ===== *)
theory Store
  imports GoLib "HOL-Library.Multiset"
begin

text \<open>
  The storage interface of \<open>features/store/store.go\<close>, the todo of \<open>features/todo/models.go\<close>, and the
  part of PocketBase's \<open>core.App\<close> both strategies call.  PocketBase is external: its calls are the
  fields of \<open>core_app\<close>, and what the stores rely on is the predicate \<open>app_laws\<close>.  The contract of
  \<open>EntityStore\<close> is the locale \<open>entity_store\<close>, over an abstract view of who owns which todos.

  A time is the number of nanoseconds since Go's zero time, so 0 is the zero time.
\<close>

subsection \<open>Todos and errors\<close>

record todo =
  td_id :: string
  td_title :: string
  td_completed :: bool
  td_created :: int
  td_updated :: int

datatype store_err = ErrNotFound | ErrNotImplemented | ErrOther string

type_synonym 'a result = "store_err + 'a"

datatype pval = PStr string | PBool bool | PTime int

type_synonym patch = "(string \<times> pval) list"

text \<open>The effect of a patch on title and completed flag; a patch is a Go map, so its keys are distinct.\<close>

definition patch_known :: "patch \<Rightarrow> bool" where
  "patch_known p \<longleftrightarrow> distinct (map fst p) \<and>
     (\<forall>kv \<in> set p. (\<exists>s. kv = (''title'', PStr s)) \<or> (\<exists>b. kv = (''completed'', PBool b)))"

fun patch_item :: "patch \<Rightarrow> string \<times> bool \<Rightarrow> string \<times> bool" where
  "patch_item [] x = x"
| "patch_item ((k, v) # p) (t, c) = patch_item p (case v of
     PStr s \<Rightarrow> (s, c) | PBool b \<Rightarrow> (t, b) | PTime _ \<Rightarrow> (t, c))"

definition keeps :: "string \<Rightarrow> bool \<Rightarrow> bool" where
  "keeps flt c = (if flt = ''active'' then \<not> c else if flt = ''completed'' then c else True)"

subsection \<open>PocketBase\<close>

record row =
  rw_id :: string
  rw_title :: string
  rw_completed :: bool
  rw_created :: int
  rw_updated :: int
  rw_owner :: string
  rw_idem :: string

definition new_row :: row where
  "new_row = \<lparr>rw_id = '''', rw_title = '''', rw_completed = False, rw_created = 0, rw_updated = 0,
     rw_owner = '''', rw_idem = ''''\<rparr>"

datatype cond = CompletedIs bool | OwnerIs string | IdemIs string

type_synonym pb_filter = "cond list"

fun cond_holds :: "row \<Rightarrow> cond \<Rightarrow> bool" where
  "cond_holds r (CompletedIs b) = (rw_completed r = b)"
| "cond_holds r (OwnerIs u) = (rw_owner r = u)"
| "cond_holds r (IdemIs k) = (rw_idem r = k)"

definition matches :: "pb_filter \<Rightarrow> row \<Rightarrow> bool" where
  "matches f r = list_all (cond_holds r) f"

datatype col_result = ColFound | ColNoRows | ColErr

datatype rows_result = Rows "row list" | NoRows | RowsErr

text \<open>
  \<open>core.App\<close>: the database state and its calls on a named collection.  A limit of 0 is no limit.
  \<open>ca_rows\<close> is what a collection holds; it is read by the laws and properties only.
\<close>

record 'db core_app =
  ca_db :: 'db
  ca_find_col :: "'db \<Rightarrow> string \<Rightarrow> col_result"
  ca_find_by_id :: "'db \<Rightarrow> string \<Rightarrow> string \<Rightarrow> row option"
  ca_find :: "'db \<Rightarrow> string \<Rightarrow> pb_filter \<Rightarrow> string \<Rightarrow> nat \<Rightarrow> rows_result"
  ca_first :: "'db \<Rightarrow> string \<Rightarrow> pb_filter \<Rightarrow> row option"
  ca_save :: "'db \<Rightarrow> string \<Rightarrow> row \<Rightarrow> 'db \<times> row option"
  ca_delete :: "'db \<Rightarrow> string \<Rightarrow> row \<Rightarrow> 'db \<times> bool"
  ca_set :: "string \<Rightarrow> pval \<Rightarrow> row \<Rightarrow> row"
  ca_rows :: "'db \<Rightarrow> string \<Rightarrow> row list"

text \<open>Two rows that differ in their dates only: the database keeps dates at its own precision.\<close>

definition same_row :: "row \<Rightarrow> row \<Rightarrow> bool" where
  "same_row a b \<longleftrightarrow> rw_id a = rw_id b \<and> rw_title a = rw_title b \<and>
     rw_completed a = rw_completed b \<and> rw_owner a = rw_owner b \<and> rw_idem a = rw_idem b"

definition well_formed_rows :: "row list \<Rightarrow> bool" where
  "well_formed_rows rs \<longleftrightarrow> distinct (map rw_id rs) \<and> '''' \<notin> rw_id ` set rs"

definition set_laws :: "'db core_app \<Rightarrow> bool" where
  "set_laws a \<longleftrightarrow> (\<forall>r s b t.
     ca_set a ''title'' (PStr s) r = r\<lparr>rw_title := s\<rparr> \<and>
     ca_set a ''completed'' (PBool b) r = r\<lparr>rw_completed := b\<rparr> \<and>
     ca_set a ''owner'' (PStr s) r = r\<lparr>rw_owner := s\<rparr> \<and>
     ca_set a ''idem_key'' (PStr s) r = r\<lparr>rw_idem := s\<rparr> \<and>
     ca_set a ''created'' (PTime t) r = r\<lparr>rw_created := t\<rparr> \<and>
     ca_set a ''updated'' (PTime t) r = r\<lparr>rw_updated := t\<rparr>)"

definition find_laws :: "'db core_app \<Rightarrow> string \<Rightarrow> bool" where
  "find_laws a c \<longleftrightarrow> (\<forall>db. well_formed_rows (ca_rows a db c) \<longrightarrow>
     (\<forall>i. ca_find_by_id a db c i = find (\<lambda>r. rw_id r = i) (ca_rows a db c)) \<and>
     (\<forall>f. case ca_first a db c f of
        None \<Rightarrow> filter (matches f) (ca_rows a db c) = []
      | Some r \<Rightarrow> r \<in> set (ca_rows a db c) \<and> matches f r) \<and>
     (\<forall>f srt n. let hits = filter (matches f) (ca_rows a db c) in
        case ca_find a db c f srt n of
          NoRows \<Rightarrow> hits = []
        | RowsErr \<Rightarrow> False
        | Rows rs \<Rightarrow> (if n = 0 \<or> length hits \<le> n then mset rs = mset hits
            else length rs = n \<and> mset rs \<subseteq># mset hits)))"

definition save_laws :: "'db core_app \<Rightarrow> string \<Rightarrow> bool" where
  "save_laws a c \<longleftrightarrow> (\<forall>db r. well_formed_rows (ca_rows a db c) \<longrightarrow>
     (case ca_save a db c r of
        (db', None) \<Rightarrow> ca_rows a db' c = ca_rows a db c
      | (db', Some r') \<Rightarrow> \<exists>st. same_row st r' \<and>
          (if rw_id r = '''' then r' = r\<lparr>rw_id := rw_id r'\<rparr> \<and> rw_id r' \<noteq> '''' \<and>
             rw_id r' \<notin> rw_id ` set (ca_rows a db c) \<and> ca_rows a db' c = ca_rows a db c @ [st]
           else r' = r \<and>
             ca_rows a db' c = map (\<lambda>x. if rw_id x = rw_id r then st else x) (ca_rows a db c))))"

definition delete_laws :: "'db core_app \<Rightarrow> string \<Rightarrow> bool" where
  "delete_laws a c \<longleftrightarrow> (\<forall>db r.
     ca_rows a (fst (ca_delete a db c r)) c =
       (if snd (ca_delete a db c r) then filter (\<lambda>x. rw_id x \<noteq> rw_id r) (ca_rows a db c)
        else ca_rows a db c))"

definition app_laws :: "'db core_app \<Rightarrow> string \<Rightarrow> bool" where
  "app_laws a c \<longleftrightarrow> set_laws a \<and> find_laws a c \<and> save_laws a c \<and> delete_laws a c"

lemma app_laws_db [simp]: "app_laws (a\<lparr>ca_db := db\<rparr>) c = app_laws a c"
  by (cases a) (simp only: app_laws_def set_laws_def find_laws_def save_laws_def delete_laws_def
    core_app.select_convs core_app.update_convs)

text \<open>The rows a store sees.\<close>

abbreviation rows_of :: "'db core_app \<Rightarrow> string \<Rightarrow> row list" where
  "rows_of a c \<equiv> ca_rows a (ca_db a) c"

subsection \<open>The interface\<close>

text \<open>
  \<open>view s o\<close> is what owner \<open>o\<close> has: id to title and completed flag.  The contract is for requests of
  an authenticated owner.  An operation that fails with another error than not-found (the backend
  failed) keeps the invariant and other owners' todos.
\<close>

locale entity_store =
  fixes inv :: "'s \<Rightarrow> bool"
    and view :: "'s \<Rightarrow> string \<Rightarrow> string \<rightharpoonup> string \<times> bool"
    and create :: "todo \<Rightarrow> string \<Rightarrow> string \<Rightarrow> 's \<Rightarrow> 's \<times> todo result"
    and get_one :: "string \<Rightarrow> string \<Rightarrow> 's \<Rightarrow> 's \<times> todo result"
    and list_all_of :: "string \<Rightarrow> string \<Rightarrow> 's \<Rightarrow> 's \<times> todo list result"
    and update :: "string \<Rightarrow> string \<Rightarrow> patch \<Rightarrow> 's \<Rightarrow> 's \<times> todo result"
    and delete :: "string \<Rightarrow> string \<Rightarrow> 's \<Rightarrow> 's \<times> unit result"
    and clear :: "string \<Rightarrow> 's \<Rightarrow> 's \<times> nat \<times> store_err option"
    and count :: "string \<Rightarrow> 's \<Rightarrow> 's \<times> nat result"
  assumes create_law: "inv s \<Longrightarrow> u \<noteq> '''' \<Longrightarrow> create e u k s = (s', r) \<Longrightarrow>
      inv s' \<and> (\<forall>v. v \<noteq> u \<longrightarrow> view s' v = view s v) \<and>
      (\<forall>t. r = Inr t \<longrightarrow> view s' u = (view s u)(td_id t \<mapsto> (td_title t, td_completed t)) \<and>
        (if view s u (td_id t) = None then td_title t = td_title e \<and> td_completed t = td_completed e
         else view s' u = view s u))"
    and get_law: "inv s \<Longrightarrow> u \<noteq> '''' \<Longrightarrow> i \<noteq> '''' \<Longrightarrow> get_one u i s = (s', r) \<Longrightarrow>
      inv s' \<and> view s' = view s \<and>
      (case r of Inl e \<Rightarrow> e = ErrNotFound \<and> view s u i = None
       | Inr t \<Rightarrow> td_id t = i \<and> view s u i = Some (td_title t, td_completed t))"
    and list_law: "inv s \<Longrightarrow> u \<noteq> '''' \<Longrightarrow> list_all_of u flt s = (s', rl) \<Longrightarrow>
      inv s' \<and> view s' = view s \<and>
      (\<exists>ts. rl = Inr ts \<and> distinct (map td_id ts) \<and>
        (\<forall>i x c. (\<exists>t \<in> set ts. td_id t = i \<and> td_title t = x \<and> td_completed t = c) \<longleftrightarrow>
           view s u i = Some (x, c) \<and> keeps flt c))"
    and update_law: "inv s \<Longrightarrow> u \<noteq> '''' \<Longrightarrow> i \<noteq> '''' \<Longrightarrow> patch_known p \<Longrightarrow>
      update u i p s = (s', r) \<Longrightarrow>
      inv s' \<and> (\<forall>v. v \<noteq> u \<longrightarrow> view s' v = view s v) \<and>
      (case r of
         Inl e \<Rightarrow> e = ErrNotFound \<longrightarrow> view s u i = None \<and> view s' u = view s u
       | Inr t \<Rightarrow> td_id t = i \<and> view s u i \<noteq> None \<and>
           (td_title t, td_completed t) = patch_item p (the (view s u i)) \<and>
           view s' u = (view s u)(i \<mapsto> patch_item p (the (view s u i))))"
    and delete_law: "inv s \<Longrightarrow> u \<noteq> '''' \<Longrightarrow> i \<noteq> '''' \<Longrightarrow> delete u i s = (s', rd) \<Longrightarrow>
      inv s' \<and> (\<forall>v. v \<noteq> u \<longrightarrow> view s' v = view s v) \<and>
      (rd = Inr () \<longrightarrow> view s' u = (view s u)(i := None)) \<and>
      (rd = Inl ErrNotFound \<longrightarrow> view s u i = None \<and> view s' u = view s u)"
    and clear_law: "inv s \<Longrightarrow> u \<noteq> '''' \<Longrightarrow> clear u s = (s', n, ce) \<Longrightarrow>
      inv s' \<and> (\<forall>v. v \<noteq> u \<longrightarrow> view s' v = view s v) \<and>
      (ce = None \<longrightarrow> n = card {i. \<exists>x. view s u i = Some (x, True)} \<and>
        view s' u = (\<lambda>i. case view s u i of Some (x, c) \<Rightarrow> if c then None else Some (x, c) | None \<Rightarrow> None))"
    and count_law: "inv s \<Longrightarrow> u \<noteq> '''' \<Longrightarrow> count u s = (s', rc) \<Longrightarrow>
      inv s' \<and> view s' = view s \<and> rc = Inr (card (dom (view s u)))"

subsection \<open>Reading rows as an owner's todos\<close>

definition row_view :: "row list \<Rightarrow> string \<Rightarrow> string \<rightharpoonup> string \<times> bool" where
  "row_view rs u i = map_option (\<lambda>r. (rw_title r, rw_completed r))
     (find (\<lambda>r. rw_id r = i \<and> rw_owner r = u) rs)"

lemma map_eqI: "(\<And>i y. m i = Some y \<longleftrightarrow> m' i = Some y) \<Longrightarrow> m = m'"
  by (metis ext not_Some_eq)

lemma row_view_Some:
  assumes "distinct (map rw_id rs)"
  shows "row_view rs u i = Some y \<longleftrightarrow>
    (\<exists>r \<in> set rs. rw_id r = i \<and> rw_owner r = u \<and> y = (rw_title r, rw_completed r))"
  using assms by (induction rs) (auto simp: row_view_def)

lemma row_view_None:
  "row_view rs u i = None \<longleftrightarrow> (\<forall>r \<in> set rs. rw_id r = i \<longrightarrow> rw_owner r \<noteq> u)"
  by (auto simp: row_view_def find_None_iff)

lemma find_by_id:
  "distinct (map rw_id rs) \<Longrightarrow> r \<in> set rs \<Longrightarrow> find (\<lambda>x. rw_id x = rw_id r) rs = Some r"
  by (induction rs) (auto simp: image_iff)

lemma find_by_id_SomeD: "find (\<lambda>x. rw_id x = i) rs = Some r \<Longrightarrow> r \<in> set rs \<and> rw_id r = i"
  by (auto simp: find_Some_iff)

lemma row_unique:
  "distinct (map rw_id rs) \<Longrightarrow> r \<in> set rs \<Longrightarrow> r' \<in> set rs \<Longrightarrow> rw_id r = rw_id r' \<Longrightarrow> r = r'"
  by (metis find_by_id option.inject)

lemma row_view_append:
  assumes "distinct (map rw_id (rs @ [r]))"
  shows "row_view (rs @ [r]) u = (if rw_owner r = u
    then (row_view rs u)(rw_id r \<mapsto> (rw_title r, rw_completed r)) else row_view rs u)"
proof (rule map_eqI)
  fix i y
  have "distinct (map rw_id rs)" and new: "\<And>x. x \<in> set rs \<Longrightarrow> rw_id x \<noteq> rw_id r"
    using assms by (auto simp: image_iff)
  then show "row_view (rs @ [r]) u i = Some y \<longleftrightarrow> (if rw_owner r = u
      then (row_view rs u)(rw_id r \<mapsto> (rw_title r, rw_completed r)) else row_view rs u) i = Some y"
    using row_view_Some [OF assms] by (auto simp: row_view_Some dest: new)
qed

lemma row_view_replace:
  assumes "distinct (map rw_id rs)" and "r \<in> set rs" and "rw_id st = rw_id r" and "rw_owner st = rw_owner r"
  shows "row_view (map (\<lambda>x. if rw_id x = rw_id r then st else x) rs) u =
    (if rw_owner r = u then (row_view rs u)(rw_id r \<mapsto> (rw_title st, rw_completed st)) else row_view rs u)"
proof (rule map_eqI)
  fix i y
  have "map rw_id (map (\<lambda>x. if rw_id x = rw_id r then st else x) rs) = map rw_id rs"
    using assms(3) by auto
  then have d: "distinct (map rw_id (map (\<lambda>x. if rw_id x = rw_id r then st else x) rs))"
    using assms(1) by (simp only:)
  show "row_view (map (\<lambda>x. if rw_id x = rw_id r then st else x) rs) u i = Some y \<longleftrightarrow>
    (if rw_owner r = u then (row_view rs u)(rw_id r \<mapsto> (rw_title st, rw_completed st))
     else row_view rs u) i = Some y"
    unfolding row_view_Some [OF d]
    using assms row_unique [OF assms(1) _ assms(2)] row_view_Some [OF assms(1)]
    by (auto simp: fun_upd_def)
qed

lemma row_view_filter:
  assumes "distinct (map rw_id rs)"
  shows "row_view (filter P rs) u i =
    (case find (\<lambda>r. rw_id r = i \<and> rw_owner r = u) rs of
       None \<Rightarrow> None | Some r \<Rightarrow> if P r then row_view rs u i else None)"
  using assms
proof (induction rs)
  case (Cons a rs)
  have "\<forall>x \<in> set rs. rw_id x \<noteq> rw_id a" using Cons.prems by (auto simp: image_iff)
  then have "find (\<lambda>r. rw_id r = rw_id a \<and> rw_owner r = u) rs = None" for u
    by (auto simp: find_None_iff)
  then have no: "row_view rs u (rw_id a) = None" by (simp add: row_view_def)
  moreover have "row_view (filter P rs) u (rw_id a) = None"
    using \<open>\<forall>x \<in> set rs. rw_id x \<noteq> rw_id a\<close> by (auto simp: row_view_None)
  ultimately show ?case
    using Cons by (auto simp: row_view_def split: option.splits)
qed (simp add: row_view_def)

lemma mset_eq_set: "mset xs = mset ys \<Longrightarrow> set xs = set ys"
  by (rule mset_eq_setD)

lemma find_owned:
  assumes "distinct (map rw_id rs)" and "r \<in> set rs"
  shows "find (\<lambda>x. rw_id x = rw_id r \<and> rw_owner x = u) rs = (if rw_owner r = u then Some r else None)"
  using assms
proof (induction rs)
  case (Cons a rs)
  show ?case
  proof (cases "a = r")
    case True
    then have "\<forall>x \<in> set rs. rw_id x \<noteq> rw_id r" using Cons.prems(1) by (auto simp: image_iff)
    then show ?thesis using True by (auto simp: find_None_iff)
  next
    case False
    with Cons show ?thesis by (auto simp: image_iff)
  qed
qed simp

lemma save_laws_new:
  assumes "save_laws a c" and "well_formed_rows (ca_rows a db c)" and "rw_id r = ''''"
    and "ca_save a db c r = (db', Some r')"
  shows "\<exists>st. same_row st r' \<and> r' = r\<lparr>rw_id := rw_id r'\<rparr> \<and> rw_id r' \<noteq> '''' \<and>
    rw_id r' \<notin> rw_id ` set (ca_rows a db c) \<and> ca_rows a db' c = ca_rows a db c @ [st]"
  using assms(1) [unfolded save_laws_def, THEN spec, of db, THEN spec, of r] assms(2-) by simp

lemma save_laws_old:
  assumes "save_laws a c" and "well_formed_rows (ca_rows a db c)" and "rw_id r \<noteq> ''''"
    and "ca_save a db c r = (db', Some r')"
  shows "\<exists>st. same_row st r \<and> r' = r \<and>
    ca_rows a db' c = map (\<lambda>x. if rw_id x = rw_id r then st else x) (ca_rows a db c)"
  using assms(1) [unfolded save_laws_def, THEN spec, of db, THEN spec, of r] assms(2-) by auto

lemma save_laws_fail:
  assumes "save_laws a c" and "well_formed_rows (ca_rows a db c)"
    and "ca_save a db c r = (db', None)"
  shows "ca_rows a db' c = ca_rows a db c"
  using assms(1) [unfolded save_laws_def, THEN spec, of db, THEN spec, of r] assms(2-) by simp

lemma same_rowD:
  "same_row st r \<Longrightarrow> rw_id st = rw_id r \<and> rw_title st = rw_title r \<and> rw_completed st = rw_completed r \<and>
    rw_owner st = rw_owner r \<and> rw_idem st = rw_idem r"
  by (simp add: same_row_def)

subsection \<open>A database for the witnesses\<close>

text \<open>One collection held in a list; a new row's id is longer than every id in the collection.\<close>

definition mem_save :: "row list \<Rightarrow> string \<Rightarrow> row \<Rightarrow> row list \<times> row option" where
  "mem_save db c r =
     (if rw_id r = '''' then let r' = r\<lparr>rw_id := CHR ''r'' # concat (map rw_id db)\<rparr> in (db @ [r'], Some r')
      else (map (\<lambda>x. if rw_id x = rw_id r then r else x) db, Some r))"

fun mem_set :: "string \<Rightarrow> pval \<Rightarrow> row \<Rightarrow> row" where
  "mem_set k (PStr s) r = (if k = ''title'' then r\<lparr>rw_title := s\<rparr>
     else if k = ''owner'' then r\<lparr>rw_owner := s\<rparr> else if k = ''idem_key'' then r\<lparr>rw_idem := s\<rparr> else r)"
| "mem_set k (PBool b) r = (if k = ''completed'' then r\<lparr>rw_completed := b\<rparr> else r)"
| "mem_set k (PTime t) r = (if k = ''created'' then r\<lparr>rw_created := t\<rparr>
     else if k = ''updated'' then r\<lparr>rw_updated := t\<rparr> else r)"

definition mem_app :: "row list \<Rightarrow> row list core_app" where
  "mem_app db = \<lparr>ca_db = db, ca_find_col = (\<lambda>_ _. ColFound),
     ca_find_by_id = (\<lambda>db _ i. find (\<lambda>r. rw_id r = i) db),
     ca_find = (\<lambda>db _ f _ n. Rows (let hits = filter (matches f) db in if n = 0 then hits else take n hits)),
     ca_first = (\<lambda>db _ f. find (matches f) db),
     ca_save = mem_save,
     ca_delete = (\<lambda>db _ r. (filter (\<lambda>x. rw_id x \<noteq> rw_id r) db, True)),
     ca_set = mem_set, ca_rows = (\<lambda>db _. db)\<rparr>"

lemma mem_app_fields [simp]:
  "ca_db (mem_app db) = db" "ca_rows (mem_app db) d c = d" "ca_save (mem_app db) = mem_save"
  "ca_set (mem_app db) = mem_set" "ca_find_col (mem_app db) d c = ColFound"
  "ca_find_by_id (mem_app db) d c i = find (\<lambda>r. rw_id r = i) d"
  "ca_first (mem_app db) d c f = find (matches f) d"
  "ca_find (mem_app db) d c f srt n =
    Rows (if n = 0 then filter (matches f) d else take n (filter (matches f) d))"
  "ca_delete (mem_app db) d c r = (filter (\<lambda>x. rw_id x \<noteq> rw_id r) d, True)"
  by (simp_all add: mem_app_def Let_def)

lemma mem_app_db [simp]: "(mem_app db)\<lparr>ca_db := db'\<rparr> = mem_app db'"
  by (simp add: mem_app_def)

lemma length_concat_ids: "r \<in> set db \<Longrightarrow> length (rw_id r) \<le> length (concat (map rw_id db))"
  by (induction db) auto

lemma mset_take_subset: "mset (take n xs) \<subseteq># mset xs"
  by (metis append_take_drop_id mset_append mset_subset_eq_add_left)

lemma mem_app_laws: "app_laws (mem_app db) c"
proof -
  have "CHR ''r'' # concat (map rw_id d) \<notin> rw_id ` set d" for d
  proof
    assume "CHR ''r'' # concat (map rw_id d) \<in> rw_id ` set d"
    then obtain r where r: "r \<in> set d" "CHR ''r'' # concat (map rw_id d) = rw_id r" by blast
    from length_concat_ids [OF r(1)] show False by (simp add: r(2) [symmetric])
  qed
  then have "save_laws (mem_app db) c"
    by (auto simp: save_laws_def mem_save_def Let_def same_row_def)
  moreover have "find_laws (mem_app db) c"
    by (auto simp: find_laws_def Let_def find_None_iff find_Some_iff filter_empty_conv
        mset_take_subset min_def simp del: mset_filter split: option.splits)
  ultimately show ?thesis
    by (simp add: app_laws_def set_laws_def delete_laws_def)
qed

end
