(* ===== verification/PBStore.thy ===== *)
theory PBStore
  imports Store
begin

text \<open>
  The PocketBase strategy of \<open>features/store/pbstore/pbstore.go\<close>, operation by operation, and its
  interpretation of the storage interface.  Without an owner an operation is not scoped: that is
  the code's behaviour, stated in its own lemmas.
\<close>

record 'db pb_store =
  ps_app :: "'db core_app"
  ps_coll :: string

definition set_db :: "'db \<Rightarrow> 'db pb_store \<Rightarrow> 'db pb_store" where
  "set_db db s = s\<lparr>ps_app := (ps_app s)\<lparr>ca_db := db\<rparr>\<rparr>"

definition pb_new :: "'db core_app \<Rightarrow> string \<Rightarrow> 'db pb_store" where
  "pb_new app coll = \<lparr>ps_app = app, ps_coll = coll\<rparr>"

definition from_record :: "row \<Rightarrow> todo" where
  "from_record r = \<lparr>td_id = rw_id r, td_title = rw_title r, td_completed = rw_completed r,
     td_created = rw_created r, td_updated = rw_updated r\<rparr>"

definition pb_create :: "todo \<Rightarrow> string \<Rightarrow> string \<Rightarrow> 'db pb_store \<Rightarrow> 'db pb_store \<times> todo result" where
  "pb_create e owner idem s =
     (let a = ps_app s in
      case ca_find_col a (ca_db a) (ps_coll s) of
        ColFound \<Rightarrow>
          (let r1 = ca_set a ''title'' (PStr (td_title e)) new_row;
               r2 = ca_set a ''completed'' (PBool (td_completed e)) r1;
               r3 = (if owner \<noteq> '''' then ca_set a ''owner'' (PStr owner) r2 else r2);
               r4 = (if idem \<noteq> '''' then ca_set a ''idem_key'' (PStr idem) r3 else r3)
           in case ca_save a (ca_db a) (ps_coll s) r4 of
                (db', None) \<Rightarrow> (set_db db' s, Inl (ErrOther ''pbstore: save''))
              | (db', Some r) \<Rightarrow> (set_db db' s, Inr (from_record r)))
      | _ \<Rightarrow> (s, Inl (ErrOther ''pbstore: find collection'')))"

text \<open>The lookup shared by \<open>Get\<close>, \<open>Update\<close> and \<open>Delete\<close>: another owner's row is not found.\<close>

definition pb_lookup :: "string \<Rightarrow> string \<Rightarrow> 'db pb_store \<Rightarrow> row option" where
  "pb_lookup owner i s =
     (case ca_find_by_id (ps_app s) (ca_db (ps_app s)) (ps_coll s) i of
        None \<Rightarrow> None
      | Some r \<Rightarrow> if owner \<noteq> '''' \<and> rw_owner r \<noteq> '''' \<and> rw_owner r \<noteq> owner then None else Some r)"

definition pb_get :: "string \<Rightarrow> string \<Rightarrow> 'db pb_store \<Rightarrow> 'db pb_store \<times> todo result" where
  "pb_get owner i s = (s, case pb_lookup owner i s of
     None \<Rightarrow> Inl ErrNotFound | Some r \<Rightarrow> Inr (from_record r))"

definition list_filter :: "string \<Rightarrow> string \<Rightarrow> pb_filter" where
  "list_filter owner flt =
     (if flt = ''active'' then [CompletedIs False]
      else if flt = ''completed'' then [CompletedIs True] else []) @
     (if owner \<noteq> '''' then [OwnerIs owner] else [])"

definition find_list :: "string \<Rightarrow> pb_filter \<Rightarrow> string \<Rightarrow> 'db pb_store \<Rightarrow> row list result" where
  "find_list what f srt s =
     (case ca_find (ps_app s) (ca_db (ps_app s)) (ps_coll s) f srt 0 of
        Rows rs \<Rightarrow> Inr rs
      | _ \<Rightarrow> Inl (ErrOther what))"

definition pb_list :: "string \<Rightarrow> string \<Rightarrow> 'db pb_store \<Rightarrow> 'db pb_store \<times> todo list result" where
  "pb_list owner flt s = (s, case find_list ''pbstore: list'' (list_filter owner flt) ''-created'' s of
     Inl e \<Rightarrow> Inl e | Inr rs \<Rightarrow> Inr (map from_record rs))"

definition pb_update ::
  "string \<Rightarrow> string \<Rightarrow> patch \<Rightarrow> 'db pb_store \<Rightarrow> 'db pb_store \<times> todo result" where
  "pb_update owner i patch s =
     (case pb_lookup owner i s of
        None \<Rightarrow> (s, Inl ErrNotFound)
      | Some r \<Rightarrow>
          (let a = ps_app s; r' = foldl (\<lambda>r kv. ca_set a (fst kv) (snd kv) r) r patch
           in case ca_save a (ca_db a) (ps_coll s) r' of
                (db', None) \<Rightarrow> (set_db db' s, Inl (ErrOther ''pbstore: update''))
              | (db', Some r'') \<Rightarrow> (set_db db' s, Inr (from_record r''))))"

definition pb_delete :: "string \<Rightarrow> string \<Rightarrow> 'db pb_store \<Rightarrow> 'db pb_store \<times> unit result" where
  "pb_delete owner i s =
     (case pb_lookup owner i s of
        None \<Rightarrow> (s, Inl ErrNotFound)
      | Some r \<Rightarrow>
          (case ca_delete (ps_app s) (ca_db (ps_app s)) (ps_coll s) r of
             (db', True) \<Rightarrow> (set_db db' s, Inr ())
           | (db', False) \<Rightarrow> (set_db db' s, Inl (ErrOther ''pbstore: delete''))))"

fun delete_rows :: "row list \<Rightarrow> nat \<Rightarrow> 'db pb_store \<Rightarrow> 'db pb_store \<times> nat \<times> store_err option" where
  "delete_rows [] n s = (s, n, None)"
| "delete_rows (r # rs) n s =
     (case ca_delete (ps_app s) (ca_db (ps_app s)) (ps_coll s) r of
        (db', True) \<Rightarrow> delete_rows rs (n + 1) (set_db db' s)
      | (db', False) \<Rightarrow> (set_db db' s, n, Some (ErrOther ''pbstore: clear delete'')))"

definition pb_clear_completed ::
  "string \<Rightarrow> 'db pb_store \<Rightarrow> 'db pb_store \<times> nat \<times> store_err option" where
  "pb_clear_completed owner s =
     (case find_list ''pbstore: clear find''
        (CompletedIs True # (if owner \<noteq> '''' then [OwnerIs owner] else [])) '''' s of
        Inl e \<Rightarrow> (s, 0, Some e)
      | Inr rs \<Rightarrow> delete_rows rs 0 s)"

definition pb_count :: "string \<Rightarrow> 'db pb_store \<Rightarrow> 'db pb_store \<times> nat result" where
  "pb_count owner s = (s, case find_list ''pbstore: count''
       (if owner \<noteq> '''' then [OwnerIs owner] else []) '''' s of
     Inl e \<Rightarrow> Inl e | Inr rs \<Rightarrow> Inr (length rs))"

subsection \<open>Invariant and view\<close>

text \<open>
  A lookup with no match is not an error for this strategy: \<open>FindRecordsByFilter\<close> is taken to return
  an empty slice.  No row is without an owner.
\<close>

definition find_total :: "'db core_app \<Rightarrow> string \<Rightarrow> bool" where
  "find_total a c \<longleftrightarrow> (\<forall>db f srt n. ca_find a db c f srt n \<noteq> NoRows)"

definition pb_rows :: "'db pb_store \<Rightarrow> row list" where
  "pb_rows s = rows_of (ps_app s) (ps_coll s)"

definition pb_inv :: "'db pb_store \<Rightarrow> bool" where
  "pb_inv s \<longleftrightarrow> app_laws (ps_app s) (ps_coll s) \<and> find_total (ps_app s) (ps_coll s) \<and>
     well_formed_rows (pb_rows s) \<and> (\<forall>r \<in> set (pb_rows s). rw_owner r \<noteq> '''')"

definition pb_view :: "'db pb_store \<Rightarrow> string \<Rightarrow> string \<rightharpoonup> string \<times> bool" where
  "pb_view s u = row_view (pb_rows s) u"

lemma find_total_db [simp]: "find_total (a\<lparr>ca_db := db\<rparr>) c = find_total a c"
  by (cases a) (simp add: find_total_def)

lemma set_db_fields [simp]:
  "ps_coll (set_db db s) = ps_coll s" "ps_app (set_db db s) = (ps_app s)\<lparr>ca_db := db\<rparr>"
  "pb_rows (set_db db s) = ca_rows (ps_app s) db (ps_coll s)"
  by (simp_all add: set_db_def pb_rows_def)

lemma pb_invD:
  assumes "pb_inv s"
  shows "set_laws (ps_app s)" "find_laws (ps_app s) (ps_coll s)" "save_laws (ps_app s) (ps_coll s)"
    "delete_laws (ps_app s) (ps_coll s)" "find_total (ps_app s) (ps_coll s)"
    "well_formed_rows (pb_rows s)" "\<And>r. r \<in> set (pb_rows s) \<Longrightarrow> rw_owner r \<noteq> ''''"
    "distinct (map rw_id (pb_rows s))"
  using assms by (auto simp: pb_inv_def app_laws_def well_formed_rows_def)

lemma pb_inv_set_db:
  assumes "pb_inv s" and "well_formed_rows (ca_rows (ps_app s) db (ps_coll s))"
    and "\<And>r. r \<in> set (ca_rows (ps_app s) db (ps_coll s)) \<Longrightarrow> rw_owner r \<noteq> ''''"
  shows "pb_inv (set_db db s)"
  using assms by (auto simp: pb_inv_def)

lemma pb_inv_same_rows:
  assumes "pb_inv s" and "ca_rows (ps_app s) db (ps_coll s) = pb_rows s"
  shows "pb_inv (set_db db s)" "pb_view (set_db db s) = pb_view s"
  using assms by (auto simp: pb_inv_def pb_view_def)

lemma pb_lookup_eq:
  assumes "pb_inv s" and "u \<noteq> ''''"
  shows "pb_lookup u i s = find (\<lambda>r. rw_id r = i \<and> rw_owner r = u) (pb_rows s)"
proof -
  note d = pb_invD [OF assms(1)]
  have f: "ca_find_by_id (ps_app s) (ca_db (ps_app s)) (ps_coll s) i = find (\<lambda>r. rw_id r = i) (pb_rows s)"
    using d(2,6) by (simp add: find_laws_def pb_rows_def)
  show ?thesis
  proof (cases "find (\<lambda>r. rw_id r = i) (pb_rows s)")
    case None
    then have "find (\<lambda>r. rw_id r = i \<and> rw_owner r = u) (pb_rows s) = None"
      by (auto simp: find_None_iff)
    then show ?thesis using f None by (simp add: pb_lookup_def)
  next
    case (Some r)
    then have r: "r \<in> set (pb_rows s)" "rw_id r = i" by (auto dest: find_by_id_SomeD)
    have eq: "find (\<lambda>x. rw_id x = i \<and> rw_owner x = u) (pb_rows s) = (if rw_owner r = u then Some r else None)"
      using find_owned [OF d(8) r(1)] r(2) by simp
    show ?thesis using f Some eq assms(2) d(7) [OF r(1)] by (simp add: pb_lookup_def)
  qed
qed

lemma pb_view_lookup:
  "pb_inv s \<Longrightarrow> u \<noteq> '''' \<Longrightarrow>
    pb_view s u i = map_option (\<lambda>r. (rw_title r, rw_completed r)) (pb_lookup u i s)"
  by (simp add: pb_lookup_eq pb_view_def row_view_def)

lemma pb_lookup_SomeD:
  assumes "pb_inv s" and "u \<noteq> ''''" and "pb_lookup u i s = Some r"
  shows "r \<in> set (pb_rows s)" "rw_id r = i" "rw_owner r = u"
  using assms by (auto simp: pb_lookup_eq find_Some_iff)

lemma pb_find_list:
  assumes "pb_inv s"
  shows "\<exists>rs. find_list w f srt s = Inr rs \<and> mset rs = mset (filter (matches f) (pb_rows s))"
proof -
  note d = pb_invD [OF assms]
  from d(2,6) have "case ca_find (ps_app s) (ca_db (ps_app s)) (ps_coll s) f srt 0 of
      NoRows \<Rightarrow> True | RowsErr \<Rightarrow> False
    | Rows rs \<Rightarrow> mset rs = mset (filter (matches f) (pb_rows s))"
    unfolding find_laws_def pb_rows_def Let_def by (fastforce split: rows_result.splits)
  moreover have "ca_find (ps_app s) (ca_db (ps_app s)) (ps_coll s) f srt 0 \<noteq> NoRows"
    using d(5) by (simp add: find_total_def)
  ultimately show ?thesis by (auto simp: find_list_def split: rows_result.splits)
qed

text \<open>Deleting a batch of rows.\<close>

lemma delete_rows_spec:
  assumes "pb_inv s" and "delete_rows rs n s = (s', m, e)"
  shows "\<exists>k \<le> length rs. m = n + k \<and> (e = None \<longrightarrow> k = length rs) \<and> ps_coll s' = ps_coll s \<and> pb_inv s' \<and>
    pb_rows s' = filter (\<lambda>x. rw_id x \<notin> rw_id ` set (take k rs)) (pb_rows s)"
  using assms
proof (induction rs n s rule: delete_rows.induct)
  case (1 n s)
  then show ?case by simp
next
  case (2 r rs n s)
  note d = pb_invD [OF "2.prems"(1)]
  obtain db ok where del: "ca_delete (ps_app s) (ca_db (ps_app s)) (ps_coll s) r = (db, ok)" by fastforce
  from d(4) have rows: "ca_rows (ps_app s) db (ps_coll s) =
      (if ok then filter (\<lambda>x. rw_id x \<noteq> rw_id r) (pb_rows s) else pb_rows s)"
    unfolding delete_laws_def pb_rows_def by (metis del fst_conv snd_conv)
  show ?case
  proof (cases ok)
    case False
    with 2 del rows show ?thesis by (auto intro!: exI [of _ 0] pb_inv_same_rows(1))
  next
    case True
    have inv: "pb_inv (set_db db s)"
      by (rule pb_inv_set_db [OF "2.prems"(1)])
        (use rows True d(6,7) in \<open>auto simp: well_formed_rows_def distinct_map_filter\<close>)
    from "2.IH" [OF del [symmetric, unfolded True] _ inv] "2.prems"(2) del True
    obtain k where k: "k \<le> length rs" "m = n + 1 + k" "e = None \<longrightarrow> k = length rs" "ps_coll s' = ps_coll s"
      "pb_inv s'" "pb_rows s' = filter (\<lambda>x. rw_id x \<notin> rw_id ` set (take k rs)) (pb_rows (set_db db s))"
      by auto
    show ?thesis
      by (rule exI [of _ "Suc k"]) (use k rows True in \<open>auto intro!: filter_cong\<close>)
  qed
qed

subsection \<open>The operations keep the contract\<close>

lemma foldl_set_known:
  assumes "set_laws a" and "patch_known p"
  shows "\<exists>t c. foldl (\<lambda>r kv. ca_set a (fst kv) (snd kv) r) r p = r\<lparr>rw_title := t, rw_completed := c\<rparr> \<and>
    patch_item p (rw_title r, rw_completed r) = (t, c)"
proof -
  have "\<forall>kv \<in> set p. (\<exists>s. kv = (''title'', PStr s)) \<or> (\<exists>b. kv = (''completed'', PBool b))"
    using assms(2) by (simp add: patch_known_def)
  then show ?thesis
  proof (induction p arbitrary: r)
    case (Cons kv p)
    from Cons.prems consider s where "kv = (''title'', PStr s)" | b where "kv = (''completed'', PBool b)"
      by auto
    then show ?case
    proof cases
      case (1 s)
      with Cons.IH [of "r\<lparr>rw_title := s\<rparr>"] Cons.prems assms(1) show ?thesis
        by (auto simp: set_laws_def)
    next
      case (2 b)
      with Cons.IH [of "r\<lparr>rw_completed := b\<rparr>"] Cons.prems assms(1) show ?thesis
        by (auto simp: set_laws_def)
    qed
  qed (auto intro: exI [of _ "rw_title r"] exI [of _ "rw_completed r"])
qed

lemma pb_save_new:
  assumes "pb_inv s" and "rw_id r = ''''" and "rw_owner r \<noteq> ''''"
    and "ca_save (ps_app s) (ca_db (ps_app s)) (ps_coll s) r = (db, Some r')"
  shows "pb_inv (set_db db s)" "r' = r\<lparr>rw_id := rw_id r'\<rparr>" "pb_view s u (rw_id r') = None"
    "pb_view (set_db db s) u = (if rw_owner r = u
       then (pb_view s u)(rw_id r' \<mapsto> (rw_title r, rw_completed r)) else pb_view s u)"
proof -
  note d = pb_invD [OF assms(1)]
  from save_laws_new [OF d(3) _ assms(2,4)] d(6)
  obtain st where st: "same_row st r'" "r' = r\<lparr>rw_id := rw_id r'\<rparr>" "rw_id r' \<noteq> ''''"
      "rw_id r' \<notin> rw_id ` set (pb_rows s)" "ca_rows (ps_app s) db (ps_coll s) = pb_rows s @ [st]"
    by (auto simp: pb_rows_def)
  have "rw_title r' = rw_title r" "rw_completed r' = rw_completed r" "rw_owner r' = rw_owner r"
    by (subst st(2), simp)+
  then have same: "rw_id st = rw_id r'" "rw_title st = rw_title r" "rw_completed st = rw_completed r"
      "rw_owner st = rw_owner r"
    using same_rowD [OF st(1)] by auto
  have dist: "distinct (map rw_id (pb_rows s @ [st]))" using d(8) st(4) same by auto
  show "pb_inv (set_db db s)"
    by (rule pb_inv_set_db [OF assms(1)])
      (use st same dist d(6,7) assms(3) in \<open>auto simp: well_formed_rows_def\<close>)
  show "r' = r\<lparr>rw_id := rw_id r'\<rparr>" by (rule st(2))
  show "pb_view s u (rw_id r') = None"
    using st(4) by (auto simp: pb_view_def row_view_None) (metis imageI)
  show "pb_view (set_db db s) u = (if rw_owner r = u
       then (pb_view s u)(rw_id r' \<mapsto> (rw_title r, rw_completed r)) else pb_view s u)"
    using row_view_append [OF dist, of u] st(5) same by (simp add: pb_view_def)
qed

lemma pb_create_ok:
  assumes "pb_inv s" and "u \<noteq> ''''" and "pb_create e u k s = (s', r)"
  shows "pb_inv s' \<and> (\<forall>v. v \<noteq> u \<longrightarrow> pb_view s' v = pb_view s v) \<and>
    (\<forall>t. r = Inr t \<longrightarrow> pb_view s' u = (pb_view s u)(td_id t \<mapsto> (td_title t, td_completed t)) \<and>
      pb_view s u (td_id t) = None \<and> td_title t = td_title e \<and> td_completed t = td_completed e)"
proof (cases "ca_find_col (ps_app s) (ca_db (ps_app s)) (ps_coll s)")
  case ColFound
  let ?a = "ps_app s"
  let ?r = "\<lparr>rw_id = '''', rw_title = td_title e, rw_completed = td_completed e, rw_created = 0,
    rw_updated = 0, rw_owner = u, rw_idem = k\<rparr>"
  note d = pb_invD [OF assms(1)]
  have "pb_create e u k s = (case ca_save ?a (ca_db ?a) (ps_coll s) ?r of
      (db', None) \<Rightarrow> (set_db db' s, Inl (ErrOther ''pbstore: save''))
    | (db', Some r) \<Rightarrow> (set_db db' s, Inr (from_record r)))"
    using ColFound assms(2) d(1) by (simp add: pb_create_def Let_def set_laws_def new_row_def)
  moreover obtain db res where sv: "ca_save ?a (ca_db ?a) (ps_coll s) ?r = (db, res)" by fastforce
  ultimately have out: "(s', r) = (set_db db s, case res of None \<Rightarrow> Inl (ErrOther ''pbstore: save'')
      | Some x \<Rightarrow> Inr (from_record x))"
    using assms(3) by (auto split: option.splits)
  show ?thesis
  proof (cases res)
    case None
    then have "ca_rows ?a db (ps_coll s) = pb_rows s"
      using save_laws_fail [OF d(3)] d(6) sv by (simp add: pb_rows_def)
    from pb_inv_same_rows [OF assms(1) this] out None show ?thesis by simp
  next
    case (Some r')
    from pb_save_new [OF assms(1), of ?r db r'] sv Some assms(2)
    have new: "pb_inv (set_db db s)" "r' = ?r\<lparr>rw_id := rw_id r'\<rparr>" "\<And>v. pb_view s v (rw_id r') = None"
      "\<And>v. pb_view (set_db db s) v = (if u = v
         then (pb_view s v)(rw_id r' \<mapsto> (td_title e, td_completed e)) else pb_view s v)"
      by auto
    have "from_record r' = \<lparr>td_id = rw_id r', td_title = td_title e, td_completed = td_completed e,
        td_created = 0, td_updated = 0\<rparr>"
      by (subst new(2)) (simp add: from_record_def)
    then show ?thesis using out Some new(1,3,4) by auto
  qed
qed (use assms in \<open>auto simp: pb_create_def Let_def\<close>)

lemma pb_update_ok:
  assumes "pb_inv s" and "u \<noteq> ''''" and "patch_known p" and "pb_update u i p s = (s', r)"
  shows "pb_inv s' \<and> (\<forall>v. v \<noteq> u \<longrightarrow> pb_view s' v = pb_view s v) \<and>
    (case r of
       Inl e \<Rightarrow> pb_view s' u = pb_view s u \<and> (e = ErrNotFound \<longrightarrow> pb_view s u i = None)
     | Inr t \<Rightarrow> td_id t = i \<and> pb_view s u i \<noteq> None \<and>
         (td_title t, td_completed t) = patch_item p (the (pb_view s u i)) \<and>
         pb_view s' u = (pb_view s u)(i \<mapsto> patch_item p (the (pb_view s u i))))"
proof (cases "pb_lookup u i s")
  case None
  then show ?thesis
    using assms pb_view_lookup [OF assms(1,2), of i] by (auto simp: pb_update_def)
next
  case (Some q)
  let ?a = "ps_app s"
  note d = pb_invD [OF assms(1)]
  note q = pb_lookup_SomeD [OF assms(1,2) Some]
  from foldl_set_known [OF d(1) assms(3), of q] obtain t c where tc:
    "foldl (\<lambda>r kv. ca_set ?a (fst kv) (snd kv) r) q p = q\<lparr>rw_title := t, rw_completed := c\<rparr>"
    "patch_item p (rw_title q, rw_completed q) = (t, c)" by blast
  let ?q = "q\<lparr>rw_title := t, rw_completed := c\<rparr>"
  obtain db res where sv: "ca_save ?a (ca_db ?a) (ps_coll s) ?q = (db, res)" by fastforce
  have out: "(s', r) = (set_db db s, case res of None \<Rightarrow> Inl (ErrOther ''pbstore: update'')
      | Some x \<Rightarrow> Inr (from_record x))"
    using assms(4) Some sv tc(1) by (auto simp: pb_update_def Let_def split: option.splits)
  have viewq: "pb_view s u i = Some (rw_title q, rw_completed q)"
    using Some by (simp add: pb_view_lookup [OF assms(1,2)])
  have idq: "rw_id ?q \<noteq> ''''" using q(1) d(6) by (force simp: well_formed_rows_def)
  show ?thesis
  proof (cases res)
    case None
    then have "ca_rows ?a db (ps_coll s) = pb_rows s"
      using save_laws_fail [OF d(3)] d(6) sv by (simp add: pb_rows_def)
    from pb_inv_same_rows [OF assms(1) this] out None show ?thesis by simp
  next
    case (Some x)
    with save_laws_old [OF d(3) _ idq, of "ca_db ?a" db x] d(6) sv
    obtain st where st: "same_row st ?q" "x = ?q"
      "ca_rows ?a db (ps_coll s) = map (\<lambda>y. if rw_id y = rw_id q then st else y) (pb_rows s)"
      by (auto simp: pb_rows_def)
    have same: "rw_id st = rw_id q" "rw_title st = t" "rw_completed st = c" "rw_owner st = rw_owner q"
      using same_rowD [OF st(1)] by auto
    have ids: "map rw_id (ca_rows ?a db (ps_coll s)) = map rw_id (pb_rows s)"
      using same(1) by (auto simp: st(3))
    have idset: "rw_id ` set (ca_rows ?a db (ps_coll s)) = rw_id ` set (pb_rows s)"
      using arg_cong [OF ids, of set] by simp
    have "pb_inv (set_db db s)"
    proof (rule pb_inv_set_db [OF assms(1)])
      show "well_formed_rows (ca_rows ?a db (ps_coll s))"
        using ids idset d(6) unfolding well_formed_rows_def by (simp only:) simp
      show "rw_owner y \<noteq> ''''" if "y \<in> set (ca_rows ?a db (ps_coll s))" for y
        using that d(7) [of y] d(7) [OF q(1)] same(4) by (auto simp: st(3) split: if_splits)
    qed
    moreover have "pb_view (set_db db s) v =
        (if v = u then (pb_view s v)(i \<mapsto> (t, c)) else pb_view s v)" for v
      using row_view_replace [OF d(8) q(1) same(1,4), of v] q(2,3) same(2,3)
      by (auto simp: pb_view_def st(3))
    ultimately show ?thesis
      using out Some st(2) tc(2) viewq q(2) by (auto simp: from_record_def)
  qed
qed

lemma pb_delete_ok:
  assumes "pb_inv s" and "u \<noteq> ''''" and "pb_delete u i s = (s', r)"
  shows "pb_inv s' \<and> (\<forall>v. v \<noteq> u \<longrightarrow> pb_view s' v = pb_view s v) \<and>
    (r = Inr () \<longrightarrow> pb_view s' u = (pb_view s u)(i := None) \<and> pb_view s u i \<noteq> None) \<and>
    (\<forall>e. r = Inl e \<longrightarrow> pb_view s' u = pb_view s u \<and> (e = ErrNotFound \<longrightarrow> pb_view s u i = None))"
proof (cases "pb_lookup u i s")
  case None
  then show ?thesis
    using assms pb_view_lookup [OF assms(1,2), of i] by (auto simp: pb_delete_def)
next
  case (Some q)
  let ?a = "ps_app s"
  note d = pb_invD [OF assms(1)]
  note q = pb_lookup_SomeD [OF assms(1,2) Some]
  obtain db ok where del: "ca_delete ?a (ca_db ?a) (ps_coll s) q = (db, ok)" by fastforce
  have rows: "ca_rows ?a db (ps_coll s) =
      (if ok then filter (\<lambda>x. rw_id x \<noteq> rw_id q) (pb_rows s) else pb_rows s)"
    using d(4) del unfolding delete_laws_def pb_rows_def by (metis fst_conv snd_conv)
  have out: "s' = set_db db s" "r = (if ok then Inr () else Inl (ErrOther ''pbstore: delete''))"
    using assms(3) Some del by (auto simp: pb_delete_def split: bool.splits)
  have viewq: "pb_view s u i \<noteq> None"
    using Some by (simp add: pb_view_lookup [OF assms(1,2)])
  show ?thesis
  proof (cases ok)
    case False
    then show ?thesis using pb_inv_same_rows [OF assms(1)] rows out by simp
  next
    case True
    have "pb_inv (set_db db s)"
      by (rule pb_inv_set_db [OF assms(1)])
        (use rows True d(6,7) in \<open>auto simp: well_formed_rows_def distinct_map_filter\<close>)
    moreover have "pb_view (set_db db s) v j = (if v = u \<and> j = i then None else pb_view s v j)" for v j
    proof (cases "find (\<lambda>r. rw_id r = j \<and> rw_owner r = v) (pb_rows s)")
      case None
      then show ?thesis
        using row_view_filter [OF d(8), of _ v j] rows True
        by (simp add: pb_view_def row_view_def)
    next
      case (Some x)
      then have x: "x \<in> set (pb_rows s)" "rw_id x = j" "rw_owner x = v" by (auto simp: find_Some_iff)
      have "rw_id x \<noteq> rw_id q \<longleftrightarrow> \<not> (v = u \<and> j = i)"
        using row_unique [OF d(8) x(1) q(1)] x q by auto
      then show ?thesis
        using row_view_filter [OF d(8), of _ v j] rows True Some by (auto simp: pb_view_def)
    qed
    ultimately show ?thesis using out True viewq by (auto simp: fun_eq_iff)
  qed
qed

lemma card_owned:
  assumes "distinct (map rw_id rs)"
  shows "card {i. \<exists>x. row_view rs u i = Some (x, True)} =
      length (filter (\<lambda>r. rw_completed r \<and> rw_owner r = u) rs)" (is "card ?A = _")
    and "card (dom (row_view rs u)) = length (filter (\<lambda>r. rw_owner r = u) rs)"
proof -
  have *: "card (rw_id ` set (filter P rs)) = length (filter P rs)" for P
    using assms distinct_card [of "map rw_id (filter P rs)"] by (simp add: distinct_map_filter)
  have "?A = rw_id ` set (filter (\<lambda>r. rw_completed r \<and> rw_owner r = u) rs)"
    by (auto simp: row_view_Some [OF assms] image_iff)
  then show "card ?A = length (filter (\<lambda>r. rw_completed r \<and> rw_owner r = u) rs)"
    using * by simp
  have "dom (row_view rs u) = rw_id ` set (filter (\<lambda>r. rw_owner r = u) rs)"
    by (auto simp: dom_def row_view_Some [OF assms] image_iff)
  then show "card (dom (row_view rs u)) = length (filter (\<lambda>r. rw_owner r = u) rs)"
    using * by simp
qed

lemma pb_clear_ok:
  assumes "pb_inv s" and "u \<noteq> ''''" and "pb_clear_completed u s = (s', n, e)"
  shows "pb_inv s' \<and> (\<forall>v. v \<noteq> u \<longrightarrow> pb_view s' v = pb_view s v) \<and>
    (e = None \<longrightarrow> n = card {i. \<exists>x. pb_view s u i = Some (x, True)} \<and>
      pb_view s' u = (\<lambda>i. case pb_view s u i of
        Some (x, c) \<Rightarrow> if c then None else Some (x, c) | None \<Rightarrow> None))"
proof -
  note d = pb_invD [OF assms(1)]
  from pb_find_list [OF assms(1), of "''pbstore: clear find''" "[CompletedIs True, OwnerIs u]" "''''"]
  obtain rs where rs: "find_list ''pbstore: clear find'' [CompletedIs True, OwnerIs u] '''' s = Inr rs"
    "mset rs = mset (filter (\<lambda>r. rw_completed r \<and> rw_owner r = u) (pb_rows s))"
    by (auto simp: matches_def)
  from delete_rows_spec [OF assms(1), of rs 0 s' n e] assms(2,3) rs(1)
  obtain k where k: "k \<le> length rs" "n = k" "e = None \<longrightarrow> k = length rs" "ps_coll s' = ps_coll s"
    "pb_inv s'" "pb_rows s' = filter (\<lambda>x. rw_id x \<notin> rw_id ` set (take k rs)) (pb_rows s)"
    by (auto simp: pb_clear_completed_def)
  have mem: "x \<in> set rs \<longleftrightarrow> x \<in> set (pb_rows s) \<and> rw_completed x \<and> rw_owner x = u" for x
    using mset_eq_set [OF rs(2)] by auto
  have view: "pb_view s' v j = (case find (\<lambda>r. rw_id r = j \<and> rw_owner r = v) (pb_rows s) of
      None \<Rightarrow> None | Some r \<Rightarrow> if rw_id r \<in> rw_id ` set (take k rs) then None else pb_view s v j)" for v j
    unfolding pb_view_def k(6) row_view_filter [OF d(8)] by (simp split: option.splits)
  have hit: "rw_id r \<in> rw_id ` set (take k rs) \<longleftrightarrow> r \<in> set (take k rs)" if "r \<in> set (pb_rows s)" for r
  proof
    assume "rw_id r \<in> rw_id ` set (take k rs)"
    then obtain x where x: "x \<in> set (take k rs)" "rw_id r = rw_id x" by blast
    then have "x \<in> set (pb_rows s)" using mem in_set_takeD by fast
    then show "r \<in> set (take k rs)" using row_unique [OF d(8) that] x by auto
  qed simp
  have other: "pb_view s' v = pb_view s v" if "v \<noteq> u" for v
  proof
    fix j
    show "pb_view s' v j = pb_view s v j"
    proof (cases "find (\<lambda>r. rw_id r = j \<and> rw_owner r = v) (pb_rows s)")
      case None
      then show ?thesis using view by (simp add: pb_view_def row_view_def)
    next
      case (Some r)
      then have r: "r \<in> set (pb_rows s)" "rw_owner r = v" by (auto simp: find_Some_iff)
      then have "r \<notin> set (take k rs)" using mem that by (auto dest!: in_set_takeD)
      then show ?thesis using view Some hit [OF r(1)] by simp
    qed
  qed
  have own: "n = card {i. \<exists>x. pb_view s u i = Some (x, True)} \<and>
      pb_view s' u = (\<lambda>i. case pb_view s u i of
        Some (x, c) \<Rightarrow> if c then None else Some (x, c) | None \<Rightarrow> None)" if "e = None"
  proof
    show "n = card {i. \<exists>x. pb_view s u i = Some (x, True)}"
      using card_owned(1) [OF d(8)] k(2,3) that mset_eq_length [OF rs(2)] by (simp add: pb_view_def)
    have all: "take k rs = rs" using k(3) that by simp
    show "pb_view s' u = (\<lambda>i. case pb_view s u i of
        Some (x, c) \<Rightarrow> if c then None else Some (x, c) | None \<Rightarrow> None)"
    proof
      fix j
      show "pb_view s' u j = (case pb_view s u j of
          Some (x, c) \<Rightarrow> if c then None else Some (x, c) | None \<Rightarrow> None)"
      proof (cases "find (\<lambda>r. rw_id r = j \<and> rw_owner r = u) (pb_rows s)")
        case None
        then show ?thesis using view by (simp add: pb_view_def row_view_def)
      next
        case (Some r)
        then have r: "r \<in> set (pb_rows s)" "rw_owner r = u" by (auto simp: find_Some_iff)
        have "pb_view s u j = Some (rw_title r, rw_completed r)"
          using Some by (simp add: pb_view_def row_view_def)
        then show ?thesis using view Some hit [OF r(1)] r mem [of r] all by simp
      qed
    qed
  qed
  from k(5) other own show ?thesis by blast
qed

lemma pb_get_ok:
  assumes "pb_inv s" and "u \<noteq> ''''" and "pb_get u i s = (s', r)"
  shows "s' = s \<and> (case r of Inl e \<Rightarrow> e = ErrNotFound \<and> pb_view s u i = None
     | Inr t \<Rightarrow> td_id t = i \<and> pb_view s u i = Some (td_title t, td_completed t))"
  using assms pb_lookup_SomeD [OF assms(1,2), of i]
  by (auto simp: pb_get_def pb_view_lookup from_record_def split: option.splits)

lemma pb_list_ok:
  assumes "pb_inv s" and "u \<noteq> ''''" and "pb_list u flt s = (s', r)"
  shows "s' = s \<and> (\<exists>ts. r = Inr ts \<and> distinct (map td_id ts) \<and>
     (\<forall>i x c. (\<exists>t \<in> set ts. td_id t = i \<and> td_title t = x \<and> td_completed t = c) \<longleftrightarrow>
       pb_view s u i = Some (x, c) \<and> keeps flt c))"
proof -
  note d = pb_invD [OF assms(1)]
  from pb_find_list [OF assms(1), of "''pbstore: list''" "list_filter u flt" "''-created''"]
  obtain rs where rs: "find_list ''pbstore: list'' (list_filter u flt) ''-created'' s = Inr rs"
    "mset rs = mset (filter (matches (list_filter u flt)) (pb_rows s))" by blast
  have m: "matches (list_filter u flt) x \<longleftrightarrow> rw_owner x = u \<and> keeps flt (rw_completed x)" for x
    using assms(2) by (auto simp: matches_def list_filter_def keeps_def)
  have mem: "x \<in> set rs \<longleftrightarrow> x \<in> set (pb_rows s) \<and> rw_owner x = u \<and> keeps flt (rw_completed x)" for x
    using mset_eq_set [OF rs(2)] m by auto
  have "mset (map rw_id rs) = mset (map rw_id (filter (matches (list_filter u flt)) (pb_rows s)))"
    using rs(2) by (metis mset_map)
  then have dist: "distinct (map rw_id rs)"
    using d(8) by (metis distinct_map_filter mset_eq_imp_distinct_iff)
  have "map td_id (map from_record rs) = map rw_id rs" by (simp add: from_record_def)
  moreover have "(\<exists>t \<in> set (map from_record rs). td_id t = i \<and> td_title t = x \<and> td_completed t = c) \<longleftrightarrow>
      pb_view s u i = Some (x, c) \<and> keeps flt c" for i x c
    by (auto simp: pb_view_def row_view_Some [OF d(8)] from_record_def mem)
  ultimately show ?thesis
    using assms(3) rs(1) dist by (auto simp: pb_list_def simp del: map_map)
qed

lemma pb_count_ok:
  assumes "pb_inv s" and "u \<noteq> ''''" and "pb_count u s = (s', r)"
  shows "s' = s \<and> r = Inr (card (dom (pb_view s u)))"
proof -
  note d = pb_invD [OF assms(1)]
  from pb_find_list [OF assms(1), of "''pbstore: count''" "[OwnerIs u]" "''''"]
  obtain rs where rs: "find_list ''pbstore: count'' [OwnerIs u] '''' s = Inr rs"
    "mset rs = mset (filter (\<lambda>r. rw_owner r = u) (pb_rows s))"
    by (auto simp: matches_def)
  then show ?thesis
    using assms(2,3) card_owned(2) [OF d(8), of u] mset_eq_length [OF rs(2)]
    by (auto simp: pb_count_def pb_view_def)
qed

interpretation pb: entity_store pb_inv pb_view pb_create pb_get pb_list pb_update pb_delete
  pb_clear_completed pb_count
proof
  show "pb_inv s' \<and> (\<forall>v. v \<noteq> u \<longrightarrow> pb_view s' v = pb_view s v) \<and>
      (\<forall>t. r = Inr t \<longrightarrow> pb_view s' u = (pb_view s u)(td_id t \<mapsto> (td_title t, td_completed t)) \<and>
        (if pb_view s u (td_id t) = None then td_title t = td_title e \<and> td_completed t = td_completed e
         else pb_view s' u = pb_view s u))"
    if "pb_inv s" "u \<noteq> ''''" "pb_create e u k s = (s', r)" for s :: "'a pb_store" and u e k s' r
    using pb_create_ok [OF that] by auto
  show "pb_inv s' \<and> pb_view s' = pb_view s \<and>
      (case r of Inl e \<Rightarrow> e = ErrNotFound \<and> pb_view s u i = None
       | Inr t \<Rightarrow> td_id t = i \<and> pb_view s u i = Some (td_title t, td_completed t))"
    if "pb_inv s" "u \<noteq> ''''" "i \<noteq> ''''" "pb_get u i s = (s', r)" for s :: "'a pb_store" and u i s' r
    using pb_get_ok [OF that(1,2,4)] that(1) by simp
  show "pb_inv s' \<and> pb_view s' = pb_view s \<and>
      (\<exists>ts. r = Inr ts \<and> distinct (map td_id ts) \<and>
        (\<forall>i x c. (\<exists>t \<in> set ts. td_id t = i \<and> td_title t = x \<and> td_completed t = c) \<longleftrightarrow>
           pb_view s u i = Some (x, c) \<and> keeps flt c))"
    if "pb_inv s" "u \<noteq> ''''" "pb_list u flt s = (s', r)" for s :: "'a pb_store" and u flt s' r
    using pb_list_ok [OF that] that(1) by simp
  show "pb_inv s' \<and> (\<forall>v. v \<noteq> u \<longrightarrow> pb_view s' v = pb_view s v) \<and>
      (case r of
         Inl e \<Rightarrow> e = ErrNotFound \<longrightarrow> pb_view s u i = None \<and> pb_view s' u = pb_view s u
       | Inr t \<Rightarrow> td_id t = i \<and> pb_view s u i \<noteq> None \<and>
           (td_title t, td_completed t) = patch_item p (the (pb_view s u i)) \<and>
           pb_view s' u = (pb_view s u)(i \<mapsto> patch_item p (the (pb_view s u i))))"
    if "pb_inv s" "u \<noteq> ''''" "i \<noteq> ''''" "patch_known p" "pb_update u i p s = (s', r)"
    for s :: "'a pb_store" and u i p s' r
    using pb_update_ok [OF that(1,2,4,5)] by (cases r) auto
  show "pb_inv s' \<and> (\<forall>v. v \<noteq> u \<longrightarrow> pb_view s' v = pb_view s v) \<and>
      (r = Inr () \<longrightarrow> pb_view s' u = (pb_view s u)(i := None)) \<and>
      (r = Inl ErrNotFound \<longrightarrow> pb_view s u i = None \<and> pb_view s' u = pb_view s u)"
    if "pb_inv s" "u \<noteq> ''''" "i \<noteq> ''''" "pb_delete u i s = (s', r)" for s :: "'a pb_store" and u i s' r
    using pb_delete_ok [OF that(1,2,4)] by simp
  show "pb_inv s' \<and> (\<forall>v. v \<noteq> u \<longrightarrow> pb_view s' v = pb_view s v) \<and>
      (e = None \<longrightarrow> n = card {i. \<exists>x. pb_view s u i = Some (x, True)} \<and>
        pb_view s' u = (\<lambda>i. case pb_view s u i of Some (x, c) \<Rightarrow> if c then None else Some (x, c) | None \<Rightarrow> None))"
    if "pb_inv s" "u \<noteq> ''''" "pb_clear_completed u s = (s', n, e)" for s :: "'a pb_store" and u s' n e
    by (rule pb_clear_ok [OF that])
  show "pb_inv s' \<and> pb_view s' = pb_view s \<and> r = Inr (card (dom (pb_view s u)))"
    if "pb_inv s" "u \<noteq> ''''" "pb_count u s = (s', r)" for s :: "'a pb_store" and u s' r
    using pb_count_ok [OF that] that(1) by simp
qed

subsection \<open>Properties\<close>

definition mem_store :: "row list \<Rightarrow> row list pb_store" where
  "mem_store db = pb_new (mem_app db) ''todos''"

lemma mem_store_fields [simp]:
  "ps_app (mem_store db) = mem_app db" "ps_coll (mem_store db) = ''todos''" "pb_rows (mem_store db) = db"
  "set_db db' (mem_store db) = mem_store db'"
  by (simp_all add: mem_store_def pb_new_def pb_rows_def set_db_def)

lemma mem_store_inv:
  "well_formed_rows db \<Longrightarrow> (\<And>r. r \<in> set db \<Longrightarrow> rw_owner r \<noteq> '''') \<Longrightarrow> pb_inv (mem_store db)"
  by (simp add: pb_inv_def mem_app_laws find_total_def)

text \<open>Three rows of two users.\<close>

definition sample_rows :: "row list" where
  "sample_rows =
    [\<lparr>rw_id = ''a'', rw_title = ''milk'', rw_completed = True, rw_created = 1, rw_updated = 1,
       rw_owner = ''u1'', rw_idem = ''k1''\<rparr>,
     \<lparr>rw_id = ''b'', rw_title = ''eggs'', rw_completed = False, rw_created = 2, rw_updated = 2,
       rw_owner = ''u1'', rw_idem = ''k2''\<rparr>,
     \<lparr>rw_id = ''c'', rw_title = ''rent'', rw_completed = True, rw_created = 3, rw_updated = 3,
       rw_owner = ''u2'', rw_idem = ''k3''\<rparr>]"

lemma sample_inv: "pb_inv (mem_store sample_rows)"
  by (rule mem_store_inv) (auto simp: sample_rows_def well_formed_rows_def)

text \<open>C2: Updating a todo by its owner changes title and completed flag of that todo as the patch says
  and nothing else: no other todo of the owner and no todo of any other user, and a todo of another
  user is reported as not found, exactly as a todo that does not exist.\<close>
theorem pb_update_scoped:
  assumes "pb_inv s" and "u \<noteq> ''''" and "patch_known p" and "pb_update u i p s = (s', r)"
  shows "(\<forall>v j. (v, j) \<noteq> (u, i) \<longrightarrow> pb_view s' v j = pb_view s v j) \<and>
    (case r of Inr t \<Rightarrow> td_id t = i \<and> pb_view s u i \<noteq> None \<and>
        pb_view s' u i = Some (patch_item p (the (pb_view s u i)))
      | Inl e \<Rightarrow> pb_view s' = pb_view s) \<and>
    (pb_view s u i = None \<longrightarrow> r = Inl ErrNotFound)"
proof -
  have "r = Inl ErrNotFound" if "pb_view s u i = None"
    using that assms(4) pb_view_lookup [OF assms(1,2), of i] by (auto simp: pb_update_def)
  moreover have others: "pb_view s' v = pb_view s v" if "v \<noteq> u" for v
    using pb_update_ok [OF assms] that by blast
  moreover have "pb_view s' v j = pb_view s v j" if "(v, j) \<noteq> (u, i)" for v j
  proof (cases "v = u")
    case True
    then have "j \<noteq> i" using that by simp
    then show ?thesis using pb_update_ok [OF assms] True by (cases r) simp_all
  qed (simp add: others)
  moreover have "pb_view s' = pb_view s" if "r = Inl e" for e
  proof
    fix v
    show "pb_view s' v = pb_view s v"
      using pb_update_ok [OF assms] others that by (cases "v = u") simp_all
  qed
  moreover have "td_id t = i \<and> pb_view s u i \<noteq> None \<and>
      pb_view s' u i = Some (patch_item p (the (pb_view s u i)))" if "r = Inr t" for t
    using pb_update_ok [OF assms] that by auto
  ultimately show ?thesis by (cases r) auto
qed

theorem pb_update_scoped_witness:
  "snd (pb_update ''u1'' ''c'' [(''completed'', PBool False)] (mem_store sample_rows)) = Inl ErrNotFound \<and>
   pb_view (fst (pb_update ''u1'' ''b'' [(''completed'', PBool True)] (mem_store sample_rows))) ''u1'' ''b''
     = Some (''eggs'', True)"
proof -
  let ?s = "mem_store sample_rows"
  have v: "pb_view ?s ''u1'' ''c'' = None" "pb_view ?s ''u1'' ''b'' = Some (''eggs'', False)"
    by (simp_all add: pb_view_def row_view_def sample_rows_def)
  have p: "patch_known [(''completed'', PBool c)]" for c by (simp add: patch_known_def)
  from pb_update_scoped [OF sample_inv _ p, of "''u1''" "''c''" False "fst (pb_update ''u1'' ''c'' [(''completed'', PBool False)] ?s)" "snd (pb_update ''u1'' ''c'' [(''completed'', PBool False)] ?s)"] v(1)
  have first: "snd (pb_update ''u1'' ''c'' [(''completed'', PBool False)] ?s) = Inl ErrNotFound" by simp
  obtain s' r where run: "pb_update ''u1'' ''b'' [(''completed'', PBool True)] ?s = (s', r)" by fastforce
  have "\<exists>t. r = Inr t"
    using run by (auto simp: pb_update_def pb_lookup_def sample_rows_def mem_save_def Let_def)
  then show ?thesis
    using first pb_update_scoped [OF sample_inv _ p run] v(2) run by auto
qed

text \<open>C16: A request without an authenticated owner is not scoped at all: clearing the completed todos
  then deletes every user's completed todos.\<close>
theorem anonymous_clear_hits_everyone:
  assumes "pb_inv s" and "pb_clear_completed '''' s = (s', n, None)"
  shows "pb_rows s' = filter (\<lambda>r. \<not> rw_completed r) (pb_rows s) \<and>
    n = length (filter rw_completed (pb_rows s))"
proof -
  note d = pb_invD [OF assms(1)]
  from pb_find_list [OF assms(1), of "''pbstore: clear find''" "[CompletedIs True]" "''''"]
  obtain rs where rs: "find_list ''pbstore: clear find'' [CompletedIs True] '''' s = Inr rs"
    "mset rs = mset (filter rw_completed (pb_rows s))"
    by (auto simp: matches_def)
  from delete_rows_spec [OF assms(1), of rs 0 s' n None] assms(2) rs(1)
  have n: "n = length rs"
    and rows: "pb_rows s' = filter (\<lambda>x. rw_id x \<notin> rw_id ` set rs) (pb_rows s)"
    by (auto simp: pb_clear_completed_def)
  have mem: "x \<in> set rs \<longleftrightarrow> x \<in> set (pb_rows s) \<and> rw_completed x" for x
    using mset_eq_set [OF rs(2)] by auto
  have "rw_id r \<in> rw_id ` set rs \<longleftrightarrow> rw_completed r" if "r \<in> set (pb_rows s)" for r
    using row_unique [OF d(8) that] mem that by (auto simp: image_iff)
  then have "filter (\<lambda>x. rw_id x \<notin> rw_id ` set rs) (pb_rows s) = filter (\<lambda>r. \<not> rw_completed r) (pb_rows s)"
    by (intro filter_cong) simp_all
  then show ?thesis
    using rows n mset_eq_length [OF rs(2)] by simp
qed

theorem anonymous_clear_hits_everyone_witness:
  "map rw_id (pb_rows (fst (pb_clear_completed '''' (mem_store sample_rows)))) = [''b'']"
proof -
  obtain s' n e where run: "pb_clear_completed '''' (mem_store sample_rows) = (s', n, e)"
    by (cases "pb_clear_completed '''' (mem_store sample_rows)") auto
  then have "e = None"
    by (auto simp: pb_clear_completed_def find_list_def matches_def sample_rows_def)
  with run anonymous_clear_hits_everyone [OF sample_inv, of s' n] show ?thesis
    by (simp add: sample_rows_def)
qed

text \<open>A backend that answers an empty result with an error makes listing fail for a user without todos.\<close>

lemma pb_list_no_rows:
  "ca_find (ps_app s) (ca_db (ps_app s)) (ps_coll s) (list_filter u flt) ''-created'' 0 = NoRows \<Longrightarrow>
    snd (pb_list u flt s) = Inl (ErrOther ''pbstore: list'')"
  by (simp add: pb_list_def find_list_def)

end
