(* ===== verification/CRDTStore.thy ===== *)
theory CRDTStore
  imports Store Transport
begin

text \<open>
  The CRDT strategy of \<open>features/store/crdtstore/crdtstore.go\<close>.  The Loro library is a parameter
  (\<open>loro_api\<close>): the store uses one root map from todo ids to child maps of fields.  A timestamp
  string in a child map is represented by the instant it denotes: RFC 3339 formatting keeps whole
  seconds, the nano format everything.  \<open>time.Now\<close> is the field \<open>cs_clock\<close>, read as one instant per
  operation.  The iteration order of the Go map in \<open>persistRecords\<close> is random: \<open>cs_rank\<close> gives each todo id
  its rank in the iteration of the call that makes the owner's version what it is.  A document is a mutable object shared with \<open>s.docs\<close>, so every change to it is written
  back there, also when the operation fails later.
\<close>

subsection \<open>Loro documents\<close>

datatype lval = LStr string | LBool bool | LStamp int | LOther

datatype lentry = Leaf lval | Child "string \<rightharpoonup> lval"

record 'd loro_api =
  lo_new :: 'd
  lo_lookup :: "'d \<Rightarrow> string \<Rightarrow> lentry option"
  lo_insert_map :: "string \<Rightarrow> 'd \<Rightarrow> 'd \<times> bool"
  lo_put :: "string \<Rightarrow> string \<Rightarrow> lval \<Rightarrow> 'd \<Rightarrow> 'd \<times> bool"
  lo_delete :: "string \<Rightarrow> 'd \<Rightarrow> 'd \<times> bool"
  lo_all :: "'d \<Rightarrow> (string \<times> lentry) list"
  lo_export :: "'d \<Rightarrow> bytes option"
  lo_import :: "bytes \<Rightarrow> 'd \<Rightarrow> 'd \<times> bool"
  lo_items :: "'d \<Rightarrow> string \<rightharpoonup> lentry"

text \<open>The documented behaviour of the map operations on an attached document; \<open>lo_items\<close> is its
  content, read by the laws and properties only.\<close>

definition loro_laws :: "'d loro_api \<Rightarrow> bool" where
  "loro_laws L \<longleftrightarrow> lo_items L (lo_new L) = Map.empty \<and>
     (\<forall>d. lo_lookup L d = lo_items L d) \<and>
     (\<forall>d i. snd (lo_insert_map L i d) \<and>
        lo_items L (fst (lo_insert_map L i d)) = (lo_items L d)(i \<mapsto> Child Map.empty)) \<and>
     (\<forall>d i f v m. lo_items L d i = Some (Child m) \<longrightarrow> snd (lo_put L i f v d) \<and>
        lo_items L (fst (lo_put L i f v d)) = (lo_items L d)(i \<mapsto> Child (m(f \<mapsto> v)))) \<and>
     (\<forall>d i. lo_items L d i \<noteq> None \<longrightarrow> snd (lo_delete L i d) \<and>
        lo_items L (fst (lo_delete L i d)) = (lo_items L d)(i := None)) \<and>
     (\<forall>d. distinct (map fst (lo_all L d)) \<and> map_of (lo_all L d) = lo_items L d)"

subsection \<open>State\<close>

record watcher =
  wt_id :: nat
  wt_queue :: "(string \<times> 64 word) list"

record ('db, 'd, 'js) crdt_store =
  cs_app :: "'db core_app"
  cs_loro :: "'d loro_api"
  cs_docs :: "string \<rightharpoonup> 'd"
  cs_transport :: "'js transport option"
  cs_js :: 'js
  cs_versions :: "string \<rightharpoonup> 64 word"
  cs_watchers :: "watcher list"
  cs_publisher :: "string option"
  cs_published :: "(string \<times> 64 word) list"
  cs_clock :: int
  cs_rank :: "string \<Rightarrow> 64 word \<Rightarrow> string \<Rightarrow> nat"

definition todos_collection_name :: string where
  "todos_collection_name = ''todos''"

definition crdt_new :: "'db core_app \<Rightarrow> 'd loro_api \<Rightarrow> 'js \<Rightarrow> int \<Rightarrow> (string \<Rightarrow> 64 word \<Rightarrow> string \<Rightarrow> nat) \<Rightarrow>
    ('db, 'd, 'js) crdt_store" where
  "crdt_new app L js now rank = \<lparr>cs_app = app, cs_loro = L, cs_docs = Map.empty, cs_transport = None,
     cs_js = js, cs_versions = Map.empty, cs_watchers = [], cs_publisher = None, cs_published = [],
     cs_clock = now, cs_rank = rank\<rparr>"

definition set_transport :: "'js transport option \<Rightarrow> ('db, 'd, 'js) crdt_store \<Rightarrow> ('db, 'd, 'js) crdt_store" where
  "set_transport t s = s\<lparr>cs_transport := t\<rparr>"

text \<open>\<open>SetPublisher\<close>: the publisher is represented by its diagnostics name, what it is sent is
  recorded in \<open>cs_published\<close>.\<close>

definition set_publisher :: "string option \<Rightarrow> ('db, 'd, 'js) crdt_store \<Rightarrow> ('db, 'd, 'js) crdt_store" where
  "set_publisher p s = s\<lparr>cs_publisher := p\<rparr>"

definition publisher_name :: "('db, 'd, 'js) crdt_store \<Rightarrow> string" where
  "publisher_name s = (case cs_publisher s of None \<Rightarrow> '''' | Some n \<Rightarrow> n)"

definition set_doc :: "string \<Rightarrow> 'd \<Rightarrow> ('db, 'd, 'js) crdt_store \<Rightarrow> ('db, 'd, 'js) crdt_store" where
  "set_doc u d s = s\<lparr>cs_docs := (cs_docs s)(u \<mapsto> d)\<rparr>"

definition set_cdb :: "'db \<Rightarrow> ('db, 'd, 'js) crdt_store \<Rightarrow> ('db, 'd, 'js) crdt_store" where
  "set_cdb db s = s\<lparr>cs_app := (cs_app s)\<lparr>ca_db := db\<rparr>\<rparr>"

subsection \<open>Versions and watchers\<close>

definition watch_internal_buf :: nat where
  "watch_internal_buf = 16"

definition watch_out_buf :: nat where
  "watch_out_buf = 8"

definition offer :: "string \<times> 64 word \<Rightarrow> watcher \<Rightarrow> watcher" where
  "offer ev w = (if length (wt_queue w) < watch_internal_buf
     then w\<lparr>wt_queue := wt_queue w @ [ev]\<rparr> else w)"

definition version :: "string \<Rightarrow> ('db, 'd, 'js) crdt_store \<Rightarrow> 64 word" where
  "version u s = zero_get 0 (cs_versions s) u"

definition bump_version :: "string \<Rightarrow> ('db, 'd, 'js) crdt_store \<Rightarrow> ('db, 'd, 'js) crdt_store" where
  "bump_version u s =
     (let v = zero_get 0 (cs_versions s) u + 1
      in s\<lparr>cs_versions := (cs_versions s)(u \<mapsto> v),
           cs_watchers := map (offer (u, v)) (cs_watchers s),
           cs_published := cs_published s @ (case cs_publisher s of None \<Rightarrow> [] | Some _ \<Rightarrow> [(u, v)])\<rparr>)"

text \<open>\<open>Watch\<close>: a new subscription with an empty internal channel; the forwarder goroutine first puts
  the current version on the output channel and then moves the owner's events over, dropping what
  does not fit.\<close>

definition watch :: "nat \<Rightarrow> ('db, 'd, 'js) crdt_store \<Rightarrow> ('db, 'd, 'js) crdt_store" where
  "watch n s = s\<lparr>cs_watchers := cs_watchers s @ [\<lparr>wt_id = n, wt_queue = []\<rparr>]\<rparr>"

fun forward :: "string \<Rightarrow> (string \<times> 64 word) list \<Rightarrow> 64 word list \<Rightarrow> 64 word list" where
  "forward u [] out = out"
| "forward u ((v, n) # evs) out = forward u evs
     (if v \<noteq> u then out else if length out < watch_out_buf then out @ [n] else out)"

fun remove_watcher :: "nat \<Rightarrow> watcher list \<Rightarrow> watcher list" where
  "remove_watcher n [] = []"
| "remove_watcher n (w # ws) = (if wt_id w = n then ws else w # remove_watcher n ws)"

definition cancel_watch :: "nat \<Rightarrow> ('db, 'd, 'js) crdt_store \<Rightarrow> ('db, 'd, 'js) crdt_store" where
  "cancel_watch n s = s\<lparr>cs_watchers := remove_watcher n (cs_watchers s)\<rparr>"

definition close_store :: "('db, 'd, 'js) crdt_store \<Rightarrow> ('db, 'd, 'js) crdt_store" where
  "close_store s = s\<lparr>cs_docs := Map.empty, cs_versions := Map.empty, cs_watchers := [],
     cs_publisher := None\<rparr>"

subsection \<open>Items\<close>

definition whole_seconds :: "int \<Rightarrow> int" where
  "whole_seconds t = t div 1000000000 * 1000000000"

fun put_fields :: "'d loro_api \<Rightarrow> string \<Rightarrow> (string \<times> lval) list \<Rightarrow> 'd \<Rightarrow> 'd \<times> bool" where
  "put_fields L i [] d = (d, True)"
| "put_fields L i ((f, v) # fs) d =
     (case lo_put L i f v d of (d', ok) \<Rightarrow> if ok then put_fields L i fs d' else (d', False))"

definition stamp_or :: "int \<Rightarrow> int \<Rightarrow> lval" where
  "stamp_or now t = LStamp (whole_seconds (if t = 0 then now else t))"

definition write_item :: "'d loro_api \<Rightarrow> int \<Rightarrow> string \<Rightarrow> todo \<Rightarrow> 'd \<Rightarrow> 'd \<times> bool" where
  "write_item L now key t d = put_fields L key
     [(''id'', LStr (td_id t)), (''title'', LStr (td_title t)), (''completed'', LBool (td_completed t)),
      (''created'', stamp_or now (td_created t)), (''updated'', stamp_or now (td_updated t))] d"

definition get_string :: "(string \<rightharpoonup> lval) \<Rightarrow> string \<Rightarrow> string" where
  "get_string m f = (case m f of Some (LStr s) \<Rightarrow> s | _ \<Rightarrow> '''')"

definition get_bool :: "(string \<rightharpoonup> lval) \<Rightarrow> string \<Rightarrow> bool" where
  "get_bool m f = (case m f of Some (LBool b) \<Rightarrow> b | _ \<Rightarrow> False)"

definition get_stamp :: "(string \<rightharpoonup> lval) \<Rightarrow> string \<Rightarrow> int" where
  "get_stamp m f = (case m f of Some (LStamp t) \<Rightarrow> t | _ \<Rightarrow> 0)"

definition todo_from_loro :: "string \<Rightarrow> (string \<rightharpoonup> lval) \<Rightarrow> todo" where
  "todo_from_loro i m = \<lparr>td_id = i, td_title = get_string m ''title'',
     td_completed = get_bool m ''completed'', td_created = get_stamp m ''created'',
     td_updated = get_stamp m ''updated''\<rparr>"

definition find_item :: "'d loro_api \<Rightarrow> string \<Rightarrow> 'd \<Rightarrow> todo option" where
  "find_item L i d = (case lo_lookup L d i of Some (Child m) \<Rightarrow> Some (todo_from_loro i m) | _ \<Rightarrow> None)"

fun read_entries :: "(string \<times> lentry) list \<Rightarrow> todo list" where
  "read_entries [] = []"
| "read_entries ((i, Child m) # es) = todo_from_loro i m # read_entries es"
| "read_entries ((i, Leaf v) # es) = read_entries es"

definition read_all :: "'d loro_api \<Rightarrow> 'd \<Rightarrow> todo list" where
  "read_all L d = read_entries (lo_all L d)"

definition todo_from_record :: "row \<Rightarrow> todo" where
  "todo_from_record r = \<lparr>td_id = rw_id r, td_title = rw_title r, td_completed = rw_completed r,
     td_created = rw_created r, td_updated = rw_updated r\<rparr>"

subsection \<open>Loading and projecting\<close>

fun rehydrate :: "'d loro_api \<Rightarrow> int \<Rightarrow> row list \<Rightarrow> 'd \<Rightarrow> 'd \<times> bool" where
  "rehydrate L now [] d = (d, True)"
| "rehydrate L now (r # rs) d =
     (case lo_insert_map L (rw_idem r) d of
        (d1, False) \<Rightarrow> (d1, False)
      | (d1, True) \<Rightarrow> (case write_item L now (rw_idem r) (todo_from_record r) d1 of
           (d2, False) \<Rightarrow> (d2, False)
         | (d2, True) \<Rightarrow> rehydrate L now rs d2))"

definition page_limit :: nat where
  "page_limit = 200"

definition doc :: "string \<Rightarrow> ('db, 'd, 'js) crdt_store \<Rightarrow> ('db, 'd, 'js) crdt_store \<times> 'd result" where
  "doc u s =
     (case cs_docs s u of
        Some d \<Rightarrow> (s, Inr d)
      | None \<Rightarrow>
          (let a = cs_app s; L = cs_loro s in
           case ca_find a (ca_db a) todos_collection_name [OwnerIs u] ''-created'' page_limit of
             RowsErr \<Rightarrow> (s, Inl (ErrOther ''crdtstore: load todos''))
           | found \<Rightarrow>
               (case rehydrate L (cs_clock s) (case found of Rows rs \<Rightarrow> rs | _ \<Rightarrow> []) (lo_new L) of
                  (d, False) \<Rightarrow> (s, Inl (ErrOther ''crdtstore: rehydrate todo''))
                | (d, True) \<Rightarrow> (set_doc u d s, Inr d))))"

definition upsert_todo_record ::
  "string \<Rightarrow> todo \<Rightarrow> ('db, 'd, 'js) crdt_store \<Rightarrow> ('db, 'd, 'js) crdt_store \<times> store_err option" where
  "upsert_todo_record u t s =
     (let a = cs_app s in
      case ca_find_col a (ca_db a) todos_collection_name of
        ColErr \<Rightarrow> (s, Some (ErrOther ''crdtstore: find collection''))
      | ColNoRows \<Rightarrow> (s, Some (ErrOther ''crdtstore: collection not found''))
      | ColFound \<Rightarrow>
          (let r0 = (case ca_first a (ca_db a) todos_collection_name [IdemIs (td_id t), OwnerIs u] of
                       Some x \<Rightarrow> x
                     | None \<Rightarrow> ca_set a ''idem_key'' (PStr (td_id t)) new_row);
               r1 = ca_set a ''owner'' (PStr u) r0;
               r2 = ca_set a ''title'' (PStr (td_title t)) r1;
               r3 = ca_set a ''completed'' (PBool (td_completed t)) r2;
               r4 = (if td_created t \<noteq> 0 then ca_set a ''created'' (PTime (td_created t)) r3 else r3);
               r5 = (if td_updated t \<noteq> 0 then ca_set a ''updated'' (PTime (td_updated t)) r4 else r4)
           in case ca_save a (ca_db a) todos_collection_name r5 of
                (db, None) \<Rightarrow> (set_cdb db s, Some (ErrOther ''crdtstore: save todo''))
              | (db, Some _) \<Rightarrow> (set_cdb db s, None)))"

fun upsert_all ::
  "string \<Rightarrow> todo list \<Rightarrow> ('db, 'd, 'js) crdt_store \<Rightarrow> ('db, 'd, 'js) crdt_store \<times> store_err option" where
  "upsert_all u [] s = (s, None)"
| "upsert_all u (t # ts) s = (case upsert_todo_record u t s of
     (s', Some e) \<Rightarrow> (s', Some e)
   | (s', None) \<Rightarrow> upsert_all u ts s')"

fun delete_stale ::
  "string set \<Rightarrow> row list \<Rightarrow> ('db, 'd, 'js) crdt_store \<Rightarrow> ('db, 'd, 'js) crdt_store \<times> store_err option" where
  "delete_stale want [] s = (s, None)"
| "delete_stale want (r # rs) s =
     (if rw_idem r \<in> want then delete_stale want rs s
      else case ca_delete (cs_app s) (ca_db (cs_app s)) todos_collection_name r of
        (db, False) \<Rightarrow> (set_cdb db s, Some (ErrOther ''crdtstore: delete stale todo''))
      | (db, True) \<Rightarrow> delete_stale want rs (set_cdb db s))"

text \<open>A Go map from ids to todos, in the order one \<open>range\<close> over it happens to take.\<close>

definition map_iteration :: "(string \<Rightarrow> nat) \<Rightarrow> todo list \<Rightarrow> todo list" where
  "map_iteration rank ts = sort_key (\<lambda>t. rank (td_id t)) ts"

lemma map_iteration_simps [simp]:
  "set (map_iteration rank ts) = set ts" "distinct (map td_id (map_iteration rank ts)) = distinct (map td_id ts)"
proof -
  show "set (map_iteration rank ts) = set ts" by (simp add: map_iteration_def)
  have "mset (map td_id (map_iteration rank ts)) = mset (map td_id ts)" by (simp add: map_iteration_def)
  then show "distinct (map td_id (map_iteration rank ts)) = distinct (map td_id ts)"
    by (rule mset_eq_imp_distinct_iff)
qed

definition persist_records ::
  "string \<Rightarrow> 'd \<Rightarrow> ('db, 'd, 'js) crdt_store \<Rightarrow> ('db, 'd, 'js) crdt_store \<times> store_err option" where
  "persist_records u d s0 =
     (let s = bump_version u s0; want = read_all (cs_loro s) d in
      case upsert_all u (map_iteration (cs_rank s u (version u s)) want) s of
        (s1, Some e) \<Rightarrow> (s1, Some e)
      | (s1, None) \<Rightarrow>
          (case ca_find (cs_app s1) (ca_db (cs_app s1)) todos_collection_name [OwnerIs u] '''' page_limit of
             RowsErr \<Rightarrow> (s1, Some (ErrOther ''crdtstore: list existing todos''))
           | found \<Rightarrow> delete_stale (td_id ` set want) (case found of Rows rs \<Rightarrow> rs | _ \<Rightarrow> []) s1))"

definition publish_op_from_doc ::
  "string \<Rightarrow> string \<Rightarrow> 'd \<Rightarrow> ('db, 'd, 'js) crdt_store \<Rightarrow> ('db, 'd, 'js) crdt_store" where
  "publish_op_from_doc u opid d s =
     (case cs_transport s of
        None \<Rightarrow> s
      | Some t \<Rightarrow> (case lo_export (cs_loro s) d of
           None \<Rightarrow> s
         | Some upd \<Rightarrow> s\<lparr>cs_js := fst (publish t
              \<lparr>op_id = opid, op_publisher = '''', op_owner = u, op_updates = upd\<rparr> (cs_js s))\<rparr>))"

subsection \<open>Operations\<close>

definition crdt_create ::
  "todo \<Rightarrow> string \<Rightarrow> string \<Rightarrow> ('db, 'd, 'js) crdt_store \<Rightarrow> ('db, 'd, 'js) crdt_store \<times> todo result" where
  "crdt_create e u idem s =
     (if u = '''' then (s, Inl (ErrOther ''crdtstore: empty ownerID''))
      else if td_id e = '''' then (s, Inl (ErrOther ''crdtstore: empty todo ID''))
      else case doc u s of
        (s1, Inl err) \<Rightarrow> (s1, Inl err)
      | (s1, Inr d) \<Rightarrow>
          (let L = cs_loro s1 in
           case find_item L (td_id e) d of
             Some t \<Rightarrow> (s1, Inr t)
           | None \<Rightarrow>
               (case lo_insert_map L (td_id e) d of
                  (d1, False) \<Rightarrow> (set_doc u d1 s1, Inl (ErrOther ''crdtstore: insert map''))
                | (d1, True) \<Rightarrow>
               (case write_item L (cs_clock s1) (td_id e) e d1 of
                  (d2, False) \<Rightarrow> (set_doc u d2 s1, Inl (ErrOther ''crdtstore: write item''))
                | (d2, True) \<Rightarrow>
               (case persist_records u d2 (set_doc u d2 s1) of
                  (s2, Some err) \<Rightarrow> (s2, Inl err)
                | (s2, None) \<Rightarrow>
                    (let s3 = publish_op_from_doc u (''create-'' @ td_id e) d2 s2 in
                     case find_item L (td_id e) d2 of
                       None \<Rightarrow> (s3, Inl (ErrOther ''crdtstore: created todo not found in doc''))
                     | Some t \<Rightarrow> (s3, Inr t)))))))"

definition crdt_get ::
  "string \<Rightarrow> string \<Rightarrow> ('db, 'd, 'js) crdt_store \<Rightarrow> ('db, 'd, 'js) crdt_store \<times> todo result" where
  "crdt_get u i s =
     (if u = '''' \<or> i = '''' then (s, Inl ErrNotFound)
      else case doc u s of
        (s1, Inl err) \<Rightarrow> (s1, Inl err)
      | (s1, Inr d) \<Rightarrow> (s1, case find_item (cs_loro s1) i d of None \<Rightarrow> Inl ErrNotFound | Some t \<Rightarrow> Inr t))"

definition crdt_list ::
  "string \<Rightarrow> string \<Rightarrow> ('db, 'd, 'js) crdt_store \<Rightarrow> ('db, 'd, 'js) crdt_store \<times> todo list result" where
  "crdt_list u flt s =
     (if u = '''' then (s, Inr [])
      else case doc u s of
        (s1, Inl err) \<Rightarrow> (s1, Inl err)
      | (s1, Inr d) \<Rightarrow> (s1, Inr (filter (\<lambda>t.
          if flt = ''active'' then \<not> td_completed t
          else if flt = ''completed'' then td_completed t else True) (read_all (cs_loro s1) d))))"

fun lval_of :: "pval \<Rightarrow> lval" where
  "lval_of (PStr s) = LStr s"
| "lval_of (PBool b) = LBool b"
| "lval_of (PTime t) = LOther"

definition crdt_update ::
  "string \<Rightarrow> string \<Rightarrow> patch \<Rightarrow> ('db, 'd, 'js) crdt_store \<Rightarrow> ('db, 'd, 'js) crdt_store \<times> todo result" where
  "crdt_update u i patch s =
     (if u = '''' \<or> i = '''' then (s, Inl ErrNotFound)
      else case doc u s of
        (s1, Inl err) \<Rightarrow> (s1, Inl err)
      | (s1, Inr d) \<Rightarrow>
          (let L = cs_loro s1 in
           case find_item L i d of
             None \<Rightarrow> (s1, Inl ErrNotFound)
           | Some _ \<Rightarrow>
               (case put_fields L i (map (\<lambda>(k, v). (k, lval_of v)) patch) d of
                  (d1, False) \<Rightarrow> (set_doc u d1 s1, Inl (ErrOther ''crdtstore: patch''))
                | (d1, True) \<Rightarrow>
               (case lo_put L i ''updated'' (LStamp (cs_clock s1)) d1 of
                  (d2, False) \<Rightarrow> (set_doc u d2 s1, Inl (ErrOther ''crdtstore: patch updated''))
                | (d2, True) \<Rightarrow>
               (case persist_records u d2 (set_doc u d2 s1) of
                  (s2, Some err) \<Rightarrow> (s2, Inl err)
                | (s2, None) \<Rightarrow>
                    (publish_op_from_doc u (''update-'' @ i) d2 s2,
                     case find_item L i d2 of None \<Rightarrow> Inl ErrNotFound | Some t \<Rightarrow> Inr t))))))"

definition crdt_delete ::
  "string \<Rightarrow> string \<Rightarrow> ('db, 'd, 'js) crdt_store \<Rightarrow> ('db, 'd, 'js) crdt_store \<times> unit result" where
  "crdt_delete u i s =
     (if u = '''' \<or> i = '''' then (s, Inl ErrNotFound)
      else case doc u s of
        (s1, Inl err) \<Rightarrow> (s1, Inl err)
      | (s1, Inr d) \<Rightarrow>
          (let L = cs_loro s1 in
           case lo_lookup L d i of
             None \<Rightarrow> (s1, Inl ErrNotFound)
           | Some _ \<Rightarrow>
               (case lo_delete L i d of
                  (d1, False) \<Rightarrow> (set_doc u d1 s1, Inl (ErrOther ''crdtstore: delete''))
                | (d1, True) \<Rightarrow>
               (case persist_records u d1 (set_doc u d1 s1) of
                  (s2, Some err) \<Rightarrow> (s2, Inl err)
                | (s2, None) \<Rightarrow> (publish_op_from_doc u (''delete-'' @ i) d1 s2, Inr ())))))"

fun delete_items :: "'d loro_api \<Rightarrow> string list \<Rightarrow> 'd \<Rightarrow> 'd \<times> bool" where
  "delete_items L [] d = (d, True)"
| "delete_items L (i # is) d = (case lo_delete L i d of
     (d1, False) \<Rightarrow> (d1, False) | (d1, True) \<Rightarrow> delete_items L is d1)"

definition completed_ids :: "'d loro_api \<Rightarrow> 'd \<Rightarrow> string list" where
  "completed_ids L d = map td_id (filter td_completed (read_all L d))"

definition crdt_clear_completed ::
  "string \<Rightarrow> ('db, 'd, 'js) crdt_store \<Rightarrow> ('db, 'd, 'js) crdt_store \<times> nat \<times> store_err option" where
  "crdt_clear_completed u s =
     (if u = '''' then (s, 0, None)
      else case doc u s of
        (s1, Inl err) \<Rightarrow> (s1, 0, Some err)
      | (s1, Inr d) \<Rightarrow>
          (let L = cs_loro s1; ids = completed_ids L d; n = length ids in
           case delete_items L ids d of
             (d1, False) \<Rightarrow> (set_doc u d1 s1, n, Some (ErrOther ''crdtstore: delete''))
           | (d1, True) \<Rightarrow>
               if 0 < n
               then (case persist_records u d1 (set_doc u d1 s1) of
                  (s2, Some err) \<Rightarrow> (s2, n, Some err)
                | (s2, None) \<Rightarrow> (publish_op_from_doc u ''clear-completed'' d1 s2, n, None))
               else (set_doc u d1 s1, n, None)))"

definition crdt_count ::
  "string \<Rightarrow> ('db, 'd, 'js) crdt_store \<Rightarrow> ('db, 'd, 'js) crdt_store \<times> nat result" where
  "crdt_count u s =
     (if u = '''' then (s, Inr 0)
      else case doc u s of
        (s1, Inl err) \<Rightarrow> (s1, Inl err)
      | (s1, Inr d) \<Rightarrow> (s1, Inr (length (lo_all (cs_loro s1) d))))"

definition apply_remote_op ::
  "string \<Rightarrow> op \<Rightarrow> ('db, 'd, 'js) crdt_store \<Rightarrow> ('db, 'd, 'js) crdt_store \<times> store_err option" where
  "apply_remote_op u x s =
     (if u = '''' then (s, Some (ErrOther ''crdtstore ApplyRemoteOp: empty ownerID''))
      else if op_updates x = [] then (s, None)
      else case doc u s of
        (s1, Inl err) \<Rightarrow> (s1, Some err)
      | (s1, Inr d) \<Rightarrow>
          (case lo_import (cs_loro s1) (op_updates x) d of
             (d1, False) \<Rightarrow> (set_doc u d1 s1, Some (ErrOther ''crdtstore ApplyRemoteOp: import''))
           | (d1, True) \<Rightarrow>
               (case persist_records u d1 (set_doc u d1 s1) of
                  (s2, Some err) \<Rightarrow> (s2, Some (ErrOther ''crdtstore ApplyRemoteOp: persist''))
                | (s2, None) \<Rightarrow> (bump_version u s2, None))))"

text \<open>\<open>EnsureSchema\<close> on the todos collection; creating the collection is the parameter \<open>mk\<close>.\<close>

definition ensure_schema ::
  "('db \<Rightarrow> 'db \<times> bool) \<Rightarrow> ('db, 'd, 'js) crdt_store \<Rightarrow> ('db, 'd, 'js) crdt_store \<times> bool" where
  "ensure_schema mk s =
     (if ca_find_col (cs_app s) (ca_db (cs_app s)) todos_collection_name = ColFound then (s, True)
      else case mk (ca_db (cs_app s)) of (db, ok) \<Rightarrow> (set_cdb db s, ok))"

subsection \<open>Documents as views\<close>

definition item_core :: "(string \<rightharpoonup> lval) \<Rightarrow> string \<times> bool" where
  "item_core m = (get_string m ''title'', get_bool m ''completed'')"

definition doc_view :: "'d loro_api \<Rightarrow> 'd \<Rightarrow> string \<rightharpoonup> string \<times> bool" where
  "doc_view L d i = (case lo_items L d i of Some (Child m) \<Rightarrow> Some (item_core m) | _ \<Rightarrow> None)"

definition children_only :: "'d loro_api \<Rightarrow> 'd \<Rightarrow> bool" where
  "children_only L d \<longleftrightarrow> (\<forall>i v. lo_items L d i \<noteq> Some (Leaf v))"

lemma loroD:
  assumes "loro_laws L"
  shows "lo_items L (lo_new L) = Map.empty" "lo_lookup L d = lo_items L d"
    "snd (lo_insert_map L i d)" "lo_items L (fst (lo_insert_map L i d)) = (lo_items L d)(i \<mapsto> Child Map.empty)"
    "lo_items L d i = Some (Child m) \<Longrightarrow> snd (lo_put L i f v d)"
    "lo_items L d i = Some (Child m) \<Longrightarrow>
      lo_items L (fst (lo_put L i f v d)) = (lo_items L d)(i \<mapsto> Child (m(f \<mapsto> v)))"
    "lo_items L d i \<noteq> None \<Longrightarrow> snd (lo_delete L i d)"
    "lo_items L d i \<noteq> None \<Longrightarrow> lo_items L (fst (lo_delete L i d)) = (lo_items L d)(i := None)"
    "distinct (map fst (lo_all L d))" "map_of (lo_all L d) = lo_items L d"
  using assms by (auto simp: loro_laws_def)

lemma put_fields_ok:
  assumes "loro_laws L" and "lo_items L d i = Some (Child m)"
  shows "\<exists>d'. put_fields L i fs d = (d', True) \<and>
    lo_items L d' = (lo_items L d)(i \<mapsto> Child (foldl (\<lambda>m (f, v). m(f \<mapsto> v)) m fs))"
  using assms(2)
proof (induction fs arbitrary: d m)
  case Nil
  then show ?case by (auto simp: fun_upd_idem)
next
  case (Cons fv fs)
  obtain f v where fv: "fv = (f, v)" by (cases fv)
  obtain d1 ok where run: "lo_put L i f v d = (d1, ok)" by fastforce
  with loroD(5,6) [OF assms(1) Cons.prems, of f v] have ok: "ok"
    and d1: "lo_items L d1 = (lo_items L d)(i \<mapsto> Child (m(f \<mapsto> v)))" by auto
  from Cons.IH [of d1 "m(f \<mapsto> v)"] d1 show ?case
    by (simp add: fv run ok del: fun_upd_apply) (simp only: fun_upd_upd fun_upd_same)
qed

lemma insert_item_ok:
  assumes "loro_laws L" and "lo_insert_map L i d = (d1, b)"
  shows "b" "\<exists>d2 m. write_item L now i t d1 = (d2, True) \<and>
    lo_items L d2 = (lo_items L d)(i \<mapsto> Child m) \<and> item_core m = (td_title t, td_completed t)"
proof -
  show "b" using loroD(3) [OF assms(1), of i d] assms(2) by simp
  have items: "lo_items L d1 = (lo_items L d)(i \<mapsto> Child Map.empty)"
    using loroD(4) [OF assms(1), of i d] assms(2) by simp
  then have at: "lo_items L d1 i = Some (Child Map.empty)" by simp
  let ?fs = "[(''id'', LStr (td_id t)), (''title'', LStr (td_title t)),
    (''completed'', LBool (td_completed t)), (''created'', stamp_or now (td_created t)),
    (''updated'', stamp_or now (td_updated t))]"
  let ?m = "foldl (\<lambda>m (f, v). m(f \<mapsto> v)) Map.empty ?fs"
  from put_fields_ok [OF assms(1) at, of ?fs]
  obtain d2 where "put_fields L i ?fs d1 = (d2, True)" "lo_items L d2 = (lo_items L d)(i \<mapsto> Child ?m)"
    unfolding items fun_upd_upd by blast
  moreover have "item_core ?m = (td_title t, td_completed t)"
    by (simp add: item_core_def get_string_def get_bool_def)
  ultimately show "\<exists>d2 m. write_item L now i t d1 = (d2, True) \<and>
      lo_items L d2 = (lo_items L d)(i \<mapsto> Child m) \<and> item_core m = (td_title t, td_completed t)"
    unfolding write_item_def by blast
qed

lemma doc_view_upd:
  "lo_items L d' = (lo_items L d)(i \<mapsto> Child m) \<Longrightarrow> doc_view L d' = (doc_view L d)(i \<mapsto> item_core m)"
  by (auto simp: doc_view_def fun_eq_iff)

lemma doc_view_del:
  "lo_items L d' = (lo_items L d)(i := None) \<Longrightarrow> doc_view L d' = (doc_view L d)(i := None)"
  by (auto simp: doc_view_def fun_eq_iff)

lemma children_only_upd:
  "lo_items L d' = (lo_items L d)(i \<mapsto> Child m) \<Longrightarrow> children_only L d \<Longrightarrow> children_only L d'"
  by (auto simp: children_only_def)

lemma children_only_del:
  "lo_items L d' = (lo_items L d)(i := None) \<Longrightarrow> children_only L d \<Longrightarrow> children_only L d'"
  by (auto simp: children_only_def)

lemma find_item_view:
  assumes "loro_laws L"
  shows "(case find_item L i d of None \<Rightarrow> doc_view L d i = None
    | Some t \<Rightarrow> td_id t = i \<and> doc_view L d i = Some (td_title t, td_completed t))"
  by (auto simp: find_item_def doc_view_def loroD(2) [OF assms] todo_from_loro_def item_core_def
      split: option.splits lentry.splits)

lemma read_entries_view:
  "distinct (map fst es) \<Longrightarrow>
    distinct (map td_id (read_entries es)) \<and> td_id ` set (read_entries es) \<subseteq> fst ` set es \<and>
    (\<forall>i y. (case map_of es i of Some (Child m) \<Rightarrow> Some (item_core m) | _ \<Rightarrow> None) = Some y \<longleftrightarrow>
      (\<exists>t \<in> set (read_entries es). td_id t = i \<and> y = (td_title t, td_completed t)))"
proof (induction es rule: read_entries.induct)
  case (2 i m es)
  then have no: "i \<notin> td_id ` set (read_entries es)" by auto
  with 2 show ?case
    by (auto simp: todo_from_loro_def item_core_def)
next
  case (3 i v es)
  then show ?case by (auto simp: image_iff)
qed simp

lemma read_all_view:
  assumes "loro_laws L"
  shows "distinct (map td_id (read_all L d))"
    "doc_view L d i = Some y \<longleftrightarrow> (\<exists>t \<in> set (read_all L d). td_id t = i \<and> y = (td_title t, td_completed t))"
proof -
  note v = read_entries_view [OF loroD(9) [OF assms, of d], unfolded loroD(10) [OF assms]]
  show "distinct (map td_id (read_all L d))" using v by (simp add: read_all_def)
  show "doc_view L d i = Some y \<longleftrightarrow> (\<exists>t \<in> set (read_all L d). td_id t = i \<and> y = (td_title t, td_completed t))"
    unfolding read_all_def doc_view_def
    by (rule v [THEN conjunct2, THEN conjunct2, THEN spec, THEN spec, of i y])
qed

lemma dom_doc_view:
  "loro_laws L \<Longrightarrow> dom (doc_view L d) = td_id ` set (read_all L d)"
  by (auto simp: dom_def read_all_view image_iff)

lemma doc_view_map_of:
  assumes "loro_laws L"
  shows "doc_view L d = map_of (map (\<lambda>t. (td_id t, td_title t, td_completed t)) (read_all L d))"
proof (rule map_eqI)
  fix i y
  have "distinct (map fst (map (\<lambda>t. (td_id t, td_title t, td_completed t)) (read_all L d)))"
    using read_all_view(1) [OF assms] by (simp add: comp_def)
  then show "doc_view L d i = Some y \<longleftrightarrow>
      map_of (map (\<lambda>t. (td_id t, td_title t, td_completed t)) (read_all L d)) i = Some y"
    unfolding read_all_view(2) [OF assms] by (subst map_of_eq_Some_iff) auto
qed

lemma card_children:
  assumes "loro_laws L" and "children_only L d"
  shows "length (lo_all L d) = card (dom (doc_view L d))"
proof -
  have "doc_view L d i \<noteq> None \<longleftrightarrow> lo_items L d i \<noteq> None" for i
    using assms(2) by (auto simp: doc_view_def children_only_def split: option.splits lentry.splits)
  then have "dom (doc_view L d) = dom (lo_items L d)" by (auto simp: dom_def)
  also have "\<dots> = fst ` set (lo_all L d)"
    using loroD(10) [OF assms(1), of d] by (metis dom_map_of_conv_image_fst)
  finally show ?thesis
    using loroD(9) [OF assms(1), of d] distinct_card by fastforce
qed

subsection \<open>Rows as views\<close>

definition idem_view :: "row list \<Rightarrow> string \<Rightarrow> string \<rightharpoonup> string \<times> bool" where
  "idem_view rs u k = map_option (\<lambda>r. (rw_title r, rw_completed r))
     (find (\<lambda>r. rw_idem r = k \<and> rw_owner r = u) rs)"

text \<open>No two rows of an owner share an idempotency key.\<close>

definition uniq :: "string \<Rightarrow> row list \<Rightarrow> bool" where
  "uniq u rs \<longleftrightarrow> (\<forall>r \<in> set rs. \<forall>r' \<in> set rs.
     rw_owner r = u \<and> rw_owner r' = u \<and> rw_idem r = rw_idem r' \<longrightarrow> r = r')"

definition owned :: "string \<Rightarrow> row list \<Rightarrow> row list" where
  "owned u rs = filter (\<lambda>r. rw_owner r = u) rs"

definition loadable :: "row list \<Rightarrow> string \<Rightarrow> bool" where
  "loadable rs u \<longleftrightarrow> uniq u rs \<and> length (owned u rs) \<le> page_limit"

definition only_owner :: "string \<Rightarrow> row list \<Rightarrow> row list \<Rightarrow> bool" where
  "only_owner u rs rs' \<longleftrightarrow> (\<forall>v. v \<noteq> u \<longrightarrow> owned v rs' = owned v rs)"

lemma idem_view_Some:
  assumes "uniq u rs"
  shows "idem_view rs u k = Some y \<longleftrightarrow>
    (\<exists>r \<in> set rs. rw_idem r = k \<and> rw_owner r = u \<and> y = (rw_title r, rw_completed r))"
proof
  assume "idem_view rs u k = Some y"
  then show "\<exists>r \<in> set rs. rw_idem r = k \<and> rw_owner r = u \<and> y = (rw_title r, rw_completed r)"
    by (auto simp: idem_view_def find_Some_iff)
next
  assume "\<exists>r \<in> set rs. rw_idem r = k \<and> rw_owner r = u \<and> y = (rw_title r, rw_completed r)"
  then obtain r where r: "r \<in> set rs" "rw_idem r = k" "rw_owner r = u" "y = (rw_title r, rw_completed r)"
    by blast
  then have "find (\<lambda>r. rw_idem r = k \<and> rw_owner r = u) rs \<noteq> None" by (auto simp: find_None_iff)
  then obtain x where x: "find (\<lambda>r. rw_idem r = k \<and> rw_owner r = u) rs = Some x" by blast
  then have "x \<in> set rs" "rw_idem x = k" "rw_owner x = u" by (auto simp: find_Some_iff)
  then have "x = r" using assms r by (auto simp: uniq_def)
  then show "idem_view rs u k = Some y" using x r(4) by (simp add: idem_view_def)
qed

lemma idem_view_None: "idem_view rs u k = None \<longleftrightarrow> (\<forall>r \<in> set rs. rw_idem r = k \<longrightarrow> rw_owner r \<noteq> u)"
  by (auto simp: idem_view_def find_None_iff)

lemma set_owned: "set (owned u rs) = {r \<in> set rs. rw_owner r = u}"
  by (auto simp: owned_def)

lemma idem_view_owned: "idem_view (owned u rs) u = idem_view rs u"
proof
  fix k
  have "find (\<lambda>r. rw_idem r = k \<and> rw_owner r = u) (filter (\<lambda>r. rw_owner r = u) rs) =
      find (\<lambda>r. rw_idem r = k \<and> rw_owner r = u) rs"
    by (induction rs) auto
  then show "idem_view (owned u rs) u k = idem_view rs u k" by (simp add: idem_view_def owned_def)
qed

lemma uniq_owned: "uniq u (owned u rs) = uniq u rs"
  by (auto simp: uniq_def set_owned)

lemma only_ownerD:
  assumes "only_owner u rs rs'" and "v \<noteq> u"
  shows "idem_view rs' v = idem_view rs v" "loadable rs' v = loadable rs v"
proof -
  have o: "owned v rs' = owned v rs" using assms by (simp add: only_owner_def)
  show "idem_view rs' v = idem_view rs v" using idem_view_owned [of v rs] idem_view_owned [of v rs'] o by simp
  show "loadable rs' v = loadable rs v" using uniq_owned [of v rs] uniq_owned [of v rs'] o
    by (simp add: loadable_def)
qed

lemma only_owner_refl [simp]: "only_owner u rs rs"
  by (simp add: only_owner_def)

lemma only_owner_trans: "only_owner u a b \<Longrightarrow> only_owner u b c \<Longrightarrow> only_owner u a c"
  by (simp add: only_owner_def)

lemma card_idem_view:
  assumes "distinct (map rw_id rs)" and "uniq u rs"
  shows "card (dom (idem_view rs u)) = length (owned u rs)"
proof -
  have "dom (idem_view rs u) = rw_idem ` set (owned u rs)"
    by (auto simp: dom_def idem_view_Some [OF assms(2)] set_owned image_iff)
  moreover have "inj_on rw_idem (set (owned u rs))"
    using assms(2) by (auto simp: inj_on_def uniq_def set_owned)
  moreover have "distinct (owned u rs)"
    using assms(1) by (simp add: owned_def distinct_map)
  ultimately show ?thesis by (simp add: card_image distinct_card)
qed

end
