(* ===== verification/CRDTContract.thy ===== *)
theory CRDTContract
  imports CRDTStore
begin

text \<open>
  What the CRDT strategy guarantees: the projection of an owner's document into the shared table,
  the storage contract (the interpretation of \<open>entity_store\<close>), recovery after a restart, what the
  page limit loses, version ticks, and convergence of two instances that exchange their ops.
\<close>

subsection \<open>Frames\<close>

definition crdt_rows :: "('db, 'd, 'js) crdt_store \<Rightarrow> row list" where
  "crdt_rows s = rows_of (cs_app s) todos_collection_name"

lemma bump_frame [frame, simp]:
  "cs_app (bump_version u s) = cs_app s" "cs_loro (bump_version u s) = cs_loro s"
  "cs_docs (bump_version u s) = cs_docs s" "cs_clock (bump_version u s) = cs_clock s"
  "crdt_rows (bump_version u s) = crdt_rows s" "cs_transport (bump_version u s) = cs_transport s"
  "cs_js (bump_version u s) = cs_js s"
  by (simp_all add: bump_version_def Let_def crdt_rows_def)

lemma publish_frame [frame, simp]:
  "cs_app (publish_op_from_doc u i d s) = cs_app s" "cs_loro (publish_op_from_doc u i d s) = cs_loro s"
  "cs_docs (publish_op_from_doc u i d s) = cs_docs s" "crdt_rows (publish_op_from_doc u i d s) = crdt_rows s"
  "cs_clock (publish_op_from_doc u i d s) = cs_clock s"
  by (simp_all add: publish_op_from_doc_def crdt_rows_def split: option.splits)

lemma set_doc_frame [frame, simp]:
  "cs_app (set_doc u d s) = cs_app s" "cs_loro (set_doc u d s) = cs_loro s"
  "cs_docs (set_doc u d s) = (cs_docs s)(u \<mapsto> d)" "crdt_rows (set_doc u d s) = crdt_rows s"
  "cs_clock (set_doc u d s) = cs_clock s" "cs_transport (set_doc u d s) = cs_transport s"
  "cs_js (set_doc u d s) = cs_js s"
  by (simp_all add: set_doc_def crdt_rows_def)

lemma set_cdb_frame [frame, simp]:
  "cs_app (set_cdb db s) = (cs_app s)\<lparr>ca_db := db\<rparr>" "cs_loro (set_cdb db s) = cs_loro s"
  "cs_docs (set_cdb db s) = cs_docs s" "cs_clock (set_cdb db s) = cs_clock s"
  "crdt_rows (set_cdb db s) = ca_rows (cs_app s) db todos_collection_name"
  "cs_transport (set_cdb db s) = cs_transport s" "cs_js (set_cdb db s) = cs_js s"
  by (simp_all add: set_cdb_def crdt_rows_def)

text \<open>The table is usable: PocketBase keeps its laws and the rows are well formed.\<close>

definition table_ok :: "('db, 'd, 'js) crdt_store \<Rightarrow> bool" where
  "table_ok s \<longleftrightarrow> app_laws (cs_app s) todos_collection_name \<and> well_formed_rows (crdt_rows s)"

lemma table_okD:
  assumes "table_ok s"
  shows "set_laws (cs_app s)" "find_laws (cs_app s) todos_collection_name"
    "save_laws (cs_app s) todos_collection_name" "delete_laws (cs_app s) todos_collection_name"
    "well_formed_rows (crdt_rows s)" "distinct (map rw_id (crdt_rows s))"
  using assms by (auto simp: table_ok_def app_laws_def well_formed_rows_def)

lemma table_ok_set_cdb:
  "table_ok s \<Longrightarrow> well_formed_rows (ca_rows (cs_app s) db todos_collection_name) \<Longrightarrow> table_ok (set_cdb db s)"
  by (simp add: table_ok_def)

subsection \<open>Upserting one todo\<close>

lemma owned_append [simp]: "owned u (rs @ rs') = owned u rs @ owned u rs'"
  by (simp add: owned_def)

lemma owned_replace:
  assumes "\<And>x. x \<in> set rs \<Longrightarrow> rw_id x = i \<Longrightarrow> rw_owner x \<noteq> v" and "rw_owner st \<noteq> v"
  shows "owned v (map (\<lambda>x. if rw_id x = i then st else x) rs) = owned v rs"
  using assms by (induction rs) (auto simp: owned_def)

lemma upsert_record_run:
  assumes "table_ok s" and "upsert_todo_record u t s = (s', e)"
  shows "s' = s \<and> e \<noteq> None \<or> (\<exists>r0 r db sv.
    (case find (\<lambda>x. rw_idem x = td_id t \<and> rw_owner x = u) (crdt_rows s) of
       None \<Rightarrow> r0 = new_row\<lparr>rw_idem := td_id t\<rparr> | Some _ \<Rightarrow> r0 \<in> set (crdt_rows s)) \<and>
    (rw_id r0 \<noteq> '''' \<longrightarrow> rw_idem r0 = td_id t \<and> rw_owner r0 = u) \<and>
    rw_id r = rw_id r0 \<and> rw_title r = td_title t \<and> rw_completed r = td_completed t \<and>
    rw_owner r = u \<and> rw_idem r = td_id t \<and>
    ca_save (cs_app s) (ca_db (cs_app s)) todos_collection_name r = (db, sv) \<and>
    s' = set_cdb db s \<and> (e = None \<longleftrightarrow> sv \<noteq> None))"
proof (cases "ca_find_col (cs_app s) (ca_db (cs_app s)) todos_collection_name = ColFound")
  case False
  then show ?thesis
    using assms(2) by (cases "ca_find_col (cs_app s) (ca_db (cs_app s)) todos_collection_name")
      (auto simp: upsert_todo_record_def Let_def)
next
  case True
  let ?a = "cs_app s" and ?c = todos_collection_name
  note d = table_okD [OF assms(1)]
  define fr where "fr = ca_first ?a (ca_db ?a) ?c [IdemIs (td_id t), OwnerIs u]"
  define r0 where "r0 = (case fr of Some x \<Rightarrow> x | None \<Rightarrow> new_row\<lparr>rw_idem := td_id t\<rparr>)"
  define r where "r = r0\<lparr>rw_owner := u, rw_title := td_title t, rw_completed := td_completed t,
    rw_created := (if td_created t \<noteq> 0 then td_created t else rw_created r0),
    rw_updated := (if td_updated t \<noteq> 0 then td_updated t else rw_updated r0)\<rparr>"
  obtain db sv where sv: "ca_save ?a (ca_db ?a) ?c r = (db, sv)" by fastforce
  have first: "case fr of None \<Rightarrow> filter (matches [IdemIs (td_id t), OwnerIs u]) (crdt_rows s) = []
      | Some x \<Rightarrow> x \<in> set (crdt_rows s) \<and> matches [IdemIs (td_id t), OwnerIs u] x"
    using d(2,5) unfolding find_laws_def crdt_rows_def fr_def by blast
  have "upsert_todo_record u t s = (case ca_save ?a (ca_db ?a) ?c r of
      (db, None) \<Rightarrow> (set_cdb db s, Some (ErrOther ''crdtstore: save todo''))
    | (db, Some _) \<Rightarrow> (set_cdb db s, None))"
    using True d(1)
    by (simp add: upsert_todo_record_def Let_def set_laws_def r_def r0_def fr_def [symmetric] split: option.splits)
  then have out: "s' = set_cdb db s" "e = None \<longleftrightarrow> sv \<noteq> None"
    using assms(2) sv by (auto split: option.splits)
  have found: "case find (\<lambda>x. rw_idem x = td_id t \<and> rw_owner x = u) (crdt_rows s) of
      None \<Rightarrow> r0 = new_row\<lparr>rw_idem := td_id t\<rparr> | Some _ \<Rightarrow> r0 \<in> set (crdt_rows s)"
    and r0: "rw_id r0 \<noteq> '''' \<longrightarrow> rw_idem r0 = td_id t \<and> rw_owner r0 = u" "rw_idem r0 = td_id t"
    using first by (auto simp: r0_def matches_def new_row_def find_None_iff find_Some_iff filter_empty_conv
        split: option.splits)
  have rf: "rw_id r = rw_id r0" "rw_title r = td_title t" "rw_completed r = td_completed t"
    "rw_owner r = u" "rw_idem r = td_id t"
    using r0(2) by (simp_all add: r_def)
  show ?thesis
    by (rule disjI2, rule exI [of _ r0], rule exI [of _ r], rule exI [of _ db], rule exI [of _ sv])
      (use found r0 rf sv out in simp)
qed

text \<open>Steps that touch the owner's rows only: documents, library and clock stay, the table stays
  usable, and other owners' rows are the same.\<close>

definition table_step :: "string \<Rightarrow> ('db, 'd, 'js) crdt_store \<Rightarrow> ('db, 'd, 'js) crdt_store \<Rightarrow> bool" where
  "table_step u s s' \<longleftrightarrow> cs_docs s' = cs_docs s \<and> cs_loro s' = cs_loro s \<and> cs_clock s' = cs_clock s \<and>
     table_ok s' \<and> only_owner u (crdt_rows s) (crdt_rows s')"

lemma table_step_refl: "table_ok s \<Longrightarrow> table_step u s s"
  by (simp add: table_step_def)

lemma table_step_trans: "table_step u s s' \<Longrightarrow> table_step u s' s'' \<Longrightarrow> table_step u s s''"
  by (auto simp: table_step_def intro: only_owner_trans)

lemma table_step_set_cdb:
  "table_ok s \<Longrightarrow> well_formed_rows (ca_rows (cs_app s) db todos_collection_name) \<Longrightarrow>
    only_owner u (crdt_rows s) (ca_rows (cs_app s) db todos_collection_name) \<Longrightarrow>
    table_step u s (set_cdb db s)"
  by (simp add: table_step_def table_ok_set_cdb)

lemma uniq_append:
  "uniq u (rs @ [r]) \<longleftrightarrow> uniq u rs \<and>
    (rw_owner r = u \<longrightarrow> (\<forall>x \<in> set rs. rw_owner x = u \<and> rw_idem x = rw_idem r \<longrightarrow> x = r))"
  by (auto simp: uniq_def)

lemma upsert_new_row:
  assumes "table_ok s" and "rw_id r = ''''" and "rw_owner r = u"
    and "ca_save (cs_app s) (ca_db (cs_app s)) todos_collection_name r = (db, Some r')"
    and "find (\<lambda>x. rw_idem x = rw_idem r \<and> rw_owner x = u) (crdt_rows s) = None"
  shows "table_step u s (set_cdb db s)"
    "uniq u (crdt_rows s) \<Longrightarrow> uniq u (crdt_rows (set_cdb db s)) \<and>
      idem_view (crdt_rows (set_cdb db s)) u =
        (idem_view (crdt_rows s) u)(rw_idem r \<mapsto> (rw_title r, rw_completed r))"
proof -
  note d = table_okD [OF assms(1)]
  from save_laws_new [OF d(3) _ assms(2,4)] d(5)
  obtain st where st: "same_row st r'" "r' = r\<lparr>rw_id := rw_id r'\<rparr>" "rw_id r' \<noteq> ''''"
    "rw_id r' \<notin> rw_id ` set (crdt_rows s)"
    "ca_rows (cs_app s) db todos_collection_name = crdt_rows s @ [st]"
    by (auto simp: crdt_rows_def)
  have "rw_title r' = rw_title r" "rw_completed r' = rw_completed r" "rw_owner r' = rw_owner r"
    "rw_idem r' = rw_idem r"
    by (subst st(2), simp)+
  then have f: "rw_id st = rw_id r'" "rw_title st = rw_title r" "rw_completed st = rw_completed r"
    "rw_owner st = u" "rw_idem st = rw_idem r"
    using same_rowD [OF st(1)] assms(3) by auto
  show "table_step u s (set_cdb db s)"
    by (rule table_step_set_cdb [OF assms(1)])
      (use st f d(5) in \<open>auto simp: well_formed_rows_def only_owner_def owned_def\<close>)
  have none: "\<forall>x \<in> set (crdt_rows s). rw_idem x = rw_idem r \<longrightarrow> rw_owner x \<noteq> u"
    using assms(5) by (auto simp: find_None_iff)
  show "uniq u (crdt_rows (set_cdb db s)) \<and> idem_view (crdt_rows (set_cdb db s)) u =
        (idem_view (crdt_rows s) u)(rw_idem r \<mapsto> (rw_title r, rw_completed r))"
    if un: "uniq u (crdt_rows s)"
  proof -
    have u': "uniq u (crdt_rows s @ [st])" using un none f by (auto simp: uniq_append)
    have "idem_view (crdt_rows s @ [st]) u = (idem_view (crdt_rows s) u)(rw_idem r \<mapsto> (rw_title r, rw_completed r))"
      by (rule map_eqI) (use none f in \<open>auto simp: idem_view_Some [OF u'] idem_view_Some [OF un]\<close>)
    with u' show ?thesis by (simp add: st(5))
  qed
qed

lemma upsert_old_row:
  assumes "table_ok s" and "r0 \<in> set (crdt_rows s)" and "rw_owner r0 = u" and "rw_id r = rw_id r0"
    and "rw_owner r = u" and "rw_idem r = rw_idem r0"
    and "ca_save (cs_app s) (ca_db (cs_app s)) todos_collection_name r = (db, Some r')"
  shows "table_step u s (set_cdb db s)"
    "uniq u (crdt_rows s) \<Longrightarrow> uniq u (crdt_rows (set_cdb db s)) \<and>
      idem_view (crdt_rows (set_cdb db s)) u =
        (idem_view (crdt_rows s) u)(rw_idem r \<mapsto> (rw_title r, rw_completed r))"
proof -
  note d = table_okD [OF assms(1)]
  have "rw_id r \<noteq> ''''" using d(5) assms(2,4) by (force simp: well_formed_rows_def)
  from save_laws_old [OF d(3) _ this assms(7)] d(5)
  obtain st where st: "same_row st r"
    "ca_rows (cs_app s) db todos_collection_name =
      map (\<lambda>x. if rw_id x = rw_id r0 then st else x) (crdt_rows s)"
    using assms(4) by (auto simp: crdt_rows_def)
  note f = same_rowD [OF st(1)]
  let ?rs = "map (\<lambda>x. if rw_id x = rw_id r0 then st else x) (crdt_rows s)"
  have ids: "map rw_id ?rs = map rw_id (crdt_rows s)" using f assms(4) by auto
  have the0: "x = r0" if "x \<in> set (crdt_rows s)" "rw_id x = rw_id r0" for x
    using row_unique [OF d(6) that(1) assms(2) that(2)] .
  have "only_owner u (crdt_rows s) ?rs"
    unfolding only_owner_def
  proof (intro allI impI)
    fix v
    assume "v \<noteq> u"
    then show "owned v ?rs = owned v (crdt_rows s)"
      using the0 assms(3,5) f by (intro owned_replace) auto
  qed
  moreover have "rw_id ` set ?rs = rw_id ` set (crdt_rows s)"
    using arg_cong [OF ids, of set] by (simp only: set_map [symmetric])
  then have "well_formed_rows ?rs"
    using ids d(5) unfolding well_formed_rows_def by (simp only: simp_thms)
  ultimately show "table_step u s (set_cdb db s)"
    using table_step_set_cdb [OF assms(1)] st(2) by simp
  show "uniq u (crdt_rows (set_cdb db s)) \<and> idem_view (crdt_rows (set_cdb db s)) u =
        (idem_view (crdt_rows s) u)(rw_idem r \<mapsto> (rw_title r, rw_completed r))"
    if un: "uniq u (crdt_rows s)"
  proof -
    have mem: "x \<in> set ?rs \<longleftrightarrow> x = st \<or> x \<in> set (crdt_rows s) \<and> x \<noteq> r0" if "rw_owner x = u" for x
      using the0 assms(2) by (auto simp: image_iff)
    have other: "rw_idem x \<noteq> rw_idem r" if "x \<in> set (crdt_rows s)" "x \<noteq> r0" "rw_owner x = u" for x
      using un that assms(2,3,6) by (auto simp: uniq_def)
    have u': "uniq u ?rs"
      unfolding uniq_def using mem other un f unfolding uniq_def by (metis (no_types, lifting))
    have "idem_view ?rs u = (idem_view (crdt_rows s) u)(rw_idem r \<mapsto> (rw_title r, rw_completed r))"
    proof (rule map_eqI)
      fix k y
      have "idem_view ?rs u k = Some y \<longleftrightarrow>
          (\<exists>x. (x = st \<or> x \<in> set (crdt_rows s) \<and> x \<noteq> r0) \<and> rw_idem x = k \<and> rw_owner x = u \<and>
            y = (rw_title x, rw_completed x))"
        using mem by (auto simp: idem_view_Some [OF u'] simp del: set_map)
      also have "\<dots> \<longleftrightarrow> ((idem_view (crdt_rows s) u)(rw_idem r \<mapsto> (rw_title r, rw_completed r))) k = Some y"
        using f assms(5,6) other by (auto simp: idem_view_Some [OF un])
      finally show "idem_view ?rs u k = Some y \<longleftrightarrow>
          ((idem_view (crdt_rows s) u)(rw_idem r \<mapsto> (rw_title r, rw_completed r))) k = Some y" .
    qed
    with u' show ?thesis by (simp add: st(2))
  qed
qed

lemma save_fail_step:
  assumes "table_ok s" and "ca_save (cs_app s) (ca_db (cs_app s)) todos_collection_name r = (db, None)"
  shows "table_step u s (set_cdb db s)"
proof -
  note d = table_okD [OF assms(1)]
  have "ca_rows (cs_app s) db todos_collection_name = crdt_rows s"
    using save_laws_fail [OF d(3) _ assms(2)] d(5) by (simp add: crdt_rows_def)
  then show ?thesis
    using assms(1) d(5) by (intro table_step_set_cdb) simp_all
qed

lemma upsert_ok:
  assumes "table_ok s" and "upsert_todo_record u t s = (s', e)"
  shows "table_step u s s'"
    "e = None \<Longrightarrow> uniq u (crdt_rows s) \<Longrightarrow> uniq u (crdt_rows s') \<and>
      idem_view (crdt_rows s') u = (idem_view (crdt_rows s) u)(td_id t \<mapsto> (td_title t, td_completed t))"
proof -
  note d = table_okD [OF assms(1)]
  have "table_step u s s' \<and> (e = None \<longrightarrow> uniq u (crdt_rows s) \<longrightarrow> uniq u (crdt_rows s') \<and>
      idem_view (crdt_rows s') u = (idem_view (crdt_rows s) u)(td_id t \<mapsto> (td_title t, td_completed t)))"
  proof (cases "s' = s \<and> e \<noteq> None")
    case True
    then show ?thesis using assms(1) by (auto simp: table_step_refl)
  next
    case False
    with upsert_record_run [OF assms] obtain r0 r db sv where
      r0: "case find (\<lambda>x. rw_idem x = td_id t \<and> rw_owner x = u) (crdt_rows s) of
        None \<Rightarrow> r0 = new_row\<lparr>rw_idem := td_id t\<rparr> | Some _ \<Rightarrow> r0 \<in> set (crdt_rows s)"
        "rw_id r0 \<noteq> '''' \<longrightarrow> rw_idem r0 = td_id t \<and> rw_owner r0 = u" and
      r: "rw_id r = rw_id r0" "rw_title r = td_title t" "rw_completed r = td_completed t"
        "rw_owner r = u" "rw_idem r = td_id t" and
      run: "ca_save (cs_app s) (ca_db (cs_app s)) todos_collection_name r = (db, sv)"
        "s' = set_cdb db s" "e = None \<longleftrightarrow> sv \<noteq> None"
      by blast
    show ?thesis
    proof (cases sv)
      case None
      then show ?thesis using save_fail_step [OF assms(1)] run by auto
    next
      case (Some r')
      note save = run(1) [unfolded Some]
      show ?thesis
      proof (cases "find (\<lambda>x. rw_idem x = td_id t \<and> rw_owner x = u) (crdt_rows s)")
        case none: None
        then have "rw_id r = ''''" using r0(1) r(1) by (simp add: new_row_def)
        from upsert_new_row [OF assms(1) this r(4) save] none r run(2) show ?thesis by simp
      next
        case (Some x)
        then have mem: "r0 \<in> set (crdt_rows s)" using r0(1) by simp
        then have "rw_id r0 \<noteq> ''''" using d(5) by (force simp: well_formed_rows_def)
        with r0(2) have r0': "rw_idem r0 = td_id t" "rw_owner r0 = u" by auto
        from upsert_old_row [OF assms(1) mem r0'(2) r(1,4) _ save] r r0' run(2) show ?thesis by simp
      qed
    qed
  qed
  then show "table_step u s s'"
    "e = None \<Longrightarrow> uniq u (crdt_rows s) \<Longrightarrow> uniq u (crdt_rows s') \<and>
      idem_view (crdt_rows s') u = (idem_view (crdt_rows s) u)(td_id t \<mapsto> (td_title t, td_completed t))"
    by auto
qed

lemma upsert_all_ok:
  assumes "table_ok s" and "upsert_all u ts s = (s', e)"
  shows "table_step u s s' \<and> (e = None \<longrightarrow> uniq u (crdt_rows s) \<longrightarrow> uniq u (crdt_rows s') \<and>
      idem_view (crdt_rows s') u =
        foldl (\<lambda>m t. m(td_id t \<mapsto> (td_title t, td_completed t))) (idem_view (crdt_rows s) u) ts)"
  using assms
proof (induction ts arbitrary: s)
  case Nil
  then show ?case by (simp add: table_step_refl)
next
  case (Cons t ts)
  obtain s1 e1 where run: "upsert_todo_record u t s = (s1, e1)" by fastforce
  note one = upsert_ok [OF Cons.prems(1) run]
  show ?case
  proof (cases e1)
    case (Some x)
    then show ?thesis using Cons.prems(2) run one(1) by auto
  next
    case None
    then have rest: "upsert_all u ts s1 = (s', e)" using Cons.prems(2) run by simp
    have "table_ok s1" using one(1) by (simp add: table_step_def)
    from Cons.IH [OF this rest] one None show ?thesis
      by (auto intro: table_step_trans)
  qed
qed

lemma delete_row_step:
  assumes "table_ok s" and "rw_owner r = u" and "r \<in> set (crdt_rows s)"
    and "ca_delete (cs_app s) (ca_db (cs_app s)) todos_collection_name r = (db, ok)"
  shows "table_step u s (set_cdb db s)"
    "crdt_rows (set_cdb db s) = (if ok then filter (\<lambda>x. x \<noteq> r) (crdt_rows s) else crdt_rows s)"
proof -
  note d = table_okD [OF assms(1)]
  have "ca_rows (cs_app s) db todos_collection_name =
      (if ok then filter (\<lambda>x. rw_id x \<noteq> rw_id r) (crdt_rows s) else crdt_rows s)"
    using d(4) assms(4) unfolding delete_laws_def crdt_rows_def by (metis fst_conv snd_conv)
  moreover have "filter (\<lambda>x. rw_id x \<noteq> rw_id r) (crdt_rows s) = filter (\<lambda>x. x \<noteq> r) (crdt_rows s)"
    using row_unique [OF d(6) _ assms(3)] by (intro filter_cong) auto
  ultimately have rows: "ca_rows (cs_app s) db todos_collection_name =
      (if ok then filter (\<lambda>x. x \<noteq> r) (crdt_rows s) else crdt_rows s)" by simp
  then show "crdt_rows (set_cdb db s) = (if ok then filter (\<lambda>x. x \<noteq> r) (crdt_rows s) else crdt_rows s)"
    by simp
  have "owned v (filter (\<lambda>x. x \<noteq> r) (crdt_rows s)) = owned v (crdt_rows s)" if "v \<noteq> u" for v
    using that assms(2) unfolding owned_def filter_filter by (intro filter_cong) auto
  then show "table_step u s (set_cdb db s)"
    using d(5) rows
    by (intro table_step_set_cdb [OF assms(1)])
      (auto simp: well_formed_rows_def distinct_map_filter only_owner_def)
qed

lemma uniq_filter: "uniq u rs \<Longrightarrow> uniq u (filter P rs)"
  by (auto simp: uniq_def)

lemma delete_stale_ok:
  assumes "table_ok s" and "\<And>r. r \<in> set rs \<Longrightarrow> r \<in> set (crdt_rows s) \<and> rw_owner r = u"
    and "distinct rs" and "delete_stale want rs s = (s', e)"
  shows "table_step u s s' \<and> (e = None \<longrightarrow>
    crdt_rows s' = filter (\<lambda>x. \<not> (x \<in> set rs \<and> rw_idem x \<notin> want)) (crdt_rows s))"
  using assms
proof (induction rs arbitrary: s)
  case Nil
  then show ?case by (auto simp: table_step_refl)
next
  case (Cons r rs)
  show ?case
  proof (cases "rw_idem r \<in> want")
    case True
    with Cons.prems(4) have run: "delete_stale want rs s = (s', e)" by simp
    from Cons.IH [OF Cons.prems(1) _ _ run] Cons.prems(2,3) True show ?thesis
      by (auto intro!: filter_cong)
  next
    case False
    obtain db ok where del: "ca_delete (cs_app s) (ca_db (cs_app s)) todos_collection_name r = (db, ok)"
      by fastforce
    have r: "rw_owner r = u" "r \<in> set (crdt_rows s)" using Cons.prems(2) by auto
    note step = delete_row_step [OF Cons.prems(1) r del]
    show ?thesis
    proof (cases ok)
      case no: False
      with Cons.prems(4) False del step(1) show ?thesis by (auto split: bool.splits)
    next
      case True
      with Cons.prems(4) False del have run: "delete_stale want rs (set_cdb db s) = (s', e)" by simp
      have ok1: "table_ok (set_cdb db s)" using step(1) by (simp add: table_step_def)
      have rs: "\<And>x. x \<in> set rs \<Longrightarrow> x \<in> set (crdt_rows (set_cdb db s)) \<and> rw_owner x = u"
        unfolding step(2) using True Cons.prems(2,3) by auto
      have "distinct rs" using Cons.prems(3) by simp
      from Cons.IH [OF ok1 rs this run] step True False show ?thesis
        by (auto intro: table_step_trans intro!: filter_cong)
    qed
  qed
qed

subsection \<open>Projecting a document\<close>

lemma owned_filter_le: "length (owned u (filter P rs)) \<le> length (owned u rs)"
  by (induction rs) (auto simp: owned_def)

lemma crdt_rows_docs [frame, simp]: "crdt_rows (s\<lparr>cs_docs := f\<rparr>) = crdt_rows s"
  by (simp add: crdt_rows_def)

lemma foldl_upd_map_add:
  "distinct (map td_id ts) \<Longrightarrow> foldl (\<lambda>m t. m(td_id t \<mapsto> (td_title t, td_completed t))) m ts =
    m ++ map_of (map (\<lambda>t. (td_id t, td_title t, td_completed t)) ts)"
proof (induction ts arbitrary: m)
  case (Cons t ts)
  then have "td_id t \<notin> dom (map_of (map (\<lambda>t. (td_id t, td_title t, td_completed t)) ts))"
    by (auto simp: dom_map_of_conv_image_fst image_iff)
  then have "m(td_id t \<mapsto> y) ++ map_of (map (\<lambda>t. (td_id t, td_title t, td_completed t)) ts) =
      (m ++ map_of (map (\<lambda>t. (td_id t, td_title t, td_completed t)) ts))(td_id t \<mapsto> y)" for y
    by (rule map_add_upd_left)
  with Cons show ?case by (simp del: fun_upd_apply)
qed simp

definition found_rows :: "rows_result \<Rightarrow> row list" where
  "found_rows f = (case f of Rows rs \<Rightarrow> rs | _ \<Rightarrow> [])"

lemma find_owned_page:
  assumes "table_ok s"
  shows "ca_find (cs_app s) (ca_db (cs_app s)) todos_collection_name [OwnerIs u] srt page_limit \<noteq> RowsErr"
    and "\<And>r. r \<in> set (found_rows (ca_find (cs_app s) (ca_db (cs_app s)) todos_collection_name [OwnerIs u] srt page_limit))
      \<Longrightarrow> r \<in> set (crdt_rows s) \<and> rw_owner r = u"
    and "distinct (found_rows (ca_find (cs_app s) (ca_db (cs_app s)) todos_collection_name [OwnerIs u] srt page_limit))"
    and "length (found_rows (ca_find (cs_app s) (ca_db (cs_app s)) todos_collection_name [OwnerIs u] srt page_limit)) =
      min page_limit (length (owned u (crdt_rows s)))"
    and "length (owned u (crdt_rows s)) \<le> page_limit \<Longrightarrow>
      set (found_rows (ca_find (cs_app s) (ca_db (cs_app s)) todos_collection_name [OwnerIs u] srt page_limit)) =
      set (owned u (crdt_rows s))"
proof -
  note d = table_okD [OF assms]
  define res where "res = ca_find (cs_app s) (ca_db (cs_app s)) todos_collection_name [OwnerIs u] srt page_limit"
  have f: "filter (matches [OwnerIs u]) (crdt_rows s) = owned u (crdt_rows s)"
    unfolding owned_def by (intro filter_cong) (auto simp: matches_def)
  from d(2,5) have law: "case res of NoRows \<Rightarrow> owned u (crdt_rows s) = [] | RowsErr \<Rightarrow> False
      | Rows rs \<Rightarrow> (if page_limit = 0 \<or> length (owned u (crdt_rows s)) \<le> page_limit
          then mset rs = mset (owned u (crdt_rows s))
          else length rs = page_limit \<and> mset rs \<subseteq># mset (owned u (crdt_rows s)))"
    unfolding find_laws_def crdt_rows_def Let_def res_def f [unfolded crdt_rows_def, symmetric] by blast
  have dist: "distinct (owned u (crdt_rows s))" using d(6) by (simp add: owned_def distinct_map)
  have sub: "mset (found_rows res) \<subseteq># mset (owned u (crdt_rows s))"
    using law by (auto simp: found_rows_def split: rows_result.splits if_splits)
  show "res \<noteq> RowsErr" using law by auto
  show "r \<in> set (crdt_rows s) \<and> rw_owner r = u" if "r \<in> set (found_rows res)" for r
  proof -
    have "r \<in># mset (owned u (crdt_rows s))"
      using mset_subset_eqD [OF sub] that by simp
    then show ?thesis by (simp add: set_owned)
  qed
  show "distinct (found_rows res)"
    using sub dist by (metis distinct_append mset_append mset_eq_imp_distinct_iff mset_subset_eq_exists_conv ex_mset)
  show "length (found_rows res) = min page_limit (length (owned u (crdt_rows s)))"
    using law by (auto simp: found_rows_def page_limit_def min_def dest: mset_eq_length
        split: rows_result.splits if_splits)
  show "set (found_rows res) = set (owned u (crdt_rows s))" if "length (owned u (crdt_rows s)) \<le> page_limit"
    using law that by (auto simp: found_rows_def dest: mset_eq_set split: rows_result.splits)
qed

lemma persist_table_step:
  assumes "table_ok s" and "persist_records u d s = (s', e)"
  shows "table_step u s s'"
proof -
  let ?b = "bump_version u s" and ?want = "read_all (cs_loro s) d"
  let ?ord = "map_iteration (cs_rank ?b u (version u ?b)) ?want"
  have b: "table_ok ?b" "table_step u s ?b"
    using assms(1) by (simp_all add: table_ok_def table_step_def)
  obtain s1 e1 where up: "upsert_all u ?ord ?b = (s1, e1)" by fastforce
  have step1: "table_step u s s1" using upsert_all_ok [OF b(1) up] b(2) by (blast intro: table_step_trans)
  then have t1: "table_ok s1" by (simp add: table_step_def)
  let ?f = "ca_find (cs_app s1) (ca_db (cs_app s1)) todos_collection_name [OwnerIs u] '''' page_limit"
  note page = find_owned_page [OF t1, where u = u and srt = "''''"]
  have run: "persist_records u d s = (if e1 \<noteq> None then (s1, e1)
      else delete_stale (td_id ` set ?want) (found_rows ?f) s1)"
    using up page(1) by (auto simp: persist_records_def Let_def found_rows_def split: rows_result.splits option.splits)
  show ?thesis
  proof (cases e1)
    case None
    with run assms(2) have del: "delete_stale (td_id ` set ?want) (found_rows ?f) s1 = (s', e)" by simp
    have "table_step u s1 s'"
      using delete_stale_ok [OF t1 page(2) page(3) del] by blast
    with step1 show ?thesis by (rule table_step_trans)
  qed (use run assms(2) step1 in simp)
qed

lemma persist_ok:
  assumes "table_ok s" and "loro_laws (cs_loro s)" and "persist_records u d s = (s', e)"
  shows "table_step u s s'"
    and "e = None \<Longrightarrow> uniq u (crdt_rows s) \<Longrightarrow>
      card (dom (idem_view (crdt_rows s) u) \<union> dom (doc_view (cs_loro s) d)) \<le> page_limit \<Longrightarrow>
      loadable (crdt_rows s') u \<and> idem_view (crdt_rows s') u = doc_view (cs_loro s) d"
proof -
  let ?L = "cs_loro s" and ?b = "bump_version u s"
  let ?want = "read_all ?L d"
  have b: "table_ok ?b" "table_step u s ?b"
    using assms(1) by (simp_all add: table_ok_def table_step_def)
  let ?ord = "map_iteration (cs_rank ?b u (version u ?b)) ?want"
  obtain s1 e1 where up: "upsert_all u ?ord ?b = (s1, e1)" by fastforce
  note ups = upsert_all_ok [OF b(1) up]
  have step1: "table_step u s s1" using ups b(2) by (blast intro: table_step_trans)
  then have t1: "table_ok s1" by (simp add: table_step_def)
  let ?f = "ca_find (cs_app s1) (ca_db (cs_app s1)) todos_collection_name [OwnerIs u] '''' page_limit"
  note page = find_owned_page [OF t1, where u = u and srt = "''''"]
  have run: "persist_records u d s = (if e1 \<noteq> None then (s1, e1)
      else delete_stale (td_id ` set ?want) (found_rows ?f) s1)"
    using up page(1) by (auto simp: persist_records_def Let_def found_rows_def split: rows_result.splits option.splits)
  show "table_step u s s'" by (rule persist_table_step [OF assms(1,3)])
  assume ok: "e = None" and un: "uniq u (crdt_rows s)"
    and bound: "card (dom (idem_view (crdt_rows s) u) \<union> dom (doc_view ?L d)) \<le> page_limit"
  have e1: "e1 = None" using run assms(3) ok by (auto split: if_splits)
  with run assms(3) have del: "delete_stale (td_id ` set ?want) (found_rows ?f) s1 = (s', e)" by simp
  have rows': "crdt_rows s' =
      filter (\<lambda>x. \<not> (x \<in> set (found_rows ?f) \<and> rw_idem x \<notin> td_id ` set ?want)) (crdt_rows s1)"
    using delete_stale_ok [OF t1 page(2) page(3) del] ok by blast
  have dist: "distinct (map td_id ?ord)" using read_all_view(1) [OF assms(2)] by simp
  have map_of: "map_of (map (\<lambda>t. (td_id t, td_title t, td_completed t)) ?ord) =
      map_of (map (\<lambda>t. (td_id t, td_title t, td_completed t)) ?want)"
    by (subst map_of_inject_set) (use dist read_all_view(1) [OF assms(2)] in \<open>simp_all add: comp_def\<close>)
  have un1: "uniq u (crdt_rows s1)"
    and view1: "idem_view (crdt_rows s1) u = idem_view (crdt_rows s) u ++ doc_view ?L d"
    using ups e1 un foldl_upd_map_add [OF dist] map_of
    by (simp_all add: doc_view_map_of [OF assms(2)])
  have "length (owned u (crdt_rows s1)) = card (dom (idem_view (crdt_rows s1) u))"
    using card_idem_view [OF table_okD(6) [OF t1] un1] by simp
  also have "\<dots> \<le> page_limit" using bound by (simp add: view1 Un_commute)
  finally have len: "length (owned u (crdt_rows s1)) \<le> page_limit" .
  note all = page(5) [OF len]
  have un': "uniq u (crdt_rows s')" using un1 by (simp add: rows' uniq_filter)
  have dom_want: "td_id ` set ?want = dom (doc_view ?L d)" by (simp add: dom_doc_view [OF assms(2)])
  have "idem_view (crdt_rows s') u = doc_view ?L d"
  proof (rule map_eqI)
    fix k y
    have "idem_view (crdt_rows s') u k = Some y \<longleftrightarrow>
        (\<exists>r \<in> set (crdt_rows s1). k \<in> dom (doc_view ?L d) \<and> rw_idem r = k \<and> rw_owner r = u \<and>
          y = (rw_title r, rw_completed r))"
      unfolding idem_view_Some [OF un'] unfolding rows' dom_want [symmetric]
      by (auto simp: all set_owned)
    also have "\<dots> \<longleftrightarrow> k \<in> dom (doc_view ?L d) \<and> idem_view (crdt_rows s1) u k = Some y"
      unfolding idem_view_Some [OF un1] by blast
    also have "\<dots> \<longleftrightarrow> doc_view ?L d k = Some y"
      unfolding view1 by (auto simp: map_add_def split: option.splits)
    finally show "idem_view (crdt_rows s') u k = Some y \<longleftrightarrow> doc_view ?L d k = Some y" .
  qed
  moreover have "length (owned u (crdt_rows s')) \<le> length (owned u (crdt_rows s1))"
    unfolding rows' by (rule owned_filter_le)
  ultimately show "loadable (crdt_rows s') u \<and> idem_view (crdt_rows s') u = doc_view ?L d"
    using un' len by (simp add: loadable_def)
qed

subsection \<open>Loading a document\<close>

lemma rehydrate_ok:
  assumes "loro_laws L" and "uniq u rs" and "\<And>r. r \<in> set rs \<Longrightarrow> rw_owner r = u" and "distinct rs"
  shows "\<exists>d'. rehydrate L now rs d = (d', True) \<and> doc_view L d' = doc_view L d ++ idem_view rs u \<and>
    (children_only L d \<longrightarrow> children_only L d')"
  using assms(2-4)
proof (induction rs arbitrary: d)
  case Nil
  then show ?case by (simp add: idem_view_def map_add_def)
next
  case (Cons r rs)
  obtain d1 b where ins: "lo_insert_map L (rw_idem r) d = (d1, b)" by fastforce
  from insert_item_ok(1) [OF assms(1) ins]
    insert_item_ok(2) [OF assms(1) ins, where now = now and t = "todo_from_record r"] obtain d2 m where
    b: "b" and d2: "write_item L now (rw_idem r) (todo_from_record r) d1 = (d2, True)"
      "lo_items L d2 = (lo_items L d)(rw_idem r \<mapsto> Child m)" "item_core m = (rw_title r, rw_completed r)"
    by (auto simp: todo_from_record_def)
  have un: "uniq u rs" using Cons.prems(1) by (auto simp: uniq_def)
  from Cons.IH [of d2] un Cons.prems(2,3) obtain d' where
    IH: "rehydrate L now rs d2 = (d', True)" "doc_view L d' = doc_view L d2 ++ idem_view rs u"
      "children_only L d2 \<longrightarrow> children_only L d'" by auto
  have no: "idem_view rs u (rw_idem r) = None"
    using Cons.prems by (auto simp: idem_view_None uniq_def)
  have "doc_view L d' = doc_view L d ++ idem_view (r # rs) u"
  proof
    fix k
    show "doc_view L d' k = (doc_view L d ++ idem_view (r # rs) u) k"
      using no Cons.prems(2) [of r] IH(2) doc_view_upd [OF d2(2)] d2(3)
      by (cases "k = rw_idem r") (auto simp: map_add_def idem_view_def split: option.splits)
  qed
  then show ?case
    using IH b ins d2(1) children_only_upd [OF d2(2)] by simp
qed

text \<open>The store's invariant: usable table, lawful library, documents hold child maps only, and the
  rows of every owner whose document is not loaded fit one page with distinct keys.\<close>

definition crdt_inv :: "('db, 'd, 'js) crdt_store \<Rightarrow> bool" where
  "crdt_inv s \<longleftrightarrow> table_ok s \<and> loro_laws (cs_loro s) \<and>
     (\<forall>u d. cs_docs s u = Some d \<longrightarrow> children_only (cs_loro s) d) \<and>
     (\<forall>u. u \<noteq> '''' \<and> cs_docs s u = None \<longrightarrow> loadable (crdt_rows s) u)"

definition crdt_view :: "('db, 'd, 'js) crdt_store \<Rightarrow> string \<Rightarrow> string \<rightharpoonup> string \<times> bool" where
  "crdt_view s u = (case cs_docs s u of
     Some d \<Rightarrow> doc_view (cs_loro s) d | None \<Rightarrow> idem_view (crdt_rows s) u)"

lemma crdt_invD:
  assumes "crdt_inv s"
  shows "table_ok s" "loro_laws (cs_loro s)" "cs_docs s u = Some d \<Longrightarrow> children_only (cs_loro s) d"
    "u \<noteq> '''' \<Longrightarrow> cs_docs s u = None \<Longrightarrow> loadable (crdt_rows s) u"
  using assms by (auto simp: crdt_inv_def)

lemma doc_ok:
  assumes "crdt_inv s" and "u \<noteq> ''''"
  shows "\<exists>s1 d. doc u s = (s1, Inr d) \<and> s1 = s\<lparr>cs_docs := (cs_docs s)(u \<mapsto> d)\<rparr> \<and> cs_docs s1 u = Some d \<and>
    crdt_inv s1 \<and> crdt_view s1 = crdt_view s \<and> doc_view (cs_loro s) d = crdt_view s u \<and>
    children_only (cs_loro s) d"
proof (cases "cs_docs s u")
  case (Some d)
  then have "s\<lparr>cs_docs := (cs_docs s)(u \<mapsto> d)\<rparr> = s" by (simp add: fun_upd_idem)
  with Some assms show ?thesis by (auto simp: doc_def crdt_view_def crdt_inv_def)
next
  case None
  note i = crdt_invD [OF assms(1)]
  let ?f = "ca_find (cs_app s) (ca_db (cs_app s)) todos_collection_name [OwnerIs u] ''-created'' page_limit"
  note page = find_owned_page [OF i(1), where u = u and srt = "''-created''"]
  have load: "uniq u (crdt_rows s)" "length (owned u (crdt_rows s)) \<le> page_limit"
    using i(4) [OF assms(2) None] by (auto simp: loadable_def)
  have un: "uniq u (found_rows ?f)" using load(1) page(2) by (auto simp: uniq_def)
  from rehydrate_ok [OF i(2) un _ page(3), of "cs_clock s" "lo_new (cs_loro s)"] page(2)
  obtain d where d: "rehydrate (cs_loro s) (cs_clock s) (found_rows ?f) (lo_new (cs_loro s)) = (d, True)"
    "doc_view (cs_loro s) d = doc_view (cs_loro s) (lo_new (cs_loro s)) ++ idem_view (found_rows ?f) u"
    "children_only (cs_loro s) (lo_new (cs_loro s)) \<longrightarrow> children_only (cs_loro s) d" by auto
  have "doc_view (cs_loro s) (lo_new (cs_loro s)) = Map.empty"
    by (simp add: doc_view_def fun_eq_iff loroD(1) [OF i(2)])
  moreover have "idem_view (found_rows ?f) u = idem_view (crdt_rows s) u"
    by (rule map_eqI) (auto simp: idem_view_Some [OF un] idem_view_Some [OF load(1)] page(5) [OF load(2)] set_owned)
  ultimately have view: "doc_view (cs_loro s) d = idem_view (crdt_rows s) u" using d(2) by simp
  have co: "children_only (cs_loro s) d"
    using d(3) loroD(1) [OF i(2)] by (simp add: children_only_def)
  let ?s1 = "s\<lparr>cs_docs := (cs_docs s)(u \<mapsto> d)\<rparr>"
  have run: "doc u s = (?s1, Inr d)"
    using None d(1) page(1) by (auto simp: doc_def Let_def found_rows_def set_doc_def split: rows_result.splits)
  moreover have "crdt_view ?s1 = crdt_view s"
    using None view by (auto simp: crdt_view_def fun_eq_iff split: option.splits)
  moreover have "crdt_inv ?s1"
    using assms(1) co by (auto simp: crdt_inv_def table_ok_def split: if_splits)
  ultimately show ?thesis using None view co by (auto simp: crdt_view_def)
qed

subsection \<open>The operations keep the contract\<close>

text \<open>The owner's todos in the table are exactly those of the loaded document.\<close>

definition synced :: "('db, 'd, 'js) crdt_store \<Rightarrow> string \<Rightarrow> bool" where
  "synced s u \<longleftrightarrow> loadable (crdt_rows s) u \<and> idem_view (crdt_rows s) u = crdt_view s u"

lemma commit_ok:
  assumes "crdt_inv s" and "cs_docs s u \<noteq> None" and "children_only (cs_loro s) d"
    and "persist_records u d (set_doc u d s) = (s', e)"
  shows "crdt_inv s'" "cs_loro s' = cs_loro s" "cs_docs s' = (cs_docs s)(u \<mapsto> d)"
    "v \<noteq> u \<Longrightarrow> crdt_view s' v = crdt_view s v" "crdt_view s' u = doc_view (cs_loro s) d"
    "e = None \<Longrightarrow> uniq u (crdt_rows s) \<Longrightarrow>
      card (dom (idem_view (crdt_rows s) u) \<union> dom (doc_view (cs_loro s) d)) \<le> page_limit \<Longrightarrow> synced s' u"
proof -
  note i = crdt_invD [OF assms(1)]
  have t: "table_ok (set_doc u d s)" "loro_laws (cs_loro (set_doc u d s))"
    using i(1,2) by (simp_all add: table_ok_def)
  note p = persist_ok [OF t assms(4)]
  then have st: "cs_docs s' = (cs_docs s)(u \<mapsto> d)" "cs_loro s' = cs_loro s" "table_ok s'"
    "only_owner u (crdt_rows s) (crdt_rows s')"
    by (simp_all add: table_step_def)
  note oo = only_ownerD [OF st(4)]
  show "cs_loro s' = cs_loro s" "cs_docs s' = (cs_docs s)(u \<mapsto> d)" by (rule st)+
  show "crdt_inv s'"
    using i(2,3) assms(3) st oo(2) i(4) by (auto simp: crdt_inv_def split: if_splits)
  show "crdt_view s' v = crdt_view s v" if "v \<noteq> u"
    using that st oo(1) [OF that] by (auto simp: crdt_view_def split: option.splits)
  show view: "crdt_view s' u = doc_view (cs_loro s) d" using st by (simp add: crdt_view_def)
  show "synced s' u" if "e = None" "uniq u (crdt_rows s)"
    "card (dom (idem_view (crdt_rows s) u) \<union> dom (doc_view (cs_loro s) d)) \<le> page_limit"
    using p(2) that view by (simp add: synced_def)
qed

lemma publish_view [simp]:
  "crdt_inv (publish_op_from_doc u i d s) = crdt_inv s" "crdt_view (publish_op_from_doc u i d s) = crdt_view s"
  "synced (publish_op_from_doc u i d s) = synced s"
  by (simp_all add: crdt_inv_def crdt_view_def table_ok_def synced_def fun_eq_iff split: option.splits)

text \<open>
  What a call of \<open>doc\<close> followed by a change of the owner's document to \<open>d'\<close> and its persistence
  yields: every mutation below is an instance.
\<close>

lemma mutate_ok:
  assumes "crdt_inv s" and "u \<noteq> ''''" and "doc u s = (s1, Inr d)" and "children_only (cs_loro s) d'"
    and "persist_records u d' (set_doc u d' s1) = (s2, e)"
  shows "crdt_inv s2" "cs_loro s2 = cs_loro s" "v \<noteq> u \<Longrightarrow> crdt_view s2 v = crdt_view s v"
    "crdt_view s2 u = doc_view (cs_loro s) d'"
    "e = None \<Longrightarrow> synced s u \<Longrightarrow> card (dom (crdt_view s u) \<union> dom (doc_view (cs_loro s) d')) \<le> page_limit \<Longrightarrow>
      synced s2 u"
proof -
  from doc_ok [OF assms(1,2)] assms(3) have s1: "s1 = s\<lparr>cs_docs := (cs_docs s)(u \<mapsto> d)\<rparr>"
    "crdt_inv s1" "crdt_view s1 = crdt_view s" by auto
  then have d: "cs_docs s1 u \<noteq> None" and L: "cs_loro s1 = cs_loro s" and r: "crdt_rows s1 = crdt_rows s" by simp_all
  note c = commit_ok [OF s1(2) d _ assms(5), unfolded L r, OF assms(4)]
  from c(1,2) s1(3) show "crdt_inv s2" "cs_loro s2 = cs_loro s" by simp_all
  from c(4) s1(3) show "v \<noteq> u \<Longrightarrow> crdt_view s2 v = crdt_view s v" by simp
  from c(5) show "crdt_view s2 u = doc_view (cs_loro s) d'" .
  from c(6) show "e = None \<Longrightarrow> synced s u \<Longrightarrow>
      card (dom (crdt_view s u) \<union> dom (doc_view (cs_loro s) d')) \<le> page_limit \<Longrightarrow> synced s2 u"
    by (simp add: synced_def loadable_def)
qed

lemma crdt_create_ok:
  assumes "crdt_inv s" and "u \<noteq> ''''" and "crdt_create e u k s = (s', r)"
  shows "crdt_inv s' \<and> (\<forall>v. v \<noteq> u \<longrightarrow> crdt_view s' v = crdt_view s v) \<and>
    (\<forall>t. r = Inr t \<longrightarrow> td_id t = td_id e \<and>
      crdt_view s' u = (crdt_view s u)(td_id t \<mapsto> (td_title t, td_completed t)) \<and>
      (if crdt_view s u (td_id t) = None then td_title t = td_title e \<and> td_completed t = td_completed e
       else crdt_view s' u = crdt_view s u) \<and>
      (synced s u \<and> card (dom (crdt_view s' u)) \<le> page_limit \<longrightarrow> synced s' u))"
proof (cases "td_id e = ''''")
  case True
  with assms show ?thesis by (auto simp: crdt_create_def)
next
  case False
  let ?L = "cs_loro s"
  note i = crdt_invD [OF assms(1)]
  from doc_ok [OF assms(1,2)] obtain s1 d where run: "doc u s = (s1, Inr d)" and
    s1: "s1 = s\<lparr>cs_docs := (cs_docs s)(u \<mapsto> d)\<rparr>" "crdt_inv s1" "crdt_view s1 = crdt_view s" and
    d: "doc_view ?L d = crdt_view s u" "children_only ?L d"
    by blast
  have fr: "cs_loro s1 = ?L" "cs_clock s1 = cs_clock s" "crdt_rows s1 = crdt_rows s" using s1(1) by simp_all
  show ?thesis
  proof (cases "find_item ?L (td_id e) d")
    case (Some t)
    with find_item_view [OF i(2), of d "td_id e"] d(1)
    have "td_id t = td_id e" "crdt_view s u (td_id e) = Some (td_title t, td_completed t)" by auto
    with Some assms False run fr s1(2,3) show ?thesis
      by (auto simp: crdt_create_def Let_def fun_upd_idem synced_def)
  next
    case None
    then have new: "crdt_view s u (td_id e) = None" using find_item_view [OF i(2), of d "td_id e"] d(1) by simp
    obtain d1 b where ins: "lo_insert_map ?L (td_id e) d = (d1, b)" by fastforce
    from insert_item_ok(1) [OF i(2) ins] insert_item_ok(2) [OF i(2) ins, where now = "cs_clock s" and t = e]
    obtain d2 m where b: "b" and w: "write_item ?L (cs_clock s) (td_id e) e d1 = (d2, True)"
      "lo_items ?L d2 = (lo_items ?L d)(td_id e \<mapsto> Child m)" "item_core m = (td_title e, td_completed e)"
      by auto
    have v2: "doc_view ?L d2 = (crdt_view s u)(td_id e \<mapsto> (td_title e, td_completed e))"
      using doc_view_upd [OF w(2)] w(3) d(1) by simp
    obtain s2 er where p: "persist_records u d2 (set_doc u d2 s1) = (s2, er)" by fastforce
    note c = mutate_ok [OF assms(1,2) run children_only_upd [OF w(2) d(2)] p]
    from find_item_view [OF i(2), of d2 "td_id e"] v2 obtain t where
      t: "find_item ?L (td_id e) d2 = Some t" "td_id t = td_id e" "td_title t = td_title e"
        "td_completed t = td_completed e"
      by (auto split: option.splits)
    have out: "(s', r) = (case er of Some x \<Rightarrow> (s2, Inl x)
        | None \<Rightarrow> (publish_op_from_doc u (''create-'' @ td_id e) d2 s2, Inr t))"
      using assms False run None ins b w(1) p t(1) fr by (simp add: crdt_create_def Let_def split: option.splits)
    have "dom (crdt_view s u) \<union> dom (doc_view ?L d2) = dom (crdt_view s2 u)"
      using c(4) v2 by auto
    then show ?thesis
      using out c t v2 new by (auto split: option.splits)
  qed
qed

text \<open>Persisting never reports not-found.\<close>

lemma upsert_all_not_found: "upsert_all u ts s = (s', e) \<Longrightarrow> e \<noteq> Some ErrNotFound"
  by (induction ts arbitrary: s)
    (auto simp: upsert_todo_record_def Let_def split: col_result.splits prod.splits option.splits)

lemma delete_stale_not_found: "delete_stale w rs s = (s', e) \<Longrightarrow> e \<noteq> Some ErrNotFound"
  by (induction rs arbitrary: s) (auto split: if_splits prod.splits bool.splits)

lemma persist_not_found: "persist_records u d s = (s', e) \<Longrightarrow> e \<noteq> Some ErrNotFound"
  by (auto simp: persist_records_def Let_def split: prod.splits option.splits rows_result.splits
      dest: upsert_all_not_found delete_stale_not_found)

lemma patch_fields_core:
  assumes "patch_known p"
  shows "item_core (foldl (\<lambda>m (f, v). m(f \<mapsto> v)) m (map (\<lambda>(k, v). (k, lval_of v)) p)) =
    patch_item p (item_core m)"
proof -
  have "\<forall>kv \<in> set p. (\<exists>s. kv = (''title'', PStr s)) \<or> (\<exists>b. kv = (''completed'', PBool b))"
    using assms by (simp add: patch_known_def)
  then show ?thesis
  proof (induction p arbitrary: m)
    case (Cons kv p)
    from Cons.prems consider s where "kv = (''title'', PStr s)" | b where "kv = (''completed'', PBool b)"
      by auto
    then show ?case
    proof cases
      case (1 s)
      with Cons.IH [of "m(''title'' \<mapsto> LStr s)"] Cons.prems show ?thesis
        by (simp add: item_core_def get_string_def get_bool_def del: fun_upd_apply) simp
    next
      case (2 b)
      with Cons.IH [of "m(''completed'' \<mapsto> LBool b)"] Cons.prems show ?thesis
        by (simp add: item_core_def get_string_def get_bool_def del: fun_upd_apply) simp
    qed
  qed simp
qed

lemma crdt_update_ok:
  assumes "crdt_inv s" and "u \<noteq> ''''" and "i \<noteq> ''''" and "patch_known p" and "crdt_update u i p s = (s', r)"
  shows "crdt_inv s' \<and> (\<forall>v. v \<noteq> u \<longrightarrow> crdt_view s' v = crdt_view s v) \<and>
    (case r of
       Inl e \<Rightarrow> e = ErrNotFound \<longrightarrow> crdt_view s u i = None \<and> crdt_view s' u = crdt_view s u
     | Inr t \<Rightarrow> td_id t = i \<and> crdt_view s u i \<noteq> None \<and>
         (td_title t, td_completed t) = patch_item p (the (crdt_view s u i)) \<and>
         crdt_view s' u = (crdt_view s u)(i \<mapsto> patch_item p (the (crdt_view s u i))) \<and>
         (synced s u \<and> card (dom (crdt_view s' u)) \<le> page_limit \<longrightarrow> synced s' u))"
proof -
  let ?L = "cs_loro s"
  note iv = crdt_invD [OF assms(1)]
  from doc_ok [OF assms(1,2)] obtain s1 d where run: "doc u s = (s1, Inr d)" and
    s1: "s1 = s\<lparr>cs_docs := (cs_docs s)(u \<mapsto> d)\<rparr>" "crdt_inv s1" "crdt_view s1 = crdt_view s" and
    d: "doc_view ?L d = crdt_view s u" "children_only ?L d"
    by blast
  have fr: "cs_loro s1 = ?L" "cs_clock s1 = cs_clock s" using s1(1) by simp_all
  show ?thesis
  proof (cases "find_item ?L i d")
    case None
    with find_item_view [OF iv(2), of d i] d(1) have "crdt_view s u i = None" by simp
    with None assms run fr s1(2,3) show ?thesis by (auto simp: crdt_update_def Let_def)
  next
    case (Some t0)
    then obtain m where m: "lo_items ?L d i = Some (Child m)"
      by (auto simp: find_item_def loroD(2) [OF iv(2)] split: option.splits lentry.splits)
    then have vi: "crdt_view s u i = Some (item_core m)" using d(1) [symmetric] by (simp add: doc_view_def)
    let ?m1 = "foldl (\<lambda>m (f, v). m(f \<mapsto> v)) m (map (\<lambda>(k, v). (k, lval_of v)) p)"
    from put_fields_ok [OF iv(2) m, of "map (\<lambda>(k, v). (k, lval_of v)) p"] obtain d1 where
      d1: "put_fields ?L i (map (\<lambda>(k, v). (k, lval_of v)) p) d = (d1, True)"
        "lo_items ?L d1 = (lo_items ?L d)(i \<mapsto> Child ?m1)" by blast
    then have at: "lo_items ?L d1 i = Some (Child ?m1)" by simp
    let ?m2 = "?m1(''updated'' \<mapsto> LStamp (cs_clock s))"
    obtain d2 ok where d2: "lo_put ?L i ''updated'' (LStamp (cs_clock s)) d1 = (d2, ok)" by fastforce
    with loroD(5) [OF iv(2) at, of "''updated''" "LStamp (cs_clock s)"]
      loroD(6) [OF iv(2) at, of "''updated''" "LStamp (cs_clock s)"]
    have ok: "ok" and items2: "lo_items ?L d2 = (lo_items ?L d)(i \<mapsto> Child ?m2)"
      by (simp_all add: d1(2) del: fun_upd_apply)
    have core2: "item_core ?m2 = patch_item p (item_core m)"
      using patch_fields_core [OF assms(4), of m] by (simp add: item_core_def get_string_def get_bool_def)
    have v2: "doc_view ?L d2 = (crdt_view s u)(i \<mapsto> patch_item p (item_core m))"
      using doc_view_upd [OF items2] core2 d(1) by simp
    obtain s2 er where p: "persist_records u d2 (set_doc u d2 s1) = (s2, er)" by fastforce
    note c = mutate_ok [OF assms(1,2) run children_only_upd [OF items2 d(2)] p]
    from find_item_view [OF iv(2), of d2 i] v2 obtain t where
      t: "find_item ?L i d2 = Some t" "td_id t = i" "(td_title t, td_completed t) = patch_item p (item_core m)"
      by (auto split: option.splits)
    have out: "(s', r) = (case er of Some x \<Rightarrow> (s2, Inl x)
        | None \<Rightarrow> (publish_op_from_doc u (''update-'' @ i) d2 s2, Inr t))"
      using assms run Some d1(1) d2 ok p t(1) fr by (simp add: crdt_update_def Let_def split: option.splits)
    have "dom (crdt_view s u) \<union> dom (doc_view ?L d2) = dom (crdt_view s2 u)"
      using c(4) v2 by auto
    moreover have "er \<noteq> Some ErrNotFound"
      using p by (rule persist_not_found)
    ultimately show ?thesis
      using out c t v2 vi by (auto split: option.splits simp del: fun_upd_apply)
  qed
qed

lemma crdt_delete_ok:
  assumes "crdt_inv s" and "u \<noteq> ''''" and "i \<noteq> ''''" and "crdt_delete u i s = (s', r)"
  shows "crdt_inv s' \<and> (\<forall>v. v \<noteq> u \<longrightarrow> crdt_view s' v = crdt_view s v) \<and>
    (r = Inr () \<longrightarrow> crdt_view s' u = (crdt_view s u)(i := None) \<and>
      (synced s u \<longrightarrow> synced s' u)) \<and>
    (r = Inl ErrNotFound \<longrightarrow> crdt_view s u i = None \<and> crdt_view s' u = crdt_view s u)"
proof -
  let ?L = "cs_loro s"
  note iv = crdt_invD [OF assms(1)]
  from doc_ok [OF assms(1,2)] obtain s1 d where run: "doc u s = (s1, Inr d)" and
    s1: "s1 = s\<lparr>cs_docs := (cs_docs s)(u \<mapsto> d)\<rparr>" "crdt_inv s1" "crdt_view s1 = crdt_view s" and
    d: "doc_view ?L d = crdt_view s u" "children_only ?L d"
    by blast
  have fr: "cs_loro s1 = ?L" using s1(1) by simp
  show ?thesis
  proof (cases "lo_items ?L d i")
    case None
    then have "crdt_view s u i = None" using d(1) [symmetric] by (simp add: doc_view_def)
    with None assms run fr s1(2,3) loroD(2) [OF iv(2)] show ?thesis
      by (auto simp: crdt_delete_def Let_def)
  next
    case (Some en)
    obtain d1 ok where d1: "lo_delete ?L i d = (d1, ok)" by fastforce
    with Some loroD(7) [OF iv(2), of d i] loroD(8) [OF iv(2), of d i]
    have ok: "ok" and items: "lo_items ?L d1 = (lo_items ?L d)(i := None)" by auto
    have v1: "doc_view ?L d1 = (crdt_view s u)(i := None)" using doc_view_del [OF items] d(1) by simp
    obtain s2 er where p: "persist_records u d1 (set_doc u d1 s1) = (s2, er)" by fastforce
    note c = mutate_ok [OF assms(1,2) run children_only_del [OF items d(2)] p]
    have out: "(s', r) = (case er of Some x \<Rightarrow> (s2, Inl x)
        | None \<Rightarrow> (publish_op_from_doc u (''delete-'' @ i) d1 s2, Inr ()))"
      using assms run Some d1 ok p fr loroD(2) [OF iv(2)]
      by (simp add: crdt_delete_def Let_def split: option.splits)
    have bound: "card (dom (crdt_view s u) \<union> dom (doc_view ?L d1)) \<le> page_limit" if "synced s u"
    proof -
      have "dom (crdt_view s u) \<union> dom (doc_view ?L d1) = dom (idem_view (crdt_rows s) u)"
        using that v1 by (auto simp: synced_def)
      moreover have "card (dom (idem_view (crdt_rows s) u)) = length (owned u (crdt_rows s))"
      proof -
        have un: "uniq u (crdt_rows s)" using that by (simp add: synced_def loadable_def)
        show ?thesis by (rule card_idem_view [OF table_okD(6) [OF iv(1)] un])
      qed
      ultimately show ?thesis using that by (simp add: synced_def loadable_def)
    qed
    have "er \<noteq> Some ErrNotFound" using p by (rule persist_not_found)
    then show ?thesis using out c v1 bound by (auto split: option.splits)
  qed
qed

lemma delete_items_ok:
  assumes "loro_laws L" and "distinct is" and "\<And>i. i \<in> set is \<Longrightarrow> lo_items L d i \<noteq> None"
  shows "\<exists>d'. delete_items L is d = (d', True) \<and>
    lo_items L d' = (\<lambda>i. if i \<in> set is then None else lo_items L d i)"
  using assms(2,3)
proof (induction "is" arbitrary: d)
  case (Cons i "is")
  obtain d1 ok where d1: "lo_delete L i d = (d1, ok)" by fastforce
  with Cons.prems(2) [of i] loroD(7) [OF assms(1), of d i] loroD(8) [OF assms(1), of d i]
  have ok: "ok" and items: "lo_items L d1 = (lo_items L d)(i := None)" by auto
  have "lo_items L d1 j \<noteq> None" if "j \<in> set is" for j
    using Cons.prems that items by auto
  with Cons.IH [of d1] Cons.prems(1) obtain d' where
    "delete_items L is d1 = (d', True)" "lo_items L d' = (\<lambda>j. if j \<in> set is then None else lo_items L d1 j)"
    by auto
  then show ?case using d1 ok items by (auto simp: fun_eq_iff)
qed simp

lemma completed_ids_view:
  assumes "loro_laws L"
  shows "distinct (completed_ids L d)" "set (completed_ids L d) = {i. \<exists>x. doc_view L d i = Some (x, True)}"
    "length (completed_ids L d) = card {i. \<exists>x. doc_view L d i = Some (x, True)}"
proof -
  show d: "distinct (completed_ids L d)"
    using read_all_view(1) [OF assms] by (simp add: completed_ids_def distinct_map_filter)
  show s: "set (completed_ids L d) = {i. \<exists>x. doc_view L d i = Some (x, True)}"
    by (auto simp: completed_ids_def read_all_view(2) [OF assms])
  show "length (completed_ids L d) = card {i. \<exists>x. doc_view L d i = Some (x, True)}"
    using distinct_card [OF d] s by simp
qed

lemma crdt_clear_ok:
  assumes "crdt_inv s" and "u \<noteq> ''''" and "crdt_clear_completed u s = (s', n, e)"
  shows "crdt_inv s' \<and> (\<forall>v. v \<noteq> u \<longrightarrow> crdt_view s' v = crdt_view s v) \<and>
    (e = None \<longrightarrow> n = card {i. \<exists>x. crdt_view s u i = Some (x, True)} \<and>
      crdt_view s' u = (\<lambda>i. case crdt_view s u i of
        Some (x, c) \<Rightarrow> if c then None else Some (x, c) | None \<Rightarrow> None))"
proof -
  let ?L = "cs_loro s"
  note iv = crdt_invD [OF assms(1)]
  from doc_ok [OF assms(1,2)] obtain s1 d where run: "doc u s = (s1, Inr d)" and
    s1: "s1 = s\<lparr>cs_docs := (cs_docs s)(u \<mapsto> d)\<rparr>" "crdt_inv s1" "crdt_view s1 = crdt_view s" and
    d: "doc_view ?L d = crdt_view s u" "children_only ?L d"
    by blast
  have fr: "cs_loro s1 = ?L" using s1(1) by simp
  note ci = completed_ids_view [OF iv(2), of d]
  have "lo_items ?L d i \<noteq> None" if "i \<in> set (completed_ids ?L d)" for i
    using that ci(2) by (auto simp: doc_view_def split: option.splits)
  from delete_items_ok [OF iv(2) ci(1) this] obtain d1 where
    d1: "delete_items ?L (completed_ids ?L d) d = (d1, True)"
      "lo_items ?L d1 = (\<lambda>i. if i \<in> set (completed_ids ?L d) then None else lo_items ?L d i)" by blast
  have co: "children_only ?L d1" using d(2) d1(2) by (simp add: children_only_def)
  have v1: "doc_view ?L d1 = (\<lambda>i. case crdt_view s u i of
      Some (x, c) \<Rightarrow> if c then None else Some (x, c) | None \<Rightarrow> None)" (is "_ = ?cleared")
  proof
    fix i
    show "doc_view ?L d1 i = ?cleared i"
      using ci(2) d(1) [symmetric]
      by (auto simp: doc_view_def d1(2) split: option.splits lentry.splits prod.splits if_splits)
  qed
  show ?thesis
  proof (cases "0 < length (completed_ids ?L d)")
    case True
    obtain s2 er where p: "persist_records u d1 (set_doc u d1 s1) = (s2, er)" by fastforce
    note c = mutate_ok [OF assms(1,2) run co p]
    have out: "(s', n, e) = (case er of Some x \<Rightarrow> (s2, length (completed_ids ?L d), Some x)
        | None \<Rightarrow> (publish_op_from_doc u ''clear-completed'' d1 s2, length (completed_ids ?L d), None))"
      using assms run True d1(1) p fr by (simp add: crdt_clear_completed_def Let_def split: option.splits)
    then show ?thesis using c v1 ci(3) d(1) by (auto split: option.splits)
  next
    case False
    then have "completed_ids ?L d = []" by simp
    with d1(1) have "d1 = d" by simp
    with assms run False d1(1) fr have out: "s' = set_doc u d s1" "n = 0" "e = None"
      by (auto simp: crdt_clear_completed_def Let_def)
    have "set_doc u d s1 = s1" using s1(1) by (simp add: set_doc_def)
    moreover have "?cleared = crdt_view s u" using v1 \<open>d1 = d\<close> d(1) by simp
    ultimately show ?thesis using out s1(2,3) ci(3) d(1) False by simp
  qed
qed

lemma crdt_get_ok:
  assumes "crdt_inv s" and "u \<noteq> ''''" and "i \<noteq> ''''" and "crdt_get u i s = (s', r)"
  shows "crdt_inv s' \<and> crdt_view s' = crdt_view s \<and>
    (case r of Inl e \<Rightarrow> e = ErrNotFound \<and> crdt_view s u i = None
     | Inr t \<Rightarrow> td_id t = i \<and> crdt_view s u i = Some (td_title t, td_completed t))"
proof -
  from doc_ok [OF assms(1,2)] obtain s1 d where run: "doc u s = (s1, Inr d)" and
    s1: "s1 = s\<lparr>cs_docs := (cs_docs s)(u \<mapsto> d)\<rparr>" "crdt_inv s1" "crdt_view s1 = crdt_view s" and
    d: "doc_view (cs_loro s) d = crdt_view s u" by blast
  have "cs_loro s1 = cs_loro s" using s1(1) by simp
  with run s1 assms find_item_view [OF crdt_invD(2) [OF assms(1)], of d i] d show ?thesis
    by (auto simp: crdt_get_def split: option.splits)
qed

lemma crdt_list_ok:
  assumes "crdt_inv s" and "u \<noteq> ''''" and "crdt_list u flt s = (s', r)"
  shows "crdt_inv s' \<and> crdt_view s' = crdt_view s \<and>
    (\<exists>ts. r = Inr ts \<and> distinct (map td_id ts) \<and>
      (\<forall>i x c. (\<exists>t \<in> set ts. td_id t = i \<and> td_title t = x \<and> td_completed t = c) \<longleftrightarrow>
         crdt_view s u i = Some (x, c) \<and> keeps flt c))"
proof -
  from doc_ok [OF assms(1,2)] obtain s1 d where run: "doc u s = (s1, Inr d)" and
    s1: "s1 = s\<lparr>cs_docs := (cs_docs s)(u \<mapsto> d)\<rparr>" "crdt_inv s1" "crdt_view s1 = crdt_view s" and
    d: "doc_view (cs_loro s) d = crdt_view s u" by blast
  have L: "cs_loro s1 = cs_loro s" using s1(1) by simp
  note v = read_all_view [OF crdt_invD(2) [OF assms(1)], where d = d]
  have "r = Inr (filter (\<lambda>t. keeps flt (td_completed t)) (read_all (cs_loro s) d))" and "s' = s1"
    using assms(2,3) run L by (auto simp: crdt_list_def keeps_def)
  then show ?thesis
    using s1(2,3) v(1) d by (auto simp: distinct_map_filter v(2) [unfolded d])
qed

lemma crdt_count_ok:
  assumes "crdt_inv s" and "u \<noteq> ''''" and "crdt_count u s = (s', r)"
  shows "crdt_inv s' \<and> crdt_view s' = crdt_view s \<and> r = Inr (card (dom (crdt_view s u)))"
proof -
  from doc_ok [OF assms(1,2)] obtain s1 d where run: "doc u s = (s1, Inr d)" and
    s1: "s1 = s\<lparr>cs_docs := (cs_docs s)(u \<mapsto> d)\<rparr>" "crdt_inv s1" "crdt_view s1 = crdt_view s" and
    d: "doc_view (cs_loro s) d = crdt_view s u" "children_only (cs_loro s) d" by blast
  have L: "cs_loro s1 = cs_loro s" using s1(1) by simp
  show ?thesis
    using run s1 L assms card_children [OF crdt_invD(2) [OF assms(1)] d(2)] d(1)
    by (auto simp: crdt_count_def)
qed

interpretation crdt: entity_store crdt_inv crdt_view crdt_create crdt_get crdt_list crdt_update crdt_delete
  crdt_clear_completed crdt_count
proof
  show "crdt_inv s' \<and> (\<forall>v. v \<noteq> u \<longrightarrow> crdt_view s' v = crdt_view s v) \<and>
      (\<forall>t. r = Inr t \<longrightarrow> crdt_view s' u = (crdt_view s u)(td_id t \<mapsto> (td_title t, td_completed t)) \<and>
        (if crdt_view s u (td_id t) = None then td_title t = td_title e \<and> td_completed t = td_completed e
         else crdt_view s' u = crdt_view s u))"
    if "crdt_inv s" "u \<noteq> ''''" "crdt_create e u k s = (s', r)" for s :: "('a, 'b, 'c) crdt_store" and u e k s' r
    using crdt_create_ok [OF that] by blast
  show "crdt_inv s' \<and> crdt_view s' = crdt_view s \<and>
      (case r of Inl e \<Rightarrow> e = ErrNotFound \<and> crdt_view s u i = None
       | Inr t \<Rightarrow> td_id t = i \<and> crdt_view s u i = Some (td_title t, td_completed t))"
    if "crdt_inv s" "u \<noteq> ''''" "i \<noteq> ''''" "crdt_get u i s = (s', r)"
    for s :: "('a, 'b, 'c) crdt_store" and u i s' r
    by (rule crdt_get_ok [OF that])
  show "crdt_inv s' \<and> crdt_view s' = crdt_view s \<and>
      (\<exists>ts. r = Inr ts \<and> distinct (map td_id ts) \<and>
        (\<forall>i x c. (\<exists>t \<in> set ts. td_id t = i \<and> td_title t = x \<and> td_completed t = c) \<longleftrightarrow>
           crdt_view s u i = Some (x, c) \<and> keeps flt c))"
    if "crdt_inv s" "u \<noteq> ''''" "crdt_list u flt s = (s', r)" for s :: "('a, 'b, 'c) crdt_store" and u flt s' r
    by (rule crdt_list_ok [OF that])
  show "crdt_inv s' \<and> (\<forall>v. v \<noteq> u \<longrightarrow> crdt_view s' v = crdt_view s v) \<and>
      (case r of
         Inl e \<Rightarrow> e = ErrNotFound \<longrightarrow> crdt_view s u i = None \<and> crdt_view s' u = crdt_view s u
       | Inr t \<Rightarrow> td_id t = i \<and> crdt_view s u i \<noteq> None \<and>
           (td_title t, td_completed t) = patch_item p (the (crdt_view s u i)) \<and>
           crdt_view s' u = (crdt_view s u)(i \<mapsto> patch_item p (the (crdt_view s u i))))"
    if "crdt_inv s" "u \<noteq> ''''" "i \<noteq> ''''" "patch_known p" "crdt_update u i p s = (s', r)"
    for s :: "('a, 'b, 'c) crdt_store" and u i p s' r
    using crdt_update_ok [OF that] by (cases r) simp_all
  show "crdt_inv s' \<and> (\<forall>v. v \<noteq> u \<longrightarrow> crdt_view s' v = crdt_view s v) \<and>
      (r = Inr () \<longrightarrow> crdt_view s' u = (crdt_view s u)(i := None)) \<and>
      (r = Inl ErrNotFound \<longrightarrow> crdt_view s u i = None \<and> crdt_view s' u = crdt_view s u)"
    if "crdt_inv s" "u \<noteq> ''''" "i \<noteq> ''''" "crdt_delete u i s = (s', r)"
    for s :: "('a, 'b, 'c) crdt_store" and u i s' r
    using crdt_delete_ok [OF that] by blast
  show "crdt_inv s' \<and> (\<forall>v. v \<noteq> u \<longrightarrow> crdt_view s' v = crdt_view s v) \<and>
      (e = None \<longrightarrow> n = card {i. \<exists>x. crdt_view s u i = Some (x, True)} \<and>
        crdt_view s' u = (\<lambda>i. case crdt_view s u i of
          Some (x, c) \<Rightarrow> if c then None else Some (x, c) | None \<Rightarrow> None))"
    if "crdt_inv s" "u \<noteq> ''''" "crdt_clear_completed u s = (s', n, e)"
    for s :: "('a, 'b, 'c) crdt_store" and u s' n e
    by (rule crdt_clear_ok [OF that])
  show "crdt_inv s' \<and> crdt_view s' = crdt_view s \<and> r = Inr (card (dom (crdt_view s u)))"
    if "crdt_inv s" "u \<noteq> ''''" "crdt_count u s = (s', r)" for s :: "('a, 'b, 'c) crdt_store" and u s' r
    by (rule crdt_count_ok [OF that])
qed

end
