(* ===== verification/CRDTSync.thy ===== *)
theory CRDTSync
  imports CRDTContract "HOL-Library.AList"
begin

text \<open>
  Properties of the CRDT strategy beyond the storage contract: the table as a faithful projection that
  survives a restart, what the page limit does to an owner with more todos, version ticks and
  watchers, the op ids used for JetStream deduplication, and convergence of two instances.
\<close>

subsection \<open>A document library for the witnesses\<close>

definition mem_loro :: "(string \<times> lentry) list loro_api" where
  "mem_loro = \<lparr>lo_new = [], lo_lookup = map_of,
     lo_insert_map = (\<lambda>i d. ((i, Child Map.empty) # d, True)),
     lo_put = (\<lambda>i f v d. case map_of d i of
        Some (Child m) \<Rightarrow> ((i, Child (m(f \<mapsto> v))) # d, True) | _ \<Rightarrow> (d, False)),
     lo_delete = (\<lambda>i d. (filter (\<lambda>kv. fst kv \<noteq> i) d, True)),
     lo_all = AList.clearjunk, lo_export = (\<lambda>_. None), lo_import = (\<lambda>_ d. (d, False)), lo_items = map_of\<rparr>"

lemma mem_loro_laws: "loro_laws mem_loro"
proof -
  have "map_of (filter (\<lambda>kv. fst kv \<noteq> i) d) = (map_of d)(i := None)" for i and d :: "(string \<times> lentry) list"
    by (induction d) (auto simp: fun_eq_iff)
  then show ?thesis
    by (auto simp: loro_laws_def mem_loro_def distinct_clearjunk map_of_clearjunk)
qed

definition mem_crdt :: "row list \<Rightarrow> (row list, (string \<times> lentry) list, nats_msg list) crdt_store" where
  "mem_crdt rs = crdt_new (mem_app rs) mem_loro [] 1000000000 (\<lambda>u v i. length i)"

lemma mem_crdt_fields [simp]:
  "cs_app (mem_crdt rs) = mem_app rs" "cs_loro (mem_crdt rs) = mem_loro" "cs_docs (mem_crdt rs) = Map.empty"
  "crdt_rows (mem_crdt rs) = rs" "cs_clock (mem_crdt rs) = 1000000000" "cs_transport (mem_crdt rs) = None"
  by (simp_all add: mem_crdt_def crdt_new_def crdt_rows_def)

lemma mem_crdt_inv:
  "well_formed_rows rs \<Longrightarrow> (\<And>u. loadable rs u) \<Longrightarrow> crdt_inv (mem_crdt rs)"
  by (simp add: crdt_inv_def table_ok_def mem_app_laws mem_loro_laws)

subsection \<open>Restart\<close>

text \<open>What \<open>doc\<close> answers depends on the owner's document, the table, the library and the clock only.\<close>

lemma doc_local:
  assumes "cs_docs s u = cs_docs s' u" and "cs_app s = cs_app s'" and "cs_loro s = cs_loro s'" and "cs_clock s = cs_clock s'"
  shows "snd (doc u s) = snd (doc u s')"
  using assms by (simp add: doc_def Let_def split: option.splits rows_result.splits prod.splits bool.splits)

lemma doc_keeps_loro: "cs_loro (fst (doc u s)) = cs_loro s"
  by (simp add: doc_def Let_def split: option.splits rows_result.splits prod.splits bool.splits)

lemma crdt_list_local:
  assumes "cs_docs s u = cs_docs s' u" and "cs_app s = cs_app s'" and "cs_loro s = cs_loro s'" and "cs_clock s = cs_clock s'"
  shows "snd (crdt_list u flt s) = snd (crdt_list u flt s')"
  using doc_local [OF assms] doc_keeps_loro [of u s] doc_keeps_loro [of u s'] assms(3)
  by (cases "doc u s"; cases "doc u s'") (auto simp: crdt_list_def split: sum.splits)

text \<open>The store a new process makes, on the same database and with the same library.\<close>

abbreviation restarted ::
  "('db, 'd, 'js) crdt_store \<Rightarrow> 'js \<Rightarrow> int \<Rightarrow> (string \<Rightarrow> 64 word \<Rightarrow> string \<Rightarrow> nat) \<Rightarrow> ('db, 'd, 'js) crdt_store" where
  "restarted s js now rank \<equiv> crdt_new (cs_app s) (cs_loro s) js now rank"

text \<open>It loads the owner's document from the table and lists what the owner's rows say.\<close>

lemma restarted_list:
  assumes "crdt_inv s" and "u \<noteq> ''''" and "loadable (crdt_rows s) u"
  shows "\<exists>ts. snd (crdt_list u flt (restarted s js now rank)) = Inr ts \<and> distinct (map td_id ts) \<and>
    (\<forall>i x c. (\<exists>t \<in> set ts. td_id t = i \<and> td_title t = x \<and> td_completed t = c) \<longleftrightarrow>
       idem_view (crdt_rows s) u i = Some (x, c) \<and> keeps flt c)"
proof -
  let ?s = "s\<lparr>cs_docs := (cs_docs s)(u := None), cs_clock := now\<rparr>"
  have inv: "crdt_inv ?s"
    using assms(1,3) by (auto simp: crdt_inv_def table_ok_def crdt_rows_def)
  obtain s1 r where run: "crdt_list u flt ?s = (s1, r)" by fastforce
  have view: "crdt_view ?s u = idem_view (crdt_rows s) u" by (simp add: crdt_view_def crdt_rows_def)
  from crdt_list_ok [OF inv assms(2) run] obtain ts where ts: "r = Inr ts" "distinct (map td_id ts)"
    "\<forall>i x c. (\<exists>t \<in> set ts. td_id t = i \<and> td_title t = x \<and> td_completed t = c) \<longleftrightarrow>
       idem_view (crdt_rows s) u i = Some (x, c) \<and> keeps flt c"
    unfolding view by blast
  have "snd (crdt_list u flt (restarted s js now rank)) = snd (crdt_list u flt ?s)"
    by (rule crdt_list_local) (simp_all add: crdt_new_def)
  then have "snd (crdt_list u flt (restarted s js now rank)) = Inr ts" using run ts(1) by simp
  with ts(2,3) show ?thesis by blast
qed

lemma unloaded_synced:
  "crdt_inv s \<Longrightarrow> u \<noteq> '''' \<Longrightarrow> cs_docs s u = None \<Longrightarrow> synced s u"
  by (simp add: synced_def crdt_invD crdt_view_def)

text \<open>What a todo shows.\<close>

abbreviation shown :: "todo \<Rightarrow> string \<times> string \<times> bool" where
  "shown t \<equiv> (td_id t, td_title t, td_completed t)"

lemma success_synced:
  assumes "crdt_inv s" and "u \<noteq> ''''" and "synced s u" and "i \<noteq> ''''" and "patch_known p"
    and "crdt_create e u k s = (s', Inr t) \<or> crdt_update u i p s = (s', Inr t) \<or> crdt_delete u i s = (s', Inr ())"
    and "card (dom (crdt_view s' u)) \<le> page_limit"
  shows "crdt_inv s'" and "synced s' u"
proof -
  show "synced s' u"
    using assms(6)
  proof (elim disjE)
    assume "crdt_create e u k s = (s', Inr t)"
    from crdt_create_ok [OF assms(1,2) this] assms(3,7) show ?thesis by auto
  next
    assume "crdt_update u i p s = (s', Inr t)"
    from crdt_update_ok [OF assms(1,2,4,5) this] assms(3,7) show ?thesis by auto
  next
    assume "crdt_delete u i s = (s', Inr ())"
    from crdt_delete_ok [OF assms(1,2,4) this] assms(3) show ?thesis by auto
  qed
  show "crdt_inv s'"
    using assms(6) crdt_create_ok [OF assms(1,2)] crdt_update_ok [OF assms(1,2,4,5)]
      crdt_delete_ok [OF assms(1,2,4)] by blast
qed

lemma shown_iff:
  "(i, x, c) \<in> shown ` set ts \<longleftrightarrow> (\<exists>t \<in> set ts. td_id t = i \<and> td_title t = x \<and> td_completed t = c)"
  by auto

text \<open>C1: Let an owner's table rows and document be in step (as they are when the document has just been
  loaded, and as every operation below leaves them again), and let a create, update or delete succeed
  that leaves the owner with at most one page (200) of todos.  Then the table has one row for each of the
  owner's todos, and a process that starts anew on that database, with no document in memory, loads them
  and lists exactly what the running process lists: under every filter the same ids with the same titles
  and completed flags, each once.\<close>
theorem crdt_survives_restart:
  assumes "crdt_inv s" and "u \<noteq> ''''" and "synced s u" and "i \<noteq> ''''" and "patch_known p"
    and "crdt_create e u k s = (s', Inr t) \<or> crdt_update u i p s = (s', Inr t) \<or> crdt_delete u i s = (s', Inr ())"
    and "card (dom (crdt_view s' u)) \<le> page_limit"
  shows "\<exists>ts ts'. snd (crdt_list u flt s') = Inr ts \<and>
    snd (crdt_list u flt (restarted s' js now rank)) = Inr ts' \<and>
    shown ` set ts' = shown ` set ts \<and> distinct (map td_id ts) \<and> distinct (map td_id ts') \<and>
    synced s' u \<and> length (owned u (crdt_rows s')) = card (dom (crdt_view s' u))"
proof -
  note sy = success_synced [OF assms]
  have rows: "loadable (crdt_rows s') u" "idem_view (crdt_rows s') u = crdt_view s' u"
    using sy(2) by (simp_all add: synced_def)
  obtain s1 r where run: "crdt_list u flt s' = (s1, r)" by fastforce
  from crdt_list_ok [OF sy(1) assms(2) run] obtain ts where ts: "r = Inr ts" "distinct (map td_id ts)"
    "\<forall>i x c. (\<exists>t \<in> set ts. td_id t = i \<and> td_title t = x \<and> td_completed t = c) \<longleftrightarrow>
       crdt_view s' u i = Some (x, c) \<and> keeps flt c" by blast
  from restarted_list [OF sy(1) assms(2) rows(1), of flt js now rank] obtain ts' where ts':
    "snd (crdt_list u flt (restarted s' js now rank)) = Inr ts'" "distinct (map td_id ts')"
    "\<forall>i x c. (\<exists>t \<in> set ts'. td_id t = i \<and> td_title t = x \<and> td_completed t = c) \<longleftrightarrow>
       crdt_view s' u i = Some (x, c) \<and> keeps flt c"
    unfolding rows(2) by blast
  have "shown ` set ts' = shown ` set ts"
  proof (rule set_eqI)
    fix y :: "string \<times> string \<times> bool"
    obtain i x c where y: "y = (i, x, c)" by (cases y)
    show "y \<in> shown ` set ts' \<longleftrightarrow> y \<in> shown ` set ts"
      unfolding y shown_iff ts(3) [rule_format] ts'(3) [rule_format] by (rule refl)
  qed
  moreover have "length (owned u (crdt_rows s')) = card (dom (crdt_view s' u))"
    using card_idem_view [of "crdt_rows s'" u] table_okD(6) [OF crdt_invD(1) [OF sy(1)]] rows
    by (simp add: loadable_def)
  ultimately show ?thesis using run ts(1,2) ts'(1,2) sy(2) by auto
qed

definition one_row :: "row list" where
  "one_row = [\<lparr>rw_id = ''r1'', rw_title = ''milk'', rw_completed = False, rw_created = 5, rw_updated = 5,
     rw_owner = ''u1'', rw_idem = ''k1''\<rparr>]"

lemma one_row_inv: "crdt_inv (mem_crdt one_row)"
  by (rule mem_crdt_inv)
    (auto simp: one_row_def well_formed_rows_def loadable_def uniq_def owned_def page_limit_def)

lemma one_row_update:
  "\<exists>s' t. crdt_update ''u1'' ''k1'' [(''completed'', PBool True)] (mem_crdt one_row) = (s', Inr t) \<and>
    dom (crdt_view s' ''u1'') = {''k1''}"
proof -
  have "case snd (crdt_update ''u1'' ''k1'' [(''completed'', PBool True)] (mem_crdt one_row)) of
      Inr t \<Rightarrow> True | Inl e \<Rightarrow> False"
    by code_simp
  moreover obtain s' r where
    res: "crdt_update ''u1'' ''k1'' [(''completed'', PBool True)] (mem_crdt one_row) = (s', r)" by fastforce
  ultimately obtain t where "r = Inr t" by (cases r) simp_all
  with res have run: "crdt_update ''u1'' ''k1'' [(''completed'', PBool True)] (mem_crdt one_row) = (s', Inr t)"
    by simp
  have "patch_known [(''completed'', PBool True)]" by (simp add: patch_known_def ex_bool_eq)
  from crdt_update_ok [OF one_row_inv _ _ this run]
  have "crdt_view s' ''u1'' = (crdt_view (mem_crdt one_row) ''u1'')(''k1'' \<mapsto>
      patch_item [(''completed'', PBool True)] (the (crdt_view (mem_crdt one_row) ''u1'' ''k1'')))"
    by simp
  moreover have "dom (crdt_view (mem_crdt one_row) ''u1'') = {''k1''}"
    by (auto simp: crdt_view_def idem_view_def one_row_def split: if_splits)
  ultimately show ?thesis using run by auto
qed

theorem crdt_survives_restart_witness:
  "\<exists>s' t ts ts'. crdt_update ''u1'' ''k1'' [(''completed'', PBool True)] (mem_crdt one_row) = (s', Inr t) \<and>
    snd (crdt_list ''u1'' '''' s') = Inr ts \<and>
    snd (crdt_list ''u1'' '''' (restarted s' [] 7 (\<lambda>_ _ _. 0))) = Inr ts' \<and> shown ` set ts' = shown ` set ts"
proof -
  from one_row_update obtain s' t where run:
    "crdt_update ''u1'' ''k1'' [(''completed'', PBool True)] (mem_crdt one_row) = (s', Inr t)"
    and dom: "dom (crdt_view s' ''u1'') = {''k1''}" by (elim exE conjE)
  have "synced (mem_crdt one_row) ''u1''" by (rule unloaded_synced [OF one_row_inv]) simp_all
  moreover have "patch_known [(''completed'', PBool True)]" by (simp add: patch_known_def ex_bool_eq)
  ultimately obtain ts ts' where "snd (crdt_list ''u1'' '''' s') = Inr ts"
      "snd (crdt_list ''u1'' '''' (restarted s' [] 7 (\<lambda>_ _ _. 0))) = Inr ts'" "shown ` set ts' = shown ` set ts"
    using crdt_survives_restart [OF one_row_inv, of "''u1''" "''k1''" "[(''completed'', PBool True)]"
        undefined undefined s' t "''''" "[]" 7 "\<lambda>_ _ _. 0"] run dom
    by (auto simp: page_limit_def)
  with run show ?thesis by (intro exI conjI)
qed

subsection \<open>More todos than a page\<close>

lemma rehydrate_card:
  assumes "loro_laws L" and "rehydrate L now rs d = (d', True)"
  shows "dom (lo_items L d') = dom (lo_items L d) \<union> rw_idem ` set rs"
  using assms(2)
proof (induction rs arbitrary: d)
  case (Cons r rs)
  obtain d1 b where ins: "lo_insert_map L (rw_idem r) d = (d1, b)" by fastforce
  from insert_item_ok(1) [OF assms(1) ins]
    insert_item_ok(2) [OF assms(1) ins, where now = now and t = "todo_from_record r"]
  obtain d2 m where "b" "write_item L now (rw_idem r) (todo_from_record r) d1 = (d2, True)"
    "lo_items L d2 = (lo_items L d)(rw_idem r \<mapsto> Child m)" by blast
  with Cons ins show ?case by auto
qed simp

text \<open>An owner with more than one page of todos loses the rest on load: when the document is first
  loaded, the store counts (and lists) exactly 200 todos, however many rows the owner has.\<close>
lemma crdt_load_truncates:
  assumes "table_ok s" and "loro_laws (cs_loro s)" and "u \<noteq> ''''" and "cs_docs s u = None"
    and "uniq u (crdt_rows s)" and "page_limit < length (owned u (crdt_rows s))"
    and "crdt_count u s = (s', Inr n)"
  shows "n = 200 \<and> n < length (owned u (crdt_rows s'))"
proof -
  let ?f = "ca_find (cs_app s) (ca_db (cs_app s)) todos_collection_name [OwnerIs u] ''-created'' page_limit"
  note page = find_owned_page [OF assms(1), where u = u and srt = "''-created''"]
  from assms(4,7) page(1) obtain d where d: "rehydrate (cs_loro s) (cs_clock s) (found_rows ?f) (lo_new (cs_loro s)) = (d, True)"
    and n: "n = length (lo_all (cs_loro s) d)" and s': "s' = set_doc u d s"
    using assms(3)
    by (auto simp: crdt_count_def doc_def Let_def found_rows_def
        split: rows_result.splits prod.splits bool.splits sum.splits)
  have "length (lo_all (cs_loro s) d) = card (dom (lo_items (cs_loro s) d))"
    using loroD(9,10) [OF assms(2), of d] distinct_card by (metis dom_map_of_conv_image_fst length_map list.set_map)
  also have "dom (lo_items (cs_loro s) d) = rw_idem ` set (found_rows ?f)"
    using rehydrate_card [OF assms(2) d] loroD(1) [OF assms(2)] by simp
  also have "card \<dots> = length (found_rows ?f)"
  proof -
    have "inj_on rw_idem (set (found_rows ?f))"
      using assms(5) page(2) by (auto simp: inj_on_def uniq_def)
    then show ?thesis using page(3) by (simp add: card_image distinct_card)
  qed
  also have "\<dots> = 200" using page(4) assms(6) by (simp add: page_limit_def)
  finally show ?thesis using n s' assms(6) by (simp add: page_limit_def)
qed

text \<open>\<open>n\<close> rows of one owner with distinct keys.\<close>

definition many_rows :: "nat \<Rightarrow> row list" where
  "many_rows n = map (\<lambda>k. new_row\<lparr>rw_id := nat_str k, rw_title := ''t'', rw_owner := ''u1'',
     rw_idem := nat_str k\<rparr>) [0..<n]"

lemma many_rows_facts:
  "well_formed_rows (many_rows n)" "uniq u (many_rows n)" "length (owned ''u1'' (many_rows n)) = n"
proof -
  show "well_formed_rows (many_rows n)"
    by (auto simp: well_formed_rows_def many_rows_def comp_def distinct_map inj_on_def
        dest: nat_str_not_Nil [THEN notE, OF sym])
  show "uniq u (many_rows n)" by (auto simp: uniq_def many_rows_def)
  have "owned ''u1'' (many_rows n) = many_rows n"
    unfolding owned_def by (rule filter_eq_all) (auto simp: many_rows_def)
  then show "length (owned ''u1'' (many_rows n)) = n" by (simp add: many_rows_def)
qed

lemma mem_rehydrate: "\<exists>d'. rehydrate mem_loro now rs d = (d', True)"
proof (induction rs arbitrary: d)
  case (Cons r rs)
  obtain d1 b where ins: "lo_insert_map mem_loro (rw_idem r) d = (d1, b)" by fastforce
  from insert_item_ok(1) [OF mem_loro_laws ins]
    insert_item_ok(2) [OF mem_loro_laws ins, where now = now and t = "todo_from_record r"]
  obtain d2 m where "b" "write_item mem_loro now (rw_idem r) (todo_from_record r) d1 = (d2, True)" by blast
  with Cons ins show ?case by simp
qed simp

lemma crdt_load_truncates_witness:
  "\<exists>s'. crdt_count ''u1'' (mem_crdt (many_rows 250)) = (s', Inr 200)"
proof -
  let ?s = "mem_crdt (many_rows 250)"
  obtain d where "rehydrate mem_loro 1000000000 (take page_limit (filter (matches [OwnerIs ''u1'']) (many_rows 250))) [] = (d, True)"
    using mem_rehydrate by blast
  then have "crdt_count ''u1'' ?s = (set_doc ''u1'' d ?s, Inr (length (lo_all mem_loro d)))"
    by (simp add: crdt_count_def doc_def Let_def page_limit_def) (simp add: mem_loro_def)
  moreover from crdt_load_truncates [of ?s "''u1''" "set_doc ''u1'' d ?s" "length (lo_all mem_loro d)"] this
  have "length (lo_all mem_loro d) = 200"
    by (simp add: table_ok_def mem_app_laws mem_loro_laws many_rows_facts page_limit_def)
  ultimately show ?thesis by auto
qed

subsection \<open>Op ids\<close>

lemma persist_env:
  "upsert_all u ts s = (s', e) \<Longrightarrow> cs_transport s' = cs_transport s \<and> cs_js s' = cs_js s \<and>
    cs_docs s' = cs_docs s \<and> cs_loro s' = cs_loro s \<and> cs_versions s' = cs_versions s \<and>
    cs_watchers s' = cs_watchers s \<and> cs_publisher s' = cs_publisher s \<and> cs_published s' = cs_published s"
proof (induction ts arbitrary: s)
  case (Cons t ts)
  obtain s1 e1 where up: "upsert_todo_record u t s = (s1, e1)" by fastforce
  then have "cs_transport s1 = cs_transport s \<and> cs_js s1 = cs_js s \<and>
      cs_docs s1 = cs_docs s \<and> cs_loro s1 = cs_loro s \<and> cs_versions s1 = cs_versions s \<and>
      cs_watchers s1 = cs_watchers s \<and> cs_publisher s1 = cs_publisher s \<and> cs_published s1 = cs_published s"
    by (auto simp: upsert_todo_record_def Let_def set_cdb_def split: col_result.splits prod.splits option.splits)
  with Cons up show ?case by (auto split: option.splits)
qed simp

lemma delete_stale_env:
  "delete_stale w rs s = (s', e) \<Longrightarrow> cs_transport s' = cs_transport s \<and> cs_js s' = cs_js s \<and>
    cs_docs s' = cs_docs s \<and> cs_loro s' = cs_loro s \<and> cs_versions s' = cs_versions s \<and>
    cs_watchers s' = cs_watchers s \<and> cs_publisher s' = cs_publisher s \<and> cs_published s' = cs_published s"
proof (induction rs arbitrary: s)
  case (Cons r rs)
  obtain db ok where del: "ca_delete (cs_app s) (ca_db (cs_app s)) todos_collection_name r = (db, ok)"
    by fastforce
  show ?case
  proof (cases "rw_idem r \<in> w")
    case True
    with Cons show ?thesis by simp
  next
    case False
    with Cons.prems del Cons.IH [of "set_cdb db s"] show ?thesis
      by (cases ok) (auto simp: set_cdb_def)
  qed
qed simp

text \<open>Persisting ticks the owner's version exactly once, whether it succeeds or not, and changes nothing
  else of the in-memory state.\<close>

lemma persist_ticks:
  assumes "persist_records u d s = (s', e)"
  shows "cs_versions s' = cs_versions (bump_version u s)" "cs_watchers s' = cs_watchers (bump_version u s)"
    "cs_published s' = cs_published (bump_version u s)" "cs_publisher s' = cs_publisher s"
    "cs_transport s' = cs_transport s" "cs_js s' = cs_js s" "cs_docs s' = cs_docs s" "cs_loro s' = cs_loro s"
proof -
  obtain s1 e1 where up: "upsert_all u (map_iteration (cs_rank (bump_version u s) u (version u (bump_version u s))) (read_all (cs_loro s) d))
      (bump_version u s) = (s1, e1)" by fastforce
  have pb: "cs_publisher (bump_version u s) = cs_publisher s" by (simp add: bump_version_def Let_def)
  have "cs_versions s' = cs_versions s1 \<and> cs_watchers s' = cs_watchers s1 \<and> cs_published s' = cs_published s1 \<and>
      cs_publisher s' = cs_publisher s1 \<and> cs_transport s' = cs_transport s1 \<and> cs_js s' = cs_js s1 \<and>
      cs_docs s' = cs_docs s1 \<and> cs_loro s' = cs_loro s1"
    using assms up by (auto simp: persist_records_def Let_def split: option.splits rows_result.splits
        dest!: delete_stale_env)
  with persist_env [OF up] pb show "cs_versions s' = cs_versions (bump_version u s)"
    "cs_watchers s' = cs_watchers (bump_version u s)" "cs_published s' = cs_published (bump_version u s)"
    "cs_publisher s' = cs_publisher s" "cs_transport s' = cs_transport s" "cs_js s' = cs_js s"
    "cs_docs s' = cs_docs s" "cs_loro s' = cs_loro s"
    by simp_all
qed

lemma doc_env:
  assumes "doc u s = (s1, r)"
  shows "cs_transport s1 = cs_transport s" "cs_js s1 = cs_js s" "cs_versions s1 = cs_versions s"
    "cs_watchers s1 = cs_watchers s" "cs_published s1 = cs_published s" "cs_publisher s1 = cs_publisher s"
    "cs_loro s1 = cs_loro s" "cs_docs s u = Some d \<Longrightarrow> s1 = s \<and> r = Inr d"
  using assms
  by (auto simp: doc_def Let_def set_doc_def split: option.splits rows_result.splits prod.splits bool.splits)

lemma update_run:
  assumes "crdt_update u i p s = (s', Inr x)"
  shows "\<exists>d s2. s' = publish_op_from_doc u (''update-'' @ i) d s2 \<and> cs_transport s2 = cs_transport s \<and>
    cs_js s2 = cs_js s \<and> cs_versions s2 = cs_versions (bump_version u s)"
proof -
  have ui: "u \<noteq> ''''" "i \<noteq> ''''" using assms by (auto simp: crdt_update_def split: if_splits)
  obtain s1 dr where doc: "doc u s = (s1, dr)" by fastforce
  then obtain d where dr: "dr = Inr d" using assms ui by (cases dr) (auto simp: crdt_update_def)
  note env = doc_env [OF doc]
  have bump: "cs_versions (bump_version u (set_doc u d' s1)) = cs_versions (bump_version u s)" for d'
    using env(3) by (simp add: bump_version_def Let_def set_doc_def)
  have "\<exists>d2 s2. persist_records u d2 (set_doc u d2 s1) = (s2, None) \<and>
      s' = publish_op_from_doc u (''update-'' @ i) d2 s2"
    using assms ui doc dr
    by (auto simp: crdt_update_def Let_def split: option.splits prod.splits if_splits bool.splits)
  then obtain d2 s2 where p: "persist_records u d2 (set_doc u d2 s1) = (s2, None)"
    and s': "s' = publish_op_from_doc u (''update-'' @ i) d2 s2" by blast
  from persist_ticks [OF p] bump env have "cs_transport s2 = cs_transport s \<and> cs_js s2 = cs_js s \<and>
      cs_versions s2 = cs_versions (bump_version u s)" by simp
  with s' show ?thesis by blast
qed

text \<open>The op id of an update is the todo's id alone, so within JetStream's duplicate window a second
  update of the same todo changes the document and the table but ships nothing to the other
  instances.\<close>
lemma second_update_not_shipped:
  assumes "js_contract api sent recent" and "cs_transport s = Some t" and "tr_js t = Some api"
    and "''update-'' @ i \<in> recent (cs_js s)"
    and "crdt_update u i p s = (s', Inr x)"
  shows "sent (cs_js s') = sent (cs_js s)"
proof -
  from update_run [OF assms(5)] obtain d s2 where
    s2: "s' = publish_op_from_doc u (''update-'' @ i) d s2" "cs_transport s2 = Some t" "cs_js s2 = cs_js s"
    using assms(2) by auto
  have u: "u \<noteq> ''''" using assms(5) by (auto simp: crdt_update_def split: if_splits)
  show ?thesis
  proof (cases "lo_export (cs_loro s2) d")
    case None
    then show ?thesis using s2 by (simp add: publish_op_from_doc_def)
  next
    case (Some upd)
    let ?x = "\<lparr>op_id = ''update-'' @ i, op_publisher = '''', op_owner = u, op_updates = upd\<rparr>"
    have "sent (fst (publish t ?x (cs_js s))) = sent (cs_js s)"
      using publish_sent(1) [OF assms(1,3), of ?x "cs_js s" "fst (publish t ?x (cs_js s))" "snd (publish t ?x (cs_js s))"]
        assms(4) u by simp
    then show ?thesis using s2 Some by (simp add: publish_op_from_doc_def)
  qed
qed

subsection \<open>Version ticks\<close>

lemma version_bump: "version v (bump_version u s) = version v s + (if v = u then 1 else 0)"
  by (simp add: version_def bump_version_def Let_def)

lemma published_bump: "cs_published (bump_version u s) = cs_published s @
    (if cs_publisher s = None then [] else [(u, version u s + 1)])"
  by (simp add: bump_version_def Let_def version_def split: option.splits)

text \<open>A successfully applied remote op ticks the owner's version twice and tells the publisher
  twice, and an op that fails while being persisted still ticks it once; other owners' versions never
  move.\<close>
lemma remote_op_ticks:
  assumes "u \<noteq> ''''" and "op_updates x \<noteq> []" and "cs_docs s u = Some d"
    and "lo_import (cs_loro s) (op_updates x) d = (d', True)" and "apply_remote_op u x s = (s', e)"
  shows "version v s' = version v s + (if v \<noteq> u then 0 else if e = None then 2 else 1) \<and>
    (cs_publisher s \<noteq> None \<longrightarrow> cs_published s' = cs_published s @
      (if e = None then [(u, version u s + 1), (u, version u s + 2)] else [(u, version u s + 1)]))"
proof -
  obtain s1 dr where "doc u s = (s1, dr)" by fastforce
  with doc_env(8) [OF this assms(3)] have doc: "doc u s = (s, Inr d)" by simp
  let ?sd = "set_doc u d' s"
  obtain s2 er where p: "persist_records u d' ?sd = (s2, er)" by fastforce
  note t = persist_ticks [OF p]
  have v2: "version v s2 = version v s + (if v = u then 1 else 0)" for v
    using t(1) version_bump [of v u ?sd] by (simp add: version_def set_doc_def)
  have p2: "cs_published s2 = cs_published s @ (if cs_publisher s = None then [] else [(u, version u s + 1)])"
    using t(3) published_bump [of u ?sd] by (simp add: version_def set_doc_def)
  have q2: "cs_publisher s2 = cs_publisher s" using t(4) by (simp add: set_doc_def)
  have run: "apply_remote_op u x s = (case er of
      Some err \<Rightarrow> (s2, Some (ErrOther ''crdtstore ApplyRemoteOp: persist'')) | None \<Rightarrow> (bump_version u s2, None))"
    using assms(1,2,4) doc p by (simp add: apply_remote_op_def split: option.splits)
  show ?thesis
  proof (cases er)
    case None
    with run assms(5) have "s' = bump_version u s2" "e = None" by auto
    then show ?thesis using v2 p2 q2 by (simp add: version_bump published_bump)
  next
    case (Some err)
    with run assms(5) have "s' = s2" "e \<noteq> None" by auto
    then show ?thesis using v2 p2 by auto
  qed
qed

text \<open>The events a sequence of ticks produces.\<close>

fun tick_events :: "(string \<Rightarrow> 64 word) \<Rightarrow> string list \<Rightarrow> (string \<times> 64 word) list" where
  "tick_events f [] = []"
| "tick_events f (u # us) = (u, f u + 1) # tick_events (f(u := f u + 1)) us"

text \<open>A watcher that does not read keeps the oldest 16 ticks and drops every later one, so the
  latest version is not in its channel; the version counter itself counts every tick of the owner.\<close>
lemma slow_watcher_keeps_oldest:
  "let s' = foldl (\<lambda>s u. bump_version u s) (watch n s) us in
    wt_queue (last (cs_watchers s')) = take 16 (tick_events (\<lambda>u. version u s) us) \<and>
    version v s' = version v s + of_nat (length (filter (\<lambda>u. u = v) us))"
proof -
  have "cs_watchers s0 \<noteq> [] \<Longrightarrow> length (wt_queue (last (cs_watchers s0))) \<le> 16 \<Longrightarrow>
      cs_watchers (foldl (\<lambda>s u. bump_version u s) s0 us) \<noteq> [] \<and>
      wt_queue (last (cs_watchers (foldl (\<lambda>s u. bump_version u s) s0 us))) =
        take 16 (wt_queue (last (cs_watchers s0)) @ tick_events (\<lambda>u. version u s0) us) \<and>
      version v (foldl (\<lambda>s u. bump_version u s) s0 us) =
        version v s0 + of_nat (length (filter (\<lambda>u. u = v) us))" for s0 :: "('a, 'b, 'c) crdt_store"
  proof (induction us arbitrary: s0)
    case (Cons u us)
    let ?s = "bump_version u s0"
    have w: "cs_watchers ?s = map (offer (u, version u s0 + 1)) (cs_watchers s0)"
      by (simp add: bump_version_def Let_def version_def)
    then have q: "wt_queue (last (cs_watchers ?s)) =
        (if length (wt_queue (last (cs_watchers s0))) < 16
         then wt_queue (last (cs_watchers s0)) @ [(u, version u s0 + 1)] else wt_queue (last (cs_watchers s0)))"
      using Cons.prems(1) by (simp add: last_map offer_def watch_internal_buf_def)
    have f: "(\<lambda>x. version x ?s) = (\<lambda>x. version x s0)(u := version u s0 + 1)"
      by (auto simp: version_bump)
    from Cons.IH [of ?s, unfolded f] Cons.prems q w show ?case
      by (auto simp: version_bump take_Cons' not_less)
  qed simp
  from this [of "watch n s"] show ?thesis
    by (simp add: watch_def version_def Let_def)
qed

text \<open>A library whose export and import answer, and a store that has shipped one update already.\<close>

definition echo_loro :: "(string \<times> lentry) list loro_api" where
  "echo_loro = mem_loro\<lparr>lo_export := (\<lambda>_. Some ''x''), lo_import := (\<lambda>_ d. (d, True))\<rparr>"

definition shipped_store :: "(row list, (string \<times> lentry) list, nats_msg list) crdt_store" where
  "shipped_store = (mem_crdt one_row)\<lparr>cs_loro := echo_loro,
     cs_transport := Some \<lparr>tr_js = Some list_js, tr_publisher = ''''\<rparr>,
     cs_js := [\<lparr>nm_subject = ''app.todo_crdt.u1'', nm_data = ''0'', nm_msg_id = ''update-k1''\<rparr>],
     cs_publisher := Some ''sse-hub''\<rparr>"

lemma second_update_not_shipped_witness:
  "\<exists>s' x. crdt_update ''u1'' ''k1'' [(''title'', PStr ''tea'')] shipped_store = (s', Inr x) \<and>
    length (cs_js s') = 1"
proof -
  have ok: "case snd (crdt_update ''u1'' ''k1'' [(''title'', PStr ''tea'')] shipped_store) of
      Inr t \<Rightarrow> True | Inl e \<Rightarrow> False"
    by code_simp
  obtain s' r where
    res: "crdt_update ''u1'' ''k1'' [(''title'', PStr ''tea'')] shipped_store = (s', r)" by fastforce
  with ok obtain x where x: "r = Inr x" by (cases r) simp_all
  have "cs_js s' = cs_js shipped_store"
    by (rule second_update_not_shipped [OF list_js_contract, where t = "\<lparr>tr_js = Some list_js, tr_publisher = ''''\<rparr>"
        and i = "''k1''"])
      (use res x in \<open>auto simp: shipped_store_def\<close>)
  with res x show ?thesis by (auto simp: shipped_store_def)
qed

lemma remote_op_ticks_witness:
  "\<exists>s' e. apply_remote_op ''u1'' \<lparr>op_id = ''i'', op_publisher = ''q'', op_owner = ''u1'', op_updates = ''x''\<rparr>
      (set_doc ''u1'' [] shipped_store) = (s', e) \<and>
    version ''u1'' s' = (if e = None then 2 else 1) \<and> version ''u2'' s' = 0"
proof -
  let ?s = "set_doc ''u1'' [] shipped_store"
  let ?x = "\<lparr>op_id = ''i'', op_publisher = ''q'', op_owner = ''u1'', op_updates = ''x''\<rparr>"
  obtain s' e where run: "apply_remote_op ''u1'' ?x ?s = (s', e)" by fastforce
  have v0: "version v ?s = 0" for v
    by (simp add: version_def set_doc_def shipped_store_def mem_crdt_def crdt_new_def)
  have imp: "lo_import (cs_loro ?s) (op_updates ?x) [] = ([], True)"
    by (simp add: shipped_store_def echo_loro_def)
  have docs: "cs_docs ?s ''u1'' = Some []" by simp
  have "version v s' = (if v \<noteq> ''u1'' then 0 else if e = None then 2 else 1)" for v
    using remote_op_ticks [OF _ _ docs imp run, of v] by (simp add: v0)
  with run show ?thesis by auto
qed

subsection \<open>Convergence\<close>

text \<open>
  What the code relies on of Loro as a CRDT: an export carries the operations of a document, an
  import adds the carried operations to those of the document, and documents with the same
  operations show the same items.
\<close>

definition merge_laws :: "'d loro_api \<Rightarrow> ('d \<Rightarrow> nat set) \<Rightarrow> (bytes \<Rightarrow> nat set) \<Rightarrow> bool" where
  "merge_laws L ops carried \<longleftrightarrow>
     (\<forall>d upd. lo_export L d = Some upd \<longrightarrow> carried upd = ops d) \<and>
     (\<forall>d d' upd. lo_import L upd d = (d', True) \<longrightarrow> ops d' = ops d \<union> carried upd) \<and>
     (\<forall>d d'. ops d = ops d' \<longrightarrow> lo_items L d = lo_items L d')"

text \<open>The message a store publishes for a document.\<close>

definition op_message :: "'js transport \<Rightarrow> string \<Rightarrow> string \<Rightarrow> bytes \<Rightarrow> nats_msg" where
  "op_message t u opid upd = \<lparr>nm_subject = transport_subject_prefix @ u,
     nm_data = publisher_prefix (tr_publisher t) @ CHR '':'' # upd, nm_msg_id = opid\<rparr>"

lemma apply_remote_doc:
  assumes "u \<noteq> ''''" and "op_updates x \<noteq> []" and "cs_docs s u = Some d" and "apply_remote_op u x s = (s', None)"
  shows "\<exists>d'. lo_import (cs_loro s) (op_updates x) d = (d', True) \<and> cs_docs s' u = Some d' \<and> cs_loro s' = cs_loro s"
proof -
  obtain s1 dr where "doc u s = (s1, dr)" by fastforce
  with doc_env(8) [OF this assms(3)] have doc: "doc u s = (s, Inr d)" by simp
  obtain d' ok where imp: "lo_import (cs_loro s) (op_updates x) d = (d', ok)" by fastforce
  obtain s2 er where p: "persist_records u d' (set_doc u d' s) = (s2, er)" by fastforce
  from persist_ticks(7,8) [OF p] have "cs_docs s2 u = Some d'" "cs_loro s2 = cs_loro s" by simp_all
  with assms doc imp p show ?thesis
    by (cases ok) (auto simp: apply_remote_op_def split: option.splits)
qed

text \<open>Applying an op for one owner leaves what every other owner is shown, whether it succeeds or not.\<close>

lemma apply_remote_other:
  assumes "table_ok s" and "v \<noteq> u" and "apply_remote_op u x s = (s', e)"
  shows "crdt_view s' v = crdt_view s v"
proof -
  have bump: "crdt_view (bump_version u s0) v = crdt_view s0 v" for s0 :: "('a, 'b, 'c) crdt_store"
    by (simp add: crdt_view_def split: option.splits)
  have set: "crdt_view (set_doc u d s0) v = crdt_view s0 v" for d and s0 :: "('a, 'b, 'c) crdt_store"
    using assms(2) by (simp add: crdt_view_def split: option.splits)
  have step: "crdt_view s2 v = crdt_view s0 v" if "table_step u s0 s2" for s0 s2 :: "('a, 'b, 'c) crdt_store"
    using that only_ownerD(1) [of u "crdt_rows s0" "crdt_rows s2" v] assms(2) by (simp add: table_step_def crdt_view_def split: option.splits)
  obtain s1 dr where doc: "doc u s = (s1, dr)" by fastforce
  then have s1: "s1 = s \<or> (\<exists>d. s1 = set_doc u d s)"
    by (auto simp: doc_def Let_def split: option.splits rows_result.splits prod.splits bool.splits)
  then have v1: "crdt_view s1 v = crdt_view s v" and t1: "table_ok s1"
    using set assms(1) by (auto simp: table_ok_def)
  show ?thesis
  proof (cases "u = '''' \<or> op_updates x = [] \<or> (\<exists>err. dr = Inl err)")
    case True
    then show ?thesis using assms(3) doc v1 by (auto simp: apply_remote_op_def split: if_splits)
  next
    case False
    then obtain d where d: "dr = Inr d" by (cases dr) auto
    obtain d1 ok where imp: "lo_import (cs_loro s1) (op_updates x) d = (d1, ok)" by fastforce
    obtain s2 er where p: "persist_records u d1 (set_doc u d1 s1) = (s2, er)" by fastforce
    have "table_ok (set_doc u d1 s1)" using t1 by (simp add: table_ok_def)
    from step [OF persist_table_step [OF this p]] have v2: "crdt_view s2 v = crdt_view s v" using set v1 by simp
    have "s' = set_doc u d1 s1 \<or> s' = s2 \<or> s' = bump_version u s2"
      using assms(3) doc d imp p False by (cases ok) (auto simp: apply_remote_op_def split: option.splits)
    then show ?thesis using v1 v2 set bump by auto
  qed
qed

text \<open>
  The callback of the subscription the server installs: it subscribes for the owner \<open>>\<close> and applies each op
  under the owner the op names.
\<close>

definition on_remote_op :: "'js transport \<Rightarrow> nats_msg \<Rightarrow> ('db, 'd, 'js) crdt_store \<Rightarrow> ('db, 'd, 'js) crdt_store" where
  "on_remote_op t m s = (case on_message t ''>'' m of
     None \<Rightarrow> s | Some x \<Rightarrow> fst (apply_remote_op (op_owner x) x s))"

lemma on_remote_op_other:
  assumes "table_ok s" and "v \<noteq> ''>''"
  shows "crdt_view (on_remote_op t m s) v = crdt_view s v"
proof (cases "on_message t ''>'' m")
  case (Some x)
  then have "op_owner x = ''>''" by (auto simp: on_message_def Let_def split: option.splits if_splits)
  then show ?thesis
    using apply_remote_other [OF assms, of x "fst (apply_remote_op ''>'' x s)" "snd (apply_remote_op ''>'' x s)"] Some
    by (simp add: on_remote_op_def)
qed (simp add: on_remote_op_def)

text \<open>C11: Two instances that are each subscribed to an owner's own subject and receive the other's published
  op for that owner end up showing the owner the same todos, whatever concurrent edits the two documents
  held before.  With the server's own subscription, which is for all owners at once, no received message
  changes what any owner is shown (other than one called \<open>>\<close>), so its instances do not converge.  The
  first instance's table is one the store can have: ids of rows, and ids of todos per owner, are unique.\<close>
theorem replicas_converge:
  assumes "merge_laws L ops carried" and "cs_loro a = L" and "cs_loro b = L" and "u \<noteq> ''''"
    and "cs_docs a u = Some da" and "cs_docs b u = Some db"
    and "lo_export L da = Some ua" and "lo_export L db = Some ub" and "ua \<noteq> []" and "ub \<noteq> []"
    and "tr_publisher ta \<noteq> ''''" and "tr_publisher tb \<noteq> ''''" and "i \<noteq> ''''" and "j \<noteq> ''''"
    and "on_message ta u (op_message tb u j ub) = Some xb" and "on_message tb u (op_message ta u i ua) = Some xa"
    and "apply_remote_op u xb a = (a', None)" and "apply_remote_op u xa b = (b', None)"
    and "table_ok a"
  shows "crdt_view a' u = crdt_view b' u \<and>
    (\<forall>v m. v \<noteq> ''>'' \<longrightarrow> crdt_view (on_remote_op ta m a) v = crdt_view a v)"
proof -
  have upd: "op_updates xb = ub" "op_updates xa = ua"
    using assms(15,16) on_message_published [OF assms(11,12,14)] on_message_published [OF assms(12,11,13)]
    by (auto simp: op_message_def split: if_splits)
  from apply_remote_doc [OF assms(4) _ assms(5,17)] upd(1) assms(10,2) obtain da' where
    da': "lo_import L ub da = (da', True)" "cs_docs a' u = Some da'" "cs_loro a' = L" by auto
  from apply_remote_doc [OF assms(4) _ assms(6,18)] upd(2) assms(9,3) obtain db' where
    db': "lo_import L ua db = (db', True)" "cs_docs b' u = Some db'" "cs_loro b' = L" by auto
  have "ops da' = ops da \<union> ops db" "ops db' = ops db \<union> ops da"
    using assms(1,7,8) da'(1) db'(1) by (auto simp: merge_laws_def)
  then have "lo_items L da' = lo_items L db'"
    using assms(1) by (simp add: merge_laws_def Un_commute)
  then have "crdt_view a' u = crdt_view b' u" using da' db' by (simp add: crdt_view_def doc_view_def fun_eq_iff)
  then show ?thesis using on_remote_op_other [OF assms(19)] by blast
qed

text \<open>A grow-only library: a document is the list of the one-letter ids added to it.\<close>

definition grow_loro :: "string loro_api" where
  "grow_loro = \<lparr>lo_new = [], lo_lookup = (\<lambda>d i. None),
     lo_insert_map = (\<lambda>i d. (d @ i, True)), lo_put = (\<lambda>i f v d. (d, True)),
     lo_delete = (\<lambda>i d. (d, False)), lo_all = (\<lambda>d. map (\<lambda>c. ([c], Child Map.empty)) (remdups d)),
     lo_export = Some, lo_import = (\<lambda>upd d. (d @ upd, True)),
     lo_items = (\<lambda>d i. if \<exists>c \<in> set d. i = [c] then Some (Child Map.empty) else None)\<rparr>"

lemma of_char_set_eq:
  assumes "(of_char :: char \<Rightarrow> nat) ` A = of_char ` B"
  shows "A = B"
proof -
  have "inj (of_char :: char \<Rightarrow> nat)" by (metis char_of_char injI)
  then show ?thesis using assms by (simp add: inj_image_eq_iff)
qed

lemma grow_loro_fields:
  "lo_export grow_loro d = Some d" "lo_import grow_loro upd d = (d @ upd, True)"
  "lo_items grow_loro d = (\<lambda>i. if \<exists>c \<in> set d. i = [c] then Some (Child Map.empty) else None)"
  by (simp_all add: grow_loro_def)

lemma grow_merge_laws: "merge_laws grow_loro (\<lambda>d. of_char ` set d) (\<lambda>d. of_char ` set d)"
  unfolding merge_laws_def
proof (intro conjI allI impI)
  fix d d' :: string
  assume "(of_char ` set d :: nat set) = of_char ` set d'"
  then have "set d = set d'" by (rule of_char_set_eq)
  then show "lo_items grow_loro d = lo_items grow_loro d'" by (simp add: grow_loro_fields)
qed (auto simp: grow_loro_fields)

definition grow_store :: "string \<Rightarrow> (row list, string, nats_msg list) crdt_store" where
  "grow_store d = set_doc ''u1'' d (crdt_new (mem_app []) grow_loro [] 0 (\<lambda>u v i. 0))"

theorem replicas_converge_witness:
  "\<exists>a' b'. fst (apply_remote_op ''u1'' \<lparr>op_id = ''j'', op_publisher = fingerprint ''b'', op_owner = ''u1'', op_updates = ''yz''\<rparr> (grow_store ''x'')) = a' \<and>
    fst (apply_remote_op ''u1'' \<lparr>op_id = ''i'', op_publisher = fingerprint ''a'', op_owner = ''u1'', op_updates = ''x''\<rparr> (grow_store ''yz'')) = b' \<and>
    crdt_view a' ''u1'' = crdt_view b' ''u1''"
proof -
  let ?ta = "\<lparr>tr_js = Some list_js, tr_publisher = ''a''\<rparr>"
  let ?tb = "\<lparr>tr_js = Some list_js, tr_publisher = ''b''\<rparr>"
  let ?xb = "\<lparr>op_id = ''j'', op_publisher = fingerprint ''b'', op_owner = ''u1'', op_updates = ''yz''\<rparr>"
  let ?xa = "\<lparr>op_id = ''i'', op_publisher = fingerprint ''a'', op_owner = ''u1'', op_updates = ''x''\<rparr>"
  have ne: "fnv32a ''a'' \<noteq> fnv32a ''b''" by (simp add: fnv32a_def fnv32a_step_def)
  have xb: "on_message ?ta ''u1'' (op_message ?tb ''u1'' ''j'' ''yz'') = Some ?xb"
    using ne on_message_published [of ?ta "''b''" "''j''"] by (simp add: op_message_def fingerprint_def)
  have xa: "on_message ?tb ''u1'' (op_message ?ta ''u1'' ''i'' ''x'') = Some ?xa"
    using ne on_message_published [of ?tb "''a''" "''i''"] by (simp add: op_message_def fingerprint_def)
  have same: "apply_remote_op u x s = apply_remote_op u \<lparr>op_id = '''', op_publisher = '''', op_owner = '''',
      op_updates = op_updates x\<rparr> s" for u x and s :: "(row list, string, nats_msg list) crdt_store"
    by (simp add: apply_remote_op_def)
  have eval: "snd (apply_remote_op ''u1'' \<lparr>op_id = '''', op_publisher = '''', op_owner = '''', op_updates = ''yz''\<rparr>
      (grow_store ''x'')) = None"
    "snd (apply_remote_op ''u1'' \<lparr>op_id = '''', op_publisher = '''', op_owner = '''', op_updates = ''x''\<rparr>
      (grow_store ''yz'')) = None"
    by code_simp+
  have "snd (apply_remote_op ''u1'' ?xb (grow_store ''x'')) = None"
    "snd (apply_remote_op ''u1'' ?xa (grow_store ''yz'')) = None"
    using eval same [of "''u1''" ?xb] same [of "''u1''" ?xa] by simp_all
  then obtain a' b' where a: "apply_remote_op ''u1'' ?xb (grow_store ''x'') = (a', None)"
    and b: "apply_remote_op ''u1'' ?xa (grow_store ''yz'') = (b', None)"
    by (metis prod.collapse)
  have t: "table_ok (grow_store ''x'')"
    by (simp add: table_ok_def grow_store_def crdt_new_def set_doc_def crdt_rows_def mem_app_laws well_formed_rows_def)
  have "crdt_view a' ''u1'' = crdt_view b' ''u1'' \<and>
      (\<forall>v m. v \<noteq> ''>'' \<longrightarrow> crdt_view (on_remote_op ?ta m (grow_store ''x'')) v = crdt_view (grow_store ''x'') v)"
    by (rule replicas_converge [OF grow_merge_laws, where a = "grow_store ''x''" and b = "grow_store ''yz''"
        and ta = ?ta and tb = ?tb and i = "''i''" and j = "''j''" and xa = ?xa and xb = ?xb
        and ua = "''x''" and ub = "''yz''" and da = "''x''" and db = "''yz''"])
      (use a b xa xb t in \<open>simp_all add: grow_store_def crdt_new_def grow_loro_def set_doc_def\<close>)
  with a b show ?thesis by simp
qed

end
