(* ===== verification/Auth.thy ===== *)
theory Auth
  imports GoLib
begin

text \<open>
  Requests and replies, and the session layer of \<open>features/auth/auth.go\<close> and \<open>wiring.go\<close>: the two
  cookie middlewares, the guards, login and logout.  PocketBase's account store and token service are
  the parameter \<open>accounts\<close>; the browser's cookie jar follows the \<open>Max-Age\<close> rule of HTTP.  A form is
  \<open>None\<close> when \<open>ParseForm\<close> fails; a missing form field, query key or header reads as the empty string.
\<close>

subsection \<open>Requests and replies\<close>

record user =
  us_id :: string
  us_email :: string

record request =
  rq_path :: string
  rq_cookies :: "string \<rightharpoonup> string"
  rq_query :: "string \<Rightarrow> string"
  rq_form :: "(string \<Rightarrow> string) option"
  rq_header :: "string \<Rightarrow> string"
  rq_path_id :: string

definition form_value :: "request \<Rightarrow> string \<Rightarrow> string" where
  "form_value rq k = (case rq_form rq of None \<Rightarrow> '''' | Some f \<Rightarrow> f k)"

record cookie =
  ck_name :: string
  ck_value :: string
  ck_path :: string
  ck_http_only :: bool
  ck_secure :: bool
  ck_lax :: bool
  ck_max_age :: int

record event =
  ev_req :: request
  ev_auth :: "user option"
  ev_set_cookies :: "cookie list"

datatype reply =
    Text nat string
  | Redirect nat string
  | LoginPage string string
  | Continued

record accounts =
  ac_by_token :: "string \<Rightarrow> user option"
  ac_by_email :: "string \<Rightarrow> user option"
  ac_password_ok :: "user \<Rightarrow> string \<Rightarrow> bool"
  ac_new_token :: "user \<Rightarrow> string option"

definition cookie_name :: string where
  "cookie_name = ''gogogo_auth''"

definition pb_auth_cookie_name :: string where
  "pb_auth_cookie_name = ''pb_auth''"

definition session_max_age_seconds :: int where
  "session_max_age_seconds = 7 * 24 * 60 * 60"

subsection \<open>Cookies\<close>

definition session_cookie :: "bool \<Rightarrow> int \<Rightarrow> string \<Rightarrow> string \<Rightarrow> cookie" where
  "session_cookie secure age v name = \<lparr>ck_name = name, ck_value = v, ck_path = ''/'',
     ck_http_only = True, ck_secure = secure, ck_lax = True, ck_max_age = age\<rparr>"

definition set_auth_cookie :: "bool \<Rightarrow> string \<Rightarrow> event \<Rightarrow> event" where
  "set_auth_cookie secure token e = e\<lparr>ev_set_cookies := ev_set_cookies e @
     [session_cookie secure session_max_age_seconds token cookie_name,
      session_cookie secure session_max_age_seconds token pb_auth_cookie_name]\<rparr>"

definition clear_auth_cookie :: "bool \<Rightarrow> event \<Rightarrow> event" where
  "clear_auth_cookie secure e = e\<lparr>ev_set_cookies := ev_set_cookies e @
     map (session_cookie secure (- 1) '''') [cookie_name, pb_auth_cookie_name]\<rparr>"

subsection \<open>Middleware and guards\<close>

text \<open>\<open>e.Next()\<close> runs the rest of the chain, the argument \<open>nxt\<close>.\<close>

definition skipped_path :: "string \<Rightarrow> bool" where
  "skipped_path p \<longleftrightarrow> p = ''/health'' \<or> has_prefix p ''/_/'' \<or>
     (has_prefix p ''/api/'' \<and> p \<noteq> ''/api/realtime'') \<or> has_prefix p ''/static/''"

definition request_token :: "event \<Rightarrow> string" where
  "request_token e = zero_get '''' (rq_cookies (ev_req e)) cookie_name"

definition load_auth_from_cookie :: "accounts \<Rightarrow> bool \<Rightarrow> (event \<Rightarrow> 'r) \<Rightarrow> event \<Rightarrow> 'r" where
  "load_auth_from_cookie ac secure nxt e =
     (if skipped_path (rq_path (ev_req e)) then nxt e
      else if request_token e = '''' then nxt e
      else case ac_by_token ac (request_token e) of
             None \<Rightarrow> nxt (clear_auth_cookie secure e)
           | Some u \<Rightarrow> nxt (e\<lparr>ev_auth := Some u\<rparr>))"

definition load_app_auth :: "accounts \<Rightarrow> (event \<Rightarrow> 'r) \<Rightarrow> event \<Rightarrow> 'r" where
  "load_app_auth ac nxt e =
     (if request_token e = '''' then nxt e
      else case ac_by_token ac (request_token e) of
             None \<Rightarrow> nxt e
           | Some u \<Rightarrow> nxt (e\<lparr>ev_auth := Some u\<rparr>))"

definition require_auth_or_redirect :: "(event \<Rightarrow> event \<times> reply) \<Rightarrow> event \<Rightarrow> event \<times> reply" where
  "require_auth_or_redirect nxt e =
     (if ev_auth e \<noteq> None then nxt e else (e, Redirect 303 ''/login''))"

definition redirect_if_authed :: "(event \<Rightarrow> event \<times> reply) \<Rightarrow> event \<Rightarrow> event \<times> reply" where
  "redirect_if_authed nxt e =
     (if ev_auth e \<noteq> None then (e, Redirect 303 ''/todo'') else nxt e)"

subsection \<open>Login and logout\<close>

definition render_login_page_to :: "event \<Rightarrow> string \<Rightarrow> event \<times> reply" where
  "render_login_page_to e msg =
     (let n = rq_query (ev_req e) ''next''
      in (e, LoginPage (if n = '''' then ''/todo'' else n) msg))"

definition handle_login_get :: "accounts \<Rightarrow> event \<Rightarrow> event \<times> reply" where
  "handle_login_get ac e = render_login_page_to e
     (if request_token e \<noteq> '''' \<and> ac_by_token ac (request_token e) = None
      then ''Session expired. Please sign in again.'' else '''')"

definition handle_login_get_with_redirect :: "accounts \<Rightarrow> event \<Rightarrow> event \<times> reply" where
  "handle_login_get_with_redirect ac e =
     (if ev_auth e \<noteq> None then (e, Redirect 303 ''/todo'') else handle_login_get ac e)"

text \<open>The login hook, when one is set, runs on the application's state.\<close>

definition fire_on_login :: "(string \<Rightarrow> 'w \<Rightarrow> 'w) option \<Rightarrow> string \<Rightarrow> 'w \<Rightarrow> 'w" where
  "fire_on_login hook uid w = (case hook of None \<Rightarrow> w | Some f \<Rightarrow> f uid w)"

definition handle_password_login ::
  "accounts \<Rightarrow> bool \<Rightarrow> (string \<Rightarrow> 'w \<Rightarrow> 'w) option \<Rightarrow> event \<Rightarrow> 'w \<Rightarrow> 'w \<times> event \<times> reply" where
  "handle_password_login ac secure hook e w =
     (let rq = ev_req e; email = form_value rq ''email''; password = form_value rq ''password'' in
      if rq_form rq = None then (w, render_login_page_to e ''Invalid form submission'')
      else if email = '''' \<or> password = ''''
           then (w, render_login_page_to e ''Email and password required'')
      else case ac_by_email ac email of
             None \<Rightarrow> (w, render_login_page_to e ''Wrong email or password'')
           | Some u \<Rightarrow>
               if \<not> ac_password_ok ac u password
               then (w, render_login_page_to e ''Wrong email or password'')
               else case ac_new_token ac u of
                      None \<Rightarrow> (w, render_login_page_to e ''Could not issue auth token'')
                    | Some token \<Rightarrow>
                        (fire_on_login hook (us_id u) w, set_auth_cookie secure token e,
                         Redirect 303 (form_value rq ''next'')))"

definition handle_logout :: "bool \<Rightarrow> event \<Rightarrow> event \<times> reply" where
  "handle_logout secure e = (clear_auth_cookie secure e, Redirect 303 ''/login'')"

subsection \<open>The browser\<close>

definition jar_step :: "(string \<rightharpoonup> string) \<Rightarrow> cookie \<Rightarrow> (string \<rightharpoonup> string)" where
  "jar_step jar c = (if ck_max_age c < 0 then jar(ck_name c := None) else jar(ck_name c \<mapsto> ck_value c))"

definition jar_after :: "(string \<rightharpoonup> string) \<Rightarrow> event \<Rightarrow> (string \<rightharpoonup> string)" where
  "jar_after jar e = foldl jar_step jar (ev_set_cookies e)"

definition fresh_event :: "request \<Rightarrow> event" where
  "fresh_event rq = \<lparr>ev_req = rq, ev_auth = None, ev_set_cookies = []\<rparr>"

lemma cookie_names_differ [simp]: "cookie_name \<noteq> pb_auth_cookie_name" "pb_auth_cookie_name \<noteq> cookie_name"
  by (simp_all add: cookie_name_def pb_auth_cookie_name_def)

lemma fresh_event_fields [simp]:
  "ev_req (fresh_event rq) = rq" "ev_auth (fresh_event rq) = None" "ev_set_cookies (fresh_event rq) = []"
  by (simp_all add: fresh_event_def)

lemma request_token_fresh [simp]:
  "request_token (fresh_event rq) = zero_get '''' (rq_cookies rq) cookie_name"
  by (simp add: request_token_def)

lemma render_login_page_eq [simp]:
  "fst (render_login_page_to e msg) = e"
  "\<exists>n. snd (render_login_page_to e msg) = LoginPage n msg"
  by (simp_all add: render_login_page_to_def Let_def)

lemma jar_after_login [simp]:
  "jar_after jar (set_auth_cookie secure tok (fresh_event rq)) =
     jar(cookie_name \<mapsto> tok, pb_auth_cookie_name \<mapsto> tok)"
  by (simp add: jar_after_def set_auth_cookie_def jar_step_def session_cookie_def session_max_age_seconds_def)

lemma jar_after_clear [simp]:
  "jar_after jar (clear_auth_cookie secure (fresh_event rq)) =
     jar(cookie_name := None, pb_auth_cookie_name := None)"
  by (simp add: jar_after_def clear_auth_cookie_def jar_step_def session_cookie_def)

subsection \<open>Properties\<close>

text \<open>C21: A session lives from login to logout: after a login succeeds, every request of the browser
  whose jar took the answer's cookies is that user's, on every path the global middleware serves and
  on every API route that loads the session itself, and PocketBase's own cookie carries the same
  token; after the logout both cookies are gone and no request is authenticated.\<close>
theorem session_lifecycle:
  assumes "handle_password_login ac secure hook (fresh_event rq) w = (w', e', Redirect c loc)"
    and "\<And>u tok. ac_new_token ac u = Some tok \<Longrightarrow> tok \<noteq> '''' \<and> ac_by_token ac tok = Some u"
    and "rq_cookies rqa = jar_after (rq_cookies rq) e'"
    and "rq_cookies rqb = jar_after (rq_cookies rqa) (fst (handle_logout secure (fresh_event rqa)))"
  shows "\<exists>u. ac_by_email ac (form_value rq ''email'') = Some u \<and>
    ac_password_ok ac u (form_value rq ''password'') \<and>
    load_app_auth ac ev_auth (fresh_event rqa) = Some u \<and>
    (\<not> skipped_path (rq_path rqa) \<longrightarrow>
       load_auth_from_cookie ac secure ev_auth (fresh_event rqa) = Some u) \<and>
    rq_cookies rqa pb_auth_cookie_name = rq_cookies rqa cookie_name \<and>
    load_app_auth ac ev_auth (fresh_event rqb) = None \<and>
    load_auth_from_cookie ac secure ev_auth (fresh_event rqb) = None \<and>
    rq_cookies rqb pb_auth_cookie_name = None"
proof -
  from assms(1) obtain u tok where u: "ac_by_email ac (form_value rq ''email'') = Some u"
    "ac_password_ok ac u (form_value rq ''password'')" "ac_new_token ac u = Some tok"
    "e' = set_auth_cookie secure tok (fresh_event rq)"
    by (auto simp: handle_password_login_def Let_def render_login_page_to_def
      split: if_splits option.splits)
  with assms(2) have tok: "tok \<noteq> ''''" "ac_by_token ac tok = Some u" by auto
  have jar: "rq_cookies rqa = (rq_cookies rq)(cookie_name \<mapsto> tok, pb_auth_cookie_name \<mapsto> tok)"
    by (simp add: assms(3) u(4))
  have gone: "rq_cookies rqb = (rq_cookies rqa)(cookie_name := None, pb_auth_cookie_name := None)"
    by (simp add: assms(4) handle_logout_def)
  show ?thesis
    using u(1,2) tok by (intro exI [of _ u])
      (simp add: load_app_auth_def load_auth_from_cookie_def jar gone)
qed

definition one_account :: accounts where
  "one_account = \<lparr>ac_by_token = (\<lambda>t. if t = ''tok-ann'' then Some \<lparr>us_id = ''ann'', us_email = ''a@x''\<rparr> else None),
     ac_by_email = (\<lambda>e. if e = ''a@x'' then Some \<lparr>us_id = ''ann'', us_email = ''a@x''\<rparr> else None),
     ac_password_ok = (\<lambda>u p. p = ''pw''),
     ac_new_token = (\<lambda>u. if u = \<lparr>us_id = ''ann'', us_email = ''a@x''\<rparr> then Some ''tok-ann'' else None)\<rparr>"

definition login_request :: "string \<Rightarrow> request" where
  "login_request nxt = \<lparr>rq_path = ''/login'', rq_cookies = Map.empty, rq_query = (\<lambda>_. ''''),
     rq_form = Some (\<lambda>k. if k = ''email'' then ''a@x'' else if k = ''password'' then ''pw''
       else if k = ''next'' then nxt else ''''),
     rq_header = (\<lambda>_. ''''), rq_path_id = ''''\<rparr>"

lemma login_request_run:
  "handle_password_login one_account True None (fresh_event (login_request n)) w =
     (w, set_auth_cookie True ''tok-ann'' (fresh_event (login_request n)), Redirect 303 n)"
  by (simp add: handle_password_login_def login_request_def one_account_def form_value_def
    fire_on_login_def Let_def)

theorem session_lifecycle_witness:
  "\<exists>u. ac_by_email one_account (form_value (login_request ''/todo'') ''email'') = Some u \<and>
    load_app_auth one_account ev_auth (fresh_event ((login_request ''/todo'')\<lparr>rq_path := ''/api/todos'',
      rq_cookies := [cookie_name \<mapsto> ''tok-ann'', pb_auth_cookie_name \<mapsto> ''tok-ann'']\<rparr>)) = Some u"
proof -
  let ?q = "(login_request ''/todo'')\<lparr>rq_path := ''/api/todos'',
      rq_cookies := [cookie_name \<mapsto> ''tok-ann'', pb_auth_cookie_name \<mapsto> ''tok-ann'']\<rparr>"
  let ?r = "(login_request ''/todo'')\<lparr>rq_cookies := Map.empty\<rparr>"
  have t: "ac_new_token one_account u = Some tok \<Longrightarrow> tok \<noteq> '''' \<and> ac_by_token one_account tok = Some u" for u tok
    by (simp add: one_account_def split: if_splits)
  have q: "rq_cookies ?q = jar_after (rq_cookies (login_request ''/todo''))
      (set_auth_cookie True ''tok-ann'' (fresh_event (login_request ''/todo'')))"
    by (simp add: login_request_def)
  have r: "rq_cookies ?r = jar_after (rq_cookies ?q) (fst (handle_logout True (fresh_event ?q)))"
    by (simp add: handle_logout_def fun_eq_iff)
  show ?thesis
    using session_lifecycle [OF login_request_run [of "''/todo''" "()"] t q r] by blast
qed

text \<open>A failed login gives nothing away and changes nothing: without a registered email and its
  password no cookie is set, the login hook does not run and the answer is the login page; an unknown
  email and a wrong password get the same answer.\<close>
lemma failed_login_is_silent:
  assumes "\<And>u. ac_by_email ac (form_value rq ''email'') = Some u \<Longrightarrow>
      \<not> ac_password_ok ac u (form_value rq ''password'')"
  shows "handle_password_login ac secure hook (fresh_event rq) w =
      (w, fresh_event rq, snd (snd (handle_password_login ac secure hook (fresh_event rq) w))) \<and>
    (\<exists>n m. snd (snd (handle_password_login ac secure hook (fresh_event rq) w)) = LoginPage n m) \<and>
    handle_password_login ac secure hook (fresh_event rq) w =
      handle_password_login (ac\<lparr>ac_by_email := \<lambda>_. None\<rparr>) secure hook (fresh_event rq) w"
  using assms by (auto simp: handle_password_login_def Let_def render_login_page_to_def
    split: option.splits)

lemma failed_login_is_silent_witness:
  "\<exists>n m. snd (snd (handle_password_login (one_account\<lparr>ac_password_ok := \<lambda>_ _. False\<rparr>) True
     (Some (\<lambda>u w. u # w)) (fresh_event (login_request ''/todo'')) [])) = LoginPage n m"
  by (rule failed_login_is_silent [of "one_account\<lparr>ac_password_ok := \<lambda>_ _. False\<rparr>" "login_request ''/todo''"
    True "Some (\<lambda>u w. u # w)" "[]", THEN conjunct2, THEN conjunct1]) simp

text \<open>A successful login sends the browser to whatever the form's \<open>next\<close> field says, any other
  origin included, and a failed one forgets the field: the page it shows goes to \<open>/todo\<close> next, since
  the destination is then read from the query.\<close>
lemma login_next_unchecked:
  assumes "ac_by_email ac (form_value rq ''email'') = Some u" and "form_value rq ''email'' \<noteq> ''''"
    and "form_value rq ''password'' \<noteq> ''''" and "ac_new_token ac u = Some tok"
    and "rq_query rq ''next'' = ''''"
  shows "snd (snd (handle_password_login ac secure hook (fresh_event rq) w)) =
    (if ac_password_ok ac u (form_value rq ''password'') then Redirect 303 (form_value rq ''next'')
     else LoginPage ''/todo'' ''Wrong email or password'')"
  using assms by (auto simp: handle_password_login_def Let_def render_login_page_to_def form_value_def
    split: option.splits)

lemma login_next_unchecked_witness:
  "snd (snd (handle_password_login one_account True None
     (fresh_event (login_request ''https://evil.example/'')) ())) = Redirect 303 ''https://evil.example/''"
  using login_next_unchecked [of one_account "login_request ''https://evil.example/''"
      "\<lparr>us_id = ''ann'', us_email = ''a@x''\<rparr>" "''tok-ann''" True None "()"]
  by (simp add: one_account_def login_request_def form_value_def)

end
