(* ===== verification/CrudProxy.thy ===== *)
theory CrudProxy
  imports Json PBStore
begin

text \<open>
  Cross-instance sync of CRUD operations, \<open>internal/nats/crudproxy.go\<close>: the payload and its JSON form,
  the publisher, and the consumer that writes received operations into its own PocketBase.  JetStream
  is a publish call on a server state \<open>'js\<close> (this publisher sends no message ids) and PocketBase the
  \<open>core_app\<close> of the storage theories, with one more call: saving a new record whose id is already set.
\<close>

subsection \<open>Payloads\<close>

record crud_data =
  cd_id :: string
  cd_title :: string
  cd_completed :: bool

record crud_payload =
  cp_op :: string
  cp_user :: string
  cp_data :: "crud_data option"

definition crud_op_create :: string where "crud_op_create = ''create''"
definition crud_op_toggle :: string where "crud_op_toggle = ''toggle''"
definition crud_op_delete :: string where "crud_op_delete = ''delete''"
definition crud_op_clear_completed :: string where "crud_op_clear_completed = ''clear_completed''"
definition crud_subject_prefix :: string where "crud_subject_prefix = ''app.crud.todo.''"
definition crud_stream_name :: string where "crud_stream_name = ''APP_CRUD''"

text \<open>Empty fields are left out (\<open>omitempty\<close>).\<close>

definition crud_data_json :: "crud_data \<Rightarrow> jval" where
  "crud_data_json d = JObj (
     (if cd_id d \<noteq> '''' then [(''id'', JStr (cd_id d))] else []) @
     (if cd_title d \<noteq> '''' then [(''title'', JStr (cd_title d))] else []) @
     (if cd_completed d then [(''completed'', JBool True)] else []))"

definition crud_payload_json :: "crud_payload \<Rightarrow> jval" where
  "crud_payload_json p = JObj ([(''op'', JStr (cp_op p)), (''userId'', JStr (cp_user p))] @
     (case cp_data p of None \<Rightarrow> [] | Some d \<Rightarrow> [(''data'', crud_data_json d)]))"

definition empty_crud_data :: crud_data where
  "empty_crud_data = \<lparr>cd_id = '''', cd_title = '''', cd_completed = False\<rparr>"

definition dec_crud_data :: "crud_data option \<Rightarrow> jval \<Rightarrow> crud_data option option" where
  "dec_crud_data old v = (case v of
     JNull \<Rightarrow> Some None
   | JObj kvs \<Rightarrow>
       (let z = (case old of None \<Rightarrow> empty_crud_data | Some d \<Rightarrow> d) in
        case decode_field dec_str (cd_id z) ''id'' kvs of None \<Rightarrow> None | Some i \<Rightarrow>
       (case decode_field dec_str (cd_title z) ''title'' kvs of None \<Rightarrow> None | Some t \<Rightarrow>
       (case decode_field dec_bool (cd_completed z) ''completed'' kvs of None \<Rightarrow> None | Some c \<Rightarrow>
         Some (Some \<lparr>cd_id = i, cd_title = t, cd_completed = c\<rparr>))))
   | _ \<Rightarrow> None)"

definition decode_crud_json :: "jval \<Rightarrow> crud_payload option" where
  "decode_crud_json v = (case v of
     JNull \<Rightarrow> Some \<lparr>cp_op = '''', cp_user = '''', cp_data = None\<rparr>
   | JObj kvs \<Rightarrow>
       (case decode_field dec_str '''' ''op'' kvs of None \<Rightarrow> None | Some o' \<Rightarrow>
       (case decode_field dec_str '''' ''userId'' kvs of None \<Rightarrow> None | Some u \<Rightarrow>
       (case decode_field dec_crud_data None ''data'' kvs of None \<Rightarrow> None | Some d \<Rightarrow>
         Some \<lparr>cp_op = o', cp_user = u, cp_data = d\<rparr>)))
   | _ \<Rightarrow> None)"

definition encode_crud :: "crud_payload \<Rightarrow> bytes" where
  "encode_crud p = marshal (crud_payload_json p)"

definition decode_crud :: "bytes \<Rightarrow> crud_payload option" where
  "decode_crud b = (case unmarshal b of None \<Rightarrow> None | Some v \<Rightarrow> decode_crud_json v)"

subsection \<open>Publisher\<close>

text \<open>\<open>None\<close> is the nil publisher; the connection is absent when NATS is disabled.\<close>

record 'js nats_conn =
  nc_publish :: "string \<Rightarrow> bytes \<Rightarrow> 'js \<Rightarrow> 'js \<times> bool"
  nc_add_stream :: "string \<Rightarrow> string list \<Rightarrow> 'js \<Rightarrow> 'js \<times> string option"

record 'js crud_publisher =
  pb_conn :: "'js nats_conn"
  pb_done :: bool

definition new_crud_publisher :: "'js nats_conn option \<Rightarrow> 'js \<Rightarrow> 'js \<times> 'js crud_publisher option" where
  "new_crud_publisher conn js = (case conn of
     None \<Rightarrow> (js, None)
   | Some nc \<Rightarrow> (case nc_add_stream nc crud_stream_name [crud_subject_prefix @ ''>''] js of
        (js', err) \<Rightarrow>
          (if err \<noteq> None \<and> err \<noteq> Some ''stream already exists'' then (js', None)
           else (js', Some \<lparr>pb_conn = nc, pb_done = False\<rparr>))))"

definition crud_publish ::
  "'js crud_publisher option \<Rightarrow> string \<Rightarrow> string \<Rightarrow> crud_data option \<Rightarrow> 'js \<Rightarrow> 'js" where
  "crud_publish p opn u d js = (case p of
     None \<Rightarrow> js
   | Some pub \<Rightarrow> fst (nc_publish (pb_conn pub) (crud_subject_prefix @ opn)
       (encode_crud \<lparr>cp_op = opn, cp_user = u, cp_data = d\<rparr>) js))"

definition crud_close :: "'js crud_publisher option \<Rightarrow> 'js crud_publisher option" where
  "crud_close p = map_option (\<lambda>pub. pub\<lparr>pb_done := True\<rparr>) p"

subsection \<open>Consumer\<close>

type_synonym 'db insert_call = "'db \<Rightarrow> string \<Rightarrow> row \<Rightarrow> 'db \<times> row option"

definition todos_coll :: string where "todos_coll = ''todos''"

definition with_db :: "'db core_app \<Rightarrow> 'db \<Rightarrow> 'db core_app" where
  "with_db a db = a\<lparr>ca_db := db\<rparr>"

definition consume_create :: "'db insert_call \<Rightarrow> crud_payload \<Rightarrow> 'db core_app \<Rightarrow> 'db core_app" where
  "consume_create ins p a = (case cp_data p of
     None \<Rightarrow> a
   | Some d \<Rightarrow>
       if cd_title d = '''' then a
       else case ca_find_col a (ca_db a) todos_coll of
              ColFound \<Rightarrow>
                (let r0 = (if cd_id d \<noteq> '''' then new_row\<lparr>rw_id := cd_id d\<rparr> else new_row);
                     r1 = ca_set a ''title'' (PStr (cd_title d)) r0;
                     r2 = ca_set a ''completed'' (PBool (cd_completed d)) r1;
                     r3 = ca_set a ''owner'' (PStr (cp_user p)) r2
                 in with_db a (fst (if cd_id d \<noteq> '''' then ins (ca_db a) todos_coll r3
                                    else ca_save a (ca_db a) todos_coll r3)))
            | _ \<Rightarrow> a)"

definition consume_toggle :: "crud_payload \<Rightarrow> 'db core_app \<Rightarrow> 'db core_app" where
  "consume_toggle p a = (case cp_data p of
     None \<Rightarrow> a
   | Some d \<Rightarrow>
       if cd_id d = '''' then a
       else case ca_find_by_id a (ca_db a) todos_coll (cd_id d) of
              None \<Rightarrow> a
            | Some r \<Rightarrow>
                if rw_owner r \<noteq> '''' \<and> rw_owner r \<noteq> cp_user p then a
                else with_db a (fst (ca_save a (ca_db a) todos_coll
                       (ca_set a ''completed'' (PBool (cd_completed d)) r))))"

definition consume_delete :: "crud_payload \<Rightarrow> 'db core_app \<Rightarrow> 'db core_app" where
  "consume_delete p a = (case cp_data p of
     None \<Rightarrow> a
   | Some d \<Rightarrow>
       if cd_id d = '''' then a
       else case ca_find_by_id a (ca_db a) todos_coll (cd_id d) of
              None \<Rightarrow> a
            | Some r \<Rightarrow>
                if rw_owner r \<noteq> '''' \<and> rw_owner r \<noteq> cp_user p then a
                else with_db a (fst (ca_delete a (ca_db a) todos_coll r)))"

definition delete_each :: "row list \<Rightarrow> 'db core_app \<Rightarrow> 'db core_app" where
  "delete_each rs a = foldl (\<lambda>a r. with_db a (fst (ca_delete a (ca_db a) todos_coll r))) a rs"

definition consume_clear :: "crud_payload \<Rightarrow> 'db core_app \<Rightarrow> 'db core_app" where
  "consume_clear p a =
     (case ca_find a (ca_db a) todos_coll [CompletedIs True, OwnerIs (cp_user p)] '''' 0 of
        Rows rs \<Rightarrow> delete_each rs a
      | _ \<Rightarrow> a)"

definition consume_op :: "'db insert_call \<Rightarrow> crud_payload \<Rightarrow> 'db core_app \<Rightarrow> 'db core_app" where
  "consume_op ins p a =
     (if cp_op p = crud_op_create then consume_create ins p a
      else if cp_op p = crud_op_toggle then consume_toggle p a
      else if cp_op p = crud_op_delete then consume_delete p a
      else if cp_op p = crud_op_clear_completed then consume_clear p a
      else a)"

text \<open>The subscription callback: the new database and whether the message was acknowledged.\<close>

definition on_crud_message :: "'db insert_call \<Rightarrow> bytes \<Rightarrow> 'db core_app \<Rightarrow> 'db core_app \<times> bool" where
  "on_crud_message ins b a = (case decode_crud b of
     None \<Rightarrow> (a, False)
   | Some p \<Rightarrow> if cp_user p = '''' then (a, False) else (consume_op ins p a, True))"

subsection \<open>The wire format\<close>

lemma wf_crud_payload [simp]: "wf_json (crud_payload_json p)"
  by (auto simp: crud_payload_json_def crud_data_json_def split: option.splits)

lemma crud_lower_names [simp]:
  "to_lower ''op'' = ''op''" "to_lower ''userId'' = ''userid''" "to_lower ''data'' = ''data''"
  "to_lower ''id'' = ''id''" "to_lower ''title'' = ''title''" "to_lower ''completed'' = ''completed''"
  by code_simp+

lemma dec_crud_data_json: "dec_crud_data None (crud_data_json d) = Some (Some d)"
  by (cases d) (simp add: dec_crud_data_def crud_data_json_def decode_field_Cons empty_crud_data_def Let_def)

lemma decode_encode_crud: "decode_crud (encode_crud p) = Some p"
proof -
  have "decode_crud_json (crud_payload_json p) = Some p"
    by (cases p; cases "cp_data p")
      (simp_all add: decode_crud_json_def crud_payload_json_def decode_field_Cons dec_crud_data_json)
  then show ?thesis by (simp add: decode_crud_def encode_crud_def)
qed

subsection \<open>The consumer's operations are the store's\<close>

text \<open>The consumer's database, seen as a PocketBase store.\<close>

abbreviation store_of :: "'db core_app \<Rightarrow> 'db pb_store" where
  "store_of a \<equiv> pb_new a todos_coll"

definition crud_inv :: "'db core_app \<Rightarrow> bool" where
  "crud_inv a = pb_inv (store_of a)"

definition crud_view :: "'db core_app \<Rightarrow> string \<Rightarrow> string \<rightharpoonup> string \<times> bool" where
  "crud_view a = pb_view (store_of a)"

lemma store_of_fields [simp]:
  "ps_app (pb_new a c) = a" "ps_coll (pb_new a c) = c" "pb_rows (pb_new a c) = rows_of a c"
  "set_db db (pb_new a c) = pb_new (with_db a db) c"
  by (simp_all add: pb_new_def pb_rows_def set_db_def with_db_def)

lemma with_db_fields [simp]:
  "ca_db (with_db a db) = db" "ca_rows (with_db a db) = ca_rows a" "ca_delete (with_db a db) = ca_delete a"
  "ca_save (with_db a db) = ca_save a" "ca_find_by_id (with_db a db) = ca_find_by_id a"
  "ca_find (with_db a db) = ca_find a" "ca_find_col (with_db a db) = ca_find_col a"
  "ca_set (with_db a db) = ca_set a" "with_db (with_db a d) db = with_db a db"
  by (simp_all add: with_db_def)

lemma with_db_self [simp]: "with_db a (ca_db a) = a"
  by (simp add: with_db_def)

lemma consume_toggle_store:
  assumes "cp_user p \<noteq> ''''" and "cp_data p = Some d" and "cd_id d \<noteq> ''''"
  shows "store_of (consume_toggle p a) =
    fst (pb_update (cp_user p) (cd_id d) [(''completed'', PBool (cd_completed d))] (store_of a))"
  using assms by (auto simp: consume_toggle_def pb_update_def pb_lookup_def Let_def
    split: option.splits prod.splits)

lemma consume_delete_store:
  assumes "cp_user p \<noteq> ''''" and "cp_data p = Some d" and "cd_id d \<noteq> ''''"
  shows "store_of (consume_delete p a) = fst (pb_delete (cp_user p) (cd_id d) (store_of a))"
  using assms by (auto simp: consume_delete_def pb_delete_def pb_lookup_def
    split: option.splits prod.splits bool.splits)

text \<open>
  What convergence needs of the receiving database: deletes go through, and saves of a stored row under its
  owner and key; for create messages also that a row with a new id goes in.  The last fails in a database
  with a unique index over key and owner once the owner has a row with an empty key.
\<close>

definition edits_available :: "'db core_app \<Rightarrow> bool" where
  "edits_available a \<longleftrightarrow> (\<forall>db r. ca_find_col a db todos_coll = ColFound \<and>
     snd (ca_delete a db todos_coll r) \<and>
     ((\<exists>x \<in> set (ca_rows a db todos_coll). rw_id x = rw_id r \<and> rw_owner x = rw_owner r \<and> rw_idem x = rw_idem r) \<longrightarrow>
        snd (ca_save a db todos_coll r) \<noteq> None))"

definition inserts_available :: "'db core_app \<Rightarrow> 'db insert_call \<Rightarrow> bool" where
  "inserts_available a ins \<longleftrightarrow> (\<forall>db r. rw_id r \<noteq> '''' \<longrightarrow> rw_id r \<notin> rw_id ` set (ca_rows a db todos_coll) \<longrightarrow>
     snd (ins db todos_coll r) \<noteq> None)"

text \<open>Saving a new record under a preset id: it is appended unless the id is taken.\<close>

definition insert_laws :: "'db core_app \<Rightarrow> 'db insert_call \<Rightarrow> bool" where
  "insert_laws a ins \<longleftrightarrow> (\<forall>db r. well_formed_rows (ca_rows a db todos_coll) \<longrightarrow> rw_id r \<noteq> '''' \<longrightarrow>
     (case ins db todos_coll r of
        (db', None) \<Rightarrow> ca_rows a db' todos_coll = ca_rows a db todos_coll
      | (db', Some r') \<Rightarrow> rw_id r \<notin> rw_id ` set (ca_rows a db todos_coll) \<and>
          (\<exists>st. same_row st r \<and> ca_rows a db' todos_coll = ca_rows a db todos_coll @ [st])))"

lemma crud_laws_with_db [simp]:
  "edits_available (with_db a db) = edits_available a"
  "inserts_available (with_db a db) ins = inserts_available a ins"
  "insert_laws (with_db a db) ins = insert_laws a ins"
  by (simp_all add: edits_available_def inserts_available_def insert_laws_def)

lemma delete_each_store:
  assumes "\<And>db r. snd (ca_delete a db todos_coll r)"
  shows "fst (delete_rows rs n (store_of a)) = store_of (delete_each rs a)"
  using assms
proof (induction rs arbitrary: n a)
  case (Cons r rs)
  obtain db where db: "ca_delete a (ca_db a) todos_coll r = (db, True)"
    using Cons.prems [of "ca_db a" r] by (metis (full_types) prod.collapse)
  show ?case
    using Cons.IH [of "with_db a db" "n + 1"] Cons.prems by (simp add: db delete_each_def)
qed (simp add: delete_each_def)

lemma delete_rows_no_error:
  assumes "\<And>db r. snd (ca_delete a db c r)"
  shows "snd (snd (delete_rows rs n (pb_new a c))) = None"
  using assms
proof (induction rs arbitrary: n a)
  case (Cons r rs)
  obtain db where db: "ca_delete a (ca_db a) c r = (db, True)"
    using Cons.prems [of "ca_db a" r] by (metis (full_types) prod.collapse)
  show ?case using Cons.IH [of "with_db a db" "n + 1"] Cons.prems by (simp add: db)
qed simp

lemma pb_find_rows:
  assumes "find_total a c" and "find_laws a c" and "well_formed_rows (rows_of a c)"
  shows "\<exists>rs. ca_find a (ca_db a) c f srt n = Rows rs"
proof -
  have "case ca_find a (ca_db a) c f srt n of NoRows \<Rightarrow> True | RowsErr \<Rightarrow> False | Rows rs \<Rightarrow> True"
    using assms(2,3) unfolding find_laws_def Let_def by (fastforce split: rows_result.splits)
  with assms(1) show ?thesis
    by (cases "ca_find a (ca_db a) c f srt n") (auto simp: find_total_def)
qed

lemma consume_clear_store:
  assumes "cp_user p \<noteq> ''''" and "\<And>db r. snd (ca_delete a db todos_coll r)"
    and "find_total a todos_coll" and "find_laws a todos_coll" and "well_formed_rows (rows_of a todos_coll)"
  shows "\<exists>n. pb_clear_completed (cp_user p) (store_of a) = (store_of (consume_clear p a), n, None)"
proof -
  have "\<exists>rs. ca_find a (ca_db a) todos_coll [CompletedIs True, OwnerIs (cp_user p)] '''' 0 = Rows rs"
    using pb_find_rows [OF assms(3-5)] by blast
  then obtain rs where rs: "ca_find a (ca_db a) todos_coll [CompletedIs True, OwnerIs (cp_user p)] '''' 0 = Rows rs"
    by blast
  then show ?thesis
    using delete_each_store [OF assms(2), of rs 0] delete_rows_no_error [of a todos_coll, OF assms(2), of rs 0] assms(1)
    by (cases "delete_rows rs 0 (store_of a)")
      (auto simp: pb_clear_completed_def find_list_def consume_clear_def)
qed

subsection \<open>What an operation does to an owner's todos\<close>

definition drop_completed :: "(string \<rightharpoonup> string \<times> bool) \<Rightarrow> string \<rightharpoonup> string \<times> bool" where
  "drop_completed v = (\<lambda>i. case v i of Some (x, c) \<Rightarrow> if c then None else Some (x, c) | None \<Rightarrow> None)"

definition crud_effect :: "crud_payload \<Rightarrow> (string \<rightharpoonup> string \<times> bool) \<Rightarrow> string \<rightharpoonup> string \<times> bool" where
  "crud_effect p v =
     (if cp_op p = crud_op_clear_completed then drop_completed v
      else case cp_data p of
        None \<Rightarrow> v
      | Some d \<Rightarrow>
          if cp_op p = crud_op_create
          then (if cd_title d = '''' \<or> v (cd_id d) \<noteq> None then v
                else v(cd_id d \<mapsto> (cd_title d, cd_completed d)))
          else if cp_op p = crud_op_toggle
          then (case v (cd_id d) of None \<Rightarrow> v | Some (t, _) \<Rightarrow> v(cd_id d \<mapsto> (t, cd_completed d)))
          else if cp_op p = crud_op_delete then v(cd_id d := None)
          else v)"

lemma crud_ops_distinct [simp]:
  "crud_op_create \<noteq> crud_op_toggle" "crud_op_create \<noteq> crud_op_delete"
  "crud_op_create \<noteq> crud_op_clear_completed" "crud_op_toggle \<noteq> crud_op_create"
  "crud_op_toggle \<noteq> crud_op_delete" "crud_op_toggle \<noteq> crud_op_clear_completed"
  "crud_op_delete \<noteq> crud_op_create" "crud_op_delete \<noteq> crud_op_toggle"
  "crud_op_delete \<noteq> crud_op_clear_completed" "crud_op_clear_completed \<noteq> crud_op_create"
  "crud_op_clear_completed \<noteq> crud_op_toggle" "crud_op_clear_completed \<noteq> crud_op_delete"
  by (simp_all add: crud_op_create_def crud_op_toggle_def crud_op_delete_def crud_op_clear_completed_def)

lemma patch_completed_known [simp]: "patch_known [(''completed'', PBool b)]"
  by (simp add: patch_known_def ex_bool_eq)

lemma crud_view_id:
  assumes "crud_inv a" and "\<And>v. crud_view a v i = None"
  shows "i \<notin> rw_id ` set (rows_of a todos_coll)"
proof
  assume "i \<in> rw_id ` set (rows_of a todos_coll)"
  then obtain r where "r \<in> set (rows_of a todos_coll)" "rw_id r = i" by blast
  with assms(2) [of "rw_owner r"] show False
    by (auto simp: crud_view_def pb_view_def row_view_None)
qed

lemma crud_view_has:
  assumes "crud_view a u i \<noteq> None"
  shows "i \<in> rw_id ` set (rows_of a todos_coll)"
  using assms by (auto simp: crud_view_def pb_view_def row_view_def find_Some_iff)

lemma insert_lawsD:
  assumes "insert_laws a ins" and "well_formed_rows (ca_rows a db todos_coll)" and "rw_id r \<noteq> ''''"
    and "ins db todos_coll r = (db', res)"
  shows "(case res of None \<Rightarrow> ca_rows a db' todos_coll = ca_rows a db todos_coll
    | Some r' \<Rightarrow> rw_id r \<notin> rw_id ` set (ca_rows a db todos_coll) \<and>
        (\<exists>st. same_row st r \<and> ca_rows a db' todos_coll = ca_rows a db todos_coll @ [st]))"
  using assms(1) [unfolded insert_laws_def, THEN spec, of db, THEN spec, of r] assms(2-)
  by (simp split: option.splits)

lemma edits_availableD:
  assumes "edits_available a"
  shows "ca_find_col a db todos_coll = ColFound" "snd (ca_delete a db todos_coll r)"
    "x \<in> set (ca_rows a db todos_coll) \<Longrightarrow> rw_id x = rw_id r \<Longrightarrow> rw_owner x = rw_owner r \<Longrightarrow> rw_idem x = rw_idem r \<Longrightarrow>
      snd (ca_save a db todos_coll r) \<noteq> None"
  using assms unfolding edits_available_def by blast+

lemma inserts_availableD:
  "inserts_available a ins \<Longrightarrow> rw_id r \<noteq> '''' \<Longrightarrow> rw_id r \<notin> rw_id ` set (ca_rows a db todos_coll) \<Longrightarrow>
    snd (ins db todos_coll r) \<noteq> None"
  by (simp add: inserts_available_def)

lemma consume_create_fresh:
  assumes "crud_inv a" and "edits_available a" and "inserts_available a ins" and "insert_laws a ins" and "cp_user p \<noteq> ''''"
    and "cp_data p = Some d" and "cd_id d \<noteq> ''''" and "cd_title d \<noteq> ''''"
    and "\<And>v. crud_view a v (cd_id d) = None"
  shows "crud_inv (consume_create ins p a) \<and>
    crud_view (consume_create ins p a) =
      (crud_view a)(cp_user p := (crud_view a (cp_user p))(cd_id d \<mapsto> (cd_title d, cd_completed d)))"
proof -
  let ?r = "new_row\<lparr>rw_id := cd_id d, rw_title := cd_title d, rw_completed := cd_completed d,
    rw_owner := cp_user p\<rparr>"
  note inv = assms(1) [unfolded crud_inv_def]
  note d = pb_invD [OF inv, simplified]
  obtain db res where ins: "ins (ca_db a) todos_coll ?r = (db, res)" by fastforce
  have eq: "consume_create ins p a = with_db a db"
    using edits_availableD(1) [OF assms(2)] assms(6-8) ins d(1)
    by (simp add: consume_create_def Let_def set_laws_def)
  have free: "cd_id d \<notin> rw_id ` set (rows_of a todos_coll)"
    by (rule crud_view_id [OF assms(1,9)])
  then have "res \<noteq> None"
    using inserts_availableD [OF assms(3), of ?r "ca_db a"] assms(7) ins by simp
  then obtain st where st: "same_row st ?r" "ca_rows a db todos_coll = rows_of a todos_coll @ [st]"
    using insert_lawsD [OF assms(4) d(6) _ ins] assms(7) by auto
  have sid: "rw_id st = cd_id d" "rw_title st = cd_title d" "rw_completed st = cd_completed d"
      "rw_owner st = cp_user p"
    using same_rowD [OF st(1)] by auto
  have dist: "distinct (map rw_id (rows_of a todos_coll @ [st]))" using d(8) free sid by auto
  have "pb_inv (store_of (with_db a db))"
    by (rule pb_inv_set_db [OF inv, of db, simplified])
      (use st(2) sid assms(5,7) dist d(6,7) in \<open>auto simp: well_formed_rows_def\<close>)
  moreover have "crud_view (with_db a db) v = (if v = cp_user p
      then (crud_view a v)(cd_id d \<mapsto> (cd_title d, cd_completed d)) else crud_view a v)" for v
    using row_view_append [OF dist, of v] st(2) sid by (auto simp: crud_view_def pb_view_def)
  ultimately show ?thesis by (auto simp: eq crud_inv_def fun_eq_iff)
qed

lemma consume_create_taken:
  assumes "crud_inv a" and "edits_available a" and "insert_laws a ins"
    and "cp_data p = Some d" and "cd_id d \<in> rw_id ` set (rows_of a todos_coll)"
  shows "crud_inv (consume_create ins p a) \<and> crud_view (consume_create ins p a) = crud_view a"
proof (cases "cd_title d = ''''")
  case True
  then show ?thesis using assms by (simp add: consume_create_def)
next
  case False
  let ?r = "new_row\<lparr>rw_id := cd_id d, rw_title := cd_title d, rw_completed := cd_completed d,
    rw_owner := cp_user p\<rparr>"
  note inv = assms(1) [unfolded crud_inv_def]
  note d = pb_invD [OF inv, simplified]
  have ne: "cd_id d \<noteq> ''''" using d(6) assms(5) by (auto simp: well_formed_rows_def)
  obtain db res where ins: "ins (ca_db a) todos_coll ?r = (db, res)" by fastforce
  have eq: "consume_create ins p a = with_db a db"
    using edits_availableD(1) [OF assms(2)] assms(4) False ne ins d(1)
    by (simp add: consume_create_def Let_def set_laws_def)
  have "ca_rows a db todos_coll = rows_of a todos_coll"
    using insert_lawsD [OF assms(3) d(6) _ ins] ne assms(5) by (auto split: option.splits)
  then show ?thesis
    using pb_inv_same_rows [OF inv, of db] eq by (simp add: crud_inv_def crud_view_def)
qed

text \<open>Every operation of an authenticated user, received in full, has its effect on that user's todos
  and on no other user's.\<close>

definition op_clean :: "'db core_app \<Rightarrow> crud_payload \<Rightarrow> bool" where
  "op_clean a p \<longleftrightarrow> cp_user p \<noteq> '''' \<and>
     (cp_op p \<noteq> crud_op_clear_completed \<longrightarrow> (\<forall>d. cp_data p = Some d \<longrightarrow> cd_id d \<noteq> '''' \<and>
        (\<forall>v. v \<noteq> cp_user p \<longrightarrow> crud_view a v (cd_id d) = None)))"

lemma crud_inv_parts:
  assumes "crud_inv a"
  shows "pb_inv (store_of a)" "find_total a todos_coll" "find_laws a todos_coll"
    "well_formed_rows (rows_of a todos_coll)"
  using pb_invD [OF assms [unfolded crud_inv_def]] assms by (simp_all add: crud_inv_def)

lemma pb_update_available:
  assumes "pb_inv s" and "u \<noteq> ''''" and "patch_known p" and "pb_view s u i \<noteq> None"
    and "\<And>db r x. x \<in> set (ca_rows (ps_app s) db (ps_coll s)) \<Longrightarrow> rw_id x = rw_id r \<Longrightarrow>
      rw_owner x = rw_owner r \<Longrightarrow> rw_idem x = rw_idem r \<Longrightarrow> snd (ca_save (ps_app s) db (ps_coll s) r) \<noteq> None"
  shows "\<exists>t. snd (pb_update u i p s) = Inr t"
proof -
  obtain q where q: "pb_lookup u i s = Some q"
    using assms(4) by (auto simp: pb_view_lookup [OF assms(1,2)])
  note qd = pb_lookup_SomeD [OF assms(1,2) q]
  obtain t c where f: "foldl (\<lambda>r kv. ca_set (ps_app s) (fst kv) (snd kv) r) q p =
      q\<lparr>rw_title := t, rw_completed := c\<rparr>"
    using foldl_set_known [OF pb_invD(1) [OF assms(1)] assms(3), of q] by blast
  have "q \<in> set (ca_rows (ps_app s) (ca_db (ps_app s)) (ps_coll s))" using qd(1) by (simp add: pb_rows_def)
  from assms(5) [OF this, of "q\<lparr>rw_title := t, rw_completed := c\<rparr>"] show ?thesis
    by (auto simp: pb_update_def q f Let_def split: option.splits prod.splits)
qed

lemma consume_effect:
  assumes "crud_inv a" and "edits_available a" and "cp_op p = crud_op_create \<Longrightarrow> inserts_available a ins"
    and "insert_laws a ins" and "op_clean a p"
  shows "crud_inv (consume_op ins p a) \<and>
    crud_view (consume_op ins p a) = (crud_view a)(cp_user p := crud_effect p (crud_view a (cp_user p)))"
proof -
  note inv = crud_inv_parts [OF assms(1)]
  note av = edits_availableD [OF assms(2)]
  have u: "cp_user p \<noteq> ''''" using assms(5) by (simp add: op_clean_def)
  consider (clear) "cp_op p = crud_op_clear_completed"
    | (none) "cp_op p \<noteq> crud_op_clear_completed" "cp_data p = None"
    | (data) d where "cp_op p \<noteq> crud_op_clear_completed" "cp_data p = Some d" "cd_id d \<noteq> ''''"
        "\<And>v. v \<noteq> cp_user p \<Longrightarrow> crud_view a v (cd_id d) = None"
    using assms(5) unfolding op_clean_def by (metis not_None_eq)
  then show ?thesis
  proof cases
    case clear
    obtain n where n: "pb_clear_completed (cp_user p) (store_of a) = (store_of (consume_clear p a), n, None)"
      using consume_clear_store [OF u av(2) inv(2-4)] by blast
    from pb.clear_law [OF inv(1) u n] show ?thesis
      by (auto simp: clear consume_op_def crud_inv_def crud_view_def crud_effect_def drop_completed_def)
  next
    case none
    then show ?thesis
      using assms(1) by (simp add: consume_op_def crud_effect_def consume_create_def consume_toggle_def
        consume_delete_def)
  next
    case (data d)
    consider (create) "cp_op p = crud_op_create" | (toggle) "cp_op p = crud_op_toggle"
      | (delete) "cp_op p = crud_op_delete"
      | (other) "cp_op p \<notin> {crud_op_create, crud_op_toggle, crud_op_delete}" by blast
    then show ?thesis
    proof cases
      case create
      show ?thesis
      proof (cases "cd_title d = '''' \<or> crud_view a (cp_user p) (cd_id d) \<noteq> None")
        case True
        then have "crud_inv (consume_create ins p a) \<and> crud_view (consume_create ins p a) = crud_view a"
        proof
          assume "cd_title d = ''''"
          then show ?thesis using assms(1) data(2) by (simp add: consume_create_def)
        next
          assume "crud_view a (cp_user p) (cd_id d) \<noteq> None"
          from consume_create_taken [OF assms(1,2,4) data(2) crud_view_has [OF this]] show ?thesis .
        qed
        with True create data(2) show ?thesis by (simp add: consume_op_def crud_effect_def)
      next
        case False
        then have "crud_view a v (cd_id d) = None" for v
          using data(4) by (cases "v = cp_user p") (blast, simp)
        from consume_create_fresh [OF assms(1,2) assms(3) [OF create] assms(4) u data(2,3) _ this] False create data(2) show ?thesis
          by (simp add: consume_op_def crud_effect_def)
      qed
    next
      case toggle
      obtain s' r where run: "pb_update (cp_user p) (cd_id d) [(''completed'', PBool (cd_completed d))]
          (store_of a) = (s', r)" by fastforce
      have s': "store_of (consume_op ins p a) = s'"
        using consume_toggle_store [OF u data(2,3), of a] run toggle by (simp add: consume_op_def)
      have "crud_view a (cp_user p) (cd_id d) \<noteq> None \<Longrightarrow> \<exists>t. r = Inr t"
        using pb_update_available [OF inv(1) u patch_completed_known, of "cd_id d" "cd_completed d"] av(3) run
        by (simp add: crud_view_def)
      with pb_update_ok [OF inv(1) u patch_completed_known run] toggle data(2) s' show ?thesis
        by (cases r) (auto simp: crud_inv_def crud_view_def crud_effect_def fun_eq_iff split: option.splits)
    next
      case delete
      obtain s' r where run: "pb_delete (cp_user p) (cd_id d) (store_of a) = (s', r)" by fastforce
      have s': "store_of (consume_op ins p a) = s'"
        using consume_delete_store [OF u data(2,3), of a] run delete by (simp add: consume_op_def)
      have "r = Inr () \<or> r = Inl ErrNotFound"
        using run av(2) by (auto simp: pb_delete_def split: option.splits prod.splits bool.splits)
          (metis snd_conv)+
      with pb_delete_ok [OF inv(1) u run] delete data(2) s' show ?thesis
        by (auto simp: crud_inv_def crud_view_def crud_effect_def fun_eq_iff)
    next
      case other
      then show ?thesis using assms(1) data(1,2) by (simp add: consume_op_def crud_effect_def)
    qed
  qed
qed

end
