(* ===== verification/Signals.thy ===== *)
theory Signals
  imports Json Store
begin

text \<open>
  The page's signal set, \<open>Signals\<close> of \<open>features/todo/models.go\<close>, its JSON form, and what the handlers
  send a browser: Datastar events on a response stream.  The browser keeps the signals it was sent; a
  merge with a null value removes one (JSON merge patch), any other value replaces it.
\<close>

record signals =
  sg_todos :: "todo list option"
  sg_new_title :: string
  sg_filter :: string
  sg_editing_id :: string
  sg_edit_title :: string
  sg_loading :: bool
  sg_item_count :: int
  sg_confirm_delete :: string
  sg_confirm_delete_title :: string
  sg_deleting :: bool
  sg_tech_step :: string
  sg_tech_done :: bool
  sg_tech_phase :: string
  sg_demo_step :: int
  sg_ai_step :: int
  sg_ai_pending :: bool
  sg_ai_phase :: string
  sg_client_id :: string
  sg_llm_enabled :: bool
  sg_simulated_llm :: bool
  sg_suggestions :: "string list option"
  sg_suggest_err :: string
  sg_suggest_pending :: bool
  sg_connected_clients :: int
  sg_last_item_source :: string
  sg_dag_nats_enabled :: bool
  sg_realtime_kind :: string
  sg_store_label :: string
  sg_offline_label :: string
  sg_sidebar_tab :: string
  sg_onboarding_active :: bool
  sg_onboarding_step :: int
  sg_onboarding_total :: int
  sg_onboarding_phase :: string
  sg_onboarding_detail :: string
  sg_workflow_completed :: bool

text \<open>The zero value: a field a composite literal leaves out.\<close>

definition zero_signals :: signals where
  "zero_signals = \<lparr>sg_todos = None, sg_new_title = '''', sg_filter = '''', sg_editing_id = '''',
     sg_edit_title = '''', sg_loading = False, sg_item_count = 0, sg_confirm_delete = '''',
     sg_confirm_delete_title = '''', sg_deleting = False, sg_tech_step = '''', sg_tech_done = False,
     sg_tech_phase = '''', sg_demo_step = 0, sg_ai_step = 0, sg_ai_pending = False, sg_ai_phase = '''',
     sg_client_id = '''', sg_llm_enabled = False, sg_simulated_llm = False, sg_suggestions = None,
     sg_suggest_err = '''', sg_suggest_pending = False, sg_connected_clients = 0,
     sg_last_item_source = '''', sg_dag_nats_enabled = False, sg_realtime_kind = '''',
     sg_store_label = '''', sg_offline_label = '''', sg_sidebar_tab = '''', sg_onboarding_active = False,
     sg_onboarding_step = 0, sg_onboarding_total = 0, sg_onboarding_phase = '''',
     sg_onboarding_detail = '''', sg_workflow_completed = False\<rparr>"

text \<open>\<open>time.Time\<close>'s own JSON form is the argument \<open>tm\<close>.  A nil slice is null.\<close>

definition todo_json :: "(int \<Rightarrow> string) \<Rightarrow> todo \<Rightarrow> jval" where
  "todo_json tm t = JObj [(''id'', JStr (td_id t)), (''title'', JStr (td_title t)),
     (''completed'', JBool (td_completed t)), (''created'', JStr (tm (td_created t))),
     (''updated'', JStr (tm (td_updated t)))]"

definition signals_fields :: "(int \<Rightarrow> string) \<Rightarrow> signals \<Rightarrow> (string \<times> jval) list" where
  "signals_fields tm s =
    [(''todos'', case sg_todos s of None \<Rightarrow> JNull | Some ts \<Rightarrow> JArr (map (todo_json tm) ts)),
     (''newTitle'', JStr (sg_new_title s)), (''filter'', JStr (sg_filter s)),
     (''editingId'', JStr (sg_editing_id s)), (''editTitle'', JStr (sg_edit_title s)),
     (''loading'', JBool (sg_loading s)), (''itemCount'', JInt (sg_item_count s)),
     (''confirmingDeleteId'', JStr (sg_confirm_delete s)),
     (''confirmingDeleteTitle'', JStr (sg_confirm_delete_title s)), (''deleting'', JBool (sg_deleting s)),
     (''techStep'', JStr (sg_tech_step s)), (''techDone'', JBool (sg_tech_done s)),
     (''techPhase'', JStr (sg_tech_phase s)), (''demoStep'', JInt (sg_demo_step s)),
     (''aiStep'', JInt (sg_ai_step s)), (''aiPending'', JBool (sg_ai_pending s)),
     (''aiPhase'', JStr (sg_ai_phase s)), (''clientID'', JStr (sg_client_id s)),
     (''llmEnabled'', JBool (sg_llm_enabled s)), (''simulatedLLM'', JBool (sg_simulated_llm s)),
     (''suggestions'', case sg_suggestions s of None \<Rightarrow> JNull | Some xs \<Rightarrow> JArr (map JStr xs)),
     (''suggestErr'', JStr (sg_suggest_err s)), (''suggestPending'', JBool (sg_suggest_pending s)),
     (''connectedClients'', JInt (sg_connected_clients s)),
     (''lastItemSource'', JStr (sg_last_item_source s)),
     (''dagNatsEnabled'', JBool (sg_dag_nats_enabled s)), (''realtimeKind'', JStr (sg_realtime_kind s)),
     (''storeLabel'', JStr (sg_store_label s)), (''offlineLabel'', JStr (sg_offline_label s)),
     (''sidebarTab'', JStr (sg_sidebar_tab s)), (''onboardingActive'', JBool (sg_onboarding_active s)),
     (''onboardingStep'', JInt (sg_onboarding_step s)), (''onboardingTotal'', JInt (sg_onboarding_total s)),
     (''onboardingPhase'', JStr (sg_onboarding_phase s)),
     (''onboardingDetail'', JStr (sg_onboarding_detail s)),
     (''workflowCompleted'', JBool (sg_workflow_completed s))]"

subsection \<open>Events on a response stream\<close>

text \<open>Rendered fragments stand for themselves: the template and what it is given.\<close>

datatype region = TodoListRegion string signals | SuggestionsList "string list option"

datatype sse_event =
    MergeStruct signals
  | MergeMap "(string \<times> jval) list"
  | PatchRegion string region bool
  | Toast string string
  | RemoveElement string

text \<open>
  Handlers write events one after another and stop at the first write that fails; a connection that
  takes \<open>k\<close> writes before it breaks gets the first \<open>k\<close>, and the handler returns an error if there were more.
\<close>

definition write_events :: "nat \<Rightarrow> sse_event list \<Rightarrow> sse_event list \<times> bool" where
  "write_events k evs = (take k evs, length evs \<le> k)"

definition merge_fields :: "(string \<times> jval) list \<Rightarrow> (string \<rightharpoonup> jval) \<Rightarrow> (string \<rightharpoonup> jval)" where
  "merge_fields kvs m = foldl (\<lambda>m kv. m(fst kv := (if snd kv = JNull then None else Some (snd kv)))) m kvs"

fun browser_step :: "(int \<Rightarrow> string) \<Rightarrow> (string \<rightharpoonup> jval) \<Rightarrow> sse_event \<Rightarrow> (string \<rightharpoonup> jval)" where
  "browser_step tm m (MergeStruct s) = merge_fields (signals_fields tm s) m"
| "browser_step tm m (MergeMap kvs) = merge_fields kvs m"
| "browser_step tm m _ = m"

definition browser_signals :: "(int \<Rightarrow> string) \<Rightarrow> sse_event list \<Rightarrow> (string \<rightharpoonup> jval) \<Rightarrow> (string \<rightharpoonup> jval)" where
  "browser_signals tm evs m = foldl (browser_step tm) m evs"

text \<open>Merging a complete signal set leaves nothing of what the browser had under those names.\<close>

lemma merge_client_id:
  "browser_step tm m (MergeStruct s) ''clientID'' = Some (JStr (sg_client_id s))"
  by (simp add: merge_fields_def signals_fields_def)

lemma merge_map_other:
  "k \<notin> fst ` set kvs \<Longrightarrow> merge_fields kvs m k = m k"
  unfolding merge_fields_def by (induction kvs arbitrary: m) auto

end
