(* ===== verification/TodoHandlers.thy ===== *)
theory TodoHandlers
  imports Auth Signals CrudProxy CRDTSync
begin

text \<open>
  The HTTP handlers of the todo feature, \<open>features/todo/handlers/todo_crud.go\<close>, \<open>todo.go\<close> and
  \<open>todo_repo.go\<close>, over any storage strategy: the handler holds the strategy's operations as a record
  (the Go interface value), and the lemmas about what requests do to the stored todos are proved once
  for the storage contract and then read off for both strategies.
\<close>

subsection \<open>The handler\<close>

record 's store_ops =
  so_create :: "todo \<Rightarrow> string \<Rightarrow> string \<Rightarrow> 's \<Rightarrow> 's \<times> todo result"
  so_get :: "string \<Rightarrow> string \<Rightarrow> 's \<Rightarrow> 's \<times> todo result"
  so_list :: "string \<Rightarrow> string \<Rightarrow> 's \<Rightarrow> 's \<times> todo list result"
  so_update :: "string \<Rightarrow> string \<Rightarrow> patch \<Rightarrow> 's \<Rightarrow> 's \<times> todo result"
  so_delete :: "string \<Rightarrow> string \<Rightarrow> 's \<Rightarrow> 's \<times> unit result"
  so_clear :: "string \<Rightarrow> 's \<Rightarrow> 's \<times> nat \<times> store_err option"
  so_count :: "string \<Rightarrow> 's \<Rightarrow> 's \<times> nat result"

record llm_client =
  lc_configured :: bool

text \<open>The fields of \<open>TodoHandler\<close> and of its configuration the handlers read.\<close>

record ('s, 'js) todo_handler =
  th_store :: "'s store_ops"
  th_accounts :: accounts
  th_crud :: "'js crud_publisher option"
  th_has_onboarding :: bool
  th_llm :: "llm_client option"
  th_llm_simulated :: "llm_client option"
  th_skin :: string
  th_entity_store :: string
  th_offline_sync :: bool
  th_nats :: bool
  th_dagnats :: bool

text \<open>What a request can change: the store, the JetStream server, the onboarding calls made.\<close>

record ('s, 'js) todo_world =
  tw_store :: 's
  tw_js :: 'js
  tw_resumed :: "string list"

text \<open>A reply: plain text, a redirect, an event stream with the handler's error flag, a page, a fragment.\<close>

datatype response =
    RText nat string
  | RRedirect nat string
  | RStream "sse_event list" bool
  | RFragment region nat
  | RPage string signals string

definition llm_enabled :: "('s, 'js) todo_handler \<Rightarrow> bool" where
  "llm_enabled h = (case th_llm h of None \<Rightarrow> False | Some c \<Rightarrow> lc_configured c)"

definition simulated_llm_enabled :: "('s, 'js) todo_handler \<Rightarrow> bool" where
  "simulated_llm_enabled h = (case th_llm_simulated h of None \<Rightarrow> False | Some c \<Rightarrow> lc_configured c)"

definition resolve_skin :: "('s, 'js) todo_handler \<Rightarrow> request \<Rightarrow> string" where
  "resolve_skin h rq =
     (let q = rq_query rq ''skin''; name = (if q \<noteq> '''' then q else th_skin h)
      in if name = ''morpheus'' \<or> name = ''basecoat'' then name else ''daisyui'')"

definition owner_of :: "event \<Rightarrow> string" where
  "owner_of e = (case ev_auth e of None \<Rightarrow> '''' | Some u \<Rightarrow> us_id u)"

definition is_offline_replay :: "request \<Rightarrow> bool" where
  "is_offline_replay rq \<longleftrightarrow> rq_header rq ''X-Offline-Replay'' = ''1''"

text \<open>\<open>LoadAppAuth\<close> called inside a handler: there is no next handler, so it never fails.\<close>

definition app_auth :: "('s, 'js) todo_handler \<Rightarrow> request \<Rightarrow> event" where
  "app_auth h rq = load_app_auth (th_accounts h) (\<lambda>e. e) (fresh_event rq)"

definition list_todos :: "('s, 'js) todo_handler \<Rightarrow> event \<Rightarrow> string \<Rightarrow> 's \<Rightarrow> 's \<times> todo list result" where
  "list_todos h e flt s = (case so_list (th_store h) (owner_of e) flt s of
     (s', Inl _) \<Rightarrow> (s', Inl (ErrOther ''list todos'')) | (s', Inr ts) \<Rightarrow> (s', Inr ts))"

definition save_todo :: "('s, 'js) todo_handler \<Rightarrow> todo \<Rightarrow> string \<Rightarrow> string \<Rightarrow> 's \<Rightarrow> 's \<times> todo result" where
  "save_todo h item owner idem s = (case so_create (th_store h) item owner idem s of
     (s', Inl _) \<Rightarrow> (s', Inl (ErrOther ''save todo'')) | (s', Inr t) \<Rightarrow> (s', Inr t))"

definition count_owned_todos :: "('s, 'js) todo_handler \<Rightarrow> event \<Rightarrow> 's \<Rightarrow> 's \<times> nat result" where
  "count_owned_todos h e s = so_count (th_store h) (owner_of e) s"

definition publish_crud_op ::
  "('s, 'js) todo_handler \<Rightarrow> string \<Rightarrow> string \<Rightarrow> crud_data option \<Rightarrow> 'js \<Rightarrow> 'js" where
  "publish_crud_op h opn u d js = crud_publish (th_crud h) opn u d js"

definition region_signals :: "('s, 'js) todo_handler \<Rightarrow> todo list \<Rightarrow> signals" where
  "region_signals h ts = zero_signals\<lparr>sg_todos := Some ts, sg_filter := ''all'',
     sg_item_count := int (length ts), sg_llm_enabled := llm_enabled h\<rparr>"

definition render_todo_list_region :: "signals \<Rightarrow> string \<Rightarrow> region" where
  "render_todo_list_region sg skin = TodoListRegion
     (if skin = ''morpheus'' \<or> skin = ''basecoat'' then skin else ''daisyui'') sg"

definition render_todo_list :: "('s, 'js) todo_handler \<Rightarrow> todo list \<Rightarrow> string \<Rightarrow> region" where
  "render_todo_list h ts skin = render_todo_list_region (region_signals h ts) skin"

definition patch_self_origin :: "('s, 'js) todo_handler \<Rightarrow> todo list \<Rightarrow> string \<Rightarrow> sse_event list" where
  "patch_self_origin h ts skin =
     [MergeMap [(''lastItemSource'', JStr ''self''), (''itemCount'', JInt (int (length ts)))],
      PatchRegion ''#todo-list'' (render_todo_list h ts skin) True]"

definition stream :: "nat \<Rightarrow> sse_event list \<Rightarrow> response" where
  "stream k evs = (case write_events k evs of (sent, ok) \<Rightarrow> RStream sent ok)"

definition list_filter_of :: "request \<Rightarrow> string" where
  "list_filter_of rq = (let f = rq_query rq ''filter'' in if f = '''' then ''all'' else f)"

subsection \<open>Reading\<close>

definition listed_signals :: "('s, 'js) todo_handler \<Rightarrow> todo list \<Rightarrow> string \<Rightarrow> nat \<Rightarrow> signals" where
  "listed_signals h ts flt n = zero_signals\<lparr>sg_todos := Some ts, sg_filter := flt,
     sg_item_count := int n, sg_llm_enabled := llm_enabled h\<rparr>"

definition handle_list ::
  "('s, 'js) todo_handler \<Rightarrow> nat \<Rightarrow> request \<Rightarrow> ('s, 'js) todo_world \<Rightarrow> ('s, 'js) todo_world \<times> response" where
  "handle_list h k rq w =
     (let e = app_auth h rq; flt = list_filter_of rq in
      if ev_auth e = None then (w, RRedirect 303 ''/login'')
      else case list_todos h e flt (tw_store w) of
        (s1, Inl _) \<Rightarrow> (w\<lparr>tw_store := s1\<rparr>, RText 500 ''error listing todos'')
      | (s1, Inr ts) \<Rightarrow>
          (case count_owned_todos h e s1 of (s2, c) \<Rightarrow>
             (let n = (case c of Inl _ \<Rightarrow> length ts | Inr n \<Rightarrow> n)
              in (w\<lparr>tw_store := s2\<rparr>,
                  stream k
                   [MergeStruct (zero_signals\<lparr>sg_filter := flt, sg_item_count := int n,
                      sg_loading := False, sg_llm_enabled := llm_enabled h\<rparr>),
                    PatchRegion ''#todo-list''
                      (render_todo_list_region (listed_signals h ts flt n) (resolve_skin h rq)) False]))))"

definition handle_list_fragment ::
  "('s, 'js) todo_handler \<Rightarrow> request \<Rightarrow> ('s, 'js) todo_world \<Rightarrow> ('s, 'js) todo_world \<times> response" where
  "handle_list_fragment h rq w =
     (let e = app_auth h rq; flt = list_filter_of rq in
      if ev_auth e = None then (w, RRedirect 303 ''/login'')
      else case list_todos h e flt (tw_store w) of
        (s1, Inl _) \<Rightarrow> (w\<lparr>tw_store := s1\<rparr>, RText 500 ''error listing todos'')
      | (s1, Inr ts) \<Rightarrow>
          (case count_owned_todos h e s1 of (s2, c) \<Rightarrow>
             (let n = (case c of Inl _ \<Rightarrow> length ts | Inr n \<Rightarrow> n)
              in (w\<lparr>tw_store := s2\<rparr>,
                  RFragment (render_todo_list_region (listed_signals h ts flt n) (resolve_skin h rq)) n))))"

text \<open>The page: the session is the one the global middleware loaded into the event.\<close>

definition em_dash :: string where "em_dash = [CHR 0xE2, CHR 0x80, CHR 0x94]"
definition open_quote :: string where "open_quote = [CHR 0xE2, CHR 0x80, CHR 0x9C]"
definition close_quote :: string where "close_quote = [CHR 0xE2, CHR 0x80, CHR 0x9D]"

definition store_label :: "('s, 'js) todo_handler \<Rightarrow> string" where
  "store_label h = (if th_entity_store h = '''' \<or> th_entity_store h = ''pb'' then ''PocketBase records''
     else if th_entity_store h = ''crdt'' then ''Loro CRDT per-user + PB snapshot''
     else th_entity_store h)"

definition offline_label :: "('s, 'js) todo_handler \<Rightarrow> string" where
  "offline_label h =
     (if \<not> th_offline_sync h
      then ''OFFLINE_SYNC_ENABLED=false '' @ em_dash @
        '' actions fail when network is down; offline mutations NOT queued''
      else if th_entity_store h = ''crdt''
      then ''CRDT cross-instance sync via JetStream (NATS); SW queues browser mutations; mode = crdt''
      else if th_nats h
      then ''PBStore + NATS_ENABLED=true '' @ em_dash @ '' SW queues browser mutations'' @
        '' + JetStream (NATS) streams CRUD ops across replicas'' @ ''; mode = pb + nats''
      else ''PBStore + NATS_ENABLED=false '' @ em_dash @
        '' SW queues browser mutations; no JetStream; no cross-instance sync; mode = pb'')"

definition realtime_label :: "('s, 'js) todo_handler \<Rightarrow> string" where
  "realtime_label h = (if th_nats h then ''JetStream'' else ''in-memory'')"

text \<open>\<open>online\<close> is the hub's count of user clients.\<close>

definition handle_index ::
  "('s, 'js) todo_handler \<Rightarrow> nat \<Rightarrow> event \<Rightarrow> ('s, 'js) todo_world \<Rightarrow> ('s, 'js) todo_world \<times> response" where
  "handle_index h online e w =
     (case ev_auth e of
        None \<Rightarrow> (w, RRedirect 303 ''/login'')
      | Some u \<Rightarrow>
          (let q = rq_query (ev_req e) ''skin''; skin = (if q \<noteq> '''' then q else th_skin h) in
           case list_todos h e ''all'' (tw_store w) of (s1, r) \<Rightarrow>
             (w\<lparr>tw_store := s1\<rparr>,
              RPage (if skin = ''morpheus'' \<or> skin = ''basecoat'' then skin else ''daisyui'')
                (zero_signals\<lparr>
                   sg_todos := (case r of Inl _ \<Rightarrow> None | Inr ts \<Rightarrow> Some ts), sg_filter := ''all'',
                   sg_item_count := (case r of Inl _ \<Rightarrow> 0 | Inr ts \<Rightarrow> int (length ts)),
                   sg_llm_enabled := llm_enabled h, sg_simulated_llm := simulated_llm_enabled h,
                   sg_dag_nats_enabled := th_dagnats h, sg_connected_clients := int online,
                   sg_suggestions := Some [], sg_suggest_err := '''', sg_realtime_kind := realtime_label h,
                   sg_store_label := store_label h, sg_offline_label := offline_label h,
                   sg_sidebar_tab := ''queue''\<rparr>)
                (us_email u))))"

subsection \<open>Writing\<close>

text \<open>The tail every successful mutation ends with: the list again, an operation published, the stream.\<close>

definition finish ::
  "('s, 'js) todo_handler \<Rightarrow> nat \<Rightarrow> event \<Rightarrow> ('js \<Rightarrow> 'js) \<Rightarrow> (todo list \<Rightarrow> sse_event list) \<Rightarrow>
   ('s, 'js) todo_world \<Rightarrow> ('s, 'js) todo_world \<times> response" where
  "finish h k e pub evs w =
     (if is_offline_replay (ev_req e) then (w, RText 200 ''replayed'')
      else case list_todos h e ''all'' (tw_store w) of
        (s1, Inl _) \<Rightarrow> (w\<lparr>tw_store := s1\<rparr>, RText 500 ''error listing todos'')
      | (s1, Inr ts) \<Rightarrow> (w\<lparr>tw_store := s1, tw_js := pub (tw_js w)\<rparr>, stream k (evs ts)))"

text \<open>\<open>now\<close> and \<open>uuid\<close> are the clock and the generated key.\<close>

definition handle_create ::
  "('s, 'js) todo_handler \<Rightarrow> nat \<Rightarrow> int \<Rightarrow> string \<Rightarrow> request \<Rightarrow> ('s, 'js) todo_world \<Rightarrow>
   ('s, 'js) todo_world \<times> response" where
  "handle_create h k now uuid rq w =
     (let e = app_auth h rq; title = form_value rq ''title'';
          idem = (if form_value rq ''idem_key'' = '''' then uuid else form_value rq ''idem_key'') in
      if rq_form rq = None then (w, RText 400 ''invalid form'')
      else if title = '''' then (w, RText 400 ''title required'')
      else case save_todo h \<lparr>td_id = idem, td_title = title, td_completed = False,
                  td_created = now, td_updated = now\<rparr> (owner_of e) idem (tw_store w) of
        (s1, Inl _) \<Rightarrow> (w\<lparr>tw_store := s1\<rparr>, RText 500 ''save failed'')
      | (s1, Inr t) \<Rightarrow>
          finish h k e (\<lambda>js. js)
            (\<lambda>ts. MergeMap [(''loading'', JBool False), (''newTitle'', JStr ''''),
                 (''itemCount'', JInt (int (length ts)))] #
               patch_self_origin h ts (resolve_skin h rq) @ [Toast ''Added'' ''success''])
            (w\<lparr>tw_store := s1,
               tw_js := publish_crud_op h crud_op_create (owner_of e)
                 (Some \<lparr>cd_id = td_id t, cd_title = td_title t, cd_completed = td_completed t\<rparr>) (tw_js w),
               tw_resumed := tw_resumed w @ (if th_has_onboarding h then [owner_of e] else [])\<rparr>))"

definition handle_toggle ::
  "('s, 'js) todo_handler \<Rightarrow> nat \<Rightarrow> request \<Rightarrow> ('s, 'js) todo_world \<Rightarrow> ('s, 'js) todo_world \<times> response" where
  "handle_toggle h k rq w =
     (let e = app_auth h rq; i = rq_path_id rq in
      case so_get (th_store h) (owner_of e) i (tw_store w) of
        (s1, Inl _) \<Rightarrow> (w\<lparr>tw_store := s1\<rparr>, RText 404 ''not found'')
      | (s1, Inr cur) \<Rightarrow>
          (case so_update (th_store h) (owner_of e) i
                  [(''completed'', PBool (\<not> td_completed cur))] s1 of
             (s2, Inl _) \<Rightarrow> (w\<lparr>tw_store := s2\<rparr>, RText 500 ''toggle failed'')
           | (s2, Inr t) \<Rightarrow>
               finish h k e
                 (publish_crud_op h crud_op_toggle (owner_of e)
                    (Some \<lparr>cd_id = td_id t, cd_title = '''', cd_completed = td_completed t\<rparr>))
                 (\<lambda>ts. patch_self_origin h ts (resolve_skin h rq)) (w\<lparr>tw_store := s2\<rparr>)))"

definition handle_confirm_delete ::
  "('s, 'js) todo_handler \<Rightarrow> nat \<Rightarrow> request \<Rightarrow> ('s, 'js) todo_world \<Rightarrow> ('s, 'js) todo_world \<times> response" where
  "handle_confirm_delete h k rq w =
     (case so_get (th_store h) (owner_of (app_auth h rq)) (rq_path_id rq) (tw_store w) of
        (s1, Inl _) \<Rightarrow> (w\<lparr>tw_store := s1\<rparr>, RText 404 ''not found'')
      | (s1, Inr t) \<Rightarrow> (w\<lparr>tw_store := s1\<rparr>, stream k
          [MergeMap [(''confirmingDeleteId'', JStr (td_id t)), (''confirmingDeleteTitle'', JStr (td_title t))]]))"

definition handle_delete ::
  "('s, 'js) todo_handler \<Rightarrow> nat \<Rightarrow> request \<Rightarrow> ('s, 'js) todo_world \<Rightarrow> ('s, 'js) todo_world \<times> response" where
  "handle_delete h k rq w =
     (let e = app_auth h rq; i = rq_path_id rq in
      case so_get (th_store h) (owner_of e) i (tw_store w) of
        (s1, Inl _) \<Rightarrow> (w\<lparr>tw_store := s1\<rparr>, RText 404 ''not found'')
      | (s1, Inr t) \<Rightarrow>
          (case so_delete (th_store h) (owner_of e) i s1 of (s2, r) \<Rightarrow>
             if r \<noteq> Inr () \<and> r \<noteq> Inl ErrNotFound
             then (w\<lparr>tw_store := s2\<rparr>, RText 500 ''delete failed'')
             else finish h k e
               (publish_crud_op h crud_op_delete (owner_of e)
                  (Some \<lparr>cd_id = td_id t, cd_title = '''', cd_completed = False\<rparr>))
               (\<lambda>ts. MergeMap [(''confirmingDeleteId'', JStr ''''), (''confirmingDeleteTitle'', JStr '''')] #
                  patch_self_origin h ts (resolve_skin h rq) @
                  [Toast (''Deleted '' @ open_quote @ td_title t @ close_quote) ''info''])
               (w\<lparr>tw_store := s2\<rparr>)))"

definition handle_clear_completed ::
  "('s, 'js) todo_handler \<Rightarrow> nat \<Rightarrow> request \<Rightarrow> ('s, 'js) todo_world \<Rightarrow> ('s, 'js) todo_world \<times> response" where
  "handle_clear_completed h k rq w =
     (let e = app_auth h rq in
      case so_clear (th_store h) (owner_of e) (tw_store w) of
        (s1, n, Some _) \<Rightarrow> (w\<lparr>tw_store := s1\<rparr>, RText 500 ''clear failed'')
      | (s1, n, None) \<Rightarrow>
          finish h k e (publish_crud_op h crud_op_clear_completed (owner_of e) None)
            (\<lambda>ts. patch_self_origin h ts (resolve_skin h rq) @
               [if n = 0 then Toast ''Nothing to clear'' ''info''
                else Toast (''Cleared '' @ nat_str n @ '' completed'') ''success'']) (w\<lparr>tw_store := s1\<rparr>))"

subsection \<open>The requests\<close>

datatype api_call = ApiList | ApiFragment | ApiCreate int string | ApiToggle | ApiConfirmDelete
  | ApiDelete | ApiClearCompleted

definition serve ::
  "('s, 'js) todo_handler \<Rightarrow> api_call \<Rightarrow> nat \<Rightarrow> request \<Rightarrow> ('s, 'js) todo_world \<Rightarrow>
   ('s, 'js) todo_world \<times> response" where
  "serve h call k rq w = (case call of
     ApiList \<Rightarrow> handle_list h k rq w
   | ApiFragment \<Rightarrow> handle_list_fragment h rq w
   | ApiCreate now uuid \<Rightarrow> handle_create h k now uuid rq w
   | ApiToggle \<Rightarrow> handle_toggle h k rq w
   | ApiConfirmDelete \<Rightarrow> handle_confirm_delete h k rq w
   | ApiDelete \<Rightarrow> handle_delete h k rq w
   | ApiClearCompleted \<Rightarrow> handle_clear_completed h k rq w)"

definition serve_all ::
  "('s, 'js) todo_handler \<Rightarrow> (api_call \<times> nat \<times> request) list \<Rightarrow> ('s, 'js) todo_world \<Rightarrow>
   ('s, 'js) todo_world" where
  "serve_all h reqs w = foldl (\<lambda>w (call, k, rq). fst (serve h call k rq w)) w reqs"

text \<open>The user a request's session cookie stands for, and requests the router can produce.\<close>

definition user_of_request :: "('s, 'js) todo_handler \<Rightarrow> request \<Rightarrow> string" where
  "user_of_request h rq = owner_of (app_auth h rq)"

lemma owner_app_auth [simp]: "owner_of (app_auth h rq) = user_of_request h rq"
  by (simp add: user_of_request_def)

lemma req_app_auth [simp]: "ev_req (app_auth h rq) = rq"
  by (simp add: app_auth_def load_app_auth_def fresh_event_def split: option.splits)

lemma app_auth_user: "user_of_request h rq \<noteq> '''' \<Longrightarrow> ev_auth (app_auth h rq) \<noteq> None"
  by (auto simp: user_of_request_def owner_of_def split: option.splits)

lemma tw_fields [simp]:
  "w\<lparr>tw_store := tw_store w\<rparr> = w" "w\<lparr>tw_js := tw_js w\<rparr> = w"
  by simp_all

lemmas result_splits = sum.splits prod.splits option.splits if_splits

context entity_store
begin

text \<open>A handler whose store is this contract's provider.\<close>

definition uses_store :: "('s, 'js) todo_handler \<Rightarrow> bool" where
  "uses_store h \<longleftrightarrow> th_store h = \<lparr>so_create = create, so_get = get_one, so_list = list_all_of,
     so_update = update, so_delete = delete, so_clear = clear, so_count = count\<rparr>"

lemma uses_storeD:
  assumes "uses_store h"
  shows "so_create (th_store h) = create" "so_get (th_store h) = get_one"
    "so_list (th_store h) = list_all_of" "so_update (th_store h) = update"
    "so_delete (th_store h) = delete" "so_clear (th_store h) = clear" "so_count (th_store h) = count"
  using assms by (simp_all add: uses_store_def)

text \<open>How one step changes the store: the invariant stays, and only user \<open>u\<close> may see a change.\<close>

definition own_step :: "string \<Rightarrow> 's \<Rightarrow> 's \<Rightarrow> bool" where
  "own_step u s s' \<longleftrightarrow> inv s' \<and> (\<forall>v. v \<noteq> u \<longrightarrow> view s' v = view s v)"

lemma own_step_refl: "inv s \<Longrightarrow> own_step u s s"
  by (simp add: own_step_def)

lemma own_step_trans: "own_step u s s' \<Longrightarrow> own_step u s' s'' \<Longrightarrow> own_step u s s''"
  by (simp add: own_step_def)

lemma own_step_get:
  "inv s \<Longrightarrow> u \<noteq> '''' \<Longrightarrow> i \<noteq> '''' \<Longrightarrow> get_one u i s = (s', r) \<Longrightarrow> own_step u s s' \<and> view s' = view s"
  using get_law [of s u i s' r] by (simp add: own_step_def)

lemma own_step_list:
  "inv s \<Longrightarrow> u \<noteq> '''' \<Longrightarrow> list_all_of u f s = (s', r) \<Longrightarrow> own_step u s s' \<and> view s' = view s"
  using list_law [of s u f s' r] by (simp add: own_step_def)

lemma own_step_count:
  "inv s \<Longrightarrow> u \<noteq> '''' \<Longrightarrow> count u s = (s', r) \<Longrightarrow> own_step u s s' \<and> view s' = view s"
  using count_law [of s u s' r] by (simp add: own_step_def)

lemma own_step_create: "inv s \<Longrightarrow> u \<noteq> '''' \<Longrightarrow> create e u k s = (s', r) \<Longrightarrow> own_step u s s'"
  using create_law [of s u e k s' r] by (simp add: own_step_def)

lemma own_step_update:
  "inv s \<Longrightarrow> u \<noteq> '''' \<Longrightarrow> i \<noteq> '''' \<Longrightarrow> patch_known p \<Longrightarrow> update u i p s = (s', r) \<Longrightarrow> own_step u s s'"
  using update_law [of s u i p s' r] by (simp add: own_step_def)

lemma own_step_delete:
  "inv s \<Longrightarrow> u \<noteq> '''' \<Longrightarrow> i \<noteq> '''' \<Longrightarrow> delete u i s = (s', r) \<Longrightarrow> own_step u s s'"
  using delete_law [of s u i s' r] by (simp add: own_step_def)

lemma own_step_clear: "inv s \<Longrightarrow> u \<noteq> '''' \<Longrightarrow> clear u s = (s', n, ce) \<Longrightarrow> own_step u s s'"
  using clear_law [of s u s' n ce] by (simp add: own_step_def)

lemmas own_steps = own_step_get own_step_list own_step_count own_step_create own_step_update
  own_step_delete own_step_clear

text \<open>The tail of a mutation reads the list and publishes; the stored todos stay.\<close>

lemma finish_run:
  assumes "uses_store h" and "inv (tw_store w)" and "owner_of e = u" and "u \<noteq> ''''"
  shows "\<exists>s1 ts. list_all_of u ''all'' (tw_store w) = (s1, Inr ts) \<and> view s1 = view (tw_store w) \<and> inv s1 \<and>
    finish h k e pub evs w =
      (if is_offline_replay (ev_req e) then (w, RText 200 ''replayed'')
       else (w\<lparr>tw_store := s1, tw_js := pub (tw_js w)\<rparr>, stream k (evs ts)))"
proof -
  obtain s1 r where run: "list_all_of u ''all'' (tw_store w) = (s1, r)" by fastforce
  from list_law [OF assms(2,4) run] obtain ts where "r = Inr ts" "inv s1" "view s1 = view (tw_store w)"
    by auto
  then show ?thesis
    using run assms(3) by (simp add: finish_def list_todos_def uses_storeD [OF assms(1)])
qed

lemma finish_world:
  assumes "uses_store h" and "inv (tw_store w)" and "owner_of e = u" and "u \<noteq> ''''"
    and "(w', rep) = finish h k e pub evs w"
  shows "view (tw_store w') = view (tw_store w)" "inv (tw_store w')"
    "tw_js w' = (if is_offline_replay (ev_req e) then tw_js w else pub (tw_js w))"
    "tw_resumed w' = tw_resumed w"
    "is_offline_replay (ev_req e) \<Longrightarrow> rep = RText 200 ''replayed''"
    "\<not> is_offline_replay (ev_req e) \<Longrightarrow>
      \<exists>s1 ts. list_all_of u ''all'' (tw_store w) = (s1, Inr ts) \<and> rep = stream k (evs ts)"
proof -
  obtain s1 ts where st: "list_all_of u ''all'' (tw_store w) = (s1, Inr ts)" "view s1 = view (tw_store w)" "inv s1"
    "(w', rep) = (if is_offline_replay (ev_req e) then (w, RText 200 ''replayed'')
       else (w\<lparr>tw_store := s1, tw_js := pub (tw_js w)\<rparr>, stream k (evs ts)))"
    using finish_run [OF assms(1-4), of k pub evs] assms(5) by metis
  show "view (tw_store w') = view (tw_store w)" "inv (tw_store w')"
    "tw_js w' = (if is_offline_replay (ev_req e) then tw_js w else pub (tw_js w))"
    "tw_resumed w' = tw_resumed w"
    "is_offline_replay (ev_req e) \<Longrightarrow> rep = RText 200 ''replayed''"
    "\<not> is_offline_replay (ev_req e) \<Longrightarrow>
      \<exists>s1 ts. list_all_of u ''all'' (tw_store w) = (s1, Inr ts) \<and> rep = stream k (evs ts)"
    using st assms(2) by (cases "is_offline_replay (ev_req e)"; simp)+
qed

lemma finish_own_step:
  assumes "uses_store h" and "inv (tw_store w)" and "owner_of e = u" and "u \<noteq> ''''"
    and "own_step u s (tw_store w)"
  shows "own_step u s (tw_store (fst (finish h k e pub evs w)))"
  using finish_run [OF assms(1-4), of k pub evs] assms(5) by (auto simp: own_step_def)

lemma create_own_step:
  assumes "uses_store h" and "inv (tw_store w)" and "user_of_request h rq = u" and "u \<noteq> ''''"
  shows "own_step u (tw_store w) (tw_store (fst (handle_create h k now uuid rq w)))"
proof -
  let ?item = "\<lambda>idem. \<lparr>td_id = idem, td_title = form_value rq ''title'', td_completed = False,
    td_created = now, td_updated = now\<rparr>"
  define idem where "idem = (if form_value rq ''idem_key'' = '''' then uuid else form_value rq ''idem_key'')"
  obtain s1 r where run: "create (?item idem) u idem (tw_store w) = (s1, r)" by fastforce
  have st: "own_step u (tw_store w) s1" by (rule own_step_create [OF assms(2,4) run])
  have "inv s1" using st by (simp add: own_step_def)
  then show ?thesis
    using run st own_step_refl [OF assms(2)] assms(3,4)
    by (cases r) (auto simp: handle_create_def save_todo_def Let_def uses_storeD [OF assms(1)]
      idem_def [symmetric] intro!: finish_own_step [OF assms(1)])
qed

lemma toggle_own_step:
  assumes "uses_store h" and "inv (tw_store w)" and "user_of_request h rq = u" and "u \<noteq> ''''"
    and "rq_path_id rq \<noteq> ''''"
  shows "own_step u (tw_store w) (tw_store (fst (handle_toggle h k rq w)))"
proof -
  obtain s1 r where g: "get_one u (rq_path_id rq) (tw_store w) = (s1, r)" by fastforce
  have s1: "own_step u (tw_store w) s1" using own_step_get [OF assms(2,4,5) g] by simp
  then have i1: "inv s1" by (simp add: own_step_def)
  show ?thesis
  proof (cases r)
    case (Inl e)
    then show ?thesis using g s1 assms(3) by (simp add: handle_toggle_def uses_storeD [OF assms(1)])
  next
    case (Inr cur)
    obtain s2 q where up: "update u (rq_path_id rq) [(''completed'', PBool (\<not> td_completed cur))] s1 = (s2, q)"
      by fastforce
    have s2: "own_step u (tw_store w) s2"
      using own_step_trans [OF s1 own_step_update [OF i1 assms(4,5) patch_completed_known up]] .
    then have "inv s2" by (simp add: own_step_def)
    then show ?thesis
      using g Inr up s2 assms(3,4)
      by (cases q) (auto simp: handle_toggle_def Let_def uses_storeD [OF assms(1)]
        intro!: finish_own_step [OF assms(1)])
  qed
qed

end

context entity_store
begin

lemma delete_own_step:
  assumes "uses_store h" and "inv (tw_store w)" and "user_of_request h rq = u" and "u \<noteq> ''''"
    and "rq_path_id rq \<noteq> ''''"
  shows "own_step u (tw_store w) (tw_store (fst (handle_delete h k rq w)))"
proof -
  obtain s1 r where g: "get_one u (rq_path_id rq) (tw_store w) = (s1, r)" by fastforce
  have s1: "own_step u (tw_store w) s1" using own_step_get [OF assms(2,4,5) g] by simp
  then have i1: "inv s1" by (simp add: own_step_def)
  obtain s2 q where dl: "delete u (rq_path_id rq) s1 = (s2, q)" by fastforce
  have s2: "own_step u (tw_store w) s2"
    by (rule own_step_trans [OF s1 own_step_delete [OF i1 assms(4,5) dl]])
  then have "inv s2" by (simp add: own_step_def)
  then show ?thesis
    using g dl s1 s2 assms(3,4)
    by (cases r) (auto simp: handle_delete_def Let_def uses_storeD [OF assms(1)]
      intro!: finish_own_step [OF assms(1)])
qed

lemma clear_own_step:
  assumes "uses_store h" and "inv (tw_store w)" and "user_of_request h rq = u" and "u \<noteq> ''''"
  shows "own_step u (tw_store w) (tw_store (fst (handle_clear_completed h k rq w)))"
proof -
  obtain s1 n ce where c: "clear u (tw_store w) = (s1, n, ce)" by (metis prod_cases3)
  have s1: "own_step u (tw_store w) s1" by (rule own_step_clear [OF assms(2,4) c])
  then have "inv s1" by (simp add: own_step_def)
  then show ?thesis
    using c s1 assms(3,4)
    by (cases ce) (auto simp: handle_clear_completed_def Let_def uses_storeD [OF assms(1)]
      intro!: finish_own_step [OF assms(1)])
qed

lemma read_own_step:
  assumes "uses_store h" and "inv (tw_store w)" and "user_of_request h rq = u" and "u \<noteq> ''''"
    and "rq_path_id rq \<noteq> ''''"
  shows "own_step u (tw_store w) (tw_store (fst (handle_list h k rq w)))"
    "own_step u (tw_store w) (tw_store (fst (handle_list_fragment h rq w)))"
    "own_step u (tw_store w) (tw_store (fst (handle_confirm_delete h k rq w)))"
proof -
  obtain s1 r where l: "list_all_of u (list_filter_of rq) (tw_store w) = (s1, r)" by fastforce
  have s1: "own_step u (tw_store w) s1" "inv s1"
    using own_step_list [OF assms(2,4) l] by (simp_all add: own_step_def)
  obtain s2 c where ct: "count u s1 = (s2, c)" by fastforce
  have s2: "own_step u (tw_store w) s2"
    using own_step_trans [OF s1(1)] own_step_count [OF s1(2) assms(4) ct] by blast
  have auth: "ev_auth (app_auth h rq) \<noteq> None"
    by (rule app_auth_user) (simp only: assms(3,4) not_False_eq_True)
  show "own_step u (tw_store w) (tw_store (fst (handle_list h k rq w)))"
    "own_step u (tw_store w) (tw_store (fst (handle_list_fragment h rq w)))"
    using l ct s1(1) s2 auth list_law [OF assms(2,4) l]
    unfolding handle_list_def handle_list_fragment_def list_todos_def count_owned_todos_def Let_def
      uses_storeD [OF assms(1)] owner_app_auth assms(3)
    by (auto simp: assms(3))
  obtain s3 q where g: "get_one u (rq_path_id rq) (tw_store w) = (s3, q)" by fastforce
  then show "own_step u (tw_store w) (tw_store (fst (handle_confirm_delete h k rq w)))"
    using own_step_get [OF assms(2,4,5) g] assms(3)
    by (cases q) (simp_all add: handle_confirm_delete_def uses_storeD [OF assms(1)])
qed

text \<open>Any request of a logged-in user touches that user's todos only.\<close>

lemma serve_own_step:
  assumes "uses_store h" and "inv (tw_store w)" and "user_of_request h rq \<noteq> ''''"
    and "rq_path_id rq \<noteq> ''''"
  shows "own_step (user_of_request h rq) (tw_store w) (tw_store (fst (serve h call k rq w)))"
  using create_own_step [OF assms(1,2) refl assms(3)] toggle_own_step [OF assms(1,2) refl assms(3,4)]
    delete_own_step [OF assms(1,2) refl assms(3,4)] clear_own_step [OF assms(1,2) refl assms(3)]
    read_own_step [OF assms(1,2) refl assms(3,4)]
  by (cases call) (simp_all add: serve_def)

lemma serve_all_isolated:
  assumes "uses_store h" and "inv (tw_store w)"
    and "\<And>call k rq. (call, k, rq) \<in> set reqs \<Longrightarrow>
      user_of_request h rq \<noteq> '''' \<and> rq_path_id rq \<noteq> '''' \<and> user_of_request h rq \<noteq> v"
  shows "inv (tw_store (serve_all h reqs w)) \<and> view (tw_store (serve_all h reqs w)) v = view (tw_store w) v"
  using assms(2,3)
proof (induction reqs arbitrary: w)
  case (Cons r reqs)
  obtain call k rq where r: "r = (call, k, rq)" by (cases r)
  have q: "user_of_request h rq \<noteq> ''''" "rq_path_id rq \<noteq> ''''" "user_of_request h rq \<noteq> v"
    using Cons.prems(2) r by auto
  have st: "own_step (user_of_request h rq) (tw_store w) (tw_store (fst (serve h call k rq w)))"
    by (rule serve_own_step [OF assms(1) Cons.prems(1) q(1,2)])
  then have "inv (tw_store (fst (serve h call k rq w)))" by (simp add: own_step_def)
  from Cons.IH [OF this] Cons.prems(2) st q(3) r show ?case
    by (auto simp: serve_all_def own_step_def)
qed (simp add: serve_all_def)

subsection \<open>What a mutation does\<close>

lemma toggle_run:
  assumes "uses_store h" and "inv (tw_store w)" and "user_of_request h rq = u" and "u \<noteq> ''''"
    and "rq_path_id rq \<noteq> ''''" and "handle_toggle h k rq w = (w', rep)"
    and "rep \<noteq> RText 404 ''not found''" and "rep \<noteq> RText 500 ''toggle failed''"
  shows "\<exists>t c. view (tw_store w) u (rq_path_id rq) = Some (t, c) \<and>
    view (tw_store w') = (view (tw_store w))(u := (view (tw_store w) u)(rq_path_id rq \<mapsto> (t, \<not> c))) \<and>
    inv (tw_store w') \<and>
    tw_js w' = (if is_offline_replay rq then tw_js w
      else publish_crud_op h crud_op_toggle u
        (Some \<lparr>cd_id = rq_path_id rq, cd_title = '''', cd_completed = \<not> c\<rparr>) (tw_js w))"
proof -
  obtain s1 r where g: "get_one u (rq_path_id rq) (tw_store w) = (s1, r)" by fastforce
  note gl = get_law [OF assms(2,4,5) g]
  obtain cur where r: "r = Inr cur"
    using assms(3,6,7) g by (cases r) (auto simp: handle_toggle_def Let_def uses_storeD [OF assms(1)])
  obtain s2 q where up: "update u (rq_path_id rq) [(''completed'', PBool (\<not> td_completed cur))] s1 = (s2, q)"
    by fastforce
  have "inv s1" using gl by simp
  note ul = update_law [OF this assms(4,5) patch_completed_known up]
  obtain t where q: "q = Inr t"
    using assms(3,6,8) g r up by (cases q) (auto simp: handle_toggle_def Let_def uses_storeD [OF assms(1)])
  have v: "view (tw_store w) u (rq_path_id rq) = Some (td_title cur, td_completed cur)"
      "view s1 = view (tw_store w)" "td_id t = rq_path_id rq"
      "td_completed t = (\<not> td_completed cur)" "inv s2"
      "view s2 u = (view s1 u)(rq_path_id rq \<mapsto> (td_title cur, \<not> td_completed cur))"
      "\<And>v. v \<noteq> u \<Longrightarrow> view s2 v = view s1 v"
    using gl ul r q by auto
  let ?w = "w\<lparr>tw_store := s2\<rparr>"
  let ?pub = "publish_crud_op h crud_op_toggle u
    (Some \<lparr>cd_id = td_id t, cd_title = '''', cd_completed = td_completed t\<rparr>)"
  have eq: "(w', rep) = finish h k (app_auth h rq) ?pub (\<lambda>ts. patch_self_origin h ts (resolve_skin h rq)) ?w"
    using assms(3,6) g r up q by (simp add: handle_toggle_def Let_def uses_storeD [OF assms(1)])
  have "inv (tw_store ?w)" using v(5) by simp
  from finish_world [OF assms(1) this _ assms(4) eq] assms(3)
  have "view (tw_store w') = view s2" "inv (tw_store w')"
      "tw_js w' = (if is_offline_replay rq then tw_js w else ?pub (tw_js w))"
    by simp_all
  then show ?thesis using v by (intro exI [of _ "td_title cur"] exI [of _ "td_completed cur"]) auto
qed

end

context entity_store
begin

lemma create_run:
  assumes "uses_store h" and "inv (tw_store w)" and "user_of_request h rq = u" and "u \<noteq> ''''"
    and "handle_create h k now uuid rq w = (w', rep)" and "rep \<noteq> RText 500 ''save failed''"
    and "rq_form rq \<noteq> None" and "form_value rq ''title'' \<noteq> ''''"
  shows "\<exists>t :: todo. (\<exists>e idem s1. create e u idem (tw_store w) = (s1, Inr t)) \<and>
    view (tw_store w') = (view (tw_store w))(u := (view (tw_store w) u)(td_id t \<mapsto> (td_title t, td_completed t))) \<and>
    (if view (tw_store w) u (td_id t) = None
     then td_title t = form_value rq ''title'' \<and> td_completed t = False
     else view (tw_store w') = view (tw_store w)) \<and>
    inv (tw_store w') \<and>
    tw_js w' = publish_crud_op h crud_op_create u
      (Some \<lparr>cd_id = td_id t, cd_title = td_title t, cd_completed = td_completed t\<rparr>) (tw_js w) \<and>
    tw_resumed w' = tw_resumed w @ (if th_has_onboarding h then [u] else []) \<and>
    (\<not> is_offline_replay rq \<longrightarrow> (\<exists>ts s1. list_all_of u ''all'' s1 = (tw_store w', Inr ts) \<and>
      inv s1 \<and> view s1 = view (tw_store w') \<and>
      rep = stream k (MergeMap [(''loading'', JBool False), (''newTitle'', JStr ''''),
                 (''itemCount'', JInt (int (length ts)))] #
               patch_self_origin h ts (resolve_skin h rq) @ [Toast ''Added'' ''success''])))"
proof -
  let ?idem = "if form_value rq ''idem_key'' = '''' then uuid else form_value rq ''idem_key''"
  let ?item = "\<lparr>td_id = ?idem, td_title = form_value rq ''title'', td_completed = False,
    td_created = now, td_updated = now\<rparr>"
  obtain s1 r where run: "create ?item u ?idem (tw_store w) = (s1, r)" by fastforce
  note cl = create_law [OF assms(2,4) run]
  obtain t where r: "r = Inr t"
    using assms(3,5-8) run
    by (cases r) (auto simp: handle_create_def save_todo_def Let_def uses_storeD [OF assms(1)])
  let ?w = "w\<lparr>tw_store := s1,
      tw_js := publish_crud_op h crud_op_create u
        (Some \<lparr>cd_id = td_id t, cd_title = td_title t, cd_completed = td_completed t\<rparr>) (tw_js w),
      tw_resumed := tw_resumed w @ (if th_has_onboarding h then [u] else [])\<rparr>"
  let ?evs = "\<lambda>ts. MergeMap [(''loading'', JBool False), (''newTitle'', JStr ''''),
       (''itemCount'', JInt (int (length ts)))] #
     patch_self_origin h ts (resolve_skin h rq) @ [Toast ''Added'' ''success'']"
  have eq: "(w', rep) = finish h k (app_auth h rq) (\<lambda>js. js) ?evs ?w"
    using assms(3,5,7,8) run r
    by (auto simp: handle_create_def save_todo_def Let_def uses_storeD [OF assms(1)])
  have "inv (tw_store ?w)" using cl by simp
  note fw = finish_world [OF assms(1) this _ assms(4) eq]
  have fin: "view (tw_store w') = view s1" "inv (tw_store w')" "tw_js w' = tw_js ?w"
      "tw_resumed w' = tw_resumed ?w"
    using fw(1-4) assms(3) by simp_all
  have online: "\<not> is_offline_replay rq \<longrightarrow> (\<exists>ts s0. list_all_of u ''all'' s0 = (tw_store w', Inr ts) \<and>
      inv s0 \<and> view s0 = view (tw_store w') \<and> rep = stream k (?evs ts))"
  proof
    assume onl: "\<not> is_offline_replay rq"
    obtain s2 ts where "list_all_of u ''all'' s1 = (s2, Inr ts)"
        "finish h k (app_auth h rq) (\<lambda>js. js) ?evs ?w = (?w\<lparr>tw_store := s2, tw_js := tw_js ?w\<rparr>, stream k (?evs ts))"
      using finish_run [OF assms(1) \<open>inv (tw_store ?w)\<close>, of "app_auth h rq" u k "\<lambda>js. js" ?evs] assms(3,4) onl
      by auto
    with eq fin(1) cl show "\<exists>ts s0. list_all_of u ''all'' s0 = (tw_store w', Inr ts) \<and>
      inv s0 \<and> view s0 = view (tw_store w') \<and> rep = stream k (?evs ts)"
      by (intro exI [of _ ts] exI [of _ s1]) auto
  qed
  have new: "view s1 = (view (tw_store w))(u := (view (tw_store w) u)(td_id t \<mapsto> (td_title t, td_completed t)))"
    using cl r by (auto simp: fun_eq_iff)
  have kept: "if view (tw_store w) u (td_id t) = None
      then td_title t = form_value rq ''title'' \<and> td_completed t = False
      else view s1 = view (tw_store w)"
  proof (cases "view (tw_store w) u (td_id t) = None")
    case False
    then have "view s1 v = view (tw_store w) v" for v
      using cl r by (cases "v = u") auto
    with False show ?thesis by auto
  qed (use cl r in auto)
  show ?thesis
  proof (rule exI [of _ t], intro conjI)
    show "\<exists>e idem s1. create e u idem (tw_store w) = (s1, Inr t)" using run r by blast
    show "view (tw_store w') = (view (tw_store w))(u := (view (tw_store w) u)(td_id t \<mapsto> (td_title t, td_completed t)))"
      by (simp only: fin(1) new)
    show "tw_resumed w' = tw_resumed w @ (if th_has_onboarding h then [u] else [])"
      using fin(4) by simp
    show "tw_js w' = publish_crud_op h crud_op_create u
        (Some \<lparr>cd_id = td_id t, cd_title = td_title t, cd_completed = td_completed t\<rparr>) (tw_js w)"
      using fin(3) by simp
  qed (use kept fin(1,2) online in \<open>simp_all only:\<close>)
qed

lemma delete_run:
  assumes "uses_store h" and "inv (tw_store w)" and "user_of_request h rq = u" and "u \<noteq> ''''"
    and "rq_path_id rq \<noteq> ''''" and "handle_delete h k rq w = (w', rep)"
    and "rep \<noteq> RText 404 ''not found''" and "rep \<noteq> RText 500 ''delete failed''"
  shows "view (tw_store w) u (rq_path_id rq) \<noteq> None \<and>
    view (tw_store w') = (view (tw_store w))(u := (view (tw_store w) u)(rq_path_id rq := None)) \<and>
    inv (tw_store w') \<and>
    tw_js w' = (if is_offline_replay rq then tw_js w
      else publish_crud_op h crud_op_delete u
        (Some \<lparr>cd_id = rq_path_id rq, cd_title = '''', cd_completed = False\<rparr>) (tw_js w))"
proof -
  obtain s1 r where g: "get_one u (rq_path_id rq) (tw_store w) = (s1, r)" by fastforce
  note gl = get_law [OF assms(2,4,5) g]
  obtain t where r: "r = Inr t"
    using assms(3,6,7) g by (cases r) (auto simp: handle_delete_def Let_def uses_storeD [OF assms(1)])
  then have t: "td_id t = rq_path_id rq" "view (tw_store w) u (rq_path_id rq) \<noteq> None" using gl by auto
  obtain s2 q where dl: "delete u (rq_path_id rq) s1 = (s2, q)" by fastforce
  have "inv s1" using gl by simp
  note dlaw = delete_law [OF this assms(4,5) dl]
  have q: "q = Inr () \<or> q = Inl ErrNotFound"
    using assms(3,6,8) g r dl by (auto simp: handle_delete_def Let_def uses_storeD [OF assms(1)] split: if_splits)
  have v2: "view s2 = (view (tw_store w))(u := (view (tw_store w) u)(rq_path_id rq := None))"
    using q dlaw gl r by (auto simp: fun_eq_iff)
  let ?w = "w\<lparr>tw_store := s2\<rparr>"
  let ?pub = "publish_crud_op h crud_op_delete u
    (Some \<lparr>cd_id = td_id t, cd_title = '''', cd_completed = False\<rparr>)"
  let ?evs = "\<lambda>ts. MergeMap [(''confirmingDeleteId'', JStr ''''), (''confirmingDeleteTitle'', JStr '''')] #
      patch_self_origin h ts (resolve_skin h rq) @
      [Toast (''Deleted '' @ open_quote @ td_title t @ close_quote) ''info'']"
  have eq: "(w', rep) = finish h k (app_auth h rq) ?pub ?evs ?w"
    using assms(3,6) g r dl q by (auto simp: handle_delete_def Let_def uses_storeD [OF assms(1)])
  have "inv (tw_store ?w)" using dlaw by simp
  from finish_world [OF assms(1) this _ assms(4) eq] assms(3)
  show ?thesis using v2 t by simp
qed

lemma clear_run:
  assumes "uses_store h" and "inv (tw_store w)" and "user_of_request h rq = u" and "u \<noteq> ''''"
    and "handle_clear_completed h k rq w = (w', rep)" and "rep \<noteq> RText 500 ''clear failed''"
  shows "view (tw_store w') = (view (tw_store w))(u := drop_completed (view (tw_store w) u)) \<and>
    inv (tw_store w') \<and>
    tw_js w' = (if is_offline_replay rq then tw_js w
      else publish_crud_op h crud_op_clear_completed u None (tw_js w))"
proof -
  obtain s1 n ce where c: "clear u (tw_store w) = (s1, n, ce)" by (metis prod_cases3)
  note cl = clear_law [OF assms(2,4) c]
  have ce: "ce = None"
    using assms(3,5,6) c by (cases ce) (auto simp: handle_clear_completed_def Let_def uses_storeD [OF assms(1)])
  let ?w = "w\<lparr>tw_store := s1\<rparr>"
  let ?evs = "\<lambda>ts. patch_self_origin h ts (resolve_skin h rq) @
     [if n = 0 then Toast ''Nothing to clear'' ''info''
      else Toast (''Cleared '' @ nat_str n @ '' completed'') ''success'']"
  have eq: "(w', rep) = finish h k (app_auth h rq) (publish_crud_op h crud_op_clear_completed u None) ?evs ?w"
    using assms(3,5) c ce by (auto simp: handle_clear_completed_def Let_def uses_storeD [OF assms(1)])
  have "inv (tw_store ?w)" using cl by simp
  from finish_world [OF assms(1) this _ assms(4) eq] assms(3) cl ce
  show ?thesis by (auto simp: drop_completed_def fun_eq_iff)
qed

end

subsection \<open>The two strategies behind the handler\<close>

definition pb_ops :: "'db pb_store store_ops" where
  "pb_ops = \<lparr>so_create = pb_create, so_get = pb_get, so_list = pb_list, so_update = pb_update,
     so_delete = pb_delete, so_clear = pb_clear_completed, so_count = pb_count\<rparr>"


definition crdt_ops :: "('db, 'd, 'js) crdt_store store_ops" where
  "crdt_ops = \<lparr>so_create = crdt_create, so_get = crdt_get, so_list = crdt_list, so_update = crdt_update,
     so_delete = crdt_delete, so_clear = crdt_clear_completed, so_count = crdt_count\<rparr>"

lemma pb_ops_fields [simp]:
  "so_create pb_ops = pb_create" "so_get pb_ops = pb_get" "so_list pb_ops = pb_list"
  "so_update pb_ops = pb_update" "so_delete pb_ops = pb_delete" "so_clear pb_ops = pb_clear_completed"
  "so_count pb_ops = pb_count"
  by (simp_all add: pb_ops_def)

lemma pb_uses [simp]: "th_store h = pb_ops \<Longrightarrow> pb.uses_store h"
  by (simp add: pb.uses_store_def pb_ops_def)

lemma crdt_uses [simp]: "th_store h = crdt_ops \<Longrightarrow> crdt.uses_store h"
  by (simp add: crdt.uses_store_def crdt_ops_def)

text \<open>A deployment for the witnesses: one account, the in-memory database, a log as JetStream.\<close>

definition log_conn :: "(string \<times> bytes) list nats_conn" where
  "log_conn = \<lparr>nc_publish = (\<lambda>s d js. (js @ [(s, d)], True)), nc_add_stream = (\<lambda>_ _ js. (js, None))\<rparr>"

definition demo_with :: "'s store_ops \<Rightarrow> ('s, (string \<times> bytes) list) todo_handler" where
  "demo_with ops = \<lparr>th_store = ops, th_accounts = one_account,
     th_crud = Some \<lparr>pb_conn = log_conn, pb_done = False\<rparr>, th_has_onboarding = True,
     th_llm = None, th_llm_simulated = Some \<lparr>lc_configured = True\<rparr>, th_skin = ''daisyui'',
     th_entity_store = ''pb'', th_offline_sync = True, th_nats = True, th_dagnats = True\<rparr>"

abbreviation demo_handler :: "(row list pb_store, (string \<times> bytes) list) todo_handler" where
  "demo_handler \<equiv> demo_with pb_ops"

definition demo_rows_with :: "bool \<Rightarrow> row list" where
  "demo_rows_with b =
    [\<lparr>rw_id = ''a'', rw_title = ''milk'', rw_completed = b, rw_created = 1, rw_updated = 1,
       rw_owner = ''ann'', rw_idem = ''k1''\<rparr>,
     \<lparr>rw_id = ''b'', rw_title = ''rent'', rw_completed = False, rw_created = 2, rw_updated = 2,
       rw_owner = ''bob'', rw_idem = ''k2''\<rparr>]"

abbreviation demo_rows :: "row list" where
  "demo_rows \<equiv> demo_rows_with True"

definition demo_world :: "row list \<Rightarrow> (row list pb_store, (string \<times> bytes) list) todo_world" where
  "demo_world rs = \<lparr>tw_store = mem_store rs, tw_js = [], tw_resumed = []\<rparr>"

definition demo_request :: "string \<Rightarrow> string \<Rightarrow> string \<Rightarrow> request" where
  "demo_request i title replay = \<lparr>rq_path = ''/api/todos'', rq_cookies = [cookie_name \<mapsto> ''tok-ann''],
     rq_query = (\<lambda>_. ''''), rq_form = Some (\<lambda>k. if k = ''title'' then title else ''''),
     rq_header = (\<lambda>k. if k = ''X-Offline-Replay'' then replay else ''''), rq_path_id = i\<rparr>"

lemma demo_inv: "pb_inv (tw_store (demo_world demo_rows))"
  by (simp add: demo_world_def) (rule mem_store_inv; auto simp: demo_rows_with_def well_formed_rows_def)

lemma demo_store [simp]: "th_store (demo_with ops) = ops" "th_has_onboarding (demo_with ops) = True"
  by (simp_all add: demo_with_def)

lemma demo_user [simp]: "user_of_request (demo_with ops) (demo_request i t r) = ''ann''"
  by (simp add: user_of_request_def app_auth_def owner_of_def load_app_auth_def demo_request_def
    demo_with_def one_account_def)

lemma demo_request_fields [simp]:
  "rq_path_id (demo_request i t r) = i" "form_value (demo_request i t r) ''title'' = t"
  "rq_form (demo_request i t r) \<noteq> None" "is_offline_replay (demo_request i t r) \<longleftrightarrow> r = ''1''"
  by (simp_all add: demo_request_def form_value_def is_offline_replay_def)

subsection \<open>Properties\<close>

text \<open>C18: With the PocketBase strategy no sequence of requests by logged-in users changes, or shows
  the handlers' invariant broken to, a user who made none of them: that user's todos are the same
  afterwards, whatever the requests were and whatever the backend answered.\<close>
theorem pb_requests_isolated:
  assumes "th_store h = pb_ops" and "pb_inv (tw_store w)"
    and "\<And>call k rq. (call, k, rq) \<in> set reqs \<Longrightarrow>
      user_of_request h rq \<noteq> '''' \<and> rq_path_id rq \<noteq> '''' \<and> user_of_request h rq \<noteq> v"
  shows "pb_inv (tw_store (serve_all h reqs w)) \<and>
    pb_view (tw_store (serve_all h reqs w)) v = pb_view (tw_store w) v"
  using pb.serve_all_isolated [OF pb_uses [OF assms(1)] assms(2,3)] .

theorem pb_requests_isolated_witness:
  "pb_view (tw_store (serve_all demo_handler
      [(ApiClearCompleted, 5, demo_request ''a'' '''' ''''), (ApiDelete, 0, demo_request ''b'' '''' '''')]
      (demo_world demo_rows))) ''bob'' = pb_view (mem_store demo_rows) ''bob''"
  by (subst pb_requests_isolated [OF demo_store(1) demo_inv, THEN conjunct2]) (auto simp: demo_world_def)

text \<open>C19: The CRDT strategy isolates users in the same way: requests of logged-in users leave the
  documents and rows of everybody else as they were.\<close>
theorem crdt_requests_isolated:
  assumes "th_store h = crdt_ops" and "crdt_inv (tw_store w)"
    and "\<And>call k rq. (call, k, rq) \<in> set reqs \<Longrightarrow>
      user_of_request h rq \<noteq> '''' \<and> rq_path_id rq \<noteq> '''' \<and> user_of_request h rq \<noteq> v"
  shows "crdt_inv (tw_store (serve_all h reqs w)) \<and>
    crdt_view (tw_store (serve_all h reqs w)) v = crdt_view (tw_store w) v"
  using crdt.serve_all_isolated [OF crdt_uses [OF assms(1)] assms(2,3)] .

theorem crdt_requests_isolated_witness:
  "crdt_view (tw_store (serve_all (demo_with crdt_ops)
      [(ApiClearCompleted, 5, demo_request ''k1'' '''' ''''), (ApiDelete, 0, demo_request ''k1'' '''' '''')]
      \<lparr>tw_store = mem_crdt one_row, tw_js = [], tw_resumed = []\<rparr>)) ''u1'' = crdt_view (mem_crdt one_row) ''u1''"
  by (subst crdt_requests_isolated [OF demo_store(1), THEN conjunct2]) (auto simp: one_row_inv)

text \<open>Two toggles of the same todo by its owner, both answered without an error, bring every user's
  todos back to what they were.\<close>
lemma toggle_twice_restores:
  assumes "th_store h = pb_ops" and "pb_inv (tw_store w)" and "user_of_request h rq \<noteq> ''''"
    and "rq_path_id rq \<noteq> ''''"
    and "handle_toggle h k rq w = (wa, ra)" and "ra \<noteq> RText 404 ''not found''" and "ra \<noteq> RText 500 ''toggle failed''"
    and "handle_toggle h k' rq wa = (wb, rb)" and "rb \<noteq> RText 404 ''not found''" and "rb \<noteq> RText 500 ''toggle failed''"
  shows "pb_view (tw_store wb) = pb_view (tw_store w)"
proof -
  note run = pb.toggle_run [OF pb_uses [OF assms(1)] _ refl assms(3,4)]
  from run [OF assms(2,5-7)] obtain t c where a: "pb_view (tw_store w) (user_of_request h rq) (rq_path_id rq) = Some (t, c)"
    "pb_view (tw_store wa) = (pb_view (tw_store w))(user_of_request h rq :=
       (pb_view (tw_store w) (user_of_request h rq))(rq_path_id rq \<mapsto> (t, \<not> c)))" "pb_inv (tw_store wa)" by blast
  from run [OF a(3) assms(8-10)] obtain t' c' where
    "pb_view (tw_store wa) (user_of_request h rq) (rq_path_id rq) = Some (t', c')"
    "pb_view (tw_store wb) = (pb_view (tw_store wa))(user_of_request h rq :=
       (pb_view (tw_store wa) (user_of_request h rq))(rq_path_id rq \<mapsto> (t', \<not> c')))" by blast
  with a show ?thesis by (auto simp: fun_eq_iff)
qed

lemma stream_not_text [simp]: "stream k evs \<noteq> RText n s" "RText n s \<noteq> stream k evs"
  by (simp_all add: stream_def write_events_def)

lemma demo_toggle:
  "\<exists>js' evs. handle_toggle demo_handler 9 (demo_request ''a'' '''' '''')
      \<lparr>tw_store = mem_store (demo_rows_with b), tw_js = js, tw_resumed = rs\<rparr> =
     (\<lparr>tw_store = mem_store (demo_rows_with (\<not> b)), tw_js = js', tw_resumed = rs\<rparr>, stream 9 evs)"
proof -
  let ?t = "\<lambda>c. \<lparr>td_id = ''a'', td_title = ''milk'', td_completed = c, td_created = 1, td_updated = 1\<rparr>"
  have g: "pb_get ''ann'' ''a'' (mem_store (demo_rows_with b)) = (mem_store (demo_rows_with b), Inr (?t b))"
    by (simp add: pb_get_def pb_lookup_def demo_rows_with_def from_record_def)
  have u: "pb_update ''ann'' ''a'' [(''completed'', PBool c)] (mem_store (demo_rows_with b)) =
      (mem_store (demo_rows_with c), Inr (?t c))" for c
    by (simp add: pb_update_def pb_lookup_def demo_rows_with_def from_record_def mem_save_def)
  have l: "\<exists>ts. pb_list ''ann'' ''all'' (mem_store rs) = (mem_store rs, Inr ts)" for rs
    by (simp add: pb_list_def find_list_def)
  from l [of "demo_rows_with (\<not> b)"] obtain ts where
    "pb_list ''ann'' ''all'' (mem_store (demo_rows_with (\<not> b))) = (mem_store (demo_rows_with (\<not> b)), Inr ts)" ..
  with g u show ?thesis by (simp add: handle_toggle_def finish_def list_todos_def Let_def) blast
qed

lemma toggle_twice_restores_witness:
  "pb_view (tw_store (fst (handle_toggle demo_handler 9 (demo_request ''a'' '''' '''')
     (fst (handle_toggle demo_handler 9 (demo_request ''a'' '''' '''') (demo_world demo_rows)))))) =
   pb_view (mem_store demo_rows)"
proof -
  let ?t = "\<lambda>w. handle_toggle demo_handler 9 (demo_request ''a'' '''' '''') w"
  obtain js evs where a: "?t (demo_world demo_rows) = (\<lparr>tw_store = mem_store (demo_rows_with (\<not> True)),
      tw_js = js, tw_resumed = []\<rparr>, stream 9 evs)"
    unfolding demo_world_def using demo_toggle [of True "[]" "[]"] by blast
  obtain js' evs' where b: "?t (fst (?t (demo_world demo_rows))) = (\<lparr>tw_store = mem_store (demo_rows_with True),
      tw_js = js', tw_resumed = []\<rparr>, stream 9 evs')"
    unfolding a using demo_toggle [of "\<not> True" js "[]"] by auto
  have "pb_view (tw_store (fst (?t (fst (?t (demo_world demo_rows)))))) = pb_view (tw_store (demo_world demo_rows))"
    by (rule toggle_twice_restores [OF demo_store(1) demo_inv, of "demo_request ''a'' '''' ''''" 9
        "fst (?t (demo_world demo_rows))" "stream 9 evs" 9 _ "stream 9 evs'"])
      (use a b in \<open>simp_all add: stream_not_text\<close>)
  then show ?thesis by (simp add: demo_world_def)
qed

text \<open>The todos of a rendered list region, and of the region in an event stream.\<close>

fun region_todos :: "region \<Rightarrow> todo list" where
  "region_todos (TodoListRegion _ sg) = (case sg_todos sg of None \<Rightarrow> [] | Some ts \<Rightarrow> ts)"
| "region_todos (SuggestionsList _) = []"

definition shows_exactly :: "todo list \<Rightarrow> (string \<rightharpoonup> string \<times> bool) \<Rightarrow> bool" where
  "shows_exactly ts v \<longleftrightarrow> distinct (map td_id ts) \<and>
     (\<forall>i x. (\<exists>t \<in> set ts. td_id t = i \<and> (td_title t, td_completed t) = x) \<longleftrightarrow> v i = Some x)"

lemma shows_exactly_card: "shows_exactly ts v \<Longrightarrow> length ts = card (dom v)"
proof -
  assume s: "shows_exactly ts v"
  have "i \<in> dom v \<longleftrightarrow> i \<in> td_id ` set ts" for i
    using s unfolding shows_exactly_def by (metis domIff imageE image_eqI not_None_eq)
  then have "dom v = set (map td_id ts)" by auto
  moreover have "distinct (map td_id ts)" using s by (simp add: shows_exactly_def)
  ultimately show ?thesis by (metis distinct_card length_map)
qed



lemma pb_list_shows:
  assumes "pb_inv s" and "u \<noteq> ''''" and "pb_list u ''all'' s = (s', Inr ts)"
  shows "shows_exactly ts (pb_view s u)"
  using pb.list_law [OF assms] by (auto simp: shows_exactly_def keeps_def)

text \<open>A connection that breaks early changes the answer, not the effect.\<close>

lemma finish_any_connection: "fst (finish h k e pub evs w) = fst (finish h k' e pub evs w)"
  by (auto simp: finish_def split: sum.splits prod.splits)

lemma create_any_connection: "fst (handle_create h k now uuid rq w) = fst (handle_create h k' now uuid rq w)"
  by (simp add: handle_create_def Let_def finish_any_connection [of h k _ _ _ _ k'] split: sum.splits prod.splits)

text \<open>C20: The answer to a successful create of a logged-in user carries the list as it is afterwards:
  the item counter and the patched region show exactly the owner's todos including the new one, as
  far as the connection takes the four events; what is stored, published and signalled to the
  onboarding run does not depend on the connection.\<close>
theorem create_response_shows_list:
  assumes "th_store h = pb_ops" and "pb_inv (tw_store w)" and "user_of_request h rq = u" and "u \<noteq> ''''"
    and "\<not> is_offline_replay rq" and "rq_form rq \<noteq> None" and "form_value rq ''title'' \<noteq> ''''"
    and "handle_create h k now uuid rq w = (w', rep)" and "rep \<noteq> RText 500 ''save failed''"
  shows "\<exists>i ts. pb_view (tw_store w) u i = None \<and>
    pb_view (tw_store w') u = (pb_view (tw_store w) u)(i \<mapsto> (form_value rq ''title'', False)) \<and>
    shows_exactly ts (pb_view (tw_store w') u) \<and> length ts = card (dom (pb_view (tw_store w') u)) \<and>
    region_todos (render_todo_list h ts (resolve_skin h rq)) = ts \<and>
    rep = stream k
      [MergeMap [(''loading'', JBool False), (''newTitle'', JStr ''''), (''itemCount'', JInt (int (length ts)))],
       MergeMap [(''lastItemSource'', JStr ''self''), (''itemCount'', JInt (int (length ts)))],
       PatchRegion ''#todo-list'' (render_todo_list h ts (resolve_skin h rq)) True,
       Toast ''Added'' ''success''] \<and>
    (\<forall>k2. fst (handle_create h k2 now uuid rq w) = w')"
proof -
  from pb.create_run [OF pb_uses [OF assms(1)] assms(2,3,4,8,9,6,7)] assms(5)
  obtain t :: todo and e idem s1 ts s2 where c: "pb_create e u idem (tw_store w) = (s1, Inr t)"
      and v: "pb_view (tw_store w') = (pb_view (tw_store w))(u :=
        (pb_view (tw_store w) u)(td_id t \<mapsto> (td_title t, td_completed t)))"
      and new: "pb_view (tw_store w) u (td_id t) = None \<Longrightarrow>
        td_title t = form_value rq ''title'' \<and> td_completed t = False"
      and l: "pb_list u ''all'' s2 = (tw_store w', Inr ts)" "pb_inv s2" "pb_view s2 = pb_view (tw_store w')"
      and rep: "rep = stream k (MergeMap [(''loading'', JBool False), (''newTitle'', JStr ''''),
                 (''itemCount'', JInt (int (length ts)))] #
               patch_self_origin h ts (resolve_skin h rq) @ [Toast ''Added'' ''success''])"
    by (elim exE conjE impE) (auto split: if_splits)
  have fresh: "pb_view (tw_store w) u (td_id t) = None" using pb_create_ok [OF assms(2,4) c] by simp
  have shows_it: "shows_exactly ts (pb_view (tw_store w') u)"
    using pb_list_shows [OF l(2) assms(4) l(1)] l(3) by simp
  show ?thesis
  proof (intro exI [of _ "td_id t"] exI [of _ ts] conjI)
    show "\<forall>k2. fst (handle_create h k2 now uuid rq w) = w'"
      using create_any_connection [of h _ now uuid rq w k] assms(8) by simp
    show "pb_view (tw_store w') u = (pb_view (tw_store w) u)(td_id t \<mapsto> (form_value rq ''title'', False))"
      using v new [OF fresh] by simp
  qed (use fresh shows_it shows_exactly_card [OF shows_it] rep in
    \<open>simp_all add: patch_self_origin_def render_todo_list_def render_todo_list_region_def region_signals_def\<close>)
qed

lemma handle_list_stream:
  assumes "handle_list h k rq w = (w', RStream evs ok)"
  shows "\<exists>flt n reg. evs = take k
    [MergeStruct (zero_signals\<lparr>sg_filter := flt, sg_item_count := int n, sg_loading := False,
       sg_llm_enabled := llm_enabled h\<rparr>), PatchRegion ''#todo-list'' reg False]"
  using assms by (simp add: handle_list_def Let_def stream_def write_events_def
    split: if_splits sum.splits prod.splits) blast+

text \<open>A click on a filter tab resets the page: the handler merges a complete signal set whose
  unnamed fields are zero, so the browser's client id becomes empty, whatever it was.\<close>
lemma filter_click_clears_client_id:
  assumes "handle_list h k rq w = (w', RStream evs ok)" and "0 < k"
  shows "browser_signals tm evs m ''clientID'' = Some (JStr '''') \<and>
    browser_signals tm evs m ''suggestions'' = None \<and>
    browser_signals tm evs m ''dagNatsEnabled'' = Some (JBool False)"
proof -
  obtain j where k: "k = Suc j" using assms(2) by (cases k) auto
  obtain flt n reg where evs: "evs = take k
    [MergeStruct (zero_signals\<lparr>sg_filter := flt, sg_item_count := int n, sg_loading := False,
       sg_llm_enabled := llm_enabled h\<rparr>), PatchRegion ''#todo-list'' reg False]"
    using handle_list_stream [OF assms(1)] by blast
  show ?thesis
    unfolding evs k by (cases j)
      (simp_all add: browser_signals_def merge_fields_def signals_fields_def zero_signals_def)
qed

lemma pb_create_new:
  assumes "th_store h = pb_ops" and "pb_inv (tw_store w)" and "user_of_request h rq = u" and "u \<noteq> ''''"
    and "handle_create h k now uuid rq w = (w', rep)" and "rep \<noteq> RText 500 ''save failed''"
    and "rq_form rq \<noteq> None" and "form_value rq ''title'' \<noteq> ''''"
  shows "\<exists>i. pb_view (tw_store w) u i = None \<and>
    pb_view (tw_store w') u = (pb_view (tw_store w) u)(i \<mapsto> (form_value rq ''title'', False)) \<and>
    pb_inv (tw_store w')"
proof -
  from pb.create_run [OF pb_uses [OF assms(1)] assms(2-8)]
  obtain t :: todo and e idem s1 where c: "pb_create e u idem (tw_store w) = (s1, Inr t)"
      and v: "pb_view (tw_store w') = (pb_view (tw_store w))(u :=
        (pb_view (tw_store w) u)(td_id t \<mapsto> (td_title t, td_completed t)))"
      and new: "if pb_view (tw_store w) u (td_id t) = None
        then td_title t = form_value rq ''title'' \<and> td_completed t = False
        else pb_view (tw_store w') = pb_view (tw_store w)"
      and inv: "pb_inv (tw_store w')"
    by (elim exE conjE)
  have "pb_view (tw_store w) u (td_id t) = None" using pb_create_ok [OF assms(2,4) c] by simp
  with v new inv show ?thesis by (intro exI [of _ "td_id t"]) simp
qed

lemma finish_not_save: "snd (finish h k e pub evs w) \<noteq> RText 500 ''save failed''"
  by (simp add: finish_def split: sum.splits prod.splits)

lemma demo_create_run:
  "snd (handle_create demo_handler 9 now key (demo_request '''' (c # cs) r) (demo_world rs)) \<noteq> RText 500 ''save failed''"
proof -
  have "\<exists>s' t. pb_create e u k (mem_store rs) = (s', Inr t)" for e u k
    by (simp add: pb_create_def mem_save_def Let_def)
  then obtain s' t where "pb_create \<lparr>td_id = key, td_title = c # cs, td_completed = False, td_created = now,
      td_updated = now\<rparr> ''ann'' key (mem_store rs) = (s', Inr t)" by blast
  moreover have "form_value (demo_request '''' (c # cs) r) ''idem_key'' = ''''"
    by (simp add: demo_request_def form_value_def)
  ultimately show ?thesis
    by (simp add: handle_create_def save_todo_def Let_def finish_not_save demo_world_def)
qed

theorem create_response_shows_list_witness:
  "\<exists>i. pb_view (tw_store (fst (handle_create demo_handler 9 7 ''k9'' (demo_request '''' ''tea'' '''')
      (demo_world demo_rows)))) ''ann'' = (pb_view (mem_store demo_rows) ''ann'')(i \<mapsto> (''tea'', False))"
proof -
  let ?r = "handle_create demo_handler 9 7 ''k9'' (demo_request '''' ''tea'' '''') (demo_world demo_rows)"
  have "snd ?r \<noteq> RText 500 ''save failed''" by (rule demo_create_run)
  moreover have "rq_form (demo_request '''' ''tea'' '''') \<noteq> None"
    "\<not> is_offline_replay (demo_request '''' ''tea'' '''')"
    "form_value (demo_request '''' ''tea'' '''') ''title'' \<noteq> ''''" "''ann'' \<noteq> ''''"
    by simp_all
  ultimately obtain i where "pb_view (tw_store (fst ?r)) ''ann'' =
      (pb_view (tw_store (demo_world demo_rows)) ''ann'')(i \<mapsto> (form_value (demo_request '''' ''tea'' '''') ''title'', False))"
    using create_response_shows_list [OF demo_store(1) demo_inv demo_user, of "'''' " "''tea''" "''''"
        9 7 "''k9''" "fst ?r" "snd ?r"] by (metis prod.collapse)
  then show ?thesis by (auto simp: demo_world_def)
qed

lemma filter_click_clears_client_id_witness:
  "case snd (handle_list demo_handler 2 (demo_request '''' '''' '''') (demo_world demo_rows)) of
     RStream evs ok \<Rightarrow> browser_signals (\<lambda>_. '''') evs [''clientID'' \<mapsto> JStr ''tab-1''] ''clientID'' = Some (JStr '''')
   | _ \<Rightarrow> False"
proof -
  have "ev_auth (app_auth demo_handler (demo_request '''' '''' '''')) \<noteq> None"
    by (rule app_auth_user) simp
  then obtain w' evs ok where run: "handle_list demo_handler 2 (demo_request '''' '''' '''') (demo_world demo_rows) =
      (w', RStream evs ok)"
    by (auto simp: handle_list_def list_todos_def count_owned_todos_def pb_list_def pb_count_def find_list_def
      demo_world_def stream_def write_events_def Let_def)
  show ?thesis
    using filter_click_clears_client_id [OF run, of "\<lambda>_. ''''" "[''clientID'' \<mapsto> JStr ''tab-1'']"]
    by (simp add: run)
qed

text \<open>The create handler does not deduplicate by the client's idempotency key: when a create that
  succeeded is replayed, the replay is either answered with a server error (the database's unique
  index refuses the row) or leaves the user with two new todos of the same title under different ids;
  it is never recognised as the todo that is already there.\<close>
lemma replayed_create_duplicates:
  assumes "th_store h = pb_ops" and "pb_inv (tw_store w)" and "user_of_request h rq = u" and "u \<noteq> ''''"
    and "rq_form rq \<noteq> None" and "form_value rq ''title'' \<noteq> ''''"
    and "handle_create h k now uuid rq w = (wa, ra)" and "ra \<noteq> RText 500 ''save failed''"
    and "handle_create h k' now' uuid' rq wa = (wb, rb)"
  shows "rb = RText 500 ''save failed'' \<or>
    (\<exists>i j. i \<noteq> j \<and> pb_view (tw_store w) u i = None \<and> pb_view (tw_store w) u j = None \<and>
      pb_view (tw_store wb) u = (pb_view (tw_store w) u)
        (i \<mapsto> (form_value rq ''title'', False), j \<mapsto> (form_value rq ''title'', False)))"
proof (cases "rb = RText 500 ''save failed''")
  case ok: False
  note step = pb_create_new [OF assms(1) _ assms(3,4) _ _ assms(5,6)]
  from step [OF assms(2,7,8)] obtain i where i: "pb_view (tw_store w) u i = None"
    "pb_view (tw_store wa) u = (pb_view (tw_store w) u)(i \<mapsto> (form_value rq ''title'', False))" "pb_inv (tw_store wa)"
    by blast
  from step [OF i(3) assms(9) ok] obtain j where "pb_view (tw_store wa) u j = None"
    "pb_view (tw_store wb) u = (pb_view (tw_store wa) u)(j \<mapsto> (form_value rq ''title'', False))" by blast
  with i have "\<exists>i j. i \<noteq> j \<and> pb_view (tw_store w) u i = None \<and> pb_view (tw_store w) u j = None \<and>
      pb_view (tw_store wb) u = (pb_view (tw_store w) u)
        (i \<mapsto> (form_value rq ''title'', False), j \<mapsto> (form_value rq ''title'', False))"
    by (intro exI [of _ i] exI [of _ j]) (auto split: if_splits)
  then show ?thesis ..
qed simp

lemma replayed_create_duplicates_witness:
  "\<exists>i j. \<exists>w :: (row list pb_store, (string \<times> bytes) list) todo_world.
    i \<noteq> j \<and> pb_view (tw_store w) ''ann'' i = Some (''tea'', False) \<and>
    pb_view (tw_store w) ''ann'' j = Some (''tea'', False)"
proof -
  let ?q = "demo_request '''' ''tea'' ''1''"
  let ?a = "handle_create demo_handler 9 7 ''k9'' ?q (demo_world demo_rows)"
  let ?b = "handle_create demo_handler 9 8 ''k9'' ?q (fst ?a)"
  have "\<exists>s' t. pb_create e u k (mem_store rs) = (s', Inr t) \<and> (\<exists>rs'. s' = mem_store rs')" for e u k rs
    by (simp add: pb_create_def mem_save_def Let_def) blast
  then obtain t rs' where c: "pb_create \<lparr>td_id = ''k9'', td_title = ''tea'', td_completed = False, td_created = 7,
      td_updated = 7\<rparr> ''ann'' ''k9'' (mem_store demo_rows) = (mem_store rs', Inr t)" by metis
  have k: "form_value ?q ''idem_key'' = ''''" by (simp add: demo_request_def form_value_def)
  then obtain js os where a: "fst ?a = \<lparr>tw_store = mem_store rs', tw_js = js, tw_resumed = os\<rparr>"
    by (simp add: handle_create_def save_todo_def Let_def c finish_def demo_world_def)
  have "\<exists>s' t. pb_create e u k (mem_store rs') = (s', Inr t)" for e u k
    by (simp add: pb_create_def mem_save_def Let_def)
  then obtain s2 t2 where "pb_create \<lparr>td_id = ''k9'', td_title = ''tea'', td_completed = False, td_created = 8,
      td_updated = 8\<rparr> ''ann'' ''k9'' (mem_store rs') = (s2, Inr t2)" by blast
  then have b: "snd ?b \<noteq> RText 500 ''save failed''"
    unfolding a using k by (simp add: handle_create_def save_todo_def Let_def finish_not_save)
  have "rq_form ?q \<noteq> None" "form_value ?q ''title'' \<noteq> ''''" by simp_all
  from replayed_create_duplicates [OF demo_store(1) demo_inv demo_user _ this, of 9 7 "''k9''" "fst ?a" "snd ?a"
      9 8 "''k9''" "fst ?b" "snd ?b"] demo_create_run [of 7 "''k9''" "CHR ''t''" "''ea''" "''1''" demo_rows] b
  obtain i j where "i \<noteq> j" "pb_view (tw_store (fst ?b)) ''ann'' = (pb_view (tw_store (demo_world demo_rows)) ''ann'')
      (i \<mapsto> (''tea'', False), j \<mapsto> (''tea'', False))" by auto
  then have "i \<noteq> j \<and> pb_view (tw_store (fst ?b)) ''ann'' i = Some (''tea'', False) \<and>
      pb_view (tw_store (fst ?b)) ''ann'' j = Some (''tea'', False)" by simp
  then show ?thesis by blast
qed

end
