(* ===== verification/Replication.thy ===== *)
theory Replication
  imports TodoHandlers
begin

text \<open>
  The todo handlers together with the CRUD proxy: what an edge instance serves and publishes, and what
  a server instance makes of the messages.  The lemmas about a served request hold for any storage
  strategy; the composition with the consumer is for the PocketBase strategy on both sides.
\<close>

subsection \<open>What a request does and publishes\<close>

text \<open>\<open>c\<close> says whether a create may be published.\<close>

definition published_ok ::
  "bool \<Rightarrow> ('s, 'js) todo_handler \<Rightarrow> string \<Rightarrow> ('s \<Rightarrow> string \<Rightarrow> string \<rightharpoonup> string \<times> bool) \<Rightarrow>
   ('s, 'js) todo_world \<Rightarrow> ('s, 'js) todo_world \<Rightarrow> bool" where
  "published_ok c h u view w w' \<longleftrightarrow>
     (view (tw_store w') = view (tw_store w) \<and> tw_js w' = tw_js w) \<or>
     (\<exists>opn d. view (tw_store w') = (view (tw_store w))
          (u := crud_effect \<lparr>cp_op = opn, cp_user = u, cp_data = d\<rparr> (view (tw_store w) u)) \<and>
        tw_js w' = publish_crud_op h opn u d (tw_js w) \<and> (opn = crud_op_create \<longrightarrow> c) \<and>
        (opn \<noteq> crud_op_clear_completed \<longrightarrow> (\<exists>x. d = Some x \<and>
           (view (tw_store w) u (cd_id x) \<noteq> None \<or> view (tw_store w') u (cd_id x) \<noteq> None))))"

lemma published_same [intro]:
  "view (tw_store w') = view (tw_store w) \<Longrightarrow> tw_js w' = tw_js w \<Longrightarrow> published_ok c h u view w w'"
  by (simp add: published_ok_def)

lemma publishedI:
  "view (tw_store w') = (view (tw_store w))
     (u := crud_effect \<lparr>cp_op = opn, cp_user = u, cp_data = d\<rparr> (view (tw_store w) u)) \<Longrightarrow>
   tw_js w' = publish_crud_op h opn u d (tw_js w) \<Longrightarrow> (opn = crud_op_create \<Longrightarrow> c) \<Longrightarrow>
   (opn \<noteq> crud_op_clear_completed \<Longrightarrow> \<exists>x. d = Some x \<and>
      (view (tw_store w) u (cd_id x) \<noteq> None \<or> view (tw_store w') u (cd_id x) \<noteq> None)) \<Longrightarrow>
   published_ok c h u view w w'"
  unfolding published_ok_def by blast

definition creates :: "api_call \<Rightarrow> bool" where
  "creates call \<longleftrightarrow> (case call of ApiCreate _ _ \<Rightarrow> True | _ \<Rightarrow> False)"

lemma creates_simps [simp]: "creates (ApiCreate now uuid)"
  by (simp add: creates_def)

definition server_error :: "response \<Rightarrow> bool" where
  "server_error r = (case r of RText n _ \<Rightarrow> n = 500 | _ \<Rightarrow> False)"

lemma server_error_text [simp]: "\<not> server_error r \<Longrightarrow> r \<noteq> RText 500 m"
  by (auto simp: server_error_def)

context entity_store
begin

lemma create_published:
  assumes "uses_store h" and "inv (tw_store w)" and "user_of_request h rq = u" and "u \<noteq> ''''"
    and "handle_create h k now uuid rq w = (w', rep)" and "\<not> server_error rep"
  shows "inv (tw_store w') \<and> published_ok True h u view w w'"
proof (cases "rq_form rq = None \<or> form_value rq ''title'' = ''''")
  case True
  then have "w' = w" using assms(5) by (auto simp: handle_create_def Let_def split: if_splits)
  then show ?thesis using assms(2) by auto
next
  case False
  from create_run [OF assms(1-5)] False assms(6)
  obtain t :: todo where v: "view (tw_store w') = (view (tw_store w))(u :=
        (view (tw_store w) u)(td_id t \<mapsto> (td_title t, td_completed t)))"
      and new: "if view (tw_store w) u (td_id t) = None
        then td_title t = form_value rq ''title'' \<and> td_completed t = False
        else view (tw_store w') = view (tw_store w)"
      and inv: "inv (tw_store w')"
      and js: "tw_js w' = publish_crud_op h crud_op_create u
        (Some \<lparr>cd_id = td_id t, cd_title = td_title t, cd_completed = td_completed t\<rparr>) (tw_js w)"
    by (elim meta_impE exE conjE) simp_all
  have "published_ok True h u view w w'"
  proof (rule publishedI)
    show "tw_js w' = publish_crud_op h crud_op_create u
        (Some \<lparr>cd_id = td_id t, cd_title = td_title t, cd_completed = td_completed t\<rparr>) (tw_js w)" by (rule js)
    show "view (tw_store w') = (view (tw_store w))(u := crud_effect \<lparr>cp_op = crud_op_create, cp_user = u,
        cp_data = Some \<lparr>cd_id = td_id t, cd_title = td_title t, cd_completed = td_completed t\<rparr>\<rparr>
          (view (tw_store w) u))"
      using v new False by (auto simp: crud_effect_def split: if_splits)
    show "\<exists>x. Some \<lparr>cd_id = td_id t, cd_title = td_title t, cd_completed = td_completed t\<rparr> = Some x \<and>
        (view (tw_store w) u (cd_id x) \<noteq> None \<or> view (tw_store w') u (cd_id x) \<noteq> None)"
      by (simp add: v)
  qed simp
  with inv show ?thesis ..
qed

lemma toggle_published:
  assumes "uses_store h" and "inv (tw_store w)" and "user_of_request h rq = u" and "u \<noteq> ''''"
    and "rq_path_id rq \<noteq> ''''" and "\<not> is_offline_replay rq"
    and "handle_toggle h k rq w = (w', rep)" and "\<not> server_error rep"
  shows "inv (tw_store w') \<and> published_ok c h u view w w'"
proof (cases "rep = RText 404 ''not found''")
  case True
  obtain s1 r where g: "get_one u (rq_path_id rq) (tw_store w) = (s1, r)" by fastforce
  then have "w' = w\<lparr>tw_store := s1\<rparr>"
    using True assms(1,3,7,8) finish_run [OF assms(1)]
    by (cases r) (auto simp: handle_toggle_def Let_def uses_storeD finish_def list_todos_def
      split: sum.splits prod.splits if_splits)
  with get_law [OF assms(2,4,5) g] show ?thesis by auto
next
  case False
  from toggle_run [OF assms(1-5,7) False] assms(6,8) obtain t b where
    v: "view (tw_store w) u (rq_path_id rq) = Some (t, b)"
    "view (tw_store w') = (view (tw_store w))(u := (view (tw_store w) u)(rq_path_id rq \<mapsto> (t, \<not> b)))"
    "inv (tw_store w')" "tw_js w' = publish_crud_op h crud_op_toggle u
       (Some \<lparr>cd_id = rq_path_id rq, cd_title = '''', cd_completed = \<not> b\<rparr>) (tw_js w)"
    by auto
  have "published_ok c h u view w w'"
    by (rule publishedI [OF _ v(4)]) (simp_all add: v(1,2) crud_effect_def)
  with v(3) show ?thesis ..
qed

end

context entity_store
begin

lemma delete_published:
  assumes "uses_store h" and "inv (tw_store w)" and "user_of_request h rq = u" and "u \<noteq> ''''"
    and "rq_path_id rq \<noteq> ''''" and "\<not> is_offline_replay rq"
    and "handle_delete h k rq w = (w', rep)" and "\<not> server_error rep"
  shows "inv (tw_store w') \<and> published_ok c h u view w w'"
proof (cases "rep = RText 404 ''not found''")
  case True
  obtain s1 r where g: "get_one u (rq_path_id rq) (tw_store w) = (s1, r)" by fastforce
  then have "w' = w\<lparr>tw_store := s1\<rparr>"
    using True assms(1,3,7,8)
    by (cases r) (auto simp: handle_delete_def Let_def uses_storeD finish_def list_todos_def
      split: sum.splits prod.splits if_splits)
  with get_law [OF assms(2,4,5) g] show ?thesis by auto
next
  case False
  from delete_run [OF assms(1-5,7) False] assms(6,8) have
    v: "view (tw_store w) u (rq_path_id rq) \<noteq> None"
    "view (tw_store w') = (view (tw_store w))(u := (view (tw_store w) u)(rq_path_id rq := None))"
    "inv (tw_store w')" "tw_js w' = publish_crud_op h crud_op_delete u
       (Some \<lparr>cd_id = rq_path_id rq, cd_title = '''', cd_completed = False\<rparr>) (tw_js w)"
    by auto
  have "published_ok c h u view w w'"
    by (rule publishedI [OF _ v(4)]) (use v(1) in \<open>simp_all add: v(2) crud_effect_def\<close>)
  with v(3) show ?thesis ..
qed

lemma clear_published:
  assumes "uses_store h" and "inv (tw_store w)" and "user_of_request h rq = u" and "u \<noteq> ''''"
    and "\<not> is_offline_replay rq"
    and "handle_clear_completed h k rq w = (w', rep)" and "\<not> server_error rep"
  shows "inv (tw_store w') \<and> published_ok c h u view w w'"
proof -
  from clear_run [OF assms(1-4,6)] assms(5,7) have
    v: "view (tw_store w') = (view (tw_store w))(u := drop_completed (view (tw_store w) u))"
    "inv (tw_store w')" "tw_js w' = publish_crud_op h crud_op_clear_completed u None (tw_js w)"
    by auto
  have "published_ok c h u view w w'"
    by (rule publishedI [OF _ v(3)]) (simp_all add: v(1) crud_effect_def)
  with v(2) show ?thesis ..
qed

lemma read_published:
  assumes "uses_store h" and "inv (tw_store w)" and "user_of_request h rq = u" and "u \<noteq> ''''"
    and "rq_path_id rq \<noteq> ''''"
  shows "inv (tw_store (fst (handle_list h k rq w))) \<and> published_ok c h u view w (fst (handle_list h k rq w))"
    "inv (tw_store (fst (handle_list_fragment h rq w))) \<and> published_ok c h u view w (fst (handle_list_fragment h rq w))"
    "inv (tw_store (fst (handle_confirm_delete h k rq w))) \<and>
      published_ok c h u view w (fst (handle_confirm_delete h k rq w))"
proof -
  obtain s1 r where l: "list_all_of u (list_filter_of rq) (tw_store w) = (s1, r)" by fastforce
  note ll = list_law [OF assms(2,4) l]
  obtain s2 n where ct: "count u s1 = (s2, n)" by fastforce
  have "inv s1" using ll by simp
  note cl = count_law [OF this assms(4) ct]
  have auth: "ev_auth (app_auth h rq) \<noteq> None"
    by (rule app_auth_user) (simp only: assms(3,4) not_False_eq_True)
  show "inv (tw_store (fst (handle_list h k rq w))) \<and> published_ok c h u view w (fst (handle_list h k rq w))"
    using l ct auth ll cl
    by (auto simp: handle_list_def list_todos_def count_owned_todos_def Let_def uses_storeD [OF assms(1)] assms(3))
  show "inv (tw_store (fst (handle_list_fragment h rq w))) \<and> published_ok c h u view w (fst (handle_list_fragment h rq w))"
    using l ct auth ll cl
    by (auto simp: handle_list_fragment_def list_todos_def count_owned_todos_def Let_def uses_storeD [OF assms(1)] assms(3))
  obtain s3 q where g: "get_one u (rq_path_id rq) (tw_store w) = (s3, q)" by fastforce
  then show "inv (tw_store (fst (handle_confirm_delete h k rq w))) \<and>
      published_ok c h u view w (fst (handle_confirm_delete h k rq w))"
    using get_law [OF assms(2,4,5) g] assms(3)
    by (cases q) (auto simp: handle_confirm_delete_def uses_storeD [OF assms(1)])
qed

lemma serve_published:
  assumes "uses_store h" and "inv (tw_store w)" and "user_of_request h rq = u" and "u \<noteq> ''''"
    and "rq_path_id rq \<noteq> ''''" and "\<not> is_offline_replay rq"
    and "serve h call k rq w = (w', rep)" and "\<not> server_error rep"
  shows "inv (tw_store w') \<and> published_ok (creates call) h u view w w'"
proof -
  note read = read_published [OF assms(1-5)]
  show ?thesis
  proof (cases call)
    case ApiList
    then show ?thesis using read(1) [of k] assms(7) by (simp add: serve_def)
  next
    case ApiFragment
    then show ?thesis using read(2) assms(7) by (simp add: serve_def)
  next
    case (ApiCreate now uuid)
    then show ?thesis using create_published [OF assms(1-4)] assms(7,8) by (simp add: serve_def)
  next
    case ApiToggle
    then show ?thesis using toggle_published [OF assms(1-6)] assms(7,8) by (simp add: serve_def)
  next
    case ApiConfirmDelete
    then show ?thesis using read(3) [of k] assms(7) by (simp add: serve_def)
  next
    case ApiDelete
    then show ?thesis using delete_published [OF assms(1-6)] assms(7,8) by (simp add: serve_def)
  next
    case ApiClearCompleted
    then show ?thesis using clear_published [OF assms(1-4,6)] assms(7,8) by (simp add: serve_def)
  qed
qed

end

subsection \<open>An edge and a server\<close>

text \<open>
  The edge's requests in turn, with their answers; its publishes go to a log, in order; the server's
  consumer takes the messages of the log one by one.
\<close>

fun serve_each ::
  "('s, 'js) todo_handler \<Rightarrow> (api_call \<times> nat \<times> request) list \<Rightarrow> ('s, 'js) todo_world \<Rightarrow>
   ('s, 'js) todo_world \<times> response list" where
  "serve_each h [] w = (w, [])"
| "serve_each h ((call, k, rq) # rs) w =
     (case serve h call k rq w of (w1, r) \<Rightarrow>
        (case serve_each h rs w1 of (w2, rs') \<Rightarrow> (w2, r # rs')))"

definition consume_all :: "'db insert_call \<Rightarrow> (string \<times> bytes) list \<Rightarrow> 'db core_app \<Rightarrow> 'db core_app" where
  "consume_all ins ms a = foldl (\<lambda>a m. fst (on_crud_message ins (snd m) a)) a ms"

text \<open>What the composition needs of JetStream: every publish is stored, in order.\<close>

definition log_contract :: "'js nats_conn \<Rightarrow> ('js \<Rightarrow> (string \<times> bytes) list) \<Rightarrow> bool" where
  "log_contract nc stored \<longleftrightarrow> (\<forall>s d js. stored (fst (nc_publish nc s d js)) = stored js @ [(s, d)])"

lemma log_conn_contract: "log_contract log_conn (\<lambda>js. js)"
  by (simp add: log_contract_def log_conn_def)

lemma publish_stored_log:
  assumes "log_contract nc stored" and "th_crud h = Some \<lparr>pb_conn = nc, pb_done = d\<rparr>"
  shows "stored (publish_crud_op h opn u x js) = stored js @
    [(crud_subject_prefix @ opn, encode_crud \<lparr>cp_op = opn, cp_user = u, cp_data = x\<rparr>)]"
  using assms by (simp add: publish_crud_op_def crud_publish_def log_contract_def)

lemma on_published_message:
  "u \<noteq> '''' \<Longrightarrow> fst (on_crud_message ins (encode_crud \<lparr>cp_op = opn, cp_user = u, cp_data = x\<rparr>) a) =
     consume_op ins \<lparr>cp_op = opn, cp_user = u, cp_data = x\<rparr> a"
  by (simp add: on_crud_message_def decode_encode_crud)

lemma pb_view_one_owner:
  assumes "pb_inv s" and "pb_view s u i \<noteq> None" and "v \<noteq> u"
  shows "pb_view s v i = None"
proof -
  obtain r where r: "r \<in> set (pb_rows s)" "rw_id r = i" "rw_owner r = u"
    using assms(2) by (auto simp: pb_view_def row_view_None simp del: not_None_eq)
  have "r' = r" if "r' \<in> set (pb_rows s)" "rw_id r' = i" for r'
    using row_unique [OF pb_invD(8) [OF assms(1)] that(1) r(1)] that(2) r(2) by simp
  then have "\<nexists>r'. r' \<in> set (pb_rows s) \<and> rw_id r' = i \<and> rw_owner r' = v"
    using r(3) assms(3) by metis
  then show ?thesis unfolding pb_view_def row_view_None by blast
qed

lemma pb_view_id_nonempty: "pb_inv s \<Longrightarrow> pb_view s u i \<noteq> None \<Longrightarrow> i \<noteq> ''''"
  by (auto simp: pb_view_def row_view_None pb_inv_def well_formed_rows_def image_iff simp del: not_None_eq)

lemma consume_keeps_laws:
  assumes "insert_laws a ins"
  shows "edits_available (consume_op ins p a) = edits_available a \<and>
    inserts_available (consume_op ins p a) ins = inserts_available a ins \<and> insert_laws (consume_op ins p a) ins"
proof -
  have "\<exists>db. delete_each rs a = with_db a db" for rs and a :: "'a core_app"
  proof (induction rs arbitrary: a)
    case (Cons r rs)
    from Cons.IH [of "with_db a (fst (ca_delete a (ca_db a) todos_coll r))"]
    show ?case by (auto simp: delete_each_def)
  qed (auto simp: delete_each_def intro: exI [of _ "ca_db _"] with_db_self [symmetric])
  then have "\<exists>db. consume_op ins p a = with_db a db"
    by (auto simp: consume_op_def consume_create_def consume_toggle_def consume_delete_def consume_clear_def
      Let_def intro: with_db_self [symmetric] split: option.splits col_result.splits rows_result.splits)
  then show ?thesis using assms by auto
qed

text \<open>One request on the edge and its message on the server keep the two in agreement.\<close>

lemma replicate_step:
  assumes "th_store h = pb_ops" and "pb_inv (tw_store w)" and "user_of_request h rq \<noteq> ''''"
    and "rq_path_id rq \<noteq> ''''" and "\<not> is_offline_replay rq"
    and "serve h call k rq w = (w', rep)" and "\<not> server_error rep"
    and "log_contract nc stored" and "th_crud h = Some \<lparr>pb_conn = nc, pb_done = d\<rparr>"
    and "crud_inv a" and "edits_available a" and "creates call \<longrightarrow> inserts_available a ins" and "insert_laws a ins"
    and "crud_view a = pb_view (tw_store w)"
  shows "\<exists>ms. stored (tw_js w') = stored (tw_js w) @ ms \<and> pb_inv (tw_store w') \<and>
    crud_inv (consume_all ins ms a) \<and> edits_available (consume_all ins ms a) \<and>
    inserts_available (consume_all ins ms a) ins = inserts_available a ins \<and>
    insert_laws (consume_all ins ms a) ins \<and> crud_view (consume_all ins ms a) = pb_view (tw_store w')"
proof -
  let ?u = "user_of_request h rq"
  have inv: "pb_inv (tw_store w')" and pub: "published_ok (creates call) h ?u pb_view w w'"
    using pb.serve_published [OF pb_uses [OF assms(1)] assms(2) refl assms(3-7)] by auto
  consider (same) "pb_view (tw_store w') = pb_view (tw_store w)" "tw_js w' = tw_js w"
    | (op) opn x where "pb_view (tw_store w') = (pb_view (tw_store w))
          (?u := crud_effect \<lparr>cp_op = opn, cp_user = ?u, cp_data = x\<rparr> (pb_view (tw_store w) ?u))"
        "tw_js w' = publish_crud_op h opn ?u x (tw_js w)" "opn = crud_op_create \<longrightarrow> creates call"
        "opn \<noteq> crud_op_clear_completed \<longrightarrow> (\<exists>y. x = Some y \<and>
           (pb_view (tw_store w) ?u (cd_id y) \<noteq> None \<or> pb_view (tw_store w') ?u (cd_id y) \<noteq> None))"
    using pub unfolding published_ok_def by blast
  then show ?thesis
  proof cases
    case same
    then show ?thesis using inv assms(10-14) by (intro exI [of _ "[]"]) (simp add: consume_all_def)
  next
    case (op opn x)
    let ?p = "\<lparr>cp_op = opn, cp_user = ?u, cp_data = x\<rparr>"
    let ?m = "(crud_subject_prefix @ opn, encode_crud ?p)"
    have others: "pb_view (tw_store w') v = pb_view (tw_store w) v" if "v \<noteq> ?u" for v
      using op(1) that by simp
    have "op_clean a ?p"
      unfolding op_clean_def assms(14) crud_payload.select_convs
    proof (intro conjI impI allI)
      show "?u \<noteq> ''''" by (rule assms(3))
    next
      fix y assume "opn \<noteq> crud_op_clear_completed" "x = Some y"
      then have y: "pb_view (tw_store w) ?u (cd_id y) \<noteq> None \<or> pb_view (tw_store w') ?u (cd_id y) \<noteq> None"
        using op(4) by auto
      then show "cd_id y \<noteq> ''''"
        using pb_view_id_nonempty [OF assms(2)] pb_view_id_nonempty [OF inv] by blast
      show "pb_view (tw_store w) v (cd_id y) = None" if "v \<noteq> ?u" for v
        using y pb_view_one_owner [OF assms(2) _ that] pb_view_one_owner [OF inv _ that] others [OF that] by auto
    qed
    moreover have "cp_op ?p = crud_op_create \<Longrightarrow> inserts_available a ins" using op(3) assms(12) by simp
    moreover note consume_effect [OF assms(10,11) _ assms(13), of ?p]
    ultimately
    have "crud_inv (consume_op ins ?p a)" "crud_view (consume_op ins ?p a) = pb_view (tw_store w')"
      using op(1) assms(14) by auto
    moreover have "stored (tw_js w') = stored (tw_js w) @ [?m]"
      using publish_stored_log [OF assms(8,9)] op(2) by simp
    moreover have "consume_all ins [?m] a = consume_op ins ?p a"
      using on_published_message [OF assms(3)] by (simp add: consume_all_def)
    ultimately show ?thesis
      using inv consume_keeps_laws [OF assms(13)] assms(11) by (intro exI [of _ "[?m]"]) simp
  qed
qed

lemma replicate_each:
  assumes "th_store h = pb_ops" and "log_contract nc stored" and "th_crud h = Some \<lparr>pb_conn = nc, pb_done = d\<rparr>"
    and "pb_inv (tw_store w)" and "crud_inv a" and "edits_available a"
    and "inserts_available a ins \<or> (\<forall>(call, k, rq) \<in> set rs. \<not> creates call)" and "insert_laws a ins"
    and "crud_view a = pb_view (tw_store w)"
    and "\<forall>(call, k, rq) \<in> set rs. user_of_request h rq \<noteq> '''' \<and> rq_path_id rq \<noteq> '''' \<and> \<not> is_offline_replay rq"
    and "serve_each h rs w = (w', reps)" and "\<forall>r \<in> set reps. \<not> server_error r"
  shows "\<exists>ms. stored (tw_js w') = stored (tw_js w) @ ms \<and> pb_inv (tw_store w') \<and>
    crud_inv (consume_all ins ms a) \<and> crud_view (consume_all ins ms a) = pb_view (tw_store w')"
  using assms(4-)
proof (induction rs arbitrary: w a reps)
  case Nil
  then show ?case by (intro exI [of _ "[]"]) (simp add: consume_all_def)
next
  case (Cons q rs)
  obtain call k rq where q: "q = (call, k, rq)" by (cases q)
  obtain w1 r where s: "serve h call k rq w = (w1, r)" by fastforce
  obtain reps' where rest: "serve_each h rs w1 = (w', reps')" and reps: "reps = r # reps'"
    using Cons.prems(8) by (auto simp: q s split: prod.splits)
  have may: "creates call \<longrightarrow> inserts_available a ins" using Cons.prems(4) by (auto simp: q)
  from replicate_step [OF assms(1) Cons.prems(1) _ _ _ s _ assms(2,3) Cons.prems(2,3) may Cons.prems(5,6)] Cons.prems(7,9)
  obtain ms where ms: "stored (tw_js w1) = stored (tw_js w) @ ms" "pb_inv (tw_store w1)"
      "crud_inv (consume_all ins ms a)" "edits_available (consume_all ins ms a)"
      "inserts_available (consume_all ins ms a) ins = inserts_available a ins" "insert_laws (consume_all ins ms a) ins" "crud_view (consume_all ins ms a) = pb_view (tw_store w1)"
    by (auto simp: q reps)
  have "inserts_available (consume_all ins ms a) ins \<or> (\<forall>(call, k, rq) \<in> set rs. \<not> creates call)"
    using Cons.prems(4) ms(5) by auto
  from Cons.IH [OF ms(2-4) this ms(6,7) _ rest] Cons.prems(7,9)
  obtain ms' where "stored (tw_js w') = stored (tw_js w1) @ ms'" "pb_inv (tw_store w')"
      "crud_inv (consume_all ins ms' (consume_all ins ms a))"
      "crud_view (consume_all ins ms' (consume_all ins ms a)) = pb_view (tw_store w')"
    by (auto simp: reps)
  then show ?case using ms(1) by (intro exI [of _ "ms @ ms'"]) (simp add: consume_all_def)
qed

subsection \<open>Properties\<close>

text \<open>A server database for the witnesses: an insert is refused when the id is taken.\<close>

definition mem_insert :: "row list insert_call" where
  "mem_insert db c r = (if rw_id r \<in> rw_id ` set db then (db, None) else (db @ [r], Some r))"

lemma mem_server:
  "edits_available (mem_app db)" "inserts_available (mem_app db) mem_insert" "insert_laws (mem_app db) mem_insert"
  "well_formed_rows db \<Longrightarrow> '''' \<notin> rw_owner ` set db \<Longrightarrow> crud_inv (mem_app db)"
proof -
  show "edits_available (mem_app db)"
    by (auto simp: edits_available_def mem_save_def well_formed_rows_def Let_def)
  show "inserts_available (mem_app db) mem_insert" by (auto simp: inserts_available_def mem_insert_def)
  show "insert_laws (mem_app db) mem_insert"
    by (auto simp: insert_laws_def mem_insert_def same_row_def)
  show "well_formed_rows db \<Longrightarrow> '''' \<notin> rw_owner ` set db \<Longrightarrow> crud_inv (mem_app db)"
    using mem_store_inv [of db] by (force simp: crud_inv_def mem_store_def todos_coll_def)
qed

lemma demo_crud [simp]: "th_crud (demo_with ops) = Some \<lparr>pb_conn = log_conn, pb_done = False\<rparr>"
  by (simp add: demo_with_def)

lemma demo_server: "crud_inv (mem_app demo_rows)" "crud_view (mem_app demo_rows) = pb_view (mem_store demo_rows)"
proof -
  show "crud_inv (mem_app demo_rows)"
    by (rule mem_server(4)) (auto simp: demo_rows_with_def well_formed_rows_def)
  show "crud_view (mem_app demo_rows) = pb_view (mem_store demo_rows)"
    by (simp add: crud_view_def mem_store_def todos_coll_def)
qed

text \<open>An offline replay of a toggle is applied to the edge and published to nobody: the answer is
  "replayed", the todo has the other state on the edge, and a server that agreed with the edge before
  does not afterwards.\<close>
lemma replayed_toggle_diverges:
  assumes "th_store h = pb_ops" and "pb_inv (tw_store w)" and "user_of_request h rq \<noteq> ''''"
    and "rq_path_id rq \<noteq> ''''" and "is_offline_replay rq" and "crud_view a = pb_view (tw_store w)"
    and "handle_toggle h k rq w = (w', rep)" and "rep \<noteq> RText 404 ''not found''"
    and "rep \<noteq> RText 500 ''toggle failed''"
  shows "rep = RText 200 ''replayed'' \<and> tw_js w' = tw_js w \<and> crud_view a \<noteq> pb_view (tw_store w')"
proof -
  from pb.toggle_run [OF pb_uses [OF assms(1)] assms(2) refl assms(3,4,7-9)] assms(5)
  obtain t c where v: "pb_view (tw_store w) (user_of_request h rq) (rq_path_id rq) = Some (t, c)"
    "pb_view (tw_store w') (user_of_request h rq) (rq_path_id rq) = Some (t, \<not> c)" "tw_js w' = tw_js w"
    by auto
  then have "crud_view a \<noteq> pb_view (tw_store w')" unfolding assms(6) by (metis option.inject prod.inject)
  moreover have "rep = RText 200 ''replayed''"
    using assms(5,7-9) by (auto simp: handle_toggle_def Let_def finish_def req_app_auth
      split: sum.splits prod.splits if_splits)
  ultimately show ?thesis using v(3) by blast
qed

lemma demo_replayed_toggle:
  "\<exists>js'. handle_toggle demo_handler 9 (demo_request ''a'' '''' ''1'') (demo_world demo_rows) =
     (\<lparr>tw_store = mem_store (demo_rows_with False), tw_js = js', tw_resumed = []\<rparr>, RText 200 ''replayed'')"
  by (simp add: handle_toggle_def finish_def Let_def req_app_auth demo_world_def pb_get_def pb_update_def
    pb_lookup_def demo_rows_with_def from_record_def mem_save_def)

lemma replayed_toggle_diverges_witness:
  "crud_view (mem_app demo_rows) \<noteq> pb_view (tw_store (fst
     (handle_toggle demo_handler 9 (demo_request ''a'' '''' ''1'') (demo_world demo_rows))))"
proof -
  obtain js where run: "handle_toggle demo_handler 9 (demo_request ''a'' '''' ''1'') (demo_world demo_rows) =
     (\<lparr>tw_store = mem_store (demo_rows_with False), tw_js = js, tw_resumed = []\<rparr>, RText 200 ''replayed'')"
    using demo_replayed_toggle by blast
  have q: "user_of_request demo_handler (demo_request ''a'' '''' ''1'') \<noteq> ''''"
    "rq_path_id (demo_request ''a'' '''' ''1'') \<noteq> ''''" "is_offline_replay (demo_request ''a'' '''' ''1'')"
    by simp_all
  show ?thesis
    using replayed_toggle_diverges [OF demo_store(1) demo_inv q _ run, of "mem_app demo_rows"] demo_server(2)
    by (simp only: run fst_conv) (simp add: demo_world_def)
qed

text \<open>The unique index over key and owner that is there whenever the consumer runs.\<close>

definition idem_index :: "'db core_app \<Rightarrow> 'db insert_call \<Rightarrow> bool" where
  "idem_index a ins \<longleftrightarrow> (\<forall>db r. (\<exists>x \<in> set (ca_rows a db todos_coll). rw_idem x = rw_idem r \<and> rw_owner x = rw_owner r) \<longrightarrow>
     snd (ins db todos_coll r) = None)"

lemma consume_create_blocked:
  assumes "crud_inv a" and "insert_laws a ins" and "idem_index a ins"
    and "x \<in> set (rows_of a todos_coll)" and "rw_idem x = ''''" and "rw_owner x = cp_user p"
    and "cp_data p = Some d" and "cd_id d \<noteq> ''''"
  shows "crud_view (consume_create ins p a) = crud_view a"
proof (cases "cd_title d = '''' \<or> ca_find_col a (ca_db a) todos_coll \<noteq> ColFound")
  case True
  then show ?thesis using assms(7) by (auto simp: consume_create_def split: col_result.splits)
next
  case False
  let ?r = "new_row\<lparr>rw_id := cd_id d, rw_title := cd_title d, rw_completed := cd_completed d,
    rw_owner := cp_user p\<rparr>"
  note d = pb_invD [OF assms(1) [unfolded crud_inv_def], simplified]
  obtain db res where ins: "ins (ca_db a) todos_coll ?r = (db, res)" by fastforce
  have eq: "consume_create ins p a = with_db a db"
    using False assms(7,8) ins d(1) by (simp add: consume_create_def Let_def set_laws_def)
  have "rw_idem ?r = rw_idem x" "rw_owner ?r = rw_owner x" using assms(5,6) by (simp_all add: new_row_def)
  then have "res = None"
    using assms(3,4) ins unfolding idem_index_def by (metis snd_conv)
  then have "ca_rows a db todos_coll = rows_of a todos_coll"
    using insert_lawsD [OF assms(2) d(6) _ ins] assms(8) by simp
  then show ?thesis
    using pb_inv_same_rows [OF assms(1) [unfolded crud_inv_def], of db] eq by (simp add: crud_view_def)
qed

lemma consume_create_stores_empty_key:
  assumes "crud_inv a" and "insert_laws a ins" and "cp_data p = Some d" and "cd_id d \<noteq> ''''"
    and "cp_user p \<noteq> ''''"
    and "crud_view a (cp_user p) (cd_id d) = None"
    and "crud_view (consume_create ins p a) (cp_user p) (cd_id d) \<noteq> None"
  shows "crud_inv (consume_create ins p a) \<and>
    (\<exists>x \<in> set (rows_of (consume_create ins p a) todos_coll). rw_idem x = '''' \<and> rw_owner x = cp_user p)"
proof -
  let ?r = "new_row\<lparr>rw_id := cd_id d, rw_title := cd_title d, rw_completed := cd_completed d,
    rw_owner := cp_user p\<rparr>"
  note d = pb_invD [OF assms(1) [unfolded crud_inv_def], simplified]
  obtain db res where ins: "ins (ca_db a) todos_coll ?r = (db, res)" by fastforce
  have changed: "consume_create ins p a \<noteq> a" using assms(6,7) by metis
  then have eq: "consume_create ins p a = with_db a db"
    using assms(3,4) ins d(1) by (auto simp: consume_create_def Let_def set_laws_def split: if_splits col_result.splits)
  have "res \<noteq> None"
  proof
    assume "res = None"
    then have "ca_rows a db todos_coll = rows_of a todos_coll"
      using insert_lawsD [OF assms(2) d(6) _ ins] assms(4) by simp
    then show False using assms(6,7) by (simp add: eq crud_view_def pb_view_def)
  qed
  then obtain st where st: "same_row st ?r" "ca_rows a db todos_coll = rows_of a todos_coll @ [st]"
      "cd_id d \<notin> rw_id ` set (rows_of a todos_coll)"
    using insert_lawsD [OF assms(2) d(6) _ ins] assms(4) by auto
  have "pb_inv (store_of (with_db a db))"
    by (rule pb_inv_set_db [OF assms(1) [unfolded crud_inv_def], of db, simplified])
      (use st assms(4,5) d(6-8) in \<open>auto simp: same_row_def well_formed_rows_def\<close>)
  then show ?thesis using eq st by (auto simp: crud_inv_def same_row_def new_row_def intro!: bexI [of _ st])
qed

text \<open>With the unique index over key and owner in place the consumer can create one todo per user:
  it stores an empty key, so once a create message of a user has been carried out every later create
  message of that user is acknowledged and changes nothing.\<close>
lemma second_create_message_lost:
  assumes "crud_inv a" and "insert_laws a ins" and "idem_index a ins"
    and "cp_op p = crud_op_create" and "cp_user p \<noteq> ''''" and "cp_data p = Some d" and "cd_id d \<noteq> ''''"
    and "crud_view a (cp_user p) (cd_id d) = None"
    and "on_crud_message ins (encode_crud p) a = (a1, ack1)" and "crud_view a1 (cp_user p) (cd_id d) \<noteq> None"
    and "cp_op q = crud_op_create" and "cp_user q = cp_user p" and "cp_data q = Some e" and "cd_id e \<noteq> ''''"
    and "on_crud_message ins (encode_crud q) a1 = (a2, ack2)"
  shows "crud_view a2 = crud_view a1 \<and> ack2"
proof -
  have a1: "a1 = consume_create ins p a" and a2: "a2 = consume_create ins q a1" and ack: ack2
    using assms(4,5,9,11,12,15) by (auto simp: on_crud_message_def decode_encode_crud consume_op_def)
  from consume_create_stores_empty_key [OF assms(1,2,6,7,5,8) assms(10) [unfolded a1]]
  obtain x where x: "crud_inv a1" "x \<in> set (rows_of a1 todos_coll)" "rw_idem x = ''''" "rw_owner x = cp_user q"
    by (auto simp: a1 assms(12))
  have "insert_laws a1 ins" "idem_index a1 ins"
    using assms(2,3,6,7) unfolding a1
    by (auto simp: consume_create_def Let_def idem_index_def split: col_result.splits)
  from consume_create_blocked [OF x(1) this x(2-4) assms(13,14)] a2 ack show ?thesis by simp
qed

text \<open>An insert that keeps the index.\<close>

definition mem_insert_indexed :: "row list insert_call" where
  "mem_insert_indexed db c r =
     (if \<exists>x \<in> set db. rw_idem x = rw_idem r \<and> rw_owner x = rw_owner r then (db, None) else mem_insert db c r)"

lemma second_create_message_lost_witness:
  "let m = (\<lambda>i t. encode_crud \<lparr>cp_op = crud_op_create, cp_user = ''ann'',
       cp_data = Some \<lparr>cd_id = i, cd_title = t, cd_completed = False\<rparr>\<rparr>);
       a1 = fst (on_crud_message mem_insert_indexed (m ''n1'' ''tea'') (mem_app demo_rows))
   in crud_view a1 ''ann'' ''n1'' = Some (''tea'', False) \<and>
      crud_view (fst (on_crud_message mem_insert_indexed (m ''n2'' ''jam'') a1)) = crud_view a1"
proof -
  let ?p = "\<lambda>i t. \<lparr>cp_op = crud_op_create, cp_user = ''ann'',
     cp_data = Some \<lparr>cd_id = i, cd_title = t, cd_completed = False\<rparr>\<rparr>"
  have laws: "insert_laws (mem_app demo_rows) mem_insert_indexed" "idem_index (mem_app demo_rows) mem_insert_indexed"
    using mem_server(3) [of demo_rows]
    by (auto simp: insert_laws_def idem_index_def mem_insert_indexed_def mem_insert_def split: prod.splits option.splits)
  obtain a1 b1 where r1: "on_crud_message mem_insert_indexed (encode_crud (?p ''n1'' ''tea'')) (mem_app demo_rows) = (a1, b1)"
    by fastforce
  obtain a2 b2 where r2: "on_crud_message mem_insert_indexed (encode_crud (?p ''n2'' ''jam'')) a1 = (a2, b2)" by fastforce
  have v: "crud_view (mem_app demo_rows) ''ann'' ''n1'' = None" "crud_view a1 ''ann'' ''n1'' = Some (''tea'', False)"
    using r1 by (auto simp: on_crud_message_def decode_encode_crud consume_op_def consume_create_def Let_def
      crud_view_def pb_view_def row_view_def demo_rows_with_def mem_insert_indexed_def mem_insert_def mem_app_laws
      new_row_def)
  have "crud_view a2 = crud_view a1"
    using second_create_message_lost [OF demo_server(1) laws, of "?p ''n1'' ''tea''"
      "\<lparr>cd_id = ''n1'', cd_title = ''tea'', cd_completed = False\<rparr>" a1 b1 "?p ''n2'' ''jam''"
      "\<lparr>cd_id = ''n2'', cd_title = ''jam'', cd_completed = False\<rparr>" a2 b2] r1 r2 v by simp
  then show ?thesis using v(2) by (simp add: Let_def r1 r2)
qed

definition is_create :: "crud_payload \<Rightarrow> string \<Rightarrow> string \<Rightarrow> bool" where
  "is_create p u i \<longleftrightarrow> cp_op p = crud_op_create \<and> cp_user p = u \<and> u \<noteq> '''' \<and> i \<noteq> '''' \<and>
     (\<exists>d. cp_data p = Some d \<and> cd_id d = i)"

lemma second_create_lost:
  assumes "crud_inv b" and "insert_laws b ins" and "idem_index b ins" and "is_create p u i" and "is_create q u j"
    and "crud_view b u i = None" and "crud_view (consume_op ins p b) u i \<noteq> None"
  shows "crud_view (consume_op ins q (consume_op ins p b)) = crud_view (consume_op ins p b)"
proof -
  obtain d e where d: "cp_data p = Some d" "cd_id d = i" and e: "cp_data q = Some e" "cd_id e = j"
    using assms(4,5) by (auto simp: is_create_def)
  have ids: "cp_op p = crud_op_create" "cp_op q = crud_op_create" "cp_user p = u" "cp_user q = u"
    "cp_user p \<noteq> ''''" "i \<noteq> ''''" "j \<noteq> ''''"
    using assms(4,5) by (auto simp: is_create_def)
  obtain a1 k1 where r1: "on_crud_message ins (encode_crud p) b = (a1, k1)" by fastforce
  obtain a2 k2 where r2: "on_crud_message ins (encode_crud q) a1 = (a2, k2)" by fastforce
  have a: "a1 = consume_op ins p b" "a2 = consume_op ins q a1"
    using r1 r2 ids by (auto simp: on_crud_message_def decode_encode_crud)
  show ?thesis
    using second_create_message_lost [OF assms(1-3) ids(1,5) d(1) _ _ r1 _ ids(2) _ e(1) _ r2] ids d(2) e(2) assms(6,7)
    by (simp add: a)
qed



text \<open>An instance publishes and consumes its own operations, and a clear names no todo: a todo its
  owner completes between a clear and the moment the instance's own consumer takes the clear's
  message is deleted by it, although the owner was shown the todo as completed.\<close>
lemma late_clear_deletes:
  assumes "th_store h = pb_ops" and "log_contract nc stored" and "th_crud h = Some \<lparr>pb_conn = nc, pb_done = d\<rparr>"
    and "pb_inv (tw_store w)" and "user_of_request h rq1 = u" and "user_of_request h rq2 = u" and "u \<noteq> ''''"
    and "rq_path_id rq2 \<noteq> ''''" and "\<not> is_offline_replay rq1" and "\<not> is_offline_replay rq2"
    and "handle_clear_completed h k rq1 w = (w1, r1)" and "r1 \<noteq> RText 500 ''clear failed''"
    and "handle_toggle h k' rq2 w1 = (w2, r2)" and "r2 \<noteq> RText 404 ''not found''" and "r2 \<noteq> RText 500 ''toggle failed''"
    and "pb_view (tw_store w) u (rq_path_id rq2) = Some (t, False)"
    and "crud_inv a" and "edits_available a" and "insert_laws a ins" and "crud_view a = pb_view (tw_store w2)"
  shows "pb_view (tw_store w2) u (rq_path_id rq2) = Some (t, True) \<and>
    (\<exists>ms. stored (tw_js w2) = stored (tw_js w) @ ms \<and> crud_view (consume_all ins ms a) u (rq_path_id rq2) = None)"
proof -
  let ?i = "rq_path_id rq2"
  let ?m = "\<lparr>cp_op = crud_op_clear_completed, cp_user = u, cp_data = None\<rparr>"
  let ?n = "\<lparr>cp_op = crud_op_toggle, cp_user = u, cp_data = Some \<lparr>cd_id = ?i, cd_title = '''', cd_completed = True\<rparr>\<rparr>"
  from pb.clear_run [OF pb_uses [OF assms(1)] assms(4,5,7,11,12)] assms(9)
  have c: "pb_view (tw_store w1) u ?i = Some (t, False)" "pb_inv (tw_store w1)"
      "tw_js w1 = publish_crud_op h crud_op_clear_completed u None (tw_js w)"
    using assms(16) by (auto simp: drop_completed_def)
  from pb.toggle_run [OF pb_uses [OF assms(1)] c(2) assms(6,7,8,13-15)] assms(10) c(1)
  have g: "pb_view (tw_store w2) u ?i = Some (t, True)" "pb_inv (tw_store w2)"
      "tw_js w2 = publish_crud_op h crud_op_toggle u (Some \<lparr>cd_id = ?i, cd_title = '''', cd_completed = True\<rparr>) (tw_js w1)"
    by auto
  let ?ms = "[(crud_subject_prefix @ crud_op_clear_completed, encode_crud ?m),
              (crud_subject_prefix @ crud_op_toggle, encode_crud ?n)]"
  have "stored (tw_js w2) = stored (tw_js w) @ ?ms"
    using publish_stored_log [OF assms(2,3)] c(3) g(3) by simp
  moreover have "consume_all ins ?ms a = consume_op ins ?n (consume_op ins ?m a)"
    by (simp add: consume_all_def on_published_message [OF assms(7)])
  moreover have "crud_view (consume_op ins ?n (consume_op ins ?m a)) u ?i = None"
  proof -
    have m: "op_clean a ?m" using assms(7) by (simp add: op_clean_def)
    note e1 = consume_effect [OF assms(17,18) _ assms(19) m, simplified]
    note laws = consume_keeps_laws [OF assms(19), of ?m]
    have gone: "crud_view (consume_op ins ?m a) v ?i = None" for v
      using e1 assms(20) g(1) pb_view_one_owner [OF g(2), of u ?i v]
      by (cases "v = u") (auto simp: crud_effect_def drop_completed_def)
    have n: "op_clean (consume_op ins ?m a) ?n"
      using gone assms(7,8) by (simp add: op_clean_def)
    have "crud_view (consume_op ins ?n (consume_op ins ?m a)) u ?i =
        crud_effect ?n (crud_view (consume_op ins ?m a) u) ?i"
      using consume_effect [OF _ _ _ _ n] e1 laws assms(18) by simp
    then show ?thesis using gone [of u] by (simp add: crud_effect_def)
  qed
  ultimately show ?thesis using g(1) by metis
qed


lemma demo_clear_nothing:
  "\<exists>js evs. handle_clear_completed demo_handler 9 (demo_request i t '''') (demo_world (demo_rows_with False)) =
     (\<lparr>tw_store = mem_store (demo_rows_with False), tw_js = js, tw_resumed = []\<rparr>, stream 9 evs)"
proof -
  have c: "pb_clear_completed ''ann'' (mem_store (demo_rows_with False)) = (mem_store (demo_rows_with False), 0, None)"
    by (simp add: pb_clear_completed_def find_list_def demo_rows_with_def matches_def)
  have "\<exists>ts. pb_list ''ann'' ''all'' (mem_store rs) = (mem_store rs, Inr ts)" for rs
    by (simp add: pb_list_def find_list_def)
  then obtain ts where
    "pb_list ''ann'' ''all'' (mem_store (demo_rows_with False)) = (mem_store (demo_rows_with False), Inr ts)" by blast
  with c show ?thesis
    by (simp add: handle_clear_completed_def finish_def list_todos_def Let_def demo_world_def) blast
qed

lemma late_clear_deletes_witness:
  "\<exists>ms. crud_view (consume_all mem_insert ms (mem_app demo_rows)) ''ann'' ''a'' = None"
proof -
  obtain js evs where c: "handle_clear_completed demo_handler 9 (demo_request '''' '''' '''')
      (demo_world (demo_rows_with False)) =
      (\<lparr>tw_store = mem_store (demo_rows_with False), tw_js = js, tw_resumed = []\<rparr>, stream 9 evs)"
    using demo_clear_nothing by blast
  obtain js' evs' where t: "handle_toggle demo_handler 9 (demo_request ''a'' '''' '''')
      \<lparr>tw_store = mem_store (demo_rows_with False), tw_js = js, tw_resumed = []\<rparr> =
      (\<lparr>tw_store = mem_store (demo_rows_with (\<not> False)), tw_js = js', tw_resumed = []\<rparr>, stream 9 evs')"
    using demo_toggle [of False js "[]"] by blast
  have inv: "pb_inv (tw_store (demo_world (demo_rows_with False)))"
    by (simp add: demo_world_def) (rule mem_store_inv; auto simp: demo_rows_with_def well_formed_rows_def)
  have v: "pb_view (tw_store (demo_world (demo_rows_with False))) ''ann'' ''a'' = Some (''milk'', False)"
    by (simp add: demo_world_def pb_view_def row_view_def demo_rows_with_def)
  from late_clear_deletes [OF demo_store(1) log_conn_contract demo_crud inv demo_user demo_user _ _ _ _ c _ t _ _ _
      demo_server(1) mem_server(1,3)] v demo_server(2)
  show ?thesis by auto
qed

end
