(* ===== verification/Llm.thy ===== *)
theory Llm
  imports Retry
begin

text \<open>
  The LLM client of \<open>internal/llm\<close> (\<open>goai.go\<close>, \<open>streaming.go\<close>) and the fake provider it runs
  against in simulated mode (\<open>fakeserver/fakeserver.go\<close>).  The GoAI SDK is third party: generating a
  text and opening a token stream are parameters, functions of the prompt and of the outside world.
\<close>

subsection \<open>Client\<close>

record chat_client =
  lm_api_key :: string
  lm_base_url :: string
  lm_model :: string
  lm_retry :: retry_config
  lm_simulated :: bool

definition err_no_api_key :: go_error where
  "err_no_api_key = Plain ''llm: GOAI_API_KEY is not configured''"

definition default_base_url :: string where
  "default_base_url = ''https://api.openai.com/v1''"

definition default_model :: string where
  "default_model = ''gpt-4o-mini''"

text \<open>\<open>env\<close> is \<open>os.Getenv\<close>, empty for an unset variable; a \<open>RetryConfig\<close> literal leaves the jitter zero.\<close>

definition new_client :: "(string \<Rightarrow> string) \<Rightarrow> string \<Rightarrow> chat_client" where
  "new_client env key = \<lparr>lm_api_key = key,
     lm_base_url = (if env ''GOAI_BASE_URL'' = '''' then default_base_url else env ''GOAI_BASE_URL''),
     lm_model = (if env ''GOAI_MODEL'' = '''' then default_model else env ''GOAI_MODEL''),
     lm_retry = \<lparr>rc_attempts = 3, rc_delay = 500 * 10 ^ 6, rc_max_delay = 5 * 10 ^ 9, rc_jitter_percent = 0\<rparr>,
     lm_simulated = False\<rparr>"

definition new_simulated :: "string \<Rightarrow> chat_client" where
  "new_simulated url = \<lparr>lm_api_key = ''simulated'', lm_base_url = url, lm_model = ''simulated-model'',
     lm_retry = \<lparr>rc_attempts = 1, rc_delay = 100 * 10 ^ 6, rc_max_delay = 10 ^ 9, rc_jitter_percent = 0\<rparr>,
     lm_simulated = True\<rparr>"

definition configured :: "chat_client \<Rightarrow> bool" where
  "configured c \<longleftrightarrow> lm_api_key c \<noteq> ''''"

definition must_configured :: "chat_client \<Rightarrow> go_error option" where
  "must_configured c = (if configured c then None
     else Some (Plain (error_text err_no_api_key @ ''. Set GOAI_API_KEY in your environment or in the '' @
       ''age-encrypted secrets file (run bin/init-secrets)'')))"

subsection \<open>One answer\<close>

text \<open>The closure keeps the text of the last successful call; the hub is nil, so no feedback is sent.\<close>

type_synonym 'w generate = "string \<Rightarrow> 'w \<Rightarrow> 'w \<times> (go_error + string)"

definition chat_attempt :: "'w generate \<Rightarrow> string \<Rightarrow> (('w \<times> string) \<times> bytes hub, go_error) call" where
  "chat_attempt gen prompt st = (case st of ((w, res), h) \<Rightarrow>
     (case gen prompt w of
        (w', Inl e) \<Rightarrow> (((w', res), h), Some (Wrapped ''llm: generate'' e))
      | (w', Inr t) \<Rightarrow> (((w', t), h), None)))"

definition chat ::
  "(nat \<times> ('w \<times> string) \<times> bytes hub) retry_do \<Rightarrow> (int \<Rightarrow> int) \<Rightarrow> chat_client \<Rightarrow> bool \<Rightarrow> 'w generate \<Rightarrow>
   string \<Rightarrow> 'w \<Rightarrow> 'w \<times> (go_error + string)" where
  "chat rd ovf c cancelled gen prompt w =
     (if lm_api_key c = '''' then (w, Inl err_no_api_key)
      else case retry_do_fn rd ovf (lm_retry c) cancelled False '''' ''llm.chat'' (chat_attempt gen prompt)
             ((w, ''''), new_hub []) of
        (((w', res), h), Some e) \<Rightarrow> (w', Inl e)
      | (((w', res), h), None) \<Rightarrow> (w', Inr res))"

subsection \<open>Parsing the answer\<close>

fun last_index :: "'a list \<Rightarrow> 'a list \<Rightarrow> nat option" where
  "last_index p [] = (if p = [] then Some 0 else None)"
| "last_index p (x # xs) = (case last_index p xs of
     Some i \<Rightarrow> Some (Suc i)
   | None \<Rightarrow> if has_prefix (x # xs) p then Some 0 else None)"

abbreviation fence :: string where
  "fence \<equiv> replicate 3 (CHR 0x60)"

definition strip_code_fence :: "string \<Rightarrow> string" where
  "strip_code_fence s0 =
     (let s1 = (case index_byte (CHR 0x0A) s0 of Some i \<Rightarrow> if 0 < i then drop (i + 1) s0 else s0 | None \<Rightarrow> s0);
          s2 = (case last_index fence s1 of Some i \<Rightarrow> if 0 < i then take i s1 else s1 | None \<Rightarrow> s1)
      in trim_space s2)"

text \<open>The leftmost match of the pattern \<open>\[.*?\]\<close>: from the first opening bracket to the next closing one.\<close>

definition find_array :: "string \<Rightarrow> string" where
  "find_array s = (case index_byte (CHR ''['') s of
     None \<Rightarrow> ''''
   | Some i \<Rightarrow> (case index_byte (CHR '']'') (drop (i + 1) s) of
        None \<Rightarrow> ''''
      | Some j \<Rightarrow> CHR ''['' # take j (drop (i + 1) s) @ '']''))"

fun dec_elems :: "jval list \<Rightarrow> string list option" where
  "dec_elems [] = Some []"
| "dec_elems (v # vs) = (case dec_str '''' v of
     None \<Rightarrow> None | Some s \<Rightarrow> map_option ((#) s) (dec_elems vs))"

definition parse_string_array :: "string \<Rightarrow> string list option" where
  "parse_string_array raw0 =
     (let raw1 = trim_space raw0;
          raw2 = (if has_prefix raw1 fence then strip_code_fence raw1 else raw1);
          match = find_array raw2
      in if match = '''' then None
         else case unmarshal match of
           Some (JArr vs) \<Rightarrow> (case dec_elems vs of
              None \<Rightarrow> None
            | Some arr \<Rightarrow> Some (take 3 (filter (\<lambda>s. s \<noteq> '''') (map trim_space arr))))
         | _ \<Rightarrow> None)"

definition split_lines :: "string \<Rightarrow> string list" where
  "split_lines s = take 3 (filter (\<lambda>l. l \<noteq> '''')
     (map (\<lambda>l. dropWhile (\<lambda>c. c \<in> {CHR ''-'', CHR ''*'', CHR '' '', CHR 0x09}) (trim_space l))
       (split_byte (CHR 0x0A) s)))"

subsection \<open>Suggestions\<close>

definition safe_seed_tasks :: "string list" where
  "safe_seed_tasks = [''Read the project README'', ''Write the meeting notes'', ''Review the pull request'',
     ''Plan the sprint backlog'', ''Drink a glass of water'', ''Stretch for five minutes'',
     ''Reply to the customer email'', ''Update the changelog'', ''Refactor the helper function'',
     ''Sketch the architecture diagram'', ''Test the login flow'', ''Backup the database'',
     ''Organize the download folder'', ''Schedule the standup'', ''Learn one new keyboard shortcut'',
     ''Clean up the todo list'', ''Prepare the demo script'', ''Verify the deployment'', ''Write a unit test'',
     ''Take a short walk'', ''Brainstorm feature names'', ''Summarize the article'', ''Fix the failing CI job'',
     ''Message the on-call engineer'']"

text \<open>\<open>perm\<close> is the result of \<open>rand.Perm\<close>: a permutation of the indices.\<close>

definition random_tasks :: "nat list \<Rightarrow> string list" where
  "random_tasks perm = map (\<lambda>i. safe_seed_tasks ! i) (take 3 perm)"

definition suggest_prompt :: "string \<Rightarrow> string" where
  "suggest_prompt partial = ''You are helping a user write a todo list item. The user has typed '' @ go_quote partial @
     '' so far. Suggest exactly 3 short, distinct, actionable completions (each under 60 characters). '' @
     ''Return them as a JSON array of strings, no other text, no markdown fences.''"

text \<open>The result is a Go slice: \<open>None\<close> is the nil slice \<open>splitLines\<close> returns when no line is left.\<close>

definition chat_suggest ::
  "(nat \<times> ('w \<times> string) \<times> bytes hub) retry_do \<Rightarrow> (int \<Rightarrow> int) \<Rightarrow> chat_client \<Rightarrow> bool \<Rightarrow> 'w generate \<Rightarrow>
   nat list \<Rightarrow> string \<Rightarrow> 'w \<Rightarrow> 'w \<times> (go_error + string list option)" where
  "chat_suggest rd ovf c cancelled gen perm partial w =
     (if partial = '''' then (w, Inr (Some (random_tasks perm)))
      else case chat rd ovf c cancelled gen (suggest_prompt partial) w of
        (w', Inl e) \<Rightarrow> (w', Inl e)
      | (w', Inr txt) \<Rightarrow>
          (case parse_string_array txt of
             Some out \<Rightarrow> (w', Inr (Some out))
           | None \<Rightarrow> (w', Inr (if split_lines txt = [] then None else Some (split_lines txt)))))"

subsection \<open>Token streams\<close>

text \<open>Opening a stream yields its chunks and the deferred error; \<open>fn\<close> is the caller's callback.\<close>

type_synonym 'w open_stream = "string \<Rightarrow> 'w \<Rightarrow> 'w \<times> (go_error + string list \<times> go_error option)"

fun feed :: "(string \<Rightarrow> ('s, go_error) call) \<Rightarrow> string list \<Rightarrow> ('s, go_error) call" where
  "feed fn [] s = (s, None)"
| "feed fn (c # cs) s = (case fn c s of
     (s', Some e) \<Rightarrow> (s', Some e) | (s', None) \<Rightarrow> feed fn cs s')"

definition stream_attempt ::
  "'w open_stream \<Rightarrow> string \<Rightarrow> (string \<Rightarrow> ('s, go_error) call) \<Rightarrow> (('w \<times> 's) \<times> bytes hub, go_error) call" where
  "stream_attempt str prompt fn st = (case st of ((w, s), h) \<Rightarrow>
     (case str prompt w of
        (w', Inl e) \<Rightarrow> (((w', s), h), Some (Wrapped ''llm: stream'' e))
      | (w', Inr (chunks, derr)) \<Rightarrow>
          (case feed fn chunks s of
             (s', Some e) \<Rightarrow> (((w', s'), h), Some e)
           | (s', None) \<Rightarrow> (((w', s'), h), map_option (Wrapped ''llm: stream'') derr))))"

definition chat_stream ::
  "(nat \<times> ('w \<times> 's) \<times> bytes hub) retry_do \<Rightarrow> (int \<Rightarrow> int) \<Rightarrow> chat_client \<Rightarrow> bool \<Rightarrow> 'w open_stream \<Rightarrow>
   string \<Rightarrow> (string \<Rightarrow> ('s, go_error) call) \<Rightarrow> ('w \<times> 's, go_error) call" where
  "chat_stream rd ovf c cancelled str prompt fn ws =
     (if lm_api_key c = '''' then (ws, Some err_no_api_key)
      else case do_silent rd ovf (lm_retry c) cancelled (stream_attempt str prompt fn) (ws, new_hub []) of
        ((ws', h), err) \<Rightarrow> (ws', err))"

text \<open>The stream sink writes one event per chunk; \<open>k\<close> more writes go through on the connection.\<close>

type_synonym sink = "nat \<times> string list"

definition sink_send :: "string \<Rightarrow> (sink, go_error) call" where
  "sink_send data st = (case st of (k, sent) \<Rightarrow>
     if k = 0 then ((k, sent), Some (Plain ''write failed'')) else ((k - 1, sent @ [data]), None))"

definition stream_to_sse ::
  "(nat \<times> ('w \<times> sink) \<times> bytes hub) retry_do \<Rightarrow> (int \<Rightarrow> int) \<Rightarrow> chat_client \<Rightarrow> bool \<Rightarrow> 'w open_stream \<Rightarrow>
   string \<Rightarrow> ('w \<times> sink, go_error) call" where
  "stream_to_sse rd ovf c cancelled str prompt ws =
     (case sink_send (marshal (JObj [(''streaming'', JBool True)])) (snd ws) of
        (s', Some e) \<Rightarrow> ((fst ws, s'), Some (Wrapped ''llm: send streaming=true'' e))
      | (s', None) \<Rightarrow>
          chat_stream rd ovf c cancelled str prompt (\<lambda>chunk. sink_send (marshal (JObj [(''token'', JStr chunk)])))
            (fst ws, s'))"

text \<open>A reader is the list of what its reads return: some bytes and whether the read ended the stream
  or failed; a reader that has nothing more is at its end.\<close>

datatype read_end = More | Eof | ReadErr go_error

fun consume_stream :: "(string \<times> read_end) list \<Rightarrow> (string \<Rightarrow> ('s, go_error) call) \<Rightarrow> ('s, go_error) call" where
  "consume_stream [] fn s = (s, None)"
| "consume_stream ((buf, st) # rs) fn s =
     (case (if buf \<noteq> '''' then fn buf s else (s, None)) of
        (s', Some e) \<Rightarrow> (s', Some (Wrapped ''llm: stream callback'' e))
      | (s', None) \<Rightarrow> (case st of
           Eof \<Rightarrow> (s', None)
         | ReadErr e \<Rightarrow> (s', Some (Wrapped ''llm: read stream'' e))
         | More \<Rightarrow> consume_stream rs fn s'))"

subsection \<open>The fake provider\<close>

record fake_server =
  fs_response :: string
  fs_chunks :: "string list"
  fs_statuses :: "nat list"
  fs_keys :: "string list"
  fs_calls :: nat

record fake_request =
  fr_authorization :: string
  fr_body :: "bytes option"

record fake_reply =
  fy_status :: nat
  fy_body :: bytes

definition with_response :: "string \<Rightarrow> fake_server \<Rightarrow> fake_server" where
  "with_response t s = s\<lparr>fs_response := t\<rparr>"

definition with_stream_chunks :: "string list \<Rightarrow> fake_server \<Rightarrow> fake_server" where
  "with_stream_chunks cs s = s\<lparr>fs_chunks := cs\<rparr>"

definition with_status_sequence :: "nat list \<Rightarrow> fake_server \<Rightarrow> fake_server" where
  "with_status_sequence codes s = s\<lparr>fs_statuses := codes\<rparr>"

definition with_api_key :: "string list \<Rightarrow> fake_server \<Rightarrow> fake_server" where
  "with_api_key allowed s = s\<lparr>fs_keys := allowed\<rparr>"

definition new_fake :: "(fake_server \<Rightarrow> fake_server) list \<Rightarrow> fake_server" where
  "new_fake opts = foldl (\<lambda>s f. f s)
     \<lparr>fs_response = ''hello'', fs_chunks = [], fs_statuses = [], fs_keys = [], fs_calls = 0\<rparr> opts"

definition authorize :: "fake_server \<Rightarrow> fake_request \<Rightarrow> bool" where
  "authorize s r \<longleftrightarrow> fs_keys s = [] \<or> trim_prefix (fr_authorization r) ''Bearer '' \<in> set (fs_keys s)"

text \<open>The fields the server decodes: the model, the messages' roles and contents, and the stream flag.\<close>

definition dec_message :: "jval \<Rightarrow> (string \<times> string) option" where
  "dec_message v = (case v of
     JNull \<Rightarrow> Some ('''', '''')
   | JObj kvs \<Rightarrow> (case decode_field dec_str '''' ''role'' kvs of None \<Rightarrow> None | Some r \<Rightarrow>
       map_option (\<lambda>c. (r, c)) (decode_field dec_str '''' ''content'' kvs))
   | _ \<Rightarrow> None)"

fun dec_messages :: "(string \<times> string) list \<Rightarrow> jval \<Rightarrow> (string \<times> string) list option" where
  "dec_messages old (JArr vs) = (if list_all (\<lambda>v. dec_message v \<noteq> None) vs
     then Some (map (\<lambda>v. the (dec_message v)) vs) else None)"
| "dec_messages old JNull = Some []"
| "dec_messages old _ = None"

definition decode_request :: "bytes option \<Rightarrow> (string \<times> (string \<times> string) list \<times> bool) option" where
  "decode_request b = (case b of None \<Rightarrow> None | Some body \<Rightarrow>
     (case unmarshal body of
        Some JNull \<Rightarrow> Some ('''', [], False)
      | Some (JObj kvs) \<Rightarrow>
          (case decode_field dec_str '''' ''model'' kvs of None \<Rightarrow> None | Some m \<Rightarrow>
          (case decode_field dec_messages [] ''messages'' kvs of None \<Rightarrow> None | Some ms \<Rightarrow>
             map_option (\<lambda>b. (m, ms, b)) (decode_field dec_bool False ''stream'' kvs)))
      | _ \<Rightarrow> None))"

definition next_status :: "fake_server \<Rightarrow> nat" where
  "next_status s = (if fs_calls s - 1 < length (fs_statuses s) then fs_statuses s ! (fs_calls s - 1) else 200)"

definition forced_error_body :: "nat \<Rightarrow> bytes" where
  "forced_error_body n = ''{'' @ [CHR 0x22] @ ''error'' @ [CHR 0x22] @ '':{'' @ [CHR 0x22] @ ''message'' @ [CHR 0x22] @
     '':'' @ [CHR 0x22] @ ''forced '' @ [CHR 0x22] @ nat_str n @ [CHR 0x22] @ '','' @ [CHR 0x22] @ ''type'' @
     [CHR 0x22] @ '':'' @ [CHR 0x22] @ ''server_error'' @ [CHR 0x22] @ ''}}''"

definition single_response :: "fake_server \<Rightarrow> fake_reply" where
  "single_response s = \<lparr>fy_status = 200, fy_body = marshal (JObj [(''choices'', JArr [JObj [(''message'',
     JObj [(''role'', JStr ''assistant''), (''content'', JStr (fs_response s))])]])]) @ [CHR 0x0A]\<rparr>"

text \<open>\<open>strings.Fields\<close>; \<open>w\<close> is the field read so far.\<close>

function fields_from :: "string \<Rightarrow> string \<Rightarrow> string list" where
  "fields_from w [] = (if w = [] then [] else [w])"
| "fields_from w (c # cs) = (let k = lead_blank blanks (c # cs) in
     if k = 0 then fields_from (w @ [c]) cs
     else (if w = [] then [] else [w]) @ fields_from [] (drop k (c # cs)))"
  by pat_completeness auto
termination
proof (relation "measure (\<lambda>(w, s). length s)")
  fix w c cs k
  assume "k = lead_blank blanks (c # cs)" "k \<noteq> 0"
  then show "(([], drop k (c # cs)), (w, c # cs)) \<in> measure (\<lambda>(w, s). length s)"
    using lead_blank_le [of blanks "c # cs"] by simp
qed simp_all

definition fields_of :: "string \<Rightarrow> string list" where
  "fields_of s = fields_from [] s"

definition stream_chunks :: "fake_server \<Rightarrow> string list" where
  "stream_chunks s = (if fs_chunks s \<noteq> [] then fs_chunks s
     else let ws = fields_of (fs_response s) in
          if 1 < length ws then [hd ws @ '' '', join_str '' '' (tl ws)] else ws)"

definition stream_response :: "fake_server \<Rightarrow> fake_reply" where
  "stream_response s = \<lparr>fy_status = 200, fy_body = concat (map (\<lambda>c. ''data: '' @
     marshal (JObj [(''choices'', JArr [JObj [(''delta'', JObj [(''content'', JStr c)])]])]) @
     [CHR 0x0A, CHR 0x0A]) (stream_chunks s)) @ ''data: [DONE]'' @ [CHR 0x0A, CHR 0x0A]\<rparr>"

text \<open>One call; the delay before a successful reply is not modelled, a request cancelled meanwhile gets none.\<close>

definition fake_handle :: "fake_request \<Rightarrow> fake_server \<Rightarrow> fake_server \<times> fake_reply" where
  "fake_handle r s0 =
     (let s = s0\<lparr>fs_calls := fs_calls s0 + 1\<rparr>
      in if \<not> authorize s r then (s, \<lparr>fy_status = 401, fy_body = ''unauthorized'' @ [CHR 0x0A]\<rparr>)
         else case decode_request (fr_body r) of
           None \<Rightarrow> (s, \<lparr>fy_status = 400, fy_body = ''bad request'' @ [CHR 0x0A]\<rparr>)
         | Some (m, ms, strm) \<Rightarrow>
             if next_status s \<noteq> 200
             then (s, \<lparr>fy_status = next_status s, fy_body = forced_error_body (next_status s)\<rparr>)
             else (s, if strm then stream_response s else single_response s))"

subsection \<open>Lemmas on the parser\<close>

lemma find_array_eq:
  "CHR ''['' \<notin> set a \<Longrightarrow> CHR '']'' \<notin> set c \<Longrightarrow>
   find_array (a @ CHR ''['' # c @ CHR '']'' # b) = CHR ''['' # c @ '']''"
  by (simp add: find_array_def index_byte_append_Cons)

lemma brackets_not_space [simp]: "\<not> blank_byte (CHR ''['')" "\<not> blank_byte (CHR '']'')" "\<not> blank_byte (CHR 0x60)"
  by (simp_all add: blank_byte_def blanks_def)

lemma hex_digit_not_bracket: "d < 16 \<Longrightarrow> hex_digit d \<noteq> CHR '']'' \<and> hex_digit d \<noteq> CHR 0x0A"
proof -
  assume d: "d < 16"
  have "unhex (CHR '']'') = None" "unhex (CHR 0x0A) = None" by (simp_all add: unhex_def)
  then show ?thesis using unhex_hex_digit [OF d] by force
qed

lemma escape_char_set: "set (escape_char c) \<inter> {CHR '']'', CHR 0x0A} \<subseteq> {c} - {CHR 0x0A}"
proof -
  have "(of_char c :: nat) div 16 < 16" "(of_char c :: nat) mod 16 < 16"
    by (rule less_mult_imp_div_less) simp_all
  note this [THEN hex_digit_not_bracket]
  then show ?thesis by (auto simp: escape_char_def Let_def split: if_splits)
qed

lemma marshal_str_set:
  "CHR 0x0A \<notin> set (marshal_str s)" "CHR '']'' \<notin> set s \<Longrightarrow> CHR '']'' \<notin> set (marshal_str s)"
  using escape_char_set by (fastforce simp: marshal_str_def)+

lemma join_str_set: "c \<notin> set sep \<Longrightarrow> (\<And>w. w \<in> set ws \<Longrightarrow> c \<notin> set w) \<Longrightarrow> c \<notin> set (join_str sep ws)"
  by (induction sep ws rule: join_str.induct) auto

definition strings_json :: "string list \<Rightarrow> string" where
  "strings_json xs = marshal (JArr (map JStr xs))"

lemma strings_json_eq: "strings_json xs = CHR ''['' # join_str '','' (map marshal_str xs) @ '']''"
  by (simp add: strings_json_def comp_def)

lemma strings_json_body:
  "CHR 0x0A \<notin> set (join_str '','' (map marshal_str xs))"
  "(\<And>x. x \<in> set xs \<Longrightarrow> CHR '']'' \<notin> set x) \<Longrightarrow> CHR '']'' \<notin> set (join_str '','' (map marshal_str xs))"
  by (rule join_str_set; auto simp: marshal_str_set)+

lemma unmarshal_strings_json: "unmarshal (strings_json xs) = Some (JArr (map JStr xs))"
  unfolding strings_json_def by (rule unmarshal_marshal) (simp add: list_all_iff)

lemma dec_elems_strings [simp]: "dec_elems (map JStr xs) = Some xs"
  by (induction xs) simp_all

definition first_three :: "string list \<Rightarrow> string list" where
  "first_three xs = take 3 (filter (\<lambda>s. s \<noteq> '''') (map trim_space xs))"

lemma parse_found:
  assumes "find_array (if has_prefix (trim_space raw) fence then strip_code_fence (trim_space raw)
      else trim_space raw) = strings_json xs"
  shows "parse_string_array raw = Some (first_three xs)"
  using assms unmarshal_strings_json [of xs]
  by (simp add: parse_string_array_def Let_def first_three_def strings_json_eq)

lemma parse_strings_json:
  assumes "\<And>x. x \<in> set xs \<Longrightarrow> CHR '']'' \<notin> set x"
  shows "parse_string_array (strings_json xs) = Some (first_three xs)"
proof (rule parse_found)
  have "trim_space (strings_json xs) = strings_json xs"
    by (rule trim_space_id) (simp_all add: strings_json_eq)
  moreover have "\<not> has_prefix (strings_json xs) fence"
    by (simp add: strings_json_eq numeral_3_eq_3)
  moreover have "find_array (strings_json xs) = strings_json xs"
    using find_array_eq [of "[]" "join_str '','' (map marshal_str xs)" "[]"] strings_json_body(2) [OF assms]
    by (simp add: strings_json_eq)
  ultimately show "find_array (if has_prefix (trim_space (strings_json xs)) fence
      then strip_code_fence (trim_space (strings_json xs)) else trim_space (strings_json xs)) = strings_json xs"
    by simp
qed

lemma last_index_suffix: "p \<noteq> [] \<Longrightarrow> last_index p (s @ p) = Some (length s)"
proof (induction s)
  case Nil
  have "last_index p xs = None" if "length xs < length p" for xs
    using that by (induction xs) (auto simp: has_prefix_iff dest: arg_cong [where f = length])
  with Nil show ?case by (cases p) (auto simp: has_prefix_iff intro: exI [of _ "[]"])
qed simp

lemma strip_fenced:
  assumes "CHR 0x0A \<notin> set lang" and "t \<noteq> []"
  shows "strip_code_fence (fence @ lang @ CHR 0x0A # t @ fence) = trim_space t"
proof -
  have "index_byte (CHR 0x0A) ((fence @ lang) @ CHR 0x0A # t @ fence) = Some (length (fence @ lang))"
    by (rule index_byte_append_Cons) (use assms in \<open>simp add: numeral_3_eq_3\<close>)
  moreover have "last_index fence (t @ fence) = Some (length t)"
    by (rule last_index_suffix) simp
  ultimately show ?thesis using assms(2) by (simp add: strip_code_fence_def)
qed

subsection \<open>Properties of suggestions\<close>

text \<open>C26: A model's answer is read as it was meant when the suggestions hold no closing bracket: a JSON
  array of strings inside any text without an opening bracket before it, or inside a code fence, gives
  the first three non-blank suggestions, trimmed.\<close>
theorem suggestions_roundtrip:
  assumes "\<And>x. x \<in> set xs \<Longrightarrow> CHR '']'' \<notin> set x"
  shows "(CHR ''['' \<notin> set pre \<and> \<not> has_prefix (trim_space (pre @ strings_json xs @ post)) fence \<longrightarrow>
      parse_string_array (pre @ strings_json xs @ post) = Some (first_three xs)) \<and>
    (CHR 0x0A \<notin> set lang \<longrightarrow>
      parse_string_array (fence @ lang @ CHR 0x0A # strings_json xs @ CHR 0x0A # fence) = Some (first_three xs))"
proof -
  let ?j = "join_str '','' (map marshal_str xs)"
  note body = strings_json_body(2) [OF assms]
  have "parse_string_array (pre @ strings_json xs @ post) = Some (first_three xs)"
    if pre: "CHR ''['' \<notin> set pre" and plain: "\<not> has_prefix (trim_space (pre @ strings_json xs @ post)) fence"
  proof (rule parse_found)
    obtain a' b' where "set a' \<subseteq> set pre"
      "trim_space (pre @ CHR ''['' # ?j @ CHR '']'' # post) = a' @ CHR ''['' # ?j @ CHR '']'' # b'"
      using trim_space_around [OF brackets_not_space(1,2)] by blast
    then show "find_array (if has_prefix (trim_space (pre @ strings_json xs @ post)) fence
        then strip_code_fence (trim_space (pre @ strings_json xs @ post))
        else trim_space (pre @ strings_json xs @ post)) = strings_json xs"
      using plain pre body find_array_eq [of a' ?j b'] by (auto simp: strings_json_eq)
  qed
  moreover have "parse_string_array (fence @ lang @ CHR 0x0A # strings_json xs @ CHR 0x0A # fence) = Some (first_three xs)"
    if lang: "CHR 0x0A \<notin> set lang"
  proof (rule parse_found)
    let ?raw = "fence @ lang @ CHR 0x0A # strings_json xs @ CHR 0x0A # fence"
    have "trim_space ?raw = ?raw"
      by (rule trim_space_id) (simp_all add: numeral_3_eq_3)
    moreover have "strip_code_fence ?raw = trim_space (strings_json xs @ [CHR 0x0A])"
      using strip_fenced [OF lang, of "strings_json xs @ [CHR 0x0A]"] by simp
    moreover obtain a' b' where "set a' \<subseteq> set []"
      "trim_space ([] @ CHR ''['' # ?j @ CHR '']'' # [CHR 0x0A]) = a' @ CHR ''['' # ?j @ CHR '']'' # b'"
      using trim_space_around [OF brackets_not_space(1,2)] by blast
    moreover have "has_prefix ?raw fence" by (rule has_prefix_append)
    ultimately show "find_array (if has_prefix (trim_space ?raw) fence then strip_code_fence (trim_space ?raw)
        else trim_space ?raw) = strings_json xs"
      using body find_array_eq [of "[]" ?j b'] by (simp add: strings_json_eq)
  qed
  ultimately show ?thesis by blast
qed

theorem suggestions_roundtrip_witness:
  "parse_string_array (''Sure: '' @ strings_json ['' Buy milk'', '''', ''Call \"Bob\"''] @ '' ok?'') =
     Some [''Buy milk'', ''Call \"Bob\"'']"
proof -
  have "trim_space (''Sure: '' @ strings_json xs @ '' ok?'') = ''Sure: '' @ strings_json xs @ '' ok?''" for xs
    by (rule trim_space_id) (simp_all add: blank_byte_def blanks_def)
  then have "\<not> has_prefix (trim_space (''Sure: '' @ strings_json xs @ '' ok?'')) fence" for xs
    by (simp add: numeral_3_eq_3)
  moreover have "CHR '']'' \<notin> set x" if "x \<in> set ['' Buy milk'', '''', ''Call \"Bob\"'']" for x
    using that by auto
  moreover have "CHR ''['' \<notin> set ''Sure: ''" by simp
  ultimately have "parse_string_array (''Sure: '' @ strings_json ['' Buy milk'', '''', ''Call \"Bob\"''] @ '' ok?'') =
      Some (first_three ['' Buy milk'', '''', ''Call \"Bob\"''])"
    using suggestions_roundtrip [of "['' Buy milk'', '''', ''Call \"Bob\"'']" "''Sure: ''" "'' ok?''" "''''"] by blast
  moreover have "first_three ['' Buy milk'', '''', ''Call \"Bob\"''] = [''Buy milk'', ''Call \"Bob\"'']"
    by (simp add: first_three_def trim_space_def trim_by.simps blanks_def)
  ultimately show ?thesis by simp
qed

lemma parse_str_no_quote: "parse_str (concat (map escape_char s) @ [CHR '']'']) = None"
  by (induction s) (simp_all add: parse_escape_char)

text \<open>A suggestion with a closing bracket spoils the whole answer: the pattern that looks for the
  array stops at the first closing bracket, wherever it is, so a correct JSON answer whose first
  suggestion contains one is not parsed, and the user is offered the raw JSON text as the only
  suggestion.\<close>
lemma bracket_breaks_suggestions:
  assumes "CHR '']'' \<in> set x"
  shows "parse_string_array (strings_json (x # xs)) = None \<and> split_lines (strings_json (x # xs)) = [strings_json (x # xs)]"
proof -
  let ?t = "strings_json (x # xs)" and ?j = "join_str '','' (map marshal_str (x # xs))"
  obtain a b where x: "x = a @ CHR '']'' # b" "CHR '']'' \<notin> set a"
    using assms split_list_first by fastforce
  have t: "?t = CHR ''['' # ?j @ '']''" by (rule strings_json_eq)
  have trim: "trim_space ?t = ?t"
    by (rule trim_space_id) (simp_all add: t)
  obtain r where "?j = CHR 0x22 # concat (map escape_char a) @ CHR '']'' # r"
    using x by (cases xs) (auto simp: marshal_str_def escape_char_def Let_def)
  moreover have "CHR '']'' \<notin> set (concat (map escape_char a))"
    using marshal_str_set(2) [OF x(2)] by (simp add: marshal_str_def)
  ultimately have "find_array ?t = CHR ''['' # CHR 0x22 # concat (map escape_char a) @ '']''"
    using find_array_eq [of "[]" "CHR 0x22 # concat (map escape_char a)" "r @ '']''"] by (simp add: t)
  moreover have "unmarshal (CHR ''['' # CHR 0x22 # concat (map escape_char a) @ '']'') = None"
    by (simp add: unmarshal_def skip_ws_def json_ws_def parse_str_no_quote)
  moreover have "\<not> has_prefix ?t fence" by (simp add: t numeral_3_eq_3)
  ultimately have "parse_string_array ?t = None"
    by (simp add: parse_string_array_def trim)
  moreover have "split_byte (CHR 0x0A) ?t = [?t]"
    using strings_json_body(1) [of "x # xs"] by (intro split_byte_plain) (simp add: t)
  ultimately show ?thesis by (simp add: split_lines_def trim) (simp add: t)
qed

lemma bracket_breaks_suggestions_witness:
  "parse_string_array (strings_json [''Fix [A-1]'', ''Rest'']) = None"
  using bracket_breaks_suggestions [of "''Fix [A-1]''" "[''Rest'']"] by simp

text \<open>What the interface shows: at most three suggestions, none of them blank.\<close>

lemma split_lines_shape: "length (split_lines s) \<le> 3 \<and> '''' \<notin> set (split_lines s)"
  by (auto simp: split_lines_def dest: in_set_takeD)

lemma parse_string_array_shape:
  "parse_string_array s = Some out \<Longrightarrow> length out \<le> 3 \<and> '''' \<notin> set out"
  by (auto simp: parse_string_array_def Let_def dest: in_set_takeD
    split: if_splits option.splits jval.splits)

lemma safe_seed_tasks_length: "length safe_seed_tasks = 24"
  by (simp add: safe_seed_tasks_def)

lemma random_tasks_shape:
  assumes "distinct perm" and "set perm = {..<length safe_seed_tasks}"
  shows "length (random_tasks perm) = 3 \<and> distinct (random_tasks perm) \<and>
    set (random_tasks perm) \<subseteq> set safe_seed_tasks"
proof -
  note l = safe_seed_tasks_length
  have d: "distinct safe_seed_tasks" by (simp add: safe_seed_tasks_def)
  have n: "length perm = 24" using distinct_card [OF assms(1)] assms(2) l by simp
  have sub: "set (take 3 perm) \<subseteq> {..<length safe_seed_tasks}" using assms(2) set_take_subset by fast
  have "distinct (random_tasks perm)"
    unfolding random_tasks_def distinct_map
    using assms(1) sub nth_eq_iff_index_eq [OF d] by (auto intro!: inj_onI)
  then show ?thesis using n sub l by (auto simp: random_tasks_def)
qed

text \<open>C27: Whatever the model answers and whether or not it was asked, a list of suggestions has at most
  three entries and no empty one; without seed text the model is not called and the suggestions are
  three different tasks of the curated pool.\<close>
theorem suggestions_well_formed:
  assumes "distinct perm" and "set perm = {..<length safe_seed_tasks}"
    and "chat_suggest rd ovf c cancelled gen perm partial w = (w', Inr (Some out))"
  shows "length out \<le> 3 \<and> '''' \<notin> set out \<and>
    (partial = '''' \<longrightarrow> w' = w \<and> length out = 3 \<and> distinct out \<and> set out \<subseteq> set safe_seed_tasks)"
proof (cases "partial = ''''")
  case True
  have "'''' \<notin> set safe_seed_tasks" by (simp add: safe_seed_tasks_def)
  with True random_tasks_shape [OF assms(1,2)] assms(3) show ?thesis
    by (auto simp: chat_suggest_def)
next
  case False
  then show ?thesis
    using assms(3) split_lines_shape parse_string_array_shape
    by (fastforce simp: chat_suggest_def split: prod.splits sum.splits option.splits if_splits)
qed

theorem suggestions_well_formed_witness:
  "length (random_tasks [0..<24]) \<le> 3 \<and> distinct (random_tasks [0..<24])"
proof -
  have "chat_suggest simple_retry (\<lambda>x. x) (new_client (\<lambda>_. '''') '''') False (\<lambda>p w. (w, Inr p)) [0..<24] '''' (0 :: nat) =
      (0, Inr (Some (random_tasks [0..<24])))"
    by (simp add: chat_suggest_def)
  moreover have "set [0..<24] = {..<length safe_seed_tasks}"
    by (simp add: safe_seed_tasks_length atLeast0LessThan)
  moreover have "distinct [0..<24]" by simp
  ultimately show ?thesis using suggestions_well_formed by fast
qed

subsection \<open>The simulated provider\<close>

text \<open>What the code relies on of GoAI against a fake that accepts any key: one well-formed, non-streaming
  request per call; another status than 200 is an API error with that status.\<close>

definition goai_law :: "fake_server generate \<Rightarrow> bool" where
  "goai_law gen \<longleftrightarrow> (\<forall>prompt s. fs_keys s = [] \<longrightarrow> (\<exists>r m ms. decode_request (fr_body r) = Some (m, ms, False) \<and>
     fst (gen prompt s) = fst (fake_handle r s) \<and>
     (if fy_status (snd (fake_handle r s)) = 200 then snd (gen prompt s) = Inr (fs_response s)
      else \<exists>txt. snd (gen prompt s) = Inl (APIError (int (fy_status (snd (fake_handle r s)))) txt))))"

definition sim_server :: "nat \<Rightarrow> fake_server" where
  "sim_server n = (new_fake [\<lambda>s. s\<lparr>fs_statuses := [500, 200]\<rparr>,
     \<lambda>s. s\<lparr>fs_response := strings_json [''Review the pull request'', ''Write the meeting notes'',
       ''Ping the on-call engineer'']\<rparr>])\<lparr>fs_calls := n\<rparr>"

lemma sim_server_fields [simp]:
  "fs_statuses (sim_server n) = [500, 200]" "fs_calls (sim_server n) = n" "fs_keys (sim_server n) = []"
  "fs_response (sim_server n) = strings_json [''Review the pull request'', ''Write the meeting notes'',
       ''Ping the on-call engineer'']"
  "(sim_server n)\<lparr>fs_calls := m\<rparr> = sim_server m"
  by (simp_all add: sim_server_def new_fake_def)

lemma sim_generate:
  assumes "goai_law gen"
  shows "\<exists>why. gen prompt (sim_server n) = (sim_server (Suc n),
    if n = 0 then Inl (APIError 500 why) else Inr (fs_response (sim_server n)))"
proof -
  obtain r m ms where r: "decode_request (fr_body r) = Some (m, ms, False)"
      "fst (gen prompt (sim_server n)) = fst (fake_handle r (sim_server n))"
      "if fy_status (snd (fake_handle r (sim_server n))) = 200
       then snd (gen prompt (sim_server n)) = Inr (fs_response (sim_server n))
       else \<exists>why. snd (gen prompt (sim_server n)) =
         Inl (APIError (int (fy_status (snd (fake_handle r (sim_server n))))) why)"
    using assms [unfolded goai_law_def, THEN spec, of prompt, THEN spec, of "sim_server n"] by auto
  have status: "next_status (sim_server (Suc n)) = (if n = 0 then 500 else 200)"
    by (cases n) (auto simp: next_status_def nth_Cons split: nat.splits)
  have auth: "authorize (sim_server (Suc n)) r" by (simp add: authorize_def)
  have "fst (fake_handle r (sim_server n)) = sim_server (Suc n)"
    "fy_status (snd (fake_handle r (sim_server n))) = (if n = 0 then 500 else 200)"
    using r(1) auth status by (auto simp: fake_handle_def Let_def single_response_def)
  with r(2,3) show ?thesis by (cases "n = 0") (auto simp: prod_eq_iff)
qed

lemma sim_chat:
  assumes "goai_law gen" and "retry_contract rd"
  shows "\<exists>why. chat rd ovf (new_simulated url) False gen prompt (sim_server n) = (sim_server (Suc n),
    if n = 0 then Inl (Wrapped ''llm: generate'' (APIError 500 why)) else Inr (fs_response (sim_server n)))"
proof -
  obtain why where g: "gen prompt (sim_server n) = (sim_server (Suc n),
      if n = 0 then Inl (APIError 500 why) else Inr (fs_response (sim_server n)))"
    using sim_generate [OF assms(1)] by blast
  let ?f = "attempt_once False '''' ''llm.chat'' (chat_attempt gen prompt)"
  let ?opts = "retry_options ovf (lm_retry (new_simulated url)) False"
  have "ro_attempts ?opts = 1" by (simp add: new_simulated_def)
  with contract_live [OF assms(2), of ?opts ?f "(0, (sim_server n, ''''), new_hub [])"]
  have "rd ?opts ?f (0, (sim_server n, ''''), new_hub []) =
      ?f (0, (sim_server n, ''''), new_hub [])"
    by (auto simp: call_error_def le_Suc_eq prod_eq_iff)
  then show ?thesis
    using g by (intro exI [of _ why]) (auto simp: chat_def retry_do_fn_def attempt_once_def chat_attempt_def
      new_simulated_def)
qed

lemma first_three_sim:
  "parse_string_array (fs_response (sim_server n)) =
     Some [''Review the pull request'', ''Write the meeting notes'', ''Ping the on-call engineer'']"
proof -
  let ?xs = "[''Review the pull request'', ''Write the meeting notes'', ''Ping the on-call engineer'']"
  have "parse_string_array (strings_json ?xs) = Some (first_three ?xs)"
    by (rule parse_strings_json) auto
  then show ?thesis by (simp add: first_three_def trim_space_def trim_by.simps blanks_def)
qed

text \<open>The simulated client fails exactly once: the first request is answered with an error that the
  retry policy accepts, every later one with the three scripted suggestions.\<close>
lemma sim_suggest:
  assumes "goai_law gen" and "retry_contract rd" and "partial \<noteq> ''''"
  shows "\<exists>why. chat_suggest rd ovf (new_simulated url) False gen perm partial (sim_server n) = (sim_server (Suc n),
    if n = 0 then Inl (Wrapped ''llm: generate'' (APIError 500 why))
    else Inr (Some [''Review the pull request'', ''Write the meeting notes'', ''Ping the on-call engineer'']))"
proof -
  obtain why where "chat rd ovf (new_simulated url) False gen (suggest_prompt partial) (sim_server n) =
      (sim_server (Suc n), if n = 0 then Inl (Wrapped ''llm: generate'' (APIError 500 why))
        else Inr (fs_response (sim_server n)))"
    using sim_chat [OF assms(1,2)] by blast
  then show ?thesis
    using assms(3) first_three_sim [of n] by (intro exI [of _ why]) (auto simp: chat_suggest_def)
qed

text \<open>The body the fake sends with a forced status is not JSON.\<close>

lemma forced_error_body_invalid: "unmarshal (forced_error_body n) = None"
proof -
  obtain d ds where d: "nat_str n = d # ds" "is_digit d"
    using nat_str_digits [of _ n] by (cases "nat_str n") auto
  then have "\<not> json_ws d" "d \<noteq> CHR '',''" "d \<noteq> CHR ''}''" by (auto simp: is_digit_def json_ws_def)
  with d(1) show ?thesis
    by (simp add: unmarshal_def forced_error_body_def skip_ws_def json_ws_def)
qed

end
