(* ===== verification/TodoStream.thy ===== *)
theory TodoStream
  imports TodoHandlers Workers
begin

text \<open>
  The event stream of the todo feature: \<open>features/todo/handlers/todo_sse.go\<close> (what a connection does
  with the messages of its hub channel), \<open>llm_suggest.go\<close> (the AI suggest jobs) and the retry demo of
  \<open>todo.go\<close>.  Text of \<open>encoding/json\<close> errors is not modelled.
\<close>

subsection \<open>Names shared by the jobs and the stream\<close>

definition job_type_toast :: string where "job_type_toast = ''toast''"
definition job_type_suggest_result :: string where "job_type_suggest_result = ''suggest_result''"
definition phase_error :: string where "phase_error = ''error''"
definition retry_status_success :: string where "retry_status_success = ''success''"
definition signal_job_suggest :: string where "signal_job_suggest = ''suggest''"
definition signal_job_suggest_simulated :: string where "signal_job_suggest_simulated = ''suggest_simulated''"
definition signal_job_retry_demo :: string where "signal_job_retry_demo = ''retry-demo''"

definition json_error :: go_error where "json_error = Plain ''invalid JSON''"

text \<open>\<open>json.Unmarshal\<close> of a payload into a struct: an absent payload is an error, null leaves the zero
  value; \<open>f\<close> decodes the fields.\<close>

definition decode_payload :: "((string \<times> jval) list \<Rightarrow> 'a option) \<Rightarrow> jval option \<Rightarrow> 'a option" where
  "decode_payload f p = (case p of Some JNull \<Rightarrow> f [] | Some (JObj kvs) \<Rightarrow> f kvs | _ \<Rightarrow> None)"

fun dec_str_list :: "string list option \<Rightarrow> jval \<Rightarrow> string list option option" where
  "dec_str_list old (JArr vs) = (if list_all (\<lambda>v. dec_str '''' v \<noteq> None) vs
     then Some (Some (map (\<lambda>v. the (dec_str '''' v)) vs)) else None)"
| "dec_str_list old JNull = Some None"
| "dec_str_list old _ = None"

fun dec_uint64 :: "int \<Rightarrow> jval \<Rightarrow> int option" where
  "dec_uint64 old (JNum s) = (case parse_int s of
     None \<Rightarrow> None | Some i \<Rightarrow> if 0 \<le> i \<and> i < 2 ^ 64 then Some i else None)"
| "dec_uint64 old JNull = Some old"
| "dec_uint64 old _ = None"

definition json_strs :: "string list option \<Rightarrow> jval" where
  "json_strs xs = (case xs of None \<Rightarrow> JNull | Some ss \<Rightarrow> JArr (map JStr ss))"

subsection \<open>Messages\<close>

definition toast_job :: "string \<Rightarrow> string \<Rightarrow> bytes" where
  "toast_job message kind = encode_job \<lparr>jb_type = job_type_toast, jb_client = '''',
     jb_payload = Some (JObj [(''message'', JStr message), (''toastType'', JStr kind)])\<rparr>"

definition todo_update_job :: "string \<Rightarrow> string \<Rightarrow> string \<Rightarrow> string \<Rightarrow> bool \<Rightarrow> bytes" where
  "todo_update_job ev source i title done' = encode_job \<lparr>jb_type = ''todo'', jb_client = '''',
     jb_payload = Some (JObj [(''done'', JBool done'), (''event'', JStr ev), (''id'', JStr i),
       (''source'', JStr source), (''title'', JStr title)])\<rparr>"

text \<open>\<open>uids\<close> and \<open>ids\<close> are the iteration orders of the user and the client map.\<close>

definition broadcast_client_count :: "string list \<Rightarrow> string list \<Rightarrow> bytes hub \<Rightarrow> bytes hub" where
  "broadcast_client_count uids ids h = broadcast ids (encode_job \<lparr>jb_type = ''clients'', jb_client = '''',
     jb_payload = Some (JObj [(''count'', JInt (int (count_user_clients uids h)))])\<rparr>) h"

subsection \<open>From a message to events\<close>

text \<open>A dispatcher yields the events it writes, in order; \<open>None\<close> is a payload that does not decode.\<close>

definition emit_toast :: "string \<Rightarrow> string \<Rightarrow> sse_event" where
  "emit_toast message kind = Toast message kind"

definition stream_toast :: "jval option \<Rightarrow> sse_event list option" where
  "stream_toast p = decode_payload (\<lambda>kvs.
     (case decode_field dec_str '''' ''toastType'' kvs of None \<Rightarrow> None | Some t \<Rightarrow>
     (case decode_field dec_str '''' ''message'' kvs of None \<Rightarrow> None | Some m \<Rightarrow>
       Some [emit_toast m (if t = '''' then ''info'' else t)]))) p"

record retry_ev =
  rv_operation :: string
  rv_attempt :: int
  rv_status :: string
  rv_error :: string
  rv_raw :: bytes

definition is_suggest_op :: "string \<Rightarrow> bool" where
  "is_suggest_op x \<longleftrightarrow> x = signal_job_suggest \<or> x = signal_job_suggest_simulated"

definition retry_signal_fields :: "retry_ev \<Rightarrow> (string \<times> jval) list" where
  "retry_signal_fields p =
     [(''lastRetry'', JStr (rv_raw p)), (''lastRetryOperation'', JStr (rv_operation p)),
      (''lastRetryStatus'', JStr (rv_status p)), (''lastRetryAttempt'', JInt (rv_attempt p))] @
     (if is_suggest_op (rv_operation p) then
        (if rv_status p = retry_status_success then [(''aiStep'', JInt 3), (''aiPending'', JBool False)]
         else [(''aiStep'', JInt 2), (''aiPending'', JBool True)])
      else [(''demoStep'', JInt (if rv_status p = retry_status_success then 3 else 2))])"

definition ellipsis :: string where "ellipsis = [CHR 0xE2, CHR 0x80, CHR 0xA6]"

definition retry_toast_message :: "retry_ev \<Rightarrow> string \<times> string" where
  "retry_toast_message p =
     (let verb = (if rv_operation p = signal_job_suggest_simulated then ''suggest (simulated)'' else rv_operation p)
      in if rv_status p = retry_status_success then (verb @ '': completed'', retry_status_success)
         else (verb @ '': attempt '' @ int_str (rv_attempt p) @ '' failed'' @
           (if rv_error p \<noteq> '''' then '' ('' @ rv_error p @ '')'' else '''') @ '', retrying'' @ ellipsis, ''warning''))"

definition apply_tech_step :: "string \<Rightarrow> bool \<Rightarrow> string \<Rightarrow> sse_event" where
  "apply_tech_step step done' phase = MergeMap
     ([(''techStep'', JStr step), (''techDone'', JBool done'), (''techPhase'', JStr phase)] @
      (if done' then [(''suggestPending'', JBool False)] else []))"

definition decode_retry :: "jval option \<Rightarrow> retry_ev option" where
  "decode_retry p = decode_payload (\<lambda>kvs.
     (case decode_field dec_str '''' ''operation'' kvs of None \<Rightarrow> None | Some x \<Rightarrow>
     (case decode_field dec_int 0 ''attempt'' kvs of None \<Rightarrow> None | Some a \<Rightarrow>
     (case decode_field dec_str '''' ''status'' kvs of None \<Rightarrow> None | Some st \<Rightarrow>
     (case decode_field dec_str '''' ''error'' kvs of None \<Rightarrow> None | Some e \<Rightarrow>
       Some \<lparr>rv_operation = x, rv_attempt = a, rv_status = st, rv_error = e, rv_raw = marshal (raw_json p)\<rparr>))))) p"

definition stream_retry :: "jval option \<Rightarrow> sse_event list option" where
  "stream_retry p = (case decode_retry p of None \<Rightarrow> None | Some ev \<Rightarrow>
     Some ([MergeMap (retry_signal_fields ev)] @
       (if rv_status ev = retry_status_success \<and> \<not> is_suggest_op (rv_operation ev)
        then [apply_tech_step signal_job_retry_demo True ''''] else []) @
       [case retry_toast_message ev of (m, kind) \<Rightarrow> emit_toast m kind]))"

definition apply_onboarding :: "int \<Rightarrow> int \<Rightarrow> string \<Rightarrow> string \<Rightarrow> bool \<Rightarrow> sse_event" where
  "apply_onboarding step tot phase detail completed = MergeMap
     ([(''onboardingActive'', JBool True), (''onboardingStep'', JInt step), (''onboardingTotal'', JInt tot),
       (''onboardingPhase'', JStr phase), (''onboardingDetail'', JStr detail), (''techStep'', JStr ''workflow'')] @
      (if completed then [(''workflowCompleted'', JBool True), (''techDone'', JBool True)] else []))"

text \<open>A counter decoded as a 64-bit integer, sent on as it is.\<close>

definition stream_clients :: "jval option \<Rightarrow> sse_event list option" where
  "stream_clients p = decode_payload (\<lambda>kvs. map_option (\<lambda>n. [MergeMap [(''connectedClients'', JInt n)]])
     (decode_field dec_int 0 ''count'' kvs)) p"

definition stream_doc_version_bumped :: "int \<Rightarrow> jval option \<Rightarrow> sse_event list option" where
  "stream_doc_version_bumped now p = decode_payload (\<lambda>kvs.
     (case decode_field dec_uint64 0 ''version'' kvs of None \<Rightarrow> None | Some v \<Rightarrow>
     (case decode_field dec_str '''' ''owner'' kvs of None \<Rightarrow> None | Some owner \<Rightarrow>
       Some (if v = 0 then [] else [MergeMap [(''docVersion'', JInt v), (''docVersionSeen'', JInt now)]])))) p"

definition stream_suggest_result :: "jval option \<Rightarrow> sse_event list option" where
  "stream_suggest_result p = decode_payload (\<lambda>kvs.
     (case decode_field dec_str_list None ''suggestions'' kvs of None \<Rightarrow> None | Some ss \<Rightarrow>
     (case decode_field dec_str '''' ''suggestErr'' kvs of None \<Rightarrow> None | Some err \<Rightarrow>
     (case decode_field dec_bool False ''suggestPending'' kvs of None \<Rightarrow> None | Some pend \<Rightarrow>
       Some [MergeMap [(''suggestions'', json_strs ss), (''suggestErr'', JStr err), (''aiStep'', JInt 3),
               (''aiPending'', JBool False), (''aiPhase'', JStr (if err \<noteq> '''' then ''error'' else ''''))],
             PatchRegion ''#suggestions-region'' (SuggestionsList ss) False,
             if err \<noteq> '''' then emit_toast (''Suggest failed: '' @ err) phase_error
             else emit_toast (''Got '' @ nat_str (length (case ss of None \<Rightarrow> [] | Some xs \<Rightarrow> xs)) @ '' suggestions'')
               retry_status_success])))) p"

definition stream_progress :: "jval option \<Rightarrow> sse_event list option" where
  "stream_progress p = decode_payload (\<lambda>kvs.
     (case decode_field dec_int 0 ''step'' kvs of None \<Rightarrow> None | Some step \<Rightarrow>
     (case decode_field dec_int 0 ''total'' kvs of None \<Rightarrow> None | Some tot \<Rightarrow>
     (case decode_field dec_str '''' ''phase'' kvs of None \<Rightarrow> None | Some phase \<Rightarrow>
     (case decode_field dec_str '''' ''detail'' kvs of None \<Rightarrow> None | Some detail \<Rightarrow>
       Some [apply_onboarding step tot phase detail (phase = ''finalize''), emit_toast detail ''info'']))))) p"

text \<open>A record event also reads the store: the count, then the list, unless the item was deleted.
  \<open>k\<close> is how many more writes the connection takes; the flag says that the handler returned nil.\<close>

definition decode_todo_event :: "jval option \<Rightarrow> (string \<times> string \<times> string \<times> bool) option" where
  "decode_todo_event p = decode_payload (\<lambda>kvs.
     (case decode_field dec_str '''' ''event'' kvs of None \<Rightarrow> None | Some ev \<Rightarrow>
     (case decode_field dec_str '''' ''id'' kvs of None \<Rightarrow> None | Some i \<Rightarrow>
     (case decode_field dec_str '''' ''title'' kvs of None \<Rightarrow> None | Some t \<Rightarrow>
       map_option (\<lambda>d. (ev, i, t, d)) (decode_field dec_bool False ''done'' kvs))))) p"

definition stream_todo ::
  "('s, 'js) todo_handler \<Rightarrow> event \<Rightarrow> nat \<Rightarrow> jval option \<Rightarrow> 's \<Rightarrow> 's \<times> sse_event list \<times> bool" where
  "stream_todo h e k p s = (case decode_todo_event p of
     None \<Rightarrow> (s, [], False)
   | Some (ev, i, title, done') \<Rightarrow>
       if ev = ''workflow-completed''
       then (s, write_events k [apply_onboarding 0 0 ''completed'' ''Workflow completed'' True,
               emit_toast (''Workflow completed '' @ em_dash @ '' 3 example todos created'') retry_status_success])
       else (case count_owned_todos h e s of
          (s1, Inl _) \<Rightarrow> (s1, [], False)
        | (s1, Inr n) \<Rightarrow>
            (let m = MergeMap [(''lastItemSource'', JStr ''remote''), (''itemCount'', JInt (int n))] in
             if k = 0 then (s1, [], False)
             else if ev = ''deleted'' then (s1, write_events k [m, RemoveElement (''#todo-'' @ i)])
             else (case list_todos h e ''all'' s1 of
                (s2, Inl _) \<Rightarrow> (s2, [m], False)
              | (s2, Inr ts) \<Rightarrow> (s2, write_events k [m, PatchRegion ''#todo-list''
                  (render_todo_list h ts (resolve_skin h (ev_req e))) False])))))"

definition dispatch_stream_message ::
  "('s, 'js) todo_handler \<Rightarrow> event \<Rightarrow> int \<Rightarrow> nat \<Rightarrow> bytes \<Rightarrow> 's \<Rightarrow> 's \<times> sse_event list \<times> bool" where
  "dispatch_stream_message h e now k msg s = (case decode_job msg of
     None \<Rightarrow> (s, [], False)
   | Some j \<Rightarrow>
       (let p = jb_payload j; t = jb_type j;
            pure = (\<lambda>r. case r of None \<Rightarrow> (s, [], False) | Some evs \<Rightarrow> (s, write_events k evs))
        in if t = job_type_toast then pure (stream_toast p)
           else if t = ''retry'' then pure (stream_retry p)
           else if t = ''todo'' then stream_todo h e k p s
           else if t = ''clients'' then pure (stream_clients p)
           else if t = job_type_suggest_result then pure (stream_suggest_result p)
           else if t = ''progress'' then pure (stream_progress p)
           else if t = ''doc-version-bumped'' then pure (stream_doc_version_bumped now p)
           else (s, write_events k [MergeMap [(''lastJob'', JStr msg)]])))"

subsection \<open>A connection\<close>

text \<open>
  Opening the stream registers a channel \<open>c\<close> (created by the handler) under the client id of the URL, or
  a fresh one, and sends the signals the page starts from; whatever happens, the deferred clean-up
  removes this registration if it is still the current one.  \<open>cuids\<close>, \<open>cids\<close> and \<open>bids\<close> are
  iteration orders of the hub's maps.
\<close>

definition stream_client_id :: "string \<Rightarrow> request \<Rightarrow> string" where
  "stream_client_id uuid rq = (if rq_query rq ''clientID'' = '''' then uuid else rq_query rq ''clientID'')"

definition initial_signals :: "('s, 'js) todo_handler \<Rightarrow> todo list \<Rightarrow> nat \<Rightarrow> string \<Rightarrow> signals" where
  "initial_signals h ts online cid = zero_signals\<lparr>sg_todos := Some ts, sg_filter := ''all'',
     sg_item_count := int (length ts), sg_llm_enabled := llm_enabled h, sg_simulated_llm := simulated_llm_enabled h,
     sg_dag_nats_enabled := th_dagnats h, sg_connected_clients := int online, sg_client_id := cid,
     sg_sidebar_tab := ''queue''\<rparr>"

definition open_stream ::
  "('s, 'js) todo_handler \<Rightarrow> string \<Rightarrow> request \<Rightarrow> nat \<Rightarrow> nat \<Rightarrow> string list \<Rightarrow> string list \<Rightarrow> string list \<Rightarrow>
   's \<times> bytes hub \<Rightarrow> ('s \<times> bytes hub) \<times> sse_event list \<times> bool" where
  "open_stream h uuid rq k c cuids cids bids sh =
     (let e = app_auth h rq; cid = stream_client_id uuid rq;
          hub1 = register cid (owner_of e) c (snd sh)
      in case list_todos h e ''all'' (fst sh) of
           (s1, Inl _) \<Rightarrow> ((s1, hub1), [], False)
         | (s1, Inr ts) \<Rightarrow>
             if k = 0 then ((s1, hub1), [], False)
             else ((s1, broadcast_client_count cuids cids hub1),
                   [MergeStruct (initial_signals h ts (st_clients (stats cids bids hub1)) cid)], True))"

text \<open>What the \<open>select\<close> of the loop takes next: the request is done, the heartbeat is due (can the
  response be flushed, does the write go through), or the channel has a message and the connection
  takes so many more writes of its events.\<close>

datatype stream_input = RequestDone | Heartbeat bool bool | Deliver int nat

fun stream_loop ::
  "('s, 'js) todo_handler \<Rightarrow> event \<Rightarrow> nat \<Rightarrow> stream_input list \<Rightarrow> 's \<times> bytes hub \<Rightarrow>
   ('s \<times> bytes hub) \<times> sse_event list \<times> bool" where
  "stream_loop h e c [] sh = (sh, [], False)"
| "stream_loop h e c (RequestDone # ins) sh = (sh, [], True)"
| "stream_loop h e c (Heartbeat can ok # ins) sh =
     (if can \<and> \<not> ok then (sh, [], True) else stream_loop h e c ins sh)"
| "stream_loop h e c (Deliver now k # ins) sh = (case recv c (snd sh) of
     None \<Rightarrow> stream_loop h e c ins sh
   | Some (m, hub') \<Rightarrow>
       (case dispatch_stream_message h e now k m (fst sh) of (s1, evs, ok) \<Rightarrow>
          (case stream_loop h e c ins (s1, hub') of (sh', evs', fin) \<Rightarrow> (sh', evs @ evs', fin))))"

definition close_stream :: "string \<Rightarrow> nat \<Rightarrow> string list \<Rightarrow> string list \<Rightarrow> bytes hub \<Rightarrow> bytes hub" where
  "close_stream cid c cuids cids hub = broadcast_client_count cuids cids (unregister_if_current cid c hub)"

subsection \<open>AI suggest\<close>

text \<open>Enqueuing: the connection's reply, and the queue.  \<open>send_err\<close> is the queue's error, if any.\<close>

definition enqueue_suggest ::
  "'q timed_queue \<Rightarrow> int \<Rightarrow> string option \<Rightarrow> nat \<Rightarrow> request \<Rightarrow> string \<Rightarrow> string \<Rightarrow> 'q \<Rightarrow> 'q \<times> response" where
  "enqueue_suggest Q now send_err k rq job_type partial q =
     (case send_err of
        Some e \<Rightarrow> (q, RText 500 (''enqueue failed: '' @ e))
      | None \<Rightarrow> (enqueue Q now (encode_job \<lparr>jb_type = job_type, jb_client = rq_query rq ''clientID'',
              jb_payload = Some (JObj [(''partial'', JStr partial)])\<rparr>) q,
            stream k [MergeMap [(''suggestions'', JArr []), (''suggestErr'', JStr ''''), (''aiPending'', JBool True)]]))"

definition handle_suggest ::
  "('s, 'js) todo_handler \<Rightarrow> 'q timed_queue \<Rightarrow> int \<Rightarrow> string option \<Rightarrow> nat \<Rightarrow> request \<Rightarrow> 'q \<Rightarrow> 'q \<times> response" where
  "handle_suggest h Q now send_err k rq q =
     (if llm_enabled h then enqueue_suggest Q now send_err k rq ''suggest'' (form_value rq ''partial'') q
      else if simulated_llm_enabled h
      then enqueue_suggest Q now send_err k rq ''suggest_simulated'' (form_value rq ''partial'') q
      else (q, RText 503 ''LLM not configured: set GOAI_API_KEY or SIMULATE_LLM=true''))"

definition handle_suggest_simulated ::
  "('s, 'js) todo_handler \<Rightarrow> 'q timed_queue \<Rightarrow> int \<Rightarrow> string option \<Rightarrow> nat \<Rightarrow> request \<Rightarrow> 'q \<Rightarrow> 'q \<times> response" where
  "handle_suggest_simulated h Q now send_err k rq q =
     (if \<not> simulated_llm_enabled h then (q, RText 503 ''simulated LLM not enabled: set SIMULATE_LLM=true'')
      else if rq_form rq = None then (q, RText 400 ''invalid form'')
      else enqueue_suggest Q now send_err k rq ''suggest_simulated''
        (if form_value rq ''partial'' = '''' then ''Plan my week'' else form_value rq ''partial'') q)"

text \<open>The worker's side.  \<open>ask\<close> is the client's \<open>ChatSuggest\<close> (of the simulated client if the flag is
  set); \<open>ord\<close> is the iteration order of the client map when a result is broadcast.\<close>

definition suggest_result :: "string list option \<Rightarrow> string \<Rightarrow> bytes" where
  "suggest_result ss err = encode_job \<lparr>jb_type = job_type_suggest_result, jb_client = '''',
     jb_payload = Some (JObj [(''suggestErr'', JStr err), (''suggestPending'', JBool False),
       (''suggestions'', json_strs ss)])\<rparr>"

definition deliver_result :: "(bytes hub \<Rightarrow> string list) \<Rightarrow> string \<Rightarrow> bytes \<Rightarrow> bytes hub \<Rightarrow> bytes hub" where
  "deliver_result ord cid body hub = (if cid \<noteq> '''' then send cid body hub else broadcast (ord hub) body hub)"

type_synonym 'w ask = "bool \<Rightarrow> string \<Rightarrow> 'w \<Rightarrow> 'w \<times> (go_error + string list option)"

definition handle_suggest_job ::
  "('s, 'js) todo_handler \<Rightarrow> 'w ask \<Rightarrow> (bytes hub \<Rightarrow> string list) \<Rightarrow> 'w handler" where
  "handle_suggest_job h ask ord j wh = (case wh of (w, hub) \<Rightarrow>
     (case decode_payload (decode_field dec_str '''' ''partial'') (jb_payload j) of
        None \<Rightarrow> ((w, hub), Some (Wrapped ''decode suggest payload'' json_error))
      | Some partial \<Rightarrow>
          (let sim = (jb_type j = ''suggest_simulated'') in
           if \<not> (if sim then simulated_llm_enabled h else llm_enabled h)
           then ((w, deliver_result ord (jb_client j)
                   (suggest_result (Some []) ''AI suggest failed: LLM not configured'') hub),
                 Some (Plain (''llm client not configured for job '' @ jb_type j)))
           else (case ask sim partial w of
              (w', Inl err) \<Rightarrow> ((w', deliver_result ord (jb_client j)
                  (suggest_result (Some []) (''AI suggest failed: '' @ error_text err)) hub), Some err)
            | (w', Inr ss) \<Rightarrow> ((w', deliver_result ord (jb_client j) (suggest_result ss '''') hub), None)))))"

subsection \<open>The retry demo\<close>

definition handle_enqueue_retry_demo :: "'q timed_queue \<Rightarrow> int \<Rightarrow> bool \<Rightarrow> nat \<Rightarrow> 'q \<Rightarrow> 'q \<times> response" where
  "handle_enqueue_retry_demo Q now send_ok k q =
     (if \<not> send_ok then (q, RText 500 ''enqueue failed'')
      else (enqueue Q now (encode_job \<lparr>jb_type = ''retry_demo'', jb_client = '''', jb_payload = None\<rparr>) q,
            stream k [MergeMap [(''lastRetry'', JStr ''queued retry-demo job'')]]))"

definition broadcast_retry_feedback ::
  "(bytes hub \<Rightarrow> string list) \<Rightarrow> nat \<Rightarrow> go_error option \<Rightarrow> bytes hub \<Rightarrow> bytes hub" where
  "broadcast_retry_feedback ord n err hub = broadcast (ord hub) (encode_job \<lparr>jb_type = ''retry'', jb_client = '''',
     jb_payload = Some (JObj [(''attempt'', JInt (int n)), (''error'', JStr (err_msg err)),
       (''operation'', JStr ''retry-demo''), (''status'', JStr (if err = None then ''success'' else ''attempt''))])\<rparr>) hub"

definition demo_attempt :: "(bytes hub \<Rightarrow> string list) \<Rightarrow> (nat \<times> bytes hub, go_error) call" where
  "demo_attempt ord st = (case st of (n0, hub) \<Rightarrow>
     (let n = n0 + 1;
          err = (if n < 3 then Some (Plain (''simulated transient failure on attempt '' @ nat_str n)) else None)
      in ((n, broadcast_retry_feedback ord n err hub), err)))"

text \<open>The library's defaults: every plain error is retried, and the delays are its own (\<open>delay\<close>).\<close>

definition handle_retry_demo_job ::
  "(nat \<times> bytes hub) retry_do \<Rightarrow> (64 word \<Rightarrow> int) \<Rightarrow> bool \<Rightarrow> (bytes hub \<Rightarrow> string list) \<Rightarrow>
   (bytes hub, go_error) call" where
  "handle_retry_demo_job rd delay cancelled ord hub =
     (case rd \<lparr>ro_attempts = 3, ro_cancelled = cancelled, ro_delay_type = delay, ro_retry_if = (\<lambda>_. True)\<rparr>
            (demo_attempt ord) (0, hub) of
        ((n, hub'), Some e) \<Rightarrow> (broadcast (ord hub') (toast_job ''Queue + retry demo failed'' phase_error) hub', Some e)
      | ((n, hub'), None) \<Rightarrow>
          (broadcast (ord hub') (toast_job (''Queue + retry OK '' @ em_dash @ '' 3 attempts'') ''success'') hub', None))"

subsection \<open>What a connection shows of a job\<close>

text \<open>A connection that takes all its messages: the events of each in turn.\<close>

definition message_events :: "('s, 'js) todo_handler \<Rightarrow> event \<Rightarrow> int \<Rightarrow> bytes \<Rightarrow> 's \<Rightarrow> sse_event list" where
  "message_events h e now m s = fst (snd (dispatch_stream_message h e now 3 m s))"

lemma stream_lower_names [simp]:
  "to_lower ''suggestErr'' = ''suggesterr''" "to_lower ''suggestPending'' = ''suggestpending''"
  "to_lower ''suggestions'' = ''suggestions''" "to_lower ''attempt'' = ''attempt''"
  "to_lower ''error'' = ''error''" "to_lower ''operation'' = ''operation''" "to_lower ''status'' = ''status''"
  "to_lower ''partial'' = ''partial''" "to_lower ''toastType'' = ''toasttype''" "to_lower ''message'' = ''message''"
  "to_lower ''count'' = ''count''"
  by code_simp+

lemma wf_json_strs [simp]: "wf_json (json_strs ss)"
  by (simp add: json_strs_def list_all_iff split: option.splits)

lemma dec_json_strs: "dec_str_list None (json_strs ss) = Some ss"
  by (cases ss) (simp_all add: json_strs_def list_all_iff comp_def)

lemma decode_suggest_result:
  "decode_job (suggest_result ss err) = Some \<lparr>jb_type = job_type_suggest_result, jb_client = '''',
     jb_payload = Some (JObj [(''suggestErr'', JStr err), (''suggestPending'', JBool False),
       (''suggestions'', json_strs ss)])\<rparr>"
  unfolding suggest_result_def by (subst decode_encode) (simp_all add: raw_json_def)

lemma suggest_result_events:
  "message_events h e now (suggest_result ss err) s =
     [MergeMap [(''suggestions'', json_strs ss), (''suggestErr'', JStr err), (''aiStep'', JInt 3),
        (''aiPending'', JBool False), (''aiPhase'', JStr (if err \<noteq> '''' then ''error'' else ''''))],
      PatchRegion ''#suggestions-region'' (SuggestionsList ss) False,
      if err \<noteq> '''' then emit_toast (''Suggest failed: '' @ err) phase_error
      else emit_toast (''Got '' @ nat_str (length (case ss of None \<Rightarrow> [] | Some xs \<Rightarrow> xs)) @ '' suggestions'')
        retry_status_success]"
  by (simp add: message_events_def dispatch_stream_message_def decode_suggest_result stream_suggest_result_def
    decode_payload_def decode_field_Cons dec_json_strs write_events_def job_type_suggest_result_def
    job_type_toast_def Let_def)

lemma wf_retry_payload [simp]: "wf_json (retry_payload op n err)"
  using wf_JInt [of "int n"] by (simp add: retry_payload_def)

lemma decode_retry_payload:
  assumes "int n < 2 ^ 63"
  shows "decode_retry (Some (retry_payload op n err)) = Some \<lparr>rv_operation = op, rv_attempt = int n,
    rv_status = (if err = None then ''success'' else ''attempt''), rv_error = err_msg err,
    rv_raw = marshal (retry_payload op n err)\<rparr>"
  using assms by (simp add: decode_retry_def retry_payload_def decode_payload_def decode_field_Cons raw_json_def)

lemma retry_event_events:
  assumes "int n < 2 ^ 63" and "is_suggest_op op"
  shows "\<exists>m kind. message_events h e now (retry_event cid op n err) s =
    [MergeMap [(''lastRetry'', JStr (marshal (retry_payload op n err))), (''lastRetryOperation'', JStr op),
       (''lastRetryStatus'', JStr (if err = None then ''success'' else ''attempt'')),
       (''lastRetryAttempt'', JInt (int n)), (''aiStep'', JInt (if err = None then 3 else 2)),
       (''aiPending'', JBool (err \<noteq> None))], emit_toast m kind]"
proof -
  have dec: "decode_job (retry_event cid op n err) =
      Some \<lparr>jb_type = ''retry'', jb_client = cid, jb_payload = Some (retry_payload op n err)\<rparr>" for err
    unfolding retry_event_def by (subst decode_encode) (simp_all add: raw_json_def)
  show ?thesis
    using assms(2)
    by (cases err) (simp_all add: message_events_def dispatch_stream_message_def dec stream_retry_def
      decode_retry_payload [OF assms(1)] write_events_def job_type_toast_def retry_signal_fields_def
      retry_status_success_def Let_def case_prod_unfold emit_toast_def)
qed

subsection \<open>The suggest job seen by its client\<close>

definition suggest_text :: "'w ask \<Rightarrow> bool \<Rightarrow> string \<Rightarrow> 'w \<Rightarrow> string list option \<times> string" where
  "suggest_text ask sim partial w = (case snd (ask sim partial w) of
     Inl err \<Rightarrow> (Some [], ''AI suggest failed: '' @ error_text err) | Inr ss \<Rightarrow> (ss, ''''))"

definition suggest_error :: "'w ask \<Rightarrow> bool \<Rightarrow> string \<Rightarrow> 'w \<Rightarrow> go_error option" where
  "suggest_error ask sim partial w = (case snd (ask sim partial w) of Inl err \<Rightarrow> Some err | Inr _ \<Rightarrow> None)"

definition suggest_job_type :: "bool \<Rightarrow> string" where
  "suggest_job_type sim = (if sim then ''suggest_simulated'' else ''suggest'')"

lemma suggest_job_pushes:
  assumes "jb_payload j = Some (JObj [(''partial'', JStr partial)])" and "jb_client j = cid" and "cid \<noteq> ''''"
    and "jb_type j = suggest_job_type sim"
    and "if sim then simulated_llm_enabled h else llm_enabled h"
  shows "pushes cid c 1 (handle_suggest_job h ask ord j) (\<lambda>w. fst (ask sim partial w))
    (\<lambda>w. [case suggest_text ask sim partial w of (ss, err) \<Rightarrow> suggest_result ss err])
    (suggest_error ask sim partial)"
  using assms
  by (auto simp: pushes_def handle_suggest_job_def decode_payload_def decode_field_Cons Let_def deliver_result_def
    send_connected suggest_text_def suggest_error_def suggest_job_type_def split: prod.splits sum.splits)

text \<open>The browser's view after one attempt of a suggest job.\<close>

lemma attempt_signals:
  assumes "int n < 2 ^ 63" and "is_suggest_op op"
  shows "browser_signals tm (message_events h e now (suggest_result ss err) s @
      message_events h e now (retry_event cid op n er) s) m = m' \<Longrightarrow>
    m' ''aiPending'' = Some (JBool (er \<noteq> None)) \<and> m' ''suggestErr'' = Some (JStr err) \<and>
    m' ''aiStep'' = Some (JInt (if er = None then 3 else 2)) \<and>
    m' ''suggestions'' = (case ss of None \<Rightarrow> None | Some xs \<Rightarrow> Some (JArr (map JStr xs)))"
proof -
  assume m': "browser_signals tm (message_events h e now (suggest_result ss err) s @
      message_events h e now (retry_event cid op n er) s) m = m'"
  from retry_event_events [OF assms, of h e now cid er s]
  obtain t kind where r: "message_events h e now (retry_event cid op n er) s =
    [MergeMap [(''lastRetry'', JStr (marshal (retry_payload op n er))), (''lastRetryOperation'', JStr op),
       (''lastRetryStatus'', JStr (if er = None then ''success'' else ''attempt'')),
       (''lastRetryAttempt'', JInt (int n)), (''aiStep'', JInt (if er = None then 3 else 2)),
       (''aiPending'', JBool (er \<noteq> None))], emit_toast t kind]"
    by (elim exE)
  show ?thesis
    unfolding m' [symmetric] r suggest_result_events
    by (cases ss) (simp_all add: browser_signals_def merge_fields_def emit_toast_def json_strs_def)
qed

definition shown_by ::
  "('s, 'js) todo_handler \<Rightarrow> event \<Rightarrow> int \<Rightarrow> (int \<Rightarrow> string) \<Rightarrow> 's \<Rightarrow> bytes list \<Rightarrow> (string \<rightharpoonup> jval) \<Rightarrow> string \<rightharpoonup> jval" where
  "shown_by h e now tm s msgs m = browser_signals tm (concat (map (\<lambda>msg. message_events h e now msg s) msgs)) m"

lemma shown_by_append: "shown_by h e now tm s (xs @ ys) m = shown_by h e now tm s ys (shown_by h e now tm s xs m)"
  by (simp add: shown_by_def browser_signals_def)

text \<open>C23: A stream opened without a session is not scoped: with the PocketBase strategy the first event
  carries the todos of every user, as many as are stored.\<close>
theorem anonymous_stream_shows_everyone:
  assumes "th_store h = pb_ops" and "pb_inv (fst sh)" and "ev_auth (app_auth h rq) = None"
    and "open_stream h uuid rq k c cuids cids bids sh = (sh', evs, ok)" and "0 < k"
  shows "\<exists>ts sg. evs = [MergeStruct sg] \<and> sg_todos sg = Some ts \<and>
    mset ts = mset (map from_record (pb_rows (fst sh)))"
proof -
  have owner: "owner_of (app_auth h rq) = ''''" using assms(3) by (simp add: owner_of_def)
  from pb_find_list [OF assms(2), of "''pbstore: list''" "list_filter '''' ''all''" "''-created''"]
  obtain rs where rs: "find_list ''pbstore: list'' (list_filter '''' ''all'') ''-created'' (fst sh) = Inr rs"
    "mset rs = mset (filter (matches (list_filter '''' ''all'')) (pb_rows (fst sh)))" by blast
  have "matches (list_filter '''' ''all'') r" for r
    by (simp add: list_filter_def matches_def)
  then have "mset rs = mset (pb_rows (fst sh))" using rs(2) by simp
  moreover have "list_todos h (app_auth h rq) ''all'' (fst sh) = (fst sh, Inr (map from_record rs))"
    using assms(1) owner rs(1) by (simp add: list_todos_def pb_list_def)
  ultimately show ?thesis
    using assms(4,5) by (auto simp: open_stream_def Let_def initial_signals_def)
qed

theorem anonymous_stream_shows_everyone_witness:
  "\<exists>ts. length ts = 2 \<and> (\<exists>sg. fst (snd (open_stream demo_handler ''u'' ((demo_request '''' '''' '''')\<lparr>rq_cookies := Map.empty\<rparr>) 1 0
     [] [] [] (mem_store demo_rows, new_hub []))) = [MergeStruct sg] \<and> sg_todos sg = Some ts)"
proof -
  let ?rq = "(demo_request '''' '''' '''')\<lparr>rq_cookies := Map.empty\<rparr>"
  have "ev_auth (app_auth demo_handler ?rq) = None"
    by (simp add: app_auth_def load_app_auth_def request_token_def fresh_event_def)
  moreover have "pb_inv (fst (mem_store demo_rows, new_hub [] :: bytes hub))" using demo_inv by (simp add: demo_world_def)
  ultimately obtain ts sg where "fst (snd (open_stream demo_handler ''u'' ?rq 1 0 [] [] [] (mem_store demo_rows, new_hub []))) =
      [MergeStruct sg]" "sg_todos sg = Some ts" "mset ts = mset (map from_record demo_rows)"
    using anonymous_stream_shows_everyone [OF demo_store(1), of "(mem_store demo_rows, new_hub [])" ?rq "''u''" 1 0 "[]" "[]" "[]"]
    by (metis fst_conv mem_store_fields(3) prod.collapse zero_less_one)
  moreover have "length demo_rows = 2" by (simp add: demo_rows_with_def)
  ultimately have "length ts = 2" by (metis length_map mset_eq_length)
  then show ?thesis using \<open>fst _ = _\<close> \<open>sg_todos sg = Some ts\<close> by blast
qed

subsection \<open>The retry demo seen by a client\<close>

definition demo_event :: "nat \<Rightarrow> bytes" where
  "demo_event n = (let err = (if n < 3 then Some (Plain (''simulated transient failure on attempt '' @ nat_str n)) else None)
     in encode_job \<lparr>jb_type = ''retry'', jb_client = '''',
     jb_payload = Some (JObj [(''attempt'', JInt (int n)), (''error'', JStr (err_msg err)),
       (''operation'', JStr ''retry-demo''), (''status'', JStr (if err = None then ''success'' else ''attempt''))])\<rparr>)"

lemma broadcast_keeps:
  assumes "hub_inv hub" and "range_order (clients hub) ids" and "clients hub cid = Some c"
    and "length (ch_q (chans hub c)) < ch_cap (chans hub c)"
  shows "hub_inv (broadcast ids m hub) \<and> clients (broadcast ids m hub) = clients hub \<and>
    ch_cap (chans (broadcast ids m hub) c) = ch_cap (chans hub c) \<and>
    ch_q (chans (broadcast ids m hub) c) = ch_q (chans hub c) @ [m]"
proof -
  have "c \<in> ran (clients hub)" using assms(3) by (auto simp: ran_def)
  then show ?thesis
    using broadcast_queue [OF assms(1,2), of m c] assms(1,4) fan_out_inv [OF assms(1)]
    by (simp add: broadcast_def has_room_def)
qed

lemma demo_attempts:
  assumes "hub_inv hub" and "\<And>hub'. clients hub' = clients hub \<Longrightarrow> range_order (clients hub) (ord hub')"
    and "clients hub cid = Some c" and "length (ch_q (chans hub c)) + k \<le> ch_cap (chans hub c)"
  shows "\<exists>hub'. after_calls (demo_attempt ord) k (0, hub) = (k, hub') \<and> hub_inv hub' \<and> clients hub' = clients hub \<and>
    ch_cap (chans hub' c) = ch_cap (chans hub c) \<and>
    ch_q (chans hub' c) = ch_q (chans hub c) @ map (\<lambda>i. demo_event (Suc i)) [0..<k]"
  using assms(4)
proof (induction k)
  case 0
  then show ?case using assms(1) by simp
next
  case (Suc k)
  then obtain hub' where h: "after_calls (demo_attempt ord) k (0, hub) = (k, hub')" "hub_inv hub'"
      "clients hub' = clients hub" "ch_cap (chans hub' c) = ch_cap (chans hub c)"
      "ch_q (chans hub' c) = ch_q (chans hub c) @ map (\<lambda>i. demo_event (Suc i)) [0..<k]" by auto
  have "range_order (clients hub') (ord hub')" using assms(2) h(3) by simp
  moreover have "length (ch_q (chans hub' c)) < ch_cap (chans hub' c)" using h(4,5) Suc.prems by simp
  ultimately have b: "hub_inv (broadcast (ord hub') m hub') \<and> clients (broadcast (ord hub') m hub') = clients hub' \<and>
      ch_cap (chans (broadcast (ord hub') m hub') c) = ch_cap (chans hub' c) \<and>
      ch_q (chans (broadcast (ord hub') m hub') c) = ch_q (chans hub' c) @ [m]" for m
    using broadcast_keeps [OF h(2)] assms(3) h(3) by simp
  have "after_calls (demo_attempt ord) (Suc k) (0, hub) = (Suc k, broadcast (ord hub') (demo_event (Suc k)) hub')"
    by (simp add: h(1) demo_attempt_def broadcast_retry_feedback_def demo_event_def Let_def)
  with b h(3-5) show ?case by (intro exI [of _ "broadcast (ord hub') (demo_event (Suc k)) hub'"]) simp
qed

text \<open>The retry demo runs as announced: the library calls the operation three times, the first two
  fail, and every connected client with room for four messages receives the three attempts, numbered
  and with their outcome, and then the success toast; the job itself succeeds.\<close>
lemma retry_demo_feedback:
  assumes "retry_contract rd" and "hub_inv hub"
    and "\<And>hub'. clients hub' = clients hub \<Longrightarrow> range_order (clients hub) (ord hub')"
    and "clients hub cid = Some c" and "length (ch_q (chans hub c)) + 4 \<le> ch_cap (chans hub c)"
  shows "\<exists>hub'. handle_retry_demo_job rd delay False ord hub = (hub', None) \<and>
    ch_q (chans hub' c) = ch_q (chans hub c) @ [demo_event 1, demo_event 2, demo_event 3,
      toast_job (''Queue + retry OK '' @ em_dash @ '' 3 attempts'') ''success'']"
proof -
  let ?f = "demo_attempt ord"
  let ?opts = "\<lparr>ro_attempts = 3, ro_cancelled = False, ro_delay_type = delay, ro_retry_if = (\<lambda>_. True)\<rparr>"
  have run: "\<exists>hub'. after_calls ?f k (0, hub) = (k, hub') \<and> hub_inv hub' \<and> clients hub' = clients hub \<and>
    ch_cap (chans hub' c) = ch_cap (chans hub c) \<and>
    ch_q (chans hub' c) = ch_q (chans hub c) @ map (\<lambda>i. demo_event (Suc i)) [0..<k]" if "k \<le> 3" for k
    using demo_attempts [OF assms(2,3,4)] assms(5) that by simp
  have err: "call_error ?f i (0, hub) = None \<longleftrightarrow> 2 \<le> i" if "i < 3" for i
    using run [of i] that by (auto simp: call_error_def demo_attempt_def Let_def split: if_splits)
  from contract_live [OF assms(1), of ?opts ?f "(0, hub)"]
  obtain k where k: "k \<le> 3" "0 < k" "rd ?opts ?f (0, hub) = (after_calls ?f k (0, hub), call_error ?f (k - 1) (0, hub))"
    "\<forall>i. Suc i < k \<longrightarrow> (\<exists>e. call_error ?f i (0, hub) = Some e)"
    "k < 3 \<longrightarrow> call_error ?f (k - 1) (0, hub) = None"
    by (auto split: option.splits)
  have "k = 3"
  proof (rule ccontr)
    assume "k \<noteq> 3"
    then have "call_error ?f (k - 1) (0, hub) = None" using k(1,5) by simp
    moreover have "k - 1 < 3" "\<not> 2 \<le> k - 1" using k(1,2) \<open>k \<noteq> 3\<close> by auto
    ultimately show False using err by blast
  qed
  obtain hub' where h: "after_calls ?f 3 (0, hub) = (3, hub')" "hub_inv hub'" "clients hub' = clients hub"
    "ch_cap (chans hub' c) = ch_cap (chans hub c)"
    "ch_q (chans hub' c) = ch_q (chans hub c) @ map (\<lambda>i. demo_event (Suc i)) [0..<3]"
    using run [of 3] by auto
  have "rd ?opts ?f (0, hub) = ((3, hub'), None)"
    using k(3) h(1) err [of 2] by (simp add: \<open>k = 3\<close>)
  moreover have "map (\<lambda>i. demo_event (Suc i)) [0..<3] = [demo_event 1, demo_event 2, demo_event 3]"
    by (simp add: upt_rec numeral_2_eq_2 numeral_3_eq_3)
  moreover have "ch_q (chans (broadcast (ord hub') m hub') c) = ch_q (chans hub' c) @ [m]" for m
    using broadcast_keeps [OF h(2), of "ord hub'" cid c m] assms(3) [OF h(3)] assms(4,5) h(3-5) by simp
  ultimately show ?thesis using h(5) by (simp add: handle_retry_demo_job_def)
qed

definition demo_hub :: "bytes hub" where
  "demo_hub = register ''t1'' ''ann'' 0 (new_hub [])"

lemma demo_hub_facts: "clients demo_hub ''t1'' = Some 0" "ch_q (chans demo_hub 0) = []" "ch_cap (chans demo_hub 0) = 64"
  by (simp_all add: demo_hub_def register_def Let_def replay_chans new_hub_fields [OF refl]
    DefaultClientQueueSize_def)

lemma retry_demo_feedback_witness:
  "\<exists>hub'. handle_retry_demo_job simple_retry (\<lambda>_. 0) False (\<lambda>_. [''t1'']) demo_hub = (hub', None) \<and>
     length (ch_q (chans hub' 0)) = 4"
proof -
  have "hub_inv demo_hub"
    unfolding demo_hub_def by (rule register_inv [OF new_hub_inv]) (simp add: new_hub_fields [OF refl])
  moreover have "range_order (clients demo_hub) [''t1'']"
    by (auto simp: range_order_def demo_hub_def register_def Let_def new_hub_fields [OF refl])
  moreover have "length (ch_q (chans demo_hub 0)) + 4 \<le> ch_cap (chans demo_hub 0)"
    by (simp add: demo_hub_facts)
  ultimately show ?thesis
    using retry_demo_feedback [OF simple_retry_contract _ _ demo_hub_facts(1), of "\<lambda>_. [''t1'']" "\<lambda>_. 0"]
      demo_hub_facts(2) by fastforce
qed

end
