(* ===== verification/SuggestFlow.thy ===== *)
theory SuggestFlow
  imports TodoStream Llm
begin

text \<open>
  AI suggest from end to end: the worker runs the job with its retries (\<open>Workers\<close>, \<open>Retry\<close>), the job
  asks the LLM client (\<open>Llm\<close>) and sends its results to the client's channel (\<open>Hub\<close>), and the client's
  connection turns the messages into signals (\<open>TodoStream\<close>).
\<close>

text \<open>The message an attempt that starts with the model in the state \<open>w\<close> sends its client: the suggestions,
  or an empty list and the error text.\<close>

definition suggest_message :: "'w ask \<Rightarrow> bool \<Rightarrow> string \<Rightarrow> 'w \<Rightarrow> bytes" where
  "suggest_message ask sim partial w = (case suggest_text ask sim partial w of (ss, err) \<Rightarrow> suggest_result ss err)"

lemma suggest_run:
  fixes rd :: "(nat \<times> 'w \<times> bytes hub) retry_do" and hub :: "bytes hub"
  assumes "retry_contract rd" and "0 < rc_attempts (pl_retry p)" and "int (rc_attempts (pl_retry p)) < 2 ^ 63"
    and "reg_lookup (suggest_job_type sim) (pl_reg p) = handle_suggest_job h ask ord"
    and "if sim then simulated_llm_enabled h else llm_enabled h"
    and "cid \<noteq> ''''" and "clients hub cid = Some c" and "ch_q (chans hub c) = []"
    and "2 * rc_attempts (pl_retry p) \<le> ch_cap (chans hub c)"
  shows "\<exists>k hub'. 1 \<le> k \<and> k \<le> rc_attempts (pl_retry p) \<and>
    process_message rd ovf p \<lparr>msg_id = i, msg_body = encode_job \<lparr>jb_type = suggest_job_type sim, jb_client = cid,
      jb_payload = Some (JObj [(''partial'', JStr partial)])\<rparr>\<rparr> (w, hub) =
      (((\<lambda>w. fst (ask sim partial w)) ^^ k) w, hub') \<and>
    (\<forall>i < k - 1. suggest_error ask sim partial (((\<lambda>w. fst (ask sim partial w)) ^^ i) w) \<noteq> None) \<and>
    ch_q (chans hub' c) = concat (map (\<lambda>i. [suggest_message ask sim partial (((\<lambda>w. fst (ask sim partial w)) ^^ i) w),
      retry_event cid (suggest_job_type sim) (Suc i) (suggest_error ask sim partial (((\<lambda>w. fst (ask sim partial w)) ^^ i) w))]) [0..<k]) \<and>
    (let last = ((\<lambda>w. fst (ask sim partial w)) ^^ (k - 1)) w;
         m' = shown_by h e now tm s (ch_q (chans hub' c)) m
     in m' ''aiPending'' = Some (JBool (suggest_error ask sim partial last \<noteq> None)) \<and>
        m' ''suggestErr'' = Some (JStr (snd (suggest_text ask sim partial last))) \<and>
        m' ''suggestions'' = (case fst (suggest_text ask sim partial last) of
          None \<Rightarrow> None | Some xs \<Rightarrow> Some (JArr (map JStr xs))) \<and>
        (k < rc_attempts (pl_retry p) \<longrightarrow> suggest_error ask sim partial last = None \<or>
           is_auth_error (suggest_error ask sim partial last)))"
proof -
  let ?j = "\<lparr>jb_type = suggest_job_type sim, jb_client = cid, jb_payload = Some (JObj [(''partial'', JStr partial)])\<rparr>"
  let ?g = "\<lambda>w. fst (ask sim partial w)" and ?e = "suggest_error ask sim partial"
  let ?o = "\<lambda>w. [case suggest_text ask sim partial w of (ss, err) \<Rightarrow> suggest_result ss err]"
  have push: "pushes cid c 1 (handle_suggest_job h ask ord ?j) ?g ?o ?e"
    by (rule suggest_job_pushes) (use assms in simp_all)
  have room: "length (ch_q (chans hub c)) + rc_attempts (pl_retry p) * Suc 1 \<le> ch_cap (chans hub c)"
    using assms(8,9) by simp
  have dec: "decode_job (encode_job ?j) = Some ?j"
    by (subst decode_encode) (simp_all add: raw_json_def)
  from retry_do_pushes [OF assms(1,2) push assms(7,6) room, of ovf "suggest_job_type sim" w]
  obtain k hub' where k: "1 \<le> k" "k \<le> rc_attempts (pl_retry p)"
    "retry_do_fn rd ovf (pl_retry p) False True cid (suggest_job_type sim) (handle_suggest_job h ask ord ?j) (w, hub) =
       (((?g ^^ k) w, hub'), ?e ((?g ^^ (k - 1)) w))"
    "\<forall>i < k - 1. ?e ((?g ^^ i) w) \<noteq> None \<and> \<not> is_auth_error (?e ((?g ^^ i) w))"
    "k < rc_attempts (pl_retry p) \<longrightarrow> ?e ((?g ^^ (k - 1)) w) = None \<or> is_auth_error (?e ((?g ^^ (k - 1)) w))"
    "hub' = chan_push c (attempt_outs cid (suggest_job_type sim) ?g ?o ?e w k) hub"
    by (elim exE conjE)
  obtain n where n: "k = Suc n" using k(1) by (cases k) auto
  let ?last = "(?g ^^ n) w"
  have q: "ch_q (chans hub' c) = attempt_outs cid (suggest_job_type sim) ?g ?o ?e w n @
      [case suggest_text ask sim partial ?last of (ss, err) \<Rightarrow> suggest_result ss err,
       retry_event cid (suggest_job_type sim) k (?e ?last)]"
    using assms(8) by (simp add: k(6) n attempt_outs_def)
  have all: "ch_q (chans hub' c) = concat (map (\<lambda>i. [suggest_message ask sim partial ((?g ^^ i) w),
      retry_event cid (suggest_job_type sim) (Suc i) (?e ((?g ^^ i) w))]) [0..<k])"
    using assms(8) by (simp add: k(6) attempt_outs_def suggest_message_def)
  have "int k < 2 ^ 63" using k(2) assms(3) by linarith
  moreover have "is_suggest_op (suggest_job_type sim)"
    by (simp add: suggest_job_type_def is_suggest_op_def signal_job_suggest_def signal_job_suggest_simulated_def)
  ultimately have sig: "browser_signals tm (message_events h e now (suggest_result ss err) s @
      message_events h e now (retry_event cid (suggest_job_type sim) k er) s) m = m' \<Longrightarrow>
    m' ''aiPending'' = Some (JBool (er \<noteq> None)) \<and> m' ''suggestErr'' = Some (JStr err) \<and>
    m' ''aiStep'' = Some (JInt (if er = None then 3 else 2)) \<and>
    m' ''suggestions'' = (case ss of None \<Rightarrow> None | Some xs \<Rightarrow> Some (JArr (map JStr xs)))" for m m' ss err er
    by (rule attempt_signals)
  obtain ss err where t: "suggest_text ask sim partial ?last = (ss, err)" by fastforce
  let ?m = "shown_by h e now tm s (attempt_outs cid (suggest_job_type sim) ?g ?o ?e w n) m"
  have "shown_by h e now tm s (ch_q (chans hub' c)) m =
      browser_signals tm (message_events h e now (suggest_result ss err) s @
        message_events h e now (retry_event cid (suggest_job_type sim) k (?e ?last)) s) ?m"
    by (simp add: q t shown_by_append) (simp add: shown_by_def)
  from sig [OF this [symmetric]] have fin:
    "shown_by h e now tm s (ch_q (chans hub' c)) m ''aiPending'' = Some (JBool (?e ?last \<noteq> None))"
    "shown_by h e now tm s (ch_q (chans hub' c)) m ''suggestErr'' = Some (JStr err)"
    "shown_by h e now tm s (ch_q (chans hub' c)) m ''suggestions'' =
       (case ss of None \<Rightarrow> None | Some xs \<Rightarrow> Some (JArr (map JStr xs)))" by blast+
  have "process_message rd ovf p \<lparr>msg_id = i, msg_body = encode_job ?j\<rparr> (w, hub) = ((?g ^^ k) w, hub')"
    by (simp add: process_message_def dec k(3) assms(4))
  with k(1,2,4,5) fin t n all show ?thesis
    by (intro exI [of _ k] exI [of _ hub']) (simp add: Let_def)
qed

subsection \<open>Properties\<close>

text \<open>C22: What the user sees of an AI suggest job.  Run by the worker against a connected client with room
  in its channel, under any outcome of the model and of the retries, the client is sent two messages for
  each attempt, in order and nothing else: the attempt's result (its suggestions, or its error text) and
  then its retry event.  Once the browser has them all: if the last attempt succeeded, it has its
  suggestions, no error, and the spinner is off; if it failed, it has the error text of that attempt, and
  the spinner stays on although no attempt follows, because the retry event of the last attempt arrives
  after its result.\<close>
theorem suggest_feedback:
  fixes rd :: "(nat \<times> 'w \<times> bytes hub) retry_do" and hub :: "bytes hub"
  assumes "retry_contract rd" and "0 < rc_attempts (pl_retry p)" and "int (rc_attempts (pl_retry p)) < 2 ^ 63"
    and "reg_lookup (suggest_job_type sim) (pl_reg p) = handle_suggest_job h ask ord"
    and "if sim then simulated_llm_enabled h else llm_enabled h"
    and "cid \<noteq> ''''" and "clients hub cid = Some c" and "ch_q (chans hub c) = []"
    and "2 * rc_attempts (pl_retry p) \<le> ch_cap (chans hub c)"
  shows "\<exists>k hub'. 1 \<le> k \<and> k \<le> rc_attempts (pl_retry p) \<and>
    process_message rd ovf p \<lparr>msg_id = i, msg_body = encode_job \<lparr>jb_type = suggest_job_type sim, jb_client = cid,
      jb_payload = Some (JObj [(''partial'', JStr partial)])\<rparr>\<rparr> (w, hub) =
      (((\<lambda>w. fst (ask sim partial w)) ^^ k) w, hub') \<and>
    (\<forall>i < k - 1. suggest_error ask sim partial (((\<lambda>w. fst (ask sim partial w)) ^^ i) w) \<noteq> None) \<and>
    ch_q (chans hub' c) = concat (map (\<lambda>i. [suggest_message ask sim partial (((\<lambda>w. fst (ask sim partial w)) ^^ i) w),
      retry_event cid (suggest_job_type sim) (Suc i) (suggest_error ask sim partial (((\<lambda>w. fst (ask sim partial w)) ^^ i) w))]) [0..<k]) \<and>
    (let last = ((\<lambda>w. fst (ask sim partial w)) ^^ (k - 1)) w;
         m' = shown_by h e now tm s (ch_q (chans hub' c)) m
     in m' ''aiPending'' = Some (JBool (suggest_error ask sim partial last \<noteq> None)) \<and>
        m' ''suggestErr'' = Some (JStr (snd (suggest_text ask sim partial last))) \<and>
        m' ''suggestions'' = (case fst (suggest_text ask sim partial last) of
          None \<Rightarrow> None | Some xs \<Rightarrow> Some (JArr (map JStr xs))) \<and>
        (k < rc_attempts (pl_retry p) \<longrightarrow> suggest_error ask sim partial last = None \<or>
           is_auth_error (suggest_error ask sim partial last)))"
  by (rule suggest_run [OF assms])

text \<open>The simulated client behind the handler's \<open>ask\<close>.\<close>

definition sim_ask ::
  "(nat \<times> (fake_server \<times> string) \<times> bytes hub) retry_do \<Rightarrow> (int \<Rightarrow> int) \<Rightarrow> string \<Rightarrow> fake_server generate \<Rightarrow>
   nat list \<Rightarrow> fake_server ask" where
  "sim_ask rd ovf url gen perm sim partial w = chat_suggest rd ovf (new_simulated url) False gen perm partial w"

definition sim_tasks :: "string list" where
  "sim_tasks = [''Review the pull request'', ''Write the meeting notes'', ''Ping the on-call engineer'']"

lemma sim_ask_run:
  assumes "goai_law gen" and "retry_contract rd" and "partial \<noteq> ''''"
  shows "\<exists>why. sim_ask rd ovf url gen perm sim partial (sim_server n) = (sim_server (Suc n),
    if n = 0 then Inl (Wrapped ''llm: generate'' (APIError 500 why)) else Inr (Some sim_tasks))"
  unfolding sim_ask_def sim_tasks_def by (rule sim_suggest [OF assms])

lemma sim_ask_pow:
  assumes "goai_law gen" and "retry_contract rd" and "partial \<noteq> ''''"
  shows "((\<lambda>w. fst (sim_ask rd ovf url gen perm sim partial w)) ^^ k) (sim_server n) = sim_server (n + k)"
proof (induction k)
  case (Suc k)
  then show ?case using sim_ask_run [OF assms, where ovf = ovf and url = url and perm = perm and sim = sim and n = "n + k"] by auto
qed simp

lemma second_attempt:
  fixes k n :: nat
  assumes "1 \<le> k" and "2 \<le> n" and "\<forall>i < k - 1. error i \<noteq> None"
    and "k < n \<longrightarrow> error (k - 1) = None \<or> stop (error (k - 1))"
    and "error 0 \<noteq> None" and "\<not> stop (error 0)" and "error 1 = None"
  shows "k = 2"
proof (rule ccontr)
  assume "k \<noteq> 2"
  with assms(1) consider "k = 1" | "1 < k - 1" by linarith
  then show False using assms(2-7) by cases auto
qed

text \<open>The keyless demo works as advertised: with the simulated client, a job asked for the first time
  fails once and succeeds on the second attempt, so the worker makes exactly two, and the browser ends
  with the three scripted suggestions, no error and the spinner off.\<close>
lemma simulated_suggest_demo:
  fixes rd :: "(nat \<times> fake_server \<times> bytes hub) retry_do" and hub :: "bytes hub"
  assumes "goai_law gen" and "retry_contract rd" and "retry_contract rd'"
    and "2 \<le> rc_attempts (pl_retry p)" and "int (rc_attempts (pl_retry p)) < 2 ^ 63"
    and "reg_lookup ''suggest_simulated'' (pl_reg p) = handle_suggest_job h (sim_ask rd' ovf' url gen perm) ord"
    and "simulated_llm_enabled h" and "cid \<noteq> ''''" and "clients hub cid = Some c" and "ch_q (chans hub c) = []"
    and "2 * rc_attempts (pl_retry p) \<le> ch_cap (chans hub c)" and "partial \<noteq> ''''"
  shows "\<exists>hub'. process_message rd ovf p \<lparr>msg_id = i, msg_body = encode_job \<lparr>jb_type = ''suggest_simulated'',
      jb_client = cid, jb_payload = Some (JObj [(''partial'', JStr partial)])\<rparr>\<rparr> (sim_server 0, hub) =
      (sim_server 2, hub') \<and>
    (let m' = shown_by h e now tm s (ch_q (chans hub' c)) m
     in m' ''aiPending'' = Some (JBool False) \<and> m' ''suggestErr'' = Some (JStr '''') \<and>
        m' ''suggestions'' = Some (JArr (map JStr sim_tasks)))"
proof -
  let ?ask = "sim_ask rd' ovf' url gen perm"
  let ?g = "\<lambda>w. fst (?ask True partial w)"
  note pow = sim_ask_pow [OF assms(1,3,12), where ovf = ovf' and url = url and perm = perm and sim = True]
  have err: "suggest_error ?ask True partial (sim_server n) = None \<longleftrightarrow> n \<noteq> 0"
    "\<not> is_auth_error (suggest_error ?ask True partial (sim_server n))"
    "n \<noteq> 0 \<Longrightarrow> suggest_text ?ask True partial (sim_server n) = (Some sim_tasks, '''')" for n
    using sim_ask_run [OF assms(1,3,12), where ovf = ovf' and url = url and perm = perm and sim = True and n = n]
    by (cases "n = 0"; auto simp: suggest_error_def suggest_text_def is_auth_error_def)+
  let ?m = "\<lambda>hub' :: bytes hub. shown_by h e now tm s (ch_q (chans hub' c)) m"
  have pos: "0 < rc_attempts (pl_retry p)" using assms(4) by simp
  have look: "reg_lookup (suggest_job_type True) (pl_reg p) = handle_suggest_job h ?ask ord"
    and on: "if True then simulated_llm_enabled h else llm_enabled h"
    using assms(6,7) by (simp_all add: suggest_job_type_def)
  from suggest_run [OF assms(2) pos assms(5) look on assms(8-11), of ovf i partial "sim_server 0" e now tm s m]
  obtain k hub' where k: "1 \<le> k" "k \<le> rc_attempts (pl_retry p)"
    "process_message rd ovf p \<lparr>msg_id = i, msg_body = encode_job \<lparr>jb_type = ''suggest_simulated'',
      jb_client = cid, jb_payload = Some (JObj [(''partial'', JStr partial)])\<rparr>\<rparr> (sim_server 0, hub) =
      ((?g ^^ k) (sim_server 0), hub')"
    "\<forall>i < k - 1. suggest_error ?ask True partial ((?g ^^ i) (sim_server 0)) \<noteq> None"
    and last: "?m hub' ''aiPending'' = Some (JBool (suggest_error ?ask True partial ((?g ^^ (k - 1)) (sim_server 0)) \<noteq> None))"
    "?m hub' ''suggestErr'' = Some (JStr (snd (suggest_text ?ask True partial ((?g ^^ (k - 1)) (sim_server 0)))))"
    "?m hub' ''suggestions'' = (case fst (suggest_text ?ask True partial ((?g ^^ (k - 1)) (sim_server 0))) of
       None \<Rightarrow> None | Some xs \<Rightarrow> Some (JArr (map JStr xs)))"
    "k < rc_attempts (pl_retry p) \<longrightarrow> suggest_error ?ask True partial ((?g ^^ (k - 1)) (sim_server 0)) = None \<or>
       is_auth_error (suggest_error ?ask True partial ((?g ^^ (k - 1)) (sim_server 0)))"
    unfolding suggest_job_type_def Let_def if_True by (elim exE conjE)
  have at01: "(?g ^^ 0) (sim_server 0) = sim_server 0" "(?g ^^ 1) (sim_server 0) = sim_server 1"
    using pow [where k = 1 and n = 0] by simp_all
  have "k = 2"
    using second_attempt [where error = "\<lambda>i. suggest_error ?ask True partial ((?g ^^ i) (sim_server 0))"
        and stop = is_auth_error, OF k(1) assms(4) k(4)] last(4) err(1,2) [of 0] err(1) [of 1]
    unfolding at01 by simp
  then have "k - 1 = 1" by simp
  then have at: "(?g ^^ k) (sim_server 0) = sim_server 2" "(?g ^^ (k - 1)) (sim_server 0) = sim_server 1"
    unfolding \<open>k = 2\<close> using pow [where k = 2 and n = 0] pow [where k = 1 and n = 0] by (simp_all only: add_0)
  show ?thesis
    unfolding Let_def
    using k(3) [unfolded at] last(1-3) [unfolded at] err(1,3) [of 1]
    by (intro exI [of _ hub']) simp
qed

subsection \<open>Witnesses\<close>

definition goai_request :: "string \<Rightarrow> fake_request" where
  "goai_request prompt = \<lparr>fr_authorization = ''Bearer simulated'',
     fr_body = Some (marshal (JObj [(''model'', JStr ''simulated-model''),
       (''messages'', JArr [JObj [(''role'', JStr ''user''), (''content'', JStr prompt)]]),
       (''stream'', JBool False)]))\<rparr>"

definition fake_goai :: "fake_server generate" where
  "fake_goai prompt s = (case fake_handle (goai_request prompt) s of
     (s', y) \<Rightarrow> (s', if fy_status y = 200 then Inr (fs_response s)
       else Inl (APIError (int (fy_status y)) ''api error'')))"

lemma llm_lower_names [simp]:
  "to_lower ''model'' = ''model''" "to_lower ''messages'' = ''messages''" "to_lower ''role'' = ''role''"
  "to_lower ''content'' = ''content''" "to_lower ''stream'' = ''stream''"
  by code_simp+

lemma fake_goai_law: "goai_law fake_goai"
  unfolding goai_law_def
proof (intro allI impI)
  fix prompt and s :: fake_server
  have "decode_request (fr_body (goai_request prompt)) = Some (''simulated-model'', [(''user'', prompt)], False)"
    by (simp add: goai_request_def decode_request_def decode_field_Cons dec_message_def del: marshal.simps)
  moreover have "fst (fake_goai prompt s) = fst (fake_handle (goai_request prompt) s) \<and>
      (if fy_status (snd (fake_handle (goai_request prompt) s)) = 200 then snd (fake_goai prompt s) = Inr (fs_response s)
       else snd (fake_goai prompt s) = Inl (APIError (int (fy_status (snd (fake_handle (goai_request prompt) s)))) ''api error''))"
    by (simp add: fake_goai_def split: prod.splits)
  ultimately show "\<exists>r m ms. decode_request (fr_body r) = Some (m, ms, False) \<and>
      fst (fake_goai prompt s) = fst (fake_handle r s) \<and>
      (if fy_status (snd (fake_handle r s)) = 200 then snd (fake_goai prompt s) = Inr (fs_response s)
       else \<exists>txt. snd (fake_goai prompt s) = Inl (APIError (int (fy_status (snd (fake_handle r s)))) txt))"
    by (intro exI [of _ "goai_request prompt"] exI conjI) (auto split: if_splits)
qed

definition demo_pool :: "('s, 'js) todo_handler \<Rightarrow> fake_server pool" where
  "demo_pool h = \<lparr>pl_reg = \<lparr>reg_handlers = [''suggest_simulated'' \<mapsto>
       handle_suggest_job h (sim_ask simple_retry (\<lambda>x. x) ''http://fake'' fake_goai [0..<24]) (\<lambda>_. [])],
     reg_not_found = (\<lambda>j wh. (wh, None))\<rparr>, pl_retry = default_retry\<rparr>"

lemma demo_pool_facts:
  "reg_lookup ''suggest_simulated'' (pl_reg (demo_pool h)) =
     handle_suggest_job h (sim_ask simple_retry (\<lambda>x. x) ''http://fake'' fake_goai [0..<24]) (\<lambda>_. [])"
  "rc_attempts (pl_retry (demo_pool h)) = 3"
  by (simp_all add: demo_pool_def reg_lookup_def default_retry_def)

lemma simulated_suggest_demo_witness:
  "\<exists>hub'. process_message simple_retry (\<lambda>x. x) (demo_pool (demo_with pb_ops :: (row list pb_store, (string \<times> bytes) list) todo_handler))
      \<lparr>msg_id = 1, msg_body = encode_job \<lparr>jb_type = ''suggest_simulated'', jb_client = ''t1'',
        jb_payload = Some (JObj [(''partial'', JStr ''Plan'')])\<rparr>\<rparr> (sim_server 0, demo_hub) = (sim_server 2, hub')"
proof -
  let ?h = "demo_with pb_ops :: (row list pb_store, (string \<times> bytes) list) todo_handler"
  have "simulated_llm_enabled ?h" by (simp add: simulated_llm_enabled_def demo_with_def)
  note run = simulated_suggest_demo [OF fake_goai_law simple_retry_contract simple_retry_contract _ _
      demo_pool_facts(1) this _ demo_hub_facts(1,2), of "''Plan''" "\<lambda>x. x" 1]
  have "2 \<le> rc_attempts (pl_retry (demo_pool ?h))" "int (rc_attempts (pl_retry (demo_pool ?h))) < 2 ^ 63"
    "2 * rc_attempts (pl_retry (demo_pool ?h)) \<le> ch_cap (chans demo_hub 0)" "''t1'' \<noteq> ''''" "''Plan'' \<noteq> ''''"
    by (simp_all only: demo_pool_facts demo_hub_facts) simp_all
  from run [OF this(1,2,4,3,5)] show ?thesis by blast
qed

theorem suggest_feedback_witness:
  "\<exists>hub'. process_message simple_retry (\<lambda>x. x)
      (demo_pool (demo_with pb_ops :: (row list pb_store, (string \<times> bytes) list) todo_handler))
      \<lparr>msg_id = 1, msg_body = encode_job \<lparr>jb_type = suggest_job_type True, jb_client = ''t1'',
        jb_payload = Some (JObj [(''partial'', JStr '''')])\<rparr>\<rparr> (sim_server 5, demo_hub) = (sim_server 5, hub')"
proof -
  let ?h = "demo_with pb_ops :: (row list pb_store, (string \<times> bytes) list) todo_handler"
  let ?ask = "sim_ask simple_retry (\<lambda>x. x) ''http://fake'' fake_goai [0..<24]"
  have on: "if True then simulated_llm_enabled ?h else llm_enabled ?h"
    by (simp add: simulated_llm_enabled_def demo_with_def)
  have look: "reg_lookup (suggest_job_type True) (pl_reg (demo_pool ?h)) = handle_suggest_job ?h ?ask (\<lambda>_. [])"
    using demo_pool_facts(1) by (simp add: suggest_job_type_def)
  have "((\<lambda>w. fst (?ask True '''' w)) ^^ k) (sim_server 5) = sim_server 5" for k
    by (induction k) (simp_all add: sim_ask_def chat_suggest_def)
  note pow = this
  note run = suggest_feedback [OF simple_retry_contract _ _ look on _ demo_hub_facts(1,2), of "\<lambda>x. x" 1 "''''" "sim_server 5"]
  have "0 < rc_attempts (pl_retry (demo_pool ?h))" "int (rc_attempts (pl_retry (demo_pool ?h))) < 2 ^ 63"
    "2 * rc_attempts (pl_retry (demo_pool ?h)) \<le> ch_cap (chans demo_hub 0)" "''t1'' \<noteq> ''''"
    by (simp_all only: demo_pool_facts demo_hub_facts) simp_all
  from run [OF this(1,2,4,3), of undefined undefined undefined undefined undefined]
  obtain k hub' where "1 \<le> k" "process_message simple_retry (\<lambda>x. x) (demo_pool ?h)
      \<lparr>msg_id = 1, msg_body = encode_job \<lparr>jb_type = suggest_job_type True, jb_client = ''t1'',
        jb_payload = Some (JObj [(''partial'', JStr '''')])\<rparr>\<rparr> (sim_server 5, demo_hub) =
      (((\<lambda>w. fst (?ask True '''' w)) ^^ k) (sim_server 5), hub')"
    by (elim exE conjE)
  then show ?thesis unfolding pow by blast
qed

end
