(* ===== verification/DagNats.thy ===== *)
theory DagNats
  imports Json Retry
begin

text \<open>
  The client of the DagNats workflow engine, \<open>internal/dagnats/dagnats.go\<close>, and the onboarding
  workflow it registers, \<open>workflow.go\<close>.  The HTTP exchange is a parameter: a method, a URL and a body
  go out, a status and a body, or a transport error, come back.
\<close>

datatype http_result = HttpFailed go_error | HttpReply nat bytes

type_synonym 'w http = "string \<Rightarrow> string \<Rightarrow> bytes \<Rightarrow> 'w \<Rightarrow> 'w \<times> http_result"

definition trim_right_slash :: "string \<Rightarrow> string" where
  "trim_right_slash s = rev (dropWhile (\<lambda>c. c = CHR ''/'') (rev s))"

text \<open>The client is its normalised base URL.\<close>

definition new_dag_client :: "string \<Rightarrow> string" where
  "new_dag_client base = trim_right_slash
     (if \<not> has_prefix base ''http://'' \<and> \<not> has_prefix base ''https://'' then ''http://'' @ base else base)"

definition status_error :: "string \<Rightarrow> nat \<Rightarrow> bytes \<Rightarrow> go_error" where
  "status_error what st body = Plain (''dagnats: '' @ what @ '': status '' @ nat_str st @ '': '' @ body)"

definition register_workflow :: "'w http \<Rightarrow> string \<Rightarrow> bytes \<Rightarrow> 'w \<Rightarrow> 'w \<times> go_error option" where
  "register_workflow http c def w = (case http ''POST'' (c @ ''/workflows'') def w of
     (w', HttpFailed e) \<Rightarrow> (w', Some (Wrapped ''dagnats: register workflow'' e))
   | (w', HttpReply st body) \<Rightarrow>
       (w', if st \<noteq> 201 \<and> st \<noteq> 200 then Some (status_error ''register workflow'' st body) else None))"

definition json_failed :: go_error where "json_failed = Plain ''invalid JSON''"

definition start_run :: "'w http \<Rightarrow> string \<Rightarrow> string \<Rightarrow> jval \<Rightarrow> 'w \<Rightarrow> 'w \<times> (go_error + string)" where
  "start_run http c workflow input w =
     (case http ''POST'' (c @ ''/runs'') (marshal (JObj [(''input'', input), (''workflow'', JStr workflow)])) w of
        (w', HttpFailed e) \<Rightarrow> (w', Inl (Wrapped ''dagnats: start run'' e))
      | (w', HttpReply st body) \<Rightarrow>
          (w', if st \<noteq> 201 \<and> st \<noteq> 200 then Inl (status_error ''start run'' st body)
               else case unmarshal body of
                 Some (JObj kvs) \<Rightarrow> (case decode_field dec_str '''' ''run_id'' kvs of
                    None \<Rightarrow> Inl (Wrapped ''dagnats: unmarshal run response'' json_failed)
                  | Some r \<Rightarrow> if r = '''' then Inl (Plain ''dagnats: start run: empty run_id'') else Inr r)
               | Some JNull \<Rightarrow> Inl (Plain ''dagnats: start run: empty run_id'')
               | _ \<Rightarrow> Inl (Wrapped ''dagnats: unmarshal run response'' json_failed)))"

definition signal :: "'w http \<Rightarrow> string \<Rightarrow> string \<Rightarrow> string \<Rightarrow> jval \<Rightarrow> 'w \<Rightarrow> 'w \<times> go_error option" where
  "signal http c run name payload w =
     (case http ''POST'' (c @ ''/runs/'' @ run @ ''/signal/'' @ name) (marshal payload) w of
        (w', HttpFailed e) \<Rightarrow> (w', Some (Wrapped ''dagnats: signal'' e))
      | (w', HttpReply st body) \<Rightarrow>
          (w', if st \<noteq> 200 \<and> st \<noteq> 201 then Some (status_error ''signal'' st body) else None))"

record run_status =
  rs_run_id :: string
  rs_status :: string
  rs_step :: int
  rs_total :: int
  rs_detail :: string

definition decode_run_status :: "jval \<Rightarrow> run_status option" where
  "decode_run_status v = (case v of
     JNull \<Rightarrow> Some \<lparr>rs_run_id = '''', rs_status = '''', rs_step = 0, rs_total = 0, rs_detail = ''''\<rparr>
   | JObj kvs \<Rightarrow>
       (case decode_field dec_str '''' ''run_id'' kvs of None \<Rightarrow> None | Some r \<Rightarrow>
       (case decode_field dec_str '''' ''status'' kvs of None \<Rightarrow> None | Some s \<Rightarrow>
       (case decode_field dec_int 0 ''step'' kvs of None \<Rightarrow> None | Some st \<Rightarrow>
       (case decode_field dec_int 0 ''total'' kvs of None \<Rightarrow> None | Some tot \<Rightarrow>
       (case decode_field dec_str '''' ''detail'' kvs of None \<Rightarrow> None | Some d \<Rightarrow>
         Some \<lparr>rs_run_id = r, rs_status = s, rs_step = st, rs_total = tot, rs_detail = d\<rparr>)))))
   | _ \<Rightarrow> None)"

definition get_run :: "'w http \<Rightarrow> string \<Rightarrow> string \<Rightarrow> 'w \<Rightarrow> 'w \<times> (go_error + run_status)" where
  "get_run http c run w = (case http ''GET'' (c @ ''/runs/'' @ run) '''' w of
     (w', HttpFailed e) \<Rightarrow> (w', Inl (Wrapped ''dagnats: get run'' e))
   | (w', HttpReply st body) \<Rightarrow>
       (w', if st \<noteq> 200 then Inl (status_error ''get run'' st body)
            else case (case unmarshal body of None \<Rightarrow> None | Some v \<Rightarrow> decode_run_status v) of
              None \<Rightarrow> Inl (Wrapped ''dagnats: unmarshal run status'' json_failed)
            | Some s \<Rightarrow> Inr s))"

text \<open>A decoded \<open>map[string]any\<close>: the last occurrence of a key counts, null is the nil map.  The decoder
  reads one value and leaves what follows it.\<close>

definition get_run_raw :: "'w http \<Rightarrow> string \<Rightarrow> string \<Rightarrow> 'w \<Rightarrow> 'w \<times> (go_error + (string \<times> jval) list)" where
  "get_run_raw http c run w = (case http ''GET'' (c @ ''/runs/'' @ run) '''' w of
     (w', HttpFailed e) \<Rightarrow> (w', Inl (Wrapped ''dagnats: get run raw'' e))
   | (w', HttpReply st body) \<Rightarrow>
       (w', if st \<noteq> 200 then Inl (Plain (''dagnats: get run raw: status '' @ nat_str st))
            else case parse_val (Suc (length body)) body of
              Some (JObj kvs, _) \<Rightarrow> Inr kvs
            | Some (JNull, _) \<Rightarrow> Inr []
            | _ \<Rightarrow> Inl (Wrapped ''dagnats: decode run raw'' json_failed)))"

definition any_get :: "(string \<times> jval) list \<Rightarrow> string \<Rightarrow> jval option" where
  "any_get kvs k = map_of (rev kvs) k"

text \<open>The type assertions \<open>v, _ := m[k].(string)\<close> and \<open>.(map[string]any)\<close>.\<close>

definition any_str :: "(string \<times> jval) list \<Rightarrow> string \<Rightarrow> string" where
  "any_str kvs k = (case any_get kvs k of Some (JStr s) \<Rightarrow> s | _ \<Rightarrow> '''')"

definition any_obj :: "(string \<times> jval) list \<Rightarrow> string \<Rightarrow> (string \<times> jval) list" where
  "any_obj kvs k = (case any_get kvs k of Some (JObj m) \<Rightarrow> m | _ \<Rightarrow> [])"

subsection \<open>The onboarding workflow\<close>

definition workflow_step :: "string \<Rightarrow> string \<Rightarrow> string list \<Rightarrow> string option \<Rightarrow> jval" where
  "workflow_step i task deps txt = JObj ([(''id'', JStr i), (''task'', JStr task), (''depends_on'', JArr (map JStr deps))] @
     (case txt of None \<Rightarrow> [] | Some t \<Rightarrow> [(''config'', JObj [(''text'', JStr t)])]))"

definition onboarding_workflow :: jval where
  "onboarding_workflow = JObj [(''name'', JStr ''onboarding''), (''version'', JStr ''1.0''),
     (''steps'', JArr [
       workflow_step ''greet'' ''onboarding-greet'' [] None,
       workflow_step ''await-first-todo'' ''onboarding-await-first-todo'' [''greet''] None,
       workflow_step ''todo-1'' ''onboarding-create-todo'' [''await-first-todo'']
         (Some ''Explore the techstack diagnostics panel''),
       workflow_step ''todo-2'' ''onboarding-create-todo'' [''todo-1'']
         (Some ''Try the Queue + retry demo (simulated LLM)''),
       workflow_step ''todo-3'' ''onboarding-create-todo'' [''todo-2'']
         (Some ''Open the app settings via the gear icon''),
       workflow_step ''finalize'' ''onboarding-finalize'' [''todo-3''] None])]"

subsection \<open>Lemmas\<close>

lemma trim_right_slash_append: "trim_right_slash (s @ ''/'') = trim_right_slash s"
  by (simp add: trim_right_slash_def)

text \<open>Normalising is idempotent: a client can be built from the URL of another.\<close>

lemma new_dag_client_idem:
  assumes "base \<noteq> ''''" and "last base \<noteq> CHR ''/''"
  shows "new_dag_client (new_dag_client base) = new_dag_client base"
proof -
  have keep: "trim_right_slash s = s" if "s \<noteq> ''''" "last s \<noteq> CHR ''/''" for s
    using that by (cases s rule: rev_cases) (simp_all add: trim_right_slash_def)
  have "new_dag_client base = (if \<not> has_prefix base ''http://'' \<and> \<not> has_prefix base ''https://''
      then ''http://'' @ base else base)"
    unfolding new_dag_client_def by (rule keep) (use assms in auto)
  then show ?thesis by (auto simp: new_dag_client_def keep assms)
qed

end
