(* ===== verification/Onboarding.thy ===== *)
theory Onboarding
  imports DagNats TodoStream
begin

text \<open>
  The onboarding flow, \<open>features/todo/handlers/onboarding.go\<close>: the request that starts a run of the
  workflow engine, the polling loop that reports the run's progress to every client, and the resume
  signal sent when somebody creates a todo.  What the code publishes is kept as a list of messages;
  \<open>encode_pub\<close> is their wire form.
\<close>

subsection \<open>Messages\<close>

datatype pub = Progress int int string string | WorkflowUpdate string string

definition encode_pub :: "pub \<Rightarrow> bytes" where
  "encode_pub p = (case p of
     Progress step tot phase detail \<Rightarrow> encode_job \<lparr>jb_type = ''progress'', jb_client = '''',
       jb_payload = Some (JObj [(''detail'', JStr detail), (''phase'', JStr phase), (''step'', JInt step),
         (''total'', JInt tot)])\<rparr>
   | WorkflowUpdate ev title \<Rightarrow> todo_update_job ev ''remote'' '''' title False)"

text \<open>\<open>bc\<close>: there is a broadcaster.\<close>

definition publish_update :: "bool \<Rightarrow> string \<Rightarrow> string \<Rightarrow> pub list" where
  "publish_update bc ev title = (if bc then [WorkflowUpdate ev title] else [])"

definition publish_progress :: "bool \<Rightarrow> int \<Rightarrow> int \<Rightarrow> string \<Rightarrow> string \<Rightarrow> pub list" where
  "publish_progress bc step tot phase detail = (if bc then [Progress step tot phase detail] else [])"

subsection \<open>Where a run is\<close>

definition onboarding_step_order :: "string list" where
  "onboarding_step_order = [''greet'', ''await-first-todo'', ''todo-1'', ''todo-2'', ''todo-3'', ''finalize'']"

definition detail_greet :: string where "detail_greet = ''Greeting user''"
definition detail_wait :: string where "detail_wait = ''Waiting for your next to-do (create one to continue)''"
definition detail_finalize :: string where "detail_finalize = ''Finalizing onboarding''"

definition creating :: "nat \<Rightarrow> string" where
  "creating n = ''Creating example todo '' @ nat_str n @ ''/3''"

definition step_label :: "nat \<Rightarrow> string \<times> string" where
  "step_label cur = (if cur = 1 then (''greet'', detail_greet)
     else if cur = 2 then (''workflow'', detail_wait)
     else if cur \<in> {3, 4, 5} then (''workflow'', creating (cur - 2))
     else (''finalize'', detail_finalize))"

definition step_status :: "(string \<times> jval) list \<Rightarrow> string \<Rightarrow> string" where
  "step_status steps i = any_str (any_obj steps i) ''status''"

definition step_detail :: "(string \<times> jval) list \<Rightarrow> string \<Rightarrow> string" where
  "step_detail steps i = any_str (any_obj steps i) ''detail''"

fun current_from :: "nat \<Rightarrow> string list \<Rightarrow> (string \<times> jval) list \<Rightarrow> nat \<times> string \<times> string" where
  "current_from i [] steps = (1, ''greet'', ''Greeting user'')"
| "current_from i (x # xs) steps =
     (if step_status steps x = ''running'' then (i + 1, step_label (i + 1))
      else if step_status steps x = ''failed'' then (i + 1, ''error'', step_detail steps x)
      else current_from (i + 1) xs steps)"

definition onboarding_current_step :: "(string \<times> jval) list \<Rightarrow> nat \<times> string \<times> string" where
  "onboarding_current_step steps = current_from 0 onboarding_step_order steps"

fun failed_from :: "nat \<Rightarrow> string list \<Rightarrow> (string \<times> jval) list \<Rightarrow> nat \<times> string" where
  "failed_from i [] steps = (1, ''unknown error'')"
| "failed_from i (x # xs) steps =
     (if step_status steps x = ''failed'' then (i + 1, step_detail steps x) else failed_from (i + 1) xs steps)"

definition onboarding_failed_step :: "(string \<times> jval) list \<Rightarrow> nat \<times> string" where
  "onboarding_failed_step steps = failed_from 0 onboarding_step_order steps"

subsection \<open>Polling\<close>

text \<open>What the loop wakes up to: the five-minute limit, or a tick and the engine's answer (\<open>None\<close>: an
  error).  The loop's state is the progress it published last.\<close>

datatype poll = PollTimeout | PollTick "(string \<times> jval) list option"

abbreviation n_steps :: nat where
  "n_steps \<equiv> length onboarding_step_order"

definition step_text :: "nat \<Rightarrow> string \<Rightarrow> string" where
  "step_text s detail = ''Step '' @ nat_str s @ ''/'' @ nat_str n_steps @ '' '' @ em_dash @ '' '' @ detail"

definition catch_up :: "bool \<Rightarrow> nat \<Rightarrow> pub list" where
  "catch_up bc last_step = concat (map (\<lambda>s. publish_progress bc (int s) (int n_steps) (fst (step_label s))
     (step_text s (snd (step_label s)))) [last_step + 1..<n_steps])"

fun poll_run :: "bool \<Rightarrow> nat \<times> string \<times> string \<Rightarrow> poll list \<Rightarrow> pub list \<times> bool" where
  "poll_run bc lst [] = ([], False)"
| "poll_run bc lst (PollTimeout # ps) =
     (publish_progress bc 0 0 ''idle'' ''Onboarding timed out'' @ publish_update bc ''workflow-timeout'' '''', True)"
| "poll_run bc lst (PollTick None # ps) = poll_run bc lst ps"
| "poll_run bc lst (PollTick (Some raw) # ps) =
     (if any_str raw ''status'' = ''completed'' then
        (catch_up bc (fst lst) @
         publish_progress bc (int n_steps) (int n_steps) ''finalize'' (step_text n_steps ''Onboarding complete'') @
         publish_update bc ''workflow-completed'' '''', True)
      else if any_str raw ''status'' = ''failed'' then
        (case onboarding_failed_step (any_obj raw ''steps'') of (cur, detail) \<Rightarrow>
          (publish_progress bc (int cur) (int n_steps) ''error'' (''Onboarding failed: '' @ detail) @
           publish_update bc ''workflow-error'' detail, True))
      else
        (let st = onboarding_current_step (any_obj raw ''steps'') in
         if st = lst then poll_run bc lst ps
         else (case poll_run bc st ps of (out, fin) \<Rightarrow>
           (publish_progress bc (int (fst st)) (int n_steps) (fst (snd st)) (step_text (fst st) (snd (snd st))) @ out,
            fin))))"

subsection \<open>Starting and resuming\<close>

text \<open>The handler's state: the id of the run last started, empty if none.\<close>

definition start_user :: "request \<Rightarrow> event \<Rightarrow> string" where
  "start_user rq e = (if form_value rq ''user'' \<noteq> '''' then form_value rq ''user''
     else case ev_auth e of Some u \<Rightarrow> if us_id u \<noteq> '''' then us_id u else ''friend'' | None \<Rightarrow> ''friend'')"

definition handle_start :: "nat \<Rightarrow> event \<Rightarrow> response" where
  "handle_start k e = (let rq = ev_req e in
     if rq_form rq = None then RText 400 ''invalid form''
     else stream k [MergeMap [(''onboardingStarted'', JBool True), (''onboardingUser'', JStr (start_user rq e))],
       emit_toast (''Onboarding started '' @ em_dash @ '' create a todo to continue'') ''info''])"

text \<open>The goroutine: start the run, remember it, and poll it; \<open>ps\<close> is what the polls will see.\<close>

definition start_goroutine ::
  "'w http \<Rightarrow> string \<Rightarrow> bool \<Rightarrow> string \<Rightarrow> poll list \<Rightarrow> string \<times> 'w \<Rightarrow> (string \<times> 'w) \<times> pub list" where
  "start_goroutine http c bc user ps aw =
     (case start_run http c ''onboarding'' (JObj [(''user'', JStr user)]) (snd aw) of
        (w', Inl e) \<Rightarrow> ((fst aw, w'), publish_update bc ''workflow-error'' (error_text e))
      | (w', Inr run) \<Rightarrow> ((run, w'), fst (poll_run bc (0, '''', '''') ps)))"

definition resume_body :: bytes where
  "resume_body = ''{'' @ [CHR 0x22] @ ''resumed'' @ [CHR 0x22] @ '':true}''"

definition resume_onboarding :: "'w http \<Rightarrow> string \<Rightarrow> bool \<Rightarrow> string \<Rightarrow> string \<times> 'w \<Rightarrow> (string \<times> 'w) \<times> pub list" where
  "resume_onboarding http c bc user aw =
     (if fst aw = '''' then (aw, [])
      else case signal http c (fst aw) ''first-todo'' (json_bytes resume_body) (snd aw) of
        (w', Some e) \<Rightarrow> ((fst aw, w'), publish_update bc ''workflow-error'' (''resume failed: '' @ error_text e))
      | (w', None) \<Rightarrow> ((fst aw, w'), publish_update bc ''workflow-resumed''
          (''First todo captured '' @ em_dash @ '' workflow resuming'')))"

subsection \<open>Lemmas\<close>

lemma publish_lists [simp]:
  "publish_update True ev t = [WorkflowUpdate ev t]" "publish_update False ev t = []"
  "publish_progress True s n p d = [Progress s n p d]" "publish_progress False s n p d = []"
  by (simp_all add: publish_update_def publish_progress_def)

lemma n_steps [simp]: "n_steps = 6"
  by (simp add: onboarding_step_order_def)

lemma publish_length: "length (publish_update bc ev t) \<le> 1" "length (publish_progress bc s n p d) \<le> 1"
  by (cases bc; simp)+

lemma catch_up_length: "length (catch_up bc l) \<le> 5"
proof (cases bc)
  case True
  have "length (concat (map (\<lambda>x. [f x]) xs)) = length xs" for f :: "nat \<Rightarrow> pub" and xs
    by (induction xs) simp_all
  then have "length (catch_up bc l) = length [l + 1..<n_steps]" using True by (simp only: catch_up_def publish_lists)
  also have "\<dots> \<le> 5" by (simp only: length_upt n_steps)
  finally show ?thesis .
next
  case False
  have "concat (map (\<lambda>x. []) xs) = ([] :: pub list)" for xs :: "nat list" by (induction xs) simp_all
  then show ?thesis using False by (simp only: catch_up_def publish_lists) simp
qed

definition is_update :: "pub \<Rightarrow> bool" where
  "is_update p \<longleftrightarrow> (case p of WorkflowUpdate _ _ \<Rightarrow> True | _ \<Rightarrow> False)"

lemma catch_up_progress: "filter is_update (catch_up bc l) = []"
  unfolding catch_up_def by (cases bc) (simp_all add: is_update_def filter_concat comp_def)

lemma poll_run_end:
  assumes "snd (poll_run True lst ps)"
  shows "\<exists>out ev t. fst (poll_run True lst ps) = out @ [WorkflowUpdate ev t] \<and> filter is_update out = [] \<and>
    ev \<in> {''workflow-timeout'', ''workflow-completed'', ''workflow-error''}"
  using assms
proof (induction True lst ps rule: poll_run.induct)
  case (4 lst raw ps)
  let ?st = "onboarding_current_step (any_obj raw ''steps'')"
  consider (completed) "any_str raw ''status'' = ''completed''" | (failed) "any_str raw ''status'' = ''failed''"
    | (same) "any_str raw ''status'' \<noteq> ''completed''" "any_str raw ''status'' \<noteq> ''failed''" "?st = lst"
    | (new) "any_str raw ''status'' \<noteq> ''completed''" "any_str raw ''status'' \<noteq> ''failed''" "?st \<noteq> lst"
    by blast
  then show ?case
  proof cases
    case completed
    then show ?thesis
      by (intro exI [of _ "catch_up True (fst lst) @ [Progress (int n_steps) (int n_steps) ''finalize''
          (step_text n_steps ''Onboarding complete'')]"] exI [of _ "''workflow-completed''"] exI [of _ "''''"])
        (simp add: catch_up_progress is_update_def del: n_steps)
  next
    case failed
    then show ?thesis by (auto simp: is_update_def split: prod.splits)
  next
    case same
    then show ?thesis using 4 by simp
  next
    case new
    from new 4 obtain out ev t where "fst (poll_run True ?st ps) = out @ [WorkflowUpdate ev t]"
      "filter is_update out = []" "ev \<in> {''workflow-timeout'', ''workflow-completed'', ''workflow-error''}"
      by (auto simp: Let_def split: prod.splits)
    then show ?thesis
      using new by (intro exI [of _ "Progress (int (fst ?st)) (int n_steps) (fst (snd ?st))
          (step_text (fst ?st) (snd (snd ?st))) # out"] exI [of _ ev] exI [of _ t])
        (auto simp: Let_def is_update_def split: prod.splits simp del: n_steps)
  qed
qed (auto simp: is_update_def)

lemma poll_run_other:
  assumes "any_str raw ''status'' \<noteq> ''completed''" "any_str raw ''status'' \<noteq> ''failed''"
    and "onboarding_current_step (any_obj raw ''steps'') = st"
  shows "poll_run bc lst (PollTick (Some raw) # ps) = (if st = lst then poll_run bc lst ps
    else (publish_progress bc (int (fst st)) (int n_steps) (fst (snd st)) (step_text (fst st) (snd (snd st))) @
      fst (poll_run bc st ps), snd (poll_run bc st ps)))"
  using assms by (simp add: Let_def case_prod_beta)

lemma poll_run_returns: "PollTimeout \<in> set ps \<Longrightarrow> snd (poll_run bc lst ps)"
proof (induction bc lst ps rule: poll_run.induct)
  case (4 bc lst raw ps)
  let ?st = "onboarding_current_step (any_obj raw ''steps'')"
  show ?case
  proof (cases "any_str raw ''status'' \<in> {''completed'', ''failed''}")
    case True
    then show ?thesis by (auto split: prod.splits)
  next
    case False
    then have "any_str raw ''status'' \<noteq> ''completed''" "any_str raw ''status'' \<noteq> ''failed''" by simp_all
    note step = poll_run_other [OF this refl, of bc lst ps]
    show ?thesis using 4 False unfolding step by (cases "?st = lst") simp_all
  qed
qed simp_all

lemma poll_run_bounded: "length (fst (poll_run bc lst ps)) \<le> length ps + 6"
proof (induction bc lst ps rule: poll_run.induct)
  case (2 bc lst ps)
  then show ?case using publish_length by (cases bc) simp_all
next
  case (4 bc lst raw ps)
  consider (completed) "any_str raw ''status'' = ''completed''" | (failed) "any_str raw ''status'' = ''failed''"
    | (other) "any_str raw ''status'' \<noteq> ''completed''" "any_str raw ''status'' \<noteq> ''failed''" by blast
  then show ?case
  proof cases
    case completed
    then show ?thesis using catch_up_length [of bc "fst lst"] by (cases bc) simp_all
  next
    case failed
    then show ?thesis by (cases bc) (simp_all split: prod.splits)
  next
    case other
    note step = poll_run_other [OF other refl, of bc lst ps]
    let ?st = "onboarding_current_step (any_obj raw ''steps'')"
    have "length (publish_progress bc s n p d) \<le> 1" for s n p d by (rule publish_length(2))
    note le = this [of "int (fst ?st)" "int n_steps" "fst (snd ?st)" "step_text (fst ?st) (snd (snd ?st))"]
    show ?thesis
    proof (cases "?st = lst")
      case True
      then have "length (fst (poll_run bc lst ps)) \<le> length ps + 6" by (intro "4.IH"(1) [OF other refl]) auto
      then show ?thesis using True unfolding step by simp
    next
      case False
      then have "length (fst (poll_run bc ?st ps)) \<le> length ps + 6" by (intro "4.IH"(2) [OF other refl]) auto
      then show ?thesis using False le unfolding step by simp
    qed
  qed
qed simp_all

subsection \<open>Properties\<close>

text \<open>C25: The polling of a run ends: once the five-minute limit is among the things the loop wakes up to it
  returns, whatever the engine answered before, having sent at most one message per wake-up and six
  more.  With a broadcaster the last of these, and no other, is a workflow update; it names one of the
  three ways a run can end (timed out, completed, failed).  Every message before it is a progress message.\<close>
theorem poll_run_terminates:
  assumes "PollTimeout \<in> set ps"
  shows "snd (poll_run bc lst ps) \<and> length (fst (poll_run bc lst ps)) \<le> length ps + 6 \<and>
    (bc \<longrightarrow> (\<exists>out ev t. fst (poll_run bc lst ps) = out @ [WorkflowUpdate ev t] \<and> filter is_update out = [] \<and>
      ev \<in> {''workflow-timeout'', ''workflow-completed'', ''workflow-error''}))"
  using poll_run_returns [OF assms] poll_run_bounded poll_run_end by (metis (full_types))

text \<open>A run as the engine reports it while step \<open>c\<close> is the one in progress.\<close>

definition at_step :: "nat \<Rightarrow> (string \<times> jval) list \<Rightarrow> bool" where
  "at_step c raw \<longleftrightarrow> 1 \<le> c \<and> c \<le> n_steps \<and> any_str raw ''status'' \<notin> {''completed'', ''failed''} \<and>
     (\<forall>j < c - 1. step_status (any_obj raw ''steps'') (onboarding_step_order ! j) \<notin> {''running'', ''failed''}) \<and>
     step_status (any_obj raw ''steps'') (onboarding_step_order ! (c - 1)) = ''running''"

lemma current_from_at:
  "k < length xs \<Longrightarrow> (\<forall>j < k. step_status steps (xs ! j) \<notin> {''running'', ''failed''}) \<Longrightarrow>
   step_status steps (xs ! k) = ''running'' \<Longrightarrow> current_from i xs steps = (i + k + 1, step_label (i + k + 1))"
proof (induction xs arbitrary: i k)
  case (Cons x xs)
  show ?case
  proof (cases k)
    case (Suc m)
    have "step_status steps x \<notin> {''running'', ''failed''}" using Cons.prems(2) Suc by auto
    moreover have "\<forall>j < m. step_status steps (xs ! j) \<notin> {''running'', ''failed''}"
      using Cons.prems(2) Suc by auto
    ultimately show ?thesis using Cons.IH [of m "i + 1"] Cons.prems Suc by simp
  qed (use Cons.prems in simp)
qed simp

lemma at_step_current:
  assumes "at_step c raw"
  shows "onboarding_current_step (any_obj raw ''steps'') = (c, step_label c)"
proof -
  have "1 \<le> c" "c \<le> n_steps" using assms by (simp_all add: at_step_def del: n_steps)
  then have k: "c - 1 < n_steps" and c: "0 + (c - 1) + 1 = c" by (simp_all del: n_steps)
  have "current_from 0 onboarding_step_order (any_obj raw ''steps'') = (0 + (c - 1) + 1, step_label (0 + (c - 1) + 1))"
    using assms by (intro current_from_at [OF k]) (unfold at_step_def, blast+)
  then show ?thesis unfolding c onboarding_current_step_def .
qed

text \<open>The polls of a healthy run, with the steps they find in progress.\<close>

fun healthy :: "poll list \<Rightarrow> nat list \<Rightarrow> bool" where
  "healthy [] cs = (cs = [])"
| "healthy (PollTimeout # ps) cs = False"
| "healthy (PollTick None # ps) cs = healthy ps cs"
| "healthy (PollTick (Some raw) # ps) cs = (case cs of [] \<Rightarrow> False | c # cs' \<Rightarrow> at_step c raw \<and> healthy ps cs')"

fun pub_step :: "pub \<Rightarrow> int" where
  "pub_step (Progress s _ _ _) = s"
| "pub_step (WorkflowUpdate _ _) = 0"

lemma catch_up_steps: "map pub_step (catch_up True l) = map int [l + 1..<n_steps]"
  unfolding catch_up_def by (simp add: map_concat comp_def del: n_steps upt.simps)

lemma poll_run_healthy:
  assumes "healthy ps cs" and "sorted (fst lst # cs)" and "lst = (0, '''', '''') \<or> lst = (fst lst, step_label (fst lst))"
    and "any_str raw ''status'' = ''completed''"
  shows "\<exists>out. poll_run True lst (ps @ [PollTick (Some raw)]) =
      (out @ [Progress (int n_steps) (int n_steps) ''finalize'' (step_text n_steps ''Onboarding complete''),
              WorkflowUpdate ''workflow-completed'' ''''], True) \<and>
    sorted_wrt (<) (map pub_step out) \<and>
    set (map pub_step out) = int ` ((set cs - {fst lst}) \<union> {last (fst lst # cs)<..<n_steps})"
  using assms(1-3)
proof (induction ps cs arbitrary: lst rule: healthy.induct)
  case (1 cs)
  have "sorted_wrt (<) (map int [fst lst + 1..<n_steps])" by (simp add: sorted_wrt_map del: n_steps upt.simps)
  moreover have "set (map pub_step (catch_up True (fst lst))) = int ` {fst lst<..<n_steps}"
    by (auto simp: catch_up_steps simp del: n_steps upt.simps)
  ultimately show ?case using 1 assms(4)
    by (intro exI [of _ "catch_up True (fst lst)"]) (simp add: catch_up_steps del: n_steps upt.simps)
next
  case (4 raw' ps cs)
  obtain c cs' where cs: "cs = c # cs'" "at_step c raw'" "healthy ps cs'"
    using "4.prems"(1) by (cases cs) auto
  note cur = at_step_current [OF cs(2)]
  have c: "1 \<le> c" and run: "any_str raw' ''status'' \<noteq> ''completed''" "any_str raw' ''status'' \<noteq> ''failed''"
    using cs(2) by (simp_all add: at_step_def del: n_steps)
  have le: "fst lst \<le> c" "sorted (c # cs')" using "4.prems"(2) cs(1) by auto
  let ?e = "[Progress (int n_steps) (int n_steps) ''finalize'' (step_text n_steps ''Onboarding complete''),
              WorkflowUpdate ''workflow-completed'' '''']"
  from "4.IH" [OF cs(1) cs(3), of "(c, step_label c)"] le(2)
  obtain out where out: "poll_run True (c, step_label c) (ps @ [PollTick (Some raw)]) = (out @ ?e, True)"
      "sorted_wrt (<) (map pub_step out)"
      "set (map pub_step out) = int ` ((set cs' - {c}) \<union> {last (c # cs')<..<n_steps})"
    by auto
  have ge: "c \<le> last (c # cs')" using le(2) by (cases cs') auto
  show ?case
  proof (cases "(c, step_label c) = lst")
    case True
    then show ?thesis using out cur run cs(1) by (intro exI [of _ out]) (auto simp del: n_steps)
  next
    case False
    then have less: "fst lst < c" using "4.prems"(3) le(1) c by (cases lst) auto
    let ?p = "Progress (int c) (int n_steps) (fst (step_label c)) (step_text c (snd (step_label c)))"
    have run1: "poll_run True lst (PollTick (Some raw') # ps @ [PollTick (Some raw)]) = ((?p # out) @ ?e, True)"
      using out(1) cur run False by (simp add: Let_def del: n_steps)
    have above: "x > int c" if "x \<in> set (map pub_step out)" for x
      using that le(2) ge unfolding out(3) by (auto simp: order_le_less)
    have "set (map pub_step (?p # out)) = int ` ((set cs - {fst lst}) \<union> {last (fst lst # cs)<..<n_steps})"
    proof -
      have "set cs - {fst lst} = insert c (set cs' - {c})" using le less unfolding cs(1) by auto
      moreover have "last (fst lst # cs) = last (c # cs')" using cs(1) by simp
      ultimately show ?thesis using out(3) by (simp del: n_steps insert_Diff_single last.simps)
    qed
    then show ?thesis using run1 out(2) above
      by (intro exI [of _ "?p # out"]) (auto simp del: n_steps)
  qed
qed simp_all

theorem poll_run_terminates_witness:
  "snd (poll_run True (0, '''', '''') [PollTick None, PollTimeout]) \<and>
   length (fst (poll_run True (0, '''', '''') [PollTick None, PollTimeout])) = 2"
  using poll_run_terminates [of "[PollTick None, PollTimeout]" True "(0, '''', '''')"] by simp

lemma healthy_pos: "healthy ps cs \<Longrightarrow> 0 \<notin> set cs"
  by (induction ps cs rule: healthy.induct) (auto simp: at_step_def split: list.splits)

text \<open>What the polls of an unfinished run find in progress, one entry for each answer of the engine.\<close>

fun seen :: "poll list \<Rightarrow> (nat \<times> string \<times> string) list" where
  "seen [] = []"
| "seen (PollTick (Some raw) # ps) = onboarding_current_step (any_obj raw ''steps'') # seen ps"
| "seen (_ # ps) = seen ps"

fun unfinished :: "poll list \<Rightarrow> bool" where
  "unfinished [] = True"
| "unfinished (PollTimeout # ps) = False"
| "unfinished (PollTick None # ps) = unfinished ps"
| "unfinished (PollTick (Some raw) # ps) = (any_str raw ''status'' \<notin> {''completed'', ''failed''} \<and> unfinished ps)"

definition progress_of :: "nat \<times> string \<times> string \<Rightarrow> pub" where
  "progress_of st = Progress (int (fst st)) (int n_steps) (fst (snd st)) (step_text (fst st) (snd (snd st)))"

text \<open>The messages about the steps found: one whenever the step differs from the one published last.\<close>

definition step_messages :: "nat \<times> string \<times> string \<Rightarrow> poll list \<Rightarrow> pub list" where
  "step_messages lst ps = map progress_of (tl (remdups_adj (lst # seen ps))) @ catch_up True (fst (last (lst # seen ps)))"

lemma poll_run_unfinished:
  assumes "unfinished ps" and "any_str raw ''status'' = ''completed''"
  shows "poll_run True lst (ps @ [PollTick (Some raw)]) =
    (step_messages lst ps @ [Progress (int n_steps) (int n_steps) ''finalize'' (step_text n_steps ''Onboarding complete''),
       WorkflowUpdate ''workflow-completed'' ''''], True)"
  using assms(1)
proof (induction ps arbitrary: lst rule: unfinished.induct)
  case (4 raw' ps)
  let ?st = "onboarding_current_step (any_obj raw' ''steps'')"
  have run: "any_str raw' ''status'' \<noteq> ''completed''" "any_str raw' ''status'' \<noteq> ''failed''" using "4.prems" by simp_all
  have IH: "poll_run True ?st (ps @ [PollTick (Some raw)]) =
    (step_messages ?st ps @ [Progress (int n_steps) (int n_steps) ''finalize'' (step_text n_steps ''Onboarding complete''),
       WorkflowUpdate ''workflow-completed'' ''''], True)"
    using 4 by (simp del: n_steps)
  show ?case
  proof (cases "?st = lst")
    case True
    then have "step_messages lst (PollTick (Some raw') # ps) = step_messages lst ps" by (simp add: step_messages_def)
    then show ?thesis
      using True IH by (simp only: append_Cons poll_run_other [OF run refl] simp_thms if_True)
  next
    case False
    then have adj: "remdups_adj (lst # ?st # seen ps) = lst # remdups_adj (?st # seen ps)" by (simp add: eq_commute)
    have "map progress_of (remdups_adj (?st # seen ps)) = progress_of ?st # map progress_of (tl (remdups_adj (?st # seen ps)))"
      by (subst remdups_adj_Cons_alt [symmetric]) (simp only: list.map)
    then have "step_messages lst (PollTick (Some raw') # ps) = progress_of ?st # step_messages ?st ps"
      by (simp only: step_messages_def seen.simps adj list.sel append_Cons last.simps list.distinct if_False)
    then show ?thesis
      using False IH by (simp only: append_Cons poll_run_other [OF run refl] if_False fst_conv snd_conv publish_lists
        append_Nil progress_of_def)
  qed
qed (simp_all add: step_messages_def assms(2) del: n_steps)

text \<open>Nothing is running or has failed: the run is between two of its steps.\<close>

definition between_steps :: "(string \<times> jval) list \<Rightarrow> bool" where
  "between_steps raw \<longleftrightarrow>
     (\<forall>x \<in> set onboarding_step_order. step_status (any_obj raw ''steps'') x \<notin> {''running'', ''failed''})"

lemma between_steps_current:
  "between_steps raw \<Longrightarrow> onboarding_current_step (any_obj raw ''steps'') = (1, ''greet'', detail_greet)"
proof -
  have "(\<forall>x \<in> set xs. step_status steps x \<notin> {''running'', ''failed''}) \<Longrightarrow>
      current_from i xs steps = (1, ''greet'', ''Greeting user'')" for i xs steps
    by (induction xs arbitrary: i) auto
  then show "between_steps raw \<Longrightarrow> onboarding_current_step (any_obj raw ''steps'') = (1, ''greet'', detail_greet)"
    by (simp add: between_steps_def onboarding_current_step_def detail_greet_def)
qed

text \<open>C24: A run that completes, however often it is polled before and whatever polls fail: every client is
  sent, in order, one progress message for each step that a poll found in progress and that is not the one
  sent just before, then one for every step after the last one found (steps can be too short for a poll to
  see), then ``Onboarding complete'' as step 6 of 6, and last that the workflow has completed.  If every
  poll that got an answer found some step running, and the steps ran in order, the progress only moves
  forward: each step found is sent once and the numbers grow.  But a poll that falls between two steps,
  when nothing is running, finds step 1, so the progress jumps back there.\<close>
theorem onboarding_progress_forward:
  assumes "unfinished ps" and "any_str raw ''status'' = ''completed''"
  shows "poll_run True (0, '''', '''') (ps @ [PollTick (Some raw)]) =
      (step_messages (0, '''', '''') ps @ [Progress 6 6 ''finalize'' (step_text 6 ''Onboarding complete''),
         WorkflowUpdate ''workflow-completed'' ''''], True) \<and>
    (\<forall>cs. healthy ps cs \<and> sorted cs \<longrightarrow>
       sorted_wrt (<) (map pub_step (step_messages (0, '''', '''') ps)) \<and>
       set (map pub_step (step_messages (0, '''', '''') ps)) = int ` (set cs \<union> {last (0 # cs)<..<6})) \<and>
    (\<forall>raw'. between_steps raw' \<longrightarrow> onboarding_current_step (any_obj raw' ''steps'') = (1, ''greet'', detail_greet))"
proof -
  let ?lst = "(0, '''', '''') :: nat \<times> string \<times> string"
  note run = poll_run_unfinished [OF assms, of ?lst]
  have forward: "sorted_wrt (<) (map pub_step (step_messages ?lst ps)) \<and>
      set (map pub_step (step_messages ?lst ps)) = int ` (set cs \<union> {last (0 # cs)<..<6})"
    if "healthy ps cs" "sorted cs" for cs
  proof -
    have "sorted (fst ?lst # cs)" using that(2) by simp
    from poll_run_healthy [OF that(1) this _ assms(2)] obtain out where
      "step_messages ?lst ps = out" "sorted_wrt (<) (map pub_step out)"
      "set (map pub_step out) = int ` ((set cs - {0}) \<union> {last (0 # cs)<..<n_steps})"
      unfolding run by auto
    then show ?thesis using healthy_pos [OF that(1)] by simp
  qed
  show ?thesis
  proof (intro conjI allI impI)
    show "poll_run True ?lst (ps @ [PollTick (Some raw)]) =
        (step_messages ?lst ps @ [Progress 6 6 ''finalize'' (step_text 6 ''Onboarding complete''),
           WorkflowUpdate ''workflow-completed'' ''''], True)"
      using run by simp
  qed (use forward between_steps_current in blast)+
qed

definition demo_run :: "string \<Rightarrow> string \<Rightarrow> (string \<times> jval) list" where
  "demo_run overall step = [(''status'', JStr overall), (''steps'', JObj [(step, JObj [(''status'', JStr ''running'')])])]"

lemma demo_healthy:
  "healthy [PollTick (Some (demo_run ''running'' ''greet'')), PollTick None,
    PollTick (Some (demo_run ''waiting'' ''await-first-todo''))] [1, 2]"
  by (simp add: at_step_def demo_run_def any_str_def any_obj_def any_get_def step_status_def onboarding_step_order_def)

theorem onboarding_progress_forward_witness:
  "\<exists>out. poll_run True (0, '''', '''') ([PollTick (Some (demo_run ''running'' ''greet'')), PollTick None,
       PollTick (Some (demo_run ''waiting'' ''await-first-todo''))] @ [PollTick (Some (demo_run ''completed'' ''''))]) =
      (out @ [Progress 6 6 ''finalize'' (step_text 6 ''Onboarding complete''),
              WorkflowUpdate ''workflow-completed'' ''''], True) \<and>
    sorted_wrt (<) (map pub_step out) \<and> set (map pub_step out) = int ` ({1, 2} \<union> {2<..<6})"
proof -
  let ?ps = "[PollTick (Some (demo_run ''running'' ''greet'')), PollTick None,
    PollTick (Some (demo_run ''waiting'' ''await-first-todo''))]"
  have c: "any_str (demo_run ''completed'' '''') ''status'' = ''completed''"
    and u: "unfinished ?ps"
    by (simp_all add: demo_run_def any_str_def any_get_def)
  have order: "sorted [1 :: nat, 2]" by simp
  note run = onboarding_progress_forward [OF u c]
  note steps = conjunct1 [OF conjunct2 [OF run], rule_format, OF conjI [OF demo_healthy order]]
  have ends: "set [1 :: nat, 2] = {1, 2}" "last (0 # [1 :: nat, 2]) = 2" by auto
  show ?thesis
    by (rule exI [of _ "step_messages (0, '''', '''') ?ps"]) (intro conjI conjunct1 [OF run] steps [unfolded ends, THEN conjunct1]
      steps [unfolded ends, THEN conjunct2])
qed

text \<open>Between two steps nothing is running, and the stepper shows step 1 again.\<close>

lemma between_steps_regresses:
  "fst (poll_run True (0, '''', '''') [PollTick (Some (demo_run ''running'' ''todo-2'')),
     PollTick (Some [(''status'', JStr ''running''), (''steps'', JObj [(''todo-2'', JObj [(''status'', JStr ''completed'')])])]),
     PollTick (Some (demo_run ''running'' ''todo-3''))]) =
   [Progress 4 6 ''workflow'' (step_text 4 (creating 2)), Progress 1 6 ''greet'' (step_text 1 ''Greeting user''),
    Progress 5 6 ''workflow'' (step_text 5 (creating 3))]"
  by (simp add: demo_run_def any_str_def any_obj_def any_get_def step_status_def onboarding_current_step_def
      onboarding_step_order_def step_label_def detail_greet_def Let_def) (simp add: numeral_eq_Suc)

text \<open>The payload of a signal goes through \<open>json.Marshal\<close> once as an object and once more as a \<open>[]byte\<close>:
  what the engine receives is a string in base 64, not the object.\<close>

lemma resume_payload: "json_bytes resume_body = JStr ''eyJyZXN1bWVkIjp0cnVlfQ==''"
  unfolding json_bytes_def resume_body_def by (simp add: b64_char_def Let_def char_of_eq_iff take_bit_nat_def)

end
