(* ===== verification/Realtime.thy ===== *)
theory Realtime
  imports Onboarding "HOL-Library.List_Lexorder" "HOL-Library.Char_ord" "HOL-Library.Sublist"
begin

text \<open>
  The realtime broadcasters of \<open>internal/nats/realtime.go\<close> and \<open>inmemory.go\<close>: publishing a message
  either straight to the hub of the process or to a JetStream stream, from which the subscription of a
  process re-emits it to its hub.  JetStream is the parameter \<open>todo_stream_api\<close>, calls on a state
  \<open>'js\<close> that the processes share.
\<close>

subsection \<open>JetStream\<close>

record 'js todo_stream_api =
  ts_add :: "string \<Rightarrow> string list \<Rightarrow> 'js \<Rightarrow> 'js \<times> string option"
  ts_pub :: "string \<Rightarrow> bytes \<Rightarrow> 'js \<Rightarrow> 'js \<times> go_error option"
  ts_sub :: "string \<Rightarrow> string \<Rightarrow> 'js \<Rightarrow> 'js \<times> (go_error + nat)"
  ts_unsub :: "nat \<Rightarrow> 'js \<Rightarrow> 'js"
  ts_next :: "nat \<Rightarrow> 'js \<Rightarrow> ('js \<times> bytes) option"

definition todo_stream_name :: string where "todo_stream_name = ''TODOS''"
definition todo_subject :: string where "todo_subject = ''todos.update''"
definition todo_durable :: string where "todo_durable = ''gogogo-fullstack-template-todos''"

text \<open>
  What the code relies on, for the messages \<open>view js s\<close> that subscription \<open>s\<close> has still to take
  (\<open>None\<close>: there is no such subscription): a publish that succeeds gives the message to every
  subscription, behind those it has still to take; a subscription takes its messages in order, each once;
  a durable consumer has one subscription at a time, a second one is refused; and a new subscription may
  find any messages waiting.  That each is taken once holds as long as the callback's acknowledgement
  reaches the server within its ack wait (30 seconds by default): the laws leave out the redelivery of a
  message whose acknowledgement is late or lost.
\<close>

definition todo_stream_laws :: "'js todo_stream_api \<Rightarrow> ('js \<Rightarrow> nat \<Rightarrow> bytes list option) \<Rightarrow> bool" where
  "todo_stream_laws api view \<longleftrightarrow>
     (\<forall>js m js' s. ts_pub api todo_subject m js = (js', None) \<longrightarrow>
        view js' s = map_option (\<lambda>ms. ms @ [m]) (view js s)) \<and>
     (\<forall>js m js' e. ts_pub api todo_subject m js = (js', Some e) \<longrightarrow> view js' = view js) \<and>
     (\<forall>js s. view js s = Some [] \<longrightarrow> ts_next api s js = None) \<and>
     (\<forall>js s m r. view js s = Some (m # r) \<longrightarrow>
        (\<exists>js'. ts_next api s js = Some (js', m) \<and> view js' = (view js)(s \<mapsto> r))) \<and>
     (\<forall>js s. view js s \<noteq> None \<longrightarrow>
        (\<exists>js' e. ts_sub api todo_subject todo_durable js = (js', Inl e) \<and> view js' = view js)) \<and>
     (\<forall>js js' s. ts_sub api todo_subject todo_durable js = (js', Inr s) \<longrightarrow>
        (\<exists>ms. view js' = (view js)(s \<mapsto> ms))) \<and>
     (\<forall>js s. view (ts_unsub api s js) = (view js)(s := None)) \<and>
     (\<forall>js. view (fst (ts_add api todo_stream_name [todo_subject] js)) = view js)"

lemma todo_stream_lawsD:
  assumes "todo_stream_laws api view"
  shows "ts_pub api todo_subject m js = (js', None) \<Longrightarrow> view js' s = map_option (\<lambda>ms. ms @ [m]) (view js s)"
    and "ts_pub api todo_subject m js = (js', Some e) \<Longrightarrow> view js' = view js"
    and "view js s = Some [] \<Longrightarrow> ts_next api s js = None"
    and "view js s = Some (m # r) \<Longrightarrow> \<exists>js'. ts_next api s js = Some (js', m) \<and> view js' = (view js)(s \<mapsto> r)"
    and "view js s \<noteq> None \<Longrightarrow> \<exists>js' e. ts_sub api todo_subject todo_durable js = (js', Inl e) \<and> view js' = view js"
    and "ts_sub api todo_subject todo_durable js = (js', Inr s) \<Longrightarrow> \<exists>ms. view js' = (view js)(s \<mapsto> ms)"
    and "view (ts_unsub api s js) = (view js)(s := None)"
    and "view (fst (ts_add api todo_stream_name [todo_subject] js)) = view js"
proof -
  note L = assms [unfolded todo_stream_laws_def]
  from L show "ts_pub api todo_subject m js = (js', None) \<Longrightarrow> view js' s = map_option (\<lambda>ms. ms @ [m]) (view js s)"
    by metis
  from L show "ts_pub api todo_subject m js = (js', Some e) \<Longrightarrow> view js' = view js"
    by blast
  from L show "view js s = Some [] \<Longrightarrow> ts_next api s js = None"
    by blast
  from L show "view js s = Some (m # r) \<Longrightarrow> \<exists>js'. ts_next api s js = Some (js', m) \<and> view js' = (view js)(s \<mapsto> r)"
    by blast
  from L show "view js s \<noteq> None \<Longrightarrow> \<exists>js' e. ts_sub api todo_subject todo_durable js = (js', Inl e) \<and> view js' = view js"
    by blast
  from L show "ts_sub api todo_subject todo_durable js = (js', Inr s) \<Longrightarrow> \<exists>ms. view js' = (view js)(s \<mapsto> ms)"
    by blast
  from L show "view (ts_unsub api s js) = (view js)(s := None)"
    by blast
  from L show "view (fst (ts_add api todo_stream_name [todo_subject] js)) = view js"
    by blast
qed

subsection \<open>The broadcasters\<close>

record js_broadcaster =
  jb_sub :: "nat option"
  jb_closed :: bool

datatype broadcaster = InMemory | JetStream js_broadcaster

text \<open>
  The subscription's callback, on the hub it was given; \<open>None\<close> is a run-time panic, here from slicing
  \<open>data[1:idx]\<close> with \<open>idx < 1\<close>.  \<open>ord\<close> gives an iteration order of a hub's client map.
\<close>

definition on_todo_update :: "(bytes hub \<Rightarrow> string list) \<Rightarrow> bytes \<Rightarrow> bytes hub \<Rightarrow> bytes hub option" where
  "on_todo_update ord msg hub =
     (let plain = Some (broadcast (ord hub) msg hub) in
      if 0 < length msg \<and> hd msg = CHR 0x00 then
        (case index_byte (CHR 0x00) msg of
           None \<Rightarrow> plain
         | Some i \<Rightarrow>
             if i + 1 < length msg \<and> msg ! (i + 1) = CHR 0x00 then
               (if i < 1 then None
                else let origin = drop 1 (take i msg); rest = drop (i + 2) msg in
                     if origin \<noteq> '''' then Some (broadcast_except (ord hub) rest origin hub) else plain)
             else plain)
      else plain)"

definition subscribe_todos :: "'js todo_stream_api \<Rightarrow> js_broadcaster \<Rightarrow> 'js \<Rightarrow> 'js \<times> js_broadcaster" where
  "subscribe_todos api b js =
     (if jb_closed b \<or> jb_sub b \<noteq> None then (js, b)
      else case ts_sub api todo_subject todo_durable js of
        (js', Inl e) \<Rightarrow> (js', b)
      | (js', Inr s) \<Rightarrow> (js', b\<lparr>jb_sub := Some s\<rparr>))"

definition new_js_broadcaster :: "'js todo_stream_api \<Rightarrow> 'js \<Rightarrow> 'js \<times> js_broadcaster option" where
  "new_js_broadcaster api js = (case ts_add api todo_stream_name [todo_subject] js of
     (js', err) \<Rightarrow>
       if err \<noteq> None \<and> err \<noteq> Some ''stream already exists'' then (js', None)
       else (case subscribe_todos api \<lparr>jb_sub = None, jb_closed = False\<rparr> js' of (js2, b) \<Rightarrow> (js2, Some b)))"

definition new_todo_broadcaster :: "'js todo_stream_api option \<Rightarrow> 'js \<Rightarrow> 'js \<times> broadcaster" where
  "new_todo_broadcaster conn js = (case conn of
     None \<Rightarrow> (js, InMemory)
   | Some api \<Rightarrow> (case new_js_broadcaster api js of
       (js', None) \<Rightarrow> (js', InMemory)
     | (js', Some b) \<Rightarrow> (js', JetStream b)))"

text \<open>\<open>Subscribe\<close> of either broadcaster, and the wiring, which subscribes once more.\<close>

definition subscribe_any :: "'js todo_stream_api option \<Rightarrow> broadcaster \<Rightarrow> 'js \<Rightarrow> 'js \<times> broadcaster" where
  "subscribe_any conn b js = (case (conn, b) of
     (Some api, JetStream jb) \<Rightarrow> (case subscribe_todos api jb js of (js', jb') \<Rightarrow> (js', JetStream jb'))
   | _ \<Rightarrow> (js, b))"

definition wire_broadcaster :: "'js todo_stream_api option \<Rightarrow> 'js \<Rightarrow> 'js \<times> broadcaster" where
  "wire_broadcaster conn js = (case new_todo_broadcaster conn js of (js', b) \<Rightarrow> subscribe_any conn b js')"

definition close_broadcaster :: "'js todo_stream_api \<Rightarrow> js_broadcaster \<Rightarrow> 'js \<Rightarrow> 'js \<times> js_broadcaster" where
  "close_broadcaster api b js =
     (if jb_closed b then (js, b)
      else case jb_sub b of
        None \<Rightarrow> (js, b\<lparr>jb_closed := True\<rparr>)
      | Some s \<Rightarrow> (ts_unsub api s js, b\<lparr>jb_closed := True, jb_sub := None\<rparr>))"

definition publish_in_memory :: "(bytes hub \<Rightarrow> string list) \<Rightarrow> bytes \<Rightarrow> bytes hub \<Rightarrow> bytes hub \<times> go_error option" where
  "publish_in_memory ord m hub = (broadcast (ord hub) m hub, None)"

definition publish_jetstream :: "'js todo_stream_api \<Rightarrow> bytes \<Rightarrow> 'js \<times> bytes hub \<Rightarrow> ('js \<times> bytes hub) \<times> go_error option" where
  "publish_jetstream api m jh = (case ts_pub api todo_subject m (fst jh) of (js', e) \<Rightarrow> ((js', snd jh), e))"

text \<open>The subscription of a process takes its next message, if there is one; \<open>None\<close> is a panic.\<close>

definition take_next ::
  "'js todo_stream_api \<Rightarrow> (bytes hub \<Rightarrow> string list) \<Rightarrow> js_broadcaster \<Rightarrow> 'js \<times> bytes hub \<Rightarrow> ('js \<times> bytes hub) option" where
  "take_next api ord b jh = (case jb_sub b of
     None \<Rightarrow> Some jh
   | Some s \<Rightarrow> (case ts_next api s (fst jh) of
       None \<Rightarrow> Some jh
     | Some (js', m) \<Rightarrow> map_option (\<lambda>hub. (js', hub)) (on_todo_update ord m (snd jh))))"

lemma on_todo_update_eq:
  "on_todo_update ord m hub =
     (if has_prefix m [CHR 0x00, CHR 0x00] then None else Some (broadcast (ord hub) m hub))"
proof (cases m)
  case (Cons x xs)
  then show ?thesis by (cases xs) (simp_all add: on_todo_update_def Let_def)
qed (simp add: on_todo_update_def Let_def)

subsection \<open>What a broadcaster promises\<close>

text \<open>
  The contract of \<open>TodoBroadcaster\<close>: a client that is connected and keeps room gets every message whose
  publish succeeded, once and in order.  \<open>shown s c\<close> is what channel \<open>c\<close> has received and what is on its
  way to it, \<open>queue s c\<close> what it has received, \<open>room\<close> what fits beyond \<open>shown\<close>; \<open>settle\<close> is one step of the
  transport and \<open>backlog\<close> how many steps it needs.
\<close>

definition plain_msg :: "bytes \<Rightarrow> bool" where
  "plain_msg m \<longleftrightarrow> \<not> has_prefix m [CHR 0x00, CHR 0x00]"

datatype action = Publish bytes | Settle

fun run_actions :: "(bytes \<Rightarrow> 's \<Rightarrow> 's \<times> go_error option) \<Rightarrow> ('s \<Rightarrow> 's) \<Rightarrow> action list \<Rightarrow> 's \<Rightarrow> 's \<times> bytes list" where
  "run_actions pub settle [] s = (s, [])"
| "run_actions pub settle (Settle # as) s = run_actions pub settle as (settle s)"
| "run_actions pub settle (Publish m # as) s = (case pub m s of (s1, e) \<Rightarrow>
     (case run_actions pub settle as s1 of (s2, ms) \<Rightarrow> (s2, if e = None then m # ms else ms)))"

fun published_by :: "action list \<Rightarrow> bytes list" where
  "published_by [] = []"
| "published_by (Publish m # as) = m # published_by as"
| "published_by (Settle # as) = published_by as"

locale todo_broadcaster =
  fixes good :: "'s \<Rightarrow> bool" and pub :: "bytes \<Rightarrow> 's \<Rightarrow> 's \<times> go_error option" and settle :: "'s \<Rightarrow> 's"
    and connected :: "'s \<Rightarrow> nat \<Rightarrow> bool" and room :: "'s \<Rightarrow> nat \<Rightarrow> int" and shown :: "'s \<Rightarrow> nat \<Rightarrow> bytes list"
    and queue :: "'s \<Rightarrow> nat \<Rightarrow> bytes list" and backlog :: "'s \<Rightarrow> nat"
  assumes pub_ok: "good s \<Longrightarrow> plain_msg m \<Longrightarrow> pub m s = (s', None) \<Longrightarrow> connected s c \<Longrightarrow> 0 < room s c \<Longrightarrow>
      connected s' c \<and> room s' c = room s c - 1 \<and> shown s' c = shown s c @ [m]"
    and pub_failed: "good s \<Longrightarrow> pub m s = (s', Some e) \<Longrightarrow> connected s c \<Longrightarrow>
      connected s' c \<and> room s' c = room s c \<and> shown s' c = shown s c"
    and pub_good: "good s \<Longrightarrow> plain_msg m \<Longrightarrow> good (fst (pub m s))"
    and settle_good: "good s \<Longrightarrow> good (settle s)"
    and settle_keeps: "good s \<Longrightarrow> connected s c \<Longrightarrow> 0 \<le> room s c \<Longrightarrow>
      connected (settle s) c \<and> room (settle s) c = room s c \<and> shown (settle s) c = shown s c"
    and settle_backlog: "good s \<Longrightarrow> backlog (settle s) = backlog s - 1"
    and arrived: "good s \<Longrightarrow> backlog s = 0 \<Longrightarrow> queue s c = shown s c"
begin

lemma run_shown:
  assumes "good s" and "connected s c" and "\<And>m. m \<in> set (published_by as) \<Longrightarrow> plain_msg m"
    and "int (length (published_by as)) \<le> room s c"
  shows "\<exists>s' ms. run_actions pub settle as s = (s', ms) \<and> good s' \<and> connected s' c \<and> 0 \<le> room s' c \<and>
    shown s' c = shown s c @ ms"
  using assms
proof (induction as arbitrary: s)
  case (Cons a as)
  show ?case
  proof (cases a)
    case (Publish m)
    obtain s1 e where p: "pub m s = (s1, e)" by fastforce
    have plain: "plain_msg m" and room: "0 < room s c" "int (length (published_by as)) \<le> room s c - 1"
      using Cons.prems Publish by auto
    have g: "good s1" using pub_good [OF Cons.prems(1) plain] p by simp
    have "connected s1 c \<and> room s c - 1 \<le> room s1 c \<and> shown s1 c = shown s c @ (if e = None then [m] else [])"
      using pub_ok [OF Cons.prems(1) plain _ Cons.prems(2) room(1)] pub_failed [OF Cons.prems(1) _ Cons.prems(2)] p
      by (cases e) auto
    moreover from this Cons.IH [OF g] Cons.prems(3) Publish room(2)
    obtain s' ms where "run_actions pub settle as s1 = (s', ms)" "good s'" "connected s' c" "0 \<le> room s' c"
      "shown s' c = shown s1 c @ ms" by force
    ultimately show ?thesis using p Publish by auto
  next
    case Settle
    have "0 \<le> room s c" using Cons.prems(4) by linarith
    with settle_keeps [OF Cons.prems(1,2)] Cons.IH [OF settle_good [OF Cons.prems(1)]] Cons.prems Settle
    show ?thesis by auto
  qed
qed auto

lemma settle_all:
  assumes "good s" and "connected s c" and "0 \<le> room s c" and "backlog s \<le> n"
  shows "good ((settle ^^ n) s) \<and> queue ((settle ^^ n) s) c = shown s c"
  using assms
proof (induction n arbitrary: s)
  case 0
  then show ?case using arrived by simp
next
  case (Suc n)
  have "good ((settle ^^ n) (settle s)) \<and> queue ((settle ^^ n) (settle s)) c = shown (settle s) c"
    using Suc.prems settle_keeps [OF Suc.prems(1-3)] settle_good [OF Suc.prems(1)] settle_backlog [OF Suc.prems(1)]
    by (intro Suc.IH) auto
  then show ?case using settle_keeps [OF Suc.prems(1-3)] by (simp add: funpow_Suc_right del: funpow.simps)
qed

text \<open>Once everything has arrived, the client has exactly what was published successfully.\<close>

lemma run_arrives:
  assumes "good s" and "connected s c" and "\<And>m. m \<in> set (published_by as) \<Longrightarrow> plain_msg m"
    and "int (length (published_by as)) \<le> room s c"
  shows "\<exists>s' ms. run_actions pub settle as s = (s', ms) \<and>
    (\<forall>n \<ge> backlog s'. queue ((settle ^^ n) s') c = shown s c @ ms)"
  using run_shown [OF assms] settle_all by fastforce

end

lemma published_count:
  "run_actions pub settle as s = (s', ms) \<Longrightarrow> (\<And>m s. snd (pub m s) = None) \<Longrightarrow> ms = published_by as"
proof (induction as arbitrary: s s' ms)
  case (Cons a as)
  show ?case
  proof (cases a)
    case (Publish m)
    then show ?thesis using Cons.prems(1) Cons.IH [OF _ Cons.prems(2)] Cons.prems(2) [of m s] by (auto split: prod.splits)
  qed (use Cons in simp)
qed simp

subsection \<open>Both broadcasters keep it\<close>

definition range_orders :: "(bytes hub \<Rightarrow> string list) \<Rightarrow> bool" where
  "range_orders ord \<longleftrightarrow> (\<forall>h. finite (dom (clients h)) \<longrightarrow> range_order (clients h) (ord h))"

definition hub_good :: "(bytes hub \<Rightarrow> string list) \<Rightarrow> bytes hub \<Rightarrow> bool" where
  "hub_good ord h \<longleftrightarrow> range_orders ord \<and> hub_inv h \<and> finite (dom (clients h))"

definition hub_room :: "bytes hub \<Rightarrow> nat \<Rightarrow> int" where
  "hub_room h c = int (ch_cap (chans h c)) - int (length (ch_q (chans h c)))"

definition hub_queue :: "bytes hub \<Rightarrow> nat \<Rightarrow> bytes list" where
  "hub_queue h c = ch_q (chans h c)"

lemma broadcast_good:
  assumes "hub_good ord h"
  shows "hub_good ord (broadcast (ord h) m h)" and "clients (broadcast (ord h) m h) = clients h"
    and "c \<in> ran (clients h) \<Longrightarrow> 0 < hub_room h c \<Longrightarrow> hub_room (broadcast (ord h) m h) c = hub_room h c - 1 \<and>
      hub_queue (broadcast (ord h) m h) c = hub_queue h c @ [m]"
proof -
  have h: "range_order (clients h) (ord h)" "hub_inv h" using assms by (auto simp: hub_good_def range_orders_def)
  show "hub_good ord (broadcast (ord h) m h)" using assms fan_out_inv [OF h(2)] by (simp add: hub_good_def broadcast_def)
  show "clients (broadcast (ord h) m h) = clients h" by (simp add: broadcast_def)
  show "c \<in> ran (clients h) \<Longrightarrow> 0 < hub_room h c \<Longrightarrow> hub_room (broadcast (ord h) m h) c = hub_room h c - 1 \<and>
      hub_queue (broadcast (ord h) m h) c = hub_queue h c @ [m]"
    using broadcast_queue [OF h(2,1), of m c] by (simp add: hub_room_def hub_queue_def broadcast_def has_room_def)
qed

interpretation memory: todo_broadcaster "hub_good ord" "publish_in_memory ord" "\<lambda>h. h" "\<lambda>h c. c \<in> ran (clients h)"
  hub_room hub_queue hub_queue "\<lambda>_. 0" for ord
  by unfold_locales (auto simp: publish_in_memory_def broadcast_good)

definition js_good ::
  "'js todo_stream_api \<Rightarrow> ('js \<Rightarrow> nat \<Rightarrow> bytes list option) \<Rightarrow> (bytes hub \<Rightarrow> string list) \<Rightarrow> nat \<Rightarrow> 'js \<times> bytes hub \<Rightarrow> bool" where
  "js_good api view ord s jh \<longleftrightarrow> todo_stream_laws api view \<and> hub_good ord (snd jh) \<and>
     (\<exists>ms. view (fst jh) s = Some ms \<and> (\<forall>m \<in> set ms. plain_msg m))"

definition js_pending :: "('js \<Rightarrow> nat \<Rightarrow> bytes list option) \<Rightarrow> nat \<Rightarrow> 'js \<times> bytes hub \<Rightarrow> bytes list" where
  "js_pending view s jh = the (view (fst jh) s)"

definition js_settle ::
  "'js todo_stream_api \<Rightarrow> (bytes hub \<Rightarrow> string list) \<Rightarrow> nat \<Rightarrow> 'js \<times> bytes hub \<Rightarrow> 'js \<times> bytes hub" where
  "js_settle api ord s jh = the (take_next api ord \<lparr>jb_sub = Some s, jb_closed = False\<rparr> jh)"

lemma js_settle_cases:
  assumes "js_good api view ord s jh"
  shows "js_good api view ord s (js_settle api ord s jh)"
    and "js_pending view s jh = [] \<Longrightarrow> js_settle api ord s jh = jh"
    and "js_pending view s jh = m # ms \<Longrightarrow> js_pending view s (js_settle api ord s jh) = ms \<and>
      snd (js_settle api ord s jh) = broadcast (ord (snd jh)) m (snd jh)"
proof -
  obtain ms where v: "view (fst jh) s = Some ms" "\<forall>m \<in> set ms. plain_msg m" and h: "hub_good ord (snd jh)"
    and L: "todo_stream_laws api view" using assms by (auto simp: js_good_def)
  note nxt = todo_stream_lawsD(3,4) [OF L]
  have "js_good api view ord s (js_settle api ord s jh) \<and>
    (ms = [] \<longrightarrow> js_settle api ord s jh = jh) \<and>
    (ms \<noteq> [] \<longrightarrow> js_pending view s (js_settle api ord s jh) = tl ms \<and>
       snd (js_settle api ord s jh) = broadcast (ord (snd jh)) (hd ms) (snd jh))"
  proof (cases ms)
    case Nil
    then show ?thesis using nxt(1) v(1) assms by (simp add: js_settle_def take_next_def)
  next
    case (Cons m r)
    with nxt(2) [of "fst jh" s m r] v(1) obtain js'
      where n: "ts_next api s (fst jh) = Some (js', m)" "view js' = (view (fst jh))(s \<mapsto> r)" by blast
    have "on_todo_update ord m (snd jh) = Some (broadcast (ord (snd jh)) m (snd jh))"
      using v(2) Cons by (simp add: on_todo_update_eq plain_msg_def)
    then have "js_settle api ord s jh = (js', broadcast (ord (snd jh)) m (snd jh))"
      using n(1) by (simp add: js_settle_def take_next_def)
    then show ?thesis using n(2) L v(2) Cons broadcast_good(1) [OF h] by (simp add: js_good_def js_pending_def)
  qed
  then show "js_good api view ord s (js_settle api ord s jh)" "js_pending view s jh = [] \<Longrightarrow> js_settle api ord s jh = jh"
    "js_pending view s jh = m # ms \<Longrightarrow> js_pending view s (js_settle api ord s jh) = ms \<and>
      snd (js_settle api ord s jh) = broadcast (ord (snd jh)) m (snd jh)" for m ms
    using v(1) by (auto simp: js_pending_def)
qed

lemma js_publish_cases:
  assumes "js_good api view ord s jh" and "publish_jetstream api m jh = (jh', e)"
  shows "snd jh' = snd jh" and "js_pending view s jh' = js_pending view s jh @ (if e = None then [m] else [])"
    and "plain_msg m \<Longrightarrow> js_good api view ord s jh'"
proof -
  obtain js' where js: "ts_pub api todo_subject m (fst jh) = (js', e)" "jh' = (js', snd jh)"
    using assms(2) by (auto simp: publish_jetstream_def split: prod.splits)
  obtain ms where v: "view (fst jh) s = Some ms" "\<forall>m \<in> set ms. plain_msg m" and L: "todo_stream_laws api view"
    using assms(1) by (auto simp: js_good_def)
  have v': "view js' s = Some (ms @ (if e = None then [m] else []))"
  proof (cases e)
    case None
    then show ?thesis using todo_stream_lawsD(1) [OF L, of m "fst jh" js' s] js(1) v(1) by simp
  next
    case (Some a)
    then show ?thesis using todo_stream_lawsD(2) [OF L, of m "fst jh" js' a] js(1) v(1) by simp
  qed
  show "snd jh' = snd jh" using js(2) by simp
  show "js_pending view s jh' = js_pending view s jh @ (if e = None then [m] else [])"
    using v(1) v' js(2) by (simp add: js_pending_def)
  show "plain_msg m \<Longrightarrow> js_good api view ord s jh'"
    using assms(1) v(1,2) v' js(2) by (auto simp: js_good_def)
qed

definition js_room :: "('js \<Rightarrow> nat \<Rightarrow> bytes list option) \<Rightarrow> nat \<Rightarrow> 'js \<times> bytes hub \<Rightarrow> nat \<Rightarrow> int" where
  "js_room view s jh c = hub_room (snd jh) c - int (length (js_pending view s jh))"

definition js_shown :: "('js \<Rightarrow> nat \<Rightarrow> bytes list option) \<Rightarrow> nat \<Rightarrow> 'js \<times> bytes hub \<Rightarrow> nat \<Rightarrow> bytes list" where
  "js_shown view s jh c = hub_queue (snd jh) c @ js_pending view s jh"

interpretation jetstream: todo_broadcaster "js_good api view ord s" "publish_jetstream api" "js_settle api ord s"
  "\<lambda>jh c. c \<in> ran (clients (snd jh))" "js_room view s" "js_shown view s" "\<lambda>jh. hub_queue (snd jh)"
  "\<lambda>jh. length (js_pending view s jh)" for api view ord s
proof unfold_locales
  fix jh c
  assume good: "js_good api view ord s jh"
  have hub: "hub_good ord (snd jh)" using good by (simp add: js_good_def)
  note st = js_settle_cases [OF good]
  show "js_good api view ord s (js_settle api ord s jh)" by (rule st(1))
  show "length (js_pending view s (js_settle api ord s jh)) = length (js_pending view s jh) - 1"
    using st(2,3) by (cases "js_pending view s jh") auto
  show "c \<in> ran (clients (snd (js_settle api ord s jh))) \<and> js_room view s (js_settle api ord s jh) c = js_room view s jh c \<and>
    js_shown view s (js_settle api ord s jh) c = js_shown view s jh c"
    if "c \<in> ran (clients (snd jh))" "0 \<le> js_room view s jh c"
    using st(2,3) that broadcast_good [OF hub] by (cases "js_pending view s jh") (auto simp: js_room_def js_shown_def)
  show "length (js_pending view s jh) = 0 \<Longrightarrow> hub_queue (snd jh) c = js_shown view s jh c"
    by (simp add: js_shown_def)
  fix m jh' e
  show "js_good api view ord s (fst (publish_jetstream api m jh))" if "plain_msg m"
    using js_publish_cases(3) [OF good _ that] by (metis prod.collapse)
  show "c \<in> ran (clients (snd jh')) \<and> js_room view s jh' c = js_room view s jh c - 1 \<and>
    js_shown view s jh' c = js_shown view s jh c @ [m]"
    if "publish_jetstream api m jh = (jh', None)" "c \<in> ran (clients (snd jh))"
    using js_publish_cases(1,2) [OF good that(1)] that(2) by (simp add: js_room_def js_shown_def)
  show "c \<in> ran (clients (snd jh')) \<and> js_room view s jh' c = js_room view s jh c \<and>
    js_shown view s jh' c = js_shown view s jh c"
    if "publish_jetstream api m jh = (jh', Some e)" "c \<in> ran (clients (snd jh))"
    using js_publish_cases(1,2) [OF good that(1)] that(2) by (simp add: js_room_def js_shown_def)
qed

subsection \<open>Properties\<close>

text \<open>The wiring of a process when another one holds the subscription.\<close>

lemma subscribe_refused:
  assumes "todo_stream_laws api view" and "view js s \<noteq> None" and "jb_sub b = None"
  shows "\<exists>js'. subscribe_todos api b js = (js', b) \<and> view js' = view js"
proof -
  obtain js' e where "ts_sub api todo_subject todo_durable js = (js', Inl e)" "view js' = view js"
    using todo_stream_lawsD(5) [OF assms(1,2)] by blast
  then show ?thesis using assms(3) by (simp add: subscribe_todos_def)
qed

text \<open>The durable name is the same in every process, so of several processes on one JetStream only the
  first one is subscribed.  A later one starts without an error and publishes, but its clients receive
  nothing, not even what it publishes itself; all messages go to the clients of the first.\<close>
lemma second_instance_hears_nothing:
  assumes "todo_stream_laws api view" and "view js s = Some ms"
  shows "\<exists>js' b. wire_broadcaster (Some api) js = (js', b) \<and> view js' = view js \<and> (case b of
      InMemory \<Rightarrow> True
    | JetStream jb \<Rightarrow> jb_sub jb = None \<and> (\<forall>jh. take_next api ord jb jh = Some jh) \<and>
        (\<forall>m hub jh'. publish_jetstream api m (js', hub) = (jh', None) \<longrightarrow>
           snd jh' = hub \<and> view (fst jh') s = Some (ms @ [m])))"
proof -
  let ?b = "\<lparr>jb_sub = None, jb_closed = False\<rparr>"
  obtain js1 err where add: "ts_add api todo_stream_name [todo_subject] js = (js1, err)" by fastforce
  have v1: "view js1 = view js" using todo_stream_lawsD(8) [OF assms(1), of js] add by simp
  show ?thesis
  proof (cases "err \<noteq> None \<and> err \<noteq> Some ''stream already exists''")
    case True
    then show ?thesis using add v1
      by (simp add: wire_broadcaster_def new_todo_broadcaster_def new_js_broadcaster_def subscribe_any_def)
  next
    case False
    obtain js2 where s2: "subscribe_todos api ?b js1 = (js2, ?b)" "view js2 = view js1"
      using subscribe_refused [OF assms(1), of js1 s ?b] v1 assms(2) by auto
    obtain js3 where s3: "subscribe_todos api ?b js2 = (js3, ?b)" "view js3 = view js2"
      using subscribe_refused [OF assms(1), of js2 s ?b] v1 s2(2) assms(2) by auto
    have "wire_broadcaster (Some api) js = (js3, JetStream ?b)"
      using False add s2(1) s3(1)
      by (auto simp: wire_broadcaster_def new_todo_broadcaster_def new_js_broadcaster_def subscribe_any_def)
    moreover have "\<forall>m hub jh'. publish_jetstream api m (js3, hub) = (jh', None) \<longrightarrow>
        snd jh' = hub \<and> view (fst jh') s = Some (ms @ [m])"
    proof (intro allI impI)
      fix m hub jh'
      assume "publish_jetstream api m (js3, hub) = (jh', None)"
      then show "snd jh' = hub \<and> view (fst jh') s = Some (ms @ [m])"
        using todo_stream_lawsD(1) [OF assms(1), of m js3 "fst jh'" s] s3(2) s2(2) v1 assms(2)
        by (auto simp: publish_jetstream_def split: prod.splits)
    qed
    ultimately show ?thesis using s3(2) s2(2) v1 by (simp add: take_next_def del: split_paired_All)
  qed
qed

text \<open>The origin tag of a message is never honoured: a tagged message goes to every client, the
  originator included, with the tag still in front of it, and an empty tag ends the process with a
  run-time panic.\<close>
lemma origin_tag_not_honoured:
  assumes "hub_good ord hub" and "clients hub cid = Some c" and "0 < hub_room hub c" and "CHR 0x00 \<notin> set origin"
  shows "if origin = '''' then on_todo_update ord (CHR 0x00 # CHR 0x00 # body) hub = None
    else \<exists>hub'. on_todo_update ord (CHR 0x00 # origin @ CHR 0x00 # body) hub = Some hub' \<and>
      hub_queue hub' c = hub_queue hub c @ [CHR 0x00 # origin @ CHR 0x00 # body]"
proof (cases origin)
  case Nil
  then show ?thesis by (simp add: on_todo_update_eq)
next
  case (Cons x xs)
  have "c \<in> ran (clients hub)" using assms(2) by (auto simp: ran_def)
  then show ?thesis using Cons assms broadcast_good(3) [OF assms(1)] by (auto simp: on_todo_update_eq)
qed

lemma encode_pub_plain: "plain_msg (encode_pub p)"
  by (cases p) (simp_all add: plain_msg_def encode_pub_def todo_update_job_def encode_job_def job_json_def)

lemma published_sub: "subseq (snd (run_actions pub settle as s)) (published_by as)"
proof (induction as arbitrary: s)
  case (Cons a as)
  show ?case
  proof (cases a)
    case (Publish m)
    obtain s1 e where p: "pub m s = (s1, e)" by fastforce
    obtain s2 ms where r: "run_actions pub settle as s1 = (s2, ms)" by fastforce
    from Cons.IH [of s1] r have "subseq ms (published_by as)" by simp
    then show ?thesis using p r Publish by auto
  qed (use Cons in simp)
qed simp

lemma memory_run:
  assumes "c \<in> ran (clients hub)" and "hub_good ord hub" and "\<And>m. m \<in> set (published_by as) \<Longrightarrow> plain_msg m"
    and "int (length (published_by as)) \<le> hub_room hub c"
  shows "\<exists>hub'. run_actions (publish_in_memory ord) (\<lambda>h. h) as hub = (hub', published_by as) \<and>
    hub_queue hub' c = hub_queue hub c @ published_by as"
proof -
  from memory.run_arrives [OF assms(2,1,3,4)]
  obtain hub' ms where r: "run_actions (publish_in_memory ord) (\<lambda>h. h) as hub = (hub', ms)"
    "\<forall>n \<ge> 0. hub_queue (((\<lambda>h. h) ^^ n) hub') c = hub_queue hub c @ ms" by blast
  have "ms = published_by as" by (rule published_count [OF r(1)]) (simp add: publish_in_memory_def)
  moreover have "hub_queue hub' c = hub_queue hub c @ ms" using r(2) [rule_format, of 0] by simp
  ultimately show ?thesis using r(1) by simp
qed

lemma jetstream_run:
  assumes "c \<in> ran (clients hub)" and "js_good api view ord s (js, hub)" and "\<And>m. m \<in> set (published_by as) \<Longrightarrow> plain_msg m"
    and "int (length (js_pending view s (js, hub)) + length (published_by as)) \<le> hub_room hub c"
  shows "\<exists>jh' ms. run_actions (publish_jetstream api) (js_settle api ord s) as (js, hub) = (jh', ms) \<and>
    subseq ms (published_by as) \<and>
    ((\<forall>m jh. snd (publish_jetstream api m jh) = None) \<longrightarrow> ms = published_by as) \<and>
    (\<forall>n \<ge> length (js_pending view s jh').
       hub_queue (snd ((js_settle api ord s ^^ n) jh')) c = hub_queue hub c @ js_pending view s (js, hub) @ ms)"
proof -
  have c: "c \<in> ran (clients (snd (js, hub)))" using assms(1) by simp
  have room: "int (length (published_by as)) \<le> js_room view s (js, hub) c" using assms(4) by (simp add: js_room_def)
  from jetstream.run_arrives [OF assms(2) c assms(3) room]
  obtain jh' ms where r: "run_actions (publish_jetstream api) (js_settle api ord s) as (js, hub) = (jh', ms)"
    "\<forall>n \<ge> length (js_pending view s jh'). hub_queue (snd ((js_settle api ord s ^^ n) jh')) c =
      js_shown view s (js, hub) c @ ms" by blast
  moreover have "subseq ms (published_by as)"
    using published_sub [of "publish_jetstream api" "js_settle api ord s" as "(js, hub)"] r(1) by simp
  moreover have "ms = published_by as" if "\<forall>m jh. snd (publish_jetstream api m jh) = None"
    by (rule published_count [OF r(1)]) (use that in blast)
  ultimately show ?thesis by (intro exI [of _ jh'] exI [of _ ms]) (simp add: js_shown_def)
qed


subsection \<open>A stream with one durable consumer\<close>

type_synonym list_stream = "bytes list option"

definition list_stream_api :: "list_stream todo_stream_api" where
  "list_stream_api = \<lparr>ts_add = (\<lambda>_ _ js. (js, None)),
     ts_pub = (\<lambda>_ m js. (map_option (\<lambda>ms. ms @ [m]) js, None)),
     ts_sub = (\<lambda>_ _ js. if js = None then (Some [], Inr 0)
       else (js, Inl (Plain ''nats: consumer is already bound to a subscription''))),
     ts_unsub = (\<lambda>s js. if s = 0 then None else js),
     ts_next = (\<lambda>s js. case js of Some (m # r) \<Rightarrow> if s = 0 then Some (Some r, m) else None | _ \<Rightarrow> None)\<rparr>"

definition list_stream_view :: "list_stream \<Rightarrow> nat \<Rightarrow> bytes list option" where
  "list_stream_view js s = (if s = 0 then js else None)"

lemma list_stream_laws: "todo_stream_laws list_stream_api list_stream_view"
  unfolding todo_stream_laws_def
  by (auto simp: list_stream_api_def list_stream_view_def fun_eq_iff split: if_splits option.splits list.splits)

lemma second_instance_hears_nothing_witness:
  "\<exists>js' b. wire_broadcaster (Some list_stream_api) (Some []) = (js', b) \<and>
    list_stream_view js' = list_stream_view (Some []) \<and> (case b of
      InMemory \<Rightarrow> True
    | JetStream jb \<Rightarrow> jb_sub jb = None \<and> (\<forall>jh. take_next list_stream_api (\<lambda>_. []) jb jh = Some jh) \<and>
        (\<forall>m hub jh'. publish_jetstream list_stream_api m (js', hub) = (jh', None) \<longrightarrow>
           snd jh' = hub \<and> list_stream_view (fst jh') 0 = Some ([] @ [m])))"
  by (rule second_instance_hears_nothing [OF list_stream_laws, where s = 0]) (simp add: list_stream_view_def)

definition hub_order :: "bytes hub \<Rightarrow> string list" where
  "hub_order h = sorted_list_of_set (dom (clients h))"

lemma hub_order_range: "range_orders hub_order"
  by (simp add: range_orders_def hub_order_def range_order_def)

lemma demo_hub_good: "hub_good hub_order demo_hub" "hub_room demo_hub 0 = 64" "hub_queue demo_hub 0 = []"
proof -
  have "hub_inv demo_hub"
    unfolding demo_hub_def by (rule register_inv [OF new_hub_inv]) (simp add: new_hub_fields [OF refl])
  moreover have "clients demo_hub = [''t1'' \<mapsto> 0]"
    by (simp add: demo_hub_def register_def Let_def new_hub_fields [OF refl])
  ultimately show "hub_good hub_order demo_hub" by (simp add: hub_good_def hub_order_range)
  show "hub_room demo_hub 0 = 64" "hub_queue demo_hub 0 = []" by (simp_all add: hub_room_def hub_queue_def demo_hub_facts)
qed

lemma origin_tag_not_honoured_witness:
  "\<exists>hub'. on_todo_update hub_order (CHR 0x00 # ''t1'' @ CHR 0x00 # ''{}'') demo_hub = Some hub' \<and>
    hub_queue hub' 0 = [CHR 0x00 # ''t1'' @ CHR 0x00 # ''{}'']"
  using origin_tag_not_honoured [OF demo_hub_good(1) demo_hub_facts(1), of "''t1''" "''{}''"]
  by (simp add: demo_hub_good(2,3))


end
