(* ===== verification/GoUrl.thy ===== *)
theory GoUrl
  imports GoLib
begin

text \<open>
  \<open>net/url\<close> as far as the program uses it: \<open>Parse\<close> and \<open>URL.String\<close> (Go 1.26, with its strict check of
  colons in a host).  A host in brackets is an IP literal, whose syntax check is the argument \<open>ip6\<close>: the
  host as \<open>Parse\<close> keeps it, \<open>None\<close> for an error.
\<close>

subsection \<open>Escaping\<close>

datatype url_mode = ModePath | ModeHost | ModeUser | ModeFragment

definition alnum :: "char \<Rightarrow> bool" where
  "alnum c = (let n = of_char c :: nat in
     (97 \<le> n \<and> n \<le> 122) \<or> (65 \<le> n \<and> n \<le> 90) \<or> (48 \<le> n \<and> n \<le> 57))"

definition should_escape :: "char \<Rightarrow> url_mode \<Rightarrow> bool" where
  "should_escape c m =
     (if alnum c then False
      else if m = ModeHost \<and> c \<in> set (''!$&()*+,;=:[]<>'' @ [CHR 0x22, CHR 0x27]) then False
      else if c \<in> set ''-_.~'' then False
      else if c \<in> set ''$&+,/:;=?@'' then
        (case m of ModePath \<Rightarrow> c = CHR ''?''
         | ModeUser \<Rightarrow> c \<in> set ''@/?:''
         | ModeFragment \<Rightarrow> False
         | ModeHost \<Rightarrow> True)
      else if m = ModeFragment \<and> c \<in> set ''!()*'' then False
      else True)"

definition hex_value :: "char \<Rightarrow> nat option" where
  "hex_value c = (let n = of_char c :: nat in
     if 48 \<le> n \<and> n \<le> 57 then Some (n - 48)
     else if 97 \<le> n \<and> n \<le> 102 then Some (n - 87)
     else if 65 \<le> n \<and> n \<le> 70 then Some (n - 55)
     else None)"

definition upper_hex :: "nat \<Rightarrow> char" where
  "upper_hex d = (if d < 10 then char_of (48 + d) else char_of (55 + d))"

definition url_escape :: "url_mode \<Rightarrow> string \<Rightarrow> string" where
  "url_escape m s = concat (map (\<lambda>c. if should_escape c m
     then [CHR ''%'', upper_hex (of_char c div 16), upper_hex (of_char c mod 16)] else [c]) s)"

text \<open>\<open>None\<close> is an error: a percent sign without two hexadecimal digits, or in a host a percent-encoded
  ASCII byte other than \<open>%25\<close>, or an ASCII byte a host cannot have.\<close>

fun url_unescape :: "url_mode \<Rightarrow> string \<Rightarrow> string option" where
  "url_unescape m [] = Some []"
| "url_unescape m (c # s) =
     (if c = CHR ''%'' then
        (case s of
           a # b # r \<Rightarrow> (case (hex_value a, hex_value b) of
             (Some x, Some y) \<Rightarrow>
               if m = ModeHost \<and> x < 8 \<and> (a, b) \<noteq> (CHR ''2'', CHR ''5'') then None
               else map_option ((#) (char_of (16 * x + y))) (url_unescape m r)
           | _ \<Rightarrow> None)
         | _ \<Rightarrow> None)
      else if m = ModeHost \<and> (of_char c :: nat) < 128 \<and> should_escape c m then None
      else map_option ((#) c) (url_unescape m s))"

definition valid_encoded :: "url_mode \<Rightarrow> string \<Rightarrow> bool" where
  "valid_encoded m s \<longleftrightarrow> list_all (\<lambda>c. c \<in> set (''!$&()*+,;=:@[]%'' @ [CHR 0x27]) \<or> \<not> should_escape c m) s"

text \<open>\<open>EscapedPath\<close> and \<open>EscapedFragment\<close> of a text that was set by parsing \<open>raw\<close>.\<close>

definition escaped_part :: "url_mode \<Rightarrow> string \<Rightarrow> string \<Rightarrow> string" where
  "escaped_part m plain raw =
     (if raw = url_escape m plain then (if plain = ''*'' then ''*'' else raw)
      else if valid_encoded m raw then raw
      else if plain = ''*'' then ''*''
      else url_escape m plain)"

subsection \<open>Parsing\<close>

record url =
  ur_scheme :: string
  ur_opaque :: string
  ur_user :: "(string \<times> string option) option"
  ur_host :: string
  ur_path :: "string \<times> string"
  ur_omit_host :: bool
  ur_force_query :: bool
  ur_query :: string
  ur_fragment :: "string \<times> string"

text \<open>\<open>getScheme\<close>: the scheme and the rest, or an error if the text starts with a colon.\<close>

fun scheme_from :: "string \<Rightarrow> string \<Rightarrow> string \<Rightarrow> (string \<times> string) option" where
  "scheme_from raw done [] = Some ('''', raw)"
| "scheme_from raw done (c # s) =
     (if alnum c \<and> \<not> is_digit c then scheme_from raw (done @ [c]) s
      else if is_digit c \<or> c \<in> set ''+-.'' then
        (if done = [] then Some ('''', raw) else scheme_from raw (done @ [c]) s)
      else if c = CHR '':'' then (if done = [] then None else Some (done, s))
      else Some ('''', raw))"

definition get_scheme :: "string \<Rightarrow> (string \<times> string) option" where
  "get_scheme raw = scheme_from raw [] raw"

definition valid_userinfo :: "string \<Rightarrow> bool" where
  "valid_userinfo s \<longleftrightarrow> list_all (\<lambda>c. alnum c \<or> c \<in> set (''-._:~!$&()*+,;=%@'' @ [CHR 0x27])) s"

definition valid_optional_port :: "string \<Rightarrow> bool" where
  "valid_optional_port s \<longleftrightarrow> s = '''' \<or> (hd s = CHR '':'' \<and> list_all is_digit (tl s))"

definition parse_host :: "(string \<Rightarrow> string option) \<Rightarrow> string \<Rightarrow> string option" where
  "parse_host ip6 h =
     (if has_prefix h ''['' then ip6 h
      else case index_byte (CHR '':'') h of
        Some i \<Rightarrow> if valid_optional_port (drop i h) then url_unescape ModeHost h else None
      | None \<Rightarrow> url_unescape ModeHost h)"

definition last_byte :: "char \<Rightarrow> string \<Rightarrow> nat option" where
  "last_byte b s = map_option (\<lambda>i. length s - 1 - i) (index_byte b (rev s))"

definition parse_user :: "string \<Rightarrow> (string \<times> string option) option" where
  "parse_user ui =
     (if \<not> valid_userinfo ui then None
      else case index_byte (CHR '':'') ui of
        None \<Rightarrow> map_option (\<lambda>u. (u, None)) (url_unescape ModeUser ui)
      | Some i \<Rightarrow> (case url_unescape ModeUser (take i ui) of
           None \<Rightarrow> None
         | Some u \<Rightarrow> map_option (\<lambda>p. (u, Some p)) (url_unescape ModeUser (drop (i + 1) ui))))"

definition parse_authority :: "(string \<Rightarrow> string option) \<Rightarrow> string \<Rightarrow> ((string \<times> string option) option \<times> string) option" where
  "parse_authority ip6 a = (case last_byte (CHR ''@'') a of
     None \<Rightarrow> map_option (\<lambda>h. (None, h)) (parse_host ip6 a)
   | Some i \<Rightarrow> (case parse_host ip6 (drop (i + 1) a) of
        None \<Rightarrow> None
      | Some h \<Rightarrow> map_option (\<lambda>u. (Some u, h)) (parse_user (take i a))))"

definition blank_url :: url where
  "blank_url = \<lparr>ur_scheme = '''', ur_opaque = '''', ur_user = None, ur_host = '''', ur_path = ('''', ''''),
     ur_omit_host = False, ur_force_query = False, ur_query = '''', ur_fragment = ('''', '''')\<rparr>"

definition set_path :: "string \<Rightarrow> url \<Rightarrow> url option" where
  "set_path p u = map_option (\<lambda>plain. u\<lparr>ur_path := (plain, p)\<rparr>) (url_unescape ModePath p)"

definition has_control_byte :: "string \<Rightarrow> bool" where
  "has_control_byte s \<longleftrightarrow> list_ex (\<lambda>c. (of_char c :: nat) < 32 \<or> (of_char c :: nat) = 127) s"

text \<open>The part before the fragment.\<close>

definition split_query :: "string \<Rightarrow> string \<times> bool \<times> string" where
  "split_query s =
     (if has_suffix s ''?'' \<and> length (filter (\<lambda>c. c = CHR ''?'') s) = 1
      then (take (length s - 1) s, True, '''')
      else case cut_byte (CHR ''?'') s of (a, q, _) \<Rightarrow> (a, False, q))"

definition parse_main :: "(string \<Rightarrow> string option) \<Rightarrow> string \<Rightarrow> url option" where
  "parse_main ip6 raw =
     (if has_control_byte raw then None
      else if raw = ''*'' then Some (blank_url\<lparr>ur_path := (''*'', ''*'')\<rparr>)
      else case get_scheme raw of
        None \<Rightarrow> None
      | Some (scheme0, rest0) \<Rightarrow>
          (let scheme = to_lower scheme0 in
           case split_query rest0 of (rest, force, query) \<Rightarrow>
           let u = blank_url\<lparr>ur_scheme := scheme, ur_force_query := force, ur_query := query\<rparr> in
           if \<not> has_prefix rest ''/'' \<and> scheme \<noteq> '''' then Some (u\<lparr>ur_opaque := rest\<rparr>)
           else if \<not> has_prefix rest ''/'' \<and> CHR '':'' \<in> set (fst (cut_byte (CHR ''/'') rest)) then None
           else if (scheme \<noteq> '''' \<or> \<not> has_prefix rest ''///'') \<and> has_prefix rest ''//'' then
             (let a0 = drop 2 rest;
                  i = (case index_byte (CHR ''/'') a0 of Some i \<Rightarrow> i | None \<Rightarrow> length a0)
              in case parse_authority ip6 (take i a0) of
                   None \<Rightarrow> None
                 | Some (user, host) \<Rightarrow> set_path (drop i a0) (u\<lparr>ur_user := user, ur_host := host\<rparr>))
           else set_path rest (u\<lparr>ur_omit_host := scheme \<noteq> '''' \<and> has_prefix rest ''/''\<rparr>)))"

definition url_parse :: "(string \<Rightarrow> string option) \<Rightarrow> string \<Rightarrow> url option" where
  "url_parse ip6 raw = (case cut_byte (CHR ''#'') raw of (main, frag, _) \<Rightarrow>
     (case parse_main ip6 main of
        None \<Rightarrow> None
      | Some u \<Rightarrow> if frag = '''' then Some u
          else map_option (\<lambda>plain. u\<lparr>ur_fragment := (plain, frag)\<rparr>) (url_unescape ModeFragment frag)))"

subsection \<open>Printing\<close>

definition userinfo_string :: "string \<times> string option \<Rightarrow> string" where
  "userinfo_string u = (if fst u \<noteq> '''' \<or> snd u \<noteq> None
     then url_escape ModeUser (fst u) @ (case snd u of None \<Rightarrow> '''' | Some p \<Rightarrow> '':'' @ url_escape ModeUser p)
     else '''')"

definition url_string :: "url \<Rightarrow> string" where
  "url_string u =
     (let head = (if ur_scheme u \<noteq> '''' then ur_scheme u @ '':'' else '''');
          authority = (if (ur_scheme u \<noteq> '''' \<or> ur_host u \<noteq> '''' \<or> ur_user u \<noteq> None) \<and>
                          \<not> (ur_omit_host u \<and> ur_host u = '''' \<and> ur_user u = None)
             then (if ur_host u \<noteq> '''' \<or> fst (ur_path u) \<noteq> '''' \<or> ur_user u \<noteq> None then ''//'' else '''') @
                  (case ur_user u of None \<Rightarrow> '''' | Some x \<Rightarrow> userinfo_string x @ ''@'') @
                  url_escape ModeHost (ur_host u)
             else '''');
          path = escaped_part ModePath (fst (ur_path u)) (snd (ur_path u));
          segment = (if head @ authority = '''' \<and> CHR '':'' \<in> set (fst (cut_byte (CHR ''/'') path)) then ''./'' else '''');
          body = (if ur_opaque u \<noteq> '''' then ur_opaque u
             else authority @ (if path \<noteq> '''' \<and> \<not> has_prefix path ''/'' \<and> ur_host u \<noteq> '''' then ''/'' else '''') @
                  segment @ path)
      in head @ body @ (if ur_force_query u \<or> ur_query u \<noteq> '''' then ''?'' @ ur_query u else '''') @
         (if fst (ur_fragment u) \<noteq> '''' then ''#'' @ escaped_part ModeFragment (fst (ur_fragment u)) (snd (ur_fragment u)) else ''''))"

end
