(* ===== verification/AppConfig.thy ===== *)
theory AppConfig
  imports Json
begin

text \<open>
  The server configuration, \<open>config/config.go\<close> with the defaults of its build variants, and the secrets
  file of \<open>internal/secrets/secrets.go\<close> that is decrypted into the environment first.  The environment is
  a map; the user's home directory, the file system, the age library and the path of the executable
  are arguments.
\<close>

subsection \<open>Environment\<close>

type_synonym env = "string \<rightharpoonup> string"

definition get_os_env :: "env \<Rightarrow> string \<Rightarrow> string" where
  "get_os_env e k = (case e k of Some v \<Rightarrow> v | None \<Rightarrow> '''')"

text \<open>\<open>os.Setenv\<close>, whose error the code ignores.\<close>

definition set_os_env :: "string \<Rightarrow> string \<Rightarrow> env \<Rightarrow> env" where
  "set_os_env k v e = (if k = '''' \<or> CHR ''='' \<in> set k \<or> CHR 0x00 \<in> set k \<or> CHR 0x00 \<in> set v then e else e(k \<mapsto> v))"

definition get_env :: "env \<Rightarrow> string \<Rightarrow> string \<Rightarrow> string" where
  "get_env e k fallback = (if get_os_env e k \<noteq> '''' then get_os_env e k else fallback)"

text \<open>\<open>strconv.ParseBool\<close> and \<open>strconv.Atoi\<close>.\<close>

definition parse_bool :: "string \<Rightarrow> bool option" where
  "parse_bool s = (if s \<in> {''1'', ''t'', ''T'', ''TRUE'', ''true'', ''True''} then Some True
     else if s \<in> {''0'', ''f'', ''F'', ''FALSE'', ''false'', ''False''} then Some False
     else None)"

definition atoi :: "string \<Rightarrow> int option" where
  "atoi s0 = (let neg = has_prefix s0 ''-''; s = (if neg \<or> has_prefix s0 ''+'' then tl s0 else s0) in
     if s = '''' then None
     else case parse_digits 0 s of
       None \<Rightarrow> None
     | Some n \<Rightarrow> let i = (if neg then - int n else int n) in
         if - (2 ^ 63) \<le> i \<and> i < 2 ^ 63 then Some i else None)"

definition env_bool :: "env \<Rightarrow> string \<Rightarrow> bool \<Rightarrow> bool" where
  "env_bool e k def = (let v = get_os_env e k in
     if v = '''' then def else case parse_bool v of Some b \<Rightarrow> b | None \<Rightarrow> def)"

definition env_int :: "env \<Rightarrow> string \<Rightarrow> int \<Rightarrow> int" where
  "env_int e k def = (let v = get_os_env e k in
     if v = '''' then def else case atoi v of Some n \<Rightarrow> n | None \<Rightarrow> def)"

subsection \<open>Secrets\<close>

definition is_blank :: "char \<Rightarrow> bool" where
  "is_blank c \<longleftrightarrow> c = CHR '' '' \<or> c = CHR 0x09"

definition trim_blank :: "string \<Rightarrow> string" where
  "trim_blank s = rev (dropWhile is_blank (rev (dropWhile is_blank s)))"

definition parse_line :: "string \<Rightarrow> (string \<times> string) option" where
  "parse_line s0 = (let s = trim_blank s0 in
     if s = '''' \<or> hd s = CHR ''#'' then None
     else case index_byte (CHR ''='') s of
       None \<Rightarrow> None
     | Some i \<Rightarrow> (let key = trim_blank (take i s); val = trim_blank (drop (i + 1) s) in
         if key \<noteq> '''' then Some (key, val) else None))"

fun env_lines_from :: "string \<Rightarrow> string \<Rightarrow> (string \<times> string) list" where
  "env_lines_from buf [] = (case parse_line buf of Some l \<Rightarrow> [l] | None \<Rightarrow> [])"
| "env_lines_from buf (c # s) =
     (if c = CHR 0x0A then (case parse_line buf of Some l \<Rightarrow> l # env_lines_from [] s | None \<Rightarrow> env_lines_from [] s)
      else env_lines_from (buf @ [c]) s)"

definition parse_env_lines :: "string \<Rightarrow> (string \<times> string) list" where
  "parse_env_lines s = env_lines_from [] s"

text \<open>\<open>filepath.Join\<close>: the non-empty elements joined and cleaned lexically.\<close>

fun clean_parts :: "bool \<Rightarrow> string list \<Rightarrow> string list \<Rightarrow> string list" where
  "clean_parts rooted done [] = rev done"
| "clean_parts rooted done (p # ps) =
     (if p = '''' \<or> p = ''.'' then clean_parts rooted done ps
      else if p = ''..'' then
        (case done of
           [] \<Rightarrow> clean_parts rooted (if rooted then [] else [p]) ps
         | d # ds \<Rightarrow> if d = ''..'' then clean_parts rooted (p # done) ps else clean_parts rooted ds ps)
      else clean_parts rooted (p # done) ps)"

definition clean_path :: "string \<Rightarrow> string" where
  "clean_path p =
     (let rooted = has_prefix p ''/'';
          body = join_str ''/'' (clean_parts rooted [] (split_byte (CHR ''/'') p))
      in if rooted then ''/'' @ body else if body = '''' then ''.'' else body)"

definition join_path :: "string list \<Rightarrow> string" where
  "join_path ps = (let qs = filter (\<lambda>p. p \<noteq> '''') ps in if qs = [] then '''' else clean_path (join_str ''/'' qs))"

text \<open>
  \<open>Load\<close>: \<open>home\<close> is the current user's home directory, \<open>read\<close> reads a file, \<open>identity\<close> and \<open>decrypt\<close> are age's
  parsing of the key and decryption; \<open>None\<close> is an error, and every error leaves the environment alone.
\<close>

record 'i age =
  ag_identity :: "string \<Rightarrow> 'i option"
  ag_decrypt :: "'i \<Rightarrow> bytes \<Rightarrow> bytes option"

definition load_secrets ::
  "'i age \<Rightarrow> string option \<Rightarrow> (string \<Rightarrow> bytes option) \<Rightarrow> string \<Rightarrow> env \<Rightarrow> env" where
  "load_secrets age home read project e =
     (if project = '''' then e
      else let key = get_os_env e ''AGE_SECRET_KEY'' in
        if key = '''' then e
        else case home of None \<Rightarrow> e | Some h \<Rightarrow>
          (case read (join_path [h, ''.secrets'', project @ ''.env.age'']) of None \<Rightarrow> e | Some d \<Rightarrow>
            (case ag_identity age key of None \<Rightarrow> e | Some i \<Rightarrow>
              (case ag_decrypt age i d of None \<Rightarrow> e | Some plain \<Rightarrow>
                foldl (\<lambda>e kv. set_os_env (fst kv) (snd kv) e) e (parse_env_lines plain)))))"

subsection \<open>Configuration\<close>

record app_config =
  cf_app_name :: string
  cf_build_label :: string
  cf_build_commit :: string
  cf_host :: string
  cf_port :: int
  cf_log_level :: string
  cf_dev :: bool
  cf_db_path :: string
  cf_data_dir :: string
  cf_encryption_key :: string
  cf_admin_token :: string
  cf_nats_enabled :: bool
  cf_nats_store_dir :: string
  cf_nats_leaf_url :: string
  cf_dag_enabled :: bool
  cf_dag_http_addr :: string
  cf_dag_nats_port :: int
  cf_dag_store_dir :: string
  cf_offline_sync :: bool
  cf_entity_store :: string
  cf_skin :: string
  cf_goai_api_key :: string

definition default_nats_enabled :: bool where "default_nats_enabled = True"
definition default_dag_nats_enabled :: bool where "default_dag_nats_enabled = True"
definition default_dag_nats_port :: int where "default_dag_nats_port = 4222"

text \<open>The base name of the executable; the loop looks for the last slash.\<close>

definition default_app_name :: "string option \<Rightarrow> string" where
  "default_app_name exe = (case exe of
     None \<Rightarrow> ''gogogo-fullstack-template''
   | Some p \<Rightarrow>
       (let base = (case index_byte (CHR ''/'') (rev p) of Some i \<Rightarrow> drop (length p - i) p | None \<Rightarrow> p)
        in if p = '''' \<or> base = '''' then ''gogogo-fullstack-template'' else base))"

definition port_of :: "env \<Rightarrow> int" where
  "port_of e = (let p = get_os_env e ''PORT'' in
     if p = '''' then 8080 else case atoi p of Some n \<Rightarrow> n | None \<Rightarrow> 8080)"

definition load_config ::
  "'i age \<Rightarrow> string option \<Rightarrow> (string \<Rightarrow> bytes option) \<Rightarrow> string option \<Rightarrow> env \<Rightarrow> env \<times> app_config" where
  "load_config age home read exe e0 =
     (let name0 = get_os_env e0 ''APP_NAME'';
          name = (if name0 = '''' then default_app_name exe else name0);
          e = load_secrets age home read name e0
      in (e, \<lparr>cf_app_name = name, cf_build_label = get_env e ''BUILD_LABEL'' ''dev'',
           cf_build_commit = get_env e ''BUILD_COMMIT'' '''', cf_host = get_env e ''HOST'' ''0.0.0.0'',
           cf_port = port_of e, cf_log_level = get_env e ''LOG_LEVEL'' ''INFO'',
           cf_dev = (get_os_env e ''ENVIRONMENT'' \<noteq> ''production''),
           cf_db_path = get_env e ''DATABASE_PATH'' ''data/app.db'', cf_data_dir = get_env e ''DATA_DIR'' ''data'',
           cf_encryption_key = get_os_env e ''ENCRYPTION_KEY'', cf_admin_token = get_os_env e ''ADMIN_UNLOCK_TOKEN'',
           cf_nats_enabled = env_bool e ''NATS_ENABLED'' default_nats_enabled,
           cf_nats_store_dir = get_env e ''NATS_STORE_DIR'' ''data/nats'',
           cf_nats_leaf_url = get_env e ''NATS_LEAFNODE_URL'' '''',
           cf_dag_enabled = env_bool e ''DAGNATS_ENABLED'' default_dag_nats_enabled,
           cf_dag_http_addr = get_env e ''DAGNATS_HTTP_ADDR'' ''127.0.0.1:8090'',
           cf_dag_nats_port = env_int e ''DAGNATS_NATS_PORT'' default_dag_nats_port,
           cf_dag_store_dir = get_env e ''DAGNATS_STORE_DIR'' ''data/dagnats'',
           cf_offline_sync = env_bool e ''OFFLINE_SYNC_ENABLED'' True,
           cf_entity_store = get_env e ''ENTITY_STORE'' ''pb'', cf_skin = get_env e ''UI_SKIN'' ''daisyui'',
           cf_goai_api_key = get_os_env e ''GOAI_API_KEY''\<rparr>))"

text \<open>The \<open>init\<close> functions of the production and the development build.\<close>

definition default_env :: "string \<Rightarrow> string \<Rightarrow> env \<Rightarrow> env" where
  "default_env k v e = (if get_os_env e k = '''' then set_os_env k v e else e)"

definition init_prod :: "env \<Rightarrow> env" where
  "init_prod e = default_env ''ENVIRONMENT'' ''production'' e"

definition init_dev :: "env \<Rightarrow> env" where
  "init_dev e = default_env ''DATABASE_PATH'' ''data/dev.db'' (default_env ''LOG_LEVEL'' ''DEBUG''
     (default_env ''ENVIRONMENT'' ''development'' e))"

subsection \<open>Lemmas\<close>

text \<open>The loop over the bytes is a split into lines.\<close>

lemma env_lines_split:
  "CHR 0x0A \<notin> set buf \<Longrightarrow> env_lines_from buf s =
     List.map_filter parse_line (case split_byte (CHR 0x0A) s of [] \<Rightarrow> [] | w # ws \<Rightarrow> (buf @ w) # ws)"
proof (induction buf s rule: env_lines_from.induct)
  case (2 buf c s)
  show ?case
  proof (cases "c = CHR 0x0A")
    case True
    then show ?thesis using "2.IH" by (cases "split_byte (CHR 0x0A) s") (auto simp: map_filter_simps split: option.splits)
  next
    case False
    then show ?thesis using "2.IH"(3) "2.prems"
      by (cases "split_byte (CHR 0x0A) s") (auto split: option.splits)
  qed
qed (simp add: map_filter_simps split: option.splits)

lemma parse_env_lines_eq: "parse_env_lines s = List.map_filter parse_line (split_byte (CHR 0x0A) s)"
  using env_lines_split [of "[]" s] by (cases "split_byte (CHR 0x0A) s") (simp_all add: parse_env_lines_def)

subsection \<open>The secrets file is read back\<close>

definition tight :: "string \<Rightarrow> bool" where
  "tight s \<longleftrightarrow> s = '''' \<or> (\<not> is_blank (hd s) \<and> \<not> is_blank (last s))"

text \<open>What \<open>init-secrets\<close> may write: the lines of a list of settings.\<close>

definition setting_ok :: "string \<times> string \<Rightarrow> bool" where
  "setting_ok kv \<longleftrightarrow> fst kv \<noteq> '''' \<and> hd (fst kv) \<noteq> CHR ''#'' \<and> tight (fst kv) \<and> tight (snd kv) \<and>
     CHR ''='' \<notin> set (fst kv) \<and> CHR 0x0A \<notin> set (fst kv) \<and> CHR 0x0A \<notin> set (snd kv) \<and>
     CHR 0x00 \<notin> set (fst kv) \<and> CHR 0x00 \<notin> set (snd kv)"

definition print_line :: "string \<times> string \<Rightarrow> string" where
  "print_line kv = fst kv @ ''='' @ snd kv"

definition print_settings :: "(string \<times> string) list \<Rightarrow> string" where
  "print_settings kvs = concat (map (\<lambda>kv. print_line kv @ [CHR 0x0A]) kvs)"

lemma trim_blank_tight: "tight s \<Longrightarrow> trim_blank s = s"
proof (cases "s = ''''")
  case False
  assume "tight s"
  then have "dropWhile is_blank s = s" "dropWhile is_blank (rev s) = rev s"
    using False by (simp_all add: tight_def dropWhile_eq_self_iff hd_rev)
  then show ?thesis by (simp add: trim_blank_def)
qed (simp add: trim_blank_def)

lemma parse_print_line:
  assumes "setting_ok kv"
  shows "parse_line (print_line kv) = Some kv"
proof -
  let ?k = "fst kv" and ?v = "snd kv"
  have k: "?k \<noteq> ''''" "tight ?k" "CHR ''='' \<notin> set ?k" "hd ?k \<noteq> CHR ''#''" and v: "tight ?v"
    using assms by (simp_all add: setting_ok_def)
  have "tight (print_line kv)"
    using k(1,2) v by (auto simp: tight_def print_line_def is_blank_def)
  then have trim: "trim_blank (print_line kv) = print_line kv" by (rule trim_blank_tight)
  have "index_byte (CHR ''='') (print_line kv) = Some (length ?k)"
    using index_byte_append_Cons [OF k(3), of ?v] by (simp add: print_line_def)
  then show ?thesis
    using k v trim by (simp add: parse_line_def Let_def trim_blank_tight) (simp add: print_line_def trim_blank_tight)
qed

lemma parse_print_settings:
  "list_all setting_ok kvs \<Longrightarrow> parse_env_lines (print_settings kvs) = kvs"
proof -
  have empty: "parse_line [] = None" by (simp add: parse_line_def trim_blank_def)
  show "list_all setting_ok kvs \<Longrightarrow> parse_env_lines (print_settings kvs) = kvs"
  proof (induction kvs)
    case Nil
    then show ?case using empty by (simp add: parse_env_lines_eq print_settings_def map_filter_simps)
  next
    case (Cons kv kvs)
    have "CHR 0x0A \<notin> set (print_line kv)" using Cons.prems by (auto simp: setting_ok_def print_line_def)
    from split_byte_append [OF this, of "print_settings kvs"] parse_print_line [of kv] Cons
    show ?case by (simp add: parse_env_lines_eq print_settings_def map_filter_simps)
  qed
qed

lemma export_settings:
  "list_all setting_ok kvs \<Longrightarrow>
   foldl (\<lambda>e kv. set_os_env (fst kv) (snd kv) e) e kvs = (\<lambda>k. case map_of (rev kvs) k of Some v \<Rightarrow> Some v | None \<Rightarrow> e k)"
proof (induction kvs arbitrary: e)
  case (Cons kv kvs)
  have "set_os_env (fst kv) (snd kv) e = e(fst kv \<mapsto> snd kv)"
    using Cons.prems by (simp add: set_os_env_def setting_ok_def)
  then show ?case using Cons by (auto simp: fun_eq_iff map_add_def split: option.splits)
qed simp

text \<open>C35: The secrets file is read back as it was written: when it decrypts to the lines of a list of
  settings, each of them is in the environment afterwards, the later of two for the same name, and
  nothing else has changed.\<close>
theorem secrets_roundtrip:
  assumes "list_all setting_ok kvs" and "project \<noteq> ''''" and "get_os_env e ''AGE_SECRET_KEY'' \<noteq> ''''"
    and "ag_identity age (get_os_env e ''AGE_SECRET_KEY'') = Some i"
    and "read (join_path [h, ''.secrets'', project @ ''.env.age'']) = Some d"
    and "ag_decrypt age i d = Some (print_settings kvs)"
  shows "load_secrets age (Some h) read project e k =
    (case map_of (rev kvs) k of Some v \<Rightarrow> Some v | None \<Rightarrow> e k)"
  using assms by (simp add: load_secrets_def parse_print_settings export_settings)

theorem secrets_roundtrip_witness:
  "load_secrets \<lparr>ag_identity = Some, ag_decrypt = (\<lambda>_. Some)\<rparr> (Some ''/home/app'')
     [''/home/app/.secrets/demo.env.age'' \<mapsto> print_settings [(''GOAI_API_KEY'', ''a=b c''), (''HOST'', '''')]] ''demo''
     [''AGE_SECRET_KEY'' \<mapsto> ''k''] ''GOAI_API_KEY'' = Some ''a=b c''"
proof -
  have "join_path [''/home/app'', ''.secrets'', ''demo'' @ ''.env.age''] = ''/home/app/.secrets/demo.env.age''"
    by code_simp
  then show ?thesis
    using secrets_roundtrip [of "[(''GOAI_API_KEY'', ''a=b c''), (''HOST'', '''')]" "''demo''"
        "[''AGE_SECRET_KEY'' \<mapsto> ''k'']" "\<lparr>ag_identity = Some, ag_decrypt = (\<lambda>_. Some)\<rparr>" "''k''"
        "[''/home/app/.secrets/demo.env.age'' \<mapsto> print_settings [(''GOAI_API_KEY'', ''a=b c''), (''HOST'', '''')]]"
        "''/home/app''" "print_settings [(''GOAI_API_KEY'', ''a=b c''), (''HOST'', '''')]" "''GOAI_API_KEY''"]
    by (simp add: setting_ok_def tight_def is_blank_def get_os_env_def)
qed

end
