(* ===== verification/Collab.thy ===== *)
theory Collab
  imports Llm Hub
begin

text \<open>
  Collaborative documents, \<open>internal/collab\<close>: the document of a whiteboard on a Loro map of shapes
  (\<open>collab.go\<close>), the shared store of documents (\<open>docstore.go\<close>), the worker behind the whiteboard's
  requests (\<open>sync_web.go\<close>), the publisher and the subscriber of other instances' updates (\<open>publish.go\<close>,
  \<open>sync.go\<close>).  Loro is the parameter \<open>board_api\<close>, NATS the function that publishes.  A \<open>float64\<close> is
  represented by the literal \<open>encoding/json\<close> prints for it; \<open>cn\<close> takes a number literal to that of the
  nearest float, \<open>None\<close> if it is out of range.
\<close>

subsection \<open>Shapes\<close>

record shape =
  sh_id :: string
  sh_type :: string
  sh_x :: string
  sh_y :: string
  sh_w :: string
  sh_h :: string
  sh_points :: "string list option"
  sh_color :: string
  sh_author :: string

record shape_op =
  so_op :: string
  so_shape :: shape

definition zero_shape :: shape where
  "zero_shape = \<lparr>sh_id = '''', sh_type = '''', sh_x = ''0'', sh_y = ''0'', sh_w = ''0'', sh_h = ''0'',
     sh_points = None, sh_color = '''', sh_author = ''''\<rparr>"

definition json_points :: "string list option \<Rightarrow> jval" where
  "json_points p = (case p of None \<Rightarrow> JNull | Some xs \<Rightarrow> JArr (map JNum xs))"

definition shape_json :: "shape \<Rightarrow> jval" where
  "shape_json s = JObj ([(''id'', JStr (sh_id s)), (''type'', JStr (sh_type s)), (''x'', JNum (sh_x s)),
     (''y'', JNum (sh_y s)), (''w'', JNum (sh_w s)), (''h'', JNum (sh_h s))] @
     (if sh_points s = None \<or> sh_points s = Some [] then [] else [(''points'', json_points (sh_points s))]) @
     [(''color'', JStr (sh_color s))] @ (if sh_author s = '''' then [] else [(''author'', JStr (sh_author s))]))"

definition json_shapes :: "shape list option \<Rightarrow> jval" where
  "json_shapes ss = (case ss of None \<Rightarrow> JNull | Some xs \<Rightarrow> JArr (map shape_json xs))"

fun dec_float :: "(string \<Rightarrow> string option) \<Rightarrow> string \<Rightarrow> jval \<Rightarrow> string option" where
  "dec_float cn old (JNum s) = cn s"
| "dec_float cn old JNull = Some old"
| "dec_float cn old _ = None"

fun dec_floats :: "(string \<Rightarrow> string option) \<Rightarrow> jval list \<Rightarrow> string list option" where
  "dec_floats cn [] = Some []"
| "dec_floats cn (v # vs) = (case dec_float cn ''0'' v of
     None \<Rightarrow> None | Some x \<Rightarrow> map_option ((#) x) (dec_floats cn vs))"

fun dec_points :: "(string \<Rightarrow> string option) \<Rightarrow> string list option \<Rightarrow> jval \<Rightarrow> string list option option" where
  "dec_points cn old (JArr vs) = map_option Some (dec_floats cn vs)"
| "dec_points cn old JNull = Some None"
| "dec_points cn old _ = None"

fun dec_shape :: "(string \<Rightarrow> string option) \<Rightarrow> shape \<Rightarrow> jval \<Rightarrow> shape option" where
  "dec_shape cn s (JObj kvs) =
     (case decode_field dec_str (sh_id s) ''id'' kvs of None \<Rightarrow> None | Some i \<Rightarrow>
     (case decode_field dec_str (sh_type s) ''type'' kvs of None \<Rightarrow> None | Some t \<Rightarrow>
     (case decode_field (dec_float cn) (sh_x s) ''x'' kvs of None \<Rightarrow> None | Some x \<Rightarrow>
     (case decode_field (dec_float cn) (sh_y s) ''y'' kvs of None \<Rightarrow> None | Some y \<Rightarrow>
     (case decode_field (dec_float cn) (sh_w s) ''w'' kvs of None \<Rightarrow> None | Some w \<Rightarrow>
     (case decode_field (dec_float cn) (sh_h s) ''h'' kvs of None \<Rightarrow> None | Some h \<Rightarrow>
     (case decode_field (dec_points cn) (sh_points s) ''points'' kvs of None \<Rightarrow> None | Some p \<Rightarrow>
     (case decode_field dec_str (sh_color s) ''color'' kvs of None \<Rightarrow> None | Some c \<Rightarrow>
     (case decode_field dec_str (sh_author s) ''author'' kvs of None \<Rightarrow> None | Some a \<Rightarrow>
       Some \<lparr>sh_id = i, sh_type = t, sh_x = x, sh_y = y, sh_w = w, sh_h = h, sh_points = p, sh_color = c,
         sh_author = a\<rparr>)))))))))"
| "dec_shape cn s JNull = Some s"
| "dec_shape cn s _ = None"

definition decode_shape_op :: "(string \<Rightarrow> string option) \<Rightarrow> bytes \<Rightarrow> shape_op option" where
  "decode_shape_op cn body = (case unmarshal body of
     Some JNull \<Rightarrow> Some \<lparr>so_op = '''', so_shape = zero_shape\<rparr>
   | Some (JObj kvs) \<Rightarrow>
       (case decode_field dec_str '''' ''op'' kvs of None \<Rightarrow> None | Some p \<Rightarrow>
          map_option (\<lambda>s. \<lparr>so_op = p, so_shape = s\<rparr>) (decode_field (dec_shape cn) zero_shape ''shape'' kvs))
   | _ \<Rightarrow> None)"

subsection \<open>Documents\<close>

datatype bval = BStr string | BNum string

datatype bentry = BLeaf bval | BMap "string \<rightharpoonup> bval"

record 'd board_api =
  bo_new :: 'd
  bo_lookup :: "'d \<Rightarrow> string \<Rightarrow> bentry option"
  bo_insert_map :: "string \<Rightarrow> 'd \<Rightarrow> 'd \<times> bool"
  bo_put :: "string \<Rightarrow> string \<Rightarrow> bval \<Rightarrow> 'd \<Rightarrow> 'd \<times> bool"
  bo_clear :: "'d \<Rightarrow> 'd \<times> bool"
  bo_all :: "'d \<Rightarrow> (string \<times> bentry) list"
  bo_export :: "'d \<Rightarrow> bytes option"
  bo_import :: "bytes \<Rightarrow> 'd \<Rightarrow> 'd \<times> bool"
  bo_items :: "'d \<Rightarrow> string \<rightharpoonup> bentry"

text \<open>The documented behaviour of Loro's maps; \<open>bo_items\<close> is the content, read by the laws only.\<close>

definition board_laws :: "'d board_api \<Rightarrow> bool" where
  "board_laws B \<longleftrightarrow> bo_items B (bo_new B) = Map.empty \<and>
     (\<forall>d. bo_lookup B d = bo_items B d) \<and>
     (\<forall>d i. snd (bo_insert_map B i d) \<and> bo_items B (fst (bo_insert_map B i d)) = (bo_items B d)(i \<mapsto> BMap Map.empty)) \<and>
     (\<forall>d i f v m. bo_items B d i = Some (BMap m) \<longrightarrow> snd (bo_put B i f v d) \<and>
        bo_items B (fst (bo_put B i f v d)) = (bo_items B d)(i \<mapsto> BMap (m(f \<mapsto> v)))) \<and>
     (\<forall>d. snd (bo_clear B d) \<and> bo_items B (fst (bo_clear B d)) = Map.empty) \<and>
     (\<forall>d. distinct (map fst (bo_all B d)) \<and> map_of (bo_all B d) = bo_items B d)"

definition loro_failed :: go_error where "loro_failed = Plain ''loro''"

definition shape_fields :: "shape \<Rightarrow> (string \<times> bval) list" where
  "shape_fields s = [(''id'', BStr (sh_id s)), (''type'', BStr (sh_type s)), (''x'', BNum (sh_x s)), (''y'', BNum (sh_y s)),
     (''w'', BNum (sh_w s)), (''h'', BNum (sh_h s)), (''points'', BStr (marshal (json_points (sh_points s)))),
     (''color'', BStr (sh_color s)), (''author'', BStr (sh_author s))]"

fun put_shape_fields :: "'d board_api \<Rightarrow> string \<Rightarrow> (string \<times> bval) list \<Rightarrow> 'd \<Rightarrow> 'd \<times> bool" where
  "put_shape_fields B i [] d = (d, True)"
| "put_shape_fields B i ((f, v) # fs) d = (case bo_put B i f v d of
     (d', False) \<Rightarrow> (d', False) | (d', True) \<Rightarrow> put_shape_fields B i fs d')"

definition write_shape :: "'d board_api \<Rightarrow> string \<Rightarrow> shape \<Rightarrow> 'd \<Rightarrow> 'd \<times> bool" where
  "write_shape B i s d = put_shape_fields B i (shape_fields s) d"

definition get_str :: "(string \<rightharpoonup> bval) \<Rightarrow> string \<Rightarrow> string" where
  "get_str m k = (case m k of Some (BStr s) \<Rightarrow> s | _ \<Rightarrow> '''')"

definition get_f64 :: "(string \<rightharpoonup> bval) \<Rightarrow> string \<Rightarrow> string" where
  "get_f64 m k = (case m k of Some (BNum x) \<Rightarrow> x | _ \<Rightarrow> ''0'')"

text \<open>\<open>None\<close> is the error of a points text that does not parse.\<close>

definition read_shape :: "(string \<Rightarrow> string option) \<Rightarrow> string \<Rightarrow> (string \<rightharpoonup> bval) \<Rightarrow> shape option" where
  "read_shape cn i m =
     (let raw = get_str m ''points'' in
      case (if raw = '''' then Some None
            else case unmarshal raw of None \<Rightarrow> None | Some v \<Rightarrow> dec_points cn None v) of
        None \<Rightarrow> None
      | Some pts \<Rightarrow> Some \<lparr>sh_id = i, sh_type = get_str m ''type'', sh_x = get_f64 m ''x'', sh_y = get_f64 m ''y'',
          sh_w = get_f64 m ''w'', sh_h = get_f64 m ''h'', sh_points = pts, sh_color = get_str m ''color'',
          sh_author = get_str m ''author''\<rparr>)"

fun read_shape_entries :: "(string \<Rightarrow> string option) \<Rightarrow> (string \<times> bentry) list \<Rightarrow> shape list option" where
  "read_shape_entries cn [] = Some []"
| "read_shape_entries cn ((i, BLeaf _) # es) = read_shape_entries cn es"
| "read_shape_entries cn ((i, BMap m) # es) = (case read_shape cn i m of
     None \<Rightarrow> None | Some s \<Rightarrow> map_option ((#) s) (read_shape_entries cn es))"

definition read_shapes :: "(string \<Rightarrow> string option) \<Rightarrow> 'd board_api \<Rightarrow> 'd \<Rightarrow> shape list option" where
  "read_shapes cn B d = read_shape_entries cn (bo_all B d)"

definition doc_shapes :: "(string \<Rightarrow> string option) \<Rightarrow> 'd board_api \<Rightarrow> 'd \<Rightarrow> shape list option" where
  "doc_shapes cn B d = (case read_shapes cn B d of None \<Rightarrow> None | Some ss \<Rightarrow> Some ss)"

definition apply_shape_op ::
  "(string \<Rightarrow> string option) \<Rightarrow> 'd board_api \<Rightarrow> shape_op \<Rightarrow> 'd \<Rightarrow> 'd \<times> (go_error + shape list)" where
  "apply_shape_op cn B p d0 =
     (let finish = (\<lambda>d. case read_shapes cn B d of None \<Rightarrow> (d, Inl (Plain ''points'')) | Some ss \<Rightarrow> (d, Inr ss)) in
      if so_op p = ''add'' then
        (let i = sh_id (so_shape p) in
         case (case bo_lookup B d0 i of Some (BMap m) \<Rightarrow> (d0, True) | _ \<Rightarrow> bo_insert_map B i d0) of
           (d1, False) \<Rightarrow> (d1, Inl loro_failed)
         | (d1, True) \<Rightarrow> (case write_shape B i (so_shape p) d1 of
              (d2, False) \<Rightarrow> (d2, Inl loro_failed)
            | (d2, True) \<Rightarrow> finish d2))
      else if so_op p = ''clear'' then
        (case bo_clear B d0 of (d1, False) \<Rightarrow> (d1, Inl loro_failed) | (d1, True) \<Rightarrow> finish d1)
      else (d0, Inl (Plain (''unknown shape op '' @ go_quote (so_op p)))))"

definition import_update :: "'d board_api \<Rightarrow> bytes \<Rightarrow> 'd \<Rightarrow> 'd \<times> bool" where
  "import_update B upd d = bo_import B upd d"

text \<open>\<open>None\<close>: the export failed and the code panics.\<close>

definition encode_snapshot :: "'d board_api \<Rightarrow> 'd \<Rightarrow> bytes option" where
  "encode_snapshot B d = bo_export B d"

definition get_or_create :: "'d board_api \<Rightarrow> string \<Rightarrow> (string \<rightharpoonup> 'd) \<Rightarrow> (string \<rightharpoonup> 'd) \<times> 'd" where
  "get_or_create B i docs = (case docs i of Some d \<Rightarrow> (docs, d) | None \<Rightarrow> (docs(i \<mapsto> bo_new B), bo_new B))"

subsection \<open>Persistence\<close>

record 'p persister =
  ps_save :: "string \<Rightarrow> bytes \<Rightarrow> 'p \<Rightarrow> 'p \<times> bool"
  ps_load :: "string \<Rightarrow> 'p \<Rightarrow> bytes option"

definition memory_save :: "string \<Rightarrow> bytes \<Rightarrow> (string \<rightharpoonup> bytes) \<Rightarrow> (string \<rightharpoonup> bytes) \<times> bool" where
  "memory_save i snap m = (m(i \<mapsto> snap), True)"

definition memory_load :: "string \<Rightarrow> (string \<rightharpoonup> bytes) \<Rightarrow> bytes option" where
  "memory_load i m = m i"

text \<open>The rows of the collection \<open>whiteboards\<close> and PocketBase's calls on it: finding the first row of a
  document, and saving a row (\<open>br_id\<close> empty: a new one).\<close>

record board_row =
  br_id :: string
  br_doc :: string
  br_version :: int
  br_snapshot :: bytes

record 'db board_app =
  ba_collection :: "'db \<Rightarrow> bool"
  ba_find :: "string \<Rightarrow> 'db \<Rightarrow> board_row option"
  ba_save :: "board_row \<Rightarrow> 'db \<Rightarrow> 'db \<times> bool"

definition pb_save_snapshot :: "'db board_app \<Rightarrow> string \<Rightarrow> bytes \<Rightarrow> 'db \<Rightarrow> 'db \<times> bool" where
  "pb_save_snapshot A i snap db =
     (if \<not> ba_collection A db then (db, False)
      else let r = (case ba_find A i db of
          None \<Rightarrow> \<lparr>br_id = '''', br_doc = i, br_version = 1, br_snapshot = []\<rparr>
        | Some r \<Rightarrow> r\<lparr>br_version := br_version r + 1\<rparr>)
      in ba_save A (r\<lparr>br_snapshot := snap\<rparr>) db)"

definition pb_load_snapshot :: "'db board_app \<Rightarrow> string \<Rightarrow> 'db \<Rightarrow> bytes option" where
  "pb_load_snapshot A i db = (case ba_find A i db of
     None \<Rightarrow> None | Some r \<Rightarrow> if br_snapshot r = [] then None else Some (br_snapshot r))"

subsection \<open>The web worker\<close>

text \<open>What the workers of a process share: the documents, the persisted snapshots, the hub and the state
  of NATS, where \<open>pub\<close> publishes (\<open>None\<close>: no NATS).\<close>

record ('d, 'p, 'n) collab =
  cl_docs :: "string \<rightharpoonup> 'd"
  cl_store :: 'p
  cl_hub :: "bytes hub"
  cl_nats :: 'n

type_synonym 'n nats_pub = "string \<Rightarrow> bytes \<Rightarrow> 'n \<Rightarrow> 'n \<times> bool"

definition nats_sync_subject :: "string \<Rightarrow> string" where
  "nats_sync_subject i = ''app.sync.'' @ i"

definition save_doc :: "'p persister option \<Rightarrow> string \<Rightarrow> bytes \<Rightarrow> ('d, 'p, 'n) collab \<Rightarrow> ('d, 'p, 'n) collab" where
  "save_doc ps i snap st = (case ps of None \<Rightarrow> st
   | Some p \<Rightarrow> st\<lparr>cl_store := fst (ps_save p i snap (cl_store st))\<rparr>)"

definition send_nats :: "'n nats_pub option \<Rightarrow> string \<Rightarrow> bytes \<Rightarrow> ('d, 'p, 'n) collab \<Rightarrow> ('d, 'p, 'n) collab" where
  "send_nats pub i msg st = (case pub of None \<Rightarrow> st
   | Some f \<Rightarrow> st\<lparr>cl_nats := fst (f (nats_sync_subject i) msg (cl_nats st))\<rparr>)"

definition tell_others ::
  "(bytes hub \<Rightarrow> string list) \<Rightarrow> string \<Rightarrow> bytes \<Rightarrow> ('d, 'p, 'n) collab \<Rightarrow> ('d, 'p, 'n) collab" where
  "tell_others ord origin msg st = st\<lparr>cl_hub := broadcast_except (ord (cl_hub st)) msg origin (cl_hub st)\<rparr>"

definition put_doc :: "string \<Rightarrow> 'd \<Rightarrow> ('d, 'p, 'n) collab \<Rightarrow> ('d, 'p, 'n) collab" where
  "put_doc i d st = st\<lparr>cl_docs := (cl_docs st)(i \<mapsto> d)\<rparr>"

definition update_event :: "string \<Rightarrow> string \<Rightarrow> bytes \<Rightarrow> bytes" where
  "update_event i origin upd = marshal (JObj [(''type'', JStr ''update''), (''doc'', JStr i), (''from'', JStr origin),
     (''data'', json_bytes upd)])"

definition shapes_event :: "string \<Rightarrow> string \<Rightarrow> shape list option \<Rightarrow> bytes" where
  "shapes_event i origin ss = marshal (JObj [(''type'', JStr ''shapes''), (''doc'', JStr i), (''from'', JStr origin),
     (''shapes'', json_shapes ss)])"

text \<open>\<open>ApplyUpdate\<close>; \<open>None\<close> is the panic of a failing export.\<close>

definition web_apply_update ::
  "'d board_api \<Rightarrow> 'p persister option \<Rightarrow> 'n nats_pub option \<Rightarrow> (bytes hub \<Rightarrow> string list) \<Rightarrow> string \<Rightarrow> string \<Rightarrow> bytes \<Rightarrow>
   ('d, 'p, 'n) collab \<Rightarrow> (('d, 'p, 'n) collab \<times> nat option) option" where
  "web_apply_update B ps pub ord i origin upd st0 =
     (case get_or_create B i (cl_docs st0) of (docs, d0) \<Rightarrow>
       (case import_update B upd d0 of (d, ok) \<Rightarrow>
          let st1 = put_doc i d (st0\<lparr>cl_docs := docs\<rparr>) in
          if \<not> ok then Some (st1, None)
          else (case encode_snapshot B d of
             None \<Rightarrow> None
           | Some snap \<Rightarrow>
               Some (send_nats pub i upd (tell_others ord origin (update_event i origin upd) (save_doc ps i snap st1)),
                     Some (length snap)))))"

text \<open>\<open>ApplyOp\<close>.\<close>

definition web_apply_op ::
  "(string \<Rightarrow> string option) \<Rightarrow> 'd board_api \<Rightarrow> 'p persister option \<Rightarrow> 'n nats_pub option \<Rightarrow> (bytes hub \<Rightarrow> string list) \<Rightarrow>
   string \<Rightarrow> string \<Rightarrow> shape_op \<Rightarrow> ('d, 'p, 'n) collab \<Rightarrow> (('d, 'p, 'n) collab \<times> (go_error + shape list)) option" where
  "web_apply_op cn B ps pub ord i origin p st0 =
     (case get_or_create B i (cl_docs st0) of (docs, d0) \<Rightarrow>
       (case apply_shape_op cn B p d0 of (d, r) \<Rightarrow>
          let st1 = put_doc i d (st0\<lparr>cl_docs := docs\<rparr>) in
          (case r of
             Inl e \<Rightarrow> Some (st1, Inl e)
           | Inr ss \<Rightarrow> (case encode_snapshot B d of
               None \<Rightarrow> None
             | Some snap \<Rightarrow>
                 Some (send_nats pub i snap (tell_others ord origin (shapes_event i origin (Some ss)) (save_doc ps i snap st1)),
                       Inr ss)))))"

text \<open>\<open>Shapes\<close>: \<open>None\<close> is the nil list after a read error.\<close>

definition web_shapes ::
  "(string \<Rightarrow> string option) \<Rightarrow> 'd board_api \<Rightarrow> string \<Rightarrow> ('d, 'p, 'n) collab \<Rightarrow> ('d, 'p, 'n) collab \<times> shape list option" where
  "web_shapes cn B i st = (case get_or_create B i (cl_docs st) of (docs, d) \<Rightarrow>
     (st\<lparr>cl_docs := docs\<rparr>, doc_shapes cn B d))"

definition web_load_snapshot ::
  "'d board_api \<Rightarrow> 'p persister option \<Rightarrow> string \<Rightarrow> ('d, 'p, 'n) collab \<Rightarrow> ('d, 'p, 'n) collab \<times> bytes option" where
  "web_load_snapshot B ps i st = (case ps of None \<Rightarrow> (st, None)
   | Some p \<Rightarrow> (case ps_load p i (cl_store st) of None \<Rightarrow> (st, None)
     | Some snap \<Rightarrow> (case get_or_create B i (cl_docs st) of (docs, d0) \<Rightarrow>
         (case import_update B snap d0 of (d, ok) \<Rightarrow>
            (put_doc i d (st\<lparr>cl_docs := docs\<rparr>), if ok then Some snap else None)))))"

subsection \<open>Other instances\<close>

definition doc_id_from_subject :: "string \<Rightarrow> string" where
  "doc_id_from_subject subject = (let parts = split_byte (CHR ''.'') subject in
     if length parts < 3 then '''' else parts ! 2)"

text \<open>The subscription's callback; \<open>None\<close> is a panic.\<close>

definition on_sync_message ::
  "'d board_api \<Rightarrow> 'p persister \<Rightarrow> string \<Rightarrow> bytes \<Rightarrow> ('d, 'p, 'n) collab \<Rightarrow> ('d, 'p, 'n) collab option" where
  "on_sync_message B p subject msg st =
     (let i = doc_id_from_subject subject in
      if i = '''' then Some st
      else (case get_or_create B i (cl_docs st) of (docs, d0) \<Rightarrow>
        (case import_update B msg d0 of (d, ok) \<Rightarrow>
           let st1 = put_doc i d (st\<lparr>cl_docs := docs\<rparr>) in
           if \<not> ok then Some st1
           else map_option (\<lambda>snap. save_doc (Some p) i snap st1) (encode_snapshot B d))))"

text \<open>The publisher of an edge: a delta of its document, here with what it exports for the version given.\<close>

definition publish_update_of ::
  "('d \<Rightarrow> 'v \<Rightarrow> bytes option) \<Rightarrow> 'n nats_pub \<Rightarrow> string \<Rightarrow> 'd \<Rightarrow> 'v \<Rightarrow> 'n \<Rightarrow> 'n \<times> bool" where
  "publish_update_of export_since f i d since n = (case export_since d since of
     None \<Rightarrow> (n, False) | Some upd \<Rightarrow> f (''app.sync.'' @ i) upd n)"

subsection \<open>A board as a map of shapes\<close>

text \<open>What is assumed of the float conversion: the literals it yields are canonical number literals.\<close>

definition number_parser :: "(string \<Rightarrow> string option) \<Rightarrow> bool" where
  "number_parser cn \<longleftrightarrow> cn ''0'' = Some ''0'' \<and>
     (\<forall>s t. cn s = Some t \<longrightarrow> cn t = Some t \<and> valid_num t \<and> list_all num_char t)"

definition points_ok :: "(string \<Rightarrow> string option) \<Rightarrow> string list option \<Rightarrow> bool" where
  "points_ok cn p \<longleftrightarrow> (\<forall>xs. p = Some xs \<longrightarrow> (\<forall>x \<in> set xs. cn x = Some x))"

definition shape_at :: "(string \<Rightarrow> string option) \<Rightarrow> string \<Rightarrow> bentry option \<Rightarrow> shape option" where
  "shape_at cn i e = (case e of Some (BMap m) \<Rightarrow> read_shape cn i m | _ \<Rightarrow> None)"

definition board_view :: "(string \<Rightarrow> string option) \<Rightarrow> 'd board_api \<Rightarrow> 'd \<Rightarrow> string \<rightharpoonup> shape" where
  "board_view cn B d = (\<lambda>i. shape_at cn i (bo_items B d i))"

text \<open>No entry of the document has a points text that does not parse.\<close>

definition readable :: "(string \<Rightarrow> string option) \<Rightarrow> 'd board_api \<Rightarrow> 'd \<Rightarrow> bool" where
  "readable cn B d \<longleftrightarrow> (\<forall>i m. bo_items B d i = Some (BMap m) \<longrightarrow> read_shape cn i m \<noteq> None)"

text \<open>The specification of an op: what it does to the map of shapes, \<open>None\<close> for an unknown op.\<close>

definition board_apply :: "shape_op \<Rightarrow> (string \<rightharpoonup> shape) \<Rightarrow> (string \<rightharpoonup> shape) option" where
  "board_apply p b = (if so_op p = ''add'' then Some (b(sh_id (so_shape p) \<mapsto> so_shape p))
     else if so_op p = ''clear'' then Some Map.empty else None)"

definition lists_board :: "shape list \<Rightarrow> (string \<rightharpoonup> shape) \<Rightarrow> bool" where
  "lists_board ss b \<longleftrightarrow> distinct (map sh_id ss) \<and> map_of (map (\<lambda>s. (sh_id s, s)) ss) = b"

lemma number_parserD:
  "number_parser cn \<Longrightarrow> cn ''0'' = Some ''0''"
  "number_parser cn \<Longrightarrow> cn s = Some t \<Longrightarrow> cn t = Some t"
  "number_parser cn \<Longrightarrow> cn s = Some t \<Longrightarrow> valid_num t"
  "number_parser cn \<Longrightarrow> cn s = Some t \<Longrightarrow> list_all num_char t"
  by (simp_all add: number_parser_def)

lemma dec_float_canonical:
  "number_parser cn \<Longrightarrow> cn old = Some old \<Longrightarrow> dec_float cn old v = Some x \<Longrightarrow> cn x = Some x"
  by (cases v) (auto dest: number_parserD(2) [rotated])

lemma dec_floats_canonical:
  assumes "number_parser cn"
  shows "dec_floats cn vs = Some xs \<Longrightarrow> \<forall>x \<in> set xs. cn x = Some x"
proof (induction vs arbitrary: xs)
  case (Cons v vs)
  then obtain x ys where "dec_float cn ''0'' v = Some x" "dec_floats cn vs = Some ys" "xs = x # ys"
    by (auto split: option.splits)
  with Cons.IH dec_float_canonical [OF assms number_parserD(1) [OF assms]] show ?case by simp
qed simp

lemma dec_points_canonical:
  "number_parser cn \<Longrightarrow> points_ok cn old \<Longrightarrow> dec_points cn old v = Some p \<Longrightarrow> points_ok cn p"
  by (cases v) (auto simp: points_ok_def dest: dec_floats_canonical)

lemma decode_field_inv:
  assumes "\<And>old v new. P old \<Longrightarrow> conv old v = Some new \<Longrightarrow> P new"
  shows "decode_field conv z name kvs = Some r \<Longrightarrow> P z \<Longrightarrow> P r"
proof (induction kvs arbitrary: z)
  case (Cons kv kvs)
  obtain k v where kv: "kv = (k, v)" by (cases kv)
  show ?case
  proof (cases "to_lower k = to_lower name")
    case True
    with Cons.prems(1) obtain y where y: "conv z v = Some y" "decode_field conv y name kvs = Some r"
      by (simp add: kv decode_field_Cons split: option.splits)
    from Cons.IH [OF y(2) assms [OF Cons.prems(2) y(1)]] show ?thesis .
  next
    case False
    with Cons show ?thesis by (simp add: kv decode_field_Cons)
  qed
qed simp

lemma dec_shape_canonical:
  assumes "number_parser cn" and "points_ok cn (sh_points s)" and "dec_shape cn s v = Some t"
  shows "points_ok cn (sh_points t)"
proof (cases v)
  case (JObj kvs)
  with assms(3) obtain p where p: "decode_field (dec_points cn) (sh_points s) ''points'' kvs = Some p" "sh_points t = p"
    by (auto split: option.splits)
  have "points_ok cn p"
    by (rule decode_field_inv [where P = "points_ok cn", OF _ p(1) assms(2)])
      (rule dec_points_canonical [OF assms(1)])
  with p(2) show ?thesis by simp
qed (use assms in auto)

text \<open>A decoded op carries points that can be written and read back.\<close>

lemma decode_shape_op_points:
  assumes "number_parser cn" and "decode_shape_op cn body = Some p"
  shows "points_ok cn (sh_points (so_shape p))"
proof -
  have z: "points_ok cn (sh_points zero_shape)" by (simp add: points_ok_def zero_shape_def)
  from assms(2) have "so_shape p = zero_shape \<or>
      (\<exists>kvs. decode_field (dec_shape cn) zero_shape ''shape'' kvs = Some (so_shape p))"
    by (auto simp: decode_shape_op_def split: option.splits jval.splits)
  then show ?thesis
  proof (elim disjE exE)
    fix kvs assume "decode_field (dec_shape cn) zero_shape ''shape'' kvs = Some (so_shape p)"
    from this z show ?thesis
      by (rule decode_field_inv [where P = "\<lambda>s. points_ok cn (sh_points s)", rotated])
        (rule dec_shape_canonical [OF assms(1)])
  qed (simp add: z)
qed

subsection \<open>Writing and reading shapes\<close>

lemma board_lawsD:
  assumes "board_laws B"
  shows "bo_items B (bo_new B) = Map.empty" "bo_lookup B d = bo_items B d"
    "bo_insert_map B i d = (d1, b) \<Longrightarrow> b \<and> bo_items B d1 = (bo_items B d)(i \<mapsto> BMap Map.empty)"
    "bo_items B d i = Some (BMap m) \<Longrightarrow> bo_put B i f v d = (d1, b) \<Longrightarrow>
       b \<and> bo_items B d1 = (bo_items B d)(i \<mapsto> BMap (m(f \<mapsto> v)))"
    "bo_clear B d = (d1, b) \<Longrightarrow> b \<and> bo_items B d1 = Map.empty"
    "distinct (map fst (bo_all B d))" "map_of (bo_all B d) = bo_items B d"
proof -
  note laws = assms [unfolded board_laws_def]
  show "bo_items B (bo_new B) = Map.empty" using laws by blast
  show "bo_lookup B d = bo_items B d" using laws by blast
  show "bo_insert_map B i d = (d1, b) \<Longrightarrow> b \<and> bo_items B d1 = (bo_items B d)(i \<mapsto> BMap Map.empty)"
    using laws by (metis fst_conv snd_conv)
  show "bo_items B d i = Some (BMap m) \<Longrightarrow> bo_put B i f v d = (d1, b) \<Longrightarrow>
       b \<and> bo_items B d1 = (bo_items B d)(i \<mapsto> BMap (m(f \<mapsto> v)))"
    using laws by (metis fst_conv snd_conv)
  show "bo_clear B d = (d1, b) \<Longrightarrow> b \<and> bo_items B d1 = Map.empty"
    using laws by (metis fst_conv snd_conv)
  show "distinct (map fst (bo_all B d))" using laws by blast
  show "map_of (bo_all B d) = bo_items B d" using laws by blast
qed

lemma put_shape_fields_ok:
  assumes "board_laws B"
  shows "bo_items B d i = Some (BMap m) \<Longrightarrow> put_shape_fields B i fs d = (d', b) \<Longrightarrow>
    b \<and> bo_items B d' = (bo_items B d)(i \<mapsto> BMap (m ++ map_of (rev fs)))"
proof (induction fs arbitrary: d m)
  case (Cons fv fs)
  obtain f v where fv: "fv = (f, v)" by (cases fv)
  obtain d1 b1 where put: "bo_put B i f v d = (d1, b1)" by fastforce
  from board_lawsD(4) [OF assms Cons.prems(1) put] have b1: "b1"
    and items: "bo_items B d1 = (bo_items B d)(i \<mapsto> BMap (m(f \<mapsto> v)))" by simp_all
  have "put_shape_fields B i fs d1 = (d', b)" using Cons.prems(2) put b1 fv by simp
  with Cons.IH [of d1 "m(f \<mapsto> v)"] items show ?case by (auto simp: fv map_add_def fun_eq_iff split: option.splits)
qed auto

lemma dec_floats_nums: "\<forall>x \<in> set xs. cn x = Some x \<Longrightarrow> dec_floats cn (map JNum xs) = Some xs"
  by (induction xs) auto

lemma points_roundtrip:
  assumes "number_parser cn" and "points_ok cn p"
  shows "marshal (json_points p) \<noteq> ''''" "unmarshal (marshal (json_points p)) = Some (json_points p)"
    "dec_points cn None (json_points p) = Some p"
proof -
  show ne: "marshal (json_points p) \<noteq> ''''" by (cases p) (simp_all add: json_points_def)
  have "wf_json (json_points p)"
    using assms(2) number_parserD(3,4) [OF assms(1)]
    by (cases p) (auto simp: json_points_def points_ok_def list_all_iff)
  then show "unmarshal (marshal (json_points p)) = Some (json_points p)" by simp
  show "dec_points cn None (json_points p) = Some p"
    using assms(2) by (cases p) (auto simp: json_points_def points_ok_def intro: dec_floats_nums)
qed

lemma read_written_shape:
  assumes "number_parser cn" and "points_ok cn (sh_points s)"
  shows "read_shape cn (sh_id s) (m ++ map_of (rev (shape_fields s))) = Some s"
proof -
  let ?n = "m ++ map_of (rev (shape_fields s))"
  have strs: "get_str ?n ''type'' = sh_type s" "get_str ?n ''color'' = sh_color s" "get_str ?n ''author'' = sh_author s"
    "get_str ?n ''points'' = marshal (json_points (sh_points s))"
    by (simp_all add: get_str_def shape_fields_def map_add_def)
  have nums: "get_f64 ?n ''x'' = sh_x s" "get_f64 ?n ''y'' = sh_y s" "get_f64 ?n ''w'' = sh_w s" "get_f64 ?n ''h'' = sh_h s"
    by (simp_all add: get_f64_def shape_fields_def map_add_def)
  note pts = points_roundtrip [OF assms]
  show ?thesis unfolding read_shape_def strs nums using pts by (simp add: Let_def)
qed

lemma read_shape_id: "read_shape cn i m = Some s \<Longrightarrow> sh_id s = i"
  by (auto simp: read_shape_def Let_def split: option.splits if_splits)

lemma shape_at_id: "shape_at cn i e = Some s \<Longrightarrow> sh_id s = i"
  by (auto simp: shape_at_def dest: read_shape_id split: option.splits bentry.splits)

lemma read_entries_lists:
  assumes "\<And>i m. (i, BMap m) \<in> set es \<Longrightarrow> read_shape cn i m \<noteq> None" and "distinct (map fst es)"
  shows "\<exists>ss. read_shape_entries cn es = Some ss \<and> sh_id ` set ss \<subseteq> fst ` set es \<and>
    lists_board ss (\<lambda>i. shape_at cn i (map_of es i))"
  using assms
proof (induction es)
  case Nil
  then show ?case by (simp add: lists_board_def shape_at_def)
next
  case (Cons e es)
  then obtain ss where ss: "read_shape_entries cn es = Some ss" "sh_id ` set ss \<subseteq> fst ` set es"
    "distinct (map sh_id ss)" "map_of (map (\<lambda>s. (sh_id s, s)) ss) = (\<lambda>i. shape_at cn i (map_of es i))"
    by (auto simp: lists_board_def)
  obtain i be where e: "e = (i, be)" by (cases e)
  have new: "i \<notin> fst ` set es" "i \<notin> sh_id ` set ss" using Cons.prems(2) e ss(2) by auto
  then have none: "shape_at cn i (map_of es i) = None" by (simp add: shape_at_def map_of_eq_None_iff [THEN iffD2])
  show ?case
  proof (cases be)
    case (BLeaf v)
    have "shape_at cn x (map_of (e # es) x) = shape_at cn x (map_of es x)" for x
      using none by (cases "x = i") (simp_all add: e BLeaf shape_at_def)
    then show ?thesis using ss e BLeaf by (auto simp: lists_board_def)
  next
    case (BMap m)
    with Cons.prems(1) [of i m] e obtain s where s: "read_shape cn i m = Some s" by auto
    note sid = read_shape_id [OF s]
    have "(\<lambda>x. shape_at cn x (map_of (e # es) x)) = (\<lambda>x. shape_at cn x (map_of es x))(i \<mapsto> s)"
      using s by (auto simp: e BMap shape_at_def)
    then show ?thesis using ss e BMap s sid new by (auto simp: lists_board_def)
  qed
qed

lemma read_shapes_lists:
  assumes "board_laws B" and "readable cn B d"
  obtains ss where "read_shapes cn B d = Some ss" "lists_board ss (board_view cn B d)"
proof -
  note all = board_lawsD(6,7) [OF assms(1), of d]
  have "read_shape cn i m \<noteq> None" if "(i, BMap m) \<in> set (bo_all B d)" for i m
    using map_of_is_SomeI [OF all(1) that] assms(2) all(2) by (auto simp: readable_def)
  from read_entries_lists [OF this all(1)] show ?thesis
    using that by (auto simp: read_shapes_def board_view_def all(2))
qed

subsection \<open>Applying an op\<close>

lemma apply_add_run:
  assumes "board_laws B" and "number_parser cn" and "readable cn B d"
    and "so_op p = ''add''" and "points_ok cn (sh_points (so_shape p))"
    and "apply_shape_op cn B p d = (d', r)"
  shows "readable cn B d'" "board_view cn B d' = (board_view cn B d)(sh_id (so_shape p) \<mapsto> so_shape p)"
    "\<exists>ss. r = Inr ss \<and> lists_board ss (board_view cn B d')"
proof -
  define s i where "s = so_shape p" and "i = sh_id s"
  obtain d1 b1 where entry: "(case bo_lookup B d i of Some (BMap m) \<Rightarrow> (d, True) | _ \<Rightarrow> bo_insert_map B i d) = (d1, b1)"
    by fastforce
  have "b1 \<and> (\<exists>m. bo_items B d1 = (bo_items B d)(i \<mapsto> BMap m))"
  proof (cases "\<exists>m. bo_items B d i = Some (BMap m)")
    case True
    then obtain m where m: "bo_items B d i = Some (BMap m)" ..
    then have "bo_items B d = (bo_items B d)(i \<mapsto> BMap m)" by auto
    with entry m show ?thesis by (auto simp: board_lawsD(2) [OF assms(1)])
  next
    case False
    then have "bo_insert_map B i d = (d1, b1)"
      using entry by (auto simp: board_lawsD(2) [OF assms(1)] split: option.splits bentry.splits)
    from board_lawsD(3) [OF assms(1) this] show ?thesis by auto
  qed
  then obtain m where b1: "b1" and d1: "bo_items B d1 = (bo_items B d)(i \<mapsto> BMap m)" by blast
  obtain d2 b2 where wrt: "write_shape B i s d1 = (d2, b2)" by fastforce
  have "bo_items B d1 i = Some (BMap m)" by (simp add: d1)
  from put_shape_fields_ok [OF assms(1) this wrt [unfolded write_shape_def]]
  have b2: "b2" and d2: "bo_items B d2 = (bo_items B d)(i \<mapsto> BMap (m ++ map_of (rev (shape_fields s))))"
    by (simp_all add: d1)
  have read: "read_shape cn i (m ++ map_of (rev (shape_fields s))) = Some s"
    using read_written_shape [OF assms(2) assms(5)] by (simp add: s_def i_def)
  have ok: "readable cn B d2"
    using assms(3) by (auto simp: readable_def d2 read)
  from read_shapes_lists [OF assms(1) ok] obtain ss where
    ss: "read_shapes cn B d2 = Some ss" "lists_board ss (board_view cn B d2)" .
  have fin: "d' = d2 \<and> r = Inr ss"
    using assms(6) unfolding apply_shape_op_def Let_def assms(4) s_def [symmetric] i_def [symmetric]
      entry case_prod_conv
    using b1 b2 by (auto simp: wrt ss(1))
  show "readable cn B d'" using ok fin by simp
  show "board_view cn B d' = (board_view cn B d)(sh_id (so_shape p) \<mapsto> so_shape p)"
    using fin by (auto simp: board_view_def d2 shape_at_def read s_def [symmetric] i_def [symmetric])
  show "\<exists>ss. r = Inr ss \<and> lists_board ss (board_view cn B d')" using ss(2) fin by blast
qed

lemma apply_clear_run:
  assumes "board_laws B" and "so_op p = ''clear''" and "apply_shape_op cn B p d = (d', r)"
  shows "readable cn B d'" "board_view cn B d' = Map.empty" "\<exists>ss. r = Inr ss \<and> lists_board ss (board_view cn B d')"
proof -
  obtain d1 b1 where clr: "bo_clear B d = (d1, b1)" by fastforce
  from board_lawsD(5) [OF assms(1) clr] have b1: "b1" and d1: "bo_items B d1 = Map.empty" by simp_all
  have ok: "readable cn B d1" by (simp add: readable_def d1)
  from read_shapes_lists [OF assms(1) ok] obtain ss where
    ss: "read_shapes cn B d1 = Some ss" "lists_board ss (board_view cn B d1)" .
  have fin: "d' = d1 \<and> r = Inr ss"
    using assms(3) b1 by (simp add: apply_shape_op_def assms(2) clr ss(1))
  show "readable cn B d'" using ok fin by simp
  show "board_view cn B d' = Map.empty" using fin by (simp add: board_view_def d1 shape_at_def)
  show "\<exists>ss. r = Inr ss \<and> lists_board ss (board_view cn B d')" using ss(2) fin by blast
qed

text \<open>The op implements its specification, on every branch.\<close>

lemma apply_shape_op_refines:
  assumes "board_laws B" and "number_parser cn" and "readable cn B d"
    and "points_ok cn (sh_points (so_shape p))" and "apply_shape_op cn B p d = (d', r)"
  shows "readable cn B d'"
    "board_apply p (board_view cn B d) = Some b \<Longrightarrow> board_view cn B d' = b \<and> (\<exists>ss. r = Inr ss \<and> lists_board ss b)"
    "board_apply p (board_view cn B d) = None \<Longrightarrow> d' = d \<and> r = Inl (Plain (''unknown shape op '' @ go_quote (so_op p)))"
proof -
  consider "so_op p = ''add''" | "so_op p = ''clear''" | "so_op p \<noteq> ''add''" "so_op p \<noteq> ''clear''" by blast
  then have "readable cn B d' \<and>
    (\<forall>b. board_apply p (board_view cn B d) = Some b \<longrightarrow> board_view cn B d' = b \<and> (\<exists>ss. r = Inr ss \<and> lists_board ss b)) \<and>
    (board_apply p (board_view cn B d) = None \<longrightarrow> d' = d \<and> r = Inl (Plain (''unknown shape op '' @ go_quote (so_op p))))"
  proof cases
    case 1
    then show ?thesis using apply_add_run [OF assms(1,2,3) 1 assms(4,5)] by (simp add: board_apply_def)
  next
    case 2
    then show ?thesis using apply_clear_run [OF assms(1) 2 assms(5)] by (simp add: board_apply_def)
  next
    case 3
    then have "d' = d" "r = Inl (Plain (''unknown shape op '' @ go_quote (so_op p)))"
      using assms(5) by (auto simp: apply_shape_op_def Let_def)
    then show ?thesis using 3 assms(3) by (simp add: board_apply_def)
  qed
  then show "readable cn B d'"
    "board_apply p (board_view cn B d) = Some b \<Longrightarrow> board_view cn B d' = b \<and> (\<exists>ss. r = Inr ss \<and> lists_board ss b)"
    "board_apply p (board_view cn B d) = None \<Longrightarrow> d' = d \<and> r = Inl (Plain (''unknown shape op '' @ go_quote (so_op p)))"
    by simp_all
qed

text \<open>The document of an id, the empty one if it is not loaded.\<close>

definition doc_of :: "'d board_api \<Rightarrow> ('d, 'p, 'n) collab \<Rightarrow> string \<Rightarrow> 'd" where
  "doc_of B st i = (case cl_docs st i of None \<Rightarrow> bo_new B | Some d \<Rightarrow> d)"

lemma get_or_create_doc: "get_or_create B i (cl_docs st) = ((cl_docs st)(i \<mapsto> doc_of B st i), doc_of B st i)"
  by (auto simp: get_or_create_def doc_of_def fun_upd_idem split: option.splits)

lemma collab_fields [simp]:
  "cl_docs (save_doc ps i b st) = cl_docs st" "cl_hub (save_doc ps i b st) = cl_hub st" "cl_nats (save_doc ps i b st) = cl_nats st"
  "cl_docs (send_nats pub i b st) = cl_docs st" "cl_hub (send_nats pub i b st) = cl_hub st" "cl_store (send_nats pub i b st) = cl_store st"
  "cl_docs (tell_others ord c b st) = cl_docs st" "cl_store (tell_others ord c b st) = cl_store st" "cl_nats (tell_others ord c b st) = cl_nats st"
  "cl_docs (put_doc i d st) = (cl_docs st)(i \<mapsto> d)" "cl_store (put_doc i d st) = cl_store st" "cl_hub (put_doc i d st) = cl_hub st"
  "cl_nats (put_doc i d st) = cl_nats st"
  by (auto simp: save_doc_def send_nats_def tell_others_def put_doc_def split: option.splits)

lemma doc_of_upd:
  "cl_docs st' = (cl_docs st)(i \<mapsto> d) \<Longrightarrow> doc_of B st' j = (if j = i then d else doc_of B st j)"
  by (simp add: doc_of_def)

text \<open>What \<open>ApplyOp\<close> leaves behind when the op succeeds.\<close>

lemma web_apply_op_run:
  assumes "web_apply_op cn B ps pub ord i origin p st = Some (st', Inr ss)"
  obtains d snap where "apply_shape_op cn B p (doc_of B st i) = (d, Inr ss)" "encode_snapshot B d = Some snap"
    "cl_docs st' = (cl_docs st)(i \<mapsto> d)"
    "cl_store st' = (case ps of None \<Rightarrow> cl_store st | Some q \<Rightarrow> fst (ps_save q i snap (cl_store st)))"
    "cl_hub st' = broadcast_except (ord (cl_hub st)) (shapes_event i origin (Some ss)) origin (cl_hub st)"
    "cl_nats st' = (case pub of None \<Rightarrow> cl_nats st | Some f \<Rightarrow> fst (f (nats_sync_subject i) snap (cl_nats st)))"
proof -
  obtain d r where op: "apply_shape_op cn B p (doc_of B st i) = (d, r)" by fastforce
  from assms op have r: "r = Inr ss" and "encode_snapshot B d \<noteq> None"
    by (auto simp: web_apply_op_def get_or_create_doc Let_def split: sum.splits option.splits)
  then obtain snap where snap: "encode_snapshot B d = Some snap" by blast
  from assms op r snap have st': "st' = send_nats pub i snap (tell_others ord origin (shapes_event i origin (Some ss))
      (save_doc ps i snap (put_doc i d (st\<lparr>cl_docs := (cl_docs st)(i \<mapsto> doc_of B st i)\<rparr>))))"
    by (simp add: web_apply_op_def get_or_create_doc Let_def)
  show ?thesis
  proof (rule that [OF op [unfolded r] snap])
    show "cl_docs st' = (cl_docs st)(i \<mapsto> d)" by (simp add: st')
    show "cl_store st' = (case ps of None \<Rightarrow> cl_store st | Some q \<Rightarrow> fst (ps_save q i snap (cl_store st)))"
      by (simp add: st' save_doc_def put_doc_def split: option.splits)
    show "cl_hub st' = broadcast_except (ord (cl_hub st)) (shapes_event i origin (Some ss)) origin (cl_hub st)"
      by (simp add: st' tell_others_def)
    show "cl_nats st' = (case pub of None \<Rightarrow> cl_nats st | Some f \<Rightarrow> fst (f (nats_sync_subject i) snap (cl_nats st)))"
      by (simp add: st' send_nats_def tell_others_def split: option.splits)
  qed
qed

text \<open>The subject of a document's updates leads back to it if its id has no dot; \<open>a.b\<close> leads to \<open>a\<close>.\<close>

lemma sync_subject_split: "split_byte (CHR ''.'') (nats_sync_subject i) = ''app'' # ''sync'' # split_byte (CHR ''.'') i"
proof -
  have "nats_sync_subject i = ''app'' @ CHR ''.'' # (''sync'' @ CHR ''.'' # i)" by (simp add: nats_sync_subject_def)
  then show ?thesis using split_byte_append [of "CHR ''.''" "''app''"] split_byte_append [of "CHR ''.''" "''sync''"]
    by simp
qed

lemma doc_id_of_subject: "doc_id_from_subject (nats_sync_subject i) = hd (split_byte (CHR ''.'') i)"
  by (cases "split_byte (CHR ''.'') i") (simp_all add: doc_id_from_subject_def sync_subject_split)

lemma doc_id_plain: "CHR ''.'' \<notin> set i \<Longrightarrow> doc_id_from_subject (nats_sync_subject i) = i"
  by (simp add: doc_id_of_subject split_byte_plain)

lemma doc_id_dotted: "CHR ''.'' \<notin> set a \<Longrightarrow> doc_id_from_subject (nats_sync_subject (a @ CHR ''.'' # b)) = a"
  by (simp add: doc_id_of_subject split_byte_append)

end
