(* ===== verification/CollabSync.thy ===== *)
theory CollabSync
  imports Collab
begin

text \<open>
  Whiteboards over time: the contract \<open>persister\<close> of \<open>internal/collab/persist_pb.go\<close> with both of its
  implementations, a board that survives a restart, and the network of instances whose web workers publish
  to NATS and whose subscribers import what the others published (\<open>sync.go\<close>).
\<close>

subsection \<open>The persister contract\<close>

text \<open>\<open>good\<close> is the provider's own invariant of its state.\<close>

locale persister =
  fixes good :: "'p \<Rightarrow> bool" and save :: "string \<Rightarrow> bytes \<Rightarrow> 'p \<Rightarrow> 'p \<times> bool" and load :: "string \<Rightarrow> 'p \<Rightarrow> bytes option"
  assumes save_good: "good p \<Longrightarrow> save i b p = (p', ok) \<Longrightarrow> good p'"
    and load_saved: "good p \<Longrightarrow> b \<noteq> [] \<Longrightarrow> save i b p = (p', True) \<Longrightarrow> load j p' = (if j = i then Some b else load j p)"
    and load_unsaved: "good p \<Longrightarrow> save i b p = (p', False) \<Longrightarrow> load j p' = load j p"
begin

definition provider :: "'p persister" where
  "provider = \<lparr>ps_save = save, ps_load = load\<rparr>"

text \<open>Of several saves the last one that succeeded is loaded; without one, what was there before.\<close>

fun save_all :: "(string \<times> bytes) list \<Rightarrow> 'p \<Rightarrow> 'p \<times> (string \<rightharpoonup> bytes)" where
  "save_all [] p = (p, Map.empty)"
| "save_all ((i, b) # xs) p = (case save i b p of (p1, ok) \<Rightarrow>
     case save_all xs p1 of (p2, m) \<Rightarrow> (p2, (if ok then [i \<mapsto> b] else Map.empty) ++ m))"

lemma save_all_load:
  assumes "good p" and "\<And>i b. (i, b) \<in> set xs \<Longrightarrow> b \<noteq> []" and "save_all xs p = (p', m)"
  shows "good p' \<and> load j p' = (case m j of None \<Rightarrow> load j p | Some b \<Rightarrow> Some b)"
  using assms
proof (induction xs arbitrary: p m)
  case (Cons x xs)
  obtain i b where x: "x = (i, b)" by (cases x)
  obtain p1 ok where s: "save i b p = (p1, ok)" by fastforce
  obtain p2 n where r: "save_all xs p1 = (p2, n)" by fastforce
  from Cons.prems(3) x s r have m: "p2 = p'" "m = (if ok then [i \<mapsto> b] else Map.empty) ++ n" by auto
  have good: "good p1" using save_good [OF Cons.prems(1) s] .
  have b: "b \<noteq> []" using Cons.prems(2) [of i b] x by simp
  have "good p' \<and> load j p' = (case n j of None \<Rightarrow> load j p1 | Some b \<Rightarrow> Some b)"
    by (rule Cons.IH [OF good]) (use Cons.prems(2) r m(1) in auto)
  moreover have "load j p1 = (if ok \<and> j = i then Some b else load j p)"
    using load_saved [OF Cons.prems(1) b, of i p1 j] load_unsaved [OF Cons.prems(1), of i b p1 j] s by (cases ok) auto
  ultimately show ?case by (auto simp: m(2) map_add_def split: option.splits)
qed auto

end

interpretation memory: persister "\<lambda>_. True" memory_save memory_load
  by unfold_locales (auto simp: memory_save_def memory_load_def)

text \<open>What the code relies on of PocketBase: the search answers the first row of the document, saving a
  row without an id appends it under a new one and saving one with an id replaces it; a failed save
  changes nothing.\<close>

definition board_app_laws :: "'db board_app \<Rightarrow> ('db \<Rightarrow> board_row list) \<Rightarrow> bool" where
  "board_app_laws A rows \<longleftrightarrow>
     (\<forall>i db. ba_find A i db = find (\<lambda>r. br_doc r = i) (rows db)) \<and>
     (\<forall>r db db'. ba_save A r db = (db', False) \<longrightarrow> rows db' = rows db) \<and>
     (\<forall>r db db'. ba_save A r db = (db', True) \<and> br_id r = '''' \<longrightarrow>
        (\<exists>n. n \<noteq> '''' \<and> n \<notin> br_id ` set (rows db) \<and> rows db' = rows db @ [r\<lparr>br_id := n\<rparr>])) \<and>
     (\<forall>r db db'. ba_save A r db = (db', True) \<and> br_id r \<noteq> '''' \<longrightarrow>
        rows db' = map (\<lambda>x. if br_id x = br_id r then r else x) (rows db))"

definition pb_board_good :: "'db board_app \<Rightarrow> ('db \<Rightarrow> board_row list) \<Rightarrow> 'db \<Rightarrow> bool" where
  "pb_board_good A rows db \<longleftrightarrow> board_app_laws A rows \<and> distinct (map br_id (rows db)) \<and> '''' \<notin> br_id ` set (rows db)"

lemma find_append: "find P (xs @ ys) = (case find P xs of Some x \<Rightarrow> Some x | None \<Rightarrow> find P ys)"
  by (induction xs) auto

lemma find_replaced:
  assumes "distinct (map br_id xs)" and "find (\<lambda>r. br_doc r = i) xs = Some r" and "br_doc r' = i" and "br_id r' = br_id r"
  shows "find (\<lambda>r. br_doc r = j) (map (\<lambda>x. if br_id x = br_id r then r' else x) xs) =
    (if j = i then Some r' else find (\<lambda>r. br_doc r = j) xs)"
  using assms
proof (induction xs)
  case (Cons x xs)
  show ?case
  proof (cases "br_doc x = i")
    case True
    then have "x = r" using Cons.prems(2) by simp
    moreover have "map (\<lambda>x. if br_id x = br_id r then r' else x) xs = xs"
      using Cons.prems(1) \<open>x = r\<close> by (intro map_idI) (auto simp: rev_image_eqI)
    ultimately show ?thesis using Cons.prems(3) True by auto
  next
    case False
    then have "find (\<lambda>r. br_doc r = i) xs = Some r" using Cons.prems(2) by simp
    moreover from this have "br_id x \<noteq> br_id r" using Cons.prems(1) by (auto simp: find_Some_iff)
    ultimately show ?thesis using Cons False by auto
  qed
qed simp

lemma board_app_lawsD:
  assumes "board_app_laws A rows"
  shows "ba_find A i db = find (\<lambda>r. br_doc r = i) (rows db)"
    "ba_save A r db = (db', False) \<Longrightarrow> rows db' = rows db"
    "ba_save A r db = (db', True) \<Longrightarrow> br_id r = '''' \<Longrightarrow>
       \<exists>n. n \<noteq> '''' \<and> n \<notin> br_id ` set (rows db) \<and> rows db' = rows db @ [r\<lparr>br_id := n\<rparr>]"
    "ba_save A r db = (db', True) \<Longrightarrow> br_id r \<noteq> '''' \<Longrightarrow> rows db' = map (\<lambda>x. if br_id x = br_id r then r else x) (rows db)"
  using assms unfolding board_app_laws_def by simp_all

text \<open>A save leaves the rows alone or makes the first row of the document hold the snapshot.\<close>

lemma pb_save_rows:
  assumes "pb_board_good A rows db" and "pb_save_snapshot A i b db = (db', ok)"
  shows "pb_board_good A rows db' \<and> (if ok
    then \<exists>r. br_doc r = i \<and> br_snapshot r = b \<and>
      (\<forall>j. ba_find A j db' = (if j = i then Some r else ba_find A j db))
    else rows db' = rows db)"
proof -
  have laws: "board_app_laws A rows" and ids: "distinct (map br_id (rows db))" "'''' \<notin> br_id ` set (rows db)"
    using assms(1) by (simp_all add: pb_board_good_def)
  note pb = board_app_lawsD [OF laws]
  show ?thesis
  proof (cases ok)
    case False
    then have "rows db' = rows db" using assms(2) pb(2) by (auto simp: pb_save_snapshot_def Let_def split: if_splits)
    then show ?thesis using False assms(1) by (simp add: pb_board_good_def)
  next
    case True
    show ?thesis
    proof (cases "ba_find A i db")
      case None
      let ?r = "\<lparr>br_id = '''', br_doc = i, br_version = 1, br_snapshot = b\<rparr>"
      have "ba_save A ?r db = (db', True)"
        using assms(2) True None by (simp add: pb_save_snapshot_def split: if_splits)
      from pb(3) [OF this] obtain n where n: "n \<noteq> ''''" "n \<notin> br_id ` set (rows db)" "rows db' = rows db @ [?r\<lparr>br_id := n\<rparr>]"
        by auto
      have new: "\<And>x. x \<in> set (rows db) \<Longrightarrow> br_doc x \<noteq> i"
        using None by (auto simp: pb(1) find_None_iff)
      have "ba_find A j db' = (if j = i then Some (?r\<lparr>br_id := n\<rparr>) else ba_find A j db)" for j
        using None by (cases "find (\<lambda>r. br_doc r = j) (rows db)") (auto simp: pb(1) n(3) find_append)
      then show ?thesis using True laws ids n by (auto simp: pb_board_good_def intro!: exI [of _ "?r\<lparr>br_id := n\<rparr>"])
    next
      case (Some r)
      then have f: "find (\<lambda>r. br_doc r = i) (rows db) = Some r" by (simp add: pb(1))
      then have r: "r \<in> set (rows db)" "br_doc r = i" by (auto simp: find_Some_iff)
      let ?r = "r\<lparr>br_version := br_version r + 1, br_snapshot := b\<rparr>"
      have "br_id r \<noteq> ''''" using ids(2) r(1) by force
      moreover have "ba_save A ?r db = (db', True)"
        using assms(2) True Some r by (auto simp: pb_save_snapshot_def Let_def split: if_splits)
      ultimately have db': "rows db' = map (\<lambda>x. if br_id x = br_id r then ?r else x) (rows db)"
        using pb(4) [of ?r db db'] by simp
      have "map br_id (rows db') = map br_id (rows db)" by (auto simp: db')
      with ids laws have "pb_board_good A rows db'"
        unfolding pb_board_good_def by (metis list.set_map)
      moreover have "ba_find A j db' = (if j = i then Some ?r else ba_find A j db)" for j
        unfolding pb(1) db' by (rule find_replaced [OF ids(1) f]) (simp_all add: r)
      ultimately show ?thesis using True r by (auto intro!: exI [of _ ?r])
    qed
  qed
qed

interpretation pocketbase: persister "pb_board_good A rows" "pb_save_snapshot A" "pb_load_snapshot A" for A rows
proof unfold_locales
  fix db i b db' ok j
  assume good: "pb_board_good A rows db"
  then have laws: "board_app_laws A rows" by (simp add: pb_board_good_def)
  show "pb_board_good A rows db'" if "pb_save_snapshot A i b db = (db', ok)"
    using pb_save_rows [OF good that] by simp
  show "pb_load_snapshot A j db' = (if j = i then Some b else pb_load_snapshot A j db)"
    if "b \<noteq> []" "pb_save_snapshot A i b db = (db', True)"
    using pb_save_rows [OF good that(2)] that(1) by (auto simp: pb_load_snapshot_def)
  show "pb_load_snapshot A j db' = pb_load_snapshot A j db" if "pb_save_snapshot A i b db = (db', False)"
    using pb_save_rows [OF good that] by (simp add: pb_load_snapshot_def board_app_lawsD(1) [OF laws])
qed

subsection \<open>Loro as a CRDT\<close>

text \<open>
  What the code relies on of Loro beyond its maps: \<open>ops\<close> are the operations of a document and \<open>carried\<close>
  those of an export; an import adds what the export carries, a change of a map adds operations, and
  documents with the same operations show the same entries.
\<close>

definition board_merge_laws :: "'d board_api \<Rightarrow> ('d \<Rightarrow> 'o set) \<Rightarrow> (bytes \<Rightarrow> 'o set) \<Rightarrow> bool" where
  "board_merge_laws B ops carried \<longleftrightarrow> ops (bo_new B) = {} \<and>
     (\<forall>d. \<exists>u. bo_export B d = Some u \<and> u \<noteq> [] \<and> carried u = ops d) \<and>
     (\<forall>d u e. bo_export B e = Some u \<longrightarrow> snd (bo_import B u d)) \<and>
     (\<forall>d u. snd (bo_import B u d) \<longrightarrow> ops (fst (bo_import B u d)) = ops d \<union> carried u) \<and>
     (\<forall>d i. ops d \<subseteq> ops (fst (bo_insert_map B i d))) \<and>
     (\<forall>d i f v. ops d \<subseteq> ops (fst (bo_put B i f v d))) \<and>
     (\<forall>d. ops d \<subseteq> ops (fst (bo_clear B d))) \<and>
     (\<forall>d e. ops d = ops e \<longrightarrow> bo_items B d = bo_items B e)"

lemma merge_lawsD:
  assumes "board_merge_laws B ops carried"
  shows "ops (bo_new B) = {}"
    "bo_export B d = Some u \<Longrightarrow> u \<noteq> [] \<and> carried u = ops d"
    "\<exists>u. bo_export B d = Some u"
    "bo_export B e = Some u \<Longrightarrow> bo_import B u d = (d1, b) \<Longrightarrow> b \<and> ops d1 = ops d \<union> carried u"
    "ops d \<subseteq> ops (fst (bo_insert_map B i d))" "ops d \<subseteq> ops (fst (bo_put B i f v d))" "ops d \<subseteq> ops (fst (bo_clear B d))"
    "ops d = ops e \<Longrightarrow> bo_items B d = bo_items B e"
proof -
  note laws = assms [unfolded board_merge_laws_def]
  have "\<forall>d u e. bo_export B e = Some u \<longrightarrow> snd (bo_import B u d)"
    using laws by (elim conjE)
  then have imp: "\<And>u e d. bo_export B e = Some u \<Longrightarrow> snd (bo_import B u d)" by blast
  have "\<forall>d u. snd (bo_import B u d) \<longrightarrow> ops (fst (bo_import B u d)) = ops d \<union> carried u"
    using laws by (elim conjE)
  then have add: "\<And>u d. snd (bo_import B u d) \<Longrightarrow> ops (fst (bo_import B u d)) = ops d \<union> carried u" by blast
  have "\<forall>d. \<exists>u. bo_export B d = Some u \<and> u \<noteq> [] \<and> carried u = ops d" using laws by (elim conjE)
  then have ex: "\<And>d. \<exists>u. bo_export B d = Some u \<and> u \<noteq> [] \<and> carried u = ops d" by blast
  show "ops (bo_new B) = {}" using laws by (elim conjE)
  have "\<forall>d i. ops d \<subseteq> ops (fst (bo_insert_map B i d))" using laws by (elim conjE)
  then show "ops d \<subseteq> ops (fst (bo_insert_map B i d))" by (elim allE impE)
  have "\<forall>d i f v. ops d \<subseteq> ops (fst (bo_put B i f v d))" using laws by (elim conjE)
  then show "ops d \<subseteq> ops (fst (bo_put B i f v d))" by (elim allE impE)
  have "\<forall>d. ops d \<subseteq> ops (fst (bo_clear B d))" using laws by (elim conjE)
  then show "ops d \<subseteq> ops (fst (bo_clear B d))" by (elim allE impE)
  have "\<forall>d e. ops d = ops e \<longrightarrow> bo_items B d = bo_items B e" using laws by (elim conjE)
  then show "ops d = ops e \<Longrightarrow> bo_items B d = bo_items B e" by metis
  show "\<exists>u. bo_export B d = Some u" using ex [of d] by auto
  show "bo_export B d = Some u \<Longrightarrow> u \<noteq> [] \<and> carried u = ops d" using ex [of d] by auto
  show "bo_export B e = Some u \<Longrightarrow> bo_import B u d = (d1, b) \<Longrightarrow> b \<and> ops d1 = ops d \<union> carried u"
    using imp [of e u d] add [of u d] by simp
qed

lemma same_board: "board_merge_laws B ops carried \<Longrightarrow> ops d = ops e \<Longrightarrow> board_view cn B d = board_view cn B e"
  using merge_lawsD(8) [of B ops carried d e] by (simp add: board_view_def)

lemma put_shape_fields_ops:
  assumes "board_merge_laws B ops carried"
  shows "ops d \<subseteq> ops (fst (put_shape_fields B i fs d))"
proof (induction fs arbitrary: d)
  case (Cons fv fs)
  obtain f v where fv: "fv = (f, v)" by (cases fv)
  obtain d1 b where put: "bo_put B i f v d = (d1, b)" by fastforce
  have "ops d \<subseteq> ops d1" using merge_lawsD(6) [OF assms, of d i f v] put by simp
  then show ?case using Cons [of d1] put fv by (cases b) auto
qed simp

text \<open>An op only adds operations.\<close>

lemma apply_shape_op_ops:
  assumes "board_merge_laws B ops carried" and "apply_shape_op cn B p d = (d', r)"
  shows "ops d \<subseteq> ops d'"
proof -
  let ?s = "so_shape p" and ?i = "sh_id (so_shape p)"
  have fin: "fst (case read_shapes cn B x of None \<Rightarrow> (x, Inl (Plain ''points'')) | Some ss \<Rightarrow> (x, Inr ss)) = x" for x
    by (simp split: option.splits)
  consider "so_op p = ''add''" | "so_op p = ''clear''" | "d' = d"
    using assms(2) by (auto simp: apply_shape_op_def Let_def split: if_splits)
  then show ?thesis
  proof cases
    case 1
    obtain d1 b1 where e: "(case bo_lookup B d ?i of Some (BMap m) \<Rightarrow> (d, True) | _ \<Rightarrow> bo_insert_map B ?i d) = (d1, b1)"
      by fastforce
    have s1: "ops d \<subseteq> ops d1"
      using e merge_lawsD(5) [OF assms(1), of d ?i] by (auto split: option.splits bentry.splits)
    obtain d2 b2 where w: "write_shape B ?i ?s d1 = (d2, b2)" by fastforce
    have s2: "ops d1 \<subseteq> ops d2" using put_shape_fields_ops [OF assms(1), of d1] w by (metis fst_conv write_shape_def)
    have "d' = d1 \<or> d' = d2"
      using assms(2) 1 unfolding apply_shape_op_def Let_def e case_prod_conv
      by (cases b1; cases b2; cases "read_shapes cn B d2") (auto simp: w)
    then show ?thesis using s1 s2 by blast
  next
    case 2
    obtain d1 b1 where c: "bo_clear B d = (d1, b1)" by fastforce
    have "d' = d1" using assms(2) 2 c by (cases b1; cases "read_shapes cn B d1") (auto simp: apply_shape_op_def)
    then show ?thesis using merge_lawsD(7) [OF assms(1), of d] c by simp
  qed simp
qed

subsection \<open>The network of instances\<close>

text \<open>
  Every instance runs a web worker and a subscriber on the same documents; a published message goes to
  every subscriber, the publisher's own included, in the order of publication.  \<open>nw_seen k\<close> is how many
  messages instance \<open>k\<close> has taken.
\<close>

type_synonym nats_log = "(string \<times> bytes) list"

record ('d, 'p) network =
  nw_inst :: "nat \<Rightarrow> ('d, 'p, nats_log) collab"
  nw_log :: nats_log
  nw_seen :: "nat \<Rightarrow> nat"

definition log_pub :: "nats_log nats_pub" where
  "log_pub subject msg l = (l @ [(subject, msg)], True)"

inductive net_step ::
  "(string \<Rightarrow> string option) \<Rightarrow> 'd board_api \<Rightarrow> 'p persister \<Rightarrow> (bytes hub \<Rightarrow> string list) \<Rightarrow> nat \<Rightarrow>
   ('d, 'p) network \<Rightarrow> ('d, 'p) network \<Rightarrow> bool"
  for cn B ps ord N where
  request: "k < N \<Longrightarrow>
    web_apply_op cn B (Some ps) (Some log_pub) ord i origin p ((nw_inst w k)\<lparr>cl_nats := nw_log w\<rparr>) = Some (st, Inr ss) \<Longrightarrow>
    net_step cn B ps ord N w (w\<lparr>nw_inst := (nw_inst w)(k := st), nw_log := cl_nats st\<rparr>)"
| rejected: "k < N \<Longrightarrow> so_op p \<notin> {''add'', ''clear''} \<Longrightarrow>
    web_apply_op cn B (Some ps) (Some log_pub) ord i origin p ((nw_inst w k)\<lparr>cl_nats := nw_log w\<rparr>) = Some (st, Inl e) \<Longrightarrow>
    net_step cn B ps ord N w (w\<lparr>nw_inst := (nw_inst w)(k := st)\<rparr>)"
| opened: "k < N \<Longrightarrow> web_load_snapshot B (Some ps) i (nw_inst w k) = (st, r) \<Longrightarrow>
    net_step cn B ps ord N w (w\<lparr>nw_inst := (nw_inst w)(k := st)\<rparr>)"
| deliver: "k < N \<Longrightarrow> nw_seen w k < length (nw_log w) \<Longrightarrow> nw_log w ! nw_seen w k = (subject, msg) \<Longrightarrow>
    on_sync_message B ps subject msg (nw_inst w k) = Some st \<Longrightarrow>
    net_step cn B ps ord N w (w\<lparr>nw_inst := (nw_inst w)(k := st), nw_seen := (nw_seen w)(k := Suc (nw_seen w k))\<rparr>)"

inductive_cases net_stepE: "net_step cn B ps ord N w w'"

definition net_start :: "('d, 'p, nats_log) collab \<Rightarrow> ('d, 'p) network" where
  "net_start st = \<lparr>nw_inst = (\<lambda>_. st\<lparr>cl_docs := Map.empty\<rparr>), nw_log = [], nw_seen = (\<lambda>_. 0)\<rparr>"

definition delivered :: "nat \<Rightarrow> ('d, 'p) network \<Rightarrow> bool" where
  "delivered N w \<longleftrightarrow> (\<forall>k < N. nw_seen w k = length (nw_log w))"

text \<open>What the messages for a document carry.\<close>

definition sent :: "(bytes \<Rightarrow> 'o set) \<Rightarrow> nats_log \<Rightarrow> string \<Rightarrow> 'o set" where
  "sent carried l i = (\<Union>sm \<in> {sm \<in> set l. doc_id_from_subject (fst sm) = i}. carried (snd sm))"

lemma sent_simps [simp]:
  "sent carried [] i = {}"
  "sent carried (l @ [(s, m)]) i = sent carried l i \<union> (if doc_id_from_subject s = i then carried m else {})"
  by (auto simp: sent_def)

lemma sent_memb: "(s, m) \<in> set l \<Longrightarrow> carried m \<subseteq> sent carried l (doc_id_from_subject s)"
  by (force simp: sent_def)

definition log_ok :: "'d board_api \<Rightarrow> nats_log \<Rightarrow> bool" where
  "log_ok B l \<longleftrightarrow> (\<forall>s m. (s, m) \<in> set l \<longrightarrow> (\<exists>d. bo_export B d = Some m))"

context persister
begin

text \<open>An instance holds everything its subscriber has taken, nothing that was not published, and has
  stored nothing it does not hold.\<close>

definition inst_ok ::
  "'d board_api \<Rightarrow> ('d \<Rightarrow> 'o set) \<Rightarrow> (bytes \<Rightarrow> 'o set) \<Rightarrow> nats_log \<Rightarrow> nat \<Rightarrow> ('d, 'p, nats_log) collab \<Rightarrow> bool" where
  "inst_ok B ops carried l n st \<longleftrightarrow> good (cl_store st) \<and> n \<le> length l \<and>
     (\<forall>i. i \<noteq> '''' \<longrightarrow> sent carried (take n l) i \<subseteq> ops (doc_of B st i)) \<and>
     (\<forall>i. CHR ''.'' \<notin> set i \<longrightarrow> ops (doc_of B st i) \<subseteq> sent carried l i) \<and>
     (\<forall>i b. load i (cl_store st) = Some b \<longrightarrow> (\<exists>d. bo_export B d = Some b) \<and> carried b \<subseteq> ops (doc_of B st i))"

definition net_ok :: "'d board_api \<Rightarrow> ('d \<Rightarrow> 'o set) \<Rightarrow> (bytes \<Rightarrow> 'o set) \<Rightarrow> nat \<Rightarrow> ('d, 'p) network \<Rightarrow> bool" where
  "net_ok B ops carried N w \<longleftrightarrow> log_ok B (nw_log w) \<and>
     (\<forall>k < N. inst_ok B ops carried (nw_log w) (nw_seen w k) (nw_inst w k))"

text \<open>An instance whose document grows by published operations and is saved stays right.\<close>

lemma inst_ok_grow:
  assumes ok: "inst_ok B ops carried l n st" and log: "l = take (length l) l'" "length l \<le> length l'"
    and docs: "\<And>j. doc_of B st' j = (if j = i then d else doc_of B st j)"
    and grow: "ops (doc_of B st i) \<subseteq> ops d"
    and pub: "CHR ''.'' \<notin> set i \<Longrightarrow> ops d \<subseteq> sent carried l' i"
    and store: "cl_store st' = cl_store st \<or>
      (bo_export B d = Some b \<and> b \<noteq> [] \<and> carried b = ops d \<and> save i b (cl_store st) = (cl_store st', okay))"
    and seen: "n' \<le> length l'" "\<And>j. j \<noteq> '''' \<Longrightarrow> sent carried (take n' l') j \<subseteq>
      sent carried (take n l) j \<union> (if j = i then ops d else {})"
  shows "inst_ok B ops carried l' n' st'"
proof -
  have g: "good (cl_store st)" using ok by (simp add: inst_ok_def)
  have mono: "sent carried l j \<subseteq> sent carried l' j" for j
    using set_take_subset [of "length l" l'] log(1) by (auto simp: sent_def)
  have doc_mono: "ops (doc_of B st j) \<subseteq> ops (doc_of B st' j)" for j using docs grow by simp
  have good': "good (cl_store st')" using store g save_good by auto
  have known: "sent carried (take n' l') j \<subseteq> ops (doc_of B st' j)" if "j \<noteq> ''''" for j
  proof -
    have "sent carried (take n l) j \<subseteq> ops (doc_of B st j)" using ok that by (simp add: inst_ok_def)
    then show ?thesis using seen(2) [OF that] doc_mono [of j] docs [of j] by (cases "j = i") auto
  qed
  have shared: "ops (doc_of B st' j) \<subseteq> sent carried l' j" if "CHR ''.'' \<notin> set j" for j
  proof -
    have "ops (doc_of B st j) \<subseteq> sent carried l j" using ok that by (simp add: inst_ok_def)
    then show ?thesis using that pub mono [of j] docs [of j] by (cases "j = i") auto
  qed
  have stored: "(\<exists>d. bo_export B d = Some c) \<and> carried c \<subseteq> ops (doc_of B st' j)"
    if l: "load j (cl_store st') = Some c" for j c
  proof -
    have old: "(\<exists>d. bo_export B d = Some c) \<and> carried c \<subseteq> ops (doc_of B st' j)" if "load j (cl_store st) = Some c"
    proof -
      have "(\<exists>d. bo_export B d = Some c) \<and> carried c \<subseteq> ops (doc_of B st j)"
        using ok that by (simp add: inst_ok_def)
      then show ?thesis using doc_mono [of j] by blast
    qed
    show ?thesis
    proof (cases "cl_store st' = cl_store st")
      case True
      then show ?thesis using old l by simp
    next
      case False
      then have b: "bo_export B d = Some b" "b \<noteq> []" "carried b = ops d" "save i b (cl_store st) = (cl_store st', okay)"
        using store by blast+
      show ?thesis
      proof (cases "okay \<and> j = i")
        case True
        then have "c = b" using l load_saved [OF g b(2), of i "cl_store st'" j] b(4) by simp
        then show ?thesis using b(1,3) docs [of j] True by auto
      next
        case False
        then have "load j (cl_store st) = Some c"
          using l load_saved [OF g b(2), of i "cl_store st'" j] load_unsaved [OF g, of i b "cl_store st'" j] b(4)
          by (cases okay) auto
        then show ?thesis by (rule old)
      qed
    qed
  qed
  show ?thesis unfolding inst_ok_def using good' known shared stored seen(1) by blast
qed

lemma inst_ok_log:
  assumes "inst_ok B ops carried l n st"
  shows "inst_ok B ops carried (l @ xs) n st"
proof (rule inst_ok_grow [OF assms, where i = "''.''" and d = "doc_of B st ''.''"])
  show "sent carried (take n (l @ xs)) j \<subseteq>
      sent carried (take n l) j \<union> (if j = ''.'' then ops (doc_of B st ''.'') else {})" for j
    using assms by (simp add: inst_ok_def)
  show "n \<le> length (l @ xs)" using assms by (simp add: inst_ok_def)
qed auto

lemma step_request:
  assumes "board_merge_laws B ops carried" and "log_ok B l" and "inst_ok B ops carried l n st0"
    and "web_apply_op cn B (Some provider) (Some log_pub) ord i origin p (st0\<lparr>cl_nats := l\<rparr>) = Some (st, Inr ss)"
  shows "\<exists>snap. cl_nats st = l @ [(nats_sync_subject i, snap)] \<and> log_ok B (cl_nats st) \<and>
    inst_ok B ops carried (cl_nats st) n st"
proof -
  from web_apply_op_run [OF assms(4)] obtain d snap where
    run: "apply_shape_op cn B p (doc_of B (st0\<lparr>cl_nats := l\<rparr>) i) = (d, Inr ss)" "encode_snapshot B d = Some snap"
    "cl_docs st = (cl_docs (st0\<lparr>cl_nats := l\<rparr>))(i \<mapsto> d)"
    "cl_store st = fst (ps_save provider i snap (cl_store (st0\<lparr>cl_nats := l\<rparr>)))"
    "cl_nats st = fst (log_pub (nats_sync_subject i) snap (cl_nats (st0\<lparr>cl_nats := l\<rparr>)))"
    by (metis (no_types, lifting) option.case(2))
  have doc0: "doc_of B (st0\<lparr>cl_nats := l\<rparr>) j = doc_of B st0 j" for j by (simp add: doc_of_def)
  have nats: "cl_nats st = l @ [(nats_sync_subject i, snap)]" using run(5) by (simp add: log_pub_def)
  have ex: "bo_export B d = Some snap" using run(2) by (simp add: encode_snapshot_def)
  from merge_lawsD(2) [OF assms(1) ex] have snap: "snap \<noteq> []" "carried snap = ops d" by simp_all
  have grow: "ops (doc_of B st0 i) \<subseteq> ops d" using apply_shape_op_ops [OF assms(1) run(1)] by (simp add: doc0)
  have docs: "doc_of B st j = (if j = i then d else doc_of B st0 j)" for j
    using run(3) by (simp add: doc_of_def)
  obtain okay where save: "save i snap (cl_store st0) = (cl_store st, okay)"
    using run(4) by (cases "save i snap (cl_store st0)") (simp add: provider_def)
  have "inst_ok B ops carried (l @ [(nats_sync_subject i, snap)]) n st"
  proof (rule inst_ok_grow [OF assms(3) _ _ docs grow, where b = snap and okay = okay])
    show "ops d \<subseteq> sent carried (l @ [(nats_sync_subject i, snap)]) i" if "CHR ''.'' \<notin> set i"
      using that by (simp add: doc_id_plain snap)
    show "n \<le> length (l @ [(nats_sync_subject i, snap)])" using assms(3) by (simp add: inst_ok_def)
    show "sent carried (take n (l @ [(nats_sync_subject i, snap)])) j \<subseteq>
        sent carried (take n l) j \<union> (if j = i then ops d else {})" for j
      using assms(3) by (simp add: inst_ok_def)
  qed (use ex snap save in auto)
  moreover have "log_ok B (l @ [(nats_sync_subject i, snap)])" using assms(2) ex by (auto simp: log_ok_def)
  ultimately show ?thesis using nats by simp
qed

text \<open>A document that is only looked up stays the same.\<close>

lemma inst_ok_touch:
  assumes "inst_ok B ops carried l n st0" and "cl_docs st = (cl_docs st0)(i \<mapsto> doc_of B st0 i)" and "cl_store st = cl_store st0"
  shows "inst_ok B ops carried l n st"
proof (rule inst_ok_grow [OF assms(1), where i = i and d = "doc_of B st0 i"])
  show "doc_of B st j = (if j = i then doc_of B st0 i else doc_of B st0 j)" for j
    using assms(2) by (simp add: doc_of_def)
  show "ops (doc_of B st0 i) \<subseteq> sent carried l i" if "CHR ''.'' \<notin> set i" using assms(1) that by (simp add: inst_ok_def)
  show "n \<le> length l" using assms(1) by (simp add: inst_ok_def)
qed (use assms(3) in auto)

lemma step_rejected:
  assumes "inst_ok B ops carried l n st0" and "so_op p \<notin> {''add'', ''clear''}"
    and "web_apply_op cn B ps pub ord i origin p (st0\<lparr>cl_nats := l\<rparr>) = Some (st, Inl e)"
  shows "inst_ok B ops carried l n st"
proof (rule inst_ok_touch [OF assms(1)])
  have doc0: "doc_of B (st0\<lparr>cl_nats := l\<rparr>) j = doc_of B st0 j" for j by (simp add: doc_of_def)
  from assms(2,3) have st: "st = put_doc i (doc_of B st0 i)
      (st0\<lparr>cl_nats := l, cl_docs := (cl_docs (st0\<lparr>cl_nats := l\<rparr>))(i \<mapsto> doc_of B st0 i)\<rparr>)"
    by (auto simp: web_apply_op_def get_or_create_doc doc0 apply_shape_op_def Let_def put_doc_def)
  then show "cl_docs st = (cl_docs st0)(i \<mapsto> doc_of B st0 i)" "cl_store st = cl_store st0"
    by simp_all
qed

lemma step_opened:
  assumes "board_merge_laws B ops carried" and "inst_ok B ops carried l n st0"
    and "web_load_snapshot B (Some provider) i st0 = (st, r)"
  shows "inst_ok B ops carried l n st"
proof (cases "load i (cl_store st0)")
  case None
  then show ?thesis using assms(2,3) by (simp add: web_load_snapshot_def provider_def)
next
  case (Some snap)
  obtain d ok where imp: "bo_import B snap (doc_of B st0 i) = (d, ok)" by fastforce
  from assms(2) Some have "(\<exists>e. bo_export B e = Some snap) \<and> carried snap \<subseteq> ops (doc_of B st0 i)"
    by (simp add: inst_ok_def)
  then obtain e where e: "bo_export B e = Some snap" "carried snap \<subseteq> ops (doc_of B st0 i)" by blast
  from merge_lawsD(4) [OF assms(1) e(1) imp] e(2) have d: "ops d = ops (doc_of B st0 i)" by auto
  have st: "cl_docs st = (cl_docs st0)(i \<mapsto> d)" "cl_store st = cl_store st0"
    using assms(3) Some imp by (auto simp: web_load_snapshot_def provider_def get_or_create_doc import_update_def put_doc_def)
  show ?thesis
  proof (rule inst_ok_grow [OF assms(2), where i = i and d = d])
    show "doc_of B st j = (if j = i then d else doc_of B st0 j)" for j
      using st(1) by (simp add: doc_of_def)
    show "ops d \<subseteq> sent carried l i" if "CHR ''.'' \<notin> set i" using assms(2) that d by (simp add: inst_ok_def)
    show "n \<le> length l" using assms(2) by (simp add: inst_ok_def)
  qed (use st(2) d in auto)
qed

lemma step_deliver:
  assumes "board_merge_laws B ops carried" and "log_ok B l" and "inst_ok B ops carried l n st0"
    and "n < length l" and "l ! n = (subject, m)" and "on_sync_message B provider subject m st0 = Some st"
  shows "inst_ok B ops carried l (Suc n) st"
proof -
  define i where "i = doc_id_from_subject subject"
  have mem: "(subject, m) \<in> set l" using assms(4,5) by (metis nth_mem)
  have tk: "sent carried (take (Suc n) l) j = sent carried (take n l) j \<union> (if i = j then carried m else {})" for j
    using assms(4,5) by (simp add: take_Suc_conv_app_nth i_def)
  show ?thesis
  proof (cases "i = ''''")
    case True
    then have "st = st0" using assms(6) by (simp add: on_sync_message_def Let_def i_def)
    then show ?thesis
      using assms(3,4) tk True by (auto simp: inst_ok_def)
  next
    case False
    obtain d ok where imp: "bo_import B m (doc_of B st0 i) = (d, ok)" by fastforce
    from assms(2) mem obtain e where "bo_export B e = Some m" by (auto simp: log_ok_def)
    from merge_lawsD(4) [OF assms(1) this imp] have ok: "ok" and d: "ops d = ops (doc_of B st0 i) \<union> carried m" by simp_all
    from merge_lawsD(3) [OF assms(1)] obtain snap where ex: "bo_export B d = Some snap" by blast
    from merge_lawsD(2) [OF assms(1) ex] have snap: "snap \<noteq> []" "carried snap = ops d" by simp_all
    have st: "st = save_doc (Some provider) i snap (put_doc i d (st0\<lparr>cl_docs := (cl_docs st0)(i \<mapsto> doc_of B st0 i)\<rparr>))"
      using assms(6) False imp ok ex
      by (simp add: on_sync_message_def Let_def i_def [symmetric] get_or_create_doc import_update_def encode_snapshot_def)
    obtain okay where save: "save i snap (cl_store st0) = (cl_store st, okay)"
      by (cases "save i snap (cl_store st0)") (simp add: st save_doc_def provider_def put_doc_def)
    show ?thesis
    proof (rule inst_ok_grow [OF assms(3), where i = i and d = d and b = snap and okay = okay])
      show "doc_of B st j = (if j = i then d else doc_of B st0 j)" for j
        by (simp add: doc_of_def st)
      show "ops d \<subseteq> sent carried l i" if "CHR ''.'' \<notin> set i"
        using assms(3) that d sent_memb [OF mem, of carried] by (auto simp: inst_ok_def i_def)
      show "Suc n \<le> length l" using assms(4) by simp
      show "sent carried (take (Suc n) l) j \<subseteq> sent carried (take n l) j \<union> (if j = i then ops d else {})" for j
        using d by (auto simp: tk)
    qed (use d ex snap save in auto)
  qed
qed

lemma net_step_ok:
  assumes "board_merge_laws B ops carried" and "net_step cn B provider ord N w w'" and "net_ok B ops carried N w"
  shows "net_ok B ops carried N w'"
proof -
  have log: "log_ok B (nw_log w)" and inst: "\<And>k. k < N \<Longrightarrow> inst_ok B ops carried (nw_log w) (nw_seen w k) (nw_inst w k)"
    using assms(3) by (auto simp: net_ok_def)
  from assms(2) show ?thesis
  proof (rule net_stepE)
    fix k i origin p st ss
    assume k: "k < N" and w': "w' = w\<lparr>nw_inst := (nw_inst w)(k := st), nw_log := cl_nats st\<rparr>"
      and run: "web_apply_op cn B (Some provider) (Some log_pub) ord i origin p ((nw_inst w k)\<lparr>cl_nats := nw_log w\<rparr>) = Some (st, Inr ss)"
    from step_request [OF assms(1) log inst [OF k] run] obtain snap where
      "cl_nats st = nw_log w @ [(nats_sync_subject i, snap)]" "log_ok B (cl_nats st)"
      "inst_ok B ops carried (cl_nats st) (nw_seen w k) st" by blast
    then show ?thesis using inst_ok_log [OF inst] by (auto simp: net_ok_def w')
  next
    fix k p i origin st e
    assume "k < N" "so_op p \<noteq> ''add''" "so_op p \<noteq> ''clear''" "w' = w\<lparr>nw_inst := (nw_inst w)(k := st)\<rparr>"
      "web_apply_op cn B (Some provider) (Some log_pub) ord i origin p ((nw_inst w k)\<lparr>cl_nats := nw_log w\<rparr>) = Some (st, Inl e)"
    then show ?thesis using log inst step_rejected [OF inst] by (auto simp: net_ok_def)
  next
    fix k i st r
    assume "k < N" "w' = w\<lparr>nw_inst := (nw_inst w)(k := st)\<rparr>" "web_load_snapshot B (Some provider) i (nw_inst w k) = (st, r)"
    then show ?thesis using log inst step_opened [OF assms(1) inst] by (auto simp: net_ok_def)
  next
    fix k subject m st
    assume "k < N" "w' = w\<lparr>nw_inst := (nw_inst w)(k := st), nw_seen := (nw_seen w)(k := Suc (nw_seen w k))\<rparr>"
      "nw_seen w k < length (nw_log w)" "nw_log w ! nw_seen w k = (subject, m)"
      "on_sync_message B provider subject m (nw_inst w k) = Some st"
    then show ?thesis using log inst step_deliver [OF assms(1) log inst] by (auto simp: net_ok_def)
  qed
qed

lemma net_run_ok:
  assumes "board_merge_laws B ops carried" and "(net_step cn B provider ord N)\<^sup>*\<^sup>* w w'" and "net_ok B ops carried N w"
  shows "net_ok B ops carried N w'"
  using assms(2,3) by (induction rule: rtranclp_induct) (auto intro: net_step_ok [OF assms(1)])

lemma net_start_ok:
  "board_merge_laws B ops carried \<Longrightarrow> good (cl_store st) \<Longrightarrow> (\<And>i. load i (cl_store st) = None) \<Longrightarrow>
    net_ok B ops carried N (net_start st)"
  by (simp add: net_ok_def net_start_def log_ok_def inst_ok_def doc_of_def merge_lawsD(1))

text \<open>Once everything published has been taken, an instance's document is what was sent for it.\<close>

lemma net_delivered:
  assumes "net_ok B ops carried N w" and "delivered N w" and "k < N" and "i \<noteq> ''''" and "CHR ''.'' \<notin> set i"
  shows "ops (doc_of B (nw_inst w k) i) = sent carried (nw_log w) i"
proof -
  have "inst_ok B ops carried (nw_log w) (length (nw_log w)) (nw_inst w k)"
    using assms(1-3) by (auto simp: net_ok_def delivered_def)
  then show ?thesis using assms(4,5) by (auto simp: inst_ok_def)
qed

end

end
