(* ===== verification/DemoBoard.thy ===== *)
theory DemoBoard
  imports CollabSync "HOL-Library.List_Lexorder" "HOL-Library.Char_ord" "HOL-Library.Product_Lexorder"
begin

text \<open>
  A small map CRDT that has the behaviour assumed of Loro, for the witnesses of the whiteboard theories:
  a document is a log of operations with Lamport times, shown in the order of the times and, at equal
  times, of the operations.  Beside it a PocketBase collection kept in a list.
\<close>

subsection \<open>Operations and their order\<close>

datatype wop = WInsert string | WPut string string bval | WClear

fun wop_key :: "wop \<Rightarrow> string list" where
  "wop_key (WInsert i) = [''i'', i]"
| "wop_key (WPut i f (BStr s)) = [''s'', i, f, s]"
| "wop_key (WPut i f (BNum s)) = [''n'', i, f, s]"
| "wop_key WClear = [''c'']"

fun wop_of_key :: "string list \<Rightarrow> wop option" where
  "wop_of_key [k, i] = (if k = ''i'' then Some (WInsert i) else None)"
| "wop_of_key [k, i, f, s] = (if k = ''s'' then Some (WPut i f (BStr s))
     else if k = ''n'' then Some (WPut i f (BNum s)) else None)"
| "wop_of_key [k] = (if k = ''c'' then Some WClear else None)"
| "wop_of_key _ = None"

lemma wop_of_key_key [simp]: "wop_of_key (wop_key x) = Some x"
  by (cases x rule: wop_key.cases) simp_all

lemma wop_key_inj: "wop_key x = wop_key y \<longleftrightarrow> x = y"
  by (metis option.inject wop_of_key_key)

instantiation wop :: linorder
begin

definition less_eq_wop :: "wop \<Rightarrow> wop \<Rightarrow> bool" where
  "less_eq_wop x y \<longleftrightarrow> wop_key x \<le> wop_key y"

definition less_wop :: "wop \<Rightarrow> wop \<Rightarrow> bool" where
  "less_wop x y \<longleftrightarrow> wop_key x < wop_key y"

instance
  by standard (auto simp: less_eq_wop_def less_wop_def wop_key_inj order.strict_iff_order)

end

subsection \<open>Documents\<close>

type_synonym wlog = "(nat \<times> wop) list"

fun apply_wop :: "wop \<Rightarrow> (string \<times> bentry) list \<Rightarrow> (string \<times> bentry) list" where
  "apply_wop (WInsert i) es = (i, BMap Map.empty) # filter (\<lambda>e. fst e \<noteq> i) es"
| "apply_wop (WPut i f v) es = (case map_of es i of
     Some (BMap m) \<Rightarrow> (i, BMap (m(f \<mapsto> v))) # filter (\<lambda>e. fst e \<noteq> i) es | _ \<Rightarrow> es)"
| "apply_wop WClear es = []"

definition wlog_entries :: "wlog \<Rightarrow> (string \<times> bentry) list" where
  "wlog_entries d = foldl (\<lambda>es x. apply_wop (snd x) es) [] (sorted_list_of_set (set d))"

definition next_time :: "wlog \<Rightarrow> nat" where
  "next_time d = Suc (foldr max (map fst d) 0)"

definition add_wop :: "wop \<Rightarrow> wlog \<Rightarrow> wlog" where
  "add_wop x d = d @ [(next_time d, x)]"

definition wop_json :: "nat \<times> wop \<Rightarrow> jval" where
  "wop_json x = JArr (JInt (int (fst x)) # map JStr (wop_key (snd x)))"

fun json_text :: "jval \<Rightarrow> string option" where
  "json_text (JStr s) = Some s"
| "json_text _ = None"

fun json_wop :: "jval \<Rightarrow> (nat \<times> wop) option" where
  "json_wop (JArr (JNum n # ks)) = (case parse_int n of None \<Rightarrow> None | Some t \<Rightarrow>
     (case those (map json_text ks) of None \<Rightarrow> None | Some k \<Rightarrow> map_option (Pair (nat t)) (wop_of_key k)))"
| "json_wop _ = None"

definition export_wlog :: "wlog \<Rightarrow> bytes" where
  "export_wlog d = marshal (JArr (map wop_json d))"

definition wlog_of_bytes :: "bytes \<Rightarrow> wlog option" where
  "wlog_of_bytes b = (case unmarshal b of Some (JArr vs) \<Rightarrow> those (map json_wop vs) | _ \<Rightarrow> None)"

definition demo_board :: "wlog board_api" where
  "demo_board = \<lparr>bo_new = [], bo_lookup = (\<lambda>d. map_of (wlog_entries d)),
     bo_insert_map = (\<lambda>i d. (add_wop (WInsert i) d, True)),
     bo_put = (\<lambda>i f v d. case map_of (wlog_entries d) i of
        Some (BMap m) \<Rightarrow> (add_wop (WPut i f v) d, True) | _ \<Rightarrow> (d, False)),
     bo_clear = (\<lambda>d. (add_wop WClear d, True)), bo_all = wlog_entries, bo_export = (\<lambda>d. Some (export_wlog d)),
     bo_import = (\<lambda>b d. case wlog_of_bytes b of None \<Rightarrow> (d, False) | Some e \<Rightarrow> (d @ e, True)),
     bo_items = (\<lambda>d. map_of (wlog_entries d))\<rparr>"

definition demo_carried :: "bytes \<Rightarrow> (nat \<times> wop) set" where
  "demo_carried b = (case wlog_of_bytes b of None \<Rightarrow> {} | Some e \<Rightarrow> set e)"

lemma those_map: "(\<And>x. x \<in> set xs \<Longrightarrow> g (f x) = Some x) \<Longrightarrow> those (map g (map f xs)) = Some xs"
  by (induction xs) simp_all

lemma json_wop_json [simp]: "json_wop (wop_json x) = Some x"
  using those_map [of "wop_key (snd x)" json_text JStr] by (simp add: wop_json_def)

lemma wlog_of_export [simp]: "wlog_of_bytes (export_wlog d) = Some d"
proof -
  have "wf_json (JArr (map wop_json d))"
    using wf_JInt by (auto simp: list_all_iff wop_json_def)
  from unmarshal_marshal [OF this] show ?thesis
    using those_map [of d json_wop wop_json] by (simp add: wlog_of_bytes_def export_wlog_def del: marshal.simps)
qed

lemma entries_distinct: "distinct (map fst (wlog_entries d))"
proof -
  have step: "distinct (map fst es) \<Longrightarrow> distinct (map fst (apply_wop x es))" for x es
    by (cases x) (auto simp: distinct_map_filter split: option.splits bentry.splits)
  show ?thesis unfolding wlog_entries_def
    by (rule foldl_invariant) (simp_all add: step)
qed

lemma time_less: "x \<in> set d \<Longrightarrow> fst x < next_time d"
proof -
  have "x \<in> set d \<Longrightarrow> fst x \<le> foldr max (map fst d) 0" by (induction d) auto
  then show "x \<in> set d \<Longrightarrow> fst x < next_time d" by (simp add: next_time_def)
qed

text \<open>A new operation is the last one.\<close>

lemma entries_add: "wlog_entries (add_wop x d) = apply_wop x (wlog_entries d)"
proof -
  let ?n = "(next_time d, x)"
  have new: "?n \<notin> set d" using time_less [of ?n d] by auto
  have "\<forall>y \<in> set (sorted_list_of_set (set d)). y \<le> ?n" using time_less by (auto simp: less_eq_prod_def)
  then have "insort ?n (sorted_list_of_set (set d)) = sorted_list_of_set (set d) @ [?n]"
    by (intro sorted_insort_is_snoc) simp_all
  then have "sorted_list_of_set (set (add_wop x d)) = sorted_list_of_set (set d) @ [?n]"
    using new by (simp add: add_wop_def sorted_list_of_set_insert_remove)
  then show ?thesis by (simp add: wlog_entries_def)
qed

lemma map_of_filter_other: "map_of (filter (\<lambda>e. fst e \<noteq> i) es) = (map_of es)(i := None)"
  by (induction es) (auto simp: fun_eq_iff)

lemma demo_board_laws: "board_laws demo_board"
  by (auto simp: board_laws_def demo_board_def entries_add map_of_filter_other entries_distinct wlog_entries_def [of "[]"])

lemma demo_merge_laws: "board_merge_laws demo_board set demo_carried"
proof -
  have "add_wop x d = d @ [(next_time d, x)]" for x d by (simp add: add_wop_def)
  moreover have "export_wlog d \<noteq> []" for d by (simp add: export_wlog_def)
  ultimately show ?thesis
    by (auto simp: board_merge_laws_def demo_board_def demo_carried_def wlog_entries_def
        split: option.splits bentry.splits)
qed

subsection \<open>Numbers\<close>

text \<open>A conversion that knows the integer literals only.\<close>

definition int_floats :: "string \<Rightarrow> string option" where
  "int_floats s = map_option int_str (parse_int s)"

lemma int_floats_parser: "number_parser int_floats"
proof -
  have "int_floats ''0'' = Some ''0''" by code_simp
  then show ?thesis using wf_JInt by (auto simp: number_parser_def int_floats_def)
qed

subsection \<open>A collection\<close>

definition fresh_row_id :: "board_row list \<Rightarrow> string" where
  "fresh_row_id rs = replicate (Suc (foldr max (map (length \<circ> br_id) rs) 0)) CHR ''x''"

definition row_app :: "board_row list board_app" where
  "row_app = \<lparr>ba_collection = (\<lambda>_. True), ba_find = (\<lambda>i rs. find (\<lambda>r. br_doc r = i) rs),
     ba_save = (\<lambda>r rs. if br_id r = '''' then (rs @ [r\<lparr>br_id := fresh_row_id rs\<rparr>], True)
        else (map (\<lambda>x. if br_id x = br_id r then r else x) rs, True))\<rparr>"

lemma fresh_row_id: "fresh_row_id rs \<noteq> ''''" "fresh_row_id rs \<notin> br_id ` set rs"
proof -
  have "r \<in> set rs \<Longrightarrow> length (br_id r) \<le> foldr max (map (length \<circ> br_id) rs) 0" for r
    by (induction rs) auto
  then have "r \<in> set rs \<Longrightarrow> length (br_id r) < length (fresh_row_id rs)" for r
    by (fastforce simp: fresh_row_id_def)
  then show "fresh_row_id rs \<notin> br_id ` set rs" by (metis imageE less_irrefl)
qed (simp add: fresh_row_id_def)

lemma row_app_laws: "board_app_laws row_app (\<lambda>rs. rs)"
  using fresh_row_id by (auto simp: board_app_laws_def row_app_def split: if_splits)

lemma row_app_good: "pb_board_good row_app (\<lambda>rs. rs) []"
  by (simp add: pb_board_good_def row_app_laws)

lemma row_app_empty: "pb_load_snapshot row_app i [] = None"
  by (simp add: pb_load_snapshot_def row_app_def)

end
