(* ===== verification/PresenceMsg.thy ===== *)
theory PresenceMsg
  imports TodoStream Collab
begin

text \<open>
  The presence message of \<open>internal/collab/presence_msg.go\<close>: its JSON form and the decoder that takes
  coordinates as numbers or as strings.
\<close>

subsection \<open>The message\<close>

record presence_msg =
  pm_type :: string
  pm_doc :: string
  pm_user :: string
  pm_x :: string
  pm_y :: string
  pm_ts :: int
  pm_peers :: "string list option"

definition zero_presence :: presence_msg where
  "zero_presence = \<lparr>pm_type = '''', pm_doc = '''', pm_user = '''', pm_x = ''0'', pm_y = ''0'', pm_ts = 0, pm_peers = None\<rparr>"

definition presence_json :: "presence_msg \<Rightarrow> jval" where
  "presence_json m = JObj ([(''type'', JStr (pm_type m)), (''doc'', JStr (pm_doc m)), (''user'', JStr (pm_user m)),
     (''x'', JNum (pm_x m)), (''y'', JNum (pm_y m)), (''ts'', JInt (pm_ts m))] @
     (case pm_peers m of None \<Rightarrow> [] | Some [] \<Rightarrow> [] | Some ps \<Rightarrow> [(''peers'', JArr (map JStr ps))]))"

text \<open>A \<open>json.Number\<close> field: a number literal or a string that is one.\<close>

fun dec_number :: "string \<Rightarrow> jval \<Rightarrow> string option" where
  "dec_number old (JNum s) = Some s"
| "dec_number old (JStr s) = (if valid_num s then Some s else None)"
| "dec_number old JNull = Some old"
| "dec_number old _ = None"

record presence_alias =
  pa_type :: string
  pa_doc :: string
  pa_user :: string
  pa_x :: string
  pa_y :: string
  pa_ts :: int
  pa_peers :: "string list option"

definition decode_presence_alias :: "(string \<times> jval) list \<Rightarrow> presence_alias option" where
  "decode_presence_alias kvs =
     (case decode_field dec_str '''' ''type'' kvs of None \<Rightarrow> None | Some t \<Rightarrow>
     (case decode_field dec_str '''' ''doc'' kvs of None \<Rightarrow> None | Some d \<Rightarrow>
     (case decode_field dec_str '''' ''user'' kvs of None \<Rightarrow> None | Some u \<Rightarrow>
     (case decode_field dec_number '''' ''x'' kvs of None \<Rightarrow> None | Some x \<Rightarrow>
     (case decode_field dec_number '''' ''y'' kvs of None \<Rightarrow> None | Some y \<Rightarrow>
     (case decode_field dec_int 0 ''ts'' kvs of None \<Rightarrow> None | Some ts \<Rightarrow>
     (case decode_field dec_str_list None ''peers'' kvs of None \<Rightarrow> None | Some ps \<Rightarrow>
       Some \<lparr>pa_type = t, pa_doc = d, pa_user = u, pa_x = x, pa_y = y, pa_ts = ts, pa_peers = ps\<rparr>)))))))"

definition coordinate :: "(string \<Rightarrow> string option) \<Rightarrow> string \<Rightarrow> string option" where
  "coordinate cn s = (if s = '''' then Some ''0'' else cn s)"

definition decode_presence :: "(string \<Rightarrow> string option) \<Rightarrow> bytes \<Rightarrow> presence_msg option" where
  "decode_presence cn b = (case unmarshal b of None \<Rightarrow> None | Some v \<Rightarrow>
     (case decode_payload decode_presence_alias (Some v) of None \<Rightarrow> None | Some a \<Rightarrow>
     (case coordinate cn (pa_x a) of None \<Rightarrow> None | Some x \<Rightarrow>
     (case coordinate cn (pa_y a) of None \<Rightarrow> None | Some y \<Rightarrow>
       Some \<lparr>pm_type = pa_type a, pm_doc = pa_doc a, pm_user = pa_user a, pm_x = x, pm_y = y,
         pm_ts = pa_ts a, pm_peers = pa_peers a\<rparr>))))"

lemma dec_str_list_map: "dec_str_list old (JArr (map JStr ps)) = Some (Some ps)"
proof -
  have "map (\<lambda>v. the (dec_str '''' v)) (map JStr ps) = ps" by (induction ps) simp_all
  then show ?thesis by (simp add: list_all_iff)
qed

text \<open>A presence message is read back from its JSON form; an empty list of peers is left out and read as
  none.\<close>

lemma decode_presence_json:
  assumes "cn (pm_x m) = Some (pm_x m)" and "cn (pm_y m) = Some (pm_y m)" and "number_parser cn"
    and "- (2 ^ 63) \<le> pm_ts m" and "pm_ts m < 2 ^ 63" and "pm_peers m \<noteq> Some []"
  shows "decode_presence cn (marshal (presence_json m)) = Some m"
proof -
  have nums: "valid_num (pm_x m)" "list_all num_char (pm_x m)" "valid_num (pm_y m)" "list_all num_char (pm_y m)"
    using number_parserD(3,4) [OF assms(3)] assms(1,2) by blast+
  have "wf_json (presence_json m)"
    using nums wf_JInt by (cases "pm_peers m") (auto simp: presence_json_def list_all_iff split: list.splits)
  then have un: "unmarshal (marshal (presence_json m)) = Some (presence_json m)" by simp
  have ne: "pm_x m \<noteq> ''''" "pm_y m \<noteq> ''''" using valid_num_head [OF nums(1)] valid_num_head [OF nums(3)] by simp_all
  define tl where "tl = (case pm_peers m of None \<Rightarrow> [] | Some [] \<Rightarrow> [] | Some ps \<Rightarrow> [(''peers'', JArr (map JStr ps))])"
  define kvs where "kvs = [(''type'', JStr (pm_type m)), (''doc'', JStr (pm_doc m)), (''user'', JStr (pm_user m)),
     (''x'', JNum (pm_x m)), (''y'', JNum (pm_y m)), (''ts'', JInt (pm_ts m))] @ tl"
  have tl: "tl = [] \<and> pm_peers m = None \<or> (\<exists>ps. tl = [(''peers'', JArr (map JStr ps))] \<and> pm_peers m = Some ps)"
    using assms(6) by (auto simp: tl_def split: option.splits list.splits)
  have lower: "to_lower ''type'' = ''type''" "to_lower ''doc'' = ''doc''" "to_lower ''user'' = ''user''" "to_lower ''x'' = ''x''"
    "to_lower ''y'' = ''y''" "to_lower ''ts'' = ''ts''" "to_lower ''peers'' = ''peers''"
    by code_simp+
  have fields: "decode_field dec_str '''' ''type'' kvs = Some (pm_type m)" "decode_field dec_str '''' ''doc'' kvs = Some (pm_doc m)"
    "decode_field dec_str '''' ''user'' kvs = Some (pm_user m)" "decode_field dec_number '''' ''x'' kvs = Some (pm_x m)"
    "decode_field dec_number '''' ''y'' kvs = Some (pm_y m)" "decode_field dec_int 0 ''ts'' kvs = Some (pm_ts m)"
    using tl assms(4,5) by (auto simp: kvs_def decode_field_Cons lower)
  have peers: "decode_field dec_str_list None ''peers'' kvs = Some (pm_peers m)"
    using tl by (auto simp: kvs_def decode_field_Cons lower dec_str_list_map simp del: dec_str_list.simps)
  have "decode_payload decode_presence_alias (Some (presence_json m)) =
      Some \<lparr>pa_type = pm_type m, pa_doc = pm_doc m, pa_user = pm_user m, pa_x = pm_x m, pa_y = pm_y m,
        pa_ts = pm_ts m, pa_peers = pm_peers m\<rparr>"
    by (simp add: presence_json_def tl_def [symmetric] kvs_def [symmetric] decode_payload_def decode_presence_alias_def
      fields peers del: append_Cons append.simps)
  then show ?thesis using assms(1,2) ne un by (simp add: decode_presence_def coordinate_def)
qed

end
