(* ===== verification/Presence.thy ===== *)
theory Presence
  imports PresenceMsg DemoBoard "HOL-Library.Word"
begin

text \<open>
  Who is on a document: the presence session over NATS of \<open>internal/collab/presence.go\<close> with the bridge
  to browsers, and the session over the hub of \<open>presence_web.go\<close>.  Times are milliseconds of the wall
  clock as \<open>int64\<close>, durations nanoseconds.  What runs concurrently, the subscription's callback and the
  ticker loop, is a list of inputs in the order of the session's lock.
\<close>

subsection \<open>A session\<close>

text \<open>\<open>pr_calls\<close> records the calls of the handlers, by the number a handler was registered under.\<close>

record presence =
  pr_doc :: string
  pr_user :: string
  pr_hb :: int
  pr_ttl :: int
  pr_roster :: "string \<rightharpoonup> presence_msg"
  pr_handlers :: "nat list"
  pr_calls :: "(nat \<times> presence_msg) list"
  pr_heartbeat_ts :: int

definition presence_join :: string where "presence_join = ''join''"
definition presence_leave :: string where "presence_leave = ''leave''"
definition presence_cursor :: string where "presence_cursor = ''cursor''"

definition presence_subject :: "string \<Rightarrow> string" where
  "presence_subject i = ''app.presence.'' @ i"

definition default_hb :: "int \<Rightarrow> int" where "default_hb d = (if d \<le> 0 then 3 * 10 ^ 9 else d)"
definition default_ttl :: "int \<Rightarrow> int" where "default_ttl d = (if d \<le> 0 then 8 * 10 ^ 9 else d)"

definition new_presence :: "string \<Rightarrow> string \<Rightarrow> int \<Rightarrow> int \<Rightarrow> int \<Rightarrow> presence" where
  "new_presence i user hb ttl now = \<lparr>pr_doc = i, pr_user = user, pr_hb = default_hb hb, pr_ttl = default_ttl ttl,
     pr_roster = Map.empty, pr_handlers = [], pr_calls = [], pr_heartbeat_ts = now\<rparr>"

definition presence_event :: "string \<Rightarrow> int \<Rightarrow> presence \<Rightarrow> presence_msg" where
  "presence_event t now p = zero_presence\<lparr>pm_type := t, pm_doc := pr_doc p, pm_user := pr_user p, pm_ts := now\<rparr>"

definition on_change :: "nat \<Rightarrow> presence \<Rightarrow> presence" where
  "on_change f p = p\<lparr>pr_handlers := pr_handlers p @ [f]\<rparr>"

definition tell_handlers :: "presence_msg list \<Rightarrow> presence \<Rightarrow> presence" where
  "tell_handlers ms p = p\<lparr>pr_calls := pr_calls p @ concat (map (\<lambda>m. map (\<lambda>f. (f, m)) (pr_handlers p)) ms)\<rparr>"

definition cursor_msg :: "string \<Rightarrow> string \<Rightarrow> int \<Rightarrow> presence \<Rightarrow> presence_msg" where
  "cursor_msg x y now p = (presence_event presence_cursor now p)\<lparr>pm_x := x, pm_y := y\<rparr>"

text \<open>The message to publish, on the session's subject.\<close>

definition publish_cursor :: "string \<Rightarrow> string \<Rightarrow> int \<Rightarrow> presence \<Rightarrow> presence \<times> string \<times> bytes" where
  "publish_cursor x y now p = (let m = cursor_msg x y now p in
     (p\<lparr>pr_roster := (pr_roster p)(pm_user m \<mapsto> m)\<rparr>, presence_subject (pm_doc m), marshal (presence_json m)))"

definition presence_apply :: "presence_msg \<Rightarrow> presence \<Rightarrow> presence" where
  "presence_apply m p = tell_handlers [m]
     (if pm_type m = presence_leave then p\<lparr>pr_roster := (pr_roster p)(pm_user m := None)\<rparr>
      else if pm_type m = presence_cursor \<or> pm_type m = presence_join then p\<lparr>pr_roster := (pr_roster p)(pm_user m \<mapsto> m)\<rparr>
      else p)"

text \<open>The age of an entry, with the wrap-around of \<open>int64\<close>; the lifetime in milliseconds.\<close>

definition age :: "int \<Rightarrow> int \<Rightarrow> int" where
  "age now ts = sint (word_of_int (now - ts) :: 64 word)"

definition ttl_ms :: "presence \<Rightarrow> int" where
  "ttl_ms p = pr_ttl p div 10 ^ 6"

definition stale :: "int \<Rightarrow> presence \<Rightarrow> string \<Rightarrow> bool" where
  "stale now p u \<longleftrightarrow> u \<noteq> pr_user p \<and> (case pr_roster p u of None \<Rightarrow> False | Some m \<Rightarrow> age now (pm_ts m) > ttl_ms p)"

text \<open>\<open>us\<close> is the iteration order of the roster.\<close>

definition expire_stale :: "string list \<Rightarrow> int \<Rightarrow> presence \<Rightarrow> presence" where
  "expire_stale us now p = tell_handlers (map (\<lambda>u. (presence_event presence_leave now p)\<lparr>pm_user := u\<rparr>) (filter (stale now p) us))
     (p\<lparr>pr_roster := pr_roster p |` (- set (filter (stale now p) us))\<rparr>)"

definition roster :: "string list \<Rightarrow> presence \<Rightarrow> presence_msg list" where
  "roster us p = map (\<lambda>u. the (pr_roster p u)) (filter (\<lambda>u. u \<noteq> pr_user p) us)"

subsection \<open>Subscribing over NATS\<close>

datatype presence_input =
    CursorMoved string string int
  | Incoming bytes
  | BeatDue int
  | ExpireDue int

text \<open>\<open>ord\<close> gives the iteration order of a roster.  A step yields the messages published.\<close>

fun presence_step ::
  "(string \<Rightarrow> string option) \<Rightarrow> ((string \<rightharpoonup> presence_msg) \<Rightarrow> string list) \<Rightarrow> presence_input \<Rightarrow> presence \<Rightarrow>
   presence \<times> (string \<times> bytes) list" where
  "presence_step cn ord (CursorMoved x y now) p = (case publish_cursor x y now p of (p', s, b) \<Rightarrow> (p', [(s, b)]))"
| "presence_step cn ord (Incoming b) p = (case decode_presence cn b of None \<Rightarrow> (p, []) | Some m \<Rightarrow> (presence_apply m p, []))"
| "presence_step cn ord (BeatDue now) p =
     (p, [(presence_subject (pr_doc p), marshal (presence_json (presence_event presence_join now p)))])"
| "presence_step cn ord (ExpireDue now) p = (expire_stale (ord (pr_roster p)) now p, [])"

fun presence_run ::
  "(string \<Rightarrow> string option) \<Rightarrow> ((string \<rightharpoonup> presence_msg) \<Rightarrow> string list) \<Rightarrow> presence_input list \<Rightarrow> presence \<Rightarrow>
   presence \<times> (string \<times> bytes) list" where
  "presence_run cn ord [] p = (p, [])"
| "presence_run cn ord (i # ins) p = (case presence_step cn ord i p of (p1, out1) \<Rightarrow>
     case presence_run cn ord ins p1 of (p2, out2) \<Rightarrow> (p2, out1 @ out2))"

text \<open>\<open>Subscribe\<close>: join, the inputs until the context is done, leave.  \<open>Inl\<close>: the subscription failed;
  \<open>None\<close>: \<open>NewTicker\<close> panics on an interval that is not positive.\<close>

definition presence_subscribe ::
  "(string \<Rightarrow> string option) \<Rightarrow> ((string \<rightharpoonup> presence_msg) \<Rightarrow> string list) \<Rightarrow> go_error option \<Rightarrow> presence_input list \<Rightarrow> int \<Rightarrow>
   presence \<Rightarrow> (presence \<times> (go_error + (string \<times> bytes) list)) option" where
  "presence_subscribe cn ord sub_err ins end_ts p =
     (case sub_err of Some e \<Rightarrow> Some (p, Inl e) | None \<Rightarrow>
        let subj = presence_subject (pr_doc p);
            hello = (subj, marshal (presence_json (presence_event presence_join (pr_heartbeat_ts p) p)))
        in if pr_ttl p div 2 \<le> 0 \<or> pr_hb p \<le> 0 then None
           else (case presence_run cn ord ins p of (p', out) \<Rightarrow>
             Some (p', Inr (hello # out @ [(subj, marshal (presence_json (presence_event presence_leave end_ts p)))]))))"

subsection \<open>The bridge to browsers\<close>

datatype bridge_input = PresenceData bytes | ClientGone

fun bridge_loop :: "bridge_input list \<Rightarrow> bytes list" where
  "bridge_loop [] = []"
| "bridge_loop (ClientGone # ins) = []"
| "bridge_loop (PresenceData b # ins) = (''data: '' @ b @ [CHR 0x0A, CHR 0x0A]) # bridge_loop ins"

text \<open>The status, what is written, and whether the subscription was opened.  A failing subscription comes
  after the headers went out, so the client keeps its 200.\<close>

definition presence_sse_handler :: "string \<Rightarrow> bool \<Rightarrow> bool \<Rightarrow> bridge_input list \<Rightarrow> nat \<times> bytes list \<times> bool" where
  "presence_sse_handler docID can_flush sub_ok ins =
     (if docID = '''' then (400, [], False)
      else if \<not> can_flush then (500, [], False)
      else let hello = '': connected'' @ [CHR 0x0A, CHR 0x0A] in
        if \<not> sub_ok then (200, [hello], False) else (200, hello # bridge_loop ins, True))"

subsection \<open>The session over the hub\<close>

definition web_presence_broadcast :: "(bytes hub \<Rightarrow> string list) \<Rightarrow> string \<Rightarrow> presence_msg \<Rightarrow> bytes hub \<Rightarrow> bytes hub" where
  "web_presence_broadcast ord cid m h = broadcast_except (ord h) (marshal (presence_json m)) cid h"

definition new_web_presence :: "string \<Rightarrow> string \<Rightarrow> int \<Rightarrow> int \<Rightarrow> presence" where
  "new_web_presence i user hb ttl = new_presence i user hb ttl 0"

definition web_publish_cursor ::
  "(bytes hub \<Rightarrow> string list) \<Rightarrow> string \<Rightarrow> string \<Rightarrow> string \<Rightarrow> int \<Rightarrow> presence \<times> bytes hub \<Rightarrow> presence \<times> bytes hub" where
  "web_publish_cursor ord cid x y now ph = (let m = cursor_msg x y now (fst ph) in
     ((fst ph)\<lparr>pr_roster := (pr_roster (fst ph))(pm_user m \<mapsto> m)\<rparr>, web_presence_broadcast ord cid m (snd ph)))"

definition web_presence_apply :: "presence_msg \<Rightarrow> presence \<Rightarrow> presence" where
  "web_presence_apply m p = presence_apply m p"

definition web_handle_incoming :: "(string \<Rightarrow> string option) \<Rightarrow> bytes \<Rightarrow> presence \<Rightarrow> presence" where
  "web_handle_incoming cn b p = (case decode_presence cn b of None \<Rightarrow> p | Some m \<Rightarrow> web_presence_apply m p)"

definition web_expire_stale :: "string list \<Rightarrow> int \<Rightarrow> presence \<Rightarrow> presence" where
  "web_expire_stale us now p = expire_stale us now p"

definition web_roster :: "string list \<Rightarrow> presence \<Rightarrow> presence_msg list" where
  "web_roster us p = roster us p"

fun web_presence_step ::
  "(string \<Rightarrow> string option) \<Rightarrow> ((string \<rightharpoonup> presence_msg) \<Rightarrow> string list) \<Rightarrow> (bytes hub \<Rightarrow> string list) \<Rightarrow> string \<Rightarrow>
   presence_input \<Rightarrow> presence \<times> bytes hub \<Rightarrow> presence \<times> bytes hub" where
  "web_presence_step cn ord hord cid (CursorMoved x y now) ph = web_publish_cursor hord cid x y now ph"
| "web_presence_step cn ord hord cid (Incoming b) ph = (web_handle_incoming cn b (fst ph), snd ph)"
| "web_presence_step cn ord hord cid (BeatDue now) ph =
     (fst ph, web_presence_broadcast hord cid (presence_event presence_join now (fst ph)) (snd ph))"
| "web_presence_step cn ord hord cid (ExpireDue now) ph = (web_expire_stale (ord (pr_roster (fst ph))) now (fst ph), snd ph)"

definition web_presence_subscribe ::
  "(string \<Rightarrow> string option) \<Rightarrow> ((string \<rightharpoonup> presence_msg) \<Rightarrow> string list) \<Rightarrow> (bytes hub \<Rightarrow> string list) \<Rightarrow> string \<Rightarrow>
   int \<Rightarrow> presence_input list \<Rightarrow> int \<Rightarrow> presence \<times> bytes hub \<Rightarrow> (presence \<times> bytes hub) option" where
  "web_presence_subscribe cn ord hord cid start ins end_ts ph =
     (let ph1 = (fst ph, web_presence_broadcast hord cid (presence_event presence_join start (fst ph)) (snd ph)) in
      if pr_ttl (fst ph) div 2 \<le> 0 \<or> pr_hb (fst ph) \<le> 0 then None
      else let ph2 = foldl (\<lambda>s i. web_presence_step cn ord hord cid i s) ph1 ins
           in Some (fst ph2, web_presence_broadcast hord cid (presence_event presence_leave end_ts (fst ph2)) (snd ph2)))"

subsection \<open>The roster as a function of the history\<close>

text \<open>What the inputs say of a user: what is heard last, and whether a check finds it too old.\<close>

definition roster_orders :: "((string \<rightharpoonup> presence_msg) \<Rightarrow> string list) \<Rightarrow> bool" where
  "roster_orders ord \<longleftrightarrow> (\<forall>r. finite (dom r) \<longrightarrow> range_order r (ord r))"

definition heard :: "(string \<Rightarrow> string option) \<Rightarrow> string \<Rightarrow> presence_input \<Rightarrow> presence_msg option" where
  "heard cn u i = (case i of Incoming b \<Rightarrow> (case decode_presence cn b of
     Some m \<Rightarrow> if pm_user m = u \<and> pm_type m \<in> {presence_join, presence_cursor, presence_leave} then Some m else None
   | None \<Rightarrow> None) | _ \<Rightarrow> None)"

fun known_of :: "(string \<Rightarrow> string option) \<Rightarrow> int \<Rightarrow> string \<Rightarrow> presence_input list \<Rightarrow> presence_msg option \<Rightarrow> presence_msg option" where
  "known_of cn ttl u [] k = k"
| "known_of cn ttl u (i # ins) k = known_of cn ttl u ins
     (case heard cn u i of
        Some m \<Rightarrow> if pm_type m = presence_leave then None else Some m
      | None \<Rightarrow> (case i of
          ExpireDue now \<Rightarrow> (case k of Some m \<Rightarrow> if age now (pm_ts m) > ttl then None else k | None \<Rightarrow> None)
        | _ \<Rightarrow> k))"

lemma presence_kinds [simp]:
  "presence_join \<noteq> presence_leave" "presence_cursor \<noteq> presence_leave" "presence_leave \<noteq> presence_join" "presence_leave \<noteq> presence_cursor"
  by (simp_all add: presence_join_def presence_leave_def presence_cursor_def)

lemma presence_frame [frame, simp]:
  "pr_roster (tell_handlers ms p) = pr_roster p" "pr_user (tell_handlers ms p) = pr_user p" "pr_ttl (tell_handlers ms p) = pr_ttl p"
  "pr_handlers (tell_handlers ms p) = pr_handlers p" "pr_doc (tell_handlers ms p) = pr_doc p"
  by (simp_all add: tell_handlers_def)

lemma presence_step_frame [frame, simp]:
  "pr_user (fst (presence_step cn ord i p)) = pr_user p" "pr_ttl (fst (presence_step cn ord i p)) = pr_ttl p"
  "pr_handlers (fst (presence_step cn ord i p)) = pr_handlers p"
  by (cases i; simp add: presence_apply_def expire_stale_def publish_cursor_def Let_def split: option.splits)+

lemma presence_step_finite:
  "finite (dom (pr_roster p)) \<Longrightarrow> finite (dom (pr_roster (fst (presence_step cn ord i p))))"
  by (cases i) (auto simp: presence_apply_def expire_stale_def publish_cursor_def Let_def split: option.splits
    intro: rev_finite_subset)

lemma presence_step_user:
  assumes "roster_orders ord" and "finite (dom (pr_roster p))" and "u \<noteq> pr_user p"
  shows "pr_roster (fst (presence_step cn ord i p)) u = known_of cn (ttl_ms p) u [i] (pr_roster p u)"
proof (cases i)
  case (ExpireDue now)
  have "set (ord (pr_roster p)) = dom (pr_roster p)"
    using assms(1,2) by (simp add: roster_orders_def range_order_def)
  then show ?thesis using ExpireDue assms(3)
    by (auto simp: expire_stale_def stale_def heard_def restrict_map_def split: option.splits)
next
  case (Incoming b)
  then show ?thesis using assms(3) by (auto simp: heard_def presence_apply_def split: option.splits)
qed (use assms(3) in \<open>auto simp: heard_def publish_cursor_def cursor_msg_def presence_event_def Let_def\<close>)

lemma presence_run_user:
  assumes "roster_orders ord" and "finite (dom (pr_roster p))" and "u \<noteq> pr_user p"
  shows "pr_roster (fst (presence_run cn ord ins p)) u = known_of cn (ttl_ms p) u ins (pr_roster p u)"
  using assms(2,3)
proof (induction ins arbitrary: p)
  case (Cons i ins)
  let ?p = "fst (presence_step cn ord i p)"
  have ttl: "ttl_ms ?p = ttl_ms p" by (simp add: ttl_ms_def)
  have "fst (presence_run cn ord (i # ins) p) = fst (presence_run cn ord ins ?p)"
    by (simp split: prod.splits)
  then have "pr_roster (fst (presence_run cn ord (i # ins) p)) u =
      known_of cn (ttl_ms p) u ins (pr_roster ?p u)"
    using Cons.IH [OF presence_step_finite [OF Cons.prems(1)]] Cons.prems(2) ttl by simp
  also have "\<dots> = known_of cn (ttl_ms p) u (i # ins) (pr_roster p u)"
    using presence_step_user [OF assms(1) Cons.prems, of cn i] by simp
  finally show ?case .
qed simp

lemma known_of_append: "known_of cn ttl u (xs @ ys) k = known_of cn ttl u ys (known_of cn ttl u xs k)"
  by (induction xs arbitrary: k) simp_all

lemma known_of_none: "(\<And>i. i \<in> set ins \<Longrightarrow> heard cn u i = None) \<Longrightarrow> known_of cn ttl u ins None = None"
  by (induction ins) (auto split: presence_input.splits)

lemma known_of_silent:
  assumes "\<And>i. i \<in> set ins \<Longrightarrow> heard cn u i = None"
  shows "known_of cn ttl u ins (Some m) =
    (if \<exists>now. ExpireDue now \<in> set ins \<and> age now (pm_ts m) > ttl then None else Some m)"
  using assms
proof (induction ins)
  case (Cons i ins)
  have h: "heard cn u i = None" "\<And>j. j \<in> set ins \<Longrightarrow> heard cn u j = None" using Cons.prems by simp_all
  show ?case
  proof (cases "\<exists>now. i = ExpireDue now \<and> age now (pm_ts m) > ttl")
    case True
    then show ?thesis using h(1) known_of_none [OF h(2)] by auto
  next
    case False
    then have "known_of cn ttl u (i # ins) (Some m) = known_of cn ttl u ins (Some m)"
      using h(1) by (cases i) auto
    then show ?thesis using Cons.IH h(2) False by auto
  qed
qed simp

lemma presence_run_last_word:
  assumes "roster_orders ord" and "finite (dom (pr_roster p))" and "u \<noteq> pr_user p"
    and "heard cn u (Incoming b) = Some m" and "\<forall>i \<in> set after. heard cn u i = None"
  shows "pr_roster (fst (presence_run cn ord (before @ Incoming b # after) p)) u =
    (if pm_type m = presence_leave \<or> (\<exists>now. ExpireDue now \<in> set after \<and> age now (pm_ts m) > ttl_ms p) then None
     else Some m)"
proof -
  have silent: "\<And>i. i \<in> set after \<Longrightarrow> heard cn u i = None" using assms(5) by blast
  have "known_of cn (ttl_ms p) u (before @ Incoming b # after) k =
      known_of cn (ttl_ms p) u after (if pm_type m = presence_leave then None else Some m)" for k
    using assms(4) by (simp add: known_of_append)
  then show ?thesis
    using presence_run_user [OF assms(1-3)] known_of_silent [OF silent, of after "ttl_ms p" m] known_of_none [OF silent]
    by simp
qed

text \<open>C33: A peer whose heartbeat has been received is shown, whatever came before and whatever other peers
  send, until the first check that finds the heartbeat older than the lifetime, and from then on not, for
  as long as nothing more is received from that peer.  When something is (another heartbeat, a cursor or
  its leave), the last of these decides in the same way: a leave removes the peer at once, and any other
  keeps it shown until a check finds that message too old.\<close>
theorem peer_shown_until_stale:
  assumes "number_parser cn" and "roster_orders ord" and "finite (dom (pr_roster p))"
    and "pr_user q \<noteq> pr_user p" and "- (2 ^ 63) \<le> t" and "t < 2 ^ 63"
    and "presence_step cn ord (BeatDue t) q = (q', [(s, b)])"
  shows "((\<forall>i \<in> set after. heard cn (pr_user q) i = None) \<longrightarrow>
      pr_roster (fst (presence_run cn ord (before @ Incoming b # after) p)) (pr_user q) =
        (if \<exists>now. ExpireDue now \<in> set after \<and> age now t > ttl_ms p then None
         else Some (presence_event presence_join t q))) \<and>
    (\<forall>mid b2 m rest. after = mid @ Incoming b2 # rest \<and> heard cn (pr_user q) (Incoming b2) = Some m \<and>
       (\<forall>i \<in> set rest. heard cn (pr_user q) i = None) \<longrightarrow>
      pr_roster (fst (presence_run cn ord (before @ Incoming b # after) p)) (pr_user q) =
        (if pm_type m = presence_leave \<or> (\<exists>now. ExpireDue now \<in> set rest \<and> age now (pm_ts m) > ttl_ms p) then None
         else Some m))"
proof -
  let ?m = "presence_event presence_join t q"
  have m: "pm_user ?m = pr_user q" "pm_type ?m = presence_join" "pm_ts ?m = t"
    by (simp_all add: presence_event_def)
  have "decode_presence cn (marshal (presence_json ?m)) = Some ?m"
    by (rule decode_presence_json [OF _ _ assms(1)])
      (use assms(5,6) number_parserD(1) [OF assms(1)] in \<open>simp_all add: presence_event_def zero_presence_def\<close>)
  moreover have "b = marshal (presence_json ?m)" using assms(7) by auto
  ultimately have h: "heard cn (pr_user q) (Incoming b) = Some ?m" by (simp add: heard_def m)
  note word = presence_run_last_word [OF assms(2,3,4)]
  show ?thesis
  proof (intro conjI allI impI)
    assume "\<forall>i \<in> set after. heard cn (pr_user q) i = None"
    from word [OF h this] show "pr_roster (fst (presence_run cn ord (before @ Incoming b # after) p)) (pr_user q) =
        (if \<exists>now. ExpireDue now \<in> set after \<and> age now t > ttl_ms p then None else Some ?m)"
      by (simp add: m)
  next
    fix mid b2 m rest
    assume a: "after = mid @ Incoming b2 # rest \<and> heard cn (pr_user q) (Incoming b2) = Some m \<and>
       (\<forall>i \<in> set rest. heard cn (pr_user q) i = None)"
    from word [of cn b2 m rest "before @ Incoming b # mid"] a
    show "pr_roster (fst (presence_run cn ord (before @ Incoming b # after) p)) (pr_user q) =
        (if pm_type m = presence_leave \<or> (\<exists>now. ExpireDue now \<in> set rest \<and> age now (pm_ts m) > ttl_ms p) then None
         else Some m)"
      by simp
  qed
qed

definition sorted_roster :: "(string \<rightharpoonup> presence_msg) \<Rightarrow> string list" where
  "sorted_roster r = sorted_list_of_set (dom r)"

lemma sorted_roster_orders: "roster_orders sorted_roster"
  by (simp add: roster_orders_def sorted_roster_def range_order_def)

theorem peer_shown_until_stale_witness:
  "\<exists>b. presence_step int_floats sorted_roster (BeatDue 0) (new_presence ''d'' ''bob'' 0 0 0) =
      (new_presence ''d'' ''bob'' 0 0 0, [(''app.presence.d'', b)]) \<and>
    pr_roster (fst (presence_run int_floats sorted_roster [Incoming b, ExpireDue 8000] (new_presence ''d'' ''ann'' 0 0 0))) ''bob'' \<noteq> None \<and>
    pr_roster (fst (presence_run int_floats sorted_roster [Incoming b, ExpireDue 8001] (new_presence ''d'' ''ann'' 0 0 0))) ''bob'' = None"
proof -
  let ?q = "new_presence ''d'' ''bob'' 0 0 0" and ?p = "new_presence ''d'' ''ann'' 0 0 0"
  define b where "b = marshal (presence_json (presence_event presence_join 0 ?q))"
  have beat: "presence_step int_floats sorted_roster (BeatDue 0) ?q = (?q, [(''app.presence.d'', b)])"
    by (simp add: b_def presence_subject_def new_presence_def)
  have shown: "pr_roster (fst (presence_run int_floats sorted_roster ([] @ Incoming b # [ExpireDue now]) ?p)) (pr_user ?q) =
      (if age now 0 > 8000 then None else Some (presence_event presence_join 0 ?q))" for now
    using conjunct1 [OF peer_shown_until_stale [OF int_floats_parser sorted_roster_orders _ _ _ _ beat, of ?p "[ExpireDue now]" "[]"]]
    by (simp add: new_presence_def heard_def ttl_ms_def default_ttl_def del: presence_run.simps)
  have "age 8000 0 = 8000" "age 8001 0 = 8001" by (simp_all add: age_def)
  then show ?thesis using shown [of 8000] shown [of 8001] beat by (auto simp: new_presence_def)
qed

end
