(* ===== verification/Whiteboard.thy ===== *)
theory Whiteboard
  imports PresenceMsg Auth
begin

text \<open>
  The whiteboard's handlers, \<open>features/whiteboard/handler.go\<close>, over the web worker of \<open>Collab\<close> and a hub
  of its own: the pages, the stream of a board, the updates and cursors of the browsers, and the table of
  the peers on each board.  The rendered templates are represented by what they are rendered from.
\<close>

subsection \<open>Replies\<close>

record board_meta =
  bm_doc :: string
  bm_version :: int

datatype board_body =
    NoBody
  | Plain_text string
  | Decode_failed
  | Apply_failed go_error
  | Json_body jval
  | Board_list string "board_meta list"
  | Board_fragment "board_meta list"
  | Board_page string string

record board_reply =
  rp_status :: nat
  rp_location :: "string option"
  rp_body :: board_body

definition say :: "nat \<Rightarrow> board_body \<Rightarrow> board_reply" where
  "say st b = \<lparr>rp_status = st, rp_location = None, rp_body = b\<rparr>"

text \<open>
  \<open>RequireAuthOrRedirect\<close> answers an anonymous request with the redirect to the login page, and returns
  nil: the handler goes on, and what it answers later is written behind the headers that are already sent.
\<close>

definition after_guard :: "event \<Rightarrow> board_reply \<Rightarrow> board_reply" where
  "after_guard ev rp = (case snd (require_auth_or_redirect (\<lambda>x. (x, Continued)) ev) of
     Redirect st loc \<Rightarrow> rp\<lparr>rp_status := st, rp_location := Some loc\<rparr> | _ \<Rightarrow> rp)"

definition email_of :: "event \<Rightarrow> string" where
  "email_of ev = (case ev_auth ev of None \<Rightarrow> '''' | Some u \<Rightarrow> us_email u)"

subsection \<open>The pages\<close>

definition whiteboard_list_limit :: nat where "whiteboard_list_limit = 50"

text \<open>\<open>find\<close> is PocketBase's search for the newest rows of the collection, \<open>None\<close> its error.\<close>

definition board_metas :: "(nat \<Rightarrow> 'db \<Rightarrow> board_row list option) \<Rightarrow> 'db \<Rightarrow> board_meta list" where
  "board_metas find_rows db = (case find_rows whiteboard_list_limit db of None \<Rightarrow> []
   | Some rs \<Rightarrow> map (\<lambda>r. \<lparr>bm_doc = br_doc r, bm_version = br_version r\<rparr>) rs)"

definition handle_index :: "(nat \<Rightarrow> 'db \<Rightarrow> board_row list option) \<Rightarrow> event \<Rightarrow> 'db \<Rightarrow> board_reply" where
  "handle_index find_rows ev db = after_guard ev (say 200 (Board_list (email_of ev) (board_metas find_rows db)))"

definition handle_list_fragment :: "(nat \<Rightarrow> 'db \<Rightarrow> board_row list option) \<Rightarrow> 'db \<Rightarrow> board_reply" where
  "handle_list_fragment find_rows db = say 200 (Board_fragment (board_metas find_rows db))"

definition handle_new :: "'db board_app \<Rightarrow> string \<Rightarrow> event \<Rightarrow> 'db \<Rightarrow> 'db \<times> board_reply" where
  "handle_new A uuid ev db =
     (if ba_collection A db
      then fst (ba_save A \<lparr>br_id = '''', br_doc = uuid, br_version = 0, br_snapshot = []\<rparr> db) else db,
      after_guard ev \<lparr>rp_status = 302, rp_location = Some (''/whiteboard/'' @ uuid), rp_body = NoBody\<rparr>)"

definition handle_board ::
  "'d board_api \<Rightarrow> 'p persister option \<Rightarrow> string \<Rightarrow> event \<Rightarrow> ('d, 'p, 'n) collab \<Rightarrow> ('d, 'p, 'n) collab \<times> board_reply" where
  "handle_board B ps docID ev st =
     (if docID = '''' then (st, after_guard ev (say 400 (Plain_text ''missing doc id'')))
      else (fst (web_load_snapshot B ps docID st), after_guard ev (say 200 (Board_page (email_of ev) docID))))"

subsection \<open>Updates, cursors, snapshots\<close>

text \<open>\<open>body\<close> is \<open>None\<close> if it cannot be read; \<open>origin\<close> the client id of the URL.  \<open>None\<close> is a panic.\<close>

definition handle_update ::
  "(string \<Rightarrow> string option) \<Rightarrow> 'd board_api \<Rightarrow> 'p persister option \<Rightarrow> 'n nats_pub option \<Rightarrow> (bytes hub \<Rightarrow> string list) \<Rightarrow>
   string \<Rightarrow> string \<Rightarrow> bytes option \<Rightarrow> ('d, 'p, 'n) collab \<Rightarrow> (('d, 'p, 'n) collab \<times> board_reply) option" where
  "handle_update cn B ps pub ord docID origin body st =
     (if docID = '''' then Some (st, say 400 (Plain_text ''missing doc id''))
      else case body of None \<Rightarrow> Some (st, say 400 (Plain_text ''read body''))
      | Some b \<Rightarrow> (case decode_shape_op cn b of None \<Rightarrow> Some (st, say 400 Decode_failed)
        | Some p \<Rightarrow> (case web_apply_op cn B ps pub ord docID origin p st of
             None \<Rightarrow> None
           | Some (st', Inl e) \<Rightarrow> Some (st', say 400 (Apply_failed e))
           | Some (st', Inr ss) \<Rightarrow> Some (st', say 200 (Json_body
               (JObj [(''count'', JInt (int (length ss))), (''ok'', JBool True)]))))))"

definition handle_presence ::
  "(string \<Rightarrow> string option) \<Rightarrow> (bytes hub \<Rightarrow> string list) \<Rightarrow> int \<Rightarrow> string \<Rightarrow> string \<Rightarrow> bytes option \<Rightarrow> bytes hub \<Rightarrow>
   bytes hub \<times> board_reply" where
  "handle_presence cn ord now docID origin body hub =
     (case body of None \<Rightarrow> (hub, say 400 (Plain_text ''read body''))
      | Some b \<Rightarrow> (case decode_presence cn b of None \<Rightarrow> (hub, say 400 (Plain_text ''decode presence''))
        | Some m \<Rightarrow> (broadcast_except (ord hub) (marshal (presence_json (m\<lparr>pm_doc := docID, pm_ts := now\<rparr>))) origin hub,
            say 200 (Json_body (JObj [(''ok'', JBool True)])))))"

definition handle_snapshot ::
  "(string \<Rightarrow> string option) \<Rightarrow> 'd board_api \<Rightarrow> string \<Rightarrow> ('d, 'p, 'n) collab \<Rightarrow> ('d, 'p, 'n) collab \<times> board_reply" where
  "handle_snapshot cn B docID st = (case web_shapes cn B docID st of
     (st', ss) \<Rightarrow> (st', say 200 (Json_body (json_shapes ss))))"

subsection \<open>Peers\<close>

type_synonym peer_table = "string \<rightharpoonup> string set"

text \<open>\<open>ord\<close> gives the iteration order of a set of client ids.\<close>

definition peer_join :: "(string set \<Rightarrow> string list) \<Rightarrow> string \<Rightarrow> string \<Rightarrow> peer_table \<Rightarrow> peer_table \<times> string list" where
  "peer_join ord docID cid peers =
     (let s = zero_get {} peers docID
      in (peers(docID \<mapsto> insert cid s), filter (\<lambda>x. x \<noteq> cid) (ord s)))"

definition peer_list :: "(string set \<Rightarrow> string list) \<Rightarrow> string \<Rightarrow> peer_table \<Rightarrow> string list" where
  "peer_list ord docID peers = ord (zero_get {} peers docID)"

definition peer_remove :: "string \<Rightarrow> string \<Rightarrow> peer_table \<Rightarrow> peer_table" where
  "peer_remove docID cid peers = (case peers docID of None \<Rightarrow> peers
   | Some s \<Rightarrow> if s - {cid} = {} then peers(docID := None) else peers(docID \<mapsto> s - {cid}))"

definition peer_msg :: "string \<Rightarrow> string \<Rightarrow> string \<Rightarrow> string list option \<Rightarrow> bytes" where
  "peer_msg t docID user ps =
     marshal (presence_json (zero_presence\<lparr>pm_type := t, pm_doc := docID, pm_user := user, pm_peers := ps\<rparr>))"

definition broadcast_peer_count ::
  "(bytes hub \<Rightarrow> string list) \<Rightarrow> (string set \<Rightarrow> string list) \<Rightarrow> string \<Rightarrow> peer_table \<Rightarrow> bytes hub \<Rightarrow> bytes hub" where
  "broadcast_peer_count hord ord docID peers hub =
     broadcast (hord hub) (peer_msg ''count'' docID '''' (Some (peer_list ord docID peers))) hub"

definition peer_leave ::
  "(bytes hub \<Rightarrow> string list) \<Rightarrow> (string set \<Rightarrow> string list) \<Rightarrow> string \<Rightarrow> string \<Rightarrow> peer_table \<times> bytes hub \<Rightarrow> peer_table \<times> bytes hub" where
  "peer_leave hord ord docID cid ph =
     (if is_registered cid (snd ph) then ph
      else let peers = peer_remove docID cid (fst ph);
               hub = broadcast_except (hord (snd ph)) (peer_msg ''leave'' docID cid None) cid (snd ph)
           in (peers, broadcast_peer_count hord ord docID peers hub))"

subsection \<open>The stream of a board\<close>

definition sse_data :: "bytes \<Rightarrow> bytes" where
  "sse_data b = ''data: '' @ b @ [CHR 0x0A, CHR 0x0A]"

definition board_client_id :: "string \<Rightarrow> request \<Rightarrow> string" where
  "board_client_id uuid rq = (if rq_query rq ''clientID'' = '''' then uuid else rq_query rq ''clientID'')"

text \<open>Opening: the frames written to the connection, the peers and the shared state.\<close>

definition open_board_stream ::
  "(string \<Rightarrow> string option) \<Rightarrow> 'd board_api \<Rightarrow> (bytes hub \<Rightarrow> string list) \<Rightarrow> (string set \<Rightarrow> string list) \<Rightarrow> string \<Rightarrow> string \<Rightarrow> nat \<Rightarrow>
   peer_table \<times> ('d, 'p, 'n) collab \<Rightarrow> (peer_table \<times> ('d, 'p, 'n) collab) \<times> bytes list" where
  "open_board_stream cn B hord ord docID cid c ps =
     (let hub1 = register cid '''' c (cl_hub (snd ps)) in
      case peer_join ord docID cid (fst ps) of (peers, others) \<Rightarrow>
        let hub2 = broadcast_except (hord hub1) (peer_msg ''join'' docID cid None) cid hub1;
            hub3 = broadcast_peer_count hord ord docID peers hub2
        in case web_shapes cn B docID ((snd ps)\<lparr>cl_hub := hub3\<rparr>) of (st, ss) \<Rightarrow>
          ((peers, st),
           ['': connected '' @ docID @ [CHR 0x0A, CHR 0x0A]] @
           (if others = [] then [] else [sse_data (peer_msg ''snapshot'' docID cid (Some others))]) @
           (case ss of None \<Rightarrow> [] | Some [] \<Rightarrow> [] | Some (x # xs) \<Rightarrow> [sse_data (shapes_event docID '''' ss)])))"

datatype board_input = BoardDone | BoardBeat bool | BoardMessage

text \<open>The loop: what is written, and the hub; a beat says whether its write goes through.\<close>

fun board_loop :: "nat \<Rightarrow> board_input list \<Rightarrow> bytes hub \<Rightarrow> bytes hub \<times> bytes list" where
  "board_loop c [] hub = (hub, [])"
| "board_loop c (BoardDone # ins) hub = (hub, [])"
| "board_loop c (BoardBeat ok # ins) hub = (if \<not> ok then (hub, [])
     else case board_loop c ins hub of (hub', out) \<Rightarrow> (hub', ('': heartbeat'' @ [CHR 0x0A, CHR 0x0A]) # out))"
| "board_loop c (BoardMessage # ins) hub = (case recv c hub of
     None \<Rightarrow> board_loop c ins hub
   | Some (m, hub1) \<Rightarrow> (case board_loop c ins hub1 of (hub', out) \<Rightarrow> (hub', sse_data m # out)))"

definition close_board_stream ::
  "(bytes hub \<Rightarrow> string list) \<Rightarrow> (string set \<Rightarrow> string list) \<Rightarrow> string \<Rightarrow> string \<Rightarrow> nat \<Rightarrow> peer_table \<times> bytes hub \<Rightarrow> peer_table \<times> bytes hub" where
  "close_board_stream hord ord docID cid c ph =
     peer_leave hord ord docID cid (fst ph, unregister_if_current cid c (snd ph))"

text \<open>\<open>handleStream\<close> without the loop: a response that cannot be flushed is refused.\<close>

definition handle_board_stream ::
  "(string \<Rightarrow> string option) \<Rightarrow> 'd board_api \<Rightarrow> (bytes hub \<Rightarrow> string list) \<Rightarrow> (string set \<Rightarrow> string list) \<Rightarrow> string \<Rightarrow> string \<Rightarrow>
   request \<Rightarrow> bool \<Rightarrow> nat \<Rightarrow> peer_table \<times> ('d, 'p, 'n) collab \<Rightarrow>
   (peer_table \<times> ('d, 'p, 'n) collab) \<times> (board_reply + bytes list)" where
  "handle_board_stream cn B hord ord docID uuid rq can_flush c ps =
     (if \<not> can_flush then (ps, Inl (say 500 (Plain_text ''streaming unsupported'')))
      else case open_board_stream cn B hord ord docID (board_client_id uuid rq) c ps of (ps', out) \<Rightarrow> (ps', Inr out))"

end
