(* ===== verification/BoardPeers.thy ===== *)
theory BoardPeers
  imports Whiteboard
begin

text \<open>
  The table of peers under concurrent connections.  A connection of \<open>handleStream\<close> registers its channel,
  joins the table, and at its end unregisters, looks whether its client id is registered again, and if not
  leaves the table; between these steps other connections run.
\<close>

subsection \<open>Connections\<close>

datatype phase = Registered | Joined | Unregistered | Leaving

record peer_state =
  ps_hub :: "bytes hub"
  ps_peers :: peer_table
  ps_conns :: "nat \<rightharpoonup> string \<times> string \<times> phase"

definition peers_start :: peer_state where
  "peers_start = \<lparr>ps_hub = new_hub [], ps_peers = Map.empty, ps_conns = Map.empty\<rparr>"

text \<open>\<open>may board client\<close> says which client ids connect to which boards.  A connection's channel is new.
  \<open>traffic\<close> is any operation of the hub that leaves its client map alone.\<close>

inductive peer_step :: "(string set \<Rightarrow> string list) \<Rightarrow> (string \<Rightarrow> string \<Rightarrow> bool) \<Rightarrow> peer_state \<Rightarrow> peer_state \<Rightarrow> bool"
  for ord may where
  connect: "may docID cid \<Longrightarrow> ps_conns s c = None \<Longrightarrow> c \<notin> ran (clients (ps_hub s)) \<Longrightarrow>
    peer_step ord may s (s\<lparr>ps_hub := register cid '''' c (ps_hub s), ps_conns := (ps_conns s)(c \<mapsto> (docID, cid, Registered))\<rparr>)"
| join: "ps_conns s c = Some (docID, cid, Registered) \<Longrightarrow>
    peer_step ord may s (s\<lparr>ps_peers := fst (peer_join ord docID cid (ps_peers s)), ps_conns := (ps_conns s)(c \<mapsto> (docID, cid, Joined))\<rparr>)"
| part: "ps_conns s c = Some (docID, cid, Joined) \<Longrightarrow>
    peer_step ord may s (s\<lparr>ps_hub := unregister_if_current cid c (ps_hub s), ps_conns := (ps_conns s)(c \<mapsto> (docID, cid, Unregistered))\<rparr>)"
| stay: "ps_conns s c = Some (docID, cid, Unregistered) \<Longrightarrow> is_registered cid (ps_hub s) \<Longrightarrow>
    peer_step ord may s (s\<lparr>ps_conns := (ps_conns s)(c := None)\<rparr>)"
| leave: "ps_conns s c = Some (docID, cid, Unregistered) \<Longrightarrow> \<not> is_registered cid (ps_hub s) \<Longrightarrow>
    peer_step ord may s (s\<lparr>ps_conns := (ps_conns s)(c \<mapsto> (docID, cid, Leaving))\<rparr>)"
| gone: "ps_conns s c = Some (docID, cid, Leaving) \<Longrightarrow>
    peer_step ord may s (s\<lparr>ps_peers := peer_remove docID cid (ps_peers s), ps_conns := (ps_conns s)(c := None)\<rparr>)"
| traffic: "clients h = clients (ps_hub s) \<Longrightarrow> peer_step ord may s (s\<lparr>ps_hub := h\<rparr>)"

inductive_cases peer_stepE: "peer_step ord may s s'"

abbreviation peer_run :: "(string set \<Rightarrow> string list) \<Rightarrow> (string \<Rightarrow> string \<Rightarrow> bool) \<Rightarrow> peer_state \<Rightarrow> peer_state \<Rightarrow> bool" where
  "peer_run ord may \<equiv> (peer_step ord may)\<^sup>*\<^sup>*"

subsection \<open>No phantom peers\<close>

definition one_board_each :: "(string \<Rightarrow> string \<Rightarrow> bool) \<Rightarrow> bool" where
  "one_board_each may \<longleftrightarrow> (\<forall>d e cid. may d cid \<and> may e cid \<longrightarrow> d = e)"

text \<open>Connections are allowed ones, every registered client has a connection that has not ended, and every
  peer in the table has one.\<close>

definition conns_allowed :: "(string \<Rightarrow> string \<Rightarrow> bool) \<Rightarrow> peer_state \<Rightarrow> bool" where
  "conns_allowed may s \<longleftrightarrow> (\<forall>c d cid p. ps_conns s c = Some (d, cid, p) \<longrightarrow> may d cid)"

definition clients_live :: "peer_state \<Rightarrow> bool" where
  "clients_live s \<longleftrightarrow> (\<forall>cid c. clients (ps_hub s) cid = Some c \<longrightarrow>
     (\<exists>d. ps_conns s c = Some (d, cid, Registered) \<or> ps_conns s c = Some (d, cid, Joined)))"

definition peers_live :: "peer_state \<Rightarrow> bool" where
  "peers_live s \<longleftrightarrow> (\<forall>d S. ps_peers s d = Some S \<longrightarrow> S \<noteq> {} \<and> (\<forall>cid \<in> S. \<exists>c p. ps_conns s c = Some (d, cid, p)))"

lemmas peers_inv_defs = conns_allowed_def clients_live_def peers_live_def

lemma register_clients [simp]: "clients (register cid uid c h) = (clients h)(cid \<mapsto> c)"
  by (simp add: register_def Let_def)

lemma unregister_clients: "clients (unregister_if_current cid c h) x = (if x = cid \<and> clients h cid = Some c then None else clients h x)"
  by (simp add: unregister_if_current_def unregister_def)

lemma conns_allowed_step: "peer_step ord may s s' \<Longrightarrow> conns_allowed may s \<Longrightarrow> conns_allowed may s'"
  by (erule peer_stepE) (auto simp: conns_allowed_def)

lemma clients_live_step:
  assumes "peer_step ord may s s'" and "clients_live s"
  shows "clients_live s'"
proof -
  note live = assms(2) [unfolded clients_live_def, rule_format]
  from assms(1) show ?thesis
  proof (rule peer_stepE)
    fix docID cid c
    assume s': "s' = s\<lparr>ps_hub := register cid '''' c (ps_hub s), ps_conns := (ps_conns s)(c \<mapsto> (docID, cid, Registered))\<rparr>"
      and new: "ps_conns s c = None"
    show ?thesis unfolding clients_live_def
    proof (intro allI impI)
      fix x a assume "clients (ps_hub s') x = Some a"
      then show "\<exists>d. ps_conns s' a = Some (d, x, Registered) \<or> ps_conns s' a = Some (d, x, Joined)"
        using live [of x a] new by (auto simp: s' split: if_splits)
    qed
  next
    fix c docID cid
    assume s': "s' = s\<lparr>ps_hub := unregister_if_current cid c (ps_hub s), ps_conns := (ps_conns s)(c \<mapsto> (docID, cid, Unregistered))\<rparr>"
      and c: "ps_conns s c = Some (docID, cid, Joined)"
    show ?thesis unfolding clients_live_def
    proof (intro allI impI)
      fix x a assume "clients (ps_hub s') x = Some a"
      then show "\<exists>d. ps_conns s' a = Some (d, x, Registered) \<or> ps_conns s' a = Some (d, x, Joined)"
        using live [of x a] c by (auto simp: s' unregister_clients split: if_splits)
    qed
  qed (auto simp: clients_live_def is_registered_def dest!: live split: if_splits)
qed

lemma peer_join_table: "fst (peer_join ord d cid t) = t(d \<mapsto> insert cid (zero_get {} t d))"
  by (simp add: peer_join_def Let_def)

lemma peer_remove_table:
  "peer_remove d cid t = (case t d of None \<Rightarrow> t | Some S \<Rightarrow> t(d := (if S - {cid} = {} then None else Some (S - {cid}))))"
  by (simp add: peer_remove_def split: option.splits)

text \<open>A connection may end without leaving the table only if another one stands for the same peer.\<close>

lemma peers_live_drop:
  assumes "peers_live s" and "ps_conns s c = Some (d, cid, p)" and "ps_conns s b = Some (d, cid, q)" and "b \<noteq> c"
  shows "peers_live (s\<lparr>ps_conns := (ps_conns s)(c := None)\<rparr>)"
  using assms unfolding peers_live_def by (auto, metis option.inject prod.inject)

lemma peers_live_phase:
  assumes "peers_live s" and "ps_conns s c = Some (d, cid, p)"
  shows "peers_live (s\<lparr>ps_conns := (ps_conns s)(c \<mapsto> (d, cid, q))\<rparr>)"
  using assms unfolding peers_live_def by (auto, metis option.inject prod.inject)

lemma peers_live_hub [simp]: "peers_live (s\<lparr>ps_hub := h, ps_conns := cs\<rparr>) = peers_live (s\<lparr>ps_conns := cs\<rparr>)"
  "peers_live (s\<lparr>ps_hub := h\<rparr>) = peers_live s"
  by (simp_all add: peers_live_def)

lemma peers_live_step:
  assumes "one_board_each may" and "peer_step ord may s s'"
    and "conns_allowed may s" and "clients_live s" and "peers_live s"
  shows "peers_live s'"
  using assms(2)
proof (rule peer_stepE)
  fix docID cid c
  assume "s' = s\<lparr>ps_hub := register cid '''' c (ps_hub s), ps_conns := (ps_conns s)(c \<mapsto> (docID, cid, Registered))\<rparr>"
    "ps_conns s c = None"
  then show ?thesis using assms(5) by (auto simp: peers_live_def) (metis option.distinct(1))
next
  fix c docID cid
  assume s': "s' = s\<lparr>ps_peers := fst (peer_join ord docID cid (ps_peers s)), ps_conns := (ps_conns s)(c \<mapsto> (docID, cid, Joined))\<rparr>"
    and c: "ps_conns s c = Some (docID, cid, Registered)"
  have old: "\<exists>a p. ((ps_conns s)(c \<mapsto> (docID, cid, Joined))) a = Some (d, x, p)" if "x \<in> zero_get {} (ps_peers s) d" for d x
  proof -
    from that assms(5) obtain a p where "ps_conns s a = Some (d, x, p)"
      by (auto simp: zero_get_def peers_live_def split: option.splits) blast
    with c show ?thesis by (cases "a = c") auto
  qed
  have new: "\<exists>a p. ((ps_conns s)(c \<mapsto> (docID, cid, Joined))) a = Some (docID, cid, p)" by (rule exI [of _ c]) simp
  show ?thesis unfolding peers_live_def
  proof (intro allI impI conjI ballI)
    fix d S assume S: "ps_peers s' d = Some S"
    then show "S \<noteq> {}" using assms(5) by (auto simp: s' peer_join_table peers_live_def split: if_splits)
    fix x assume "x \<in> S"
    then have "(d = docID \<and> x = cid) \<or> x \<in> zero_get {} (ps_peers s) d"
      using S by (auto simp: s' peer_join_table split: if_splits)
    moreover have "ps_conns s' = (ps_conns s)(c \<mapsto> (docID, cid, Joined))" by (simp add: s')
    ultimately show "\<exists>a p. ps_conns s' a = Some (d, x, p)" using old [of x d] new by metis
  qed
next
  fix c docID cid
  assume "s' = s\<lparr>ps_hub := unregister_if_current cid c (ps_hub s), ps_conns := (ps_conns s)(c \<mapsto> (docID, cid, Unregistered))\<rparr>"
    "ps_conns s c = Some (docID, cid, Joined)"
  then show ?thesis using peers_live_phase [OF assms(5)] by simp
next
  fix c docID cid
  assume s': "s' = s\<lparr>ps_conns := (ps_conns s)(c := None)\<rparr>"
    and c: "ps_conns s c = Some (docID, cid, Unregistered)" and reg: "is_registered cid (ps_hub s)"
  from reg obtain b where "clients (ps_hub s) cid = Some b" by (auto simp: is_registered_def)
  with assms(4) obtain d where b: "ps_conns s b = Some (d, cid, Registered) \<or> ps_conns s b = Some (d, cid, Joined)"
    unfolding clients_live_def by blast
  then have "may d cid" "may docID cid" "b \<noteq> c" using assms(3) c by (auto simp: conns_allowed_def)
  then have "d = docID" using assms(1) by (auto simp: one_board_each_def)
  then show ?thesis using b peers_live_drop [OF assms(5) c _ \<open>b \<noteq> c\<close>] by (auto simp: s')
next
  fix c docID cid
  assume "s' = s\<lparr>ps_conns := (ps_conns s)(c \<mapsto> (docID, cid, Leaving))\<rparr>" "ps_conns s c = Some (docID, cid, Unregistered)"
  then show ?thesis using peers_live_phase [OF assms(5)] by simp
next
  fix c docID cid
  assume s': "s' = s\<lparr>ps_peers := peer_remove docID cid (ps_peers s), ps_conns := (ps_conns s)(c := None)\<rparr>"
    and c: "ps_conns s c = Some (docID, cid, Leaving)"
  show ?thesis unfolding peers_live_def
  proof (intro allI impI conjI ballI)
    fix d S assume S: "ps_peers s' d = Some S"
    then show "S \<noteq> {}" using assms(5)
      by (auto simp: s' peer_remove_table peers_live_def split: if_splits option.splits)
    fix x assume x: "x \<in> S"
    from S x have "\<exists>T. ps_peers s d = Some T \<and> x \<in> T \<and> \<not> (d = docID \<and> x = cid)"
      by (auto simp: s' peer_remove_table split: if_splits option.splits)
    then obtain a p where "ps_conns s a = Some (d, x, p)" "a \<noteq> c"
      using assms(5) c unfolding peers_live_def by (metis option.inject prod.inject)
    then show "\<exists>a p. ps_conns s' a = Some (d, x, p)" by (auto simp: s')
  qed
next
  fix h assume "s' = s\<lparr>ps_hub := h\<rparr>"
  then show ?thesis using assms(5) by simp
qed

lemma peers_run_inv:
  assumes "one_board_each may" and "peer_run ord may peers_start s"
  shows "conns_allowed may s \<and> clients_live s \<and> peers_live s"
  using assms(2)
proof (induction rule: rtranclp_induct)
  case base
  then show ?case
    by (simp add: peers_start_def conns_allowed_def clients_live_def peers_live_def new_hub_fields [OF refl])
next
  case (step s s')
  then show ?case
    using conns_allowed_step clients_live_step peers_live_step [OF assms(1)] by blast
qed

text \<open>C31: If every client id is used for one board only, then under any interleaving of connections every
  peer a board shows has a connection to that board, and once all connections of a board are gone it shows
  nobody.\<close>
theorem shown_peers_are_connected:
  assumes "one_board_each may" and "peer_run ord may peers_start s"
  shows "(\<forall>d cid. cid \<in> zero_get {} (ps_peers s) d \<longrightarrow> (\<exists>c p. ps_conns s c = Some (d, cid, p))) \<and>
    ((\<forall>c cid p. ps_conns s c \<noteq> Some (d, cid, p)) \<longrightarrow> ps_peers s d = None)"
proof -
  have live: "peers_live s" using peers_run_inv [OF assms] by blast
  then have "\<exists>c p. ps_conns s c = Some (d, cid, p)" if "cid \<in> zero_get {} (ps_peers s) d" for d cid
    using that by (cases "ps_peers s d") (auto simp: peers_live_def)
  moreover have "ps_peers s d = None" if "\<forall>c cid p. ps_conns s c \<noteq> Some (d, cid, p)"
    using live that unfolding peers_live_def by (meson all_not_in_conv not_None_eq)
  ultimately show ?thesis by blast
qed

subsection \<open>Runs\<close>


text \<open>The steps as equations, to run them.\<close>

lemma run_step:
  "peer_run ord may s s1 \<Longrightarrow> peer_step ord may s1 s2 \<Longrightarrow> s2 = s3 \<Longrightarrow> peer_run ord may s s3"
  by (auto intro: rtranclp.rtrancl_into_rtrancl)

text \<open>What a connection's steps do to the tables when nothing runs in between.\<close>

lemma run_enter:
  assumes "peer_run ord may s0 s" and "may d cid" and "ps_conns s c = None" and "c \<notin> ran (clients (ps_hub s))"
  obtains s' where "peer_run ord may s0 s'" "clients (ps_hub s') = (clients (ps_hub s))(cid \<mapsto> c)"
    "ps_peers s' = (ps_peers s)(d \<mapsto> insert cid (zero_get {} (ps_peers s) d))" "ps_conns s' = (ps_conns s)(c \<mapsto> (d, cid, Joined))"
proof -
  let ?s1 = "s\<lparr>ps_hub := register cid '''' c (ps_hub s), ps_conns := (ps_conns s)(c \<mapsto> (d, cid, Registered))\<rparr>"
  let ?s2 = "?s1\<lparr>ps_peers := fst (peer_join ord d cid (ps_peers ?s1)), ps_conns := (ps_conns ?s1)(c \<mapsto> (d, cid, Joined))\<rparr>"
  have "peer_step ord may s ?s1" by (rule connect) (rule assms)+
  moreover have "peer_step ord may ?s1 ?s2" by (rule join) simp
  ultimately have "peer_run ord may s0 ?s2" using assms(1) by (meson rtranclp.rtrancl_into_rtrancl)
  then show ?thesis by (rule that) (simp_all add: peer_join_table)
qed

lemma run_part:
  assumes "peer_run ord may s0 s" and "ps_conns s c = Some (d, cid, Joined)"
    and "cs = (if clients (ps_hub s) cid = Some c then (clients (ps_hub s))(cid := None) else clients (ps_hub s))"
  obtains s' where "peer_run ord may s0 s'" "clients (ps_hub s') = cs" "ps_peers s' = ps_peers s"
    "ps_conns s' = (ps_conns s)(c := if cs cid = None then Some (d, cid, Leaving) else None)"
proof -
  let ?s1 = "s\<lparr>ps_hub := unregister_if_current cid c (ps_hub s), ps_conns := (ps_conns s)(c \<mapsto> (d, cid, Unregistered))\<rparr>"
  have cs: "clients (ps_hub ?s1) = cs" using assms(3) by (auto simp: unregister_clients fun_eq_iff)
  have run: "peer_run ord may s0 ?s1"
    using assms(1) part [OF assms(2)] by (meson rtranclp.rtrancl_into_rtrancl)
  show ?thesis
  proof (cases "cs cid")
    case None
    have "peer_step ord may ?s1 (?s1\<lparr>ps_conns := (ps_conns ?s1)(c \<mapsto> (d, cid, Leaving))\<rparr>)"
      by (rule leave) (use None cs in \<open>simp_all add: is_registered_def\<close>)
    with run have "peer_run ord may s0 (?s1\<lparr>ps_conns := (ps_conns ?s1)(c \<mapsto> (d, cid, Leaving))\<rparr>)"
      by (meson rtranclp.rtrancl_into_rtrancl)
    then show ?thesis by (rule that) (use None cs in simp_all)
  next
    case (Some b)
    have "peer_step ord may ?s1 (?s1\<lparr>ps_conns := (ps_conns ?s1)(c := None)\<rparr>)"
      by (rule stay [where docID = d and cid = cid]) (use Some cs in \<open>simp_all add: is_registered_def\<close>)
    with run have "peer_run ord may s0 (?s1\<lparr>ps_conns := (ps_conns ?s1)(c := None)\<rparr>)"
      by (meson rtranclp.rtrancl_into_rtrancl)
    then show ?thesis by (rule that) (use Some cs in simp_all)
  qed
qed

lemma run_gone:
  assumes "peer_run ord may s0 s" and "ps_conns s c = Some (d, cid, Leaving)"
  obtains s' where "peer_run ord may s0 s'" "clients (ps_hub s') = clients (ps_hub s)"
    "ps_peers s' = peer_remove d cid (ps_peers s)" "ps_conns s' = (ps_conns s)(c := None)"
proof -
  have "peer_run ord may s0 (s\<lparr>ps_peers := peer_remove d cid (ps_peers s), ps_conns := (ps_conns s)(c := None)\<rparr>)"
    using assms(1) gone [OF assms(2)] by (meson rtranclp.rtrancl_into_rtrancl)
  then show ?thesis by (rule that) simp_all
qed

lemma peers_start_fields [simp]:
  "clients (ps_hub peers_start) = Map.empty" "ps_peers peers_start = Map.empty" "ps_conns peers_start = Map.empty"
  by (simp_all add: peers_start_def new_hub_fields [OF refl])

text \<open>A client that reconnects between the look at the hub and the removal is taken off the table.\<close>

lemma reconnect_race:
  assumes "may d x"
  shows "\<exists>s. peer_run ord may peers_start s \<and> clients (ps_hub s) x = Some 1 \<and> ps_conns s = [1 \<mapsto> (d, x, Joined)] \<and>
    ps_peers s d = None"
proof -
  obtain s1 where s1: "peer_run ord may peers_start s1" "clients (ps_hub s1) = [x \<mapsto> 0]" "ps_peers s1 = [d \<mapsto> {x}]"
    "ps_conns s1 = [0 \<mapsto> (d, x, Joined)]"
    by (rule run_enter [where may = may and s = peers_start and c = 0 and d = d and cid = x, OF rtranclp.rtrancl_refl])
      (simp_all add: assms)
  obtain s2 where s2: "peer_run ord may peers_start s2" "clients (ps_hub s2) = Map.empty" "ps_peers s2 = [d \<mapsto> {x}]"
    "ps_conns s2 = [0 \<mapsto> (d, x, Leaving)]"
    by (rule run_part [OF s1(1), where c = 0 and d = d and cid = x and cs = Map.empty]) (simp_all add: s1)
  obtain s3 where s3: "peer_run ord may peers_start s3" "clients (ps_hub s3) = [x \<mapsto> 1]" "ps_peers s3 = [d \<mapsto> {x}]"
    "ps_conns s3 = [0 \<mapsto> (d, x, Leaving), 1 \<mapsto> (d, x, Joined)]"
    by (rule run_enter [where c = 1 and d = d and cid = x, OF s2(1)]) (simp_all add: s2 assms)
  obtain s4 where "peer_run ord may peers_start s4" "clients (ps_hub s4) = [x \<mapsto> 1]" "ps_peers s4 = Map.empty"
    "ps_conns s4 = [1 \<mapsto> (d, x, Joined)]"
    by (rule run_gone [OF s3(1), where c = 0 and d = d and cid = x]) (simp_all add: s3 peer_remove_table fun_upd_twist)
  then show ?thesis by auto
qed

text \<open>A client id that has two boards open stays on the first one's table for ever.\<close>

lemma phantom_peer:
  assumes "may d x" and "may e x" and "d \<noteq> e"
  shows "\<exists>s. peer_run ord may peers_start s \<and> clients (ps_hub s) = Map.empty \<and> ps_conns s = Map.empty \<and>
    ps_peers s = [d \<mapsto> {x}]"
proof -
  obtain s1 where s1: "peer_run ord may peers_start s1" "clients (ps_hub s1) = [x \<mapsto> 0]" "ps_peers s1 = [d \<mapsto> {x}]"
    "ps_conns s1 = [0 \<mapsto> (d, x, Joined)]"
    by (rule run_enter [where may = may and s = peers_start and c = 0 and d = d and cid = x, OF rtranclp.rtrancl_refl])
      (simp_all add: assms)
  obtain s2 where s2: "peer_run ord may peers_start s2" "clients (ps_hub s2) = [x \<mapsto> 1]" "ps_peers s2 = [d \<mapsto> {x}, e \<mapsto> {x}]"
    "ps_conns s2 = [0 \<mapsto> (d, x, Joined), 1 \<mapsto> (e, x, Joined)]"
    by (rule run_enter [where c = 1 and d = e and cid = x, OF s1(1)]) (use assms in \<open>simp_all add: s1\<close>)
  obtain s3 where s3: "peer_run ord may peers_start s3" "clients (ps_hub s3) = [x \<mapsto> 1]" "ps_peers s3 = [d \<mapsto> {x}, e \<mapsto> {x}]"
    "ps_conns s3 = [1 \<mapsto> (e, x, Joined)]"
    by (rule run_part [OF s2(1), where c = 0 and d = d and cid = x and cs = "[x \<mapsto> 1]"]) (simp_all add: s2 fun_upd_twist)
  obtain s4 where s4: "peer_run ord may peers_start s4" "clients (ps_hub s4) = Map.empty" "ps_peers s4 = [d \<mapsto> {x}, e \<mapsto> {x}]"
    "ps_conns s4 = [1 \<mapsto> (e, x, Leaving)]"
    by (rule run_part [OF s3(1), where c = 1 and d = e and cid = x and cs = Map.empty]) (simp_all add: s3)
  obtain s5 where "peer_run ord may peers_start s5" "clients (ps_hub s5) = Map.empty" "ps_peers s5 = [d \<mapsto> {x}]"
    "ps_conns s5 = Map.empty"
    by (rule run_gone [OF s4(1), where c = 1 and d = e and cid = x])
      (use assms(3) in \<open>simp_all add: s4 peer_remove_table fun_upd_twist\<close>)
  then show ?thesis by auto
qed

lemma phantom_stays:
  assumes "\<not> may d x" and "peer_run ord may s s'" and "x \<in> zero_get {} (ps_peers s) d" and "ps_conns s = Map.empty"
  shows "x \<in> zero_get {} (ps_peers s') d"
proof -
  have "x \<in> zero_get {} (ps_peers s') d \<and> conns_allowed may s'"
    using assms(2)
  proof (induction rule: rtranclp_induct)
    case base
    then show ?case using assms(3,4) by (simp add: conns_allowed_def)
  next
    case (step s1 s2)
    then have "conns_allowed may s2" using conns_allowed_step by blast
    moreover have "x \<in> zero_get {} (ps_peers s2) d"
      using step(2)
    proof (rule peer_stepE)
      fix c docID cid
      assume s2: "s2 = s1\<lparr>ps_peers := peer_remove docID cid (ps_peers s1), ps_conns := (ps_conns s1)(c := None)\<rparr>"
        and "ps_conns s1 c = Some (docID, cid, Leaving)"
      then have "docID \<noteq> d \<or> cid \<noteq> x" using step.IH assms(1) by (auto simp: conns_allowed_def)
      then show ?thesis using step.IH
        by (auto simp: s2 peer_remove_table zero_get_def split: option.splits if_splits)
    qed (use step.IH in \<open>auto simp: peer_join_table\<close>)
    ultimately show ?case by blast
  qed
  then show ?thesis ..
qed

text \<open>C32: The table of peers has two races.  A reconnect that falls between an old connection's look at the
  hub and its removal leaves a client registered and joined, and no peer on the board.  A client id with
  two boards open leaves a peer on the first board that no connection stands for, and which stays
  whatever other connections do.\<close>
theorem peer_table_races:
  assumes "may d x" and "may e x" and "d \<noteq> e"
  shows "(\<exists>s. peer_run ord may peers_start s \<and> ps_conns s = [1 \<mapsto> (d, x, Joined)] \<and> is_registered x (ps_hub s) \<and>
      ps_peers s d = None) \<and>
    (\<exists>s. peer_run ord may peers_start s \<and> ps_conns s = Map.empty \<and> ps_peers s d = Some {x} \<and>
      (\<forall>s'. peer_run ord (\<lambda>b cid. b \<noteq> d \<or> cid \<noteq> x) s s' \<longrightarrow> x \<in> zero_get {} (ps_peers s') d))"
proof (intro conjI)
  from reconnect_race [where may = may, OF assms(1), of ord] obtain s where
    "peer_run ord may peers_start s" "clients (ps_hub s) x = Some 1" "ps_conns s = [1 \<mapsto> (d, x, Joined)]" "ps_peers s d = None"
    by blast
  then show "\<exists>s. peer_run ord may peers_start s \<and> ps_conns s = [1 \<mapsto> (d, x, Joined)] \<and> is_registered x (ps_hub s) \<and>
      ps_peers s d = None"
    by (auto simp: is_registered_def)
  from phantom_peer [where may = may, OF assms, of ord] obtain s where
    s: "peer_run ord may peers_start s" "ps_conns s = Map.empty" "ps_peers s = [d \<mapsto> {x}]" by blast
  then have "\<forall>s'. peer_run ord (\<lambda>b cid. b \<noteq> d \<or> cid \<noteq> x) s s' \<longrightarrow> x \<in> zero_get {} (ps_peers s') d"
    using phantom_stays [where may = "\<lambda>b cid. b \<noteq> d \<or> cid \<noteq> x"] by simp
  with s show "\<exists>s. peer_run ord may peers_start s \<and> ps_conns s = Map.empty \<and> ps_peers s d = Some {x} \<and>
      (\<forall>s'. peer_run ord (\<lambda>b cid. b \<noteq> d \<or> cid \<noteq> x) s s' \<longrightarrow> x \<in> zero_get {} (ps_peers s') d)"
    by auto
qed

theorem peer_table_races_witness:
  "\<exists>s. peer_run (\<lambda>_. []) (\<lambda>_ _. True) peers_start s \<and> ps_conns s = Map.empty \<and> ps_peers s ''b1'' = Some {''x''}"
  using peer_table_races [of "\<lambda>_ _. True" "''b1''" "''x''" "''b2''" "\<lambda>_. []"] by auto

theorem shown_peers_are_connected_witness:
  "\<exists>s. peer_run (\<lambda>_. []) (\<lambda>b _. b = ''b1'') peers_start s \<and> ps_conns s = [1 \<mapsto> (''b1'', ''x'', Joined)] \<and>
    ps_peers s ''b2'' = None"
proof -
  from reconnect_race [of "\<lambda>b _. b = ''b1''" "''b1''" "''x''" "\<lambda>_. []"] obtain s where
    s: "peer_run (\<lambda>_. []) (\<lambda>b _. b = ''b1'') peers_start s" "ps_conns s = [1 \<mapsto> (''b1'', ''x'', Joined)]"
    by auto
  have "\<forall>c cid p. ps_conns s c \<noteq> Some (''b2'', cid, p)" by (simp add: s(2))
  then have "ps_peers s ''b2'' = None"
    using shown_peers_are_connected [OF _ s(1), of "''b2''"] by (simp add: one_board_each_def)
  with s show ?thesis by blast
qed

end
