(* ===== verification/BoardSync.thy ===== *)
theory BoardSync
  imports Whiteboard DemoBoard
begin

text \<open>
  What the whiteboard promises across components: what an update request does and who sees it, a board after
  a restart of its process, and several instances that exchange their boards over NATS.
\<close>

subsection \<open>An update request\<close>

lemma lists_board_count: "lists_board ss b \<Longrightarrow> card (dom b) = length ss"
proof -
  assume l: "lists_board ss b"
  then have "b = map_of (map (\<lambda>s. (sh_id s, s)) ss)" by (simp add: lists_board_def)
  then have "dom b = fst ` set (map (\<lambda>s. (sh_id s, s)) ss)" by (simp only: dom_map_of_conv_image_fst)
  then have "dom b = sh_id ` set ss" by (simp add: image_image)
  then show "card (dom b) = length ss"
    using l distinct_card [of "map sh_id ss"] by (simp add: lists_board_def)
qed

lemma shapes_to_others:
  assumes "hub_inv h" and "range_order (clients h) ids" and "clients h cid = Some c"
  shows "ch_q (chans (broadcast_except ids m origin h) c) = ch_q (chans h c) @ (if cid \<noteq> origin \<and> has_room h c then [m] else [])"
proof -
  have "(\<exists>x. x \<noteq> origin \<and> clients h x = Some c) \<longleftrightarrow> cid \<noteq> origin"
    using assms(1,3) unfolding hub_inv_def own_channels_def by blast
  then show ?thesis by (simp add: broadcast_except_queue [OF assms(1,2)])
qed

text \<open>C29: An update request with a known op, from whoever sends it, makes the op's specification true of the
  board and answers with the number of shapes; every client connected to the hub but the sender, on this
  board or another, gets the resolved shapes if its channel has room; no other document changes.\<close>
theorem board_update_shown:
  assumes "board_laws B" and "number_parser cn" and "readable cn B (doc_of B st i)"
    and "hub_inv (cl_hub st)" and "range_order (clients (cl_hub st)) (ord (cl_hub st))"
    and "decode_shape_op cn body = Some p" and "board_apply p (board_view cn B (doc_of B st i)) = Some b"
    and "i \<noteq> ''''" and "handle_update cn B ps pub ord i origin (Some body) st = Some (st', rp)"
  shows "rp = say 200 (Json_body (JObj [(''count'', JInt (int (card (dom b)))), (''ok'', JBool True)])) \<and>
    board_view cn B (doc_of B st' i) = b \<and> readable cn B (doc_of B st' i) \<and>
    (\<forall>j. j \<noteq> i \<longrightarrow> doc_of B st' j = doc_of B st j) \<and>
    (\<exists>ss. lists_board ss b \<and> (\<forall>cid c. clients (cl_hub st) cid = Some c \<longrightarrow>
       ch_q (chans (cl_hub st') c) = ch_q (chans (cl_hub st) c) @
         (if cid \<noteq> origin \<and> has_room (cl_hub st) c then [shapes_event i origin (Some ss)] else [])))"
proof -
  obtain d0 r0 where "apply_shape_op cn B p (doc_of B st i) = (d0, r0)" by fastforce
  note op0 = apply_shape_op_refines [OF assms(1-3) decode_shape_op_points [OF assms(2,6)] this]
  obtain ss where r0: "r0 = Inr ss" "board_view cn B d0 = b" "lists_board ss b" using op0(2) [OF assms(7)] by blast
  obtain r where run: "web_apply_op cn B ps pub ord i origin p st = Some (st', r)"
    using assms(6,8,9) by (auto simp: handle_update_def split: option.splits sum.splits)
  have "r = Inr ss"
    using run \<open>apply_shape_op cn B p (doc_of B st i) = (d0, r0)\<close> r0(1)
    by (auto simp: web_apply_op_def get_or_create_doc Let_def split: option.splits)
  then have run: "web_apply_op cn B ps pub ord i origin p st = Some (st', Inr ss)" using run by simp
  from web_apply_op_run [OF run] obtain d snap where st':
    "apply_shape_op cn B p (doc_of B st i) = (d, Inr ss)" "cl_docs st' = (cl_docs st)(i \<mapsto> d)"
    "cl_hub st' = broadcast_except (ord (cl_hub st)) (shapes_event i origin (Some ss)) origin (cl_hub st)" by metis
  have d: "d = d0" using st'(1) \<open>apply_shape_op cn B p (doc_of B st i) = (d0, r0)\<close> by simp
  have doc: "doc_of B st' j = (if j = i then d0 else doc_of B st j)" for j using st'(2) d by (simp add: doc_of_def)
  have "rp = say 200 (Json_body (JObj [(''count'', JInt (int (length ss))), (''ok'', JBool True)]))"
    using assms(6,8,9) run by (simp add: handle_update_def)
  moreover have "ch_q (chans (cl_hub st') c) = ch_q (chans (cl_hub st) c) @
      (if cid \<noteq> origin \<and> has_room (cl_hub st) c then [shapes_event i origin (Some ss)] else [])"
    if "clients (cl_hub st) cid = Some c" for cid c
    unfolding st'(3) by (rule shapes_to_others [OF assms(4,5) that])
  ultimately show ?thesis using doc r0 op0(1) lists_board_count [OF r0(3)] by auto
qed

subsection \<open>A restart\<close>

definition pb_persister :: "'db board_app \<Rightarrow> 'db persister" where
  "pb_persister A = \<lparr>ps_save = pb_save_snapshot A, ps_load = pb_load_snapshot A\<rparr>"

lemma pb_provider: "pocketbase.provider A = pb_persister A"
  by (simp add: pocketbase.provider_def pb_persister_def)

context persister
begin

text \<open>A process that starts with nothing loaded and opens the board has what was saved last.\<close>

lemma open_saved:
  assumes "board_merge_laws B ops carried" and "bo_export B d = Some snap" and "load i (cl_store st0) = Some snap"
    and "cl_docs st0 = Map.empty"
  shows "ops (doc_of B (fst (web_load_snapshot B (Some provider) i st0)) i) = ops d"
proof -
  obtain e ok where imp: "bo_import B snap (bo_new B) = (e, ok)" by fastforce
  from merge_lawsD(4) [OF assms(1,2) imp] have e: "ops e = carried snap" by (simp add: merge_lawsD(1) [OF assms(1)])
  have "doc_of B st0 i = bo_new B" using assms(4) by (simp add: doc_of_def)
  then have "cl_docs (fst (web_load_snapshot B (Some provider) i st0)) i = Some e"
    using assms(3) imp by (simp add: web_load_snapshot_def provider_def get_or_create_doc import_update_def put_doc_def)
  then show ?thesis using e merge_lawsD(2) [OF assms(1,2)] by (simp add: doc_of_def)
qed

end

text \<open>C30: A board whose update was saved looks the same in a process that starts afterwards and opens the
  board's page; if the save failed, that process finds what was stored before.\<close>
theorem board_survives_restart:
  assumes "board_laws B" and "board_merge_laws B ops carried" and "number_parser cn" and "readable cn B (doc_of B st i)"
    and "pb_board_good A rows (cl_store st)" and "points_ok cn (sh_points (so_shape p))"
    and "board_apply p (board_view cn B (doc_of B st i)) = Some b"
    and "web_apply_op cn B (Some (pb_persister A)) pub ord i origin p st = Some (st', Inr ss)"
    and "bo_export B (doc_of B st' i) = Some snap" and "pb_save_snapshot A i snap (cl_store st) = (cl_store st', saved)"
    and "cl_docs st0 = Map.empty" and "cl_store st0 = cl_store st'" and "i \<noteq> ''''"
  shows "if saved then \<exists>ss'. snd (web_shapes cn B i (fst (handle_board B (Some (pb_persister A)) i ev st0))) = Some ss' \<and>
      lists_board ss' b
    else pb_load_snapshot A i (cl_store st0) = pb_load_snapshot A i (cl_store st)"
proof (cases saved)
  case False
  then show ?thesis using pocketbase.load_unsaved [OF assms(5), of i snap "cl_store st'" i] assms(10,12) by simp
next
  case True
  from web_apply_op_run [OF assms(8)] obtain d where
    op: "apply_shape_op cn B p (doc_of B st i) = (d, Inr ss)" and docs: "cl_docs st' = (cl_docs st)(i \<mapsto> d)" by metis
  note spec = apply_shape_op_refines [OF assms(1,3,4,6) op]
  have d: "doc_of B st' i = d" using docs by (simp add: doc_of_def)
  have ne: "snap \<noteq> []" using merge_lawsD(2) [OF assms(2,9)] by simp
  have load: "pb_load_snapshot A i (cl_store st0) = Some snap"
    using pocketbase.load_saved [OF assms(5) ne, of i "cl_store st'" i] assms(10,12) True by simp
  define st1 where "st1 = fst (handle_board B (Some (pb_persister A)) i ev st0)"
  have "st1 = fst (web_load_snapshot B (Some (pb_persister A)) i st0)" using assms(13) by (simp add: st1_def handle_board_def)
  then have "ops (doc_of B st1 i) = ops d"
    using pocketbase.open_saved [OF assms(2,9) load assms(11)] by (simp add: pb_provider d)
  from merge_lawsD(8) [OF assms(2) this] have items: "bo_items B (doc_of B st1 i) = bo_items B d" .
  then have "readable cn B (doc_of B st1 i)" using spec(1) by (simp add: readable_def)
  from read_shapes_lists [OF assms(1) this] obtain ss' where
    "read_shapes cn B (doc_of B st1 i) = Some ss'" "lists_board ss' (board_view cn B (doc_of B st1 i))" .
  moreover have "board_view cn B (doc_of B st1 i) = b"
    using items spec(2) [OF assms(7)] by (simp add: board_view_def)
  ultimately have "snd (web_shapes cn B i st1) = Some ss' \<and> lists_board ss' b"
    by (simp add: web_shapes_def get_or_create_doc doc_shapes_def)
  then show ?thesis using True by (auto simp: st1_def)
qed

subsection \<open>Instances\<close>

text \<open>C28: However the instances' requests, pages and deliveries interleave, when every published message has
  been delivered all instances show the same board, for every board whose id has no dot.\<close>
theorem boards_converge:
  assumes "board_merge_laws B ops carried" and "pb_board_good A rows (cl_store st)"
    and "\<And>j. pb_load_snapshot A j (cl_store st) = None"
    and "(net_step cn B (pb_persister A) ord N)\<^sup>*\<^sup>* (net_start st) w" and "delivered N w"
    and "k < N" and "l < N" and "i \<noteq> ''''" and "CHR ''.'' \<notin> set i"
  shows "board_view cn B (doc_of B (nw_inst w k) i) = board_view cn B (doc_of B (nw_inst w l) i)"
proof -
  have "pocketbase.net_ok A rows B ops carried N w"
    by (rule pocketbase.net_run_ok [OF assms(1)])
      (use assms(4) pocketbase.net_start_ok [OF assms(1,2,3)] in \<open>simp_all add: pb_provider\<close>)
  then have "ops (doc_of B (nw_inst w k) i) = ops (doc_of B (nw_inst w l) i)"
    using pocketbase.net_delivered [of A rows B ops carried N w] assms(5-9) by simp
  then show ?thesis by (rule same_board [OF assms(1)])
qed

subsection \<open>Witnesses\<close>

text \<open>An update does not panic as long as documents can be exported.\<close>

lemma web_apply_op_total:
  assumes "\<And>d. bo_export B d \<noteq> None"
  shows "\<exists>st' r. web_apply_op cn B ps pub ord i origin p st = Some (st', r)"
proof -
  obtain d r where "apply_shape_op cn B p (doc_of B st i) = (d, r)" by fastforce
  then show ?thesis using assms [of d]
    by (cases r) (auto simp: web_apply_op_def get_or_create_doc encode_snapshot_def Let_def)
qed

lemma web_apply_op_known:
  assumes "board_laws B" and "number_parser cn" and "readable cn B (doc_of B st i)" and "points_ok cn (sh_points (so_shape p))"
    and "board_apply p (board_view cn B (doc_of B st i)) = Some b" and "\<And>d. bo_export B d \<noteq> None"
  shows "\<exists>st' ss. web_apply_op cn B ps pub ord i origin p st = Some (st', Inr ss)"
proof -
  obtain d r where op: "apply_shape_op cn B p (doc_of B st i) = (d, r)" by fastforce
  from apply_shape_op_refines(2) [OF assms(1-4) op assms(5)] obtain ss where "r = Inr ss" by blast
  with op assms(6) [of d] show ?thesis
    by (auto simp: web_apply_op_def get_or_create_doc encode_snapshot_def Let_def)
qed

lemma handle_update_total:
  assumes "\<And>d. bo_export B d \<noteq> None"
  shows "\<exists>st' rp. handle_update cn B ps pub ord i origin body st = Some (st', rp)"
proof (cases "i = '''' \<or> body = None \<or> decode_shape_op cn (the body) = None")
  case True
  then show ?thesis by (cases body) (auto simp: handle_update_def)
next
  case False
  then obtain b p where b: "body = Some b" "decode_shape_op cn b = Some p" by auto
  obtain st' r where "web_apply_op cn B ps pub ord i origin p st = Some (st', r)"
    using web_apply_op_total [OF assms] by blast
  then show ?thesis using False b by (cases r) (simp_all add: handle_update_def)
qed

definition demo_rect :: shape where
  "demo_rect = zero_shape\<lparr>sh_id := ''s1'', sh_type := ''rect''\<rparr>"

definition demo_op :: shape_op where
  "demo_op = \<lparr>so_op = ''add'', so_shape = demo_rect\<rparr>"

definition demo_body :: bytes where
  "demo_body = marshal (JObj [(''op'', JStr ''add''), (''shape'', JObj [(''id'', JStr ''s1''), (''type'', JStr ''rect'')])])"

definition demo_collab :: "(wlog, board_row list, nats_log) collab" where
  "demo_collab = \<lparr>cl_docs = Map.empty, cl_store = [], cl_hub = register ''you'' '''' 0 (new_hub []), cl_nats = []\<rparr>"

lemma demo_decode: "decode_shape_op int_floats demo_body = Some demo_op"
  by code_simp

lemma demo_export: "bo_export demo_board d = Some (export_wlog d)"
  by (simp add: demo_board_def)

lemma demo_collab_facts:
  "doc_of demo_board demo_collab i = []" "readable cn demo_board []" "board_view cn demo_board [] = Map.empty"
  "hub_inv (cl_hub demo_collab)" "clients (cl_hub demo_collab) = [''you'' \<mapsto> 0]"
proof -
  have items: "bo_items demo_board [] = Map.empty" by (simp add: demo_board_def wlog_entries_def)
  show "doc_of demo_board demo_collab i = []" by (simp add: doc_of_def demo_collab_def demo_board_def)
  show "readable cn demo_board []" "board_view cn demo_board [] = Map.empty"
    by (auto simp: readable_def board_view_def items shape_at_def)
  show "hub_inv (cl_hub demo_collab)"
    using register_inv [OF new_hub_inv, of 0 "[]"] by (simp add: demo_collab_def new_hub_fields [OF refl])
  show "clients (cl_hub demo_collab) = [''you'' \<mapsto> 0]"
    by (simp add: demo_collab_def register_def Let_def new_hub_fields [OF refl])
qed

theorem board_update_shown_witness:
  "\<exists>st' rp. handle_update int_floats demo_board None None (\<lambda>_. [''you'']) ''b1'' ''me'' (Some demo_body) demo_collab = Some (st', rp) \<and>
    rp_status rp = 200 \<and> board_view int_floats demo_board (doc_of demo_board st' ''b1'') = [''s1'' \<mapsto> demo_rect]"
proof -
  from handle_update_total [of demo_board] obtain st' rp where
    run: "handle_update int_floats demo_board None None (\<lambda>_. [''you'']) ''b1'' ''me'' (Some demo_body) demo_collab = Some (st', rp)"
    by (metis demo_export option.distinct(1))
  have order: "range_order (clients (cl_hub demo_collab)) [''you'']" by (simp add: range_order_def demo_collab_facts)
  have spec: "board_apply demo_op (board_view int_floats demo_board (doc_of demo_board demo_collab ''b1'')) = Some [''s1'' \<mapsto> demo_rect]"
    by (simp add: board_apply_def demo_op_def demo_rect_def demo_collab_facts)
  have "readable int_floats demo_board (doc_of demo_board demo_collab ''b1'')" by (simp add: demo_collab_facts)
  from board_update_shown [OF demo_board_laws int_floats_parser this demo_collab_facts(4) order demo_decode spec _ run]
  show ?thesis using run by (simp add: say_def)
qed

lemma demo_facts:
  "points_ok int_floats (sh_points (so_shape demo_op))"
  "board_apply demo_op (board_view int_floats demo_board []) = Some [''s1'' \<mapsto> demo_rect]"
  "pb_board_good row_app (\<lambda>rs. rs) (cl_store demo_collab)" "pb_load_snapshot row_app j (cl_store demo_collab) = None"
  "bo_export demo_board d \<noteq> None"
  by (simp_all add: points_ok_def demo_op_def demo_rect_def zero_shape_def board_apply_def demo_collab_facts demo_collab_def
      row_app_good row_app_empty demo_export)

theorem board_survives_restart_witness:
  "\<exists>st' ss ss'. web_apply_op int_floats demo_board (Some (pb_persister row_app)) None (\<lambda>_. [''you'']) ''b1'' ''me'' demo_op
      demo_collab = Some (st', Inr ss) \<and>
    snd (web_shapes int_floats demo_board ''b1'' (fst (handle_board demo_board (Some (pb_persister row_app)) ''b1''
      (fresh_event (login_request '''')) (st'\<lparr>cl_docs := Map.empty\<rparr>)))) = Some ss' \<and> lists_board ss' [''s1'' \<mapsto> demo_rect]"
proof -
  have ok: "readable int_floats demo_board (doc_of demo_board demo_collab ''b1'')" by (simp add: demo_collab_facts)
  have spec: "board_apply demo_op (board_view int_floats demo_board (doc_of demo_board demo_collab ''b1'')) = Some [''s1'' \<mapsto> demo_rect]"
    unfolding demo_collab_facts(1) by (rule demo_facts)
  from web_apply_op_known [OF demo_board_laws int_floats_parser ok demo_facts(1) spec demo_facts(5)] obtain st' ss where
    run: "web_apply_op int_floats demo_board (Some (pb_persister row_app)) None (\<lambda>_. [''you'']) ''b1'' ''me'' demo_op
      demo_collab = Some (st', Inr ss)" by blast
  from web_apply_op_run [OF run] obtain e snap where
    st': "encode_snapshot demo_board e = Some snap" "cl_docs st' = (cl_docs demo_collab)(''b1'' \<mapsto> e)"
      "cl_store st' = (case Some (pb_persister row_app) of None \<Rightarrow> cl_store demo_collab
        | Some q \<Rightarrow> fst (ps_save q ''b1'' snap (cl_store demo_collab)))" by metis
  have export: "bo_export demo_board (doc_of demo_board st' ''b1'') = Some snap"
    using st'(1,2) by (simp add: doc_of_def encode_snapshot_def)
  have "snd (pb_save_snapshot row_app ''b1'' snap (cl_store demo_collab))"
    by (simp add: pb_save_snapshot_def row_app_def demo_collab_def)
  then have save: "pb_save_snapshot row_app ''b1'' snap (cl_store demo_collab) = (cl_store st', True)"
    using st'(3) by (simp add: pb_persister_def prod_eq_iff)
  from board_survives_restart [OF demo_board_laws demo_merge_laws int_floats_parser ok demo_facts(3,1) spec run export save,
      of "st'\<lparr>cl_docs := Map.empty\<rparr>" "fresh_event (login_request '''')"] run
  show ?thesis by auto
qed

definition demo_net :: "(wlog, board_row list) network" where
  "demo_net = net_start demo_collab"

lemma demo_net_fields [simp]: "nw_log demo_net = []" "nw_seen demo_net = (\<lambda>_. 0)"
  "nw_inst demo_net = (\<lambda>_. demo_collab\<lparr>cl_docs := Map.empty\<rparr>)"
  by (simp_all add: demo_net_def net_start_def)

text \<open>The first instance takes a request.\<close>

lemma demo_request:
  "\<exists>w. net_step int_floats demo_board (pb_persister row_app) (\<lambda>_. [''you'']) 2 demo_net w \<and> length (nw_log w) = 1 \<and>
     nw_seen w = (\<lambda>_. 0)"
proof -
  let ?st = "(nw_inst demo_net 0)\<lparr>cl_nats := nw_log demo_net\<rparr>"
  have doc: "doc_of demo_board ?st ''b1'' = []" by (simp add: doc_of_def demo_board_def)
  obtain st ss where run: "web_apply_op int_floats demo_board (Some (pb_persister row_app)) (Some log_pub) (\<lambda>_. [''you''])
      ''b1'' ''me'' demo_op ?st = Some (st, Inr ss)"
  proof -
    have ok: "readable int_floats demo_board (doc_of demo_board ?st ''b1'')" unfolding doc by (rule demo_collab_facts)
    have spec: "board_apply demo_op (board_view int_floats demo_board (doc_of demo_board ?st ''b1'')) = Some [''s1'' \<mapsto> demo_rect]"
      unfolding doc by (rule demo_facts)
    show ?thesis
      using web_apply_op_known [OF demo_board_laws int_floats_parser ok demo_facts(1) spec demo_facts(5)] that by blast
  qed
  from web_apply_op_run [OF run] obtain snap where
    "cl_nats st = (case Some log_pub of None \<Rightarrow> cl_nats ?st
      | Some f \<Rightarrow> fst (f (nats_sync_subject ''b1'') snap (cl_nats ?st)))" by metis
  then have "length (cl_nats st) = 1" by (simp add: log_pub_def)
  moreover have "net_step int_floats demo_board (pb_persister row_app) (\<lambda>_. [''you'']) 2 demo_net
      (demo_net\<lparr>nw_inst := (nw_inst demo_net)(0 := st), nw_log := cl_nats st\<rparr>)"
    by (rule request [OF _ run]) simp
  ultimately show ?thesis by (intro exI conjI) (assumption, simp_all)
qed

lemma run_three: "R a b \<Longrightarrow> R b c \<Longrightarrow> R c d \<Longrightarrow> R\<^sup>*\<^sup>* a d"
  by (simp add: converse_rtranclp_into_rtranclp)

lemma demo_deliver:
  assumes "k < 2" and "nw_seen w k < length (nw_log w)"
  shows "\<exists>st. net_step cn demo_board (pb_persister row_app) ord 2 w
    (w\<lparr>nw_inst := (nw_inst w)(k := st), nw_seen := (nw_seen w)(k := Suc (nw_seen w k))\<rparr>)"
proof -
  obtain s m where m: "nw_log w ! nw_seen w k = (s, m)" by fastforce
  have "\<exists>st. on_sync_message demo_board (pb_persister row_app) s m (nw_inst w k) = Some st"
    by (simp add: on_sync_message_def Let_def get_or_create_doc encode_snapshot_def demo_export split: prod.splits)
  then show ?thesis using deliver [OF assms m] by blast
qed

theorem boards_converge_witness:
  "\<exists>w. (net_step int_floats demo_board (pb_persister row_app) (\<lambda>_. [''you'']) 2)\<^sup>*\<^sup>* demo_net w \<and> delivered 2 w \<and>
    length (nw_log w) = 1 \<and>
    board_view int_floats demo_board (doc_of demo_board (nw_inst w 0) ''b1'') =
      board_view int_floats demo_board (doc_of demo_board (nw_inst w 1) ''b1'')"
proof -
  let ?R = "net_step int_floats demo_board (pb_persister row_app) (\<lambda>_. [''you'']) 2"
  from demo_request obtain w1 where w1: "?R demo_net w1" "length (nw_log w1) = 1" "nw_seen w1 = (\<lambda>_. 0)" by blast
  obtain s0 where "?R w1 (w1\<lparr>nw_inst := (nw_inst w1)(0 := s0), nw_seen := (nw_seen w1)(0 := Suc (nw_seen w1 0))\<rparr>)"
    using demo_deliver [of 0 w1] w1(2,3) by auto
  then obtain w2 where w2: "?R w1 w2" "nw_log w2 = nw_log w1" "nw_seen w2 = (\<lambda>_. 0)(0 := 1)"
    using w1(3) by fastforce
  obtain s1 where "?R w2 (w2\<lparr>nw_inst := (nw_inst w2)(1 := s1), nw_seen := (nw_seen w2)(1 := Suc (nw_seen w2 1))\<rparr>)"
    using demo_deliver [of 1 w2] w1(2) w2(2,3) by auto
  then obtain w3 where w3: "?R w2 w3" "nw_log w3 = nw_log w1" "nw_seen w3 = (\<lambda>_. 0)(0 := 1, 1 := 1)"
    using w2(2,3) by fastforce
  note all = run_three [of ?R, OF w1(1) w2(1) w3(1)]
  have del: "delivered 2 w3" using w1(2) w3(2,3) by (auto simp: delivered_def less_2_cases_iff)
  have "board_view int_floats demo_board (doc_of demo_board (nw_inst w3 0) ''b1'') =
      board_view int_floats demo_board (doc_of demo_board (nw_inst w3 1) ''b1'')"
    by (rule boards_converge [OF demo_merge_laws demo_facts(3,4) all [unfolded demo_net_def] del]) simp_all
  then show ?thesis using all del w1(2) w3(2) by auto
qed

end
