(* ===== verification/Boot.thy ===== *)
theory Boot
  imports Realtime Replication AppConfig Collab
begin

text \<open>
  How a process is put together: the embedded NATS server (\<open>internal/nats/embedded.go\<close>,
  \<open>jetstream.go\<close>), the rooms of \<open>internal/nats/presence.go\<close>, the choice of the store and the wiring of
  \<open>router/router.go\<close> and \<open>internal/server\<close>, and the two commands \<open>cmd/web\<close> and \<open>cmd/desktop\<close>.  What the
  libraries answer (starting a server, connecting, the JetStream calls) are arguments.
\<close>

subsection \<open>NATS in the process\<close>

text \<open>Which of the package's globals \<open>NS\<close>, \<open>NC\<close> and \<open>JS\<close> are set.\<close>

record nats_globals =
  ng_server :: bool
  ng_conn :: bool
  ng_js :: bool

definition no_nats :: nats_globals where
  "no_nats = \<lparr>ng_server = False, ng_conn = False, ng_js = False\<rparr>"

text \<open>What the library answers: a server can be made, connecting, a JetStream context, ready for
  connections, and the polls of JetStream, each with whether the deadline has passed by then.\<close>

record nats_outcomes =
  no_server :: bool
  no_connect :: bool
  no_context :: bool
  no_ready :: bool
  no_polls :: "(bool \<times> bool) list"

fun wait_for_jetstream :: "(bool \<times> bool) list \<Rightarrow> bool" where
  "wait_for_jetstream [] = False"
| "wait_for_jetstream ((up, over) # ps) = (if up then True else if over then False else wait_for_jetstream ps)"

definition start_embedded :: "nats_outcomes \<Rightarrow> nats_globals \<Rightarrow> nats_globals \<times> bool" where
  "start_embedded r g =
     (let g0 = no_nats; g1 = g0\<lparr>ng_server := True\<rparr>; g2 = g1\<lparr>ng_conn := True\<rparr>; g3 = g2\<lparr>ng_js := True\<rparr>
      in if \<not> no_server r then (g0, False)
         else if \<not> no_connect r then (g1, False)
         else if \<not> no_context r then (g2, False)
         else if \<not> no_ready r then (g3, False)
         else (g3, wait_for_jetstream (no_polls r)))"

definition start_leaf_node :: "bool \<Rightarrow> nats_outcomes \<Rightarrow> nats_globals \<Rightarrow> nats_globals \<times> bool" where
  "start_leaf_node url_ok r g =
     (let g1 = g\<lparr>ng_server := True\<rparr>; g2 = g1\<lparr>ng_conn := True\<rparr>; g3 = g2\<lparr>ng_js := True\<rparr>
      in if \<not> url_ok then (g, False)
         else if \<not> no_server r then (g, False)
         else if \<not> no_connect r then (g1, False)
         else if \<not> no_context r then (g2, False)
         else if \<not> no_ready r then (g3, False)
         else (g3, wait_for_jetstream (no_polls r)))"

definition connect_existing :: "nats_outcomes \<Rightarrow> nats_globals \<Rightarrow> nats_globals \<times> bool" where
  "connect_existing r g =
     (let g1 = g\<lparr>ng_conn := True\<rparr>; g2 = g1\<lparr>ng_js := True\<rparr>
      in if \<not> no_connect r then (g, False)
         else if \<not> no_context r then (g1, False)
         else (g2, wait_for_jetstream (no_polls r)))"

definition stop_nats :: "nats_globals \<Rightarrow> nats_globals" where
  "stop_nats g = no_nats"

text \<open>\<open>EnsureStream\<close>: the error of \<open>AddStream\<close>, whatever it is.\<close>

definition nats_ensure_stream ::
  "(string \<Rightarrow> string list \<Rightarrow> int option \<Rightarrow> 'js \<Rightarrow> 'js \<times> string option) \<Rightarrow> string \<Rightarrow> string list \<Rightarrow> int list \<Rightarrow> 'js \<Rightarrow>
   'js \<times> string option" where
  "nats_ensure_stream add name subjects ages js =
     (case add name subjects (case ages of [] \<Rightarrow> None | a # _ \<Rightarrow> Some a) js of
        (js', None) \<Rightarrow> (js', None) | (js', Some e) \<Rightarrow> (js', Some e))"

subsection \<open>Rooms\<close>

record user_info =
  ui_id :: string
  ui_name :: string
  ui_status :: string
  ui_joined :: string

text \<open>The key-value store of JetStream: making sure of a bucket, and its calls.\<close>

record 'js kv_api =
  kv_bucket :: "string \<Rightarrow> 'js \<Rightarrow> 'js \<times> go_error option"
  kv_put :: "string \<Rightarrow> bytes \<Rightarrow> 'js \<Rightarrow> 'js \<times> bool"
  kv_delete :: "string \<Rightarrow> 'js \<Rightarrow> 'js \<times> bool"
  kv_keys :: "'js \<Rightarrow> go_error + string list"
  kv_get :: "string \<Rightarrow> 'js \<Rightarrow> bytes option"
  kv_pub :: "string \<Rightarrow> bytes \<Rightarrow> 'js \<Rightarrow> 'js \<times> bool"

definition user_info_json :: "user_info \<Rightarrow> jval" where
  "user_info_json u = JObj [(''id'', JStr (ui_id u)), (''name'', JStr (ui_name u)), (''status'', JStr (ui_status u)),
     (''joinedAt'', JStr (ui_joined u))]"

definition room_event :: "string \<Rightarrow> string \<Rightarrow> string \<Rightarrow> bytes" where
  "room_event t room user = marshal (JObj [(''roomID'', JStr room), (''type'', JStr t), (''userID'', JStr user)])"

definition room_key :: "string \<Rightarrow> string \<Rightarrow> string" where
  "room_key room user = ''room.'' @ room @ ''.user.'' @ user"

definition user_join :: "'js kv_api \<Rightarrow> string \<Rightarrow> user_info \<Rightarrow> 'js \<Rightarrow> 'js \<times> go_error option" where
  "user_join kv room u js = (case kv_bucket kv ''room-presence'' js of
     (js1, Some e) \<Rightarrow> (js1, Some e)
   | (js1, None) \<Rightarrow>
       (let js2 = fst (kv_put kv (room_key room (ui_id u)) (marshal (user_info_json u)) js1)
        in (fst (kv_pub kv (''presence.'' @ room @ ''.join'') (room_event ''join'' room (ui_id u)) js2), None)))"

definition user_leave :: "'js kv_api \<Rightarrow> string \<Rightarrow> string \<Rightarrow> 'js \<Rightarrow> 'js \<times> go_error option" where
  "user_leave kv room user js = (case kv_bucket kv ''room-presence'' js of
     (js1, Some e) \<Rightarrow> (js1, Some e)
   | (js1, None) \<Rightarrow>
       (let js2 = fst (kv_delete kv (room_key room user) js1)
        in (fst (kv_pub kv (''presence.'' @ room @ ''.leave'') (room_event ''leave'' room user) js2), None)))"

text \<open>\<open>time_ok\<close> is the parser of the time in an entry.\<close>

definition decode_user_info :: "(string \<Rightarrow> bool) \<Rightarrow> bytes \<Rightarrow> user_info option" where
  "decode_user_info time_ok b = (case unmarshal b of
     Some JNull \<Rightarrow> Some \<lparr>ui_id = '''', ui_name = '''', ui_status = '''', ui_joined = ''0001-01-01T00:00:00Z''\<rparr>
   | Some (JObj kvs) \<Rightarrow>
       (case decode_field dec_str '''' ''id'' kvs of None \<Rightarrow> None | Some i \<Rightarrow>
       (case decode_field dec_str '''' ''name'' kvs of None \<Rightarrow> None | Some n \<Rightarrow>
       (case decode_field dec_str '''' ''status'' kvs of None \<Rightarrow> None | Some s \<Rightarrow>
       (case decode_field (\<lambda>old v. case v of JStr t \<Rightarrow> if time_ok t then Some t else None | JNull \<Rightarrow> Some old | _ \<Rightarrow> None)
          ''0001-01-01T00:00:00Z'' ''joinedAt'' kvs of None \<Rightarrow> None | Some j \<Rightarrow>
         Some \<lparr>ui_id = i, ui_name = n, ui_status = s, ui_joined = j\<rparr>))))
   | _ \<Rightarrow> None)"

fun room_users_of :: "(string \<Rightarrow> bytes option) \<Rightarrow> (string \<Rightarrow> bool) \<Rightarrow> string list \<Rightarrow> user_info list" where
  "room_users_of get time_ok [] = []"
| "room_users_of get time_ok (k # ks) = (case get k of None \<Rightarrow> room_users_of get time_ok ks
   | Some b \<Rightarrow> (case decode_user_info time_ok b of None \<Rightarrow> room_users_of get time_ok ks
     | Some u \<Rightarrow> u # room_users_of get time_ok ks))"

definition get_room_users :: "'js kv_api \<Rightarrow> (string \<Rightarrow> bool) \<Rightarrow> string \<Rightarrow> 'js \<Rightarrow> 'js \<times> (go_error + user_info list)" where
  "get_room_users kv time_ok room js = (case kv_bucket kv ''room-presence'' js of
     (js1, Some e) \<Rightarrow> (js1, Inl e)
   | (js1, None) \<Rightarrow> (case kv_keys kv js1 of Inl e \<Rightarrow> (js1, Inl e)
     | Inr ks \<Rightarrow> (js1, Inr (room_users_of (\<lambda>k. kv_get kv k js1) time_ok ks))))"

text \<open>The room asked for makes no difference.\<close>

lemma room_users_ignore_room: "get_room_users kv time_ok r js = get_room_users kv time_ok s js"
  by (simp add: get_room_users_def)

end
