(* ===== verification/Wiring.thy ===== *)
theory Wiring
  imports Boot
begin

text \<open>
  How a process is put together: the choice of the store and the serve hook of \<open>router/router.go\<close>,
  \<open>Run\<close> of \<open>internal/server/boot.go\<close>, the wiring of the CRDT store (\<open>crdtstore_wire.go\<close>,
  \<open>crdtstore_wire_publisher.go\<close>), and the two commands \<open>cmd/web\<close> and \<open>cmd/desktop\<close>.  A process is the
  record of what its components have been connected to.
\<close>

subsection \<open>The store\<close>

datatype ('db, 'd, 'js) todo_store = PBTodos "'db pb_store" | CRDTTodos "('db, 'd, 'js) crdt_store"

text \<open>What the libraries provide to the construction: the database, Loro, making a collection, the clock.\<close>

record ('db, 'd) store_env =
  se_app :: "'db core_app"
  se_loro :: "'d loro_api"
  se_make :: "'db \<Rightarrow> 'db \<times> bool"
  se_now :: int
  se_rank :: "string \<Rightarrow> 64 word \<Rightarrow> string \<Rightarrow> nat"

definition unknown_strategy :: "string \<Rightarrow> string" where
  "unknown_strategy s = ''router: unknown ENTITY_STORE strategy: '' @ s"

text \<open>The database is part of the result: creating the collection may have changed it.\<close>

definition build_todo_store ::
  "('db, 'd) store_env \<Rightarrow> 'js \<Rightarrow> string \<Rightarrow> 'db core_app \<times> (string + ('db, 'd, 'js) todo_store)" where
  "build_todo_store env js strategy =
     (if strategy = '''' \<or> strategy = ''pb'' then (se_app env, Inr (PBTodos (pb_new (se_app env) ''todos'')))
      else if strategy = ''crdt'' then
        (case ensure_schema (se_make env) (crdt_new (se_app env) (se_loro env) js (se_now env) (se_rank env)) of
           (s, False) \<Rightarrow> (cs_app s, Inl ''ensure schema'')
         | (s, True) \<Rightarrow> (cs_app s, Inr (CRDTTodos s)))
      else (se_app env, Inl (unknown_strategy strategy)))"

definition todo_store_for :: "('db, 'd) store_env \<Rightarrow> 'js \<Rightarrow> string \<Rightarrow> ('db, 'd, 'js) todo_store" where
  "todo_store_for env js strategy = (case build_todo_store env js strategy of
     (app, Inl _) \<Rightarrow> PBTodos (pb_new app ''todos'')
   | (app, Inr s) \<Rightarrow> s)"

subsection \<open>A process\<close>

text \<open>The calls of one JetStream context, by the component that makes them, and of its subscriptions.\<close>

record 'js js_apis =
  ja_todo :: "'js todo_stream_api"
  ja_crud :: "'js nats_conn"
  ja_crdt :: "'js jetstream"
  ja_subscribe :: "string \<Rightarrow> 'js \<Rightarrow> 'js \<times> bool"

text \<open>
  What is wired: the broadcaster, the CRUD publisher and whether a consumer runs, the store (\<open>None\<close> until
  the serve hook has run), whether the onboarding routes are there, whether the whiteboards have a
  connection and a worker, the simulated model, and the JetStream and the handler the hook bound by
  \<open>router.Init\<close> was given; without a handler it makes one, which falls back to the PocketBase store.
\<close>

record ('db, 'd, 'js) process =
  pr_js :: 'js
  pr_nats :: nats_globals
  pr_hook_js :: "'js js_apis option"
  pr_todo_handler :: bool
  pr_simulated :: bool
  pr_cookie_secure :: bool
  pr_broadcaster :: "broadcaster option"
  pr_crud :: "'js crud_publisher option"
  pr_consumer :: bool
  pr_store :: "('db, 'd, 'js) todo_store option"
  pr_onboarding :: bool
  pr_board_conn :: bool
  pr_sync_worker :: bool

definition new_process :: "'js \<Rightarrow> ('db, 'd, 'js) process" where
  "new_process js = \<lparr>pr_js = js, pr_nats = no_nats, pr_hook_js = None, pr_todo_handler = False, pr_simulated = False, pr_cookie_secure = False,
     pr_broadcaster = None, pr_crud = None, pr_consumer = False, pr_store = None, pr_onboarding = False,
     pr_board_conn = False, pr_sync_worker = False\<rparr>"

text \<open>\<open>ConcreteTodoStore\<close>: the CRDT store the handler has been given, nil with the other strategy.\<close>

definition concrete_todo_store :: "('db, 'd, 'js) process \<Rightarrow> ('db, 'd, 'js) crdt_store option" where
  "concrete_todo_store p = (case pr_store p of Some (CRDTTodos s) \<Rightarrow> Some s | _ \<Rightarrow> None)"

text \<open>The hook \<open>router.Init\<close> binds, run when the server starts to serve.\<close>

definition serve_hook :: "app_config \<Rightarrow> ('db, 'd) store_env \<Rightarrow> ('db, 'd, 'js) process \<Rightarrow> ('db, 'd, 'js) process" where
  "serve_hook cfg env p =
     (let conn = pr_hook_js p;
          (js1, b) = wire_broadcaster (map_option ja_todo conn) (pr_js p);
          (js2, pub) = (if cf_offline_sync cfg then new_crud_publisher (map_option ja_crud conn) js1 else (js1, None))
      in p\<lparr>pr_js := js2,
           pr_cookie_secure := (\<not> cf_dev cfg \<and> cf_host cfg \<noteq> ''127.0.0.1''),
           pr_broadcaster := Some b, pr_crud := pub,
           pr_store := Some (if pr_todo_handler p then todo_store_for env js2 (cf_entity_store cfg)
             else PBTodos (pb_new (se_app env) ''todos'')),
           pr_onboarding := (cf_dag_enabled cfg \<and> pr_todo_handler p),
           pr_board_conn := ng_conn (pr_nats p), pr_sync_worker := ng_conn (pr_nats p),
           pr_consumer := (cf_offline_sync cfg \<and> conn \<noteq> None)\<rparr>)"

text \<open>\<open>server.Run\<close>, with the errors of its first three steps as they come.\<close>

record boot_errors =
  be_pb :: "string option"
  be_seed :: "string option"
  be_queue :: "string option"

definition server_run ::
  "boot_errors \<Rightarrow> string option \<Rightarrow> 'js js_apis option \<Rightarrow> ('db, 'd, 'js) process \<Rightarrow> string + ('db, 'd, 'js) process" where
  "server_run be simulate conn p = (case be_pb be of
     Some e \<Rightarrow> Inl (''PocketBase init: '' @ e)
   | None \<Rightarrow> (case be_seed be of
       Some e \<Rightarrow> Inl (''seed: '' @ e)
     | None \<Rightarrow> (case be_queue be of
         Some e \<Rightarrow> Inl (''queue init: '' @ e)
       | None \<Rightarrow> Inr (p\<lparr>pr_simulated := (simulate \<noteq> Some ''false''), pr_hook_js := conn, pr_todo_handler := True\<rparr>))))"

text \<open>\<open>pb.Start\<close> runs the hooks when its command is \<open>serve\<close>.\<close>

definition pb_start ::
  "bool \<Rightarrow> app_config \<Rightarrow> ('db, 'd) store_env \<Rightarrow> ('db, 'd, 'js) process \<Rightarrow> ('db, 'd, 'js) process" where
  "pb_start serves cfg env p = (if serves then serve_hook cfg env p else p)"

subsection \<open>Wiring the CRDT store\<close>

text \<open>\<open>WireCRDTStoreTransport\<close>: JetStream is the package's global, \<open>uuid\<close> the fresh publisher id.\<close>

definition wire_crdt_transport ::
  "bool \<Rightarrow> 'js js_apis \<Rightarrow> string \<Rightarrow> ('db, 'd, 'js) crdt_store \<Rightarrow> ('db, 'd, 'js) crdt_store" where
  "wire_crdt_transport js_up apis uuid s =
     (if \<not> js_up then s
      else let t = new_transport uuid \<lparr>tr_js = Some (ja_crdt apis), tr_publisher = uuid\<rparr> in
        case ensure_stream t (cs_js s) of
          (js1, False) \<Rightarrow> s\<lparr>cs_js := js1\<rparr>
        | (js1, True) \<Rightarrow>
            (case subscribe_subject t ''>'' of
               None \<Rightarrow> (set_transport (Some t) s)\<lparr>cs_js := js1\<rparr>
             | Some subj \<Rightarrow> (set_transport (Some t) s)\<lparr>cs_js := fst (ja_subscribe apis subj js1)\<rparr>))"

definition wire_crdt_publisher :: "('db, 'd, 'js) crdt_store \<Rightarrow> ('db, 'd, 'js) crdt_store" where
  "wire_crdt_publisher s = set_publisher (Some ''sse-hub'') s"

text \<open>\<open>PublishDocEvent\<close> of the hub publisher, with its counter; \<open>order\<close> is an iteration order of the clients.\<close>

definition doc_event :: "string \<Rightarrow> 64 word \<Rightarrow> bytes" where
  "doc_event owner v = marshal (JObj [(''type'', JStr ''doc-version-bumped''), (''version'', JInt (uint v)),
     (''owner'', JStr owner)])"

definition publish_doc_event ::
  "string list \<Rightarrow> string \<Rightarrow> 64 word \<Rightarrow> bytes hub option \<times> 64 word \<Rightarrow> bytes hub option \<times> 64 word" where
  "publish_doc_event order owner v st = (case st of
     (None, n) \<Rightarrow> (None, n + 1)
   | (Some h, n) \<Rightarrow> (Some (broadcast_to_user order (doc_event owner v) owner '''' h), n + 1))"

subsection \<open>The commands\<close>

text \<open>\<open>startNATS\<close> of the web command: the globals afterwards, and whether it returns a JetStream.\<close>

definition start_nats :: "app_config \<Rightarrow> nats_outcomes \<Rightarrow> nats_globals \<Rightarrow> nats_globals \<times> bool" where
  "start_nats cfg r g =
     (if \<not> cf_nats_enabled cfg then (g, False)
      else if cf_dag_enabled cfg then
        (case connect_existing r g of (g', ok) \<Rightarrow> (g', ok \<and> ng_js g'))
      else (case start_embedded r g of (g', ok) \<Rightarrow> (g', ok \<and> ng_js g')))"

definition wire_concrete ::
  "'js js_apis \<Rightarrow> string \<Rightarrow> ('db, 'd, 'js) process \<Rightarrow> ('db, 'd, 'js) process" where
  "wire_concrete apis uuid p = (case concrete_todo_store p of
     None \<Rightarrow> p
   | Some s \<Rightarrow>
       (let s' = wire_crdt_publisher (wire_crdt_transport (ng_js (pr_nats p)) apis uuid (s\<lparr>cs_js := pr_js p\<rparr>))
        in p\<lparr>pr_js := cs_js s', pr_store := Some (CRDTTodos s')\<rparr>))"

definition web_run ::
  "app_config \<Rightarrow> boot_errors \<Rightarrow> string option \<Rightarrow> nats_outcomes \<Rightarrow> 'js js_apis \<Rightarrow> string \<Rightarrow> ('db, 'd) store_env \<Rightarrow> bool \<Rightarrow>
   'js \<Rightarrow> string + ('db, 'd, 'js) process" where
  "web_run cfg be simulate r apis uuid env serves js = (case server_run be simulate None (new_process js) of
     Inl e \<Rightarrow> Inl e
   | Inr p \<Rightarrow>
       (let p1 = p\<lparr>pr_nats := fst (start_nats cfg r (pr_nats p))\<rparr>
        in Inr (pb_start serves cfg env (wire_concrete apis uuid p1))))"

text \<open>The desktop command starts NATS first and passes its JetStream on.\<close>

definition desktop_nats :: "app_config \<Rightarrow> bool \<Rightarrow> nats_outcomes \<Rightarrow> nats_globals \<Rightarrow> nats_globals \<times> bool" where
  "desktop_nats cfg url_ok r g =
     (if cf_nats_leaf_url cfg \<noteq> '''' then
        (case start_leaf_node url_ok r g of (g', ok) \<Rightarrow> (g', ok \<and> ng_js g'))
      else if cf_nats_enabled cfg then
        (case start_embedded r g of (g', ok) \<Rightarrow> (g', ok \<and> ng_js g'))
      else (g, False))"

definition desktop_run ::
  "app_config \<Rightarrow> boot_errors \<Rightarrow> string option \<Rightarrow> bool \<Rightarrow> nats_outcomes \<Rightarrow> 'js js_apis \<Rightarrow> ('db, 'd) store_env \<Rightarrow> bool \<Rightarrow>
   'js \<Rightarrow> string + ('db, 'd, 'js) process" where
  "desktop_run cfg be simulate url_ok r apis env serves js =
     (case desktop_nats cfg url_ok r no_nats of (g, up) \<Rightarrow>
        (case server_run be simulate (if up then Some apis else None) ((new_process js)\<lparr>pr_nats := g\<rparr>) of
           Inl e \<Rightarrow> Inl e
         | Inr p \<Rightarrow> Inr (pb_start serves cfg env p)))"

subsection \<open>The store behind the handlers\<close>

text \<open>The interface value the handlers hold: either strategy's operations.\<close>

definition via_store ::
  "('db pb_store \<Rightarrow> 'db pb_store \<times> 'a) \<Rightarrow> (('db, 'd, 'js) crdt_store \<Rightarrow> ('db, 'd, 'js) crdt_store \<times> 'a) \<Rightarrow>
   ('db, 'd, 'js) todo_store \<Rightarrow> ('db, 'd, 'js) todo_store \<times> 'a" where
  "via_store f g s = (case s of
     PBTodos p \<Rightarrow> (case f p of (p', r) \<Rightarrow> (PBTodos p', r))
   | CRDTTodos c \<Rightarrow> (case g c of (c', r) \<Rightarrow> (CRDTTodos c', r)))"

definition todo_ops :: "('db, 'd, 'js) todo_store store_ops" where
  "todo_ops = \<lparr>so_create = (\<lambda>e u k. via_store (pb_create e u k) (crdt_create e u k)),
     so_get = (\<lambda>u i. via_store (pb_get u i) (crdt_get u i)),
     so_list = (\<lambda>u f. via_store (pb_list u f) (crdt_list u f)),
     so_update = (\<lambda>u i p. via_store (pb_update u i p) (crdt_update u i p)),
     so_delete = (\<lambda>u i. via_store (pb_delete u i) (crdt_delete u i)),
     so_clear = (\<lambda>u. via_store (pb_clear_completed u) (crdt_clear_completed u)),
     so_count = (\<lambda>u. via_store (pb_count u) (crdt_count u))\<rparr>"

text \<open>A store that is not wired to anything, with JetStream in state \<open>js\<close>.\<close>

definition unwired :: "'js \<Rightarrow> ('db, 'd, 'js) crdt_store \<Rightarrow> bool" where
  "unwired js s \<longleftrightarrow> cs_transport s = None \<and> cs_publisher s = None \<and> cs_published s = [] \<and> cs_js s = js"

definition store_alone :: "'js \<Rightarrow> ('db, 'd, 'js) todo_store \<Rightarrow> bool" where
  "store_alone js s = (case s of PBTodos _ \<Rightarrow> True | CRDTTodos c \<Rightarrow> unwired js c)"

lemma unwired_set [simp]:
  "unwired js (set_doc u d s) = unwired js s" "unwired js (set_cdb db s) = unwired js s"
  by (simp_all add: unwired_def set_doc_def set_cdb_def)

lemma unwired_bump: "unwired js s \<Longrightarrow> unwired js (bump_version u s)"
  by (simp add: unwired_def bump_version_def Let_def)

lemma unwired_publish [simp]: "unwired js s \<Longrightarrow> publish_op_from_doc u i d s = s"
  by (simp add: unwired_def publish_op_from_doc_def)

lemma unwired_doc: "unwired js s \<Longrightarrow> doc u s = (s1, r) \<Longrightarrow> unwired js s1"
  using doc_env [of u s s1 r] by (simp add: unwired_def)

lemma unwired_persist: "unwired js s \<Longrightarrow> persist_records u d s = (s1, r) \<Longrightarrow> unwired js s1"
  using persist_ticks [of u d s s1 r] unwired_bump [of js s u] by (simp add: unwired_def)

text \<open>A property of the state a branching call ends in, branch by branch.\<close>

lemma fst_cases:
  "(\<And>a b. m = (a, b) \<Longrightarrow> P (fst (f a b))) \<Longrightarrow> P (fst (case m of (a, b) \<Rightarrow> f a b))"
  "(\<And>a. x = Inl a \<Longrightarrow> P (fst (g a))) \<Longrightarrow> (\<And>b. x = Inr b \<Longrightarrow> P (fst (h b))) \<Longrightarrow> P (fst (case_sum g h x))"
  "(y = None \<Longrightarrow> P (fst n)) \<Longrightarrow> (\<And>v. y = Some v \<Longrightarrow> P (fst (k v))) \<Longrightarrow> P (fst (case_option n k y))"
  "(c \<Longrightarrow> P (fst p)) \<Longrightarrow> (\<not> c \<Longrightarrow> P (fst q)) \<Longrightarrow> P (fst (if c then p else q))"
  "(d \<Longrightarrow> P (fst p)) \<Longrightarrow> (\<not> d \<Longrightarrow> P (fst q)) \<Longrightarrow> P (fst (case_bool p q d))"
  "P s \<Longrightarrow> P (fst (s, r))"
  by (auto split: prod.splits sum.splits option.splits bool.splits)

lemma unwired_ops:
  assumes "unwired js s"
  shows "unwired js (fst (crdt_create e u k s))" "unwired js (fst (crdt_get u i s))" "unwired js (fst (crdt_list u f s))"
    "unwired js (fst (crdt_update u i p s))" "unwired js (fst (crdt_delete u i s))"
    "unwired js (fst (crdt_clear_completed u s))" "unwired js (fst (crdt_count u s))"
proof -
  have per: "unwired js s2" if "doc u s = (s1, r)" and "persist_records u d (set_doc u d s1) = (s2, r')" for u d s1 s2 r r'
    by (rule unwired_persist [OF _ that(2)]) (simp add: unwired_doc [OF assms that(1)])
  have pub: "unwired js (publish_op_from_doc u i d s2)"
    if "doc u s = (s1, r)" and "persist_records u d (set_doc u d s1) = (s2, r')" for u d s1 s2 r r' i
    using per [OF that] by simp
  note D = unwired_doc [OF assms] per pub
  note unfold = crdt_create_def crdt_get_def crdt_list_def crdt_count_def crdt_update_def crdt_delete_def
    crdt_clear_completed_def Let_def
  show "unwired js (fst (crdt_create e u k s))" "unwired js (fst (crdt_get u i s))" "unwired js (fst (crdt_list u f s))"
    "unwired js (fst (crdt_update u i p s))" "unwired js (fst (crdt_delete u i s))"
    "unwired js (fst (crdt_clear_completed u s))" "unwired js (fst (crdt_count u s))"
    unfolding unfold by (intro fst_cases [where P = "unwired js"]; (unfold unwired_set)?; blast intro: assms D)+
qed

text \<open>What every operation of a store keeps, every request keeps; without a CRUD publisher it leaves
  JetStream alone.\<close>

definition ops_keep :: "('s \<Rightarrow> bool) \<Rightarrow> 's store_ops \<Rightarrow> bool" where
  "ops_keep P so \<longleftrightarrow> (\<forall>s. P s \<longrightarrow>
     (\<forall>e u k. P (fst (so_create so e u k s))) \<and> (\<forall>u i. P (fst (so_get so u i s))) \<and>
     (\<forall>u f. P (fst (so_list so u f s))) \<and> (\<forall>u i p. P (fst (so_update so u i p s))) \<and>
     (\<forall>u i. P (fst (so_delete so u i s))) \<and> (\<forall>u. P (fst (so_clear so u s))) \<and> (\<forall>u. P (fst (so_count so u s))))"

lemma ops_keepD:
  assumes "ops_keep P so" and "P s"
  shows "so_create so e u k s = (s', r1) \<Longrightarrow> P s'" "so_get so u i s = (s', r2) \<Longrightarrow> P s'"
    "so_list so u f s = (s', r3) \<Longrightarrow> P s'" "so_update so u i p s = (s', r4) \<Longrightarrow> P s'"
    "so_delete so u i s = (s', r5) \<Longrightarrow> P s'" "so_clear so u s = (s', r6) \<Longrightarrow> P s'"
    "so_count so u s = (s', r7) \<Longrightarrow> P s'"
  using assms unfolding ops_keep_def by (metis fst_conv)+

lemma via_store_fst:
  "store_alone js s \<Longrightarrow> (\<And>c. unwired js c \<Longrightarrow> unwired js (fst (g c))) \<Longrightarrow> store_alone js (fst (via_store f g s))"
  by (auto simp: store_alone_def via_store_def split: todo_store.splits prod.splits) (metis fst_conv)

lemma todo_ops_keep: "ops_keep (store_alone js) todo_ops"
  by (auto simp: ops_keep_def todo_ops_def intro!: via_store_fst unwired_ops)

lemma finish_quiet:
  assumes "ops_keep P (th_store h)" and "th_crud h = None" and "P (tw_store w)"
  shows "P (tw_store (fst (finish h k e (publish_crud_op h opn u d) evs w)))"
    "tw_js (fst (finish h k e (publish_crud_op h opn u d) evs w)) = tw_js w"
    "P (tw_store (fst (finish h k e (\<lambda>js. js) evs w)))" "tw_js (fst (finish h k e (\<lambda>js. js) evs w)) = tw_js w"
  using assms ops_keepD(3) [OF assms(1,3)]
  by (auto simp: finish_def list_todos_def publish_crud_op_def crud_publish_def split: prod.splits sum.splits)

lemma serve_quiet:
  assumes "ops_keep P (th_store h)" and "th_crud h = None" and "P (tw_store w)"
  shows "P (tw_store (fst (serve h call k rq w))) \<and> tw_js (fst (serve h call k rq w)) = tw_js w"
proof -
  note K = ops_keepD [OF assms(1), rotated] and F = finish_quiet [OF assms(1,2)]
  have quiet: "publish_crud_op h opn u d js = js" for opn u d js
    using assms(2) by (simp add: publish_crud_op_def crud_publish_def)
  show ?thesis
  proof (cases call)
    case ApiList
    then show ?thesis using assms(3)
      by (auto simp: serve_def handle_list_def list_todos_def count_owned_todos_def Let_def split: prod.splits sum.splits dest: K)
  next
    case ApiFragment
    then show ?thesis using assms(3)
      by (auto simp: serve_def handle_list_fragment_def list_todos_def count_owned_todos_def Let_def split: prod.splits sum.splits dest: K)
  next
    case (ApiCreate now uuid)
    then show ?thesis using assms(3)
      by (auto simp: serve_def handle_create_def save_todo_def quiet Let_def split: prod.splits sum.splits dest: K simp: F)
  qed (use assms(3) in \<open>auto simp: serve_def handle_toggle_def handle_confirm_delete_def handle_delete_def
      handle_clear_completed_def Let_def split: prod.splits sum.splits option.splits dest: K simp: F\<close>)
qed

lemma serve_all_quiet:
  assumes "ops_keep P (th_store h)" and "th_crud h = None" and "P (tw_store w)"
  shows "P (tw_store (serve_all h reqs w)) \<and> tw_js (serve_all h reqs w) = tw_js w"
  using assms(3)
proof (induction reqs arbitrary: w)
  case (Cons x xs)
  obtain call k rq where x: "x = (call, k, rq)" using prod_cases3 by blast
  show ?case
    using Cons.IH [of "fst (serve h call k rq w)"] serve_quiet [OF assms(1,2) Cons.prems, of call k rq] x
    by (simp add: serve_all_def)
qed (simp add: serve_all_def)

subsection \<open>What is wired in the end\<close>

lemma fresh_store_alone: "store_alone js (todo_store_for env js strategy)"
  by (auto simp: todo_store_for_def build_todo_store_def store_alone_def unwired_def ensure_schema_def crdt_new_def
      set_cdb_def split: prod.splits bool.splits if_splits)

text \<open>A request as the process serves it: the handlers' store is the one that was wired.\<close>

definition process_world :: "('db, 'd, 'js) process \<Rightarrow> (('db, 'd, 'js) todo_store, 'js) todo_world" where
  "process_world p = \<lparr>tw_store = the (pr_store p), tw_js = pr_js p, tw_resumed = []\<rparr>"

definition process_serve ::
  "('db, 'd, 'js) process \<Rightarrow> (('db, 'd, 'js) todo_store, 'js) todo_handler \<Rightarrow> (api_call \<times> nat \<times> request) list \<Rightarrow>
   (('db, 'd, 'js) todo_store, 'js) todo_world" where
  "process_serve p h reqs = serve_all (h\<lparr>th_store := todo_ops, th_crud := pr_crud p\<rparr>) reqs (process_world p)"

lemma process_serve_alone:
  assumes "pr_crud p = None" and "store_alone js (the (pr_store p))"
  shows "store_alone js (tw_store (process_serve p h reqs))" "tw_js (process_serve p h reqs) = pr_js p"
proof -
  let ?h = "h\<lparr>th_store := todo_ops, th_crud := pr_crud p\<rparr>"
  have "ops_keep (store_alone js) (th_store ?h)" using todo_ops_keep by simp
  from serve_all_quiet [OF this, of "process_world p" reqs] assms
  show "store_alone js (tw_store (process_serve p h reqs))" "tw_js (process_serve p h reqs) = pr_js p"
    by (simp_all add: process_serve_def process_world_def)
qed

text \<open>The simulated model is there unless it is switched off, whatever happens to NATS.\<close>

lemma wire_concrete_before_serving: "pr_store p = None \<Longrightarrow> wire_concrete apis uuid p = p"
  by (simp add: wire_concrete_def concrete_todo_store_def)

definition no_boot_errors :: boot_errors where
  "no_boot_errors = \<lparr>be_pb = None, be_seed = None, be_queue = None\<rparr>"

lemma web_run_process:
  "web_run cfg no_boot_errors simulate r apis uuid env True js =
   Inr (serve_hook cfg env ((new_process js)\<lparr>pr_simulated := simulate \<noteq> Some ''false'', pr_hook_js := None,
     pr_todo_handler := True, pr_nats := fst (start_nats cfg r no_nats)\<rparr>))"
  by (simp add: web_run_def server_run_def no_boot_errors_def Let_def pb_start_def wire_concrete_before_serving
      new_process_def)

text \<open>C38: The web process does not replicate todos, whatever its configuration is and however NATS starts: it
  ends up with the in-memory broadcaster, without a CRUD publisher and a consumer, and with a store that
  has no transport and no publisher, so no sequence of requests of whatever kind changes JetStream or
  tells the hub of a new document version.  Only the whiteboards are given the connection.\<close>
theorem web_process_never_replicates:
  "\<exists>p s. web_run cfg no_boot_errors simulate r apis uuid env True js = Inr p \<and>
     pr_broadcaster p = Some InMemory \<and> pr_crud p = None \<and> \<not> pr_consumer p \<and> pr_store p = Some s \<and>
     store_alone js (tw_store (process_serve p h reqs)) \<and> tw_js (process_serve p h reqs) = js \<and>
     pr_board_conn p = ng_conn (fst (start_nats cfg r no_nats))"
proof -
  define p where "p = serve_hook cfg env ((new_process js)\<lparr>pr_simulated := simulate \<noteq> Some ''false'',
    pr_hook_js := None, pr_todo_handler := True, pr_nats := fst (start_nats cfg r no_nats)\<rparr>)"
  have wired: "pr_crud p = None" "pr_js p = js" "pr_broadcaster p = Some InMemory" "\<not> pr_consumer p"
    "pr_store p = Some (todo_store_for env js (cf_entity_store cfg))"
    "pr_board_conn p = ng_conn (fst (start_nats cfg r no_nats))"
    by (simp_all add: p_def serve_hook_def new_process_def wire_broadcaster_def new_todo_broadcaster_def
        subscribe_any_def new_crud_publisher_def)
  have "store_alone js (the (pr_store p))" using wired(5) fresh_store_alone by simp
  note served = process_serve_alone [OF wired(1) this, of h reqs]
  have "web_run cfg no_boot_errors simulate r apis uuid env True js = Inr p"
    unfolding p_def by (rule web_run_process)
  then show ?thesis using wired served by (intro exI [of _ p] exI [of _ "todo_store_for env js (cf_entity_store cfg)"]) simp
qed

text \<open>The desktop passes its JetStream on: with a stream that can be made it publishes its todo operations and
  events, and with offline sync it consumes; but its CRDT store is as alone as that of the web process.\<close>

lemma desktop_wires_jetstream:
  assumes "desktop_nats cfg url_ok r no_nats = (g, True)" and "cf_offline_sync cfg"
    and "\<And>n ss js. snd (ts_add (ja_todo apis) n ss js) = None"
    and "\<And>n ss js. snd (nc_add_stream (ja_crud apis) n ss js) = None"
  shows "\<exists>p jb. desktop_run cfg no_boot_errors simulate url_ok r apis env True js = Inr p \<and>
    pr_broadcaster p = Some (JetStream jb) \<and>
    pr_crud p = Some \<lparr>pb_conn = ja_crud apis, pb_done = False\<rparr> \<and> pr_consumer p \<and>
    (\<exists>s. pr_store p = Some s \<and> store_alone (pr_js p) s)"
proof -
  let ?p0 = "(new_process js)\<lparr>pr_nats := g, pr_simulated := simulate \<noteq> Some ''false'', pr_hook_js := Some apis,
    pr_todo_handler := True\<rparr>"
  obtain js1 b where w: "wire_broadcaster (Some (ja_todo apis)) js = (js1, b)" by fastforce
  have "\<exists>jb. b = JetStream jb"
    using w assms(3) [of todo_stream_name "[todo_subject]" js]
    by (auto simp: wire_broadcaster_def new_todo_broadcaster_def new_js_broadcaster_def subscribe_any_def
        split: prod.splits)
  moreover have "\<exists>js2. new_crud_publisher (Some (ja_crud apis)) js1 =
      (js2, Some \<lparr>pb_conn = ja_crud apis, pb_done = False\<rparr>)"
    using assms(4) [of crud_stream_name "[crud_subject_prefix @ ''>'']" js1]
    by (auto simp: new_crud_publisher_def split: prod.splits)
  moreover have "desktop_run cfg no_boot_errors simulate url_ok r apis env True js = Inr (serve_hook cfg env ?p0)"
    using assms(1) by (simp add: desktop_run_def server_run_def no_boot_errors_def pb_start_def new_process_def)
  ultimately show ?thesis using w assms(2) fresh_store_alone by (auto simp: serve_hook_def new_process_def)
qed

end
