(* ===== verification/Commands.thy ===== *)
theory Commands
  imports Wiring
begin

text \<open>
  The smaller parts of the commands and of the router: the health check and the embedded DagNats engine's
  tasks of \<open>cmd/web\<close>, the cache header and the DagNats console's proxy of \<open>router\<close>.
\<close>

subsection \<open>The web command\<close>

definition short_commit :: "string \<Rightarrow> string" where
  "short_commit hash = (if 7 \<le> length hash then take 7 hash else hash)"

definition health_url :: "app_config \<Rightarrow> string" where
  "health_url cfg = ''http://127.0.0.1:'' @ int_str (cf_port cfg) @ ''/health''"

text \<open>\<open>get\<close> is the HTTP request: an error, or the status of the answer.  A port in range makes a valid URL.\<close>

definition run_healthcheck :: "(string \<Rightarrow> go_error + nat) \<Rightarrow> app_config \<Rightarrow> go_error option" where
  "run_healthcheck get cfg = (case get (health_url cfg) of
     Inl e \<Rightarrow> Some (Wrapped (''GET '' @ health_url cfg) e)
   | Inr st \<Rightarrow> if st \<noteq> 200 then Some (Plain (''GET '' @ health_url cfg @ '': status '' @ nat_str st)) else None)"

definition serve_args :: "app_config \<Rightarrow> string list \<Rightarrow> string list" where
  "serve_args cfg os_args =
     (if tl os_args = [] then [''serve'', ''--http'', cf_host cfg @ '':'' @ int_str (cf_port cfg)] else tl os_args)"

text \<open>\<open>log_fatal\<close> is the message \<open>main\<close> dies with, for the outcomes of the health check and of \<open>run\<close>.\<close>

definition web_main :: "string list \<Rightarrow> go_error option \<Rightarrow> go_error option \<Rightarrow> (string \<times> go_error) option" where
  "web_main os_args health run_err =
     (if 1 < length os_args \<and> os_args ! 1 = ''health'' then map_option (Pair ''healthcheck failed: '') health
      else map_option (Pair ''startup failed: '') run_err)"

subsection \<open>The tasks of the onboarding workflow\<close>

datatype task_result = TaskComplete bytes | TaskFail string

definition task_greet :: task_result where
  "task_greet = TaskComplete ''\"welcomed\"''"

text \<open>Waiting for the signal, which fails after 50 minutes.\<close>

definition task_await_first_todo :: "string option \<Rightarrow> task_result" where
  "task_await_first_todo wait_err = (case wait_err of
     Some e \<Rightarrow> TaskFail e | None \<Rightarrow> TaskComplete ''\"resumed\"'')"

definition create_todo_for_onboarding ::
  "('s, 'js) todo_handler \<Rightarrow> string \<Rightarrow> string \<Rightarrow> 's \<Rightarrow> 's \<times> store_err option" where
  "create_todo_for_onboarding h title owner s =
     (case save_todo h \<lparr>td_id = '''', td_title = title, td_completed = False, td_created = 0, td_updated = 0\<rparr> owner '''' s of
        (s', Inl e) \<Rightarrow> (s', Some e) | (s', Inr _) \<Rightarrow> (s', None))"

text \<open>\<open>md\<close> is the task's metadata, nil or a map.\<close>

definition task_create_todo ::
  "('s, 'js) todo_handler \<Rightarrow> (string \<rightharpoonup> string) option \<Rightarrow> 's \<Rightarrow> 's \<times> task_result" where
  "task_create_todo h md s =
     (let txt0 = (case md of None \<Rightarrow> '''' | Some m \<Rightarrow> zero_get '''' m ''text'');
          txt1 = (if txt0 = '''' then ''Onboarding task'' else txt0)
      in case create_todo_for_onboarding h txt1 '''' s of
           (s', Some e) \<Rightarrow> (s', TaskFail (case e of ErrOther m \<Rightarrow> m | _ \<Rightarrow> ''''))
         | (s', None) \<Rightarrow> (s', TaskComplete ''\"created\"''))"

definition task_finalize :: task_result where
  "task_finalize = TaskComplete ''\"done\"''"

text \<open>The registration of the workflow, tried until the engine answers, at most \<open>n\<close> times.\<close>

fun register_retry :: "nat \<Rightarrow> ('w \<Rightarrow> 'w \<times> go_error option) \<Rightarrow> 'w \<Rightarrow> 'w \<times> bool" where
  "register_retry 0 reg w = (w, False)"
| "register_retry (Suc n) reg w = (case reg w of
     (w', Some _) \<Rightarrow> register_retry n reg w'
   | (w', None) \<Rightarrow> (w', True))"

definition register_onboarding_workflow :: "'w http \<Rightarrow> string \<Rightarrow> 'w \<Rightarrow> 'w \<times> bool" where
  "register_onboarding_workflow http addr w =
     register_retry 30 (register_workflow http (new_dag_client (''http://'' @ addr)) (marshal onboarding_workflow)) w"

subsection \<open>The router's helpers\<close>

definition no_cache_html :: "string \<Rightarrow> bool" where
  "no_cache_html path \<longleftrightarrow> \<not> (has_prefix path ''/api/'' \<or> has_prefix path ''/static/'' \<or> path = ''/sw.js'' \<or> path = ''/health'')"

definition api_index :: jval where
  "api_index = JObj [
     (''health'', JStr ''/api/health''),
     (''message'', JStr ''REST API root. Sub-routes are mounted by PocketBase and the app handlers under /api''),
     (''realtime'', JStr ''/api/realtime''), (''see'', JStr ''https://pocketbase.io/docs/api/''),
     (''superuserDashboard'', JStr ''/_/''),
     (''uiPages'', JArr [JStr ''/'', JStr ''/todo'', JStr ''/whiteboard'', JStr ''/config''])]"

text \<open>The proxy: the address it forwards to, the path it asks for, and the redirects and links it rewrites.\<close>

definition proxy_upstream :: "string \<Rightarrow> string" where
  "proxy_upstream up = (if \<not> has_prefix up ''http://'' \<and> \<not> has_prefix up ''https://'' then ''http://'' @ up else up)"

definition proxy_path :: "string \<Rightarrow> string" where
  "proxy_path p = (let q = trim_prefix p ''/dagnats'' in if q = '''' then ''/'' else q)"

definition dag_nats_abs_prefixes :: "string list" where
  "dag_nats_abs_prefixes = [''/console'', ''/ui'', ''/v1'', ''/docs'', ''/openapi.json'', ''/hooks'', ''/metrics'',
     ''/health'', ''/ready'', ''/debug'']"

definition rewrite_location :: "string \<Rightarrow> string" where
  "rewrite_location loc =
     (if loc \<noteq> '''' \<and> list_ex (has_prefix loc) dag_nats_abs_prefixes then ''/dagnats'' @ loc else loc)"

text \<open>
  The pattern \<open>(["'(= ])(p1|...|pn)(/|$)\<close>.  The prefixes are part of it as they are, so the dot of
  \<open>/openapi.json\<close> stands for any character but a newline; the bodies it is applied to are taken to be ASCII
  there.  \<open>pat_prefix\<close> gives the rest of the text behind a prefix, \<open>match_path\<close> the first alternative that is
  followed by a slash or the end.
\<close>

fun pat_prefix :: "string \<Rightarrow> string \<Rightarrow> (string \<times> string) option" where
  "pat_prefix [] s = Some ([], s)"
| "pat_prefix (p # ps) [] = None"
| "pat_prefix (p # ps) (c # s) =
     (if c = p \<or> (p = CHR ''.'' \<and> c \<noteq> CHR 0x0A)
      then map_option (\<lambda>(m, r). (c # m, r)) (pat_prefix ps s) else None)"

fun match_path :: "string list \<Rightarrow> string \<Rightarrow> (string \<times> string \<times> string) option" where
  "match_path [] s = None"
| "match_path (p # ps) s = (case pat_prefix p s of
     Some (m, []) \<Rightarrow> Some (m, [], [])
   | Some (m, c # r) \<Rightarrow> if c = CHR ''/'' then Some (m, [c], r) else match_path ps s
   | None \<Rightarrow> match_path ps s)"

definition opens_path :: "char \<Rightarrow> bool" where
  "opens_path c \<longleftrightarrow> c \<in> {CHR 0x22, CHR 0x27, CHR ''('', CHR ''='', CHR '' ''}"

lemma pat_prefix_length: "pat_prefix p s = Some (m, r) \<Longrightarrow> length r \<le> length s"
  by (induction p s arbitrary: m r rule: pat_prefix.induct) (fastforce split: if_splits)+

lemma match_path_length: "match_path ps s = Some (m, t, r) \<Longrightarrow> length r \<le> length s"
  by (induction ps) (fastforce split: option.splits list.splits if_splits dest: pat_prefix_length)+

function rewrite_links :: "string \<Rightarrow> string" where
  "rewrite_links [] = []"
| "rewrite_links (c # s) = (if opens_path c then
     (case match_path dag_nats_abs_prefixes s of
        Some (m, t, r) \<Rightarrow> c # ''/dagnats'' @ m @ t @ rewrite_links r
      | None \<Rightarrow> c # rewrite_links s)
     else c # rewrite_links s)"
  by pat_completeness auto
termination by (relation "measure length") (auto dest: match_path_length)

definition rewritten_type :: "string \<Rightarrow> bool" where
  "rewritten_type ct \<longleftrightarrow> contains_str ct ''text/html'' \<or> contains_str ct ''javascript'' \<or> contains_str ct ''text/css''"

text \<open>Digits are produced from the right into a buffer; the negation wraps around at the least integer.\<close>

fun itoa_digits :: "nat \<Rightarrow> string \<Rightarrow> string" where
  "itoa_digits n acc = (if n = 0 then acc else itoa_digits (n div 10) (digit_char (n mod 10) # acc))"

definition neg64 :: "int \<Rightarrow> int" where
  "neg64 n = (if n = - (2 ^ 63) then n else - n)"

definition itoa :: "int \<Rightarrow> string" where
  "itoa n = (if n = 0 then ''0''
     else let m = (if n < 0 then neg64 n else n); ds = itoa_digits (nat m) []
          in if n < 0 then CHR ''-'' # ds else ds)"

text \<open>\<open>rewriteDagNatsPaths\<close> on location, content type and body, which may fail to be read (the outer
  \<open>None\<close>); a rewritten body comes with its new length.\<close>

definition rewrite_response :: "string \<Rightarrow> string \<Rightarrow> bool \<Rightarrow> bytes \<Rightarrow> string \<times> (bytes \<times> string option) option" where
  "rewrite_response loc ct read_ok body =
     (rewrite_location loc,
      if \<not> rewritten_type ct then Some (body, None)
      else if \<not> read_ok then None
      else Some (rewrite_links body, Some (itoa (int (length (rewrite_links body))))))"

subsection \<open>Lemmas\<close>

text \<open>What the proxy prefixes in a redirect it takes off again when the browser follows it.\<close>

lemma rewritten_location_followed:
  assumes "rewrite_location loc \<noteq> loc"
  shows "proxy_path (rewrite_location loc) = loc"
  using assms by (auto simp: rewrite_location_def proxy_path_def trim_prefix_def split: if_splits)

declare itoa_digits.simps [simp del]

lemma itoa_digits_eq: "0 < n \<Longrightarrow> itoa_digits n acc = nat_str n @ acc"
proof (induction n acc rule: itoa_digits.induct)
  case (1 n acc)
  show ?case
  proof (cases "n < 10")
    case True
    then show ?thesis using "1.prems" itoa_digits.simps [of 0]
      by (subst itoa_digits.simps, subst nat_str.simps) simp
  next
    case False
    then show ?thesis using "1" by (subst itoa_digits.simps, subst nat_str.simps) simp
  qed
qed

text \<open>The router's own \<open>itoa\<close> prints every 64-bit integer except the least, of which only the sign is left.\<close>

lemma itoa_eq:
  assumes "- (2 ^ 63) \<le> n" and "n < 2 ^ 63"
  shows "itoa n = (if n = - (2 ^ 63) then ''-'' else int_str n)"
proof (cases "n = 0")
  case True
  have "itoa 0 = int_str 0" by code_simp
  then show ?thesis using True by simp
next
  case False
  then show ?thesis
    using assms itoa_digits_eq [of "nat (- n)" "[]"] itoa_digits_eq [of "nat n" "[]"]
    by (auto simp: itoa_def neg64_def int_str_def Let_def itoa_digits.simps [of 0])
qed

text \<open>A registration that is refused is tried again until one of at most 30 attempts succeeds.\<close>

lemma register_retry_ok: "snd (register_retry n reg w) \<longleftrightarrow> (\<exists>k < n. snd (reg (((\<lambda>w. fst (reg w)) ^^ k) w)) = None)"
proof (induction n arbitrary: w)
  case (Suc n)
  obtain w' e where r: "reg w = (w', e)" by fastforce
  have split: "(\<exists>k < Suc n. P k) \<longleftrightarrow> P 0 \<or> (\<exists>k < n. P (Suc k))" for P :: "nat \<Rightarrow> bool"
    by (metis less_Suc_eq_0_disj)
  have "((\<lambda>w. fst (reg w)) ^^ Suc k) w = ((\<lambda>w. fst (reg w)) ^^ k) w'" for k using r by (simp add: funpow_Suc_right del: funpow.simps)
  then show ?case using Suc.IH [of w'] r by (cases e) (simp_all only: split register_retry.simps, auto)
qed simp

subsection \<open>Where the example todos go\<close>

text \<open>The tasks of a run that create todos, one after the other.\<close>

definition run_create_tasks :: "('s, 'js) todo_handler \<Rightarrow> (string \<rightharpoonup> string) option list \<Rightarrow> 's \<Rightarrow> 's" where
  "run_create_tasks h mds s = foldl (\<lambda>s md. fst (task_create_todo h md s)) s mds"

definition table_of :: "'db pb_store \<Rightarrow> bool" where
  "table_of s \<longleftrightarrow> app_laws (ps_app s) (ps_coll s) \<and> well_formed_rows (pb_rows s)"

lemma unowned_create:
  assumes "table_of s" and "pb_create e '''' '''' s = (s', r)"
  shows "table_of s' \<and> (\<exists>xs. pb_rows s' = pb_rows s @ xs \<and> length xs \<le> 1 \<and> (\<forall>x \<in> set xs. rw_owner x = ''''))"
proof (cases "ca_find_col (ps_app s) (ca_db (ps_app s)) (ps_coll s)")
  case ColFound
  let ?a = "ps_app s" and ?c = "ps_coll s"
  let ?r = "new_row\<lparr>rw_title := td_title e, rw_completed := td_completed e\<rparr>"
  have L: "app_laws ?a ?c" "set_laws ?a" "save_laws ?a ?c" and W: "well_formed_rows (ca_rows ?a (ca_db ?a) ?c)"
    using assms(1) by (simp_all add: table_of_def app_laws_def pb_rows_def)
  obtain db res where sv: "ca_save ?a (ca_db ?a) ?c ?r = (db, res)" by fastforce
  have s': "s' = set_db db s"
    using assms(2) ColFound L(2) sv by (auto simp: pb_create_def Let_def set_laws_def split: option.splits)
  show ?thesis
  proof (cases res)
    case None
    then have "ca_rows ?a db ?c = pb_rows s" using save_laws_fail [OF L(3) W] sv by (simp add: pb_rows_def)
    then show ?thesis using s' L(1) W by (simp add: table_of_def pb_rows_def)
  next
    case (Some x)
    with save_laws_new [OF L(3) W, of ?r db x] sv obtain st where
      st: "same_row st x" "x = ?r\<lparr>rw_id := rw_id x\<rparr>" "rw_id x \<noteq> ''''"
        "rw_id x \<notin> rw_id ` set (pb_rows s)" "ca_rows ?a db ?c = pb_rows s @ [st]"
      by (auto simp: new_row_def pb_rows_def)
    have "rw_owner x = ''''" by (subst st(2)) (simp add: new_row_def)
    then have "rw_owner st = ''''" "rw_id st = rw_id x" using same_rowD [OF st(1)] by simp_all
    then show ?thesis using s' L(1) W st(3-5) by (auto simp: table_of_def pb_rows_def well_formed_rows_def)
  qed
qed (use assms in \<open>auto simp: pb_create_def Let_def\<close>)

lemma row_view_unowned:
  "\<forall>x \<in> set xs. rw_owner x = '''' \<Longrightarrow> u \<noteq> '''' \<Longrightarrow> row_view (rs @ xs) u = row_view rs u"
proof (induction rs)
  case Nil
  then have "find (\<lambda>r. rw_id r = i \<and> rw_owner r = u) xs = None" for i by (auto simp: find_None_iff)
  then show ?case by (simp add: row_view_def fun_eq_iff)
qed (simp add: row_view_def fun_eq_iff)

lemma create_tasks_unowned:
  assumes "table_of s" and "th_store h = pb_ops"
  shows "table_of (run_create_tasks h mds s) \<and> (\<exists>xs. pb_rows (run_create_tasks h mds s) = pb_rows s @ xs \<and>
    length xs \<le> length mds \<and> (\<forall>x \<in> set xs. rw_owner x = ''''))"
  using assms(1)
proof (induction mds arbitrary: s)
  case (Cons md mds)
  let ?s = "fst (task_create_todo h md s)"
  have "\<exists>e. ?s = fst (pb_create e '''' '''' s)"
    by (auto simp: task_create_todo_def create_todo_for_onboarding_def save_todo_def assms(2) Let_def
        split: prod.splits sum.splits) (metis fst_conv)+
  then obtain e s' r where c: "pb_create e '''' '''' s = (s', r)" "?s = s'" by (metis prod.collapse)
  from unowned_create [OF Cons.prems c(1)] obtain xs where
    xs: "table_of ?s" "pb_rows ?s = pb_rows s @ xs" "length xs \<le> 1" "\<forall>x \<in> set xs. rw_owner x = ''''"
    using c(2) by blast
  from Cons.IH [OF xs(1)] xs(2-4) show ?case
    by (fastforce simp: run_create_tasks_def)
qed (simp add: run_create_tasks_def)

text \<open>The example todos of the onboarding reach nobody.  With the PocketBase strategy the tasks store them
  without an owner, so whatever number of tasks runs, no user's todos change; with the CRDT strategy every
  such task fails and nothing is stored.\<close>
lemma onboarding_todos_reach_nobody:
  assumes "pb_inv s" and "u \<noteq> ''''" and "th_store h = pb_ops" and "th_store h' = crdt_ops"
  shows "pb_view (run_create_tasks h mds s) u = pb_view s u \<and>
    (\<exists>xs. pb_rows (run_create_tasks h mds s) = pb_rows s @ xs \<and> (\<forall>x \<in> set xs. rw_owner x = '''')) \<and>
    task_create_todo h' md c = (c, TaskFail ''save todo'') \<and> run_create_tasks h' mds c = c"
proof -
  have "table_of s" using assms(1) by (simp add: table_of_def pb_inv_def)
  from create_tasks_unowned [OF this assms(3), of mds] obtain xs where
    xs: "pb_rows (run_create_tasks h mds s) = pb_rows s @ xs" "\<forall>x \<in> set xs. rw_owner x = ''''" by blast
  have fails: "task_create_todo h' md c = (c, TaskFail ''save todo'')" for md
    using assms(4) by (simp add: task_create_todo_def create_todo_for_onboarding_def save_todo_def crdt_ops_def
        crdt_create_def Let_def)
  then have "run_create_tasks h' mds c = c" by (induction mds) (simp_all add: run_create_tasks_def)
  then show ?thesis using xs fails row_view_unowned [OF xs(2) assms(2)] by (auto simp: pb_view_def)
qed

lemma onboarding_todos_reach_nobody_witness:
  "pb_view (run_create_tasks (demo_with pb_ops) [None, Some [''text'' \<mapsto> ''Try it'']] (mem_store sample_rows)) ''u1'' =
    pb_view (mem_store sample_rows) ''u1''"
  by (rule conjunct1, rule onboarding_todos_reach_nobody [OF sample_inv, where h' = "demo_with crdt_ops"]) simp_all

text \<open>The event of a new document version has no payload, so a todo stream that receives it dispatches
  nothing.\<close>

lemma doc_event_ignored: "dispatch_stream_message h e now k (doc_event owner v) s = (s, [], False)"
proof -
  have lower: "to_lower ''type'' = ''type''" "to_lower ''version'' = ''version''" "to_lower ''owner'' = ''owner''"
    "to_lower ''clientID'' = ''clientid''" "to_lower ''payload'' = ''payload''" by code_simp+
  let ?j = "JObj [(''type'', JStr ''doc-version-bumped''), (''version'', JInt (uint v)), (''owner'', JStr owner)]"
  have "unmarshal (doc_event owner v) = Some ?j" unfolding doc_event_def by (rule unmarshal_marshal) (use wf_JInt [of "uint v"] in simp)
  then have "decode_job (doc_event owner v) =
      Some \<lparr>jb_type = ''doc-version-bumped'', jb_client = '''', jb_payload = None\<rparr>"
    by (simp add: decode_job_def decode_job_json_def decode_field_def lower)
  then show ?thesis
    by (simp add: dispatch_stream_message_def stream_doc_version_bumped_def decode_payload_def job_type_toast_def
        job_type_suggest_result_def)
qed

end
