(* ===== verification/Seed.thy ===== *)
theory Seed
  imports PBStore
begin

text \<open>
  The collections and the demo user made when the server starts, \<open>db/seed.go\<close> and
  \<open>db/idempotency_seed.go\<close>, and the deduplication hook of \<open>db/idempotency_hook.go\<close>.  PocketBase's schema
  calls are the parameter \<open>schema_app\<close> on a database state, with what the code relies on in \<open>schema_laws\<close>.
\<close>

subsection \<open>Collections\<close>

datatype field_kind = TextField bool nat | BoolField | DateField | NumberField | RelationField string nat

record collection =
  co_name :: string
  co_id :: string
  co_fields :: "(string \<times> field_kind) list"
  co_indexes :: "string list"
  co_list :: "string option"
  co_view :: "string option"
  co_create :: "string option"
  co_delete :: "string option"

record account_rec =
  ac_email :: string
  ac_password :: string

text \<open>\<open>sc_index\<close> is \<open>AddIndex\<close> on a list of index statements: name, uniqueness, columns and condition.\<close>

record 'db schema_app =
  sc_find :: "'db \<Rightarrow> string \<Rightarrow> collection option"
  sc_save :: "'db \<Rightarrow> collection \<Rightarrow> 'db \<times> string option"
  sc_index :: "string \<Rightarrow> bool \<Rightarrow> string \<Rightarrow> string \<Rightarrow> string list \<Rightarrow> string list"
  sc_account :: "'db \<Rightarrow> string \<Rightarrow> string \<Rightarrow> account_rec option"
  sc_save_account :: "'db \<Rightarrow> string \<Rightarrow> account_rec \<Rightarrow> 'db \<times> string option"

definition new_collection :: "string \<Rightarrow> collection" where
  "new_collection n = \<lparr>co_name = n, co_id = '''', co_fields = [], co_indexes = [], co_list = None, co_view = None,
     co_create = None, co_delete = None\<rparr>"

definition has_field :: "string \<Rightarrow> collection \<Rightarrow> bool" where
  "has_field f col \<longleftrightarrow> f \<in> fst ` set (co_fields col)"

definition add_fields :: "(string \<times> field_kind) list \<Rightarrow> collection \<Rightarrow> collection" where
  "add_fields fs col = col\<lparr>co_fields := co_fields col @ fs\<rparr>"

subsection \<open>The todos\<close>

definition add_idem_key_field :: "collection \<Rightarrow> collection" where
  "add_idem_key_field col = (if has_field ''idem_key'' col then col
     else add_fields [(''idem_key'', TextField False 100)] col)"

definition idem_index :: string where "idem_index = ''idem_key_owner_idx''"

definition add_idem_key_unique_index :: "'db schema_app \<Rightarrow> collection \<Rightarrow> collection" where
  "add_idem_key_unique_index A col =
     (if list_ex (\<lambda>sql. contains_str sql (CHR 0x22 # idem_index @ [CHR 0x22])) (co_indexes col) then col
      else col\<lparr>co_indexes := sc_index A idem_index True ''idem_key,owner'' '''' (co_indexes col)\<rparr>)"

definition enable_todos_idempotency :: "'db schema_app \<Rightarrow> collection \<Rightarrow> collection" where
  "enable_todos_idempotency A col = add_idem_key_unique_index A (add_idem_key_field col)"

definition todo_view_rule :: string where
  "todo_view_rule = ''@request.auth.id != '' @ [CHR 0x27, CHR 0x27] @ '' && owner = @request.auth.id''"

definition fresh_todos :: collection where
  "fresh_todos = add_fields [(''title'', TextField True 0), (''completed'', BoolField), (''created'', DateField),
     (''updated'', DateField)] (new_collection ''todos'')"

text \<open>A rule that is nil or differs is replaced.\<close>

definition set_rules :: "string \<Rightarrow> collection \<Rightarrow> collection" where
  "set_rules r col =
     (let c1 = (if co_list col \<noteq> Some r then col\<lparr>co_list := Some r\<rparr> else col)
      in if co_view c1 \<noteq> Some r then c1\<lparr>co_view := Some r\<rparr> else c1)"

definition ensure_todos_collection :: "'db schema_app \<Rightarrow> bool \<Rightarrow> 'db \<Rightarrow> 'db \<times> string option" where
  "ensure_todos_collection A offline db =
     (let col = (case sc_find A db ''todos'' of Some c \<Rightarrow> c | None \<Rightarrow> fresh_todos)
      in case (if has_field ''owner'' col then Some col
               else map_option (\<lambda>u. add_fields [(''owner'', RelationField (co_id u) 1)] col) (sc_find A db ''users'')) of
           None \<Rightarrow> (db, Some ''seed: users collection not found, cannot add owner relation'')
         | Some c1 \<Rightarrow>
             (let c2 = add_idem_key_field c1;
                  c3 = (if offline then add_idem_key_unique_index A c2 else c2)
              in case sc_save A db (set_rules todo_view_rule c3) of
                   (db', Some e) \<Rightarrow> (db', Some (''seed: save todos collection: '' @ e))
                 | (db', None) \<Rightarrow> (db', None)))"

subsection \<open>The whiteboards\<close>

definition fresh_whiteboards :: collection where
  "fresh_whiteboards = add_fields [(''doc_id'', TextField True 0), (''snapshot'', TextField False 0),
     (''version'', NumberField), (''updated'', DateField)] (new_collection ''whiteboards'')"

definition whiteboard_view_rule :: string where
  "whiteboard_view_rule = ''@request.auth.id != '' @ [CHR 0x27, CHR 0x27]"

definition ensure_whiteboards_collection :: "'db schema_app \<Rightarrow> 'db \<Rightarrow> 'db \<times> string option" where
  "ensure_whiteboards_collection A db =
     (let col = (case sc_find A db ''whiteboards'' of Some c \<Rightarrow> c | None \<Rightarrow> fresh_whiteboards)
      in case sc_save A db (set_rules whiteboard_view_rule col) of
           (db', Some e) \<Rightarrow> (db', Some (''seed: save whiteboards collection: '' @ e))
         | (db', None) \<Rightarrow> (db', None))"

subsection \<open>The users\<close>

definition demo_user_email :: string where "demo_user_email = ''demo@demo.app''"
definition demo_user_password :: string where "demo_user_password = ''demo1234456''"

definition ensure_demo_user :: "'db schema_app \<Rightarrow> 'db \<Rightarrow> 'db \<times> string option" where
  "ensure_demo_user A db = (case sc_find A db ''users'' of
     None \<Rightarrow> (db, None)
   | Some col \<Rightarrow> (case sc_account A db (co_name col) demo_user_email of
       Some a \<Rightarrow> sc_save_account A db (co_name col) (a\<lparr>ac_password := demo_user_password\<rparr>)
     | None \<Rightarrow> sc_save_account A db (co_name col)
         \<lparr>ac_email = demo_user_email, ac_password = demo_user_password\<rparr>))"

definition locked_rule :: string where "locked_rule = ''@request.auth.superuser = true''"

definition users_list_rule :: string where
  "users_list_rule = ''@request.auth.superuser = true || @request.auth.id = @id''"

definition ensure_users_collection_rules :: "'db schema_app \<Rightarrow> 'db \<Rightarrow> 'db \<times> string option" where
  "ensure_users_collection_rules A db = (case sc_find A db ''users'' of
     None \<Rightarrow> (db, None)
   | Some c0 \<Rightarrow>
       (let ch1 = (co_create c0 \<noteq> Some locked_rule);
            c1 = (if ch1 then c0\<lparr>co_create := Some locked_rule\<rparr> else c0);
            ch2 = (co_delete c1 \<noteq> Some locked_rule);
            c2 = (if ch2 then c1\<lparr>co_delete := Some locked_rule\<rparr> else c1);
            ch3 = (co_list c2 = None \<or> co_list c2 = Some '''');
            c3 = (if ch3 then c2\<lparr>co_list := Some users_list_rule\<rparr> else c2)
        in if \<not> (ch1 \<or> ch2 \<or> ch3) then (db, None)
           else case sc_save A db c3 of
             (db', Some e) \<Rightarrow> (db', Some (''seed: lock users collection: '' @ e))
           | (db', None) \<Rightarrow> (db', None)))"

text \<open>The hook \<open>SeedDefaults\<close> binds: every step runs, errors are logged; they are the second component.\<close>

definition seed_on_serve :: "'db schema_app \<Rightarrow> bool \<Rightarrow> 'db \<Rightarrow> 'db \<times> string list" where
  "seed_on_serve A offline db0 =
     (case ensure_todos_collection A offline db0 of (db1, e1) \<Rightarrow>
     (case ensure_demo_user A db1 of (db2, e2) \<Rightarrow>
     (case ensure_users_collection_rules A db2 of (db3, e3) \<Rightarrow>
     (case ensure_whiteboards_collection A db3 of (db4, e4) \<Rightarrow>
       (db4, List.map_filter (\<lambda>e. e) [e1, e2, e3, e4])))))"

subsection \<open>The deduplication hook\<close>

text \<open>The hook on a create request of PocketBase's API: \<open>None\<close> lets the request go on, \<open>Some\<close> answers it with
  the stored record.  A failing lookup is the same as none, as in \<open>ca_first\<close>.\<close>

definition idempotency_hook :: "'db core_app \<Rightarrow> row \<Rightarrow> row option" where
  "idempotency_hook a r =
     (if rw_idem r = '''' then None
      else if rw_owner r = '''' then None
      else ca_first a (ca_db a) ''todos'' [IdemIs (rw_idem r), OwnerIs (rw_owner r)])"

text \<open>A create request: the hook, if it is registered, and then the record is saved.\<close>

definition api_create :: "bool \<Rightarrow> 'db core_app \<Rightarrow> row \<Rightarrow> 'db core_app \<times> row option" where
  "api_create hook a r = (case (if hook then idempotency_hook a r else None) of
     Some x \<Rightarrow> (a, Some x)
   | None \<Rightarrow> (case ca_save a (ca_db a) ''todos'' r of (db, res) \<Rightarrow> (a\<lparr>ca_db := db\<rparr>, res)))"

subsection \<open>What the server has after a start\<close>

text \<open>What the seed relies on: a collection is found under its name; a save that succeeds stores the rules, the
  fields and the indexes it is given (the database may add fields and set the id), a failing one changes
  nothing; accounts are not collections; and \<open>AddIndex\<close> leaves a statement with the index's name.\<close>

definition stored_as :: "collection \<Rightarrow> collection \<Rightarrow> bool" where
  "stored_as c c' \<longleftrightarrow> fst ` set (co_fields c) \<subseteq> fst ` set (co_fields c') \<and> set (co_indexes c) \<subseteq> set (co_indexes c') \<and>
     co_name c' = co_name c \<and> co_list c' = co_list c \<and> co_view c' = co_view c \<and>
     co_create c' = co_create c \<and> co_delete c' = co_delete c"

definition schema_laws :: "'db schema_app \<Rightarrow> bool" where
  "schema_laws A \<longleftrightarrow>
     (\<forall>db n c. sc_find A db n = Some c \<longrightarrow> co_name c = n) \<and>
     (\<forall>db c db'. sc_save A db c = (db', None) \<longrightarrow>
        (\<exists>c'. stored_as c c' \<and> sc_find A db' = (sc_find A db)(co_name c \<mapsto> c'))) \<and>
     (\<forall>db c db' e. sc_save A db c = (db', Some e) \<longrightarrow> sc_find A db' = sc_find A db) \<and>
     (\<forall>db n a. sc_find A (fst (sc_save_account A db n a)) = sc_find A db) \<and>
     (\<forall>n u cols w xs. \<exists>sql \<in> set (sc_index A n u cols w xs). contains_str sql n)"

lemma schema_lawsD:
  assumes "schema_laws A"
  shows "sc_find A db n = Some c \<Longrightarrow> co_name c = n"
    and "sc_save A db c = (db', None) \<Longrightarrow> \<exists>c'. stored_as c c' \<and> sc_find A db' = (sc_find A db)(co_name c \<mapsto> c')"
    and "sc_save A db c = (db', Some e) \<Longrightarrow> sc_find A db' = sc_find A db"
    and "sc_find A (fst (sc_save_account A db n a)) = sc_find A db"
    and "\<exists>sql \<in> set (sc_index A n u cols w xs). contains_str sql n"
  using assms unfolding schema_laws_def by blast+

definition todos_seeded :: "bool \<Rightarrow> collection \<Rightarrow> bool" where
  "todos_seeded offline c \<longleftrightarrow> has_field ''owner'' c \<and> has_field ''idem_key'' c \<and>
     co_list c = Some todo_view_rule \<and> co_view c = Some todo_view_rule \<and>
     (offline \<longrightarrow> (\<exists>sql \<in> set (co_indexes c). contains_str sql idem_index))"

definition boards_seeded :: "collection \<Rightarrow> bool" where
  "boards_seeded c \<longleftrightarrow> co_list c = Some whiteboard_view_rule \<and> co_view c = Some whiteboard_view_rule"

definition users_locked :: "collection \<Rightarrow> bool" where
  "users_locked c \<longleftrightarrow> co_create c = Some locked_rule \<and> co_delete c = Some locked_rule \<and> co_list c \<noteq> Some ''''"

definition holds_of :: "(string \<rightharpoonup> collection) \<Rightarrow> string \<Rightarrow> (collection \<Rightarrow> bool) \<Rightarrow> bool" where
  "holds_of f n P \<longleftrightarrow> (case f n of None \<Rightarrow> False | Some c \<Rightarrow> P c)"

definition seeded :: "bool \<Rightarrow> (string \<rightharpoonup> collection) \<Rightarrow> bool" where
  "seeded offline f \<longleftrightarrow> holds_of f ''todos'' (todos_seeded offline) \<and> holds_of f ''whiteboards'' boards_seeded \<and>
     holds_of f ''users'' users_locked"

lemma set_rules_fields [simp]:
  "co_list (set_rules r c) = Some r" "co_view (set_rules r c) = Some r" "co_fields (set_rules r c) = co_fields c"
  "co_indexes (set_rules r c) = co_indexes c" "co_name (set_rules r c) = co_name c"
  by (simp_all add: set_rules_def Let_def)

lemma contains_quoted:
  assumes "contains_str sql (q # n @ [q])"
  shows "contains_str sql n"
proof -
  from assms obtain a b where "sql = a @ (q # n @ [q]) @ b" unfolding contains_str_iff by blast
  then have "sql = (a @ [q]) @ n @ (q # b)" by simp
  then show ?thesis unfolding contains_str_iff by blast
qed

lemma idem_index_added:
  assumes "schema_laws A"
  shows "\<exists>sql \<in> set (co_indexes (add_idem_key_unique_index A c)). contains_str sql idem_index"
  using schema_lawsD(5) [OF assms] by (auto simp: add_idem_key_unique_index_def list_ex_iff dest: contains_quoted)

lemma index_fields [simp]:
  "co_fields (add_idem_key_unique_index A c) = co_fields c" "co_name (add_idem_key_unique_index A c) = co_name c"
  "co_name (add_idem_key_field c) = co_name c" "has_field ''idem_key'' (add_idem_key_field c)"
  "has_field f c \<Longrightarrow> has_field f (add_idem_key_field c)" "co_name (add_fields fs c) = co_name c"
  by (auto simp: add_idem_key_unique_index_def add_idem_key_field_def add_fields_def has_field_def)

lemma stored_keeps:
  assumes "stored_as c c'"
  shows "todos_seeded offline c \<Longrightarrow> todos_seeded offline c'" "boards_seeded c \<Longrightarrow> boards_seeded c'"
    "users_locked c \<Longrightarrow> users_locked c'"
  using assms by (auto simp: stored_as_def todos_seeded_def boards_seeded_def users_locked_def has_field_def)

lemma ensure_todos_effect:
  assumes "schema_laws A" and "ensure_todos_collection A offline db = (db', e)"
  shows "sc_find A db' = sc_find A db \<and> e \<noteq> None \<or>
    e = None \<and> (\<exists>c'. todos_seeded offline c' \<and> sc_find A db' = (sc_find A db)(''todos'' \<mapsto> c'))"
proof -
  let ?col = "case sc_find A db ''todos'' of Some c \<Rightarrow> c | None \<Rightarrow> fresh_todos"
  have name: "co_name ?col = ''todos''"
    using schema_lawsD(1) [OF assms(1)] by (auto simp: fresh_todos_def new_collection_def split: option.splits)
  let ?own = "if has_field ''owner'' ?col then Some ?col
    else map_option (\<lambda>u. add_fields [(''owner'', RelationField (co_id u) 1)] ?col) (sc_find A db ''users'')"
  show ?thesis
  proof (cases ?own)
    case None
    then show ?thesis using assms(2) by (auto simp: ensure_todos_collection_def Let_def)
  next
    case (Some c1)
    let ?c2 = "add_idem_key_field c1"
    let ?c4 = "set_rules todo_view_rule (if offline then add_idem_key_unique_index A ?c2 else ?c2)"
    have c1: "has_field ''owner'' c1" "co_name c1 = ''todos''"
      using Some name by (auto simp: has_field_def add_fields_def split: if_splits)
    then have c4: "co_name ?c4 = ''todos''" "todos_seeded offline ?c4"
      using idem_index_added [OF assms(1), of ?c2] index_fields(4,5)
      by (auto simp: todos_seeded_def has_field_def)
    obtain db1 e1 where sv: "sc_save A db ?c4 = (db1, e1)" by fastforce
    then have out: "db' = db1" "(e = None) = (e1 = None)"
      using assms(2) Some by (auto simp: ensure_todos_collection_def Let_def split: option.splits)
    show ?thesis
    proof (cases e1)
      case None
      from schema_lawsD(2) [OF assms(1) sv [unfolded None]] c4 stored_keeps(1) out None show ?thesis by auto
    next
      case (Some m)
      from schema_lawsD(3) [OF assms(1) sv [unfolded Some]] out Some show ?thesis by simp
    qed
  qed
qed

lemma ensure_boards_effect:
  assumes "schema_laws A" and "ensure_whiteboards_collection A db = (db', e)"
  shows "sc_find A db' = sc_find A db \<and> e \<noteq> None \<or>
    e = None \<and> (\<exists>c'. boards_seeded c' \<and> sc_find A db' = (sc_find A db)(''whiteboards'' \<mapsto> c'))"
proof -
  let ?col = "case sc_find A db ''whiteboards'' of Some c \<Rightarrow> c | None \<Rightarrow> fresh_whiteboards"
  have c: "co_name (set_rules whiteboard_view_rule ?col) = ''whiteboards''"
      "boards_seeded (set_rules whiteboard_view_rule ?col)"
    using schema_lawsD(1) [OF assms(1)]
    by (auto simp: fresh_whiteboards_def new_collection_def boards_seeded_def split: option.splits)
  obtain db1 e1 where sv: "sc_save A db (set_rules whiteboard_view_rule ?col) = (db1, e1)" by fastforce
  then have out: "db' = db1" "(e = None) = (e1 = None)"
    using assms(2) by (auto simp: ensure_whiteboards_collection_def Let_def split: option.splits)
  show ?thesis
    using schema_lawsD(2,3) [OF assms(1), of db "set_rules whiteboard_view_rule ?col" db1] sv c stored_keeps(2) out
    by (cases e1) auto
qed

lemma ensure_users_effect:
  assumes "schema_laws A" and "ensure_users_collection_rules A db = (db', e)"
  shows "sc_find A db' = sc_find A db \<and> (e \<noteq> None \<or> sc_find A db ''users'' = None \<or>
      holds_of (sc_find A db) ''users'' users_locked) \<or>
    e = None \<and> (\<exists>c'. users_locked c' \<and> sc_find A db' = (sc_find A db)(''users'' \<mapsto> c'))"
proof (cases "sc_find A db ''users''")
  case None
  then show ?thesis using assms(2) by (simp add: ensure_users_collection_rules_def)
next
  case (Some c0)
  let ?c1 = "if co_create c0 \<noteq> Some locked_rule then c0\<lparr>co_create := Some locked_rule\<rparr> else c0"
  let ?c2 = "if co_delete ?c1 \<noteq> Some locked_rule then ?c1\<lparr>co_delete := Some locked_rule\<rparr> else ?c1"
  let ?c3 = "if co_list ?c2 = None \<or> co_list ?c2 = Some '''' then ?c2\<lparr>co_list := Some users_list_rule\<rparr> else ?c2"
  have name: "co_name ?c3 = ''users''" using schema_lawsD(1) [OF assms(1) Some] by simp
  have locked: "users_locked ?c3" by (auto simp: users_locked_def users_list_rule_def)
  obtain db1 e1 where sv: "sc_save A db ?c3 = (db1, e1)" by fastforce
  consider (same) "?c3 = c0" "db' = db" | (saved) "db' = db1" "(e = None) = (e1 = None)"
    using assms(2) Some sv by (auto simp: ensure_users_collection_rules_def Let_def split: if_splits option.splits)
  then show ?thesis
  proof cases
    case same
    then show ?thesis using locked Some by (simp add: holds_of_def)
  next
    case saved
    then show ?thesis
      using schema_lawsD(2,3) [OF assms(1), of db ?c3 db1] sv name stored_keeps(3) [OF _ locked] by (cases e1) auto
  qed
qed

lemma ensure_demo_user_effect:
  assumes "schema_laws A" and "ensure_demo_user A db = (db', e)"
  shows "sc_find A db' = sc_find A db"
  using assms(2) schema_lawsD(4) [OF assms(1)]
  by (auto simp: ensure_demo_user_def split: option.splits) (metis fst_conv)+

lemma holds_of_update [simp]: "holds_of (f(n \<mapsto> c)) m P = (if m = n then P c else holds_of f m P)"
  by (simp add: holds_of_def)

lemma names_differ [simp]:
  "''todos'' \<noteq> ''users''" "''todos'' \<noteq> ''whiteboards''" "''users'' \<noteq> ''whiteboards''"
  "''users'' \<noteq> ''todos''" "''whiteboards'' \<noteq> ''todos''" "''whiteboards'' \<noteq> ''users''"
  by simp_all

text \<open>The four steps of a start, with the collections before and after each.\<close>

lemma seed_steps:
  assumes "schema_laws A" and "seed_on_serve A offline db = (db', es)"
  obtains f g and e1 e3 e4 :: "string option" where
    "f = sc_find A db \<and> e1 \<noteq> None \<or> e1 = None \<and> (\<exists>c. todos_seeded offline c \<and> f = (sc_find A db)(''todos'' \<mapsto> c))"
    "g = f \<and> (e3 \<noteq> None \<or> f ''users'' = None \<or> holds_of f ''users'' users_locked) \<or>
      e3 = None \<and> (\<exists>c. users_locked c \<and> g = f(''users'' \<mapsto> c))"
    "sc_find A db' = g \<and> e4 \<noteq> None \<or> e4 = None \<and> (\<exists>c. boards_seeded c \<and> sc_find A db' = g(''whiteboards'' \<mapsto> c))"
    "es = [] \<Longrightarrow> e1 = None \<and> e3 = None \<and> e4 = None"
proof -
  obtain db1 e1 where s1: "ensure_todos_collection A offline db = (db1, e1)" by fastforce
  obtain db2 e2 where s2: "ensure_demo_user A db1 = (db2, e2)" by fastforce
  obtain db3 e3 where s3: "ensure_users_collection_rules A db2 = (db3, e3)" by fastforce
  obtain db4 e4 where s4: "ensure_whiteboards_collection A db3 = (db4, e4)" by fastforce
  have out: "db' = db4" "es = List.map_filter (\<lambda>e. e) [e1, e2, e3, e4]"
    using assms(2) s1 s2 s3 s4 by (simp_all add: seed_on_serve_def)
  have "es = [] \<Longrightarrow> e1 = None \<and> e3 = None \<and> e4 = None"
    using out(2) by (auto simp: map_filter_simps split: option.splits)
  with ensure_todos_effect [OF assms(1) s1] ensure_demo_user_effect [OF assms(1) s2]
    ensure_users_effect [OF assms(1) s3] ensure_boards_effect [OF assms(1) s4] out(1)
  show ?thesis by (intro that [of "sc_find A db1" e1 "sc_find A db3" e3 e4]) simp_all
qed

text \<open>C39: The seed does its job once and for all: after a start without logged errors the todos and whiteboards
  have their access rules, the todos their owner and key fields (and the index, with offline sync), and
  nobody but a superuser can create or delete an account; and every later start keeps all that, even one
  in which saves fail.\<close>
theorem seed_is_kept:
  assumes "schema_laws A" and "sc_find A db ''users'' \<noteq> None" and "seed_on_serve A offline db = (db1, [])"
    and "sc_find A db2 = sc_find A db1"
  shows "seeded offline (sc_find A db1) \<and> seeded offline (sc_find A (fst (seed_on_serve A offline db2)))"
proof
  show first: "seeded offline (sc_find A db1)"
    by (rule seed_steps [OF assms(1,3)]) (use assms(2) in \<open>auto simp: seeded_def\<close>)
  obtain db3 es where s: "seed_on_serve A offline db2 = (db3, es)" by fastforce
  have "seeded offline (sc_find A db3)"
    by (rule seed_steps [OF assms(1) s]) (use first assms(4) in \<open>auto simp: seeded_def\<close>)
  then show "seeded offline (sc_find A (fst (seed_on_serve A offline db2)))" using s by simp
qed

lemma first_hit:
  assumes "find_laws a c" and "well_formed_rows (ca_rows a db c)"
  shows "case ca_first a db c f of None \<Rightarrow> filter (matches f) (ca_rows a db c) = []
    | Some r \<Rightarrow> r \<in> set (ca_rows a db c) \<and> matches f r"
  using assms(1) [unfolded find_laws_def, THEN spec, of db, THEN mp, OF assms(2), THEN conjunct2, THEN conjunct1] by blast

definition list_schema :: "collection list schema_app" where
  "list_schema = \<lparr>sc_find = (\<lambda>db n. find (\<lambda>c. co_name c = n) db), sc_save = (\<lambda>db c. (c # db, None)),
     sc_index = (\<lambda>n u cols w xs. n # xs), sc_account = (\<lambda>_ _ _. None), sc_save_account = (\<lambda>db _ _. (db, None))\<rparr>"

lemma list_schema_laws: "schema_laws list_schema"
proof -
  have "contains_str n n" for n :: string
    unfolding contains_str_iff by (intro exI [of _ "[]"]) simp
  then show ?thesis
    unfolding schema_laws_def by (auto simp: list_schema_def stored_as_def fun_eq_iff find_Some_iff)
qed

theorem seed_is_kept_witness:
  "seeded True (sc_find list_schema (fst (seed_on_serve list_schema True
    (fst (seed_on_serve list_schema True [new_collection ''users''])))))"
proof -
  let ?db = "fst (seed_on_serve list_schema True [new_collection ''users''])"
  have "seed_on_serve list_schema True [new_collection ''users''] = (?db, [])"
    by (simp add: seed_on_serve_def ensure_todos_collection_def ensure_demo_user_def ensure_users_collection_rules_def
        ensure_whiteboards_collection_def list_schema_def Let_def new_collection_def map_filter_simps split: prod.splits)
  from seed_is_kept [OF list_schema_laws _ this refl] show ?thesis
    by (simp add: list_schema_def new_collection_def)
qed

subsection \<open>Replays\<close>

text \<open>With the hook, a create request to PocketBase's API that is sent again with the same key is answered
  with a stored todo of that key and changes nothing; the application's own handlers save past the
  hook, so there the same todo sent again is a second row whenever the database takes it.\<close>
lemma replay_deduplicated_by_api_only:
  assumes "app_laws a ''todos''" and "well_formed_rows (rows_of a ''todos'')"
    and "rw_id r = ''''" and "rw_idem r \<noteq> ''''" and "rw_owner r \<noteq> ''''" and "api_create True a r = (a1, Some x)"
  shows "(\<exists>y. api_create True a1 r = (a1, Some y) \<and> rw_idem y = rw_idem r \<and> rw_owner y = rw_owner r \<and>
      y \<in> set (rows_of a1 ''todos'')) \<and>
    (\<forall>s' t. pb_create (from_record r) (rw_owner r) (rw_idem r) (pb_new a1 ''todos'') = (s', Inr t) \<longrightarrow>
      length (pb_rows s') = Suc (length (rows_of a1 ''todos'')) \<and> td_id t \<notin> rw_id ` set (rows_of a1 ''todos''))"
proof
  let ?f = "[IdemIs (rw_idem r), OwnerIs (rw_owner r)]"
  have L: "find_laws a ''todos''" "save_laws a ''todos''" using assms(1) by (simp_all add: app_laws_def)
  have a1: "app_laws a1 ''todos'' \<and> well_formed_rows (rows_of a1 ''todos'') \<and>
      filter (matches ?f) (rows_of a1 ''todos'') \<noteq> []"
  proof (cases "idempotency_hook a r")
    case (Some y)
    then have "a1 = a" "ca_first a (ca_db a) ''todos'' ?f = Some y"
      using assms(4-6) by (simp_all add: api_create_def idempotency_hook_def)
    then show ?thesis using first_hit [OF L(1) assms(2), of ?f] assms(1,2) by (auto simp: filter_empty_conv)
  next
    case None
    obtain db res where sv: "ca_save a (ca_db a) ''todos'' r = (db, res)" by fastforce
    have out: "a1 = a\<lparr>ca_db := db\<rparr>" "res = Some x" using None assms(6) sv by (simp_all add: api_create_def)
    from save_laws_new [OF L(2) assms(2,3), of db x] sv out(2) obtain st where
      st: "same_row st x" "x = r\<lparr>rw_id := rw_id x\<rparr>" "rw_id x \<noteq> ''''" "rw_id x \<notin> rw_id ` set (rows_of a ''todos'')"
        "ca_rows a db ''todos'' = rows_of a ''todos'' @ [st]" by auto
    have "rw_idem x = rw_idem r" "rw_owner x = rw_owner r" by (subst st(2), simp)+
    then have "rw_idem st = rw_idem r" "rw_owner st = rw_owner r" "rw_id st = rw_id x"
      using st(1) by (simp_all add: same_row_def)
    then show ?thesis using out(1) st(3-5) assms(1,2) by (auto simp: well_formed_rows_def matches_def)
  qed
  from a1 have L1: "find_laws a1 ''todos''" "save_laws a1 ''todos''" "set_laws a1" by (simp_all add: app_laws_def)
  obtain y where y: "ca_first a1 (ca_db a1) ''todos'' ?f = Some y" "y \<in> set (rows_of a1 ''todos'')" "matches ?f y"
    using first_hit [OF L1(1), of "ca_db a1" ?f] a1 by (auto split: option.splits)
  then show "\<exists>y. api_create True a1 r = (a1, Some y) \<and> rw_idem y = rw_idem r \<and> rw_owner y = rw_owner r \<and>
      y \<in> set (rows_of a1 ''todos'')"
    using assms(4,5) by (simp add: api_create_def idempotency_hook_def matches_def)
  show "\<forall>s' t. pb_create (from_record r) (rw_owner r) (rw_idem r) (pb_new a1 ''todos'') = (s', Inr t) \<longrightarrow>
      length (pb_rows s') = Suc (length (rows_of a1 ''todos'')) \<and> td_id t \<notin> rw_id ` set (rows_of a1 ''todos'')"
  proof (intro allI impI)
    fix s' t
    assume run: "pb_create (from_record r) (rw_owner r) (rw_idem r) (pb_new a1 ''todos'') = (s', Inr t)"
    let ?r = "\<lparr>rw_id = '''', rw_title = rw_title r, rw_completed = rw_completed r, rw_created = 0, rw_updated = 0,
      rw_owner = rw_owner r, rw_idem = rw_idem r\<rparr>"
    obtain db z where sv: "ca_save a1 (ca_db a1) ''todos'' ?r = (db, Some z)" "s' = set_db db (pb_new a1 ''todos'')"
        "t = from_record z"
      using run assms(4,5) L1(3)
      by (auto simp: pb_create_def pb_new_def Let_def set_laws_def new_row_def from_record_def
          split: col_result.splits prod.splits option.splits)
    from save_laws_new [OF L1(2) _ _ sv(1)] a1 sv(2,3)
    show "length (pb_rows s') = Suc (length (rows_of a1 ''todos'')) \<and> td_id t \<notin> rw_id ` set (rows_of a1 ''todos'')"
      by (auto simp: pb_new_def from_record_def)
  qed
qed

definition replayed_row :: row where
  "replayed_row = new_row\<lparr>rw_title := ''tea'', rw_owner := ''u1'', rw_idem := ''k9''\<rparr>"

lemma replay_deduplicated_by_api_only_witness:
  "\<exists>a1 x y. api_create True (mem_app []) replayed_row = (a1, Some x) \<and>
    api_create True a1 replayed_row = (a1, Some y) \<and> rw_idem y = ''k9'' \<and>
    (\<forall>s' t. pb_create (from_record replayed_row) ''u1'' ''k9'' (pb_new a1 ''todos'') = (s', Inr t) \<longrightarrow>
      length (pb_rows s') = Suc (length (rows_of a1 ''todos'')))"
proof -
  have r: "rw_id replayed_row = ''''" "rw_owner replayed_row = ''u1''" "rw_idem replayed_row = ''k9''"
    by (simp_all add: replayed_row_def new_row_def)
  obtain a1 x where c: "api_create True (mem_app []) replayed_row = (a1, Some x)"
    using r by (simp add: api_create_def idempotency_hook_def mem_save_def Let_def split: prod.splits)
  from replay_deduplicated_by_api_only [OF mem_app_laws, of "[]" replayed_row a1 x] c r show ?thesis
    by (auto simp: well_formed_rows_def)
qed

end
