(* ===== verification/Skins.thy ===== *)
theory Skins
  imports Json
begin

text \<open>
  The registry of skins, \<open>web/skins/skin.go\<close>, and the helpers of the skins' templates
  (\<open>helpers.go\<close> of \<open>basecoat\<close> and \<open>morpheus\<close>), among them the quoting of user text for the JavaScript
  expressions of the page.  A skin's assets are what its template renders, a parameter \<open>'a\<close>.
\<close>

subsection \<open>Registry\<close>

type_synonym 'a skins = "string \<rightharpoonup> 'a"

text \<open>\<open>None\<close> is \<open>log.Panicf\<close>.\<close>

definition register_skin :: "string \<Rightarrow> 'a \<Rightarrow> 'a skins \<Rightarrow> 'a skins option" where
  "register_skin name assets sk = (if sk name \<noteq> None then None else Some (sk(name \<mapsto> assets)))"

definition active_skin :: "'a skins \<Rightarrow> string \<Rightarrow> (string \<times> 'a) option" where
  "active_skin sk name = (case sk name of
     Some a \<Rightarrow> Some (name, a)
   | None \<Rightarrow> map_option (Pair ''daisyui'') (sk ''daisyui''))"

definition active_assets :: "'a skins \<Rightarrow> string \<Rightarrow> 'a option" where
  "active_assets sk name = map_option snd (active_skin sk name)"

text \<open>The packages register themselves in their \<open>init\<close> functions, in the order they are imported.\<close>

fun init_skins :: "(string \<times> 'a) list \<Rightarrow> 'a skins \<Rightarrow> 'a skins option" where
  "init_skins [] sk = Some sk"
| "init_skins ((n, a) # ns) sk = (case register_skin n a sk of None \<Rightarrow> None | Some sk' \<Rightarrow> init_skins ns sk')"

subsection \<open>Helpers\<close>

definition ternary :: "bool \<Rightarrow> 'a \<Rightarrow> 'a \<Rightarrow> 'a" where
  "ternary c a b = (if c then a else b)"

text \<open>Age in nanoseconds; \<open>date\<close> is the formatted day.\<close>

definition time_ago :: "int \<Rightarrow> string \<Rightarrow> string" where
  "time_ago d date =
     (if d < 60 * 10 ^ 9 then ''agora''
      else if d < 3600 * 10 ^ 9 then (let m = d div (60 * 10 ^ 9) in if m = 1 then ''1 min'' else int_str m @ '' min'')
      else date)"

text \<open>\<open>strconv.Quote\<close>.\<close>

definition safe_js_string :: "string \<Rightarrow> string" where
  "safe_js_string s = go_quote s"

text \<open>The expression of a delete button.\<close>

definition delete_expr :: "string \<Rightarrow> string \<Rightarrow> string" where
  "delete_expr i title = ''$confirmingDeleteId = '' @ safe_js_string i @ ''; $confirmingDeleteTitle = '' @
     safe_js_string title"

subsection \<open>What the browser reads\<close>

text \<open>A JavaScript string literal in double quotes: its value and the text behind it.  A line end inside is
  an error, and so is a bad hexadecimal escape; a backslash before any other character stands for it.\<close>

definition hex_val :: "char \<Rightarrow> nat option" where
  "hex_val c = (let n = of_char c in
     if 48 \<le> n \<and> n \<le> 57 then Some (n - 48)
     else if 97 \<le> n \<and> n \<le> 102 then Some (n - 87)
     else if 65 \<le> n \<and> n \<le> 70 then Some (n - 55) else None)"

definition js_escape :: "char \<Rightarrow> char" where
  "js_escape c = (if c = CHR ''b'' then CHR 0x08 else if c = CHR ''f'' then CHR 0x0C else if c = CHR ''n'' then CHR 0x0A
     else if c = CHR ''r'' then CHR 0x0D else if c = CHR ''t'' then CHR 0x09 else if c = CHR ''v'' then CHR 0x0B else c)"

fun js_body :: "string \<Rightarrow> (string \<times> string) option" where
  "js_body [] = None"
| "js_body (c # s) =
     (if c = CHR 0x22 then Some ([], s)
      else if c = CHR 0x0A \<or> c = CHR 0x0D then None
      else if c = CHR 0x5C then
        (case s of
           [] \<Rightarrow> None
         | e # r \<Rightarrow>
             if e = CHR ''x'' then
               (case r of
                  h # l # t \<Rightarrow> (case (hex_val h, hex_val l) of
                    (Some a, Some b) \<Rightarrow> map_option (\<lambda>(v, q). (char_of (16 * a + b) # v, q)) (js_body t)
                  | _ \<Rightarrow> None)
                | _ \<Rightarrow> None)
             else map_option (\<lambda>(v, q). (js_escape e # v, q)) (js_body r))
      else map_option (\<lambda>(v, q). (c # v, q)) (js_body s))"

definition js_string :: "string \<Rightarrow> (string \<times> string) option" where
  "js_string s = (case s of c # r \<Rightarrow> if c = CHR 0x22 then js_body r else None | [] \<Rightarrow> None)"

text \<open>One assignment \<open>$name = "..."\<close>.\<close>

definition js_assign :: "string \<Rightarrow> string \<Rightarrow> (string \<times> string) option" where
  "js_assign name s = (let p = ''$'' @ name @ '' = '' in
     if has_prefix s p then js_string (drop (length p) s) else None)"

text \<open>The value of a quoted text: the bell is written with an escape JavaScript does not know.\<close>

definition js_value :: "string \<Rightarrow> string" where
  "js_value s = map (\<lambda>c. if c = CHR 0x07 then CHR ''a'' else c) s"

lemma hex_val_digit: "d < 16 \<Longrightarrow> hex_val (hex_digit d) = Some d"
  by (auto simp: hex_val_def hex_digit_def Let_def of_char_of take_bit_eq_mod)

lemma hex_escape_read:
  "n < 256 \<Longrightarrow> js_body (CHR 0x5C # CHR ''x'' # hex_digit (n div 16) # hex_digit (n mod 16) # s) =
    map_option (\<lambda>(v, q). (char_of n # v, q)) (js_body s)"
  using hex_val_digit [of "n div 16"] hex_val_digit [of "n mod 16"] by simp

lemma quote_char_read:
  "js_body (quote_char c @ s) = map_option (\<lambda>(v, q). ((if c = CHR 0x07 then CHR ''a'' else c) # v, q)) (js_body s)"
proof (cases "c \<in> {CHR 0x22, CHR 0x5C, CHR 0x07, CHR 0x08, CHR 0x0C, CHR 0x0A, CHR 0x0D, CHR 0x09, CHR 0x0B}")
  case True
  have "quote_char (CHR 0x22) = [CHR 0x5C, CHR 0x22]" "quote_char (CHR 0x5C) = [CHR 0x5C, CHR 0x5C]"
    "quote_char (CHR 0x07) = [CHR 0x5C, CHR ''a'']" "quote_char (CHR 0x08) = [CHR 0x5C, CHR ''b'']"
    "quote_char (CHR 0x0C) = [CHR 0x5C, CHR ''f'']" "quote_char (CHR 0x0A) = [CHR 0x5C, CHR ''n'']"
    "quote_char (CHR 0x0D) = [CHR 0x5C, CHR ''r'']" "quote_char (CHR 0x09) = [CHR 0x5C, CHR ''t'']"
    "quote_char (CHR 0x0B) = [CHR 0x5C, CHR ''v'']" by code_simp+
  with True show ?thesis by (auto simp: js_escape_def)
next
  case named: False
  have "of_char c \<noteq> (n :: nat)" if "n \<in> {7, 8, 12, 10, 13, 9, 11}" for n
  proof
    assume "of_char c = n"
    then have "c = char_of n" by (metis char_of_char)
    moreover have "char_of (7 :: nat) = CHR 0x07" "char_of (8 :: nat) = CHR 0x08" "char_of (12 :: nat) = CHR 0x0C"
      "char_of (10 :: nat) = CHR 0x0A" "char_of (13 :: nat) = CHR 0x0D" "char_of (9 :: nat) = CHR 0x09"
      "char_of (11 :: nat) = CHR 0x0B" by code_simp+
    ultimately show False using that named by auto
  qed
  note codes = this
  show ?thesis
  proof (cases "of_char c < (32 :: nat) \<or> of_char c = (127 :: nat)")
    case True
    then have "quote_char c = [CHR 0x5C, CHR ''x'', hex_digit (of_char c div 16), hex_digit (of_char c mod 16)]"
      using named codes by (simp add: quote_char_def Let_def)
    then show ?thesis using named hex_escape_read [of "of_char c" s] by simp
  next
    case False
    then have "quote_char c = [c]" using named codes by (simp add: quote_char_def Let_def)
    then show ?thesis using named by simp
  qed
qed

lemma quoted_read: "js_string (safe_js_string s @ t) = Some (js_value s, t)"
proof -
  have "js_body (concat (map quote_char s) @ CHR 0x22 # t) = Some (js_value s, t)"
    by (induction s) (simp_all add: js_value_def quote_char_read)
  then show ?thesis by (simp add: js_string_def safe_js_string_def go_quote_def)
qed

lemma assign_read: "js_assign n (''$'' @ n @ '' = '' @ safe_js_string s @ t) = Some (js_value s, t)"
  using quoted_read [of s t] has_prefix_append [of "''$'' @ n @ '' = ''"] by (simp add: js_assign_def Let_def)


end
