(* ===== verification/WorkerPool.thy ===== *)
theory WorkerPool
  imports Workers
begin

text \<open>
  The workers of \<open>internal/queue/workers.go\<close> beside each other, on a queue as \<open>goqite.go\<close> makes it.  A
  received message is hidden from the other workers for the queue's timeout only and is deleted after it
  has been processed, if the delete succeeds.  goqite is the parameter \<open>timed_queue\<close>, calls on a state \<open>'q\<close>
  at a time; the workers' loops, the producers and the clock are the rules of the step relation \<open>pool_step\<close>.
\<close>

subsection \<open>The pool\<close>

text \<open>Where a worker is in its loop: about to receive, processing (since when), about to delete, or gone.\<close>

datatype worker_at = Idle | Processing msg int | Deleting msg int | Gone

text \<open>
  \<open>ps_started\<close> records the id of the message each time a worker calls \<open>processMessage\<close>, \<open>ps_finished\<close> each
  time such a call returns, \<open>ps_undeleted\<close> each time the delete after it fails.
\<close>

record 'q pool_state =
  ps_queue :: 'q
  ps_now :: int
  ps_stopped :: bool
  ps_at :: "nat \<Rightarrow> worker_at"
  ps_started :: "nat list"
  ps_finished :: "nat list"
  ps_undeleted :: "nat list"

definition worker_count :: nat where "worker_count = 4"

definition start_pool :: "'q \<Rightarrow> int \<Rightarrow> 'q pool_state" where
  "start_pool q now = \<lparr>ps_queue = q, ps_now = now, ps_stopped = False,
     ps_at = (\<lambda>i. if i < worker_count then Idle else Gone), ps_started = [], ps_finished = [], ps_undeleted = []\<rparr>"

definition at_worker :: "nat \<Rightarrow> worker_at \<Rightarrow> 'q pool_state \<Rightarrow> 'q pool_state" where
  "at_worker i a s = s\<lparr>ps_at := (ps_at s)(i := a)\<rparr>"

text \<open>
  \<open>may\<close> says whether time may go on to a given moment.  A receive or a delete that fails leaves the stored
  messages as they were; after a failed receive the worker sleeps and goes on.
\<close>

inductive pool_step :: "'q timed_queue \<Rightarrow> ('q pool_state \<Rightarrow> int \<Rightarrow> bool) \<Rightarrow> 'q pool_state \<Rightarrow> 'q pool_state \<Rightarrow> bool"
  for Q may where
  receive: "ps_at s i = Idle \<Longrightarrow> tq_receive Q (ps_now s) (ps_queue s) = (q', Some m) \<Longrightarrow>
    pool_step Q may s (at_worker i (Processing m (ps_now s)) s\<lparr>ps_queue := q', ps_started := ps_started s @ [msg_id m]\<rparr>)"
| empty: "ps_at s i = Idle \<Longrightarrow> tq_receive Q (ps_now s) (ps_queue s) = (q', None) \<Longrightarrow> pool_step Q may s (s\<lparr>ps_queue := q'\<rparr>)"
| receive_error: "ps_at s i = Idle \<Longrightarrow> pool_step Q may s s"
| processed: "ps_at s i = Processing m t \<Longrightarrow>
    pool_step Q may s (at_worker i (Deleting m t) s\<lparr>ps_finished := ps_finished s @ [msg_id m]\<rparr>)"
| deleted: "ps_at s i = Deleting m t \<Longrightarrow>
    pool_step Q may s (at_worker i Idle s\<lparr>ps_queue := tq_delete Q (msg_id m) (ps_queue s)\<rparr>)"
| delete_error: "ps_at s i = Deleting m t \<Longrightarrow>
    pool_step Q may s (at_worker i Idle s\<lparr>ps_undeleted := ps_undeleted s @ [msg_id m]\<rparr>)"
| sent: "pool_step Q may s (s\<lparr>ps_queue := tq_send Q (ps_now s) b (ps_queue s)\<rparr>)"
| later: "ps_now s \<le> t \<Longrightarrow> may s t \<Longrightarrow> pool_step Q may s (s\<lparr>ps_now := t\<rparr>)"
| stopped: "pool_step Q may s (s\<lparr>ps_stopped := True\<rparr>)"
| gone: "ps_at s i = Idle \<Longrightarrow> ps_stopped s \<Longrightarrow> pool_step Q may s (at_worker i Gone s)"

inductive_cases pool_stepE: "pool_step Q may s s'"

abbreviation pool_run where "pool_run Q may \<equiv> (pool_step Q may)\<^sup>*\<^sup>*"

text \<open>Time goes on only while no worker has been processing a message for the timeout.\<close>

definition held :: "worker_at \<Rightarrow> (msg \<times> int) option" where
  "held a = (case a of Processing m t \<Rightarrow> Some (m, t) | Deleting m t \<Rightarrow> Some (m, t) | _ \<Rightarrow> None)"

definition in_time :: "int \<Rightarrow> 'q pool_state \<Rightarrow> int \<Rightarrow> bool" where
  "in_time timeout s t \<longleftrightarrow> (\<forall>i m t0. held (ps_at s i) = Some (m, t0) \<longrightarrow> t < t0 + timeout)"

subsection \<open>The invariant of a pool in time\<close>

definition holders_ok :: "('q \<Rightarrow> nat \<rightharpoonup> entry) \<Rightarrow> int \<Rightarrow> 'q pool_state \<Rightarrow> bool" where
  "holders_ok view timeout s \<longleftrightarrow> (\<forall>i m t. held (ps_at s i) = Some (m, t) \<longrightarrow> ps_now s < t + timeout \<and>
     (\<exists>e. view (ps_queue s) (msg_id m) = Some e \<and> en_visible e = t + timeout) \<and>
     (\<forall>j m' t'. held (ps_at s j) = Some (m', t') \<longrightarrow> msg_id m' = msg_id m \<longrightarrow> j = i))"

text \<open>Whether some worker holds a message, and whether it has processed it already.\<close>

definition busy :: "(nat \<Rightarrow> worker_at) \<Rightarrow> nat \<Rightarrow> bool" where
  "busy at k \<longleftrightarrow> (\<exists>i m t. held (at i) = Some (m, t) \<and> msg_id m = k)"

definition done_with :: "(nat \<Rightarrow> worker_at) \<Rightarrow> nat \<Rightarrow> bool" where
  "done_with at k \<longleftrightarrow> (\<exists>i m t. at i = Deleting m t \<and> msg_id m = k)"

text \<open>
  How often a message has been started and finished: once per failed delete, and once more if it is with a
  worker now or has left the queue.
\<close>

definition counts_ok :: "('q \<Rightarrow> nat \<rightharpoonup> entry) \<Rightarrow> ('q \<Rightarrow> nat) \<Rightarrow> 'q pool_state \<Rightarrow> bool" where
  "counts_ok view fresh s \<longleftrightarrow>
     (\<forall>k < fresh (ps_queue s).
        count_list (ps_started s) k = count_list (ps_undeleted s) k +
          of_bool (view (ps_queue s) k = None \<or> busy (ps_at s) k) \<and>
        count_list (ps_finished s) k = count_list (ps_undeleted s) k +
          of_bool (view (ps_queue s) k = None \<or> done_with (ps_at s) k)) \<and>
     (\<forall>k \<ge> fresh (ps_queue s). view (ps_queue s) k = None \<and> count_list (ps_started s) k = 0 \<and>
        count_list (ps_finished s) k = 0 \<and> count_list (ps_undeleted s) k = 0)"

lemma held_simps [simp]:
  "held Idle = None" "held Gone = None" "held (Processing m t) = Some (m, t)" "held (Deleting m t) = Some (m, t)"
  by (simp_all add: held_def)

lemma at_worker_simps [simp]:
  "ps_queue (at_worker i a s) = ps_queue s" "ps_now (at_worker i a s) = ps_now s"
  "ps_started (at_worker i a s) = ps_started s" "ps_finished (at_worker i a s) = ps_finished s"
  "ps_undeleted (at_worker i a s) = ps_undeleted s" "ps_at (at_worker i a s) = (ps_at s)(i := a)"
  by (simp_all add: at_worker_def)

lemma holders_okD:
  assumes "holders_ok view timeout s" and "held (ps_at s i) = Some (m, t)"
  shows "ps_now s < t + timeout" and "\<exists>e. view (ps_queue s) (msg_id m) = Some e \<and> en_visible e = t + timeout"
    and "held (ps_at s j) = Some (m', t') \<Longrightarrow> msg_id m' = msg_id m \<Longrightarrow> j = i"
  using assms unfolding holders_ok_def by blast+

text \<open>Nobody holds a message that is ready.\<close>

lemma ready_not_busy:
  assumes "holders_ok view timeout s" and "view (ps_queue s) k = Some e" and "ready limit (ps_now s) e"
  shows "\<not> busy (ps_at s) k"
proof
  assume "busy (ps_at s) k"
  then obtain i m t where "held (ps_at s i) = Some (m, t)" "msg_id m = k" unfolding busy_def by blast
  with holders_okD(1,2) [OF assms(1) this(1)] assms(2) have "ps_now s < en_visible e" by auto
  with assms(3) show False by (simp add: ready_def)
qed

lemma done_with_busy: "done_with at k \<Longrightarrow> busy at k"
  unfolding done_with_def busy_def by (metis held_simps(4))

text \<open>What a change of one worker does to the two notions.\<close>

lemma busy_take: "held (at i) = None \<Longrightarrow> busy (at(i := Processing m t)) k \<longleftrightarrow> busy at k \<or> k = msg_id m"
  unfolding busy_def by (auto; metis option.distinct(1))

lemma done_with_other:
  "(\<And>m t. at i \<noteq> Deleting m t) \<Longrightarrow> (\<And>m t. a \<noteq> Deleting m t) \<Longrightarrow> done_with (at(i := a)) k \<longleftrightarrow> done_with at k"
  unfolding done_with_def by (auto; metis)

lemma busy_same: "held a = held (at i) \<Longrightarrow> busy (at(i := a)) k \<longleftrightarrow> busy at k"
  unfolding busy_def by (auto; metis)

lemma done_with_now:
  "at i = Processing m t \<Longrightarrow> done_with (at(i := Deleting m t)) k \<longleftrightarrow> done_with at k \<or> k = msg_id m"
  unfolding done_with_def by (auto; metis worker_at.distinct(7) worker_at.distinct(8))

lemma released:
  assumes "holders_ok view timeout s" and "ps_at s i = Deleting m t"
  shows "busy ((ps_at s)(i := Idle)) k \<longleftrightarrow> busy (ps_at s) k \<and> k \<noteq> msg_id m"
    and "done_with ((ps_at s)(i := Idle)) k \<longleftrightarrow> done_with (ps_at s) k \<and> k \<noteq> msg_id m"
    and "busy (ps_at s) (msg_id m)" and "done_with (ps_at s) (msg_id m)"
proof -
  have me: "held (ps_at s i) = Some (m, t)" using assms(2) by simp
  have only: "j = i" if "held (ps_at s j) = Some (m', t')" "msg_id m' = msg_id m" for j m' t'
    using holders_okD(3) [OF assms(1) me that] .
  have other: "j \<noteq> i" if "held (ps_at s j) = Some (m', t')" "msg_id m' \<noteq> msg_id m" for j m' t'
    using that me by auto
  show "busy (ps_at s) (msg_id m)" unfolding busy_def using me by blast
  show "done_with (ps_at s) (msg_id m)" unfolding done_with_def using assms(2) by blast
  show "busy ((ps_at s)(i := Idle)) k \<longleftrightarrow> busy (ps_at s) k \<and> k \<noteq> msg_id m"
    unfolding busy_def using only other by (auto split: if_splits) metis+
  show "done_with ((ps_at s)(i := Idle)) k \<longleftrightarrow> done_with (ps_at s) k \<and> k \<noteq> msg_id m"
    unfolding done_with_def using only other by (auto split: if_splits) (metis held_simps(4))+
qed

lemma counts_okD:
  assumes "counts_ok view fresh s" and "k < fresh (ps_queue s)"
  shows "count_list (ps_started s) k = count_list (ps_undeleted s) k +
      of_bool (view (ps_queue s) k = None \<or> busy (ps_at s) k)"
    and "count_list (ps_finished s) k = count_list (ps_undeleted s) k +
      of_bool (view (ps_queue s) k = None \<or> done_with (ps_at s) k)"
  using assms unfolding counts_ok_def by blast+

lemma stored_below: "counts_ok view fresh s \<Longrightarrow> view (ps_queue s) k = Some e \<Longrightarrow> k < fresh (ps_queue s)"
  unfolding counts_ok_def by (metis linorder_not_le option.distinct(1))

lemma receive_keeps:
  assumes laws: "timed_laws Q view fresh timeout limit"
    and "holders_ok view timeout s" and "counts_ok view fresh s" and "ps_at s i = Idle"
    and "tq_receive Q (ps_now s) (ps_queue s) = (q', Some m)"
  shows "holders_ok view timeout (at_worker i (Processing m (ps_now s)) s\<lparr>ps_queue := q', ps_started := ps_started s @ [msg_id m]\<rparr>) \<and>
    counts_ok view fresh (at_worker i (Processing m (ps_now s)) s\<lparr>ps_queue := q', ps_started := ps_started s @ [msg_id m]\<rparr>)"
proof
  let ?s = "at_worker i (Processing m (ps_now s)) s\<lparr>ps_queue := q', ps_started := ps_started s @ [msg_id m]\<rparr>"
  from timed_lawsD(3) [OF laws assms(5)] obtain e where e: "view (ps_queue s) (msg_id m) = Some e"
    "ready limit (ps_now s) e" "fresh q' = fresh (ps_queue s)"
    "view q' = (view (ps_queue s))(msg_id m \<mapsto>
      e\<lparr>en_visible := ps_now s + timeout, en_received := Suc (en_received e)\<rparr>)" by blast
  have new: "\<not> busy (ps_at s) (msg_id m)" by (rule ready_not_busy [OF assms(2) e(1,2)])
  then have nobody: "msg_id m' \<noteq> msg_id m" if "held (ps_at s j) = Some (m', t')" for j m' t'
    using that unfolding busy_def by blast
  show "holders_ok view timeout ?s"
    using assms(2,4) e(4) timed_lawsD(1) [OF laws]
    unfolding holders_ok_def by (auto split: if_splits dest: nobody)
  have idle: "held (ps_at s i) = None" using assms(4) by simp
  have dw: "done_with ((ps_at s)(i := Processing m (ps_now s))) k \<longleftrightarrow> done_with (ps_at s) k" for k
    using assms(4) by (intro done_with_other) simp_all
  have below: "msg_id m < fresh (ps_queue s)" by (rule stored_below [where view = view and fresh = fresh, OF assms(3) e(1)])
  show "counts_ok view fresh ?s"
    using assms(3) below new e(1) unfolding counts_ok_def by (simp add: e(3,4) busy_take [where at = "ps_at s", OF idle] dw)
qed

lemma deleted_keeps:
  assumes laws: "timed_laws Q view fresh timeout limit"
    and "holders_ok view timeout s" and "counts_ok view fresh s" and "ps_at s i = Deleting m t"
  shows "holders_ok view timeout (at_worker i Idle s\<lparr>ps_queue := tq_delete Q (msg_id m) (ps_queue s)\<rparr>) \<and>
    counts_ok view fresh (at_worker i Idle s\<lparr>ps_queue := tq_delete Q (msg_id m) (ps_queue s)\<rparr>)"
proof
  let ?s = "at_worker i Idle s\<lparr>ps_queue := tq_delete Q (msg_id m) (ps_queue s)\<rparr>"
  have me: "held (ps_at s i) = Some (m, t)" using assms(4) by simp
  have only: "msg_id m' \<noteq> msg_id m" if "held (ps_at s j) = Some (m', t')" "j \<noteq> i" for j m' t'
    using holders_okD(3) [OF assms(2) me that(1)] that(2) by blast
  show "holders_ok view timeout ?s"
    using assms(2) timed_lawsD(4) [OF laws] unfolding holders_ok_def by (auto split: if_splits dest: only)
  note R = released [OF assms(2,4)]
  show "counts_ok view fresh ?s"
    using assms(3) R(3,4) unfolding counts_ok_def by (simp add: timed_lawsD(4,5) [OF laws] R(1,2))
qed

lemma delete_error_keeps:
  assumes "holders_ok view timeout s" and "counts_ok view fresh s" and "ps_at s i = Deleting m t"
  shows "holders_ok view timeout (at_worker i Idle s\<lparr>ps_undeleted := ps_undeleted s @ [msg_id m]\<rparr>) \<and>
    counts_ok view fresh (at_worker i Idle s\<lparr>ps_undeleted := ps_undeleted s @ [msg_id m]\<rparr>)"
proof
  let ?s = "at_worker i Idle s\<lparr>ps_undeleted := ps_undeleted s @ [msg_id m]\<rparr>"
  show "holders_ok view timeout ?s"
    using assms(1) unfolding holders_ok_def by (auto split: if_splits)
  note R = released [OF assms(1,3)]
  have me: "held (ps_at s i) = Some (m, t)" using assms(3) by simp
  obtain e where e: "view (ps_queue s) (msg_id m) = Some e" using holders_okD(2) [OF assms(1) me] by blast
  have below: "msg_id m < fresh (ps_queue s)" by (rule stored_below [where view = view and fresh = fresh, OF assms(2) e])
  show "counts_ok view fresh ?s"
    using assms(2) R(3,4) below e unfolding counts_ok_def by (simp add: R(1,2))
qed

lemma processed_keeps:
  assumes "holders_ok view timeout s" and "counts_ok view fresh s" and "ps_at s i = Processing m t"
  shows "holders_ok view timeout (at_worker i (Deleting m t) s\<lparr>ps_finished := ps_finished s @ [msg_id m]\<rparr>) \<and>
    counts_ok view fresh (at_worker i (Deleting m t) s\<lparr>ps_finished := ps_finished s @ [msg_id m]\<rparr>)"
proof
  let ?s = "at_worker i (Deleting m t) s\<lparr>ps_finished := ps_finished s @ [msg_id m]\<rparr>"
  have me: "held (ps_at s i) = Some (m, t)" using assms(3) by simp
  have same: "held (ps_at ?s j) = held (ps_at s j)" for j using me by simp
  show "holders_ok view timeout ?s"
    using assms(1) unfolding holders_ok_def same by simp
  obtain e where e: "view (ps_queue s) (msg_id m) = Some e" using holders_okD(2) [OF assms(1) me] by blast
  have below: "msg_id m < fresh (ps_queue s)" by (rule stored_below [where view = view and fresh = fresh, OF assms(2) e])
  have notyet: "\<not> done_with (ps_at s) (msg_id m)"
  proof
    assume "done_with (ps_at s) (msg_id m)"
    then obtain j m' t' where j: "ps_at s j = Deleting m' t'" "msg_id m' = msg_id m" unfolding done_with_def by blast
    then have "j = i" by (intro holders_okD(3) [OF assms(1) me, of j m' t']) simp_all
    with j assms(3) show False by simp
  qed
  have b: "busy ((ps_at s)(i := Deleting m t)) k \<longleftrightarrow> busy (ps_at s) k" for k using me by (intro busy_same) simp
  show "counts_ok view fresh ?s"
    using assms(2) below notyet e unfolding counts_ok_def by (simp add: b done_with_now [where at = "ps_at s", OF assms(3)])
qed

lemma sent_keeps:
  assumes laws: "timed_laws Q view fresh timeout limit"
    and "holders_ok view timeout s" and "counts_ok view fresh s"
  shows "holders_ok view timeout (s\<lparr>ps_queue := tq_send Q now b (ps_queue s)\<rparr>) \<and> counts_ok view fresh (s\<lparr>ps_queue := tq_send Q now b (ps_queue s)\<rparr>)"
proof
  let ?q = "tq_send Q now b (ps_queue s)" and ?n = "fresh (ps_queue s)"
  have none: "view (ps_queue s) ?n = None" using assms(3) unfolding counts_ok_def by blast
  have nb: "\<not> busy (ps_at s) ?n"
    using holders_okD(2) [OF assms(2)] none unfolding busy_def by (metis option.distinct(1))
  then have nd: "\<not> done_with (ps_at s) ?n" using done_with_busy by blast
  show "holders_ok view timeout (s\<lparr>ps_queue := ?q\<rparr>)"
    unfolding holders_ok_def
  proof (intro allI impI conjI)
    fix i m t assume h: "held (ps_at (s\<lparr>ps_queue := ?q\<rparr>) i) = Some (m, t)"
    then have h': "held (ps_at s i) = Some (m, t)" by simp
    show "ps_now (s\<lparr>ps_queue := ?q\<rparr>) < t + timeout" using holders_okD(1) [OF assms(2) h'] by simp
    obtain e where e: "view (ps_queue s) (msg_id m) = Some e" "en_visible e = t + timeout"
      using holders_okD(2) [OF assms(2) h'] by blast
    then have "msg_id m \<noteq> ?n" using none by auto
    then show "\<exists>e. view (ps_queue (s\<lparr>ps_queue := ?q\<rparr>)) (msg_id m) = Some e \<and> en_visible e = t + timeout"
      using e by (simp add: timed_lawsD(6) [OF laws])
    fix j m' t' assume "held (ps_at (s\<lparr>ps_queue := ?q\<rparr>) j) = Some (m', t')" "msg_id m' = msg_id m"
    then show "j = i" using holders_okD(3) [OF assms(2) h'] by simp
  qed
  have z: "count_list (ps_started s) ?n = 0" "count_list (ps_finished s) ?n = 0" "count_list (ps_undeleted s) ?n = 0"
    using assms(3) unfolding counts_ok_def by blast+
  show "counts_ok view fresh (s\<lparr>ps_queue := ?q\<rparr>)"
    using assms(3) z nb nd unfolding counts_ok_def by (auto simp: timed_lawsD(6,7) [OF laws] less_Suc_eq)
qed

lemma same_held_keeps:
  assumes "holders_ok view timeout s" and "counts_ok view fresh s" and "\<And>j. held (ps_at s' j) = held (ps_at s j)"
    and "\<And>k. done_with (ps_at s') k = done_with (ps_at s) k"
    and "ps_queue s' = ps_queue s" and "ps_started s' = ps_started s" and "ps_finished s' = ps_finished s"
    and "ps_undeleted s' = ps_undeleted s"
    and "\<And>i m t. held (ps_at s i) = Some (m, t) \<Longrightarrow> ps_now s' < t + timeout"
  shows "holders_ok view timeout s' \<and> counts_ok view fresh s'"
  using assms unfolding holders_ok_def counts_ok_def busy_def by simp

lemma step_keeps:
  assumes laws: "timed_laws Q view fresh timeout limit"
    and "pool_step Q (in_time timeout) s s'" and "holders_ok view timeout s" and "counts_ok view fresh s"
  shows "holders_ok view timeout s' \<and> counts_ok view fresh s'"
  using assms(2)
proof (cases rule: pool_step.cases)
  case (empty i q')
  then have "q' = ps_queue s"
    using laws unfolding timed_laws_def by (metis fst_conv snd_conv)
  then show ?thesis using empty assms(3,4) by simp
next
  case (later t)
  then show ?thesis using assms(3,4) unfolding in_time_def by (intro same_held_keeps [where s = s]) auto
next
  case (receive i q' m)
  then show ?thesis using receive_keeps [OF laws assms(3,4)] by simp
next
  case (receive_error i)
  then show ?thesis using assms(3,4) by simp
next
  case (processed i m t)
  then show ?thesis using processed_keeps [OF assms(3,4)] by simp
next
  case (deleted i m t)
  then show ?thesis using deleted_keeps [OF laws assms(3,4)] by simp
next
  case (delete_error i m t)
  then show ?thesis using delete_error_keeps [OF assms(3,4)] by simp
next
  case (sent b)
  then show ?thesis using sent_keeps [OF laws assms(3,4)] by simp
next
  case stopped
  then show ?thesis using assms(3,4) by (intro same_held_keeps [where s = s]) (auto simp: holders_ok_def)
next
  case (gone i)
  then have "done_with ((ps_at s)(i := Gone)) k \<longleftrightarrow> done_with (ps_at s) k" for k
    by (intro done_with_other) simp_all
  with gone show ?thesis using assms(3,4) by (intro same_held_keeps [where s = s]) (auto simp: holders_ok_def)
qed

lemma run_keeps:
  assumes "timed_laws Q view fresh timeout limit" and "pool_run Q (in_time timeout) s s'"
    and "holders_ok view timeout s" and "counts_ok view fresh s"
  shows "holders_ok view timeout s' \<and> counts_ok view fresh s'"
  using assms(2) by (induction rule: rtranclp_induct) (use assms(3,4) step_keeps [OF assms(1)] in auto)

text \<open>A pool that starts on messages nobody has taken yet.\<close>

lemma start_pool_ok:
  assumes "dom (view q) = {..< fresh q}"
  shows "holders_ok view timeout (start_pool q now)" and "counts_ok view fresh (start_pool q now)"
proof -
  have idle: "held (ps_at (start_pool q now) i) = None" for i by (simp add: start_pool_def)
  show "holders_ok view timeout (start_pool q now)" using idle unfolding holders_ok_def by simp
  have nb: "\<not> busy (ps_at (start_pool q now)) k" for k using idle unfolding busy_def by simp
  have nd: "\<not> done_with (ps_at (start_pool q now)) k" for k using nb done_with_busy by blast
  have "view q k \<noteq> None" if "k < fresh q" for k using assms that by (metis domIff lessThan_iff)
  moreover have "view q k = None" if "fresh q \<le> k" for k using assms that by (metis domIff lessThan_iff not_le)
  ultimately show "counts_ok view fresh (start_pool q now)"
    using nb nd unfolding counts_ok_def by (simp add: start_pool_def)
qed

subsection \<open>Exactly once, or not\<close>

text \<open>A message whose processing outlasts the timeout is given to a second worker.\<close>

lemma slow_job_runs_twice:
  assumes "timed_laws Q view fresh timeout limit" and "1 < limit"
    and "view q = [i \<mapsto> \<lparr>en_body = b, en_visible = now, en_received = 0\<rparr>]"
  shows "\<exists>s m t u. pool_run Q (\<lambda>_ _. True) (start_pool q now) s \<and> ps_started s = [i, i] \<and>
    ps_at s 0 = Processing m t \<and> ps_at s 1 = Processing m u \<and> msg_id m = i \<and> msg_body m = b"
proof -
  note D = timed_lawsD [OF assms(1)]
  let ?s0 = "start_pool q now" and ?e = "\<lparr>en_body = b, en_visible = now, en_received = 0\<rparr>"
  have "ready limit now ?e" using assms(2) by (simp add: ready_def)
  with D(2) [of q i ?e now] obtain q1 m1 where r1: "tq_receive Q now q = (q1, Some m1)"
    using assms(3) by (cases "tq_receive Q now q") auto
  from D(3) [OF r1] assms(3) have m1: "msg_id m1 = i" "msg_body m1 = b"
    "view q1 = [i \<mapsto> ?e\<lparr>en_visible := now + timeout, en_received := 1\<rparr>]"
    by (auto split: if_splits)
  let ?e1 = "?e\<lparr>en_visible := now + timeout, en_received := 1\<rparr>" and ?t = "now + timeout"
  have "ready limit ?t ?e1" using assms(2) by (simp add: ready_def)
  with D(2) [of q1 i ?e1 ?t] obtain q2 m2 where r2: "tq_receive Q ?t q1 = (q2, Some m2)"
    using m1(3) by (cases "tq_receive Q ?t q1") auto
  from D(3) [OF r2] m1(3) have m2: "msg_id m2 = i" "msg_body m2 = b" by (auto split: if_splits)
  have same: "m2 = m1" using m1 m2 by (cases m1; cases m2) simp
  let ?s1 = "at_worker 0 (Processing m1 now) ?s0\<lparr>ps_queue := q1, ps_started := [i]\<rparr>"
  let ?s2 = "?s1\<lparr>ps_now := ?t\<rparr>"
  let ?s3 = "at_worker 1 (Processing m2 ?t) ?s2\<lparr>ps_queue := q2, ps_started := [i, i]\<rparr>"
  have "pool_step Q (\<lambda>_ _. True) ?s0 ?s1"
    using pool_step.receive [of ?s0 0 Q q1 m1 "\<lambda>_ _. True"] r1 m1(1)
    by (simp add: start_pool_def worker_count_def at_worker_def)
  moreover have "pool_step Q (\<lambda>_ _. True) ?s1 ?s2"
    using pool_step.later [of ?s1 ?t "\<lambda>_ _. True" Q] D(1) by (simp add: start_pool_def at_worker_def)
  moreover have "pool_step Q (\<lambda>_ _. True) ?s2 ?s3"
    using pool_step.receive [of ?s2 1 Q q2 m2 "\<lambda>_ _. True"] r2 m2(1)
    by (simp add: start_pool_def worker_count_def at_worker_def)
  ultimately have "pool_run Q (\<lambda>_ _. True) ?s0 ?s3" by (meson converse_rtranclp_into_rtranclp rtranclp.rtrancl_refl)
  moreover have "ps_at ?s3 0 = Processing m1 now" "ps_at ?s3 1 = Processing m1 ?t" "ps_started ?s3 = [i, i]"
    using same by (simp_all add: at_worker_def)
  ultimately show ?thesis using m1 by blast
qed

text \<open>C14: As long as no worker processes a message for the queue's timeout, under any interleaving of the four
  workers with each other and with the producers and whatever receives and deletes fail: no two workers
  process the same message at a time; a worker takes up a message (calls \<open>processMessage\<close> on it, which
  calls its handler up to the configured number of attempts) at most once, and once more for each time
  its delete failed; and a message that has left the queue has been processed to the end, exactly once
  more often than its delete failed.  The timeout is what this rests on: processing that outlasts it
  leads to a second worker processing the same message at the same time.\<close>
theorem jobs_run_once_in_time:
  assumes "timed_laws Q view fresh timeout limit" and "1 < limit" and "dom (view q) = {..< fresh q}"
    and "pool_run Q (in_time timeout) (start_pool q now) s"
    and "view q1 = [i \<mapsto> \<lparr>en_body = b, en_visible = now1, en_received = 0\<rparr>]"
  shows "(\<forall>k. count_list (ps_started s) k \<le> Suc (count_list (ps_undeleted s) k)) \<and>
    (\<forall>k < fresh (ps_queue s). k \<in> dom (view (ps_queue s)) \<or>
       count_list (ps_finished s) k = Suc (count_list (ps_undeleted s) k)) \<and>
    (\<forall>j1 j2 m1 m2 t1 t2. ps_at s j1 = Processing m1 t1 \<and> ps_at s j2 = Processing m2 t2 \<and> msg_id m1 = msg_id m2 \<longrightarrow> j1 = j2) \<and>
    (\<exists>s'. pool_run Q (\<lambda>_ _. True) (start_pool q1 now1) s' \<and> ps_started s' = [i, i] \<and>
       (\<exists>m t u. ps_at s' 0 = Processing m t \<and> ps_at s' 1 = Processing m u))"
proof -
  note S = start_pool_ok [where view = view and fresh = fresh and q = q, OF assms(3)]
  from run_keeps [OF assms(1,4) S]
  have inv: "holders_ok view timeout s" "counts_ok view fresh s" by simp_all
  have "count_list (ps_started s) k \<le> Suc (count_list (ps_undeleted s) k)" for k
  proof (cases "k < fresh (ps_queue s)")
    case True
    then show ?thesis using counts_okD(1) [OF inv(2) True] by simp
  next
    case False
    then show ?thesis using inv(2) unfolding counts_ok_def by simp
  qed
  moreover have "k \<in> dom (view (ps_queue s)) \<or> count_list (ps_finished s) k = Suc (count_list (ps_undeleted s) k)"
    if "k < fresh (ps_queue s)" for k
    using counts_okD(2) [OF inv(2) that] by auto
  moreover have "j1 = j2" if "ps_at s j1 = Processing m1 t1" "ps_at s j2 = Processing m2 t2" "msg_id m1 = msg_id m2"
    for j1 j2 m1 m2 t1 t2
    using holders_okD(3) [OF inv(1), of j2 m2 t2 j1 m1 t1] that by simp
  moreover from slow_job_runs_twice [OF assms(1,2,5)]
  have "\<exists>s'. pool_run Q (\<lambda>_ _. True) (start_pool q1 now1) s' \<and> ps_started s' = [i, i] \<and>
       (\<exists>m t u. ps_at s' 0 = Processing m t \<and> ps_at s' 1 = Processing m u)" by blast
  ultimately show ?thesis by blast
qed

subsection \<open>Witness\<close>

abbreviation first_waiting :: entry where
  "first_waiting \<equiv> \<lparr>en_body = ''a'', en_visible = 0, en_received = 0\<rparr>"

abbreviation one_waiting :: "nat \<times> (nat \<times> entry) list" where
  "one_waiting \<equiv> (1, [(0, first_waiting)])"

lemma one_received:
  "tq_receive (small_queue 5 3) 0 one_waiting =
    ((1, [(0, \<lparr>en_body = ''a'', en_visible = 5, en_received = 1\<rparr>), (0, first_waiting)]),
     Some \<lparr>msg_id = 0, msg_body = ''a''\<rparr>)"
  by (simp add: small_queue_def ready_def)

abbreviation one_taken :: "(nat \<times> (nat \<times> entry) list) pool_state" where
  "one_taken \<equiv> at_worker 0 (Processing \<lparr>msg_id = 0, msg_body = ''a''\<rparr> 0) (start_pool one_waiting 0)
     \<lparr>ps_queue := (1, [(0, \<lparr>en_body = ''a'', en_visible = 5, en_received = 1\<rparr>), (0, first_waiting)]),
      ps_started := [0]\<rparr>"

lemma one_taken_reached: "pool_run (small_queue 5 3) may (start_pool one_waiting 0) one_taken"
  using pool_step.receive [of "start_pool one_waiting 0" 0 "small_queue 5 3" _ _ may] one_received
  by (auto simp: start_pool_def worker_count_def at_worker_def intro!: r_into_rtranclp)

lemma jobs_run_once_in_time_witness:
  "count_list (ps_started one_taken) 0 \<le> Suc (count_list (ps_undeleted one_taken) 0) \<and>
   (\<exists>s'. pool_run (small_queue 5 3) (\<lambda>_ _. True) (start_pool one_waiting 0) s' \<and> ps_started s' = [0, 0])"
proof -
  have d: "dom (small_view one_waiting) = {..< fst one_waiting}" and v: "small_view one_waiting = [0 \<mapsto> first_waiting]"
    by (simp_all add: lessThan_Suc)
  have l: "timed_laws (small_queue 5 3) small_view fst 5 3" by (rule small_queue_laws) simp
  have "(1 :: nat) < 3" by simp
  from jobs_run_once_in_time [OF l this d one_taken_reached v]
  show ?thesis by (elim conjE exE) (intro conjI exI, erule spec, assumption+)
qed

end
