(* ===== verification/Markup.thy ===== *)
theory Markup
  imports GoLib
begin

text \<open>
  What the \<open>*_templ.go\<close> files do: a component writes literal markup and, between it, values through the
  templ library's escaping.  A component is the list of its pieces, in the order it writes them; the
  library is the parameter \<open>templ\<close>.  The second half is what a browser makes of the bytes: a reader for
  the part of HTML the pages use, and a check of where in the markup a piece stands.
\<close>

named_theorems reading "computing where literal markup ends"

subsection \<open>Components\<close>

datatype piece = Lit bytes | Esc bytes | Attr bytes | Href bytes

text \<open>The value of an attribute in \<open>templ.Attributes\<close>.\<close>

datatype attr_value = AStr bytes | ABool bool

text \<open>\<open>EscapeString\<close>, \<open>ResolveAttributeValue\<close> of a string and what it makes of a truth value first,
  \<open>JoinURLErrs\<close>, the classes of \<open>templ.Classes\<close> as one string, and \<open>RenderAttributes\<close>.  A \<open>Href\<close> is an attribute's value that is
  written with \<open>EscapeString\<close>.\<close>

record templ =
  tp_text :: "bytes \<Rightarrow> bytes"
  tp_attr :: "bytes \<Rightarrow> bytes"
  tp_bool :: "bool \<Rightarrow> bytes"
  tp_url :: "bytes \<Rightarrow> bytes"
  tp_classes :: "(bytes \<times> bool) list \<Rightarrow> bytes"
  tp_attributes :: "(bytes \<times> attr_value) list \<Rightarrow> piece list"

fun write_piece :: "templ \<Rightarrow> piece \<Rightarrow> bytes" where
  "write_piece T (Lit s) = s"
| "write_piece T (Esc v) = tp_text T v"
| "write_piece T (Attr v) = tp_attr T v"
| "write_piece T (Href v) = tp_text T v"

definition render :: "templ \<Rightarrow> piece list \<Rightarrow> bytes" where
  "render T ps = concat (map (write_piece T) ps)"

text \<open>\<open>html.EscapeString\<close>: five characters are written as references, every other as it is.\<close>

definition html_escape_char :: "char \<Rightarrow> bytes" where
  "html_escape_char c =
     (if c = CHR ''<'' then ''&lt;'' else if c = CHR ''>'' then ''&gt;'' else if c = CHR ''&'' then ''&amp;''
      else if c = CHR 0x27 then ''&#39;'' else if c = CHR 0x22 then ''&#34;'' else [c])"

definition html_escape :: "bytes \<Rightarrow> bytes" where
  "html_escape s = concat (map html_escape_char s)"

text \<open>templ's documented escaping of text and of attribute values.\<close>

definition templ_escapes :: "templ \<Rightarrow> bool" where
  "templ_escapes T \<longleftrightarrow> (\<forall>v. tp_text T v = html_escape v) \<and> (\<forall>v. tp_attr T v = html_escape v)"

text \<open>Characters outside ASCII, in UTF-8.\<close>

abbreviation (input) u_dbl :: bytes where "u_dbl \<equiv> [CHR 0xE2, CHR 0x95, CHR 0x90]"
abbreviation (input) u_line :: bytes where "u_line \<equiv> [CHR 0xE2, CHR 0x94, CHR 0x80]"
abbreviation (input) u_dot :: bytes where "u_dot \<equiv> [CHR 0xC2, CHR 0xB7]"
abbreviation (input) u_dash :: bytes where "u_dash \<equiv> [CHR 0xE2, CHR 0x80, CHR 0x94]"
abbreviation (input) u_dots :: bytes where "u_dots \<equiv> [CHR 0xE2, CHR 0x80, CHR 0xA6]"
abbreviation (input) newline :: bytes where "newline \<equiv> [CHR 0x0A]"
abbreviation (input) tab :: bytes where "tab \<equiv> [CHR 0x09]"
abbreviation (input) apos :: bytes where "apos \<equiv> [CHR 0x27]"
abbreviation (input) bslash :: bytes where "bslash \<equiv> [CHR 0x5C]"
abbreviation (input) js_empty :: bytes where "js_empty \<equiv> [CHR 0x27, CHR 0x27]"
abbreviation (input) u_arrow :: bytes where "u_arrow \<equiv> [CHR 0xE2, CHR 0x86, CHR 0x92]"
abbreviation (input) u_hook :: bytes where "u_hook \<equiv> [CHR 0xE2, CHR 0x86, CHR 0xB3]"
abbreviation (input) u_cross :: bytes where "u_cross \<equiv> [CHR 0xE2, CHR 0x9C, CHR 0x95]"

definition nl :: "nat \<Rightarrow> bytes" where
  "nl n = CHR 0x0A # replicate n (CHR 0x09)"

definition rep :: "nat \<Rightarrow> bytes \<Rightarrow> bytes" where
  "rep n s = concat (replicate n s)"

fun snoc :: "bytes \<Rightarrow> char \<Rightarrow> bytes" where
  "snoc [] c = [c]"
| "snoc (x # xs) c = x # snoc xs c"

lemma snoc_append: "snoc xs c = xs @ [c]"
  by (induction xs) simp_all

subsection \<open>Reading markup\<close>

text \<open>
  Where the reader stands.  In a tag it carries the tag's name, because the content of \<open>script\<close> and
  \<open>style\<close> ends with its own end tag only.  A reference under way is carried as far as it has been read.
  \<open>Broken\<close> is everything the reader does not know.
\<close>

datatype mode =
    Data
  | DataRef bytes
  | TagOpen
  | TagName bytes
  | InTag bytes
  | AttrName bytes
  | AfterEq bytes
  | Val bytes
  | ValRef bytes bytes
  | SingleVal bytes
  | ValEnd bytes
  | EndName
  | Decl bytes
  | Comment bytes
  | Raw bytes bytes
  | Broken

text \<open>What it has read: a character of text, of a tag's or an attribute's name or of a value, the beginning
  of an attribute and the ends of tags.\<close>

datatype mark =
    TextC char
  | TagC char
  | NameStart
  | NameC char
  | ValC char
  | TagEnd
  | EndC char
  | EndTagEnd
  | RawC char

definition char_ref :: "bytes \<Rightarrow> char option" where
  "char_ref r = map_of [(''lt'', CHR ''<''), (''gt'', CHR ''>''), (''amp'', CHR ''&''), (''quot'', CHR 0x22),
     (''#34'', CHR 0x22), (''#39'', CHR 0x27)] r"

definition is_space :: "char \<Rightarrow> bool" where
  "is_space c \<longleftrightarrow> c = CHR '' '' \<or> c = CHR 0x0A \<or> c = CHR 0x09"

definition letter :: "char \<Rightarrow> bool" where
  "letter c \<longleftrightarrow> c \<in> set ''abcdefghijklmnopqrstuvwxyzABCDEFGHIJKLMNOPQRSTUVWXYZ''"

definition ref_end :: "char \<Rightarrow> bool" where
  "ref_end c \<longleftrightarrow> c \<in> {CHR ''<'', CHR ''&'', CHR 0x22, CHR 0x27, CHR ''='', CHR '' '', CHR ''('', CHR '')'', CHR 0x0A}"

text \<open>After a start tag.\<close>

definition content_of :: "bytes \<Rightarrow> mode" where
  "content_of n = (if n = ''script'' \<or> n = ''style'' then Raw n [] else Data)"

definition in_data :: "char \<Rightarrow> mode \<times> mark list" where
  "in_data c = (if c = CHR ''<'' then (TagOpen, []) else if c = CHR ''&'' then (DataRef [], []) else (Data, [TextC c]))"

definition in_val :: "bytes \<Rightarrow> char \<Rightarrow> mode \<times> mark list" where
  "in_val n c = (if c = CHR 0x22 then (ValEnd n, []) else if c = CHR ''&'' then (ValRef n [], []) else (Val n, [ValC c]))"

definition in_tag :: "bytes \<Rightarrow> char \<Rightarrow> mode \<times> mark list" where
  "in_tag n c = (if is_space c \<or> c = CHR ''/'' then (InTag n, []) else if c = CHR ''>'' then (content_of n, [TagEnd])
     else (AttrName n, [NameStart, NameC c]))"

definition emit_first :: "mark list \<Rightarrow> mode \<times> mark list \<Rightarrow> mode \<times> mark list" where
  "emit_first ms r = (fst r, ms @ snd r)"

text \<open>A comment ends with \<open>-->\<close>, a raw text with its end tag; both keep as much of the end as has been read.\<close>

definition in_comment :: "bytes \<Rightarrow> char \<Rightarrow> mode \<times> mark list" where
  "in_comment k c = (if c = CHR ''-'' then (Comment (if k = ''--'' then k else snoc k c), [])
     else if c = CHR ''>'' \<and> k = ''--'' then (Data, []) else (Comment [], []))"

definition raw_end :: "bytes \<Rightarrow> bytes" where "raw_end n = CHR ''<'' # CHR ''/'' # snoc n (CHR ''>'')"

definition in_raw :: "bytes \<Rightarrow> bytes \<Rightarrow> char \<Rightarrow> mode \<times> mark list" where
  "in_raw n k c =
     (if k = [] then if c = CHR ''<'' then (Raw n ''<'', []) else (Raw n [], [RawC c])
      else if snoc k c = raw_end n then (Data, map EndC n @ [EndTagEnd])
      else if take (length k + 1) (raw_end n) = snoc k c then (Raw n (snoc k c), [])
      else if c = CHR ''<'' then (Raw n ''<'', map RawC k)
      else (Raw n [], map RawC (snoc k c)))"

fun react :: "mode \<Rightarrow> char \<Rightarrow> mode \<times> mark list" where
  "react Data c = in_data c"
| "react (DataRef r) c =
     (if c = CHR '';'' then (Data, case char_ref r of Some d \<Rightarrow> [TextC d] | None \<Rightarrow> map TextC (''&'' @ r @ '';''))
      else if ref_end c then emit_first (map TextC (''&'' @ r)) (in_data c) else (DataRef (snoc r c), []))"
| "react TagOpen c = (if c = CHR ''/'' then (EndName, []) else if c = CHR ''!'' then (Decl [], [])
     else if letter c then (TagName [c], [TagC c]) else (Broken, []))"
| "react (TagName n) c = (if is_space c \<or> c = CHR ''/'' then (InTag n, []) else if c = CHR ''>'' then (content_of n, [TagEnd])
     else (TagName (snoc n c), [TagC c]))"
| "react (InTag n) c = in_tag n c"
| "react (AttrName n) c = (if c = CHR ''='' then (AfterEq n, [])
     else if is_space c \<or> c = CHR ''/'' \<or> c = CHR ''>'' then in_tag n c else (AttrName n, [NameC c]))"
| "react (AfterEq n) c = (if c = CHR 0x22 then (Val n, []) else if c = CHR 0x27 then (SingleVal n, []) else (Broken, []))"
| "react (SingleVal n) c = (if c = CHR 0x27 then (ValEnd n, []) else (SingleVal n, [ValC c]))"
| "react (Val n) c = in_val n c"
| "react (ValRef n r) c =
     (if c = CHR '';'' then (Val n, case char_ref r of Some d \<Rightarrow> [ValC d] | None \<Rightarrow> map ValC (''&'' @ r @ '';''))
      else if ref_end c then emit_first (map ValC (''&'' @ r)) (in_val n c) else (ValRef n (snoc r c), []))"
| "react (ValEnd n) c = (if is_space c \<or> c = CHR ''/'' \<or> c = CHR ''>'' then in_tag n c else (Broken, []))"
| "react EndName c = (if c = CHR ''>'' then (Data, [EndTagEnd]) else (EndName, [EndC c]))"
| "react (Decl k) c = (if snoc k c = ''--'' then (Comment [], []) else if c = CHR ''>'' then (Data, [])
     else if k = [] \<and> c = CHR ''-'' then (Decl [c], []) else (Decl ''d'', []))"
| "react (Comment k) c = in_comment k c"
| "react (Raw n k) c = in_raw n k c"
| "react Broken c = (Broken, [])"

fun ends :: "mode \<Rightarrow> bytes \<Rightarrow> mode" where
  "ends m [] = m"
| "ends m (c # cs) = ends (fst (react m c)) cs"

fun read_of :: "mode \<Rightarrow> bytes \<Rightarrow> mark list" where
  "read_of m [] = []"
| "read_of m (c # cs) = snd (react m c) @ read_of (fst (react m c)) cs"

lemma ends_append [simp]: "ends m (xs @ ys) = ends (ends m xs) ys"
  by (induction xs arbitrary: m) simp_all

lemma read_of_append [simp]: "read_of m (xs @ ys) = read_of m xs @ read_of (ends m xs) ys"
  by (induction xs arbitrary: m) simp_all

subsection \<open>Where values stand\<close>

text \<open>The check of a component: a text stands in text, an attribute's value in a quoted value, and the
  markup before leads there whatever the values are.\<close>

fun flow :: "mode \<Rightarrow> piece list \<Rightarrow> mode" where
  "flow m [] = m"
| "flow m (Lit s # ps) = flow (ends m s) ps"
| "flow m (Esc v # ps) = flow (if m = Data then Data else Broken) ps"
| "flow m (Attr v # ps) = flow (case m of Val n \<Rightarrow> m | _ \<Rightarrow> Broken) ps"
| "flow m (Href v # ps) = flow (case m of Val n \<Rightarrow> m | _ \<Rightarrow> Broken) ps"

text \<open>What the component means: the values themselves where they stand.\<close>

fun meaning :: "mode \<Rightarrow> piece list \<Rightarrow> mark list" where
  "meaning m [] = []"
| "meaning m (Lit s # ps) = read_of m s @ meaning (ends m s) ps"
| "meaning m (Esc v # ps) = map TextC v @ meaning m ps"
| "meaning m (Attr v # ps) = map ValC v @ meaning m ps"
| "meaning m (Href v # ps) = map ValC v @ meaning m ps"

lemma ends_Broken [simp]: "ends Broken s = Broken"
  by (induction s) simp_all

lemma flow_Broken [simp]: "flow Broken ps = Broken"
proof (induction ps)
  case (Cons p ps)
  then show ?case by (cases p) simp_all
qed simp

lemma flow_append [simp]: "flow m (ps @ qs) = flow (flow m ps) qs"
  by (induction m ps rule: flow.induct) simp_all

lemma flow_if [simp]: "flow m (if b then ps else qs) = (if b then flow m ps else flow m qs)"
  by simp

lemma meaning_append: "flow m ps \<noteq> Broken \<Longrightarrow> meaning m (ps @ qs) = meaning m ps @ meaning (flow m ps) qs"
  by (induction m ps rule: flow.induct) (auto split: if_splits mode.splits)

lemma flow_concat: "(\<And>x. x \<in> set xs \<Longrightarrow> flow Data (f x) = Data) \<Longrightarrow> flow Data (concat (map f xs)) = Data"
  by (induction xs) simp_all

lemma meaning_concat:
  "(\<And>x. x \<in> set xs \<Longrightarrow> flow Data (f x) = Data) \<Longrightarrow>
    meaning Data (concat (map f xs)) = concat (map (\<lambda>x. meaning Data (f x)) xs)"
  by (induction xs) (simp_all add: meaning_append)

lemma escaped_char:
  "ends Data (html_escape_char c) = Data" "read_of Data (html_escape_char c) = [TextC c]"
  "ends (Val n) (html_escape_char c) = Val n" "read_of (Val n) (html_escape_char c) = [ValC c]"
  by (simp_all add: html_escape_char_def in_data_def in_val_def ref_end_def char_ref_def)

lemma escaped_text [simp]: "ends Data (html_escape v) = Data" "read_of Data (html_escape v) = map TextC v"
  by (induction v) (simp_all add: html_escape_def escaped_char)

lemma escaped_value [simp]: "ends (Val n) (html_escape v) = Val n" "read_of (Val n) (html_escape v) = map ValC v"
  by (induction v) (simp_all add: html_escape_def escaped_char)

lemma render_simps [simp]:
  "render T [] = []" "render T (p # ps) = write_piece T p @ render T ps" "render T (ps @ qs) = render T ps @ render T qs"
  by (simp_all add: render_def)

text \<open>A component that passes the check is read as it is meant.\<close>

lemma flow_sound:
  assumes "templ_escapes T"
  shows "flow m ps \<noteq> Broken \<Longrightarrow> ends m (render T ps) = flow m ps \<and> read_of m (render T ps) = meaning m ps"
proof (induction m ps rule: flow.induct)
  case (3 m v ps)
  then have "m = Data" by (auto split: if_splits)
  with 3 show ?case using assms by (simp add: templ_escapes_def)
next
  case (4 m v ps)
  then obtain n where "m = Val n" by (cases m) auto
  with 4 show ?case using assms by (simp add: templ_escapes_def)
next
  case (5 m v ps)
  then obtain n where "m = Val n" by (cases m) auto
  with 5 show ?case using assms by (simp add: templ_escapes_def)
qed simp_all


text \<open>The rules that compute where literal markup ends.\<close>

lemma ends_step [reading]:
  "ends Data (c # cs) = (if c = CHR ''<'' then ends TagOpen cs else if c = CHR ''&'' then ends (DataRef []) cs else ends Data cs)"
  "ends TagOpen (c # cs) = (if c = CHR ''/'' then ends EndName cs else if c = CHR ''!'' then ends (Decl []) cs
     else if letter c then ends (TagName [c]) cs else Broken)"
  "ends (TagName n) (c # cs) = (if c = CHR '' '' then ends (InTag n) cs else if c = CHR ''>'' then ends (content_of n) cs
     else if c = CHR ''/'' \<or> is_space c then ends (InTag n) cs else ends (TagName (snoc n c)) cs)"
  "ends (InTag n) (c # cs) = (if is_space c \<or> c = CHR ''/'' then ends (InTag n) cs
     else if c = CHR ''>'' then ends (content_of n) cs else ends (AttrName n) cs)"
  "ends (AttrName n) (c # cs) = (if c = CHR ''='' then ends (AfterEq n) cs
     else if is_space c \<or> c = CHR ''/'' then ends (InTag n) cs
     else if c = CHR ''>'' then ends (content_of n) cs else ends (AttrName n) cs)"
  "ends (AfterEq n) (c # cs) = (if c = CHR 0x22 then ends (Val n) cs else if c = CHR 0x27 then ends (SingleVal n) cs else Broken)"
  "ends (Val n) (c # cs) = (if c = CHR 0x22 then ends (ValEnd n) cs else if c = CHR ''&'' then ends (ValRef n []) cs else ends (Val n) cs)"
  "ends (SingleVal n) (c # cs) = (if c = CHR 0x27 then ends (ValEnd n) cs else ends (SingleVal n) cs)"
  "ends (ValEnd n) (c # cs) = (if is_space c \<or> c = CHR ''/'' then ends (InTag n) cs
     else if c = CHR ''>'' then ends (content_of n) cs else Broken)"
  "ends EndName (c # cs) = (if c = CHR ''>'' then ends Data cs else ends EndName cs)"
  "ends (DataRef k) (c # cs) = (if c = CHR '';'' then ends Data cs else if ref_end c then ends Data (c # cs) else ends (DataRef (snoc k c)) cs)"
  "ends (ValRef n k) (c # cs) = (if c = CHR '';'' then ends (Val n) cs else if ref_end c then ends (Val n) (c # cs) else ends (ValRef n (snoc k c)) cs)"
  "ends (Comment []) (c # cs) = (if c = CHR ''-'' then ends (Comment [c]) cs else ends (Comment []) cs)"
  "ends (Comment (d # ds)) (c # cs) = ends (fst (in_comment (d # ds) c)) cs"
  "ends (Decl k) (c # cs) = ends (fst (react (Decl k) c)) cs"
  "ends (Raw n []) (c # cs) = (if c = CHR ''<'' then ends (Raw n ''<'') cs else ends (Raw n []) cs)"
  "ends (Raw n (d # ds)) (c # cs) = ends (fst (in_raw n (d # ds) c)) cs"
  by (auto simp: in_data_def in_val_def in_tag_def in_raw_def in_comment_def emit_first_def is_space_def)

lemma nl_simps [reading]:
  "nl 0 = [CHR 0x0A]" "nl (Suc n) = snoc (nl n) (CHR 0x09)"
  by (simp_all add: nl_def snoc_append replicate_append_same)

lemma rep_simps [reading]: "rep 0 s = []" "rep (Suc n) s = s @ rep n s"
  by (simp_all add: rep_def)

lemmas [reading] = eval_nat_numeral content_of_def in_comment_def in_raw_def raw_end_def is_space_def ref_end_def letter_def

declare ends.simps(2) [simp del]

subsection \<open>Attributes\<close>

text \<open>What templ documents of \<open>RenderAttributes\<close>: the attributes one after another, a text in double quotes and
  escaped, a true one by its name only, a false one not at all; in some order.\<close>

fun attribute_pieces :: "bytes \<times> attr_value \<Rightarrow> piece list" where
  "attribute_pieces (n, AStr v) = [Lit (CHR '' '' # n @ [CHR ''='', CHR 0x22]), Attr v, Lit [CHR 0x22]]"
| "attribute_pieces (n, ABool b) = (if b then [Lit (CHR '' '' # n)] else [])"

definition templ_attributes :: "templ \<Rightarrow> bool" where
  "templ_attributes T \<longleftrightarrow> (\<forall>as. \<exists>bs. set bs = set as \<and> tp_attributes T as = concat (map attribute_pieces bs))"

definition plain_name :: "bytes \<Rightarrow> bool" where
  "plain_name n \<longleftrightarrow> n \<noteq> [] \<and> (\<forall>c \<in> set n. c \<noteq> CHR ''='' \<and> c \<noteq> CHR ''/'' \<and> c \<noteq> CHR ''>'' \<and> \<not> is_space c)"

text \<open>The modes in which a start tag may go on with an attribute or end.\<close>

fun tag_at :: "mode \<Rightarrow> bytes option" where
  "tag_at (TagName n) = Some n"
| "tag_at (InTag n) = Some n"
| "tag_at (AttrName n) = Some n"
| "tag_at (ValEnd n) = Some n"
| "tag_at _ = None"

lemma tag_at_cases:
  assumes "tag_at m = Some n"
  obtains "m = TagName n" | "m = InTag n" | "m = AttrName n" | "m = ValEnd n"
  using assms by (cases m) auto

lemma ends_tag:
  assumes "tag_at m = Some n"
  shows "ends m (CHR ''>'' # s) = ends (content_of n) s" and "ends m (CHR '' '' # s) = ends (InTag n) s"
  using assms by (auto elim!: tag_at_cases simp: reading)

lemma ends_name: "\<forall>c \<in> set k. c \<noteq> CHR ''='' \<and> c \<noteq> CHR ''/'' \<and> c \<noteq> CHR ''>'' \<and> \<not> is_space c \<Longrightarrow>
    ends (AttrName n) (k @ s) = ends (AttrName n) s"
  by (induction k) (auto simp: reading)

lemma ends_plain_name: "plain_name k \<Longrightarrow> ends (InTag n) (k @ s) = ends (AttrName n) s"
  using ends_name [of "tl k" n s] by (cases k) (auto simp: plain_name_def reading)

lemma tag_at_attribute:
  assumes "tag_at m = Some n" and "plain_name k"
  shows "tag_at (flow m (attribute_pieces (k, v))) = Some n"
  using assms ends_plain_name [OF assms(2), of n "[]"] ends_plain_name [OF assms(2), of n "[CHR ''='', CHR 0x22]"]
  by (cases v) (auto simp: ends_tag reading simp del: ends_append)

lemma tag_at_attributes:
  assumes "templ_attributes T" and "tag_at m = Some n" and "\<forall>(k, v) \<in> set as. plain_name k"
  shows "tag_at (flow m (tp_attributes T as)) = Some n"
proof -
  obtain bs where bs: "set bs = set as" "tp_attributes T as = concat (map attribute_pieces bs)"
    using assms(1) unfolding templ_attributes_def by blast
  have "tag_at (flow m (concat (map attribute_pieces bs))) = Some n"
    if "\<forall>(k, v) \<in> set bs. plain_name k" "tag_at m = Some n" for m
    using that by (induction bs arbitrary: m) (auto intro!: tag_at_attribute)
  then show ?thesis using bs assms(2,3) by simp
qed

subsection \<open>Markup and values\<close>

text \<open>The tags, the names of the attributes and the scripts: everything but texts and values.\<close>

fun own_markup :: "mark \<Rightarrow> bool" where
  "own_markup (TextC c) = False"
| "own_markup (ValC c) = False"
| "own_markup m = True"

fun blank :: "piece \<Rightarrow> piece" where
  "blank (Lit s) = Lit s"
| "blank (Esc v) = Esc []"
| "blank (Attr v) = Attr []"
| "blank (Href v) = Href []"

lemma no_own_markup [simp]:
  "filter own_markup (map TextC v) = []" "filter own_markup (map ValC v) = []"
  by (simp_all add: filter_empty_conv)

lemma meaning_blank: "filter own_markup (meaning m (map blank ps)) = filter own_markup (meaning m ps)"
  by (induction m ps rule: meaning.induct) simp_all

lemma flow_blank: "flow m (map blank ps) = flow m ps"
  by (induction m ps rule: flow.induct) simp_all

text \<open>So the values cannot change what tags a browser sees.\<close>

lemma values_add_no_markup:
  assumes "templ_escapes T" and "flow m ps \<noteq> Broken"
  shows "filter own_markup (read_of m (render T ps)) = filter own_markup (read_of m (render T (map blank ps)))"
  using flow_sound [OF assms] flow_sound [OF assms(1), of m "map blank ps"] assms(2)
  by (simp add: flow_blank meaning_blank)

end
