(* ===== verification/ElementIds.thy ===== *)
theory ElementIds
  imports Markup
begin

text \<open>
  The ids of the elements in what a browser has read, and a search for one id through a component that
  goes along with \<open>flow\<close>.  An event that patches the page names its target by an id.
\<close>

subsection \<open>Ids\<close>

text \<open>What is known of the attribute under way: nothing of interest, its name so far is a prefix of \<open>id\<close>,
  or it is an id with this value so far.\<close>

datatype attr_note = Other | Name0 | Name1 | Name2 | IdVal bytes

fun name_char :: "attr_note \<Rightarrow> char \<Rightarrow> attr_note" where
  "name_char Name0 c = (if c = CHR ''i'' then Name1 else Other)"
| "name_char Name1 c = (if c = CHR ''d'' then Name2 else Other)"
| "name_char _ c = Other"

fun val_char :: "attr_note \<Rightarrow> char \<Rightarrow> attr_note" where
  "val_char Name2 c = IdVal [c]"
| "val_char (IdVal v) c = IdVal (snoc v c)"
| "val_char _ c = Other"

fun done_with :: "attr_note \<Rightarrow> bytes list" where
  "done_with (IdVal v) = [v]"
| "done_with _ = []"

fun note_mark :: "attr_note \<Rightarrow> mark \<Rightarrow> attr_note" where
  "note_mark k NameStart = Name0"
| "note_mark k (NameC c) = name_char k c"
| "note_mark k (ValC c) = val_char k c"
| "note_mark k TagEnd = Other"
| "note_mark k _ = k"

fun ids_at :: "attr_note \<Rightarrow> mark \<Rightarrow> bytes list" where
  "ids_at k NameStart = done_with k"
| "ids_at k TagEnd = done_with k"
| "ids_at k _ = []"

primrec note_after :: "attr_note \<Rightarrow> mark list \<Rightarrow> attr_note" where
  "note_after k [] = k"
| "note_after k (x # xs) = note_after (note_mark k x) xs"

primrec ids_from :: "attr_note \<Rightarrow> mark list \<Rightarrow> bytes list" where
  "ids_from k [] = []"
| "ids_from k (x # xs) = ids_at k x @ ids_from (note_mark k x) xs"

definition element_ids :: "mark list \<Rightarrow> bytes list" where
  "element_ids ms = ids_from Other ms"

lemma note_after_append [simp]: "note_after k (xs @ ys) = note_after (note_after k xs) ys"
  by (induction xs arbitrary: k) simp_all

lemma ids_from_append [simp]: "ids_from k (xs @ ys) = ids_from k xs @ ids_from (note_after k xs) ys"
  by (induction xs arbitrary: k) simp_all

lemma texts_unnoticed [simp]:
  "note_after k (map TextC v) = k" "ids_from k (map TextC v) = []"
  "note_after k (map RawC v) = k" "ids_from k (map RawC v) = []"
  "note_after k (map EndC v) = k" "ids_from k (map EndC v) = []"
  "ids_from k (map ValC v) = []"
  by (induction v arbitrary: k) simp_all

definition val_note :: "attr_note \<Rightarrow> bytes \<Rightarrow> attr_note" where
  "val_note k v = note_after k (map ValC v)"

lemma val_note_simps [simp]:
  "val_note Other v = Other" "val_note k [] = k" "val_note (IdVal u) v = IdVal (u @ v)"
  "v \<noteq> [] \<Longrightarrow> val_note Name2 v = IdVal v" "v \<noteq> [] \<Longrightarrow> val_note Name1 v = Other" "v \<noteq> [] \<Longrightarrow> val_note Name0 v = Other"
proof -
  show o: "val_note Other v = Other" for v by (induction v) (simp_all add: val_note_def)
  show "val_note k [] = k" by (simp add: val_note_def)
  show i: "val_note (IdVal u) v = IdVal (u @ v)" for u v
    by (induction v arbitrary: u) (simp_all add: val_note_def snoc_append)
  show "v \<noteq> [] \<Longrightarrow> val_note Name2 v = IdVal v" using i [of "[hd v]" "tl v"] by (cases v) (simp_all add: val_note_def)
  show "v \<noteq> [] \<Longrightarrow> val_note Name1 v = Other" using o [of "tl v"] by (cases v) (simp_all add: val_note_def)
  show "v \<noteq> [] \<Longrightarrow> val_note Name0 v = Other" using o [of "tl v"] by (cases v) (simp_all add: val_note_def)
qed

subsection \<open>A search that goes along with the check\<close>

definition hit :: "bytes \<Rightarrow> attr_note \<Rightarrow> bool" where
  "hit i k \<longleftrightarrow> i \<in> set (done_with k)"

lemma hit_simps [simp]: "hit i (IdVal v) = (i = v)" "\<not> hit i Other" "\<not> hit i Name0" "\<not> hit i Name1" "\<not> hit i Name2"
  by (auto simp: hit_def)

fun seek_lit :: "bytes \<Rightarrow> mode \<times> attr_note \<times> bool \<Rightarrow> bytes \<Rightarrow> mode \<times> attr_note \<times> bool" where
  "seek_lit i (m, k, b) [] = (m, k, b)"
| "seek_lit i (m, k, b) (c # cs) = seek_lit i (fst (react m c), note_after k (snd (react m c)), b \<or> i \<in> set (ids_from k (snd (react m c)))) cs"

fun seek :: "bytes \<Rightarrow> mode \<times> attr_note \<times> bool \<Rightarrow> piece list \<Rightarrow> mode \<times> attr_note \<times> bool" where
  "seek i st [] = st"
| "seek i (m, k, b) (Lit s # ps) = seek i (seek_lit i (m, k, b) s) ps"
| "seek i (m, k, b) (Esc v # ps) = seek i (if m = Data then Data else Broken, k, b) ps"
| "seek i (m, k, b) (Attr v # ps) = seek i (case m of Val n \<Rightarrow> (Val n, val_note k v, b) | _ \<Rightarrow> (Broken, k, b)) ps"
| "seek i (m, k, b) (Href v # ps) = seek i (case m of Val n \<Rightarrow> (Val n, val_note k v, b) | _ \<Rightarrow> (Broken, k, b)) ps"

lemma seek_append [simp]: "seek i st (ps @ qs) = seek i (seek i st ps) qs"
proof (induction ps arbitrary: st)
  case (Cons p ps)
  then show ?case by (cases st; cases p) simp_all
qed simp

lemma seek_if [simp]: "seek i st (if c then ps else qs) = (if c then seek i st ps else seek i st qs)"
  by simp

lemma seek_lit_is: "seek_lit i (m, k, b) s = (ends m s, note_after k (read_of m s), b \<or> i \<in> set (ids_from k (read_of m s)))"
  by (induction i "(m, k, b)" s arbitrary: m k b rule: seek_lit.induct) (auto simp: ends.simps(2))

lemma seek_lit_append [simp]:
  "seek_lit i st (s @ t) = seek_lit i (seek_lit i st s) t"
  by (cases st) (simp add: seek_lit_is disj_assoc)

text \<open>The search finds what is read.\<close>

lemma seek_is: "flow m ps \<noteq> Broken \<Longrightarrow>
    seek i (m, k, b) ps = (flow m ps, note_after k (meaning m ps), b \<or> i \<in> set (ids_from k (meaning m ps)))"
proof (induction m ps arbitrary: k b rule: flow.induct)
  case (2 m s ps)
  then show ?case by (simp add: seek_lit_is disj_assoc)
next
  case (3 m v ps)
  then show ?case by (auto split: if_splits)
next
  case (4 m v ps)
  then obtain n where "m = Val n" by (cases m) auto
  with 4 show ?case by (simp add: val_note_def)
next
  case (5 m v ps)
  then obtain n where "m = Val n" by (cases m) auto
  with 5 show ?case by (simp add: val_note_def)
qed simp_all

text \<open>Outside of a start tag there is no attribute under way.\<close>

fun tagless :: "mode \<Rightarrow> bool" where
  "tagless Data = True"
| "tagless (DataRef r) = True"
| "tagless TagOpen = True"
| "tagless (TagName n) = True"
| "tagless EndName = True"
| "tagless (Decl r) = True"
| "tagless (Comment d) = True"
| "tagless (Raw n d) = True"
| "tagless _ = False"

lemma react_tagless: "(tagless m \<longrightarrow> k = Other) \<Longrightarrow> tagless (fst (react m c)) \<Longrightarrow> note_after k (snd (react m c)) = Other"
  by (cases m) (auto simp: in_data_def in_val_def in_tag_def in_raw_def in_comment_def emit_first_def simp del: map_append split: if_splits option.splits)

lemma read_tagless: "(tagless m \<longrightarrow> k = Other) \<Longrightarrow> tagless (ends m s) \<Longrightarrow> note_after k (read_of m s) = Other"
  by (induction s arbitrary: m k) (auto simp: ends.simps(2) intro: react_tagless)

lemma meaning_tagless:
  "flow m ps \<noteq> Broken \<Longrightarrow> (tagless m \<longrightarrow> k = Other) \<Longrightarrow> tagless (flow m ps) \<Longrightarrow> note_after k (meaning m ps) = Other"
proof (induction m ps arbitrary: k rule: flow.induct)
  case (2 m s ps)
  then show ?case by (auto intro: read_tagless)
next
  case (3 m v ps)
  then show ?case by (auto split: if_splits)
next
  case (4 m v ps)
  then obtain n where "m = Val n" by (cases m) auto
  with 4 show ?case by simp
next
  case (5 m v ps)
  then obtain n where "m = Val n" by (cases m) auto
  with 5 show ?case by simp
qed simp

definition has_id :: "bytes \<Rightarrow> piece list \<Rightarrow> bool" where
  "has_id i ps \<longleftrightarrow> i \<in> set (element_ids (meaning Data ps))"

lemma seek_component:
  assumes "flow Data ps = Data"
  shows "seek i (Data, Other, b) ps = (Data, Other, b \<or> has_id i ps)"
  using seek_is [of Data ps i Other b] meaning_tagless [of Data ps Other] assms
  by (simp add: has_id_def element_ids_def)

lemma seek_concat:
  "(\<And>x. x \<in> set xs \<Longrightarrow> seek i (Data, Other, b) (f x) = (Data, Other, b)) \<Longrightarrow>
    seek i (Data, Other, b) (concat (map f xs)) = (Data, Other, b)"
  by (induction xs) simp_all

lemma has_id_seek: "flow Data ps = Data \<Longrightarrow> has_id i ps \<longleftrightarrow> snd (snd (seek i (Data, Other, False) ps))"
  by (simp add: seek_component)

text \<open>The rules that compute a search through literal markup.\<close>

named_theorems seeking "searching literal markup for an id"

lemma values_noticed [simp]: "note_after Other (map ValC v) = Other"
  using val_note_simps(1) by (simp add: val_note_def)

lemma seek_step [seeking]:
  "seek_lit i (Data, k, b) (c # cs) = (if c = CHR ''<'' then seek_lit i (TagOpen, k, b) cs else if c = CHR ''&'' then seek_lit i (DataRef [], k, b) cs
     else seek_lit i (Data, k, b) cs)"
  "seek_lit i (TagOpen, k, b) (c # cs) = (if c = CHR ''/'' then seek_lit i (EndName, k, b) cs else if c = CHR ''!'' then seek_lit i (Decl [], k, b) cs
     else if letter c then seek_lit i (TagName [c], k, b) cs else seek_lit i (Broken, k, b) cs)"
  "seek_lit i (TagName n, k, b) (c # cs) = (if c = CHR '' '' then seek_lit i (InTag n, k, b) cs
     else if c = CHR ''>'' then seek_lit i (content_of n, Other, b \<or> hit i k) cs
     else if c = CHR ''/'' \<or> is_space c then seek_lit i (InTag n, k, b) cs else seek_lit i (TagName (snoc n c), k, b) cs)"
  "seek_lit i (InTag n, k, b) (c # cs) = (if is_space c \<or> c = CHR ''/'' then seek_lit i (InTag n, k, b) cs
     else if c = CHR ''>'' then seek_lit i (content_of n, Other, b \<or> hit i k) cs
     else seek_lit i (AttrName n, name_char Name0 c, b \<or> hit i k) cs)"
  "seek_lit i (AttrName n, k, b) (c # cs) = (if c = CHR ''='' then seek_lit i (AfterEq n, k, b) cs
     else if is_space c \<or> c = CHR ''/'' then seek_lit i (InTag n, k, b) cs
     else if c = CHR ''>'' then seek_lit i (content_of n, Other, b \<or> hit i k) cs else seek_lit i (AttrName n, name_char k c, b) cs)"
  "seek_lit i (AfterEq n, k, b) (c # cs) = (if c = CHR 0x22 then seek_lit i (Val n, k, b) cs
     else if c = CHR 0x27 then seek_lit i (SingleVal n, k, b) cs else seek_lit i (Broken, k, b) cs)"
  "seek_lit i (Val n, Other, b) (c # cs) = (if c = CHR 0x22 then seek_lit i (ValEnd n, Other, b) cs
     else if c = CHR ''&'' then seek_lit i (ValRef n [], Other, b) cs else seek_lit i (Val n, Other, b) cs)"
  "seek_lit i (SingleVal n, Other, b) (c # cs) = (if c = CHR 0x27 then seek_lit i (ValEnd n, Other, b) cs else seek_lit i (SingleVal n, Other, b) cs)"
  "seek_lit i (ValEnd n, k, b) (c # cs) = (if is_space c \<or> c = CHR ''/'' then seek_lit i (InTag n, k, b) cs
     else if c = CHR ''>'' then seek_lit i (content_of n, Other, b \<or> hit i k) cs else seek_lit i (Broken, k, b) cs)"
  "seek_lit i (EndName, k, b) (c # cs) = (if c = CHR ''>'' then seek_lit i (Data, k, b) cs else seek_lit i (EndName, k, b) cs)"
  "seek_lit i (DataRef r, k, b) (c # cs) = (if c = CHR '';'' then seek_lit i (Data, k, b) cs
     else if ref_end c then seek_lit i (Data, k, b) (c # cs) else seek_lit i (DataRef (snoc r c), k, b) cs)"
  "seek_lit i (ValRef n r, Other, b) (c # cs) = (if c = CHR '';'' then seek_lit i (Val n, Other, b) cs
     else if ref_end c then seek_lit i (Val n, Other, b) (c # cs) else seek_lit i (ValRef n (snoc r c), Other, b) cs)"
  "seek_lit i (Comment [], k, b) (c # cs) = (if c = CHR ''-'' then seek_lit i (Comment [c], k, b) cs else seek_lit i (Comment [], k, b) cs)"
  "seek_lit i (Comment (d # ds), k, b) (c # cs) = seek_lit i (fst (in_comment (d # ds) c), k, b) cs"
  "seek_lit i (Decl r, k, b) (c # cs) = seek_lit i (fst (react (Decl r) c), k, b) cs"
  "seek_lit i (Raw n [], k, b) (c # cs) = (if c = CHR ''<'' then seek_lit i (Raw n ''<'', k, b) cs else seek_lit i (Raw n [], k, b) cs)"
  "seek_lit i (Raw n (d # ds), k, b) (c # cs) = seek_lit i (fst (in_raw n (d # ds) c), k, b) cs"
  by (auto simp: in_data_def in_val_def in_tag_def in_raw_def in_comment_def emit_first_def is_space_def hit_def
      simp del: map_append list.map split: option.splits)

lemma seek_value_start [seeking]:
  assumes "c \<noteq> CHR ''&''"
  shows "seek_lit i (Val n, Name0, b) (c # cs) = (if c = CHR 0x22 then seek_lit i (ValEnd n, Name0, b) cs else seek_lit i (Val n, Other, b) cs)"
    "seek_lit i (Val n, Name1, b) (c # cs) = (if c = CHR 0x22 then seek_lit i (ValEnd n, Name1, b) cs else seek_lit i (Val n, Other, b) cs)"
    "seek_lit i (Val n, Name2, b) (c # cs) = (if c = CHR 0x22 then seek_lit i (ValEnd n, Name2, b) cs else seek_lit i (Val n, IdVal [c], b) cs)"
    "seek_lit i (Val n, IdVal v, b) (c # cs) = (if c = CHR 0x22 then seek_lit i (ValEnd n, IdVal v, b) cs
       else seek_lit i (Val n, IdVal (snoc v c), b) cs)"
  using assms by (simp_all add: in_val_def)

declare seek_lit.simps(2) [simp del]

subsection \<open>Finding an id in a part\<close>

lemma seek_lit_keeps: "b \<Longrightarrow> snd (snd (seek_lit i (m, k, b) s))"
  by (simp add: seek_lit_is)

lemma seek_keeps: "snd (snd st) \<Longrightarrow> snd (snd (seek i st ps))"
proof (induction i st ps rule: seek.induct)
  case (2 i m k b s ps)
  then show ?case using seek_lit_keeps by simp
qed (auto split: mode.splits)

definition offers :: "bytes \<Rightarrow> piece list \<Rightarrow> bool" where
  "offers i ps \<longleftrightarrow> (flow Data ps = Data \<longrightarrow> has_id i ps)"

lemma offers_left: "flow Data ps = Data \<Longrightarrow> offers i ps \<Longrightarrow> offers i (ps @ qs)"
  using seek_keeps [of "seek i (Data, Other, False) ps" i qs] by (simp add: offers_def has_id_seek)

lemma offers_right: "flow Data ps = Data \<Longrightarrow> offers i qs \<Longrightarrow> offers i (ps @ qs)"
  using seek_keeps [of "(Data, Other, has_id i ps)" i qs] seek_component [of ps i False]
  by (cases "has_id i ps") (auto simp: offers_def has_id_seek [of "ps @ qs"] has_id_seek [of qs])

lemma offers_literal: "snd (snd (seek_lit i (Data, Other, False) s)) \<Longrightarrow> offers i (Lit s # ps)"
  using seek_keeps [of "seek_lit i (Data, Other, False) s" i ps] by (simp add: offers_def has_id_seek)

lemma offersD: "offers i ps \<Longrightarrow> flow Data ps = Data \<Longrightarrow> has_id i ps"
  by (simp add: offers_def)

subsection \<open>Spread attributes\<close>

text \<open>Attributes of other names leave the search where it is.\<close>

definition name_note :: "bytes \<Rightarrow> attr_note" where
  "name_note a = foldl name_char Name0 a"

fun settled :: "attr_note \<Rightarrow> bool" where
  "settled (IdVal v) = False"
| "settled _ = True"

lemma settled_no_hit [simp]: "settled k \<Longrightarrow> \<not> hit i k"
  by (cases k) simp_all

lemma foldl_name: "foldl name_char Other a = Other" "foldl name_char Name2 a \<in> {Name2, Other}"
  "foldl name_char Name2 a = Name2 \<longleftrightarrow> a = []"
  "foldl name_char Name1 a = Name2 \<longleftrightarrow> a = ''d''" "foldl name_char Name1 a \<in> {Name1, Name2, Other}"
proof -
  show o: "foldl name_char Other a = Other" for a by (induction a) simp_all
  show "foldl name_char Name2 a \<in> {Name2, Other}" "foldl name_char Name2 a = Name2 \<longleftrightarrow> a = []"
    "foldl name_char Name1 a = Name2 \<longleftrightarrow> a = ''d''" "foldl name_char Name1 a \<in> {Name1, Name2, Other}"
    by (cases a; cases "tl a"; simp add: o)+
qed

lemma name_note_is: "name_note a \<in> {Name0, Name1, Name2, Other}" "name_note a = Name2 \<longleftrightarrow> a = ''id''"
proof -
  have "name_note a = (if a = [] then Name0 else if hd a = CHR ''i'' then foldl name_char Name1 (tl a) else Other)"
    by (cases a) (simp_all add: name_note_def foldl_name(1))
  then show "name_note a \<in> {Name0, Name1, Name2, Other}" "name_note a = Name2 \<longleftrightarrow> a = ''id''"
    using foldl_name(4,5) [of "tl a"] by (cases a; auto)+
qed

lemma seek_name_rest: "\<forall>c \<in> set a. c \<noteq> CHR ''='' \<and> c \<noteq> CHR ''/'' \<and> c \<noteq> CHR ''>'' \<and> \<not> is_space c \<Longrightarrow>
    seek_lit i (AttrName n, k, b) (a @ s) = seek_lit i (AttrName n, foldl name_char k a, b) s"
  by (induction a arbitrary: k) (simp_all add: seeking del: seek_lit_append)

lemma seek_name:
  assumes "plain_name a" and "settled k"
  shows "seek_lit i (InTag n, k, b) (a @ s) = seek_lit i (AttrName n, name_note a, b) s"
  using assms seek_name_rest [of "tl a" i n "name_char Name0 (hd a)" b s]
  by (cases a) (auto simp: plain_name_def name_note_def seeking simp del: seek_lit_append)

lemma seek_space:
  assumes "tag_at m = Some n"
  shows "seek_lit i (m, k, b) (CHR '' '' # s) = seek_lit i (InTag n, k, b) s"
  using assms by (auto elim!: tag_at_cases simp: seeking is_space_def)

lemma seek_close:
  assumes "tag_at m = Some n" and "settled k"
  shows "seek_lit i (m, k, b) (CHR ''>'' # s) = seek_lit i (content_of n, Other, b) s"
  using assms by (auto elim!: tag_at_cases simp: seeking is_space_def)

lemma seek_attribute:
  assumes "tag_at m = Some n" and "settled k" and "plain_name a" and "a \<noteq> ''id''"
  shows "\<exists>m' k'. seek i (m, k, b) (attribute_pieces (a, v)) = (m', k', b) \<and> tag_at m' = Some n \<and> settled k'"
proof (cases v)
  case (AStr w)
  have k: "name_note a \<in> {Name0, Name1, Other}" using name_note_is [of a] assms(4) by auto
  have "seek_lit i (m, k, b) (CHR '' '' # a @ [CHR ''='', CHR 0x22]) = (Val n, name_note a, b)"
    using assms by (simp add: seek_space seek_name seeking is_space_def del: seek_lit_append)
  moreover have "settled (val_note (name_note a) w)"
      and v: "val_note (name_note a) w \<in> {Name0, Name1, Other}"
    using k by (cases "w = []"; auto)+
  moreover have "seek_lit i (Val n, val_note (name_note a) w, b) [CHR 0x22] = (ValEnd n, val_note (name_note a) w, b)"
    using v by (elim insertE emptyE; simp add: seek_value_start seek_step)
  ultimately show ?thesis using AStr by simp
next
  case (ABool t)
  have "seek_lit i (m, k, b) (CHR '' '' # a) = (AttrName n, name_note a, b)"
    using assms seek_name [of a k i n b "[]"] by (simp add: seek_space)
  then show ?thesis using ABool assms name_note_is(1) [of a] by auto
qed

lemma seek_attributes:
  assumes "templ_attributes T" and "\<forall>(a, v) \<in> set as. plain_name a \<and> a \<noteq> ''id''" and "tag_at m = Some n" and "settled k"
  obtains m' k' where "seek i (m, k, b) (tp_attributes T as) = (m', k', b)" "tag_at m' = Some n" "settled k'"
proof -
  obtain bs where bs: "set bs = set as" "tp_attributes T as = concat (map attribute_pieces bs)"
    using assms(1) unfolding templ_attributes_def by blast
  have run: "\<exists>m' k'. seek i (m, k, b) (concat (map attribute_pieces bs)) = (m', k', b) \<and> tag_at m' = Some n \<and> settled k'"
    if "\<forall>(a, v) \<in> set bs. plain_name a \<and> a \<noteq> ''id''" "tag_at m = Some n" "settled k" for m k
    using that
  proof (induction bs arbitrary: m k)
    case (Cons p bs)
    obtain a v where p: "p = (a, v)" by (cases p)
    obtain m1 k1 where "seek i (m, k, b) (attribute_pieces p) = (m1, k1, b)" "tag_at m1 = Some n" "settled k1"
      using seek_attribute [of m n k a i b v] Cons.prems p by auto
    then show ?case using Cons.IH [of m1 k1] Cons.prems by simp
  qed simp
  have "\<forall>(a, v) \<in> set bs. plain_name a \<and> a \<noteq> ''id''" using assms(2) bs(1) by simp
  from run [OF this assms(3,4)] show ?thesis using that bs(2) by auto
qed

lemma seek_element:
  assumes "templ_attributes T" and "\<forall>(a, v) \<in> set as. plain_name a \<and> a \<noteq> ''id''"
    and "seek i (Data, Other, b) [Lit start] = (m, k, b)" and "tag_at m = Some n" and "settled k" and "content_of n = Data"
    and "seek i (Data, Other, b) cs = (Data, Other, b)" and "seek i (Data, Other, b) [Lit fin] = (Data, Other, b)"
  shows "seek i (Data, Other, b) ([Lit start] @ tp_attributes T as @ [Lit ''>''] @ cs @ [Lit fin]) = (Data, Other, b)"
proof -
  obtain m' k' where "seek i (m, k, b) (tp_attributes T as) = (m', k', b)" "tag_at m' = Some n" "settled k'"
    using seek_attributes [OF assms(1,2,4,5)] by blast
  then show ?thesis using assms(3,6,7,8) seek_close [of m' n k' i b "[]"] by simp
qed

end
