(* ===== verification/Pages.thy ===== *)
theory Pages
  imports Markup Json Skins ConfigView Whiteboard
begin

text \<open>
  The pages and fragments outside the todo list: the notification, the banner and the script of the offline
  mode (\<open>internal/components\<close>), the skins' assets and selector (\<open>web/skins\<close>), the bar on top and the login page
  (\<open>features/auth\<close>), and the pages of \<open>features/landing\<close>, \<open>features/config\<close> and \<open>features/whiteboard\<close>.  Each
  definition lists what the generated function writes, in order.  A write to the response that fails ends
  the rendering with that error; the components are what is written when none fails.
\<close>

subsection \<open>Notifications\<close>

definition toast_signal_name :: "bytes \<Rightarrow> bytes" where
  "toast_signal_name toast = ''toast_vis_'' @ toast"

definition make_toast_signals :: "bytes \<Rightarrow> jval" where
  "make_toast_signals toast = JObj [(toast_signal_name toast, JBool False)]"

definition escape_single_quotes :: "bytes \<Rightarrow> bytes" where
  "escape_single_quotes s = concat (map (\<lambda>c. if c = CHR 0x27 then ''&#39;'' else [c]) s)"

definition safe_json :: "jval \<Rightarrow> bytes" where
  "safe_json v = escape_single_quotes (marshal v)"

definition toast_icon :: "bytes \<Rightarrow> piece list" where
  \<open>toast_icon kind =
     (if kind = ''success'' then [Lit (''<svg xmlns="http://www.w3.org/2000/svg" class="h-5 w-5" fill="none" viewBox="0 0 24 ''
        @ ''24" stroke="currentColor"><path stroke-linecap="round" stroke-linejoin="round" stroke-width="2" ''
        @ ''d="M9 12l2 2 4-4m6 2a9 9 0 11-18 0 9 9 0 0118 0z"></path></svg>'')]
     else if kind = ''error'' then [Lit (''<svg xmlns="http://www.w3.org/2000/svg" class="h-5 w-5" fill="none" viewBox="0 0 24 ''
        @ ''24" stroke="currentColor"><path stroke-linecap="round" stroke-linejoin="round" stroke-width="2" ''
        @ ''d="M12 9v2m0 4h.01M5.07 19h13.86c1.54 0 2.5-1.67 1.73-3L13.73 4c-.77-1.33-2.69-1.33-3.46 ''
        @ ''0L3.34 16c-.77 1.33.19 3 1.73 3z"></path></svg>'')]
     else if kind = ''warning'' then [Lit (''<svg xmlns="http://www.w3.org/2000/svg" class="h-5 w-5" fill="none" viewBox="0 0 24 ''
        @ ''24" stroke="currentColor"><path stroke-linecap="round" stroke-linejoin="round" stroke-width="2" ''
        @ ''d="M12 8v4m0 4h.01M21 12a9 9 0 11-18 0 9 9 0 0118 0z"></path></svg>'')]
     else [Lit (''<svg xmlns="http://www.w3.org/2000/svg" class="h-5 w-5" fill="none" viewBox="0 0 24 ''
        @ ''24" stroke="currentColor"><path stroke-linecap="round" stroke-linejoin="round" stroke-width="2" ''
        @ ''d="M13 16h-1v-4h-1m1-4h.01M21 12a9 9 0 11-18 0 9 9 0 0118 0z"></path></svg>'')])\<close>

definition toast_message :: "templ \<Rightarrow> bytes \<Rightarrow> bytes \<Rightarrow> bytes \<Rightarrow> piece list" where
  \<open>toast_message T message kind toast =
     [Lit ''<div id="'',
      Attr toast,
      Lit ''" data-signals="'',
      Attr (safe_json (make_toast_signals toast)),
      Lit ''" data-class="'',
      Attr (''{'open': $'' @ toast_signal_name toast @ '' === true}''),
      Lit ''" data-init__delay.10ms="'',
      Attr (''$'' @ toast_signal_name toast @ '' = true''),
      Lit ''"''] @
     (if kind = ''error'' then [Lit '' data-init__delay.8s="'',
      Attr (''$'' @ toast_signal_name toast @ '' = false''),
      Lit ''" data-init__delay.8500ms="el.remove()"'']
     else [Lit '' data-init__delay.3s="'',
      Attr (''$'' @ toast_signal_name toast @ '' = false''),
      Lit ''" data-init__delay.3500ms="el.remove()"'']) @
     [Lit '' class="toast-msg mb-2">'',
      Lit ''<div role="alert" class="'',
      Attr (tp_classes T [(''alert shadow-lg'', True), (''alert-success'', kind = ''success''), (''alert-error'', kind = ''error''), (''alert-warning'', kind = ''warning''), (''alert-info'', kind = ''info'')]),
      Lit ''">''] @
     toast_icon kind @
     [Lit ''<span>'',
      Esc message,
      Lit (''</span> <button data-on:click="el.closest('.toast-msg').remove()" class="btn btn-xs ''
        @ ''btn-circle btn-ghost" aria-label="Close">'' @ u_cross
        @ ''</button></div><div class="toast-timer-bar"></div></div>'')]\<close>

subsection \<open>Offline mode\<close>

text \<open>\<open>strconv.FormatBool\<close>.\<close>

definition format_bool :: "bool \<Rightarrow> bytes" where
  "format_bool b = (if b then ''true'' else ''false'')"

definition offline_banner :: "bool \<Rightarrow> piece list" where
  \<open>offline_banner offline =
     [Lit ''<div id="offline-banner" class="app-banner" data-component="offline-banner" data-offline-sync="'',
      Attr (format_bool offline),
      Lit (''" aria-live="polite"><span id="offline-banner-text">Online</span></div><style>''
        @ nl 2 @ ''#offline-banner.is-online {''
        @ nl 4 @ ''display: none;''
        @ nl 3 @ ''}''
        @ nl 2 @ ''#offline-banner.is-syncing {''
        @ nl 4 @ ''display: block;''
        @ nl 4 @ ''background-color: #3b82f6;''
        @ nl 4 @ ''color: #ffffff;''
        @ nl 3 @ ''}''
        @ nl 2 @ ''#offline-banner.is-offline {''
        @ nl 4 @ ''display: block;''
        @ nl 4 @ ''background-color: #f59e0b;''
        @ nl 4 @ ''color: #ffffff;''
        @ nl 3 @ ''}''
        @ nl 1 @ ''</style><script>''
        @ nl 2 @ ''(function () {''
        @ nl 3 @ ''var banner = document.getElementById("offline-banner");''
        @ nl 3 @ ''var text = document.getElementById("offline-banner-text");''
        @ nl 3 @ ''if (!banner || !text) return;''
        @ newline
        @ nl 3 @ ''// Templ does not interpolate Go expressions inside script text.''
        @ nl 3 @ ''// Render the flag as an HTML data attribute (where Templ's typed''
        @ nl 3 @ ''// interpolation is guaranteed) and read it from the element.''
        @ nl 3 @ ''var OFFLINE_SYNC = banner.dataset.offlineSync === "true";''
        @ newline
        @ nl 3 @ ''function setState(state) {''
        @ nl 4 @ ''var cls = "is-" + state;''
        @ nl 4 @ ''banner.classList.remove("is-online", "is-syncing", "is-offline");''
        @ nl 4 @ ''banner.classList.add(cls);''
        @ nl 4 @ ''// display state handled by .is-* classes in chrome.css''
        @ nl 4 @ ''text.textContent = state === "syncing"''
        @ nl 5 @ ''? "Syncing changes'' @ bslash @ ''u2026"''
        @ nl 5 @ '': state === "offline"''
        @ nl 6 @ ''? (OFFLINE_SYNC''
        @ nl 7 @ ''? "Offline '' @ bslash @ ''u2014 changes are queued and will sync when you reconnect"''
        @ nl 7 @ '': "Offline '' @ bslash @ ''u2014 online-only mode; requests will fail when network is down")''
        @ nl 6 @ '': "Online";''
        @ nl 3 @ ''}''
        @ newline
        @ nl 3 @ ''if (OFFLINE_SYNC && navigator.serviceWorker) {''
        @ nl 4 @ ''// SW postMessage bridge '' @ u_dash @ '' see web/resources/static/sw.js.''
        @ nl 4 @ ''navigator.serviceWorker.addEventListener("message", function (e) {''
        @ nl 5 @ ''var data = e.data || {};''
        @ nl 5 @ ''if (data.type === "sync-start") {''
        @ nl 6 @ ''setState("syncing");''
        @ nl 6 @ ''// Connection is back '' @ u_dash @ '' the SW is replaying queued''
        @ nl 6 @ ''// mutations. Show the live presence count instead''
        @ nl 6 @ ''// of stale offline styling.''
        @ nl 6 @ ''reflectPresence(true);''
        @ nl 5 @ ''} else if (data.type === "sync-end") {''
        @ nl 6 @ ''setState("online");''
        @ nl 6 @ ''// Replay complete '' @ u_dash @ '' remove offline styling from''
        @ nl 6 @ ''// presence pills so the live "X online" count''
        @ nl 6 @ ''// appears with the green pulse again.''
        @ nl 6 @ ''reflectPresence(true);''
        @ nl 5 @ ''} else if (data.type === "sync-error") {''
        @ nl 6 @ ''setState("offline");''
        @ nl 6 @ ''// Check actual connectivity '' @ u_dash @ '' a sync-error while''
        @ nl 6 @ ''// online is just a queued mutation, not a disconnect.''
        @ nl 6 @ ''reflectPresence(navigator.onLine);''
        @ nl 6 @ ''// Notify Datastar consumers: a mutation just queued''
        @ nl 6 @ ''// offline, so forms that set a pending signal before''
        @ nl 6 @ ''// posting can reset immediately. This SW postMessage is''
        @ nl 6 @ ''// awaited before the intercepted request completes.''
        @ nl 6 @ ''window.dispatchEvent(new CustomEvent("gogogo:queued"));''
        @ nl 5 @ ''}''
        @ nl 4 @ ''});''
        @ nl 3 @ ''}''
        @ newline
        @ nl 3 @ ''// Fallback when SW is not registered (dev, unsupported browsers,''
        @ nl 3 @ ''// or OFFLINE_SYNC_ENABLED=false). navigator.onLine flips a''
        @ nl 3 @ ''// coarse offline/online signal so users still see *something*.''
        @ nl 3 @ ''function updateOnline() {''
        @ nl 4 @ ''setState(navigator.onLine ? "online" : "offline");''
        @ nl 4 @ ''// The realtime/SSE presence pill (".online-pill", rendered in''
        @ nl 4 @ ''// the todo list, realtime card, and whiteboard) is fed only by''
        @ nl 4 @ ''// server broadcasts and never learns about a client-side''
        @ nl 4 @ ''// disconnect on its own '' @ u_dash @ '' so it keeps showing the last "X''
        @ nl 4 @ ''// online" count with a live-green pulse while offline. Tie it to''
        @ nl 4 @ ''// navigator.onLine here so it greys out the moment the network''
        @ nl 4 @ ''// drops (see the .online-pill.is-offline rule in app.css).''
        @ nl 4 @ ''reflectPresence(navigator.onLine);''
        @ nl 3 @ ''}''
        @ newline
        @ nl 3 @ ''// Toggle the stale/offline styling on every presence pill. We only''
        @ nl 3 @ ''// react to navigator.onLine (not the SW sync-* states): "syncing"''
        @ nl 3 @ ''// means the connection is already back, so the live count should''
        @ nl 4 @ ''// stay visible; a SW sync-error while actually online is just a''
        @ nl 3 @ ''// queued mutation and must not blank the presence indicator.''
        @ nl 3 @ ''function reflectPresence(online) {''
        @ nl 4 @ ''var pills = document.querySelectorAll(".online-pill");''
        @ nl 4 @ ''for (var i = 0; i < pills.length; i++) {''
        @ nl 5 @ ''pills[i].classList.toggle("is-offline", !online);''
        @ nl 4 @ ''}''
        @ nl 3 @ ''}''
        @ newline
        @ nl 3 @ ''window.addEventListener("online", function () {''
        @ nl 4 @ ''if (OFFLINE_SYNC && navigator.serviceWorker) {''
        @ nl 5 @ ''navigator.serviceWorker.ready.then(function (registration) {''
        @ nl 6 @ ''if (registration.active) {''
        @ nl 7 @ ''registration.active.postMessage({ type: "replay-queue" });''
        @ nl 6 @ ''}''
        @ nl 5 @ ''}).catch(function () {});''
        @ nl 4 @ ''}''
        @ nl 4 @ ''// Give replayQueue a tick to publish sync-start. Do not overwrite''
        @ nl 4 @ ''// its syncing state while queued mutations are still draining.''
        @ nl 4 @ ''setTimeout(function () {''
        @ nl 5 @ ''if (!banner.classList.contains("is-syncing")) updateOnline();''
        @ nl 4 @ ''}, 500);''
        @ nl 3 @ ''});''
        @ nl 3 @ ''window.addEventListener("offline", updateOnline);''
        @ nl 3 @ ''updateOnline();''
        @ nl 2 @ ''})();''
        @ nl 1 @ ''</script>'')]\<close>

definition offline_sync_script :: "bool \<Rightarrow> piece list" where
  \<open>offline_sync_script enabled =
     (if enabled then [Lit (''<script>''
        @ newline @ ''      if ('serviceWorker' in navigator) {''
        @ newline @ ''        navigator.serviceWorker.register('/sw.js', { scope: '/' }).catch(function () ''
        @ ''{''
        @ newline @ ''          // SW registration failed '' @ u_dash @ '' offline support degraded but the''
        @ newline @ ''          // app still works (no caching, no offline queue).''
        @ newline @ ''        });''
        @ newline @ ''      }''
        @ newline @ ''    </script>'')]
     else [])\<close>

subsection \<open>Skins\<close>

definition daisyui_assets :: "piece list" where
  \<open>daisyui_assets =
     [Lit (newline @ ''<link rel="stylesheet" href="/static/app.min.css"/>''
        @ newline @ ''<link rel="stylesheet" href="/static/app.css"/>''
        @ newline @ ''<script src="/static/iconify-icon.min.js"></script>''
        @ newline @ ''<script defer type="module" src="/static/datastar.js"></script>''
        @ nl 1)]\<close>

definition basecoat_assets :: "piece list" where
  \<open>basecoat_assets =
     [Lit (newline @ ''<link rel="stylesheet" href="/static/basecoat.min.css"/>''
        @ newline @ ''<link rel="stylesheet" href="/static/app.css"/>''
        @ newline @ ''<script defer type="module" src="/static/theme.js"></script>''
        @ newline @ ''<script defer src="/static/basecoat.min.js"></script>''
        @ newline @ ''<script src="/static/iconify-icon.min.js"></script>''
        @ newline @ ''<script defer type="module" src="/static/datastar.js"></script>''
        @ newline @ ''<script>''
        @ nl 1 @ ''document.addEventListener('DOMContentLoaded', function() {''
        @ nl 2 @ ''if (typeof basecoat !== 'undefined' && basecoat.initAll) {''
        @ nl 3 @ ''try { basecoat.initAll(); } catch(e) {}''
        @ nl 2 @ ''}''
        @ nl 1 @ ''});''
        @ newline @ ''</script>''
        @ nl 1)]\<close>

definition morpheus_assets :: "piece list" where
  \<open>morpheus_assets =
     [Lit (newline @ ''<link rel="stylesheet" href="/static/morpheus/theme-default.css"/>''
        @ newline @ ''<link rel="stylesheet" href="/static/morpheus/morpheus.css"/>''
        @ newline @ ''<script src="/static/iconify-icon.min.js"></script>''
        @ newline @ ''<script defer type="module" src="/static/datastar.js"></script>''
        @ newline @ ''<script defer src="/static/morpheus/bundle.js"></script>''
        @ nl 1)]\<close>

definition skin_selector :: "templ \<Rightarrow> bytes list \<Rightarrow> bytes \<Rightarrow> piece list" where
  \<open>skin_selector T names current =
     [Lit (''<div style="position:relative;display:inline-block"><div tabindex="0" role="button" ''
        @ ''style="display:inline-flex;align-items:center;gap:0.25rem;padding:0.25rem 0.5rem;font-size:0.75rem;cursor:pointer;border-radius:0.375rem;border:1px ''
        @ ''solid transparent;background:transparent;color:inherit" title="Select UI skin"><svg ''
        @ ''xmlns="http://www.w3.org/2000/svg" style="width:1rem;height:1rem;flex-shrink:0" viewBox="0 ''
        @ ''0 20 20" fill="currentColor"><path fill-rule="evenodd" d="M4 2a2 2 0 00-2 2v11a3 3 0 ''
        @ ''106 0V4a2 2 0 00-2-2H4zm1 14a1 1 0 100-2 1 1 0 000 2zm5-1.757l4.9-4.9a2 2 0 000-2.828L13.485 ''
        @ ''5.1a2 2 0 00-2.828 0L10 5.757v8.486zM16 18H9.071l6-6H16a2 2 0 012 2v2a2 2 0 01-2 2z" ''
        @ ''clip-rule="evenodd"></path></svg> <span class="skin-label-sm">''),
      Esc current,
      Lit (''</span></div><ul tabindex="0" role="menu" style="position:absolute;z-index:60;top:100%;left:0;margin-top:0.25rem;min-width:10rem;padding:0.25rem;list-style:none;border-radius:0.5rem;border:1px ''
        @ ''solid oklch(0.556 0 0 / 0.2);background:oklch(1 0 0);color:oklch(0.145 0 0);box-shadow:0 ''
        @ ''4px 6px -1px rgba(0,0,0,0.1);display:none">'')] @
     concat (map (\<lambda>name. [Lit ''<li role="menuitem" style="list-style:none"><a href="'',
      Href (tp_url T (''?skin='' @ name)),
      Lit (''" style="display:block;padding:0.375rem 0.75rem;font-size:0.875rem;border-radius:0.375rem;text-decoration:none;color:oklch(0.145 ''
        @ ''0 0);transition:background 0.15s" class:active="''),
      Attr (tp_bool T (name = current)),
      Lit ''" data-active="'',
      Attr (tp_bool T (name = current)),
      Lit (''" onmouseenter="this.style.background='oklch(0.97 0 0)'" onmouseleave="this.style.background=''
        @ js_empty @ ''">''),
      Esc name,
      Lit ''</a></li>'']) names) @
     [Lit (''</ul></div><script>''
        @ nl 2 @ ''document.querySelectorAll('[title="Select UI skin"]').forEach(function(btn) {''
        @ nl 3 @ ''var open = false;''
        @ nl 3 @ ''var menu = btn.nextElementSibling;''
        @ nl 3 @ ''btn.addEventListener('click', function(e) {''
        @ nl 4 @ ''e.stopPropagation();''
        @ nl 4 @ ''open = !open;''
        @ nl 4 @ ''menu.style.display = open ? 'block' : 'none';''
        @ nl 3 @ ''});''
        @ nl 3 @ ''document.addEventListener('click', function() {''
        @ nl 4 @ ''open = false;''
        @ nl 4 @ ''menu.style.display = 'none';''
        @ nl 3 @ ''});''
        @ nl 2 @ ''});''
        @ nl 1 @ ''</script>'')]\<close>

subsection \<open>The bar on top and the login page\<close>

definition theme_head :: "piece list" where
  \<open>theme_head =
     [Lit (''<link rel="stylesheet" href="/static/chrome.css"><script>''
        @ nl 2 @ ''(function() {''
        @ nl 3 @ ''try {''
        @ nl 4 @ ''var theme = localStorage.getItem('themeMode');''
        @ nl 4 @ ''if (theme !== 'light' && theme !== 'dark') {''
        @ nl 5 @ ''theme = window.matchMedia('(prefers-color-scheme: dark)').matches ? 'dark' : 'light';''
        @ nl 4 @ ''}''
        @ nl 4 @ ''var html = document.documentElement;''
        @ nl 4 @ ''html.dataset.theme = theme;''
        @ nl 4 @ ''html.classList.toggle('dark', theme === 'dark');''
        @ nl 4 @ ''html.dataset.signals = JSON.stringify({theme: theme});''
        @ nl 3 @ ''} catch(e) {''
        @ nl 4 @ ''document.documentElement.dataset.theme = 'light';''
        @ nl 3 @ ''}''
        @ nl 2 @ ''})();''
        @ nl 1 @ ''</script>'')]\<close>

definition navbar :: "templ \<Rightarrow> bytes \<Rightarrow> bytes \<Rightarrow> bytes \<Rightarrow> bytes \<Rightarrow> piece list" where
  \<open>navbar T email active build commit =
     [Lit (''<nav class="app-nav"><div class="app-nav-start"><a href="/" class="app-nav-brand">gogogo</a><span ''
        @ ''class="app-nav-badge" title="''),
      Attr (commit @ '' '' @ u_dot @ '' built '' @ build),
      Lit ''">'',
      Esc build,
      Lit ''</span><div class="app-nav-links">'',
      Lit ''<a href="/todo" class="'',
      Attr (tp_classes T [(''app-nav-link'', True), (''is-active'', active = ''todo'')]),
      Lit ''">Todo</a> '',
      Lit ''<a href="/whiteboard" class="'',
      Attr (tp_classes T [(''app-nav-link'', True), (''is-active'', active = ''whiteboard'')]),
      Lit ''">Whiteboard</a> '',
      Lit ''<a href="/config" class="'',
      Attr (tp_classes T [(''app-nav-link'', True), (''is-active'', active = ''config'')]),
      Lit (''">Config</a></div></div><div class="app-nav-end"><button type="button" class="app-theme-toggle" ''
        @ ''aria-label="Alternar tema" title="Alternar tema claro/escuro" data-on:click="var t = ''
        @ ''(typeof $theme !== 'undefined' ? ($theme === 'dark' ? 'light' : 'dark') : 'light'); ''
        @ ''$theme = t; localStorage.setItem('themeMode', t)" data-variant="ghost"><iconify-icon ''
        @ ''icon="material-symbols:dark-mode" class="text-lg theme-toggle-icon icon-dark-mode"></iconify-icon> ''
        @ ''<iconify-icon icon="material-symbols:light-mode" class="text-lg theme-toggle-icon icon-light-mode"></iconify-icon></button> '')] @
     (if email = '''' then [Lit (''<a href="/login" class="app-nav-btn is-primary" data-on:click="$loading = true" data-variant="primary">Sign ''
        @ ''in</a>'')]
     else [Lit (''<div class="app-dropdown"><div tabindex="0" role="button" class="app-dropdown-trigger"><svg ''
        @ ''xmlns="http://www.w3.org/2000/svg" class="app-user-icon" viewBox="0 0 20 20" fill="currentColor"><path ''
        @ ''fill-rule="evenodd" d="M10 9a3 3 0 100-6 3 3 0 000 6zm-7 9a7 7 0 1114 0H3z" clip-rule="evenodd"></path></svg> ''
        @ ''<span class="app-user-email">''),
      Esc email,
      Lit (''</span></div><ul class="app-dropdown-menu"><li class="app-menu-title"><span>Signed in ''
        @ ''as</span></li><li><span class="font-mono text-xs break-all">''),
      Esc email,
      Lit (''</span></li><li><a href="/_/" class="flex items-center gap-2"><svg xmlns="http://www.w3.org/2000/svg" ''
        @ ''class="app-menu-icon" viewBox="0 0 20 20" fill="currentColor"><path d="M10 2a8 8 0 100 ''
        @ ''16 8 8 0 000-16zm1 11H9v-4h2v4zm0-6H9V5h2v2z"></path></svg> Dashboard</a></li><li><a ''
        @ ''href="/dagnats/" target="_blank" rel="noopener" class="flex items-center gap-2 cursor-pointer"><svg ''
        @ ''xmlns="http://www.w3.org/2000/svg" class="app-menu-icon" viewBox="0 0 20 20" fill="currentColor"><path ''
        @ ''fill-rule="evenodd" d="M3 5a2 2 0 012-2h10a2 2 0 012 2v10a2 2 0 01-2 2H5a2 2 0 01-2-2V5zm2-1a1 ''
        @ ''1 0 00-1 1v3h10V5a1 1 0 00-1-1H5zm10 6H5v5a1 1 0 001 1h8a1 1 0 001-1v-5z" clip-rule="evenodd"></path></svg> ''
        @ ''DagNats</a></li><li><form method="POST" action="/logout" data-on:submit="$loading = ''
        @ ''true; if (navigator.serviceWorker) { navigator.serviceWorker.ready.then(function (r) ''
        @ ''{ r.active && r.active.postMessage({ type: 'clear-pages' }); }); }"><button type="submit" ''
        @ ''class="w-full text-left flex items-center gap-2"><svg xmlns="http://www.w3.org/2000/svg" ''
        @ ''class="app-menu-icon" viewBox="0 0 20 20" fill="currentColor"><path fill-rule="evenodd" ''
        @ ''d="M3 10a1 1 0 011-1h10a1 1 0 110 2H4a1 1 0 01-1-1zM9 4a1 1 0 011-1h7a1 1 0 011 1v12a1 ''
        @ ''1 0 01-1 1h-7a1 1 0 01-1-1V4z" clip-rule="evenodd"></path></svg> Sign out</button></form></li></ul></div>'')]) @
     [Lit ''</div></nav>'']\<close>

definition login_page :: "bytes \<Rightarrow> bytes \<Rightarrow> piece list" where
  \<open>login_page next_url err =
     [Lit (''<!doctype html><html lang="en" data-signals="{theme: 'light'}" data-attr:data-theme="$theme" ''
        @ ''data-class:dark="$theme === 'dark'"><head><meta charset="utf-8"><meta name="viewport" ''
        @ ''content="width=device-width, initial-scale=1"><title>Sign in '' @ u_dash
        @ '' gogogo-fullstack-template</title><link rel="stylesheet" href="/static/app.min.css"><link ''
        @ ''rel="stylesheet" href="/static/app.css">'')] @
     theme_head @
     [Lit (''<script src="/static/iconify-icon.min.js"></script><script defer type="module" src="/static/datastar.js"></script></head><body ''
        @ ''class="bg-base-200 min-h-screen flex items-center justify-center p-4"><div class="card ''
        @ ''w-full max-w-md bg-base-100 shadow-xl"><div class="card-body"><h1 class="text-2xl font-bold ''
        @ ''text-center mb-2">gogogo-fullstack-template</h1><p class="text-center text-base-content/60 ''
        @ ''mb-6">Sign in to manage your todos</p>'')] @
     (if err \<noteq> '''' then [Lit ''<div role="alert" class="alert alert-error mb-4"><span>'',
      Esc err,
      Lit ''</span></div>'']
     else []) @
     [Lit (''<form method="POST" action="/login" class="space-y-4"><input type="hidden" name="next" ''
        @ ''value="''),
      Attr next_url,
      Lit (''"> <label class="form-control w-full"><div class="label"><span class="label-text">Email</span></div><input ''
        @ ''type="email" name="email" value="demo@demo.app" class="input w-full" required autocomplete="email"></label> ''
        @ ''<label class="form-control w-full"><div class="label"><span class="label-text">Password</span></div><input ''
        @ ''type="password" name="password" value="demo1234456" class="input w-full" required autocomplete="current-password"></label> ''
        @ ''<button type="submit" class="btn btn-primary w-full" data-variant="primary">Sign in</button><div ''
        @ ''class="text-xs text-center text-base-content/40 mt-4">Demo credentials prefilled. Click ''
        @ ''<strong>Sign in</strong> to enter.</div></form></div></div></body></html>'')]\<close>

subsection \<open>Landing page\<close>

definition landing_page :: "templ \<Rightarrow> bytes \<Rightarrow> bytes \<Rightarrow> bytes \<Rightarrow> piece list" where
  \<open>landing_page T email build commit =
     [Lit (''<!doctype html><html lang="en" data-theme="light"><head><meta charset="utf-8"><meta ''
        @ ''name="viewport" content="width=device-width, initial-scale=1"><title>gogogo-fullstack-template</title><link ''
        @ ''rel="stylesheet" href="/static/app.min.css"><link rel="stylesheet" href="/static/app.css">'')] @
     theme_head @
     [Lit (''<script defer type="module" src="/static/theme.js"></script><script src="/static/iconify-icon.min.js"></script><style>''
        @ nl 4 @ ''/* Hero layout: narrow column on desktop, full width on''
        @ nl 4 @ ''   mobile. The visual hierarchy is logo '' @ u_arrow @ '' about '' @ u_arrow @ '' CTA,''
        @ nl 4 @ ''   matching the README ordering. */''
        @ nl 4 @ ''.landing-hero {''
        @ nl 5 @ ''min-height: calc(100vh - 4rem);''
        @ nl 5 @ ''display: flex;''
        @ nl 5 @ ''flex-direction: column;''
        @ nl 5 @ ''align-items: center;''
        @ nl 5 @ ''justify-content: center;''
        @ nl 5 @ ''padding: 2rem 1rem;''
        @ nl 4 @ ''}''
        @ nl 4 @ ''.landing-card {''
        @ nl 5 @ ''max-width: 44rem;''
        @ nl 5 @ ''width: 100%;''
        @ nl 4 @ ''}''
        @ nl 4 @ ''.landing-logo {''
        @ nl 5 @ ''max-width: 28rem;''
        @ nl 5 @ ''width: 100%;''
        @ nl 5 @ ''height: auto;''
        @ nl 5 @ ''margin-left: auto;''
        @ nl 5 @ ''margin-right: auto;''
        @ nl 5 @ ''display: block;''
        @ nl 4 @ ''}''
        @ nl 4 @ ''.landing-about {''
        @ nl 5 @ ''color: var(--color-base-content);''
        @ nl 5 @ ''line-height: 1.7;''
        @ nl 5 @ ''font-size: 0.95rem;''
        @ nl 4 @ ''}''
        @ nl 3 @ ''</style></head><body class="bg-base-100 min-h-screen">'')] @
     navbar T email '''' build commit @
     [Lit (''<main class="landing-hero"><div class="landing-card"><header class="text-center mb-6"><img ''
        @ ''class="landing-logo" src="/static/logo.png" alt="gogogo-fullstack-template"></header><section ''
        @ ''class="landing-about mb-8"><p>Go full-stack template. Single binary, no dependencies. ''
        @ ''Database &amp; Auth. Reactive UI. Background jobs. Offline-first. Real-time multi-user. ''
        @ ''Durable workflows. Desktop &amp; Android capable.</p></section><div class="text-center"><a ''
        @ ''href="/todo" class="btn btn-primary btn-lg" data-variant="primary">Access demo site</a> '')] @
     (if email = '''' then [Lit (''<p class="text-sm text-base-content/60 mt-3">You'll be asked to sign in with the demo ''
        @ ''credentials.</p>'')]
     else []) @
     [Lit ''</div></div></main>''] @
     offline_banner True @
     [Lit ''</body></html>'']\<close>

subsection \<open>Configuration page\<close>

text \<open>\<open>note\<close> and \<open>describe\<close> are the fixed notes of the groups and descriptions of the rows.\<close>

definition config_page :: "templ \<Rightarrow> (bytes \<Rightarrow> bytes) \<Rightarrow> (row_view \<Rightarrow> bytes) \<Rightarrow> page_data \<Rightarrow> bytes \<Rightarrow> bytes \<Rightarrow> bytes \<Rightarrow> piece list" where
  \<open>config_page T note describe d email build commit =
     [Lit (''<!doctype html><html lang="en" data-theme="light"><head><meta charset="utf-8"><meta ''
        @ ''name="viewport" content="width=device-width, initial-scale=1"><title>Config '' @ u_dash
        @ '' gogogo-fullstack-template</title><link rel="stylesheet" href="/static/app.min.css"><link ''
        @ ''rel="stylesheet" href="/static/app.css">'')] @
     theme_head @
     [Lit (''<script defer type="module" src="/static/theme.js"></script><script src="/static/iconify-icon.min.js"></script><style>''
        @ nl 4 @ ''/* Tighten the table on small screens; the read-only''
        @ nl 4 @ ''   nature of the page means we don't need a wide edit''
        @ nl 4 @ ''   surface '' @ u_dash @ '' operators usually open /config on a laptop. */''
        @ nl 4 @ ''.config-group {''
        @ nl 5 @ ''margin-bottom: 1.5rem;''
        @ nl 4 @ ''}''
        @ nl 4 @ ''.config-mask {''
        @ nl 5 @ ''font-family: ui-monospace, SFMono-Regular, Menlo, monospace;''
        @ nl 5 @ ''color: oklch(0.45 0.06 250);''
        @ nl 5 @ ''background: oklch(0.92 0.02 250 / 0.6);''
        @ nl 5 @ ''padding: 0.1rem 0.4rem;''
        @ nl 5 @ ''border-radius: 0.25rem;''
        @ nl 5 @ ''font-size: 0.85em;''
        @ nl 4 @ ''}''
        @ nl 4 @ ''.config-env {''
        @ nl 5 @ ''font-family: ui-monospace, SFMono-Regular, Menlo, monospace;''
        @ nl 5 @ ''color: var(--color-base-content);''
        @ nl 5 @ ''font-size: 0.75rem;''
        @ nl 4 @ ''}''
        @ nl 4 @ ''.config-not-set {''
        @ nl 5 @ ''color: var(--color-base-content);''
        @ nl 5 @ ''font-style: italic;''
        @ nl 4 @ ''}''
        @ nl 4 @ ''.config-banner {''
        @ nl 5 @ ''border-left: 4px solid oklch(0.7 0.18 50);''
        @ nl 5 @ ''background: oklch(0.96 0.04 80);''
        @ nl 5 @ ''/* Keep the banner text dark in both themes: the callout keeps''
        @ nl 5 @ ''   its light background even in dark mode, so a fixed near-black''
        @ nl 5 @ ''   color guarantees readable contrast instead of inheriting the''
        @ nl 5 @ ''   light base-content used on dark pages. */''
        @ nl 5 @ ''color: oklch(0.2 0.02 250);''
        @ nl 5 @ ''padding: 0.75rem 1rem;''
        @ nl 5 @ ''border-radius: 0.25rem;''
        @ nl 5 @ ''margin-bottom: 1.25rem;''
        @ nl 4 @ ''}''
        @ nl 3 @ ''</style></head><body class="bg-base-200 min-h-screen">'')] @
     navbar T email ''config'' build commit @
     [Lit (''<main class="container mx-auto p-4 max-w-4xl"><div class="flex items-baseline justify-between ''
        @ ''mb-4"><h1 class="text-2xl font-bold">Config</h1>'')] @
     (if pg_build_label d \<noteq> '''' then [Lit ''<span class="badge badge-info badge-soft badge-sm font-mono" data-variant="info">'',
      Esc (pg_build_label d),
      Lit ''</span>'']
     else []) @
     [Lit (''</div><div class="config-banner" role="status"><strong>Read-only.</strong> This page ''
        @ ''shows what the running binary has loaded from the environment and the encrypted secrets ''
        @ ''file. Sensitive values are masked; the literal key/token never reaches the browser.</div>'')] @
     concat (map (\<lambda>group. [Lit (''<section class="config-group card bg-base-100 shadow-sm"><div class="card-body p-4"><h2 ''
        @ ''class="card-title text-lg">''),
      Esc (fst group),
      Lit ''</h2>''] @
     (if note (fst group) \<noteq> '''' then [Lit ''<p class="text-sm text-base-content/70 mb-2">'',
      Esc (note (fst group)),
      Lit ''</p>'']
     else []) @
     [Lit (''<div class="overflow-x-auto"><table class="table table-sm"><thead><tr><th class="w-1/3">Field</th><th>Env</th><th>Value</th><th ''
        @ ''class="hidden md:table-cell">Description</th></tr></thead> <tbody>'')] @
     concat (map (\<lambda>row. [Lit ''<tr><td><code class="text-sm">'',
      Esc (rv_key row),
      Lit ''</code></td><td><span class="config-env">'',
      Esc (rv_env row),
      Lit ''</span></td><td>''] @
     (if rv_bool_only row then (if rv_set row then [Lit ''<span class="badge badge-success badge-sm" data-variant="success">set</span>'']
     else [Lit ''<span class="config-not-set">not set</span>''])
     else (if \<not> rv_set row then [Lit ''<span class="config-not-set">not set</span>'']
     else (if rv_masked row then [Lit ''<span class="config-mask" title="Masked value">'',
      Esc (rv_display row),
      Lit ''</span>'']
     else [Lit ''<code class="text-sm">'',
      Esc (rv_display row),
      Lit ''</code>'']))) @
     [Lit ''</td><td class="hidden md:table-cell text-sm text-base-content/70">'',
      Esc (describe row),
      Lit ''</td></tr>'']) (snd group)) @
     [Lit ''</tbody></table></div></div></section>'']) (pg_groups d)) @
     [Lit ''<footer class="text-xs text-base-content/60 mt-6"><p>Need to rotate a secret? Edit <code>~/.secrets/'',
      Esc (pg_app_name d),
      Lit ''.env.age</code> (L2 in <code>cali-ops-server-security</code>) and restart the binary.</p></footer></main>''] @
     offline_banner True @
     [Lit ''</body></html>'']\<close>

subsection \<open>Whiteboard pages\<close>

definition whiteboard_list_fragment :: "templ \<Rightarrow> board_meta list \<Rightarrow> piece list" where
  \<open>whiteboard_list_fragment T boards =
     [Lit ''<div id="whiteboard-list" class="grid gap-2">''] @
     (if boards = [] then [Lit ''<p class="text-base-content/60">No whiteboards yet. Create one to start drawing together.</p>'']
     else []) @
     concat (map (\<lambda>b. [Lit ''<a class="card card-bordered bg-base-200 p-4 hover:bg-base-300" href="'',
      Href (tp_url T (''/whiteboard/'' @ bm_doc b)),
      Lit ''"><div class="font-mono text-sm">'',
      Esc (bm_doc b),
      Lit ''</div><div class="text-xs text-base-content/60">version '',
      Esc (int_str (bm_version b)),
      Lit ''</div></a>'']) boards) @
     [Lit ''</div>'']\<close>

definition whiteboard_list_page :: "templ \<Rightarrow> bytes \<Rightarrow> board_meta list \<Rightarrow> bytes \<Rightarrow> bytes \<Rightarrow> bool \<Rightarrow> piece list" where
  \<open>whiteboard_list_page T email boards build commit offline =
     [Lit (''<!doctype html><html lang="en" data-signals="{theme: 'light'}" data-attr:data-theme="$theme" ''
        @ ''data-class:dark="$theme === 'dark'"><head><meta charset="utf-8"><meta name="viewport" ''
        @ ''content="width=device-width, initial-scale=1"><title>Whiteboards '' @ u_dash
        @ '' gogogo-fullstack-template</title><link rel="stylesheet" href="/static/app.min.css"><link ''
        @ ''rel="stylesheet" href="/static/app.css">'')] @
     theme_head @
     [Lit (''<script defer type="module" src="/static/theme.js"></script><script src="/static/iconify-icon.min.js"></script><script ''
        @ ''defer type="module" src="/static/datastar.js"></script>'')] @
     offline_sync_script offline @
     [Lit ''</head><body>''] @
     navbar T email ''whiteboard'' build commit @
     offline_banner offline @
     [Lit (''<main class="container mx-auto p-4"><div class="flex items-center justify-between mb-4"><h1 ''
        @ ''class="text-2xl font-bold">Whiteboards</h1><a class="btn btn-primary" data-variant="primary" ''
        @ ''href="/whiteboard/new">New whiteboard</a></div>'')] @
     whiteboard_list_fragment T boards @
     [Lit ''</main><button id="wb-realtime-resync" type="button" class="hidden" data-on:click="'',
      Attr ''@get('/api/whiteboards/fragment')'',
      Lit (''" aria-hidden="true"></button><script type="module">''
        @ nl 4 @ ''var clientID = 'wb-' + Math.random().toString(36).slice(2, 10);''
        @ nl 4 @ ''var es = new EventSource('/api/realtime?clientId=' + encodeURIComponent(clientID));''
        @ nl 4 @ ''function subscribe(clientId) {''
        @ nl 5 @ ''fetch('/api/realtime', {''
        @ nl 6 @ ''method: 'POST',''
        @ nl 6 @ ''headers: { 'Content-Type': 'application/json' },''
        @ nl 6
        @ ''body: JSON.stringify({ clientId: clientId, action: 'subscribe', subscriptions: ['whiteboards'] ''
        @ ''})''
        @ nl 5 @ ''}).catch(function () {});''
        @ nl 4 @ ''}''
        @ nl 4 @ ''function resync() {''
        @ nl 5 @ ''var b = document.getElementById('wb-realtime-resync');''
        @ nl 5 @ ''if (b) { b.click(); }''
        @ nl 4 @ ''}''
        @ nl 4 @ ''es.addEventListener('PB_CONNECT', function (e) {''
        @ nl 5 @ ''var msg;''
        @ nl 5 @ ''try { msg = JSON.parse(e.data); } catch (_) { return; }''
        @ nl 5 @ ''if (!msg.clientId) { return; }''
        @ nl 5 @ ''es.addEventListener('whiteboards', onRecord);''
        @ nl 5 @ ''subscribe(msg.clientId);''
        @ nl 5 @ ''resync();''
        @ nl 4 @ ''});''
        @ nl 4 @ ''document.addEventListener('visibilitychange', function () {''
        @ nl 5 @ ''if (!document.hidden) { resync(); }''
        @ nl 4 @ ''});'' @ [CHR 0x09, CHR 0x09, CHR 0x09, CHR 0x09] @ ''function onRecord(e) {''
        @ nl 5 @ ''resync();''
        @ nl 4 @ ''}''
        @ nl 4 @ ''</script></body></html>'')]\<close>

definition board_page :: "templ \<Rightarrow> bytes \<Rightarrow> bytes \<Rightarrow> bytes \<Rightarrow> bytes \<Rightarrow> bool \<Rightarrow> piece list" where
  \<open>board_page T email doc_id build commit offline =
     [Lit (''<!doctype html><html lang="en" data-signals="{theme: 'light'}" data-attr:data-theme="$theme" ''
        @ ''data-class:dark="$theme === 'dark'"><head><meta charset="utf-8"><meta name="viewport" ''
        @ ''content="width=device-width, initial-scale=1"><title>Whiteboard ''),
      Esc doc_id,
      Lit ('' '' @ u_dash
        @ '' gogogo-fullstack-template</title><link rel="stylesheet" href="/static/app.min.css"><link ''
        @ ''rel="stylesheet" href="/static/app.css">'')] @
     theme_head @
     [Lit (''<script defer type="module" src="/static/theme.js"></script><script src="/static/iconify-icon.min.js"></script><script ''
        @ ''src="/static/rough.min.js"></script></head><body>'')] @
     navbar T email ''whiteboard'' build commit @
     offline_banner offline @
     [Lit ''<main class="flex flex-col h-[calc(100vh-4rem)]" data-doc-id="'',
      Attr doc_id,
      Lit (''"><div class="toolbar flex flex-wrap gap-2 p-2 bg-base-200 border-b border-base-content/10 ''
        @ ''overflow-x-auto" data-signals='{"clientID": ""}'><button class="btn btn-sm" data-tool="rect" ''
        @ ''data-on:click="$tool='rect'">Rectangle</button> <button class="btn btn-sm" data-tool="ellipse" ''
        @ ''data-on:click="$tool='ellipse'">Ellipse</button> <button class="btn btn-sm" data-tool="line" ''
        @ ''data-on:click="$tool='line'">Line</button> <button class="btn btn-sm" data-tool="pen" ''
        @ ''data-on:click="$tool='pen'">Pen</button> <input class="input input-sm w-16 cursor-pointer" ''
        @ ''type="color" value="#1f2937" id="color-input" name="color" aria-label="Shape color" ''
        @ ''data-bind="color" data-on:input="$color = $evt.target.value"><div class="online-pill" ''
        @ ''title="People connected to this board"><span class="pulse-dot"></span> <span class="pill-online"><span ''
        @ ''id="peer-count">1</span> <span>online</span></span> <span class="pill-offline">offline</span></div><span ''
        @ ''id="net-status" class="text-xs text-warning hidden" title="Connection status"></span> ''
        @ ''<a class="btn btn-sm btn-ghost" data-variant="ghost" href="/whiteboard">Back</a></div><div ''
        @ ''class="relative flex-1 overflow-hidden" id="canvas-wrap" style="background-color:#ffffff;"><canvas ''
        @ ''id="wb-canvas" class="absolute inset-0 w-full h-full block cursor-crosshair" style="background-color:#ffffff;"></canvas><div ''
        @ ''id="cursors" class="absolute inset-0 pointer-events-none"></div></div></main><script ''
        @ ''defer src="/static/whiteboard.js"></script><script>''
        @ nl 4 @ ''// The doc id is carried on <main data-doc-id> (templ escapes''
        @ nl 4 @ ''// attribute values safely). Reading it from the DOM avoids the''
        @ nl 4 @ ''// earlier JS-string-escaping pitfalls (templ.URL() emitted a full''
        @ nl 4 @ ''// URL and templ.JSEscape() produced unquoted output '' @ u_dash @ '' both threw''
        @ nl 4 @ ''// "WB_DOC_ID missing" / "Unexpected token '.'").''
        @ nl 4 @ ''window.WB_DOC_ID = document.querySelector("main")?.dataset.docId || "";''
        @ nl 3 @ ''</script></body></html>'')]\<close>

subsection \<open>Where the values stand\<close>

lemma flow_toast_icon [simp]: "flow Data (toast_icon kind) = Data"
  by (simp add: toast_icon_def reading del: append.simps)

lemma flow_toast_message [simp]: "flow Data (toast_message T message kind toast) = Data"
  by (simp add: toast_message_def reading del: append.simps)

lemma flow_offline_banner [simp]: "flow Data (offline_banner b) = Data"
  by (simp add: offline_banner_def reading del: append.simps)

lemma flow_theme_head [simp]: "flow Data theme_head = Data"
  by (simp add: theme_head_def reading del: append.simps)

lemma flow_navbar [simp]: "flow Data (navbar T email active build commit) = Data"
  by (simp add: navbar_def reading del: append.simps)

lemma flow_login_page [simp]: "flow Data (login_page next_url err) = Data"
  by (simp add: login_page_def reading del: append.simps)

lemma flow_assets [simp]:
  "flow Data daisyui_assets = Data" "flow Data basecoat_assets = Data" "flow Data morpheus_assets = Data"
  by (simp_all add: daisyui_assets_def basecoat_assets_def morpheus_assets_def reading del: append.simps)

lemma flow_skin_selector [simp]: "flow Data (skin_selector T names current) = Data"
  by (simp add: skin_selector_def reading flow_concat del: append.simps)

lemma flow_offline_sync_script [simp]: "flow Data (offline_sync_script b) = Data"
  by (simp add: offline_sync_script_def reading del: append.simps)

lemma flow_landing_page [simp]: "flow Data (landing_page T email build commit) = Data"
  by (simp add: landing_page_def reading del: append.simps)

lemma flow_config_page [simp]: "flow Data (config_page T note describe d email build commit) = Data"
  by (simp add: config_page_def reading flow_concat del: append.simps)

lemma flow_whiteboard_list_fragment [simp]: "flow Data (whiteboard_list_fragment T boards) = Data"
  by (simp add: whiteboard_list_fragment_def reading flow_concat del: append.simps)

lemma flow_whiteboard_list_page [simp]: "flow Data (whiteboard_list_page T email boards build commit offline) = Data"
  by (simp add: whiteboard_list_page_def reading del: append.simps)

lemma flow_board_page [simp]: "flow Data (board_page T email doc_id build commit offline) = Data"
  by (simp add: board_page_def reading del: append.simps)

end
