(* ===== verification/TodoView.thy ===== *)
theory TodoView
  imports Pages Signals
begin

text \<open>
  The todo page of the default skin, \<open>features/todo/components\<close>, piece by piece as the generated functions
  write it.  \<open>view_env\<close> holds what the page is rendered with beside its arguments: the templ library, the
  clock, the formats of dates, and the order in which Go ranges over the registered skins.
\<close>

record view_env =
  ve_templ :: templ
  ve_now :: int
  ve_day :: "int \<Rightarrow> bytes"
  ve_time :: "int \<Rightarrow> string"
  ve_skins :: "bytes list"

definition marshal_signals :: "(int \<Rightarrow> string) \<Rightarrow> signals \<Rightarrow> bytes" where
  "marshal_signals tm s = marshal (JObj (signals_fields tm s))"

definition age_of :: "view_env \<Rightarrow> todo \<Rightarrow> bytes" where
  "age_of V t = time_ago (ve_now V - td_created t) (ve_day V (td_created t))"

abbreviation todos_of :: "signals \<Rightarrow> todo list" where
  "todos_of s \<equiv> (case sg_todos s of None \<Rightarrow> [] | Some ts \<Rightarrow> ts)"

abbreviation suggestions_of :: "signals \<Rightarrow> string list" where
  "suggestions_of s \<equiv> (case sg_suggestions s of None \<Rightarrow> [] | Some xs \<Rightarrow> xs)"

text \<open>The skins the package imports register themselves, in the order of their paths.\<close>

definition registered_skins :: "piece list skins option" where
  "registered_skins = init_skins
     [(''basecoat'', basecoat_assets), (''daisyui'', daisyui_assets), (''morpheus'', morpheus_assets)] Map.empty"

definition active_skin_assets :: "bytes \<Rightarrow> piece list" where
  "active_skin_assets skin = (case registered_skins of None \<Rightarrow> []
     | Some sk \<Rightarrow> (case active_assets sk skin of None \<Rightarrow> [] | Some ps \<Rightarrow> ps))"

subsection \<open>The list\<close>

definition todo_item :: "view_env \<Rightarrow> todo \<Rightarrow> piece list" where
  \<open>todo_item V item =
     [Lit (''<div class="todo-item flex items-center gap-3 p-3 border-b border-base-300 hover:bg-base-200 ''
        @ ''transition-colors" id="''),
      Attr (''todo-'' @ td_id item),
      Lit ''"><input type="checkbox" class="checkbox checkbox-primary checkbox-sm"''] @
     (if td_completed item then [Lit '' checked'']
     else []) @
     [Lit '' data-on:click__prevent="'',
      Attr (''@post('/api/todos/'' @ td_id item @ ''/toggle')''),
      Lit ''"> ''] @
     (if td_completed item then [Lit ''<span class="flex-1 line-through text-base-content/50">'',
      Esc (td_title item),
      Lit ''</span> '']
     else [Lit ''<span class="flex-1">'',
      Esc (td_title item),
      Lit ''</span> '']) @
     [Lit ''<span class="text-xs text-base-content/40">'',
      Esc (age_of V item),
      Lit (''</span> <button type="button" class="btn btn-ghost btn-xs text-error transition-transform ''
        @ ''hover:scale-110 active:scale-95" title="Delete todo" data-on:click__prevent="''),
      Attr (''$confirmingDeleteId = '' @ safe_js_string (td_id item) @ ''; $confirmingDeleteTitle = '' @ safe_js_string (td_title item) @ ''; document.getElementById('confirm-delete-modal').showModal()''),
      Lit (''" data-variant="ghost"><svg xmlns="http://www.w3.org/2000/svg" class="h-4 w-4" viewBox="0 ''
        @ ''0 20 20" fill="currentColor"><path fill-rule="evenodd" d="M9 2a1 1 0 00-.894.553L7.382 ''
        @ ''4H4a1 1 0 000 2v10a2 2 0 002 2h8a2 2 0 002-2V6a1 1 0 100-2h-3.382l-.724-1.447A1 1 0 ''
        @ ''0011 2H9zM7 8a1 1 0 012 0v6a1 1 0 11-2 0V8zm5-1a1 1 0 00-1 1v6a1 1 0 102 0V8a1 1 0 00-1-1z" ''
        @ ''clip-rule="evenodd"></path></svg></button></div>'')]\<close>

definition create_form :: "piece list" where
  \<open>create_form =
     [Lit (''<form class="join w-full mb-4" data-on:submit__prevent="if (!$loading) { $loading = ''
        @ ''true; @post('/api/todos?clientID=' + encodeURIComponent($clientID || '' @ js_empty
        @ '') + '&idem_key=' + encodeURIComponent(crypto.randomUUID()), {contentType: 'form'}); ''
        @ ''}"><input type="text" name="title" class="input join-item flex-1 input-sm sm:input-md" ''
        @ ''placeholder="Add a new todo..." data-bind="newTitle"> <button type="submit" class="btn ''
        @ ''btn-primary join-item btn-sm sm:btn-md" data-attr:disabled="$loading || !$newTitle.trim()" ''
        @ ''data-variant="primary"><span class="inline-flex items-center gap-2"><span class="hidden ''
        @ ''sm:inline">Add</span> <svg xmlns="http://www.w3.org/2000/svg" class="h-4 w-4 sm:hidden" ''
        @ ''viewBox="0 0 20 20" fill="currentColor"><path fill-rule="evenodd" d="M10 3a1 1 0 011 ''
        @ ''1v5h5a1 1 0 110 2h-5v5a1 1 0 11-2 0v-5H4a1 1 0 110-2h5V4a1 1 0 011-1z" clip-rule="evenodd"></path></svg> ''
        @ ''<span class="loading loading-spinner loading-xs" data-show="$loading"></span></span></button></form>'')]\<close>

definition filter_tab :: "bytes \<Rightarrow> bytes \<Rightarrow> bytes \<Rightarrow> piece list" where
  \<open>filter_tab label val endpoint =
     [Lit ''<a href="#" role="tab" class="tab tab-sm sm:tab-md transition-all" data-class="'',
      Attr (''{ 'tab-active': $filter === '' @ apos @ val @ apos @ '' }''),
      Lit ''" data-on:click__prevent="'',
      Attr (''$loading = true; @get('' @ apos @ endpoint @ apos @ '')''),
      Lit ''">'',
      Esc label,
      Lit ''</a>'']\<close>

definition filter_tabs :: "piece list" where
  \<open>filter_tabs =
     [Lit ''<div class="tabs tabs-box mb-4 w-full" role="tablist">''] @
     filter_tab ''All'' ''all'' ''/api/todos?filter=all'' @
     filter_tab ''Active'' ''active'' ''/api/todos?filter=active'' @
     filter_tab ''Completed'' ''completed'' ''/api/todos?filter=completed'' @
     [Lit ''</div>'']\<close>

definition todo_list_region :: "view_env \<Rightarrow> signals \<Rightarrow> piece list" where
  \<open>todo_list_region V s =
     [Lit ''<div class="divide-y divide-base-200" id="todo-list">''] @
     (if todos_of s = [] then [Lit (''<div class="py-8 text-center text-base-content/40" id="todo-empty-state"><svg xmlns="http://www.w3.org/2000/svg" ''
        @ ''class="h-12 w-12 mx-auto mb-3 opacity-30" fill="none" viewBox="0 0 24 24" stroke="currentColor"><path ''
        @ ''stroke-linecap="round" stroke-linejoin="round" stroke-width="1.5" d="M9 5H7a2 2 0 00-2 ''
        @ ''2v12a2 2 0 002 2h8a2 2 0 002-2V7a2 2 0 00-2-2h-2M9 5a2 2 0 002 2h2a2 2 0 002-2M9 5a2 ''
        @ ''2 0 012-2h2a2 2 0 012 2"></path></svg><p>No todos here yet.</p><p class="text-xs mt-1">Add ''
        @ ''one above to get started, or click "Run durable workflow" in the sidebar to auto-create ''
        @ ''examples.</p></div>'')]
     else []) @
     concat (map (\<lambda>item. todo_item V item) (todos_of s)) @
     [Lit ''</div>'']\<close>

definition suggestions_list :: "bytes list \<Rightarrow> piece list" where
  \<open>suggestions_list xs =
     [Lit (''<div class="mb-4 p-3 bg-base-200/40 rounded-lg transition-all duration-500 animate-in ''
        @ ''fade-in slide-in-from-top-2" id="suggestions-region" data-show="$suggestions && $suggestions.length ''
        @ ''> 0"><div class="text-xs text-base-content/50 mb-2"><svg xmlns="http://www.w3.org/2000/svg" ''
        @ ''class="h-4 w-4 shrink-0 inline -mt-0.5 mr-1 text-secondary" viewBox="0 0 20 20" fill="currentColor"><path ''
        @ ''fill-rule="evenodd" d="M11.3 1.046A1 1 0 0112 2v5h4a1 1 0 01.82 1.573l-7 10A1 1 0 018 ''
        @ ''18v-5H4a1 1 0 01-.82-1.573l7-10a1 1 0 011.12-.38z" clip-rule="evenodd"></path></svg> ''
        @ ''Suggestions '' @ u_dash @ '' click to use:</div><div class="flex flex-wrap gap-2">'')] @
     concat (map (\<lambda>sug. [Lit (''<button type="button" class="btn btn-xs btn-outline btn-secondary transition-all hover:scale-105 ''
        @ ''active:scale-95 animate-in fade-in slide-in-from-bottom-1" style="animation-delay: 0.05s" ''
        @ ''data-on:click="''),
      Attr (''$newTitle = '' @ safe_js_string sug),
      Lit ''" data-variant="secondary">'',
      Esc sug,
      Lit ''</button>'']) xs) @
     [Lit ''</div></div>'']\<close>

definition delete_confirm_modal :: "piece list" where
  \<open>delete_confirm_modal =
     [Lit (''<dialog id="confirm-delete-modal" class="modal" data-on:close="$confirmingDeleteId = '' @ js_empty
        @ ''; $confirmingDeleteTitle = '' @ js_empty
        @ ''; $deleting = false"><div class="modal-box"><h3 class="font-bold text-lg text-error ''
        @ ''flex items-center gap-2"><svg xmlns="http://www.w3.org/2000/svg" class="h-5 w-5" viewBox="0 ''
        @ ''0 20 20" fill="currentColor"><path fill-rule="evenodd" d="M8.257 3.099c.765-1.36 2.722-1.36 ''
        @ ''3.486 0l5.58 9.92c.75 1.334-.213 2.98-1.742 2.98H4.42c-1.53 0-2.493-1.646-1.743-2.98l5.58-9.92zM11 ''
        @ ''13a1 1 0 11-2 0 1 1 0 012 0zm-1-8a1 1 0 00-1 1v3a1 1 0 002 0V6a1 1 0 00-1-1z" clip-rule="evenodd"></path></svg> ''
        @ ''Delete this todo?</h3><p class="py-4 text-sm">This will permanently remove <span class="font-semibold" ''
        @ ''data-text="$confirmingDeleteTitle"></span>. This can't be undone.</p><div class="modal-action"><button ''
        @ ''type="button" class="btn btn-ghost btn-sm" data-on:click="document.getElementById('confirm-delete-modal').close()" ''
        @ ''data-variant="ghost">Cancel</button> <button type="button" class="btn btn-error btn-sm ''
        @ ''transition-all" data-attr:disabled="$deleting" data-on:click="$deleting = true; document.getElementById('confirm-delete-modal').close(); ''
        @ ''@post('/api/todos/' + $confirmingDeleteId + '/delete?clientID=' + encodeURIComponent($clientID ''
        @ ''|| '' @ js_empty
        @ ''))" data-variant="destructive"><span class="inline-flex items-center gap-2"><span>Delete</span> ''
        @ ''<span class="loading loading-spinner loading-xs" data-show="$deleting"></span></span></button></div></div><form ''
        @ ''method="dialog" class="modal-backdrop"><button data-on:click="document.getElementById('confirm-delete-modal').close()">close</button></form></dialog>'')]\<close>

definition todo_workflow_panel :: "view_env \<Rightarrow> signals \<Rightarrow> piece list" where
  \<open>todo_workflow_panel V s =
     [Lit (''</div><!-- '' @ rep 8 u_dbl @ '' Durable Workflow tab '' @ rep 8 u_dbl @ '' -->'')] @
     (if sg_dag_nats_enabled s then [Lit (''<div class="p-4" data-show="$sidebarTab === 'workflow'"><div class="flex items-center ''
        @ ''justify-between mb-2"><div class="flex items-center gap-2"><div class="w-7 h-7 rounded-lg ''
        @ ''bg-accent/10 text-accent flex items-center justify-center shrink-0"><svg xmlns="http://www.w3.org/2000/svg" ''
        @ ''class="h-4 w-4 shrink-0" viewBox="0 0 20 20" fill="currentColor"><path d="M9 2a1 1 0 ''
        @ ''000 2h2a1 1 0 100-2H9z"></path> <path fill-rule="evenodd" d="M4 5a2 2 0 012-2 3 3 0 ''
        @ ''003 3h2a3 3 0 003-3 2 2 0 012 2v11a2 2 0 01-2 2H6a2 2 0 01-2-2V5zm3 4a1 1 0 000 2h.01a1 ''
        @ ''1 0 100-2H7zm3 0a1 1 0 000 2h3a1 1 0 100-2h-3zm-3 4a1 1 0 100 2h.01a1 1 0 100-2H7zm3 ''
        @ ''0a1 1 0 100 2h3a1 1 0 100-2h-3z" clip-rule="evenodd"></path></svg></div><span class="text-xs ''
        @ ''font-semibold">Durable Workflow</span></div><span class="badge badge-xs badge-accent" ''
        @ ''data-variant="accent">DagNats</span></div><ul class="steps steps-vertical w-full mb-3 ''
        @ ''text-xs"><li class="step transition-all duration-500" data-class="''),
      Attr (''{'step-primary': $techStep === 'workflow' && $onboardingActive && !$workflowCompleted '' @ ''&& $onboardingStep === 1, 'step-success': $workflowCompleted}''),
      Lit ''">1. Greeting</li><li class="step transition-all duration-500" data-class="'',
      Attr (''{'step-primary': $techStep === 'workflow' && $onboardingActive && !$workflowCompleted '' @ ''&& $onboardingStep === 2, 'step-success': $workflowCompleted}''),
      Lit ''">2. Waiting for your first to-do</li><li class="step transition-all duration-500" data-class="'',
      Attr (''{'step-primary': $techStep === 'workflow' && $onboardingActive && !$workflowCompleted '' @ ''&& $onboardingStep === 3, 'step-success': $workflowCompleted}''),
      Lit ''">3. Creating example todo 1/3</li><li class="step transition-all duration-500" data-class="'',
      Attr (''{'step-primary': $techStep === 'workflow' && $onboardingActive && !$workflowCompleted '' @ ''&& $onboardingStep === 4, 'step-success': $workflowCompleted}''),
      Lit ''">4. Creating example todo 2/3</li><li class="step transition-all duration-500" data-class="'',
      Attr (''{'step-primary': $techStep === 'workflow' && $onboardingActive && !$workflowCompleted '' @ ''&& $onboardingStep === 5, 'step-success': $workflowCompleted}''),
      Lit ''">5. Creating example todo 3/3</li><li class="step transition-all duration-500" data-class="'',
      Attr (''{'step-primary': $techStep === 'workflow' && $onboardingActive && !$workflowCompleted '' @ ''&& $onboardingStep === 6, 'step-success': $workflowCompleted}''),
      Lit (''">6. Finalize</li></ul><div class="mb-3 p-2 rounded-lg bg-accent/10 text-accent text-xs ''
        @ ''flex items-center gap-2 transition-all duration-500 animate-in fade-in" data-show="$onboardingActive ''
        @ ''&& !$workflowCompleted && $onboardingStep === 2"><svg xmlns="http://www.w3.org/2000/svg" ''
        @ ''class="h-4 w-4 shrink-0" viewBox="0 0 20 20" fill="currentColor"><path fill-rule="evenodd" ''
        @ ''d="M18 10a8 8 0 11-16 0 8 8 0 0116 0zm-7-4a1 1 0 11-2 0 1 1 0 012 0zM9 9a1 1 0 000 2v3a1 ''
        @ ''1 0 001 1h1a1 1 0 100-2v-2a1 1 0 00-1-1H9z" clip-rule="evenodd"></path></svg> <span>Waiting ''
        @ ''for your next to-do. Add any task above to continue the workflow.</span></div><button ''
        @ ''class="btn btn-accent btn-sm w-full transition-all duration-200 hover:scale-[1.02] active:scale-98" ''
        @ ''data-attr:disabled="$onboardingActive && !$workflowCompleted" data-on:click="$sidebarTab ''
        @ ''= 'workflow'; $techStep = 'workflow'; $onboardingActive = true; $workflowCompleted = ''
        @ ''false; @post('/api/onboarding/start?clientID=' + encodeURIComponent($clientID || '' @ js_empty
        @ ''))" data-variant="accent"><span class="inline-flex items-center gap-2"><span data-show="!$onboardingActive ''
        @ ''|| $workflowCompleted"><svg xmlns="http://www.w3.org/2000/svg" class="h-4 w-4 shrink-0 ''
        @ ''inline -mt-0.5 mr-1" viewBox="0 0 20 20" fill="currentColor"><path fill-rule="evenodd" ''
        @ ''d="M10 18a8 8 0 100-16 8 8 0 000 16zM9.555 7.168A1 1 0 008 8v4a1 1 0 001.555.832l3-2a1 ''
        @ ''1 0 000-1.664l3-2z" clip-rule="evenodd"></path></svg> Run durable workflow</span> <span ''
        @ ''data-show="$onboardingActive && !$workflowCompleted" class="inline-flex items-center ''
        @ ''gap-1.5"><span class="loading loading-spinner loading-xs"></span> <span data-text="'Running '' @ apos
        @ '' + ($onboardingStep || 1) + '/' + ($onboardingTotal || 6) + '' @ apos @ u_dots @ apos
        @ ''"></span></span></span></button> '')] @
     (if sg_onboarding_active s \<and> sg_workflow_completed s then [Lit (''<div class="mt-2 flex items-center gap-1.5 text-xs text-success transition-all duration-500 ''
        @ ''animate-in fade-in slide-in-from-bottom-1"><svg xmlns="http://www.w3.org/2000/svg" class="h-4 ''
        @ ''w-4 shrink-0" viewBox="0 0 20 20" fill="currentColor"><path fill-rule="evenodd" d="M10 ''
        @ ''18a8 8 0 100-16 8 8 0 000 16zm3.707-9.293a1 1 0 00-1.414-1.414L9 10.586 7.707 9.293a1 ''
        @ ''1 0 00-1.414 1.414l2 2a1 1 0 001.414 0l4-4z" clip-rule="evenodd"></path></svg> <span>Workflow ''
        @ ''completed '' @ u_dash @ '' 3 example todos created via DagNats.</span></div>'')]
     else []) @
     [Lit ''</div>'']
     else []) @
     [Lit ''</div><!-- /right sidebar --></div><!-- /grid -->''] @
     delete_confirm_modal @
     [Lit ''</div><div class="toast toast-end" id="retry-toast" data-show="$loading"></div></div>'']\<close>

definition todo_queue_panels :: "view_env \<Rightarrow> signals \<Rightarrow> piece list" where
  \<open>todo_queue_panels V s =
     [Lit (''</div></div><!-- '' @ rep 8 u_dbl @ '' Queue + Retry tab (hard-coded tasks, no LLM) '' @ rep 8 u_dbl
        @ '' --><div class="p-4" data-show="$sidebarTab === 'queue'"><div class="flex items-center ''
        @ ''justify-between mb-2"><div class="flex items-center gap-2"><div class="w-7 h-7 rounded-lg ''
        @ ''bg-secondary/10 text-secondary flex items-center justify-center shrink-0"><svg xmlns="http://www.w3.org/2000/svg" ''
        @ ''class="h-4 w-4 shrink-0" viewBox="0 0 20 20" fill="currentColor"><path fill-rule="evenodd" ''
        @ ''d="M10 18a8 8 0 100-16 8 8 0 000 16zm1-12a1 1 0 10-2 0v4a1 1 0 00.293.707l2.828 2.829a1 ''
        @ ''1 0 101.415-1.415L11 9.586V6z" clip-rule="evenodd"></path></svg></div><span class="text-xs ''
        @ ''font-semibold">Queue + Retry</span></div><div class="flex gap-1"><span class="badge ''
        @ ''badge-xs badge-secondary" data-variant="secondary">goqite</span> <span class="badge ''
        @ ''badge-xs badge-ghost" data-variant="ghost">retry-go</span></div></div><div class="text-xs ''
        @ ''text-base-content/60 mb-3">Enqueues a hard-coded background job that fails twice then ''
        @ ''succeeds '' @ u_dash
        @ '' exercising the queue + retry layer end-to-end (no LLM involved).</div><ul class="steps ''
        @ ''steps-vertical w-full mb-3 text-xs"><li class="step transition-all duration-500" data-class="''),
      Attr ''{'step-success': $demoStep >= 2, 'step-primary text-base-content': $demoStep === 1}'',
      Lit ''">Enqueue hard-coded job (goqite)</li><li class="step transition-all duration-500" data-class="'',
      Attr ''{'step-success': $demoStep >= 3, 'step-primary text-base-content': $demoStep === 2}'',
      Lit (''">Retry on simulated failure (retry-go)<span class="inline text-xs text-base-content/60 ''
        @ ''ml-1 normal-case" data-show="$lastRetryStatus === 'attempt'" data-text="'Retrying '' @ u_dash
        @ '' attempt ' + ($lastRetryAttempt || 1) + ' (retry-go)'"></span></li><li class="step transition-all ''
        @ ''duration-500" data-class="''),
      Attr (''{'step-success': $demoStep >= 3 && $techPhase !== 'error', 'step-primary text-base-content': '' @ ''$demoStep === 3 && $techPhase === 'error'}''),
      Lit (''">Job completes</li></ul><form data-on:submit__prevent="$techStep = 'retry-demo'; $demoStep ''
        @ ''= 1; $suggestPending = true; @post('/api/todos/retry-demo?clientID=' + encodeURIComponent($clientID ''
        @ ''|| '' @ js_empty
        @ ''))" class="contents"><button class="btn btn-secondary btn-sm w-full transition-all duration-200 ''
        @ ''hover:scale-[1.02] active:scale-98" type="submit" title="Enqueue a hard-coded job (goqite) ''
        @ ''that runs through retry-go: failure '' @ u_arrow @ '' retry '' @ u_arrow
        @ '' success" data-variant="secondary"><span class="inline-flex items-center gap-2"><span ''
        @ ''data-show="!$suggestPending">Run queue + retry demo</span> <span data-show="$suggestPending" ''
        @ ''class="inline-flex items-center gap-1.5"><span class="loading loading-spinner loading-xs"></span> ''
        @ ''<span>Running demo'' @ u_dots
        @ ''</span></span></span></button></form><div class="mt-2 flex items-center gap-1.5 text-xs ''
        @ ''text-success transition-all duration-500" data-show="$aiStep >= 3 && !$aiPending && ''
        @ ''$aiPhase !== 'error'" data-init__delay.4s="$aiStep = 0"><svg xmlns="http://www.w3.org/2000/svg" ''
        @ ''class="h-4 w-4 shrink-0" viewBox="0 0 20 20" fill="currentColor"><path fill-rule="evenodd" ''
        @ ''d="M10 18a8 8 0 100-16 8 8 0 000 16zm3.707-9.293a1 1 0 00-1.414-1.414L9 10.586 7.707 ''
        @ ''9.293a1 1 0 00-1.414 1.414l2 2a1 1 0 001.414 0l4-4z" clip-rule="evenodd"></path></svg> ''
        @ ''<span>Demo completed</span></div></div><!-- '' @ rep 8 u_dbl
        @ '' AI Suggest tab (separate affordance, calls GoAI/Groq) '' @ rep 8 u_dbl @ '' -->'')] @
     (if sg_llm_enabled s \<or> sg_simulated_llm s then [Lit (''<div class="p-4" data-show="$sidebarTab === 'ai'"><div class="flex items-center justify-between ''
        @ ''mb-2"><div class="flex items-center gap-2"><div class="w-7 h-7 rounded-lg bg-primary/10 ''
        @ ''text-primary flex items-center justify-center shrink-0"><svg xmlns="http://www.w3.org/2000/svg" ''
        @ ''class="h-4 w-4 shrink-0" viewBox="0 0 20 20" fill="currentColor"><path fill-rule="evenodd" ''
        @ ''d="M11.3 1.046A1 1 0 0112 2v5h4a1 1 0 01.82 1.573l-7 10A1 1 0 018 18v-5H4a1 1 0 01-.82-1.573l7-10a1 ''
        @ ''1 0 011.12-.38z" clip-rule="evenodd"></path></svg></div><span class="text-xs font-semibold">AI ''
        @ ''Suggest</span></div><span class="badge badge-xs badge-primary" data-variant="primary">GoAI</span></div><div ''
        @ ''class="text-xs text-base-content/60 mb-3">Asks the configured LLM (Groq via GoAI) for ''
        @ ''3 todo suggestions. The request is queued (goqite) and retried (retry-go) like any slow, ''
        @ ''failure-prone call.</div><ul class="steps steps-vertical w-full mb-3 text-xs"><li class="step ''
        @ ''transition-all duration-500" data-class="''),
      Attr (''{'step-primary text-base-content': $aiStep >= 1 && $aiPending, 'step-success': $aiStep '' @ ''>= 1 && !$aiPending && $aiPhase !== 'error', 'step-error': $aiPhase === 'error'}''),
      Lit ''">Queue suggest job (goqite)</li><li class="step transition-all duration-500" data-class="'',
      Attr (''{'step-primary text-base-content': $aiStep >= 1 && $aiPending, 'step-success': $aiStep '' @ ''>= 1 && !$aiPending && $aiPhase !== 'error', 'step-error': $aiPhase === 'error'}''),
      Lit (''">Retry on transient error (retry-go)<span class="inline text-xs text-base-content/60 ''
        @ ''ml-1 normal-case" data-show="$lastRetryStatus === 'attempt'" data-text="'Retrying '' @ u_dash
        @ '' attempt ' + ($lastRetryAttempt || 1) + ' (retry-go)'"></span></li><li class="step transition-all ''
        @ ''duration-500" data-class="''),
      Attr (''{'step-primary': $aiStep >= 3 && $aiPending, 'step-success': $aiStep >= 3 && !$aiPending '' @ ''&& $aiPhase !== 'error', 'step-error': $aiPhase === 'error'}''),
      Lit (''">Return suggestions</li></ul><button class="btn btn-primary btn-sm w-full transition-all ''
        @ ''duration-200 hover:scale-[1.02] active:scale-98" data-on:click="$aiStep = 1; $aiPending ''
        @ ''= true; @post('/api/todos/suggest?clientID=' + encodeURIComponent($clientID || '' @ js_empty
        @ '') + '&partial=' + encodeURIComponent($newTitle))" title="Ask the configured LLM (Groq) ''
        @ ''for 3 todo suggestions via goqite + retry-go" data-variant="primary"><span class="inline-flex ''
        @ ''items-center gap-2"><svg xmlns="http://www.w3.org/2000/svg" class="h-4 w-4 shrink-0" ''
        @ ''viewBox="0 0 20 20" fill="currentColor"><path fill-rule="evenodd" d="M11.3 1.046A1 1 ''
        @ ''0 0112 2v5h4a1 1 0 01.82 1.573l-7 10A1 1 0 018 18v-5H4a1 1 0 01-.82-1.573l7-10a1 1 0 ''
        @ ''011.12-.38z" clip-rule="evenodd"></path></svg> <span data-show="!$aiPending">AI Suggest</span> ''
        @ ''<span data-show="$aiPending" class="inline-flex items-center gap-1.5"><span class="loading ''
        @ ''loading-spinner loading-xs"></span> <span>Asking AI'' @ u_dots
        @ ''</span></span></span></button><div class="mt-2 flex items-center gap-1.5 text-xs text-success ''
        @ ''transition-all duration-500" data-show="$aiStep >= 3 && !$aiPending && $aiPhase !== '' @ apos
        @ ''error'" data-init__delay.4s="$aiStep = 0"><svg xmlns="http://www.w3.org/2000/svg" class="h-4 ''
        @ ''w-4 shrink-0" viewBox="0 0 20 20" fill="currentColor"><path fill-rule="evenodd" d="M10 ''
        @ ''18a8 8 0 100-16 8 8 0 000 16zm3.707-9.293a1 1 0 00-1.414-1.414L9 10.586 7.707 9.293a1 ''
        @ ''1 0 00-1.414 1.414l2 2a1 1 0 001.414 0l4-4z" clip-rule="evenodd"></path></svg> <span>Suggestions ''
        @ ''ready</span></div></div>'')]
     else [])\<close>

definition todo_async_tabs :: "view_env \<Rightarrow> signals \<Rightarrow> piece list" where
  \<open>todo_async_tabs V s =
     [Lit (''</div></div></div><!-- '' @ rep 12 u_line @ '' RIGHT: ASYNC LAYERS (2/5) '' @ rep 12 u_line
        @ '' --><div class="lg:col-span-2 space-y-4"><!-- '' @ rep 3 u_line @ '' Realtime Card '' @ rep 3 u_line
        @ '' --><div class="card bg-base-100 shadow-sm border border-base-200 transition-all hover:shadow-md ''
        @ ''duration-300"><div class="card-body p-4"><div class="flex items-center justify-between"><div ''
        @ ''class="flex items-center gap-2"><div class="w-7 h-7 rounded-lg bg-info/10 text-info ''
        @ ''flex items-center justify-center"><svg xmlns="http://www.w3.org/2000/svg" class="h-4 ''
        @ ''w-4" viewBox="0 0 20 20" fill="currentColor"><path fill-rule="evenodd" d="M11.3 1.046A1 ''
        @ ''1 0 0112 2v5h4a1 1 0 01.82 1.573l-7 10A1 1 0 018 18v-5H4a1 1 0 01-.82-1.573l7-10a1 1 ''
        @ ''0 011.12-.38z" clip-rule="evenodd"></path></svg></div><span class="text-xs font-semibold">Realtime</span></div><span ''
        @ ''class="badge badge-xs badge-ghost" data-text="$realtimeKind" data-variant="ghost"></span></div><div ''
        @ ''class="mt-3"><div class="flex items-center gap-2"><span class="online-pill"><span class="pulse-dot"></span> ''
        @ ''<span class="pill-online" data-text="$connectedClients + ' online'"></span> <span class="pill-offline">offline</span></span></div></div><div ''
        @ ''class="mt-2 text-[0.6rem] text-base-content/30 leading-relaxed">Every CRUD mutation ''
        @ ''streams through PocketBase realtime, scoped to your own records. Open this page in two ''
        @ ''tabs to watch todos sync live.</div></div></div><!-- '' @ rep 3 u_line
        @ '' Async Demo Tabs: Queue + Retry | AI Suggest | Durable Workflow '' @ rep 3 u_line
        @ nl 4 @ ''This single card holds the three async-layer demos as DaisyUI tabs so''
        @ nl 4 @ ''each demo's content lives INSIDE its own tab container. $sidebarTab''
        @ nl 4 @ ''selects the active tab (seeded "queue"). Queue + Retry demos goqite +''
        @ nl 4 @ ''retry-go with HARD-CODED tasks (no LLM). AI Suggest is a SEPARATE''
        @ nl 4 @ ''affordance that calls the configured GoAI/Groq client. Durable Workflow''
        @ nl 4 @ ''shows the DagNats event-sourced pipeline. --><div class="card bg-base-100 shadow-sm ''
        @ ''border border-base-200 transition-all hover:shadow-md duration-300 overflow-visible"><div ''
        @ ''class="card-body p-4"><div class="tabs tabs-box w-full mt-0 mb-2" role="tablist"><button ''
        @ ''class="tab tab-sm flex-1 transition-all" data-on:click="$sidebarTab = 'queue'" data-class="''),
      Attr ''{'tab-active': $sidebarTab === 'queue'}'',
      Lit ''">Queue + Retry</button> ''] @
     (if sg_llm_enabled s \<or> sg_simulated_llm s then [Lit (''<button class="tab tab-sm flex-1 transition-all" data-on:click="$sidebarTab = 'ai'" ''
        @ ''data-class="''),
      Attr ''{'tab-active': $sidebarTab === 'ai'}'',
      Lit ''">AI Suggest</button> '']
     else []) @
     (if sg_dag_nats_enabled s then [Lit (''<button class="tab tab-sm flex-1 transition-all" data-on:click="$sidebarTab = 'workflow'" ''
        @ ''data-class="''),
      Attr ''{'tab-active': $sidebarTab === 'workflow'}'',
      Lit ''">Durable Workflow</button>'']
     else [])\<close>

definition todo_list :: "view_env \<Rightarrow> signals \<Rightarrow> piece list" where
  \<open>todo_list V s =
     [Lit (''<div class="max-w-5xl mx-auto mt-8 px-4 animate-in fade-in zoom-in-95 animate-duration-500"><div ''
        @ ''data-signals="''),
      Attr (marshal_signals (ve_time V) s),
      Lit (''" data-on:gogogo:queued__window="$loading = false; $newTitle = '' @ js_empty
        @ ''; $deleting = false; $confirmingDeleteId = '' @ js_empty @ ''; $confirmingDeleteTitle = '' @ js_empty
        @ ''"><!-- '' @ rep 15 u_dbl @ '' HEADER '' @ rep 15 u_dbl
        @ '' --><div class="flex items-center justify-between mb-6 overflow-hidden"><div class="flex ''
        @ ''items-center gap-3"><div class="w-9 h-9 rounded-xl bg-primary text-primary-content flex ''
        @ ''items-center justify-center shadow-sm"><svg xmlns="http://www.w3.org/2000/svg" class="h-5 ''
        @ ''w-5" viewBox="0 0 20 20" fill="currentColor"><path d="M10 2a6 6 0 00-6 6v3.586l-.707.707A1 ''
        @ ''1 0 004 14h12a1 1 0 00.707-1.707L16 11.586V8a6 6 0 00-6-6zM10 18a3 3 0 01-3-3h6a3 3 ''
        @ ''0 01-3 3z"></path></svg></div><div class="min-w-0"><h1 class="text-xl font-bold">Todo ''
        @ ''App</h1><p class="text-xs text-base-content/50 max-w-sm" data-test="strategy-subheader"><span ''
        @ ''class="font-medium">''),
      Esc (sg_store_label s),
      Lit (''</span> <span class="text-base-content/30 mx-1">'' @ u_dot @ ''</span> <span>''),
      Esc (sg_offline_label s),
      Lit (''</span></p></div></div><span class="online-pill" data-show="$connectedClients >= 0"><span ''
        @ ''class="pulse-dot"></span> <span class="pill-online" data-text="$connectedClients + ' ''
        @ ''online'"></span> <span class="pill-offline">offline</span> <span class="hidden sm:inline">'' @ u_dot
        @ '' <span class="pill-online" data-text="$realtimeKind"></span></span></span></div><!-- '' @ rep 15 u_dbl
        @ '' MAIN GRID '' @ rep 15 u_dbl @ '' --><div class="grid grid-cols-1 lg:grid-cols-5 gap-5"><!-- ''
        @ rep 12 u_line @ '' LEFT: TODO LIST (3/5) '' @ rep 12 u_line
        @ '' --><div class="lg:col-span-3 space-y-5"><div class="card bg-base-100 shadow-md transition-shadow ''
        @ ''hover:shadow-lg duration-300"><div class="card-body p-5"><h2 class="card-title text-lg ''
        @ ''mb-1">Tasks <span class="badge badge-ghost badge-sm" data-text="$itemCount + ' items'" ''
        @ ''data-variant="ghost"></span></h2>'')] @
     create_form @
     suggestions_list (suggestions_of s) @
     filter_tabs @
     todo_list_region V s @
     (if 0 < sg_item_count s then [Lit (''<div class="flex justify-between items-center mt-4 pt-3 border-t border-base-200"><span ''
        @ ''class="text-xs text-base-content/50" data-text="$itemCount + ' items'"></span> <button ''
        @ ''class="btn btn-ghost btn-xs text-error transition-all hover:scale-105 active:scale-95" ''
        @ ''data-on:click="while (document.querySelector('.todo-item')) { @post('/api/todos/completed/delete?clientID=' ''
        @ ''+ encodeURIComponent($clientID || '' @ js_empty
        @ '')); break; }" data-variant="ghost">Clear completed</button></div>'')]
     else []) @ todo_async_tabs V s @ todo_queue_panels V s @ todo_workflow_panel V s\<close>

subsection \<open>Streams\<close>

definition realtime_stream :: "bytes \<Rightarrow> piece list" where
  \<open>realtime_stream url =
     [Lit ''<button id="sse-opener" class="hidden" data-on:click="'',
      Attr (''@get('' @ apos @ url @ ''?clientID=' + encodeURIComponent(window.__gogogoClientID || '' @ js_empty @ '') + '' @ js_empty @ '', { permanent: true })''),
      Lit (''" aria-hidden="true"></button><script type="module">''
        @ nl 2 @ ''// Stable per-tab client id. Persisted in sessionStorage so a reload''
        @ nl 2 @ ''// reuses the same id (no leaked SSE registration on the server) and''
        @ nl 2 @ ''// every mutation POSTs the matching id for BroadcastExcept.''
        @ nl 2 @ ''(function () {''
        @ nl 3 @ ''try {''
        @ nl 4 @ ''var id = sessionStorage.getItem('gogogo_client_id');''
        @ nl 4 @ ''if (!id) {''
        @ nl 5 @ ''id = 'tab-' + Math.random().toString(36).slice(2, 10);''
        @ nl 5 @ ''sessionStorage.setItem('gogogo_client_id', id);''
        @ nl 4 @ ''}''
        @ nl 4 @ ''window.__gogogoClientID = id;''
        @ nl 3 @ ''} catch (e) {''
        @ nl 4 @ ''window.__gogogoClientID = 'tab-' + Math.random().toString(36).slice(2, 10);''
        @ nl 3 @ ''}''
        @ newline
        @ nl 3 @ ''function openSSE() {''
        @ nl 4 @ ''var b = document.getElementById('sse-opener');''
        @ nl 4 @ ''if (b && !b.dataset.opened) { b.dataset.opened = '1'; b.click(); }''
        @ nl 3 @ ''}''
        @ nl 3 @ ''document.addEventListener('datastar-ready', openSSE);''
        @ nl 3 @ ''// Fallback if datastar-ready already fired.''
        @ nl 3 @ ''setTimeout(openSSE, 300);''
        @ newline
        @ nl 3 @ ''// Re-open when the tab returns to the foreground: backgrounded''
        @ nl 3 @ ''// tabs have their EventSource throttled/paused by the browser, so''
        @ nl 3 @ ''// they can miss frames. Re-clicking the opener makes Datastar''
        @ nl 3 @ ''// re-establish the permanent stream (the server replays missed''
        @ nl 3 @ ''// events via its buffer). This keeps realtime working for tabs the''
        @ nl 3 @ ''// user is NOT currently looking at.''
        @ nl 3 @ ''document.addEventListener('visibilitychange', function () {''
        @ nl 4 @ ''if (!document.hidden) {''
        @ nl 5 @ ''var b = document.getElementById('sse-opener');''
        @ nl 5 @ ''if (b) { b.dataset.opened = '' @ js_empty @ ''; openSSE(); }''
        @ nl 4 @ ''}''
        @ nl 3 @ ''});''
        @ nl 2 @ ''})();''
        @ nl 1 @ ''</script>'')]\<close>

definition pb_realtime_records :: "piece list" where
  \<open>pb_realtime_records =
     [Lit ''<button id="pb-realtime-resync" type="button" class="hidden" data-on:click="'',
      Attr ''@get('/api/todos/fragment')'',
      Lit (''" aria-hidden="true"></button><script type="module">''
        @ nl 2 @ ''// Re-fetch the todo list via the hidden @get button (markup above)''
        @ nl 2 @ ''// instead of calling actions.get() directly: Datastar's get action''
        @ nl 2 @ ''// needs a context (el/cleanups) the runtime only synthesizes when the''
        @ nl 2 @ ''// action is invoked through an attribute, so a bare actions.get(url)''
        @ nl 2 @ ''// crashes (cleanups is undefined). The server's /api/todos/fragment''
        @ nl 2 @ ''// response sets datastar-selector + datastar-mode headers so the morph''
        @ nl 2 @ ''// targets #todo-list (outer).''
        @ nl 2 @ ''var clientID = window.__gogogoClientID || ('tab-' + Math.random().toString(36).slice(2, ''
        @ ''10));''
        @ nl 3 @ ''var es = new EventSource('/api/realtime?clientId=' + encodeURIComponent(clientID));''
        @ nl 3 @ ''function subscribe(clientId) {''
        @ nl 4 @ ''fetch('/api/realtime', {''
        @ nl 5 @ ''method: 'POST',''
        @ nl 5 @ ''headers: { 'Content-Type': 'application/json' },''
        @ nl 5 @ ''body: JSON.stringify({ clientId: clientId, action: 'subscribe', subscriptions: ['todos'] ''
        @ ''})''
        @ nl 4 @ ''}).catch(function () {});''
        @ nl 3 @ ''}''
        @ nl 3 @ ''// Refetch the full fragment to recover any record changes that''
        @ nl 3 @ ''// arrived while this tab was disconnected or not yet subscribed.''
        @ nl 3 @ ''// PocketBase realtime has NO event replay buffer, so a create that''
        @ nl 3 @ ''// happens before the subscription is live (or while backgrounded)''
        @ nl 3 @ ''// would otherwise never reach this tab '' @ u_dash @ '' leaving the other tab''
        @ nl 3 @ ''// silently out of sync until a full reload.''
        @ nl 3 @ ''function resync() {''
        @ nl 4 @ ''var b = document.getElementById('pb-realtime-resync');''
        @ nl 4 @ ''if (b) { b.click(); }''
        @ nl 3 @ ''}''
        @ nl 3 @ ''es.addEventListener('PB_CONNECT', function (e) {''
        @ nl 4 @ ''var msg;''
        @ nl 4 @ ''try { msg = JSON.parse(e.data); } catch (_) { return; }''
        @ nl 4 @ ''if (!msg.clientId) { return; }''
        @ nl 3 @ ''// PocketBase sends RECORD events on `event: <topic>` (the subscription''
        @ nl 2 @ ''// topic, e.g. "todos"), NOT on the clientId channel (which only carries''
        @ nl 2 @ ''// control messages like PB_CONNECT / PB_SUBSCRIBED). Bind onRecord to the''
        @ nl 2 @ ''// "todos" topic so create/update/delete actually reach the browser.''
        @ nl 3 @ ''es.addEventListener('todos', onRecord);''
        @ nl 3 @ ''subscribe(msg.clientId);''
        @ nl 3 @ ''resync();''
        @ nl 3 @ ''});''
        @ nl 3 @ ''// Recover events missed while the tab was backgrounded. Browsers''
        @ nl 3 @ ''// throttle/pause EventSource when hidden, and PocketBase realtime''
        @ nl 3 @ ''// does NOT replay, so refetch the fragment when the tab becomes''
        @ nl 3 @ ''// visible again.''
        @ nl 3 @ ''document.addEventListener('visibilitychange', function () {''
        @ nl 4 @ ''if (!document.hidden) { resync(); }''
        @ nl 3 @ ''});''
        @ nl 3 @ ''function onRecord(e) {''
        @ nl 4 @ ''var msg;''
        @ nl 4 @ ''try { msg = JSON.parse(e.data); } catch (_) { return; }''
        @ nl 4 @ ''// Any record change (create/update/delete): refetch the fragment.''
        @ nl 4 @ ''// The server returns datastar-selector:#todo-list + datastar-mode:outer,''
        @ nl 4 @ ''// so the outer morph replaces the whole list '' @ u_dash @ '' deletes disappear and''
        @ nl 4 @ ''// creates/updates merge in. More robust than partial DOM edits and''
        @ nl 4 @ ''// keeps every tab consistent with the server.''
        @ nl 4 @ ''resync();''
        @ nl 3 @ ''}''
        @ nl 3 @ ''// EventSource auto-reconnects on drop; PB_CONNECT re-fires with a''
        @ nl 3 @ ''// fresh clientId, so we re-subscribe and re-bind on each connect.''
        @ newline
        @ nl 3 @ ''// CRDTStore doc-version watcher (Phase 3).''
        @ nl 3 @ ''//''
        @ nl 3 @ ''// When the SSE hub fans out a doc-version-bumped event''
        @ nl 3 @ ''// (from a peer instance via ApplyRemoteOp OR from a local''
        @ nl 3 @ ''// CRDTStore mutation), the server merges the $docVersion''
        @ nl 3 @ ''// signal on this client. We watch that signal and''
        @ nl 3 @ ''// re-fetch the fragment '' @ u_dash @ '' same path as a PB record event,''
        @ nl 3 @ ''// so the UX is identical regardless of which side wrote.''
        @ nl 3 @ ''//''
        @ nl 3 @ ''// We poll because Datastar v1 doesn't expose a signal-''
        @ nl 3 @ ''// change subscribe API; the signal lives on a document''
        @ nl 3 @ ''// attribute managed by Datastar. A 250ms tick is cheap''
        @ nl 3 @ ''// (one number compare) and well under human perception.''
        @ nl 3 @ ''var lastDocVersion = null;''
        @ nl 3 @ ''function watchDocVersion() {''
        @ nl 4 @ ''var sig = document.body && document.body.getAttribute('data-signals-docVersion');''
        @ nl 4 @ ''var v = sig == null ? null : Number(sig);''
        @ nl 4 @ ''if (v != null && v !== lastDocVersion) {''
        @ nl 5 @ ''lastDocVersion = v;''
        @ nl 5 @ ''if (window.__gogogoDocVersionReady) { resync(); }''
        @ nl 5 @ ''window.__gogogoDocVersionReady = true;''
        @ nl 4 @ ''}''
        @ nl 3 @ ''}''
        @ nl 3 @ ''document.addEventListener('datastar-ready', function () {''
        @ nl 4 @ ''watchDocVersion();''
        @ nl 4 @ ''setInterval(watchDocVersion, 250);''
        @ nl 3 @ ''});''
        @ nl 3 @ ''setTimeout(function () {''
        @ nl 4 @ ''watchDocVersion();''
        @ nl 4 @ ''setInterval(watchDocVersion, 250);''
        @ nl 3 @ ''}, 400);''
        @ nl 1 @ ''</script>'')]\<close>

subsection \<open>The page\<close>

definition todo_layout :: "view_env \<Rightarrow> bytes \<Rightarrow> signals \<Rightarrow> bytes \<Rightarrow> bytes \<Rightarrow> bytes \<Rightarrow> bool \<Rightarrow> bytes \<Rightarrow> piece list" where
  \<open>todo_layout V title s email build commit offline skin =
     [Lit (''<!doctype html><html lang="en" data-signals="{theme: 'light'}" data-attr:data-theme="$theme" ''
        @ ''data-class:dark="$theme === 'dark'"><head><meta charset="utf-8"><meta name="viewport" ''
        @ ''content="width=device-width, initial-scale=1"><title>''),
      Esc title,
      Lit ''</title>''] @
     active_skin_assets skin @
     theme_head @
     offline_sync_script offline @
     [Lit (''<style>''
        @ nl 4 @ ''/* Stacking container: fixed bottom-right, toasts stack upward. */''
        @ nl 4 @ ''#toast-container {''
        @ nl 5 @ ''z-index: 100;''
        @ nl 5 @ ''position: fixed;''
        @ nl 5 @ ''right: 1rem;''
        @ nl 5 @ ''bottom: 1rem;''
        @ nl 5 @ ''display: flex;''
        @ nl 5 @ ''flex-direction: column-reverse;''
        @ nl 5 @ ''gap: 0.5rem;''
        @ nl 5 @ ''max-width: 24rem;''
        @ nl 4 @ ''}''
        @ newline
        @ nl 4 @ ''/* Toast entrance: hidden + scaled-down, then the .open class''
        @ nl 4 @ ''   transitions it in. Driven by data-class on the toast root. */''
        @ nl 4 @ ''.toast-msg {''
        @ nl 5 @ ''opacity: 0;''
        @ nl 5 @ ''transform: scale(0.9) translateY(50px);''
        @ nl 5 @ ''transition: transform 0.5s, opacity 0.5s;''
        @ nl 4 @ ''}''
        @ nl 4 @ ''.toast-msg.open {''
        @ nl 5 @ ''transform: scale(1) translateY(0);''
        @ nl 5 @ ''opacity: 1;''
        @ nl 4 @ ''}''
        @ newline
        @ nl 4 @ ''/* Progress bar: shrinks from 100% to 0% over the toast lifetime.''
        @ nl 4 @ ''   Matches the toast-remove delay (3s for success/info, 8s for''
        @ nl 4 @ ''   error) '' @ u_dash @ '' the CSS animation here fires immediately on mount''
        @ nl 4 @ ''   because the bar is rendered together with the toast root. */''
        @ nl 4 @ ''.toast-timer-bar {''
        @ nl 5 @ ''height: 3px;''
        @ nl 5 @ ''border-radius: 999px;''
        @ nl 5 @ ''background: oklch(0.872 0.01 258.338 / 0.3);''
        @ nl 5 @ ''animation: toast-shrink 3s linear forwards;''
        @ nl 4 @ ''}''
        @ nl 4 @ ''.toast-msg:has(.alert-error) .toast-timer-bar {''
        @ nl 5 @ ''animation-duration: 8s;''
        @ nl 4 @ ''}''
        @ nl 4 @ ''@keyframes toast-shrink {''
        @ nl 5 @ ''from { width: 100%; }''
        @ nl 5 @ ''to { width: 0%; }''
        @ nl 4 @ ''}''
        @ newline
        @ nl 4 @ ''/* ---------- Todo item animations (self vs remote) ---------- */''
        @ newline
        @ nl 4 @ ''/* Default entry for the initial server-rendered list:''
        @ nl 4 @ ''   soft fade + tiny zoom. */''
        @ nl 4 @ ''.todo-item {''
        @ nl 5 @ ''animation: todo-enter-initial 300ms ease-out both;''
        @ nl 4 @ ''}''
        @ nl 4 @ ''@keyframes todo-enter-initial {''
        @ nl 5 @ ''from { opacity: 0; transform: scale(0.96); }''
        @ nl 5 @ ''to   { opacity: 1; transform: scale(1); }''
        @ nl 4 @ ''}''
        @ newline
        @ nl 4 @ ''/* Soft entry for every todo row (self or remote): fade + slight''
        @ nl 4 @ ''   zoom. The previous design tagged each row with a global''
        @ nl 4 @ ''   $lastItemSource signal, which '' @ u_dash @ '' because the whole list is''
        @ nl 4 @ ''   re-rendered on every broadcast '' @ u_dash @ '' stamped EVERY row as''
        @ nl 4 @ ''   "remote" and sprayed a floating "'' @ u_hook @ '' from elsewhere" badge''
        @ nl 4 @ ''   above all tasks (the reported blank/cut-off tooltip bug).''
        @ nl 4 @ ''   A bulk re-render cannot scope an origin to a single new''
        @ nl 4 @ ''   row, so we dropped per-row source tagging and keep one''
        @ nl 4 @ ''   clean entry animation for all arrivals. */''
        @ nl 4 @ ''.todo-item {''
        @ nl 5 @ ''position: relative;''
        @ nl 5 @ ''animation: todo-enter-initial 280ms ease-out both;''
        @ nl 4 @ ''}''
        @ newline
        @ nl 4 @ ''/* View Transitions: cross-fade when Datastar morphs the''
        @ nl 4 @ ''   list. Earlier we put `view-transition-name: todo-item`''
        @ nl 4 @ ''   on every .todo-item, which produced 'Unexpected''
        @ nl 4 @ ''   duplicate view-transition-name' + 'InvalidStateError''
        @ [CHR 0x27, CHR 0x0A, CHR 0x09, CHR 0x09, CHR 0x09, CHR 0x09]
        @ ''   in the console because multiple items in the same''
        @ nl 4 @ ''   patch share the same name. The View Transitions API''
        @ nl 4 @ ''   expects per-element unique names '' @ u_dash @ '' which we can't''
        @ nl 4 @ ''   hand out cheaply from a static CSS rule. So we skip''
        @ nl 4 @ ''   the explicit `view-transition-name` and rely on the''
        @ nl 4 @ ''   entry keyframes below (self/remote slide+fade) to''
        @ nl 4 @ ''   animate new arrivals; Datastar still calls''
        @ nl 4 @ ''   `document.startViewTransition()` around the morph,''
        @ nl 4 @ ''   so deleted/reordered items get a smooth blend from''
        @ nl 4 @ ''   the default browser cross-fade. */''
        @ nl 4 @ ''::view-transition-old(todo-item),''
        @ nl 4 @ ''::view-transition-new(todo-item) {''
        @ nl 5 @ ''animation-duration: 320ms;''
        @ nl 5 @ ''animation-timing-function: cubic-bezier(0.2, 0.8, 0.2, 1);''
        @ nl 4 @ ''}''
        @ nl 3 @ ''</style></head><body class="bg-base-200 min-h-screen">'')] @
     navbar (ve_templ V) email ''todo'' build commit @
     skin_selector (ve_templ V) (ve_skins V) skin @
     offline_banner offline @
     todo_list V s @
     [Lit ''<div id="toast-container"></div>''] @
     realtime_stream ''/api/todos/stream'' @
     pb_realtime_records @
     [Lit ''</body></html>'']\<close>

subsection \<open>Where the values stand\<close>

lemma flow_active_skin_assets [simp]: "flow Data (active_skin_assets skin) = Data"
  by (auto simp: active_skin_assets_def registered_skins_def register_skin_def active_assets_def active_skin_def
    split: option.splits)

lemma flow_todo_item [simp]: "flow Data (todo_item V item) = Data"
  by (simp add: todo_item_def reading del: append.simps)

lemma flow_todo_parts [simp]:
  "flow Data create_form = Data" "flow Data (filter_tab label val endpoint) = Data" "flow Data delete_confirm_modal = Data"
  by (simp_all add: create_form_def filter_tab_def delete_confirm_modal_def reading del: append.simps)

lemma flow_filter_tabs [simp]: "flow Data filter_tabs = Data"
  by (simp add: filter_tabs_def reading del: append.simps)

lemma flow_todo_list_region [simp]: "flow Data (todo_list_region V s) = Data"
  by (simp add: todo_list_region_def reading flow_concat del: append.simps)

lemma flow_suggestions_list [simp]: "flow Data (suggestions_list xs) = Data"
  by (simp add: suggestions_list_def reading flow_concat del: append.simps)

lemma flow_todo_async_tabs [simp]: "flow Data (todo_async_tabs V s) = Data"
  by (simp add: todo_async_tabs_def reading del: append.simps)

lemma flow_todo_queue_panels [simp]: "flow Data (todo_queue_panels V s) = Data"
  by (simp add: todo_queue_panels_def reading del: append.simps)

lemma flow_todo_workflow_panel [simp]: "flow Data (todo_workflow_panel V s) = Data"
  by (simp add: todo_workflow_panel_def reading del: append.simps)

lemma flow_todo_list [simp]: "flow Data (todo_list V s) = Data"
  by (simp add: todo_list_def reading del: append.simps)

lemma flow_streams [simp]: "flow Data (realtime_stream url) = Data" "flow Data pb_realtime_records = Data"
  by (simp_all add: realtime_stream_def pb_realtime_records_def reading del: append.simps)

lemma flow_todo_layout [simp]: "flow Data (todo_layout V title s email build commit offline skin) = Data"
  by (simp add: todo_layout_def reading del: append.simps)

end
