(* ===== verification/PageIds.thy ===== *)
theory PageIds
  imports ElementIds TodoView
begin

text \<open>
  The ids in the parts that the pages of all skins share, and in the page of the default skin.
\<close>

text \<open>The rows of the list have ids of their own.\<close>

lemma row_is_no_target [simp]:
  "''toast-container'' \<noteq> ''todo-'' @ x" "''suggestions-region'' \<noteq> ''todo-'' @ x"
  by simp_all

subsection \<open>Parts of every page\<close>

lemma seek_theme_head [simp]: "seek i (Data, Other, b) theme_head = (Data, Other, b)"
  by (simp add: theme_head_def seeking reading del: append.simps)

lemma seek_assets [simp]:
  "seek i (Data, Other, b) basecoat_assets = (Data, Other, b)" "seek i (Data, Other, b) morpheus_assets = (Data, Other, b)"
  "seek i (Data, Other, b) daisyui_assets = (Data, Other, b)"
  by (simp_all add: daisyui_assets_def basecoat_assets_def morpheus_assets_def seeking reading del: append.simps)

lemma seek_active_skin_assets [simp]: "seek i (Data, Other, b) (active_skin_assets skin) = (Data, Other, b)"
  by (auto simp: active_skin_assets_def registered_skins_def register_skin_def active_assets_def active_skin_def
    split: option.splits)

lemma seek_offline_sync_script [simp]: "seek i (Data, Other, b) (offline_sync_script on) = (Data, Other, b)"
  by (simp add: offline_sync_script_def seeking reading del: append.simps)

lemma seek_navbar [simp]: "seek i (Data, Other, b) (navbar T email active build commit) = (Data, Other, b)"
  by (simp add: navbar_def seeking reading del: append.simps)

lemma seek_skin_selector [simp]: "seek i (Data, Other, b) (skin_selector T names current) = (Data, Other, b)"
  by (simp add: skin_selector_def seeking reading seek_concat del: append.simps)

lemma seek_offline_banner [simp]:
  "i \<noteq> ''offline-banner'' \<Longrightarrow> i \<noteq> ''offline-banner-text'' \<Longrightarrow>
    seek i (Data, Other, b) (offline_banner on) = (Data, Other, b)"
  by (simp add: offline_banner_def seeking reading del: append.simps)

subsection \<open>The page of the default skin\<close>

lemma list_offered: "offers ''todo-list'' (todo_list_region V s)"
  unfolding todo_list_region_def append_Cons append_Nil
  by (rule offers_literal) (simp add: seeking reading del: append.simps)

lemma suggestions_offered: "offers ''suggestions-region'' (suggestions_list xs)"
  unfolding suggestions_list_def append_Cons append_Nil
  by (rule offers_literal) (simp add: seeking reading del: append.simps)

lemma offers_todo_list:
  "offers ''todo-list'' (todo_list V s)" "offers ''suggestions-region'' (todo_list V s)"
  unfolding todo_list_def
  by (rule offers_left [OF _ list_offered], simp | rule offers_left [OF _ suggestions_offered], simp
      | rule offers_right, simp add: reading del: append.simps)+

lemma toasts_offered: \<open>offers ''toast-container'' [Lit ''<div id="toast-container"></div>'']\<close>
  by (rule offers_literal) (simp add: seeking reading del: append.simps)

lemma todo_layout_targets:
  "has_id ''todo-list'' (todo_layout V title s email build commit offline skin)"
  "has_id ''suggestions-region'' (todo_layout V title s email build commit offline skin)"
  "has_id ''toast-container'' (todo_layout V title s email build commit offline skin)"
proof -
  have "offers ''todo-list'' (todo_layout V title s email build commit offline skin)"
    "offers ''suggestions-region'' (todo_layout V title s email build commit offline skin)"
    "offers ''toast-container'' (todo_layout V title s email build commit offline skin)"
    unfolding todo_layout_def
    by (rule offers_left [OF _ offers_todo_list(1)], simp | rule offers_left [OF _ offers_todo_list(2)], simp
        | rule offers_left [OF _ toasts_offered], simp add: reading del: append.simps
        | rule offers_right, simp add: reading del: append.simps)+
  then show "has_id ''todo-list'' (todo_layout V title s email build commit offline skin)"
    "has_id ''suggestions-region'' (todo_layout V title s email build commit offline skin)"
    "has_id ''toast-container'' (todo_layout V title s email build commit offline skin)"
    by (simp_all add: offersD)
qed

end
