(* ===== verification/BasecoatView.thy ===== *)
theory BasecoatView
  imports TodoView
begin

text \<open>
  The todo page of the basecoat skin, \<open>web/skins/basecoat\<close>: the same parts as the default page, in its own
  markup.
\<close>

definition bc_todo_item :: "view_env \<Rightarrow> todo \<Rightarrow> piece list" where
  \<open>bc_todo_item V item =
     [Lit ''<div class="item" data-variant="outline" data-size="sm" id="'',
      Attr (''todo-'' @ td_id item),
      Lit ''"><input type="checkbox"''] @
     (if td_completed item then [Lit '' checked'']
     else []) @
     [Lit '' data-on:click__prevent="'',
      Attr (''@post('/api/todos/'' @ td_id item @ ''/toggle?skin=basecoat')''),
      Lit ''"><section style="flex: 1;">''] @
     (if td_completed item then [Lit ''<span class="line-through soft">'',
      Esc (td_title item),
      Lit ''</span>'']
     else [Lit ''<span>'',
      Esc (td_title item),
      Lit ''</span>'']) @
     [Lit ''</section><span class="text-xs soft">'',
      Esc (age_of V item),
      Lit (''</span> <button type="button" style="display:inline-flex;align-items:center;justify-content:center;width:1.75rem;height:1.75rem;border-radius:0.5rem;color:var(--color-destructive,#ef4444);background:transparent;border:none;cursor:pointer;" ''
        @ ''data-variant="destructive" aria-label="Delete" data-on:click__prevent="''),
      Attr (''$confirmingDeleteId = '' @ safe_js_string (td_id item) @ ''; $confirmingDeleteTitle = '' @ safe_js_string (td_title item)),
      Lit (''"><svg xmlns="http://www.w3.org/2000/svg" width="14" height="14" viewBox="0 0 24 24" ''
        @ ''fill="none" stroke="currentColor" stroke-width="2"><polyline points="3 6 5 6 21 6"></polyline><path ''
        @ ''d="M19 6v14a2 2 0 01-2 2H7a2 2 0 01-2-2V6m3 0V4a2 2 0 012-2h4a2 2 0 012 2v2"></path></svg></button></div>'')]\<close>

definition bc_todo_list_region :: "view_env \<Rightarrow> signals \<Rightarrow> piece list" where
  \<open>bc_todo_list_region V s =
     [Lit ''<div id="todo-list">''] @
     (if todos_of s = [] then [Lit (''<div class="empty" id="todo-empty-state"><header><h3>No todos here yet.</h3><p>Add one ''
        @ ''above to get started, or click "Run durable workflow" in the sidebar to auto-create ''
        @ ''examples.</p></header></div>'')]
     else []) @
     concat (map (\<lambda>item. bc_todo_item V item) (todos_of s)) @
     [Lit ''</div>'']\<close>

definition bc_suggestions_list :: "bytes list \<Rightarrow> piece list" where
  \<open>bc_suggestions_list xs =
     [Lit (''<div id="suggestions-region" data-show="$suggestions && $suggestions.length > 0" class="mb-4 ''
        @ ''p-3 bg-base-200/40 rounded-lg"><div class="text-xs soft mb-2"><svg xmlns="http://www.w3.org/2000/svg" ''
        @ ''class="h-4 w-4 shrink-0 inline -mt-0.5 mr-1 text-secondary" viewBox="0 0 20 20" fill="currentColor"><path ''
        @ ''fill-rule="evenodd" d="M11.3 1.046A1 1 0 0112 2v5h4a1 1 0 01.82 1.573l-7 10A1 1 0 018 ''
        @ ''18v-5H4a1 1 0 01-.82-1.573l7-10a1 1 0 011.12-.38z" clip-rule="evenodd"></path></svg> ''
        @ ''Suggestions '' @ u_dash @ '' click to use:</div><div class="flex flex-wrap gap-2">'')] @
     concat (map (\<lambda>sug. [Lit ''<button type="button" class="btn btn-xs" data-variant="secondary" data-on:click="'',
      Attr (''$newTitle = '' @ safe_js_string sug),
      Lit ''">'',
      Esc sug,
      Lit ''</button>'']) xs) @
     [Lit ''</div></div>'']\<close>

definition bc_filter_tabs :: "signals \<Rightarrow> piece list" where
  \<open>bc_filter_tabs s =
     [Lit (''<div class="tabs mb-4" id="filter-tabs-basecoat"><nav role="tablist" aria-orientation="horizontal"><button ''
        @ ''type="button" role="tab" aria-selected="''),
      Attr (ternary (sg_filter s = ''all'') ''true'' ''false''),
      Lit ''" tabindex="'',
      Attr (ternary (sg_filter s = ''all'') ''0'' ''-1''),
      Lit (''" data-on:click__prevent="$loading = true; @get('/api/todos?filter=all&skin=basecoat')">All</button> ''
        @ ''<button type="button" role="tab" aria-selected="''),
      Attr (ternary (sg_filter s = ''active'') ''true'' ''false''),
      Lit ''" tabindex="'',
      Attr (ternary (sg_filter s = ''active'') ''0'' ''-1''),
      Lit (''" data-on:click__prevent="$loading = true; @get('/api/todos?filter=active&skin=basecoat')">Active</button> ''
        @ ''<button type="button" role="tab" aria-selected="''),
      Attr (ternary (sg_filter s = ''completed'') ''true'' ''false''),
      Lit ''" tabindex="'',
      Attr (ternary (sg_filter s = ''completed'') ''0'' ''-1''),
      Lit ''" data-on:click__prevent="$loading = true; @get('/api/todos?filter=completed&skin=basecoat')">Completed</button></nav></div>'']\<close>

definition bc_create_form :: "piece list" where
  \<open>bc_create_form =
     [Lit (''<form data-on:submit__prevent="if (!$loading) { $loading = true; @post('/api/todos?clientID=' ''
        @ ''+ encodeURIComponent($clientID || '' @ js_empty
        @ '') + '&idem_key=' + encodeURIComponent(crypto.randomUUID()) + '&skin=basecoat', {contentType: '' @ apos
        @ ''form'}); }" class="flex gap-2 mb-4"><div class="flex-1"><input type="text" name="title" ''
        @ ''class="input w-full" placeholder="Add a new todo..." data-bind="newTitle"></div><button ''
        @ ''type="submit" class="btn" data-variant="primary" data-attr:disabled="$loading || !$newTitle.trim()"><span ''
        @ ''data-show="!$loading">Add</span> <span data-show="$loading" class="flex items-center ''
        @ ''gap-1"><span class="spinner"></span> <span>Adding</span></span></button></form>'')]\<close>

definition bc_header :: "signals \<Rightarrow> piece list" where
  \<open>bc_header s =
     [Lit (''<div class="flex items-center justify-between"><div class="flex items-center gap-3"><div ''
        @ ''class="w-9 h-9 rounded-xl bg-primary text-primary-content flex items-center justify-center ''
        @ ''shadow-sm"><svg xmlns="http://www.w3.org/2000/svg" class="h-5 w-5" viewBox="0 0 20 20" ''
        @ ''fill="currentColor"><path d="M10 2a6 6 0 00-6 6v3.586l-.707.707A1 1 0 004 14h12a1 1 ''
        @ ''0 00.707-1.707L16 11.586V8a6 6 0 00-6-6zM10 18a3 3 0 01-3-3h6a3 3 0 01-3 3z"></path></svg></div><div ''
        @ ''class="min-w-0"><h1 class="text-xl font-bold">Todo App</h1><p class="text-xs text-base-content/50 ''
        @ ''max-w-sm"><span class="font-medium">''),
      Esc (sg_store_label s),
      Lit (''</span> <span class="text-base-content/30 mx-1">'' @ u_dot @ ''</span> <span>''),
      Esc (sg_offline_label s),
      Lit (''</span></p></div></div><span class="online-pill" data-show="$connectedClients >= 0"><span ''
        @ ''class="pulse-dot"></span> <span data-text="$connectedClients + ' online'"></span> <span ''
        @ ''class="hidden sm:inline">'' @ u_dot @ '' <span data-text="$realtimeKind"></span></span></span></div>'')]\<close>

definition bc_tasks_card :: "view_env \<Rightarrow> signals \<Rightarrow> piece list" where
  \<open>bc_tasks_card V s =
     [Lit (''<div class="card"><header><h2 class="card-title">Tasks</h2><div class="card-action"><span ''
        @ ''class="badge" data-variant="outline" data-text="$itemCount + ' items'"></span></div></header><section>'')] @
     bc_create_form @
     bc_suggestions_list (suggestions_of s) @
     bc_filter_tabs s @
     bc_todo_list_region V s @
     (if 0 < sg_item_count s then [Lit (''<div class="flex justify-between items-center mt-4 pt-3 border-t border-base-200"><span ''
        @ ''class="text-sm soft" data-text="$itemCount + ' items'"></span> <button type="button" ''
        @ ''class="btn" data-variant="outline" data-size="sm" data-on:click="while (document.querySelector('.todo-item')) ''
        @ ''{ @post('/api/todos/completed/delete?clientID=' + encodeURIComponent($clientID || '' @ js_empty
        @ '') + '&skin=basecoat'); break; }">Clear completed</button></div>'')]
     else []) @
     [Lit ''</section></div>'']\<close>

definition bc_realtime_card :: "piece list" where
  \<open>bc_realtime_card =
     [Lit (''<div class="card"><header><h2 class="card-title text-sm">Realtime</h2><div class="card-action"><span ''
        @ ''class="badge" data-variant="outline" data-text="$realtimeKind"></span></div></header><section><div ''
        @ ''class="flex items-center gap-2"><span class="online-pill"><span class="pulse-dot"></span> ''
        @ ''<span data-text="$connectedClients + ' online'"></span></span></div><p class="text-xs ''
        @ ''soft mt-2">Every CRUD mutation streams through PocketBase realtime, scoped to your own ''
        @ ''records. Open this page in two tabs to watch todos sync live.</p></section></div>'')]\<close>

definition bc_queue_retry_panel :: "piece list" where
  \<open>bc_queue_retry_panel =
     [Lit (''<div class="flex items-center justify-between"><div class="flex items-center gap-2"><div ''
        @ ''class="w-7 h-7 rounded-lg bg-secondary/10 text-secondary flex items-center justify-center ''
        @ ''shrink-0"><svg xmlns="http://www.w3.org/2000/svg" class="h-4 w-4 shrink-0" viewBox="0 ''
        @ ''0 20 20" fill="currentColor"><path fill-rule="evenodd" d="M10 18a8 8 0 100-16 8 8 0 ''
        @ ''000 16zm1-12a1 1 0 10-2 0v4a1 1 0 00.293.707l2.828 2.829a1 1 0 101.415-1.415L11 9.586V6z" ''
        @ ''clip-rule="evenodd"></path></svg></div><span class="text-xs font-semibold">Queue + Retry</span></div><div ''
        @ ''class="flex gap-1"><span class="badge" data-variant="secondary">goqite</span> <span ''
        @ ''class="badge" data-variant="outline">retry-go</span></div></div><p class="text-xs soft">Enqueues ''
        @ ''a hard-coded background job that fails twice then succeeds '' @ u_dash
        @ '' exercising the queue + retry layer end-to-end (no LLM involved).</p><ul class="steps ''
        @ ''steps-vertical w-full text-xs"><li class="step transition-all duration-500" data-class="''),
      Attr ''{'step-primary': $demoStep === 1, 'step-success': $demoStep >= 2}'',
      Lit ''">Enqueue hard-coded job (goqite)</li><li class="step transition-all duration-500" data-class="'',
      Attr ''{'step-primary': $demoStep === 2, 'step-success': $demoStep >= 3}'',
      Lit (''">Retry on simulated failure (retry-go) <span class="inline text-xs soft ml-1 normal-case" ''
        @ ''data-show="$lastRetryStatus === 'attempt'" data-text="'' @ apos @ u_dash
        @ '' attempt ' + ($lastRetryAttempt || 1)"></span></li><li class="step transition-all duration-500" ''
        @ ''data-class="''),
      Attr (''{'step-primary': $demoStep === 3 && $techPhase === 'error', 'step-success': $demoStep '' @ ''>= 3 && $techPhase !== 'error'}''),
      Lit (''">Job completes</li></ul><form data-on:submit__prevent="$techStep = 'retry-demo'; $demoStep ''
        @ ''= 1; $suggestPending = true; @post('/api/todos/retry-demo?clientID=' + encodeURIComponent($clientID ''
        @ ''|| '' @ js_empty
        @ '') + '&skin=basecoat')" class="contents"><button type="submit" class="btn w-full" data-variant="secondary" ''
        @ ''title="Enqueue a hard-coded job (goqite) that runs through retry-go: failure '' @ u_arrow
        @ '' retry '' @ u_arrow
        @ '' success"><span class="inline-flex items-center gap-2"><span data-show="!$suggestPending">Run ''
        @ ''queue + retry demo</span> <span data-show="$suggestPending" class="inline-flex items-center ''
        @ ''gap-1.5"><span class="spinner"></span> <span>Running demo'' @ u_dots
        @ ''</span></span></span></button></form><div class="alert alert-success text-xs py-2" data-show="$demoStep ''
        @ ''>= 3 && $techPhase !== 'error'" data-init__delay.4s="$demoStep = 0"><svg xmlns="http://www.w3.org/2000/svg" ''
        @ ''class="h-4 w-4 shrink-0" viewBox="0 0 20 20" fill="currentColor"><path fill-rule="evenodd" ''
        @ ''d="M10 18a8 8 0 100-16 8 8 0 000 16zm3.707-9.293a1 1 0 00-1.414-1.414L9 10.586 7.707 ''
        @ ''9.293a1 1 0 00-1.414 1.414l2 2a1 1 0 001.414 0l4-4z" clip-rule="evenodd"></path></svg> ''
        @ ''<span>Demo completed</span></div>'')]\<close>

definition bc_ai_suggest_panel :: "piece list" where
  \<open>bc_ai_suggest_panel =
     [Lit (''<div class="flex items-center justify-between"><div class="flex items-center gap-2"><div ''
        @ ''class="w-7 h-7 rounded-lg bg-primary/10 text-primary flex items-center justify-center ''
        @ ''shrink-0"><svg xmlns="http://www.w3.org/2000/svg" class="h-4 w-4 shrink-0" viewBox="0 ''
        @ ''0 20 20" fill="currentColor"><path fill-rule="evenodd" d="M11.3 1.046A1 1 0 0112 2v5h4a1 ''
        @ ''1 0 01.82 1.573l-7 10A1 1 0 018 18v-5H4a1 1 0 01-.82-1.573l7-10a1 1 0 011.12-.38z" clip-rule="evenodd"></path></svg></div><span ''
        @ ''class="text-xs font-semibold">AI Suggest</span></div><span class="badge" data-variant="primary">GoAI</span></div><p ''
        @ ''class="text-xs soft">Asks the configured LLM (Groq via GoAI) for 3 todo suggestions. ''
        @ ''The request is queued (goqite) and retried (retry-go) like any slow, failure-prone call.</p><ul ''
        @ ''class="steps steps-vertical w-full text-xs"><li class="step transition-all duration-500" ''
        @ ''data-class="''),
      Attr (''{'step-primary': $aiStep >= 1 && $aiPending, 'step-success': $aiStep >= 1 && !$aiPending '' @ ''&& $aiPhase !== 'error', 'step-error': $aiPhase === 'error'}''),
      Lit ''">Queue suggest job (goqite)</li><li class="step transition-all duration-500" data-class="'',
      Attr (''{'step-primary': $aiStep >= 1 && $aiPending, 'step-success': $aiStep >= 1 && !$aiPending '' @ ''&& $aiPhase !== 'error', 'step-error': $aiPhase === 'error'}''),
      Lit (''">Retry on transient error (retry-go) <span class="inline text-xs soft ml-1 normal-case" ''
        @ ''data-show="$lastRetryStatus === 'attempt'" data-text="'' @ apos @ u_dash
        @ '' attempt ' + ($lastRetryAttempt || 1)"></span></li><li class="step transition-all duration-500" ''
        @ ''data-class="''),
      Attr (''{'step-primary': $aiStep >= 3 && $aiPending, 'step-success': $aiStep >= 3 && !$aiPending '' @ ''&& $aiPhase !== 'error', 'step-error': $aiPhase === 'error'}''),
      Lit (''">Return suggestions</li></ul><button type="button" class="btn w-full" data-variant="primary" ''
        @ ''data-on:click="$aiStep = 1; $aiPending = true; @post('/api/todos/suggest?clientID=' ''
        @ ''+ encodeURIComponent($clientID || '' @ js_empty
        @ '') + '&partial=' + encodeURIComponent($newTitle) + '&skin=basecoat')" title="Ask the ''
        @ ''configured LLM (Groq) for 3 todo suggestions via goqite + retry-go"><span class="inline-flex ''
        @ ''items-center gap-2"><svg xmlns="http://www.w3.org/2000/svg" class="h-4 w-4 shrink-0" ''
        @ ''viewBox="0 0 20 20" fill="currentColor"><path fill-rule="evenodd" d="M11.3 1.046A1 1 ''
        @ ''0 0112 2v5h4a1 1 0 01.82 1.573l-7 10A1 1 0 018 18v-5H4a1 1 0 01-.82-1.573l7-10a1 1 0 ''
        @ ''011.12-.38z" clip-rule="evenodd"></path></svg> <span data-show="!$aiPending">AI Suggest</span> ''
        @ ''<span data-show="$aiPending" class="inline-flex items-center gap-1.5"><span class="spinner"></span> ''
        @ ''<span>Asking AI'' @ u_dots
        @ ''</span></span></span></button><div class="alert alert-success text-xs py-2" data-show="$aiStep ''
        @ ''>= 3 && !$aiPending && $aiPhase !== 'error'" data-init__delay.4s="$aiStep = 0"><svg ''
        @ ''xmlns="http://www.w3.org/2000/svg" class="h-4 w-4 shrink-0" viewBox="0 0 20 20" fill="currentColor"><path ''
        @ ''fill-rule="evenodd" d="M10 18a8 8 0 100-16 8 8 0 000 16zm3.707-9.293a1 1 0 00-1.414-1.414L9 ''
        @ ''10.586 7.707 9.293a1 1 0 00-1.414 1.414l2 2a1 1 0 001.414 0l4-4z" clip-rule="evenodd"></path></svg> ''
        @ ''<span>Suggestions ready</span></div>'')]\<close>

definition bc_durable_workflow_panel :: "signals \<Rightarrow> piece list" where
  \<open>bc_durable_workflow_panel s =
     [Lit (''<div class="flex items-center justify-between"><div class="flex items-center gap-2"><div ''
        @ ''class="w-7 h-7 rounded-lg bg-accent/10 text-accent flex items-center justify-center ''
        @ ''shrink-0"><svg xmlns="http://www.w3.org/2000/svg" class="h-4 w-4 shrink-0" viewBox="0 ''
        @ ''0 20 20" fill="currentColor"><path d="M9 2a1 1 0 000 2h2a1 1 0 100-2H9z"></path> <path ''
        @ ''fill-rule="evenodd" d="M4 5a2 2 0 012-2 3 3 0 003 3h2a3 3 0 003-3 2 2 0 012 2v11a2 2 ''
        @ ''0 01-2 2H6a2 2 0 01-2-2V5zm3 4a1 1 0 000 2h.01a1 1 0 100-2H7zm3 0a1 1 0 000 2h3a1 1 ''
        @ ''0 100-2h-3zm-3 4a1 1 0 100 2h.01a1 1 0 100-2H7zm3 0a1 1 0 100 2h3a1 1 0 100-2h-3z" clip-rule="evenodd"></path></svg></div><span ''
        @ ''class="text-xs font-semibold">Durable Workflow</span></div><span class="badge" data-variant="accent">DagNats</span></div><ul ''
        @ ''class="steps steps-vertical w-full text-xs"><li class="step transition-all duration-500" ''
        @ ''data-class="''),
      Attr (''{'step-primary': $techStep === 'workflow' && $onboardingActive && !$workflowCompleted '' @ ''&& $onboardingStep === 1, 'step-success': $workflowCompleted}''),
      Lit ''">1. Greeting</li><li class="step transition-all duration-500" data-class="'',
      Attr (''{'step-primary': $techStep === 'workflow' && $onboardingActive && !$workflowCompleted '' @ ''&& $onboardingStep === 2, 'step-success': $workflowCompleted}''),
      Lit ''">2. Waiting for your first to-do</li><li class="step transition-all duration-500" data-class="'',
      Attr (''{'step-primary': $techStep === 'workflow' && $onboardingActive && !$workflowCompleted '' @ ''&& $onboardingStep === 3, 'step-success': $workflowCompleted}''),
      Lit ''">3. Creating example todo 1/3</li><li class="step transition-all duration-500" data-class="'',
      Attr (''{'step-primary': $techStep === 'workflow' && $onboardingActive && !$workflowCompleted '' @ ''&& $onboardingStep === 4, 'step-success': $workflowCompleted}''),
      Lit ''">4. Creating example todo 2/3</li><li class="step transition-all duration-500" data-class="'',
      Attr (''{'step-primary': $techStep === 'workflow' && $onboardingActive && !$workflowCompleted '' @ ''&& $onboardingStep === 5, 'step-success': $workflowCompleted}''),
      Lit ''">5. Creating example todo 3/3</li><li class="step transition-all duration-500" data-class="'',
      Attr (''{'step-primary': $techStep === 'workflow' && $onboardingActive && !$workflowCompleted '' @ ''&& $onboardingStep === 6, 'step-success': $workflowCompleted}''),
      Lit ''">6. Finalize</li></ul><div class="alert text-xs py-2" data-class="'',
      Attr ''{'alert-info': $onboardingActive && !$workflowCompleted && $onboardingStep === 2}'',
      Lit (''" data-show="$onboardingActive && !$workflowCompleted && $onboardingStep === 2"><svg ''
        @ ''xmlns="http://www.w3.org/2000/svg" class="h-4 w-4 shrink-0" viewBox="0 0 20 20" fill="currentColor"><path ''
        @ ''fill-rule="evenodd" d="M18 10a8 8 0 11-16 0 8 8 0 0116 0zm-7-4a1 1 0 11-2 0 1 1 0 012 ''
        @ ''0zM9 9a1 1 0 000 2v3a1 1 0 001 1h1a1 1 0 100-2v-2a1 1 0 00-1-1H9z" clip-rule="evenodd"></path></svg> ''
        @ ''<span>Waiting for your next to-do. Add any task above to continue the workflow.</span></div><button ''
        @ ''type="button" class="btn w-full" data-variant="accent" data-attr:disabled="$onboardingActive ''
        @ ''&& !$workflowCompleted" data-on:click="$sidebarTab = 'workflow'; $techStep = 'workflow'; ''
        @ ''$onboardingActive = true; $workflowCompleted = false; @post('/api/onboarding/start?clientID=' ''
        @ ''+ encodeURIComponent($clientID || '' @ js_empty
        @ '') + '&skin=basecoat')"><span class="inline-flex items-center gap-2"><span data-show="!$onboardingActive ''
        @ ''|| $workflowCompleted"><svg xmlns="http://www.w3.org/2000/svg" class="h-4 w-4 shrink-0 ''
        @ ''inline -mt-0.5 mr-1" viewBox="0 0 20 20" fill="currentColor"><path fill-rule="evenodd" ''
        @ ''d="M10 18a8 8 0 100-16 8 8 0 000 16zM9.555 7.168A1 1 0 008 8v4a1 1 0 001.555.832l3-2a1 ''
        @ ''1 0 000-1.664l-3-2z" clip-rule="evenodd"></path></svg> Run durable workflow</span> <span ''
        @ ''data-show="$onboardingActive && !$workflowCompleted" class="inline-flex items-center ''
        @ ''gap-1.5"><span class="spinner"></span> <span data-text="'Running ' + ($onboardingStep ''
        @ ''|| 1) + '/' + ($onboardingTotal || 6) + '' @ apos @ u_dots @ apos
        @ ''"></span></span></span></button> '')] @
     (if sg_onboarding_active s \<and> sg_workflow_completed s then [Lit (''<div class="alert alert-success text-xs py-2"><svg xmlns="http://www.w3.org/2000/svg" ''
        @ ''class="h-4 w-4 shrink-0" viewBox="0 0 20 20" fill="currentColor"><path fill-rule="evenodd" ''
        @ ''d="M10 18a8 8 0 100-16 8 8 0 000 16zm3.707-9.293a1 1 0 00-1.414-1.414L9 10.586 7.707 ''
        @ ''9.293a1 1 0 00-1.414 1.414l2 2a1 1 0 001.414 0l4-4z" clip-rule="evenodd"></path></svg> ''
        @ ''<span>Workflow completed '' @ u_dash @ '' 3 example todos created via DagNats.</span></div>'')]
     else [])\<close>

definition bc_async_demos_card :: "signals \<Rightarrow> piece list" where
  \<open>bc_async_demos_card s =
     [Lit (''<div class="card overflow-visible"><header><h2 class="card-title text-sm">Async Demos</h2></header><section ''
        @ ''class="p-0"><div class="tabs w-full" id="async-demos-tabs-basecoat"><nav role="tablist" ''
        @ ''aria-orientation="horizontal" class="w-full grid grid-cols-3"><button type="button" ''
        @ ''role="tab" id="async-demos-tabs-tab-queue" aria-controls="async-demos-tabs-panel-queue" ''
        @ ''aria-selected="''),
      Attr (ternary (sg_sidebar_tab s = '''' \<or> sg_sidebar_tab s = ''queue'') ''true'' ''false''),
      Lit ''" tabindex="'',
      Attr (ternary (sg_sidebar_tab s = '''' \<or> sg_sidebar_tab s = ''queue'') ''0'' ''-1''),
      Lit ''" data-on:click__prevent="$sidebarTab = 'queue'">Queue + Retry</button> ''] @
     (if sg_llm_enabled s \<or> sg_simulated_llm s then [Lit (''<button type="button" role="tab" id="async-demos-tabs-tab-ai" aria-controls="async-demos-tabs-panel-ai" ''
        @ ''aria-selected="''),
      Attr (ternary (sg_sidebar_tab s = ''ai'') ''true'' ''false''),
      Lit ''" tabindex="'',
      Attr (ternary (sg_sidebar_tab s = ''ai'') ''0'' ''-1''),
      Lit ''" data-on:click__prevent="$sidebarTab = 'ai'">AI Suggest</button> '']
     else []) @
     (if sg_dag_nats_enabled s then [Lit (''<button type="button" role="tab" id="async-demos-tabs-tab-workflow" aria-controls="async-demos-tabs-panel-workflow" ''
        @ ''aria-selected="''),
      Attr (ternary (sg_sidebar_tab s = ''workflow'') ''true'' ''false''),
      Lit ''" tabindex="'',
      Attr (ternary (sg_sidebar_tab s = ''workflow'') ''0'' ''-1''),
      Lit ''" data-on:click__prevent="$sidebarTab = 'workflow'">Durable Workflow</button>'']
     else []) @
     [Lit (''</nav><div role="tabpanel" id="async-demos-tabs-panel-queue" aria-labelledby="async-demos-tabs-tab-queue" ''
        @ ''data-show="$sidebarTab === 'queue' || !$sidebarTab" class="p-4 space-y-3">'')] @
     bc_queue_retry_panel @
     [Lit ''</div>''] @
     (if sg_llm_enabled s \<or> sg_simulated_llm s then [Lit (''<div role="tabpanel" id="async-demos-tabs-panel-ai" aria-labelledby="async-demos-tabs-tab-ai" ''
        @ ''data-show="$sidebarTab === 'ai'" hidden class="p-4 space-y-3">'')] @
     bc_ai_suggest_panel @
     [Lit ''</div>'']
     else []) @
     (if sg_dag_nats_enabled s then [Lit (''<div role="tabpanel" id="async-demos-tabs-panel-workflow" aria-labelledby="async-demos-tabs-tab-workflow" ''
        @ ''data-show="$sidebarTab === 'workflow'" hidden class="p-4 space-y-3">'')] @
     bc_durable_workflow_panel s @
     [Lit ''</div>'']
     else []) @
     [Lit ''</div></section></div>'']\<close>

definition bc_todo_list :: "view_env \<Rightarrow> signals \<Rightarrow> piece list" where
  \<open>bc_todo_list V s =
     [Lit ''<div class="space-y-6" data-signals="'',
      Attr (marshal_signals (ve_time V) s),
      Lit (''" data-on:gogogo__queued__window="$loading = false; $newTitle = '' @ js_empty
        @ ''; $deleting = false; $confirmingDeleteId = '' @ js_empty @ ''; $confirmingDeleteTitle = '' @ js_empty
        @ ''; $aiStep = 0">'')] @
     bc_header s @
     [Lit (''<div class="grid grid-cols-1 lg:grid-cols-5 gap-5"><!-- LEFT: Tasks card (3/5) --><div ''
        @ ''class="lg:col-span-3 space-y-5">'')] @
     bc_tasks_card V s @
     [Lit ''</div><!-- RIGHT: Realtime + Async Demo Tabs (2/5) --><div class="lg:col-span-2 space-y-4">''] @
     bc_realtime_card @
     bc_async_demos_card s @
     [Lit ''</div></div></div>'']\<close>

definition bc_delete_confirm_modal :: "piece list" where
  \<open>bc_delete_confirm_modal =
     [Lit (''<dialog id="confirm-delete-modal" class="modal" data-on:close="$confirmingDeleteId = '' @ js_empty
        @ ''; $confirmingDeleteTitle = '' @ js_empty
        @ ''; $deleting = false"><div class="modal-box"><h3 class="font-bold text-lg text-destructive ''
        @ ''flex items-center gap-2"><svg xmlns="http://www.w3.org/2000/svg" class="h-5 w-5" viewBox="0 ''
        @ ''0 20 20" fill="currentColor"><path fill-rule="evenodd" d="M8.257 3.099c.765-1.36 2.722-1.36 ''
        @ ''3.486 0l5.58 9.92c.75 1.334-.213 2.98-1.742 2.98H4.42c-1.53 0-2.493-1.646-1.743-2.98l5.58-9.92zM11 ''
        @ ''13a1 1 0 11-2 0 1 1 0 012 0zm-1-8a1 1 0 00-1 1v3a1 1 0 002 0V6a1 1 0 00-1-1z" clip-rule="evenodd"></path></svg> ''
        @ ''Delete this todo?</h3><p class="py-4 text-sm">This will permanently remove <span class="font-semibold" ''
        @ ''data-text="$confirmingDeleteTitle"></span>. This can't be undone.</p><div class="modal-action"><button ''
        @ ''type="button" class="btn btn-sm" data-variant="ghost" data-on:click="document.getElementById('confirm-delete-modal').close()">Cancel</button> ''
        @ ''<button type="button" class="btn btn-sm" data-variant="destructive" data-attr:disabled="$deleting" ''
        @ ''data-on:click="$deleting = true; document.getElementById('confirm-delete-modal').close(); ''
        @ ''@post('/api/todos/' + $confirmingDeleteId + '/delete?clientID=' + encodeURIComponent($clientID ''
        @ ''|| '' @ js_empty
        @ '') + '&skin=basecoat')"><span class="inline-flex items-center gap-2"><span>Delete</span> ''
        @ ''<span class="spinner" data-show="$deleting"></span></span></button></div></div><form ''
        @ ''method="dialog" class="modal-backdrop"><button data-on:click="document.getElementById('confirm-delete-modal').close()">close</button></form></dialog>'')]\<close>

definition bc_sse_opener :: "piece list" where
  \<open>bc_sse_opener =
     [Lit ''<button id="sse-opener" class="hidden" data-on:click="'',
      Attr (''@get('/api/todos/stream?clientID=' + encodeURIComponent(window.__gogogoClientID || '' @ js_empty @ '') + '&skin=basecoat', { permanent: true })''),
      Lit (''" aria-hidden="true"></button><script type="module">''
        @ nl 2 @ ''(function () {''
        @ nl 3 @ ''try {''
        @ nl 4 @ ''var id = sessionStorage.getItem('gogogoClientID');''
        @ nl 4
        @ ''if (!id) { id = 'tab-' + Math.random().toString(36).slice(2, 10); sessionStorage.setItem('gogogoClientID', ''
        @ ''id); }''
        @ nl 4 @ ''window.__gogogoClientID = id;''
        @ nl 4 @ ''var b = document.getElementById('sse-opener');''
        @ nl 4 @ ''if (b) { b.click(); }''
        @ nl 3 @ ''} catch (e) {}''
        @ nl 2 @ ''})();''
        @ nl 2 @ ''document.addEventListener('visibilitychange', function () {''
        @ nl 3 @ ''if (document.hidden) { return; }''
        @ nl 3 @ ''var b = document.getElementById('sse-opener');''
        @ nl 3 @ ''if (b) { b.click(); }''
        @ nl 2 @ ''});''
        @ nl 1 @ ''</script>'')]\<close>

definition bc_pb_realtime :: "piece list" where
  \<open>bc_pb_realtime =
     [Lit ''<button id="pb-realtime-resync" type="button" class="hidden" data-on:click="'',
      Attr ''@get('/api/todos/fragment?skin=basecoat')'',
      Lit (''" aria-hidden="true"></button><script type="module">''
        @ nl 2 @ ''var clientID = 'pb-' + Math.random().toString(36).slice(2, 10);''
        @ nl 2 @ ''var es = new EventSource('/api/realtime?clientId=' + encodeURIComponent(clientID));''
        @ nl 2 @ ''function subscribe(clientId) {''
        @ nl 3 @ ''fetch('/api/realtime', {''
        @ nl 4 @ ''method: 'POST',''
        @ nl 4 @ ''headers: { 'Content-Type': 'application/json' },''
        @ nl 4 @ ''body: JSON.stringify({ clientId: clientId, action: 'subscribe', subscriptions: ['todos'] ''
        @ ''})''
        @ nl 3 @ ''}).catch(function () {});''
        @ nl 2 @ ''}''
        @ nl 2 @ ''function resync() {''
        @ nl 3 @ ''var b = document.getElementById('pb-realtime-resync');''
        @ nl 3 @ ''if (b) { b.click(); }''
        @ nl 2 @ ''}''
        @ nl 2 @ ''es.addEventListener('PB_CONNECT', function (e) {''
        @ nl 3 @ ''var msg;''
        @ nl 3 @ ''try { msg = JSON.parse(e.data); } catch (_) { return; }''
        @ nl 3 @ ''if (!msg.clientId) { return; }''
        @ nl 3 @ ''es.addEventListener('todos', function () { resync(); });''
        @ nl 3 @ ''subscribe(msg.clientId);''
        @ nl 3 @ ''resync();''
        @ nl 2 @ ''});''
        @ nl 2 @ ''document.addEventListener('visibilitychange', function () {''
        @ nl 3 @ ''if (!document.hidden) { resync(); }''
        @ nl 2 @ ''});''
        @ nl 1 @ ''</script>'')]\<close>

definition bc_todo_page :: "view_env \<Rightarrow> bytes \<Rightarrow> signals \<Rightarrow> bytes \<Rightarrow> bytes \<Rightarrow> bytes \<Rightarrow> bool \<Rightarrow> bytes \<Rightarrow> piece list" where
  \<open>bc_todo_page V title s email build commit offline skin =
     [Lit ''<!doctype html><html lang="en" data-signals="'',
      Attr ''{"theme":"light"}'',
      Lit (''" data-attr:data-theme="$theme" data-class:dark="$theme === 'dark'"><head><meta charset="utf-8"><meta ''
        @ ''name="viewport" content="width=device-width, initial-scale=1"><title>''),
      Esc title,
      Lit ''</title>''] @
     active_skin_assets skin @
     theme_head @
     offline_sync_script offline @
     [Lit ''</head><body class="surface text-base-content min-h-screen">''] @
     navbar (ve_templ V) email ''todo'' build commit @
     skin_selector (ve_templ V) (ve_skins V) skin @
     offline_banner offline @
     [Lit ''<main class="max-w-5xl mx-auto mt-8 px-4">''] @
     bc_todo_list V s @
     [Lit ''</main>''] @
     bc_delete_confirm_modal @
     [Lit ''<div class="toast toast-end" data-show="$loading"></div>''] @
     bc_sse_opener @
     bc_pb_realtime @
     [Lit ''</body></html>'']\<close>

subsection \<open>Where the values stand\<close>

lemma flow_bc_todo_item [simp]: "flow Data (bc_todo_item V item) = Data"
  by (simp add: bc_todo_item_def reading del: append.simps)

lemma flow_bc_todo_list_region [simp]: "flow Data (bc_todo_list_region V s) = Data"
  by (simp add: bc_todo_list_region_def reading flow_concat del: append.simps)

lemma flow_bc_suggestions_list [simp]: "flow Data (bc_suggestions_list xs) = Data"
  by (simp add: bc_suggestions_list_def reading flow_concat del: append.simps)

lemma flow_bc_filter_tabs [simp]: "flow Data (bc_filter_tabs s) = Data"
  by (simp add: bc_filter_tabs_def reading del: append.simps)

lemma flow_bc_create_form [simp]: "flow Data bc_create_form = Data"
  by (simp add: bc_create_form_def reading del: append.simps)

lemma flow_bc_header [simp]: "flow Data (bc_header s) = Data"
  by (simp add: bc_header_def reading del: append.simps)

lemma flow_bc_tasks_card [simp]: "flow Data (bc_tasks_card V s) = Data"
  by (simp add: bc_tasks_card_def reading del: append.simps)

lemma flow_bc_realtime_card [simp]: "flow Data bc_realtime_card = Data"
  by (simp add: bc_realtime_card_def reading del: append.simps)

lemma flow_bc_queue_retry_panel [simp]: "flow Data bc_queue_retry_panel = Data"
  by (simp add: bc_queue_retry_panel_def reading del: append.simps)

lemma flow_bc_ai_suggest_panel [simp]: "flow Data bc_ai_suggest_panel = Data"
  by (simp add: bc_ai_suggest_panel_def reading del: append.simps)

lemma flow_bc_durable_workflow_panel [simp]: "flow Data (bc_durable_workflow_panel s) = Data"
  by (simp add: bc_durable_workflow_panel_def reading del: append.simps)

lemma flow_bc_async_demos_card [simp]: "flow Data (bc_async_demos_card s) = Data"
  by (simp add: bc_async_demos_card_def reading del: append.simps)

lemma flow_bc_todo_list [simp]: "flow Data (bc_todo_list V s) = Data"
  by (simp add: bc_todo_list_def reading del: append.simps)

lemma flow_bc_delete_confirm_modal [simp]: "flow Data bc_delete_confirm_modal = Data"
  by (simp add: bc_delete_confirm_modal_def reading del: append.simps)

lemma flow_bc_sse_opener [simp]: "flow Data bc_sse_opener = Data"
  by (simp add: bc_sse_opener_def reading del: append.simps)

lemma flow_bc_pb_realtime [simp]: "flow Data bc_pb_realtime = Data"
  by (simp add: bc_pb_realtime_def reading del: append.simps)

lemma flow_bc_todo_page [simp]: "flow Data (bc_todo_page V title s email build commit offline skin) = Data"
  by (simp add: bc_todo_page_def reading del: append.simps)

end
