(* ===== verification/BasecoatIds.thy ===== *)
theory BasecoatIds
  imports PageIds BasecoatView
begin

text \<open>
  Which targets of events the page of the BasecoatUI skin has: the list and the suggestions, but no
  container of notifications.
\<close>

abbreviation (input) toasts :: bytes where "toasts \<equiv> ''toast-container''"

subsection \<open>No container of notifications\<close>

lemma seek_bc_todo_item [simp]: "seek i (Data, Other, b) (bc_todo_item V item) = (Data, Other, b \<or> i = ''todo-'' @ td_id item)"
  by (simp add: bc_todo_item_def seeking reading del: append.simps)

lemma seek_bc_todo_list_region [simp]: "seek toasts (Data, Other, b) (bc_todo_list_region V s) = (Data, Other, b)"
  by (simp add: bc_todo_list_region_def seeking reading seek_concat del: append.simps)

lemma seek_bc_suggestions_list [simp]: "seek toasts (Data, Other, b) (bc_suggestions_list xs) = (Data, Other, b)"
  by (simp add: bc_suggestions_list_def seeking reading seek_concat del: append.simps)

lemma seek_bc_filter_tabs [simp]: "seek toasts (Data, Other, b) (bc_filter_tabs s) = (Data, Other, b)"
  by (simp add: bc_filter_tabs_def seeking reading del: append.simps)

lemma seek_bc_create_form [simp]: "seek toasts (Data, Other, b) bc_create_form = (Data, Other, b)"
  by (simp add: bc_create_form_def seeking reading del: append.simps)

lemma seek_bc_header [simp]: "seek toasts (Data, Other, b) (bc_header s) = (Data, Other, b)"
  by (simp add: bc_header_def seeking reading del: append.simps)

lemma seek_bc_tasks_card [simp]: "seek toasts (Data, Other, b) (bc_tasks_card V s) = (Data, Other, b)"
  by (simp add: bc_tasks_card_def seeking reading del: append.simps)

lemma seek_bc_realtime_card [simp]: "seek toasts (Data, Other, b) bc_realtime_card = (Data, Other, b)"
  by (simp add: bc_realtime_card_def seeking reading del: append.simps)

lemma seek_bc_queue_retry_panel [simp]: "seek toasts (Data, Other, b) bc_queue_retry_panel = (Data, Other, b)"
  by (simp add: bc_queue_retry_panel_def seeking reading del: append.simps)

lemma seek_bc_ai_suggest_panel [simp]: "seek toasts (Data, Other, b) bc_ai_suggest_panel = (Data, Other, b)"
  by (simp add: bc_ai_suggest_panel_def seeking reading del: append.simps)

lemma seek_bc_durable_workflow_panel [simp]: "seek toasts (Data, Other, b) (bc_durable_workflow_panel s) = (Data, Other, b)"
  by (simp add: bc_durable_workflow_panel_def seeking reading del: append.simps)

lemma seek_bc_async_demos_card [simp]: "seek toasts (Data, Other, b) (bc_async_demos_card s) = (Data, Other, b)"
  by (simp add: bc_async_demos_card_def seeking reading del: append.simps)

lemma seek_bc_todo_list [simp]: "seek toasts (Data, Other, b) (bc_todo_list V s) = (Data, Other, b)"
  by (simp add: bc_todo_list_def seeking reading del: append.simps)

lemma seek_bc_delete_confirm_modal [simp]: "seek toasts (Data, Other, b) bc_delete_confirm_modal = (Data, Other, b)"
  by (simp add: bc_delete_confirm_modal_def seeking reading del: append.simps)

lemma seek_bc_sse_opener [simp]: "seek toasts (Data, Other, b) bc_sse_opener = (Data, Other, b)"
  by (simp add: bc_sse_opener_def seeking reading del: append.simps)

lemma seek_bc_pb_realtime [simp]: "seek toasts (Data, Other, b) bc_pb_realtime = (Data, Other, b)"
  by (simp add: bc_pb_realtime_def seeking reading del: append.simps)

lemma bc_no_toasts: "\<not> has_id ''toast-container'' (bc_todo_page V title s email build commit offline skin)"
  by (simp add: has_id_seek bc_todo_page_def seeking reading del: append.simps)

subsection \<open>The list and the suggestions\<close>

lemma bc_list: "offers ''todo-list'' (bc_todo_list_region V s)"
  unfolding bc_todo_list_region_def append_Cons append_Nil by (rule offers_literal) (simp add: seeking reading)

lemma bc_suggestions: "offers ''suggestions-region'' (bc_suggestions_list xs)"
  unfolding bc_suggestions_list_def append_Cons append_Nil
  by (rule offers_literal) (simp add: seeking reading del: append.simps)

lemma offers_bc_tasks_card:
  "offers ''todo-list'' (bc_tasks_card V s)" "offers ''suggestions-region'' (bc_tasks_card V s)"
  unfolding bc_tasks_card_def
  by (rule offers_left [OF _ bc_list], simp | rule offers_left [OF _ bc_suggestions], simp
      | rule offers_right, simp add: reading del: append.simps)+

lemma offers_bc_todo_list: "offers i (bc_tasks_card V s) \<Longrightarrow> offers i (bc_todo_list V s)"
  unfolding bc_todo_list_def
  by (rule offers_left [rotated], assumption, simp | rule offers_right, simp add: reading del: append.simps)+

lemma offers_bc_todo_page: "offers i (bc_todo_list V s) \<Longrightarrow> offers i (bc_todo_page V title s email build commit offline skin)"
  unfolding bc_todo_page_def
  by (rule offers_left [rotated], assumption, simp | rule offers_right, simp add: reading del: append.simps)+

lemma bc_targets:
  "has_id ''todo-list'' (bc_todo_page V title s email build commit offline skin)"
  "has_id ''suggestions-region'' (bc_todo_page V title s email build commit offline skin)"
  by (rule offersD [OF offers_bc_todo_page [OF offers_bc_todo_list [OF offers_bc_tasks_card(1)]]], simp,
      rule offersD [OF offers_bc_todo_page [OF offers_bc_todo_list [OF offers_bc_tasks_card(2)]]], simp)

end
