(* ===== verification/MorpheusView.thy ===== *)
theory MorpheusView
  imports TodoView
begin

text \<open>
  The todo page of the morpheus skin, \<open>web/skins/morpheus\<close>, with the components of \<open>neolib\<close> it is built from:
  the optional attributes of \<open>attr.go\<close>, the alert and the checkbox.  A component with children takes the
  pieces of the children as its last argument.
\<close>

subsection \<open>Optional attributes\<close>

text \<open>\<open>Attr\<close> is an option: its zero value is \<open>None\<close>, \<open>Set\<close> is \<open>Some\<close>.\<close>

type_synonym 'a neo_attr = "'a option"

definition attr_or :: "'a \<Rightarrow> 'a neo_attr \<Rightarrow> 'a" where
  "attr_or dflt a = (case a of None \<Rightarrow> dflt | Some v \<Rightarrow> v)"

definition string_attr :: "bytes \<Rightarrow> bytes neo_attr \<Rightarrow> (bytes \<times> attr_value) list" where
  "string_attr name a = (case a of None \<Rightarrow> [] | Some v \<Rightarrow> [(name, AStr v)])"

record alert_opts =
  ao_variant :: "bytes neo_attr"

record checkbox_opts =
  cb_checked :: "bool neo_attr"
  cb_indeterminate :: "bool neo_attr"
  cb_disabled :: "bool neo_attr"
  cb_size :: "bytes neo_attr"
  cb_aria_label :: "bytes neo_attr"

definition no_checkbox_opts :: checkbox_opts where
  "no_checkbox_opts = \<lparr>cb_checked = None, cb_indeterminate = None, cb_disabled = None, cb_size = None, cb_aria_label = None\<rparr>"

subsection \<open>Alert\<close>

definition neo_alert_attrs :: "templ \<Rightarrow> alert_opts \<Rightarrow> (bytes \<times> attr_value) list \<Rightarrow> piece list \<Rightarrow> piece list" where
  \<open>neo_alert_attrs T opts attrs cs =
     [Lit ''<neo-alert''] @
     tp_attributes T (string_attr ''variant'' (ao_variant opts)) @
     tp_attributes T attrs @
     [Lit ''>''] @
     cs @
     [Lit ''</neo-alert>'']\<close>

definition neo_alert :: "templ \<Rightarrow> alert_opts \<Rightarrow> piece list \<Rightarrow> piece list" where
  \<open>neo_alert T opts cs =
     neo_alert_attrs T opts [] cs\<close>

definition neo_alert_icon_attrs :: "templ \<Rightarrow> (bytes \<times> attr_value) list \<Rightarrow> piece list \<Rightarrow> piece list" where
  \<open>neo_alert_icon_attrs T attrs cs =
     [Lit ''<div data-neo-alert-icon aria-hidden="true"''] @
     tp_attributes T attrs @
     [Lit ''>''] @
     cs @
     [Lit ''</div>'']\<close>

definition neo_alert_icon :: "templ \<Rightarrow> piece list \<Rightarrow> piece list" where
  \<open>neo_alert_icon T cs =
     neo_alert_icon_attrs T [] cs\<close>

definition neo_alert_content_attrs :: "templ \<Rightarrow> (bytes \<times> attr_value) list \<Rightarrow> piece list \<Rightarrow> piece list" where
  \<open>neo_alert_content_attrs T attrs cs =
     [Lit ''<div data-neo-alert-content''] @
     tp_attributes T attrs @
     [Lit ''>''] @
     cs @
     [Lit ''</div>'']\<close>

definition neo_alert_content :: "templ \<Rightarrow> piece list \<Rightarrow> piece list" where
  \<open>neo_alert_content T cs =
     neo_alert_content_attrs T [] cs\<close>

definition neo_alert_title_attrs :: "templ \<Rightarrow> nat \<Rightarrow> (bytes \<times> attr_value) list \<Rightarrow> piece list \<Rightarrow> piece list" where
  \<open>neo_alert_title_attrs T level attrs cs =
     (if level = 1 then [Lit ''<h1 data-neo-alert-title''] @
     tp_attributes T attrs @
     [Lit ''>''] @
     cs @
     [Lit ''</h1>'']
     else if level = 3 then [Lit ''<h3 data-neo-alert-title''] @
     tp_attributes T attrs @
     [Lit ''>''] @
     cs @
     [Lit ''</h3>'']
     else if level = 4 then [Lit ''<h4 data-neo-alert-title''] @
     tp_attributes T attrs @
     [Lit ''>''] @
     cs @
     [Lit ''</h4>'']
     else if level = 5 then [Lit ''<h5 data-neo-alert-title''] @
     tp_attributes T attrs @
     [Lit ''>''] @
     cs @
     [Lit ''</h5>'']
     else if level = 6 then [Lit ''<h6 data-neo-alert-title''] @
     tp_attributes T attrs @
     [Lit ''>''] @
     cs @
     [Lit ''</h6>'']
     else [Lit ''<h2 data-neo-alert-title''] @
     tp_attributes T attrs @
     [Lit ''>''] @
     cs @
     [Lit ''</h2>''])\<close>

definition neo_alert_title :: "templ \<Rightarrow> nat \<Rightarrow> piece list \<Rightarrow> piece list" where
  \<open>neo_alert_title T level cs =
     neo_alert_title_attrs T level [] cs\<close>

definition neo_alert_description_attrs :: "templ \<Rightarrow> (bytes \<times> attr_value) list \<Rightarrow> piece list \<Rightarrow> piece list" where
  \<open>neo_alert_description_attrs T attrs cs =
     [Lit ''<p data-neo-alert-description''] @
     tp_attributes T attrs @
     [Lit ''>''] @
     cs @
     [Lit ''</p>'']\<close>

definition neo_alert_description :: "templ \<Rightarrow> piece list \<Rightarrow> piece list" where
  \<open>neo_alert_description T cs =
     neo_alert_description_attrs T [] cs\<close>

definition neo_alert_actions_attrs :: "templ \<Rightarrow> (bytes \<times> attr_value) list \<Rightarrow> piece list \<Rightarrow> piece list" where
  \<open>neo_alert_actions_attrs T attrs cs =
     [Lit ''<div data-neo-alert-actions''] @
     tp_attributes T attrs @
     [Lit ''>''] @
     cs @
     [Lit ''</div>'']\<close>

definition neo_alert_actions :: "templ \<Rightarrow> piece list \<Rightarrow> piece list" where
  \<open>neo_alert_actions T cs =
     neo_alert_actions_attrs T [] cs\<close>

subsection \<open>Checkbox\<close>

definition neo_checkbox_attrs :: "templ \<Rightarrow> checkbox_opts \<Rightarrow> (bytes \<times> attr_value) list \<Rightarrow> piece list" where
  \<open>neo_checkbox_attrs T opts attrs =
     [Lit ''<neo-checkbox role="checkbox"''] @
     (if attr_or False (cb_indeterminate opts) then [Lit '' indeterminate aria-checked="mixed"'']
     else []) @
     [Lit '' else''] @
     (if attr_or False (cb_checked opts) then [Lit '' checked aria-checked="true"'']
     else [Lit '' aria-checked="false"'']) @
     (if attr_or False (cb_disabled opts) then [Lit '' disabled aria-disabled="true" tabindex="-1"'']
     else [Lit '' tabindex="0"'']) @
     tp_attributes T (string_attr ''size'' (cb_size opts)) @
     tp_attributes T (string_attr ''aria-label'' (cb_aria_label opts)) @
     tp_attributes T attrs @
     [Lit ''></neo-checkbox>'']\<close>

definition neo_checkbox :: "templ \<Rightarrow> checkbox_opts \<Rightarrow> piece list" where
  \<open>neo_checkbox T opts =
     neo_checkbox_attrs T opts []\<close>

subsection \<open>The list region\<close>

definition mo_todo_item_region :: "view_env \<Rightarrow> todo \<Rightarrow> piece list" where
  \<open>mo_todo_item_region V item =
     [Lit ''<div class="todo-item" id="'',
      Attr (''todo-'' @ td_id item),
      Lit ''" data-on:click__prevent="'',
      Attr (''@post('/api/todos/'' @ td_id item @ ''/toggle?skin=morpheus')''),
      Lit (''" style="display: flex; align-items: center; gap: 0.75rem; padding: 0.75rem; border-bottom: ''
        @ ''1px solid var(--neo-color-border, #e7e5e4); cursor: pointer;">'')] @
     neo_checkbox (ve_templ V) (no_checkbox_opts\<lparr>cb_checked := Some (td_completed item), cb_size := Some ''sm''\<rparr>) @
     (if td_completed item then [Lit (''<span style="flex: 1; text-decoration: line-through; color: var(--neo-color-muted-foreground, ''
        @ ''#78716c);">''),
      Esc (td_title item),
      Lit ''</span> '']
     else [Lit ''<span style="flex: 1;">'',
      Esc (td_title item),
      Lit ''</span> '']) @
     [Lit ''<span style="font-size: 0.75rem; color: var(--neo-color-muted-foreground, #78716c);">'',
      Esc (age_of V item),
      Lit (''</span> <neo-button variant="danger" size="sm" data-neo-dialog-trigger="confirm-delete-modal" ''
        @ ''data-on:click__prevent="''),
      Attr (''$confirmingDeleteId = '' @ safe_js_string (td_id item) @ ''; $confirmingDeleteTitle = '' @ safe_js_string (td_title item) @ ''; document.getElementById('confirm-delete-modal').open = true''),
      Lit (''"><svg xmlns="http://www.w3.org/2000/svg" width="14" height="14" viewBox="0 0 24 24" ''
        @ ''fill="none" stroke="currentColor" stroke-width="2"><polyline points="3 6 5 6 21 6"></polyline><path ''
        @ ''d="M19 6v14a2 2 0 01-2 2H7a2 2 0 01-2-2V6m3 0V4a2 2 0 012-2h4a2 2 0 012 2v2"></path></svg></neo-button></div>'')]\<close>

definition mo_todo_list_region :: "view_env \<Rightarrow> signals \<Rightarrow> piece list" where
  \<open>mo_todo_list_region V s =
     [Lit ''<div id="todo-list">''] @
     (if todos_of s = [] then [Lit (''<div id="todo-empty-state" style="padding: 2rem 0; text-align: center; color: var(--neo-color-muted-foreground, ''
        @ ''#78716c);"><svg xmlns="http://www.w3.org/2000/svg" style="width:2rem;height:2rem;opacity:0.3;display:inline-block" ''
        @ ''viewBox="0 0 24 24" fill="none" stroke="currentColor" stroke-width="2" stroke-linecap="round" ''
        @ ''stroke-linejoin="round"><line x1="8" x2="21" y1="6" y2="6"></line><line x1="8" x2="21" ''
        @ ''y1="12" y2="12"></line><line x1="8" x2="21" y1="18" y2="18"></line><line x1="3" x2="3.01" ''
        @ ''y1="6" y2="6"></line><line x1="3" x2="3.01" y1="12" y2="12"></line><line x1="3" x2="3.01" ''
        @ ''y1="18" y2="18"></line></svg><p style="margin: 0.5rem 0 0;">No todos here yet.</p><p ''
        @ ''style="font-size: 0.75rem; margin-top: 0.25rem;">Add one above to get started, or click ''
        @ ''"Run durable workflow" in the sidebar.</p></div>'')]
     else []) @
     concat (map (\<lambda>item. mo_todo_item_region V item) (todos_of s)) @
     [Lit ''</div>'']\<close>

subsection \<open>The page\<close>

definition mo_todo_item :: "view_env \<Rightarrow> todo \<Rightarrow> piece list" where
  \<open>mo_todo_item V item =
     [Lit ''<div class="todo-item" id="'',
      Attr (''todo-'' @ td_id item),
      Lit ''" data-on:click__prevent="'',
      Attr (''@post('/api/todos/'' @ td_id item @ ''/toggle?skin=morpheus')''),
      Lit (''" style="display: flex; align-items: center; gap: 0.75rem; padding: 0.75rem; border-bottom: ''
        @ ''1px solid var(--neo-color-border, #e7e5e4); cursor: pointer;">'')] @
     neo_checkbox (ve_templ V) (no_checkbox_opts\<lparr>cb_checked := Some (td_completed item), cb_size := Some ''sm''\<rparr>) @
     (if td_completed item then [Lit (''<span style="flex: 1; text-decoration: line-through; color: var(--neo-color-muted-foreground, ''
        @ ''#78716c);">''),
      Esc (td_title item),
      Lit ''</span> '']
     else [Lit ''<span style="flex: 1;">'',
      Esc (td_title item),
      Lit ''</span> '']) @
     [Lit ''<span style="font-size: 0.75rem; color: var(--neo-color-muted-foreground, #78716c);">'',
      Esc (age_of V item),
      Lit (''</span> <neo-button variant="danger" size="sm" data-neo-dialog-trigger="confirm-delete-modal" ''
        @ ''data-on:click__prevent="''),
      Attr (''$confirmingDeleteId = '' @ safe_js_string (td_id item) @ ''; $confirmingDeleteTitle = '' @ safe_js_string (td_title item)),
      Lit (''"><svg xmlns="http://www.w3.org/2000/svg" width="14" height="14" viewBox="0 0 24 24" ''
        @ ''fill="none" stroke="currentColor" stroke-width="2"><polyline points="3 6 5 6 21 6"></polyline><path ''
        @ ''d="M19 6v14a2 2 0 01-2 2H7a2 2 0 01-2-2V6m3 0V4a2 2 0 012-2h4a2 2 0 012 2v2"></path></svg></neo-button></div>'')]\<close>

definition mo_todo_list :: "view_env \<Rightarrow> signals \<Rightarrow> piece list" where
  \<open>mo_todo_list V s =
     [Lit ''<div id="todo-list">''] @
     (if todos_of s = [] then [Lit (''<div id="todo-empty-state" style="padding: 2rem 0; text-align: center; color: var(--neo-color-muted-foreground, ''
        @ ''#78716c);"><svg xmlns="http://www.w3.org/2000/svg" style="width:2rem;height:2rem;opacity:0.3;display:inline-block" ''
        @ ''viewBox="0 0 24 24" fill="none" stroke="currentColor" stroke-width="2" stroke-linecap="round" ''
        @ ''stroke-linejoin="round"><line x1="8" x2="21" y1="6" y2="6"></line><line x1="8" x2="21" ''
        @ ''y1="12" y2="12"></line><line x1="8" x2="21" y1="18" y2="18"></line><line x1="3" x2="3.01" ''
        @ ''y1="6" y2="6"></line><line x1="3" x2="3.01" y1="12" y2="12"></line><line x1="3" x2="3.01" ''
        @ ''y1="18" y2="18"></line></svg><p style="margin: 0.5rem 0 0;">No todos here yet.</p><p ''
        @ ''style="font-size: 0.75rem; margin-top: 0.25rem;">Add one above to get started, or click ''
        @ ''"Run durable workflow" in the sidebar.</p></div>'')]
     else []) @
     concat (map (\<lambda>item. mo_todo_item V item) (todos_of s)) @
     [Lit ''</div>'']\<close>

definition mo_suggestions :: "bytes list \<Rightarrow> piece list" where
  \<open>mo_suggestions xs =
     [Lit (''<div id="suggestions-region" data-show="$suggestions && $suggestions.length > 0" style="margin-bottom: ''
        @ ''1rem; padding: 0.75rem; border-radius: 0.5rem; background: var(--neo-color-muted, #f0efed);"><div ''
        @ ''style="font-size: 0.75rem; margin-bottom: 0.5rem; color: var(--neo-color-muted-foreground, ''
        @ ''#78716c);">Suggestions '' @ u_dash
        @ '' click to use:</div><div style="display: flex; flex-wrap: wrap; gap: 0.5rem;">'')] @
     concat (map (\<lambda>sug. [Lit ''<neo-button variant="secondary" size="sm" data-on:click="'',
      Attr (''$newTitle = '' @ safe_js_string sug),
      Lit ''">'',
      Esc sug,
      Lit ''</neo-button>'']) xs) @
     [Lit ''</div></div>'']\<close>

definition mo_filter_tabs :: "piece list" where
  \<open>mo_filter_tabs =
     [Lit (''<neo-tabs value="all" id="filter-tabs-morpheus" style="margin-bottom: 1rem;"><neo-tablist ''
        @ ''aria-label="Filter todos"><neo-tab value="all" id="filter-tabs-tab-all" data-class="{ '' @ apos
        @ ''neo-tab-active': $filter === 'all' }" data-on:click__prevent="$loading = true; @get('/api/todos?filter=all&skin=morpheus')">All</neo-tab> ''
        @ ''<neo-tab value="active" id="filter-tabs-tab-active" data-class="{ 'neo-tab-active': ''
        @ ''$filter === 'active' }" data-on:click__prevent="$loading = true; @get('/api/todos?filter=active&skin=morpheus')">Active</neo-tab> ''
        @ ''<neo-tab value="completed" id="filter-tabs-tab-completed" data-class="{ 'neo-tab-active': ''
        @ ''$filter === 'completed' }" data-on:click__prevent="$loading = true; @get('/api/todos?filter=completed&skin=morpheus')">Completed</neo-tab></neo-tablist></neo-tabs>'')]\<close>

definition mo_create_form :: "piece list" where
  \<open>mo_create_form =
     [Lit (''<form data-on:submit__prevent="if (!$loading) { $loading = true; @post('/api/todos?clientID=' ''
        @ ''+ encodeURIComponent($clientID || '' @ js_empty
        @ '') + '&idem_key=' + encodeURIComponent(crypto.randomUUID()) + '&skin=morpheus', {contentType: '' @ apos
        @ ''form'}); }" style="display: flex; gap: 0.5rem; margin-bottom: 1rem;"><div style="flex: ''
        @ ''1;"><input type="text" name="title" placeholder="Add a new todo..." data-bind="newTitle" ''
        @ ''style="width: 100%; box-sizing: border-box; padding: 0.5rem 0.75rem; font-size: 0.875rem; ''
        @ ''border: 1px solid var(--page-border, #d6d3d1); border-radius: 0.375rem; background: ''
        @ ''var(--page-bg, #ffffff); color: var(--page-fg, #1c1917); font-family: inherit; outline: ''
        @ ''none;"></div><neo-button variant="primary" data-attr:disabled="$loading || !$newTitle.trim()"><svg ''
        @ ''xmlns="http://www.w3.org/2000/svg" width="16" height="16" viewBox="0 0 24 24" fill="none" ''
        @ ''stroke="currentColor" stroke-width="2" style="margin-right: 0.25rem;"><line x1="12" ''
        @ ''y1="5" x2="12" y2="19"></line><line x1="5" y1="12" x2="19" y2="12"></line></svg> <span ''
        @ ''data-show="!$loading">Add</span> <span data-show="$loading" style="display: inline-flex; ''
        @ ''align-items: center; gap: 0.25rem;"><neo-spinner size="sm"></neo-spinner> <span>Adding</span></span></neo-button></form>'')]\<close>

definition mo_header :: "signals \<Rightarrow> piece list" where
  \<open>mo_header s =
     [Lit (''<div style="display: flex; align-items: center; justify-content: space-between; margin-bottom: ''
        @ ''1.5rem;"><div style="display: flex; align-items: center; gap: 0.75rem;"><div style="width: ''
        @ ''2.25rem; height: 2.25rem; border-radius: 0.75rem; background: var(--neo-color-primary, ''
        @ ''#2563eb); color: white; display: inline-flex; align-items: center; justify-content: ''
        @ ''center;"><svg xmlns="http://www.w3.org/2000/svg" width="20" height="20" viewBox="0 0 ''
        @ ''20 20" fill="currentColor"><path d="M10 2a6 6 0 00-6 6v3.586l-.707.707A1 1 0 004 14h12a1 ''
        @ ''1 0 00.707-1.707L16 11.586V8a6 6 0 00-6-6zM10 18a3 3 0 01-3-3h6a3 3 0 01-3 3z"></path></svg></div><div><h1 ''
        @ ''style="font-size: 1.25rem; font-weight: 700; margin: 0;">Todo App</h1><p style="font-size: ''
        @ ''0.75rem; color: var(--neo-color-muted-foreground, #78716c); margin: 0;"><span style="font-weight: ''
        @ ''500;">''),
      Esc (sg_store_label s),
      Lit (''</span> <span style="opacity: 0.5; margin: 0 0.25rem;">'' @ u_dot @ ''</span> <span>''),
      Esc (sg_offline_label s),
      Lit (''</span></p></div></div><div data-show="$connectedClients >= 0" style="display: inline-flex; ''
        @ ''align-items: center; gap: 0.5rem; padding: 0.375rem 0.75rem; border-radius: 9999px; ''
        @ ''background: var(--neo-color-muted, #f0efed); font-size: 0.75rem;"><span style="width: ''
        @ ''0.5rem; height: 0.5rem; border-radius: 9999px; background: var(--neo-color-success, ''
        @ ''#16a34a); box-shadow: 0 0 0 0 rgba(22, 163, 74, 0.4); animation: neo-pulse 2s infinite;"></span> ''
        @ ''<span data-text="$connectedClients + ' online'"></span> <span style="opacity: 0.6;">'' @ u_dot
        @ ''</span> <span data-text="$realtimeKind"></span></div></div>'')]\<close>

definition mo_tasks_card :: "view_env \<Rightarrow> signals \<Rightarrow> piece list" where
  \<open>mo_tasks_card V s =
     [Lit (''<neo-card><div data-neo-card-inner><div data-neo-card-header style="display: flex; align-items: ''
        @ ''center; justify-content: space-between; gap: 0.75rem;"><h3 data-neo-card-title>Tasks</h3><neo-badge ''
        @ ''variant="neutral"><span data-text="$itemCount + ' items'"></span></neo-badge></div><div ''
        @ ''data-neo-card-body>'')] @
     mo_create_form @
     (if suggestions_of s \<noteq> [] then mo_suggestions (suggestions_of s)
     else []) @
     mo_filter_tabs @
     mo_todo_list V s @
     (if 0 < sg_item_count s then [Lit (''<div style="display: flex; justify-content: space-between; align-items: center; margin-top: ''
        @ ''1rem; padding-top: 0.75rem; border-top: 1px solid var(--neo-color-border, #e7e5e4);"><span ''
        @ ''style="font-size: 0.75rem; color: var(--neo-color-muted-foreground, #78716c);" data-text="$itemCount ''
        @ ''+ ' items'"></span> <neo-button variant="danger" size="sm" data-neo-dialog-trigger="confirm-delete-modal" ''
        @ ''data-on:click="while (document.querySelector('.todo-item')) { @post('/api/todos/completed/delete?clientID=' ''
        @ ''+ encodeURIComponent($clientID || '' @ js_empty
        @ '') + '&skin=morpheus'); break; }">Clear completed</neo-button></div>'')]
     else []) @
     [Lit ''</div></div></neo-card>'']\<close>

definition mo_realtime_card :: "templ \<Rightarrow> piece list" where
  \<open>mo_realtime_card T =
     [Lit (''<neo-card variant="outline"><div data-neo-card-inner><div data-neo-card-header style="display: ''
        @ ''flex; align-items: center; justify-content: space-between; gap: 0.75rem;"><h3 data-neo-card-title ''
        @ ''style="font-size: 0.875rem;">Realtime</h3><neo-badge variant="neutral" data-text="$realtimeKind"></neo-badge></div><div ''
        @ ''data-neo-card-body>'')] @
     neo_alert T \<lparr>ao_variant = Some ''success''\<rparr> (neo_alert_icon T ([Lit (''<span style="display:inline-block;width:0.5rem;height:0.5rem;border-radius:9999px;background:currentColor;animation:neo-pulse ''
        @ ''2s infinite;"></span>'')]) @
     [Lit '' ''] @
     neo_alert_content T (neo_alert_title T 4 ([Lit ''<span data-text="$connectedClients + ' online'"></span>'']) @
     [Lit '' ''] @
     neo_alert_description T ([Lit (''Every CRUD mutation streams through PocketBase realtime. Open this page in two tabs ''
        @ ''to watch todos sync live.'')]))) @
     [Lit ''</div></div></neo-card>'']\<close>

definition mo_queue_retry_panel :: "templ \<Rightarrow> piece list" where
  \<open>mo_queue_retry_panel T =
     [Lit (''<div style="display: flex; align-items: center; justify-content: space-between; margin-bottom: ''
        @ ''0.5rem;"><div style="display: inline-flex; align-items: center; gap: 0.5rem;"><div style="width: ''
        @ ''1.75rem; height: 1.75rem; border-radius: 0.5rem; background: var(--neo-color-secondary, ''
        @ ''#7c3aed); color: white; display: inline-flex; align-items: center; justify-content: ''
        @ ''center;"><svg xmlns="http://www.w3.org/2000/svg" width="16" height="16" viewBox="0 0 ''
        @ ''20 20" fill="currentColor"><path fill-rule="evenodd" d="M10 18a8 8 0 100-16 8 8 0 000 ''
        @ ''16zm1-12a1 1 0 10-2 0v4a1 1 0 00.293.707l2.828 2.829a1 1 0 101.415-1.415L11 9.586V6z" ''
        @ ''clip-rule="evenodd"></path></svg></div><span style="font-size: 0.75rem; font-weight: ''
        @ ''600;">Queue + Retry</span></div><div style="display: inline-flex; gap: 0.25rem;"><neo-badge ''
        @ ''variant="secondary">goqite</neo-badge> <neo-badge variant="neutral">retry-go</neo-badge></div></div><p ''
        @ ''style="font-size: 0.75rem; color: var(--neo-color-muted-foreground, #78716c); margin: ''
        @ ''0 0 0.75rem 0;">Enqueues a hard-coded background job that fails twice then succeeds '' @ u_dash
        @ '' exercising the queue + retry layer end-to-end (no LLM involved).</p><div style="display: ''
        @ ''flex; flex-direction: column; gap: 0.5rem; margin-bottom: 0.75rem;"><div style="display: ''
        @ ''flex; align-items: center; gap: 0.5rem; font-size: 0.75rem;"><neo-badge variant="neutral" ''
        @ ''data-class="''),
      Attr ''{'neo-badge-success': $demoStep >= 2}'',
      Lit (''">1. Enqueue job</neo-badge></div><div style="display: flex; align-items: center; gap: ''
        @ ''0.5rem; font-size: 0.75rem;"><neo-badge variant="neutral" data-class="''),
      Attr ''{'neo-badge-primary': $demoStep === 2, 'neo-badge-success': $demoStep >= 3}'',
      Lit (''">2. Retry</neo-badge> <span data-show="$lastRetryStatus === 'attempt'" data-text="'' @ apos @ u_dash
        @ '' attempt ' + ($lastRetryAttempt || 1)" style="color: var(--neo-color-muted-foreground, ''
        @ ''#78716c); font-size: 0.75rem;"></span></div><div style="display: flex; align-items: ''
        @ ''center; gap: 0.5rem; font-size: 0.75rem;"><neo-badge variant="neutral" data-class="''),
      Attr (''{'neo-badge-success': $demoStep >= 3 && $techPhase !== 'error', 'neo-badge-danger': '' @ ''$techPhase === 'error'}''),
      Lit (''">3. Complete</neo-badge></div></div><form data-on:submit__prevent="$techStep = 'retry-demo'; ''
        @ ''$demoStep = 1; $suggestPending = true; @post('/api/todos/retry-demo?clientID=' + encodeURIComponent($clientID ''
        @ ''|| '' @ js_empty
        @ '') + '&skin=morpheus')" style="display: contents;"><neo-button variant="secondary" size="sm" ''
        @ ''type="submit" style="width: 100%;"><span data-show="!$suggestPending">Run queue + retry ''
        @ ''demo</span> <span data-show="$suggestPending" style="display: inline-flex; align-items: ''
        @ ''center; gap: 0.25rem;"><neo-spinner size="sm"></neo-spinner> <span>Running demo'' @ u_dots
        @ ''</span></span></neo-button></form>'')] @
     neo_alert_attrs T \<lparr>ao_variant = Some ''success''\<rparr> [(''data-init__delay.4s'', AStr ''$demoStep = 0''), (''data-show'', AStr (''$demoStep >= 3 && $techPhase !== 'error'' @ apos)), (''role'', AStr ''status''), (''style'', AStr ''margin-top: 0.5rem;'')] (neo_alert_icon T ([Lit (''<svg xmlns="http://www.w3.org/2000/svg" width="16" height="16" viewBox="0 0 20 20" fill="currentColor"><path ''
        @ ''fill-rule="evenodd" d="M10 18a8 8 0 100-16 8 8 0 000 16zm3.707-9.293a1 1 0 00-1.414-1.414L9 ''
        @ ''10.586 7.707 9.293a1 1 0 00-1.414 1.414l2 2a1 1 0 001.414 0l4-4z" clip-rule="evenodd"></path></svg>'')]) @
     [Lit '' ''] @
     neo_alert_content T (neo_alert_title T 4 ([Lit ''Demo completed''])))\<close>

definition mo_ai_suggest_panel :: "templ \<Rightarrow> piece list" where
  \<open>mo_ai_suggest_panel T =
     [Lit (''<div style="display: flex; align-items: center; justify-content: space-between; margin-bottom: ''
        @ ''0.5rem;"><div style="display: inline-flex; align-items: center; gap: 0.5rem;"><div style="width: ''
        @ ''1.75rem; height: 1.75rem; border-radius: 0.5rem; background: var(--neo-color-primary, ''
        @ ''#2563eb); color: white; display: inline-flex; align-items: center; justify-content: ''
        @ ''center;"><svg xmlns="http://www.w3.org/2000/svg" width="16" height="16" viewBox="0 0 ''
        @ ''20 20" fill="currentColor"><path fill-rule="evenodd" d="M11.3 1.046A1 1 0 0112 2v5h4a1 ''
        @ ''1 0 01.82 1.573l-7 10A1 1 0 018 18v-5H4a1 1 0 01-.82-1.573l7-10a1 1 0 011.12-.38z" clip-rule="evenodd"></path></svg></div><span ''
        @ ''style="font-size: 0.75rem; font-weight: 600;">AI Suggest</span></div><neo-badge variant="primary">GoAI</neo-badge></div><p ''
        @ ''style="font-size: 0.75rem; color: var(--neo-color-muted-foreground, #78716c); margin: ''
        @ ''0 0 0.75rem 0;">Asks the configured LLM (Groq via GoAI) for 3 todo suggestions. The ''
        @ ''request is queued (goqite) and retried (retry-go) like any slow, failure-prone call.</p><div ''
        @ ''style="display: flex; flex-direction: column; gap: 0.5rem; margin-bottom: 0.75rem;"><div ''
        @ ''style="display: flex; align-items: center; gap: 0.5rem; font-size: 0.75rem;"><neo-badge ''
        @ ''variant="neutral" data-class="''),
      Attr (''{'neo-badge-primary': $aiStep >= 1 && $aiPending, 'neo-badge-success': $aiStep >= 1 '' @ ''&& !$aiPending && $aiPhase !== 'error', 'neo-badge-danger': $aiPhase === 'error'}''),
      Lit (''">1. Queue</neo-badge></div><div style="display: flex; align-items: center; gap: 0.5rem; ''
        @ ''font-size: 0.75rem;"><neo-badge variant="neutral" data-class="''),
      Attr (''{'neo-badge-success': $aiStep >= 1 && !$aiPending && $aiPhase !== 'error', 'neo-badge-danger': '' @ ''$aiPhase === 'error'}''),
      Lit (''">2. Retry</neo-badge> <span data-show="$lastRetryStatus === 'attempt'" data-text="'' @ apos @ u_dash
        @ '' attempt ' + ($lastRetryAttempt || 1)" style="color: var(--neo-color-muted-foreground, ''
        @ ''#78716c); font-size: 0.75rem;"></span></div><div style="display: flex; align-items: ''
        @ ''center; gap: 0.5rem; font-size: 0.75rem;"><neo-badge variant="neutral" data-class="''),
      Attr (''{'neo-badge-success': $aiStep >= 3 && !$aiPending && $aiPhase !== 'error', 'neo-badge-danger': '' @ ''$aiPhase === 'error'}''),
      Lit (''">3. Return</neo-badge></div></div><neo-button variant="primary" size="sm" style="width: ''
        @ ''100%;" data-on:click="$aiStep = 1; $aiPending = true; @post('/api/todos/suggest?clientID=' ''
        @ ''+ encodeURIComponent($clientID || '' @ js_empty
        @ '') + '&partial=' + encodeURIComponent($newTitle) + '&skin=morpheus')"><span data-show="!$aiPending"><svg ''
        @ ''xmlns="http://www.w3.org/2000/svg" width="16" height="16" viewBox="0 0 20 20" fill="currentColor" ''
        @ ''style="display:inline-block;vertical-align:middle;margin-right:0.25rem;"><path fill-rule="evenodd" ''
        @ ''d="M11.3 1.046A1 1 0 0112 2v5h4a1 1 0 01.82 1.573l-7 10A1 1 0 018 18v-5H4a1 1 0 01-.82-1.573l7-10a1 ''
        @ ''1 0 011.12-.38z" clip-rule="evenodd"></path></svg> AI Suggest</span> <span data-show="$aiPending" ''
        @ ''style="display: inline-flex; align-items: center; gap: 0.25rem;"><neo-spinner size="sm"></neo-spinner> ''
        @ ''<span>Asking AI'' @ u_dots @ ''</span></span></neo-button>'')] @
     neo_alert_attrs T \<lparr>ao_variant = Some ''success''\<rparr> [(''data-init__delay.4s'', AStr ''$aiStep = 0''), (''data-show'', AStr (''$aiStep >= 3 && !$aiPending && $aiPhase !== 'error'' @ apos)), (''role'', AStr ''status''), (''style'', AStr ''margin-top: 0.5rem;'')] (neo_alert_icon T ([Lit (''<svg xmlns="http://www.w3.org/2000/svg" width="16" height="16" viewBox="0 0 20 20" fill="currentColor"><path ''
        @ ''fill-rule="evenodd" d="M10 18a8 8 0 100-16 8 8 0 000 16zm3.707-9.293a1 1 0 00-1.414-1.414L9 ''
        @ ''10.586 7.707 9.293a1 1 0 00-1.414 1.414l2 2a1 1 0 001.414 0l4-4z" clip-rule="evenodd"></path></svg>'')]) @
     [Lit '' ''] @
     neo_alert_content T (neo_alert_title T 4 ([Lit ''Suggestions ready''])))\<close>

definition mo_durable_workflow_end :: "templ \<Rightarrow> signals \<Rightarrow> piece list" where
  \<open>mo_durable_workflow_end T s =
     [Lit (''<neo-button variant="primary" size="sm" style="width: 100%;" data-attr:disabled="$onboardingActive ''
        @ ''&& !$workflowCompleted" data-on:click="$sidebarTab = 'workflow'; $techStep = 'workflow'; ''
        @ ''$onboardingActive = true; $workflowCompleted = false; @post('/api/onboarding/start?clientID=' ''
        @ ''+ encodeURIComponent($clientID || '' @ js_empty
        @ '') + '&skin=morpheus')"><span data-show="!$onboardingActive || $workflowCompleted"><svg ''
        @ ''xmlns="http://www.w3.org/2000/svg" width="16" height="16" viewBox="0 0 20 20" fill="currentColor" ''
        @ ''style="display:inline-block;vertical-align:middle;margin-right:0.25rem;"><path fill-rule="evenodd" ''
        @ ''d="M10 18a8 8 0 100-16 8 8 0 000 16zM9.555 7.168A1 1 0 008 8v4a1 1 0 001.555.832l3-2a1 ''
        @ ''1 0 000-1.664l-3-2z" clip-rule="evenodd"></path></svg> Run durable workflow</span> <span ''
        @ ''data-show="$onboardingActive && !$workflowCompleted" style="display: inline-flex; align-items: ''
        @ ''center; gap: 0.25rem;"><neo-spinner size="sm"></neo-spinner> <span data-text="'Running '' @ apos
        @ '' + ($onboardingStep || 1) + '/' + ($onboardingTotal || 6) + '' @ apos @ u_dots @ apos
        @ ''"></span></span></neo-button> '')] @
     (if sg_onboarding_active s \<and> sg_workflow_completed s then neo_alert_attrs T \<lparr>ao_variant = Some ''success''\<rparr> [(''role'', AStr ''status''), (''style'', AStr ''margin-top: 0.5rem;'')] (neo_alert_icon T ([Lit (''<svg xmlns="http://www.w3.org/2000/svg" width="16" height="16" viewBox="0 0 20 20" fill="currentColor"><path ''
        @ ''fill-rule="evenodd" d="M10 18a8 8 0 100-16 8 8 0 000 16zm3.707-9.293a1 1 0 00-1.414-1.414L9 ''
        @ ''10.586 7.707 9.293a1 1 0 00-1.414 1.414l2 2a1 1 0 001.414 0l4-4z" clip-rule="evenodd"></path></svg>'')]) @
     [Lit '' ''] @
     neo_alert_content T (neo_alert_description T ([Lit (''Workflow completed '' @ u_dash @ '' 3 example todos created via DagNats.'')])))
     else [])\<close>

definition mo_durable_workflow_panel :: "templ \<Rightarrow> signals \<Rightarrow> piece list" where
  \<open>mo_durable_workflow_panel T s =
     [Lit (''<div style="display: flex; align-items: center; justify-content: space-between; margin-bottom: ''
        @ ''0.5rem;"><div style="display: inline-flex; align-items: center; gap: 0.5rem;"><div style="width: ''
        @ ''1.75rem; height: 1.75rem; border-radius: 0.5rem; background: var(--neo-color-accent, ''
        @ ''#f59e0b); color: white; display: inline-flex; align-items: center; justify-content: ''
        @ ''center;"><svg xmlns="http://www.w3.org/2000/svg" width="16" height="16" viewBox="0 0 ''
        @ ''20 20" fill="currentColor"><path d="M9 2a1 1 0 000 2h2a1 1 0 100-2H9z"></path> <path ''
        @ ''fill-rule="evenodd" d="M4 5a2 2 0 012-2 3 3 0 003 3h2a3 3 0 003-3 2 2 0 012 2v11a2 2 ''
        @ ''0 01-2 2H6a2 2 0 01-2-2V5zm3 4a1 1 0 000 2h.01a1 1 0 100-2H7zm3 0a1 1 0 000 2h3a1 1 ''
        @ ''0 100-2h-3zm-3 4a1 1 0 100 2h.01a1 1 0 100-2H7zm3 0a1 1 0 100 2h3a1 1 0 100-2h-3z" clip-rule="evenodd"></path></svg></div><span ''
        @ ''style="font-size: 0.75rem; font-weight: 600;">Durable Workflow</span></div><neo-badge ''
        @ ''variant="primary">DagNats</neo-badge></div><div style="display: flex; flex-direction: ''
        @ ''column; gap: 0.25rem; margin-bottom: 0.75rem;"><div style="display: flex; align-items: ''
        @ ''center; gap: 0.5rem; font-size: 0.7rem;"><neo-badge variant="neutral" data-class="''),
      Attr (''{'neo-badge-primary': $techStep === 'workflow' && $onboardingActive && !$workflowCompleted '' @ ''&& $onboardingStep === 1, 'neo-badge-success': $workflowCompleted}''),
      Lit (''">1. Greeting</neo-badge></div><div style="display: flex; align-items: center; gap: ''
        @ ''0.5rem; font-size: 0.7rem;"><neo-badge variant="neutral" data-class="''),
      Attr (''{'neo-badge-primary': $techStep === 'workflow' && $onboardingActive && !$workflowCompleted '' @ ''&& $onboardingStep === 2, 'neo-badge-success': $workflowCompleted}''),
      Lit (''">2. Wait for first todo</neo-badge></div><div style="display: flex; align-items: center; ''
        @ ''gap: 0.5rem; font-size: 0.7rem;"><neo-badge variant="neutral" data-class="''),
      Attr (''{'neo-badge-primary': $techStep === 'workflow' && $onboardingActive && !$workflowCompleted '' @ ''&& $onboardingStep === 3, 'neo-badge-success': $workflowCompleted}''),
      Lit (''">3. Create 1/3</neo-badge></div><div style="display: flex; align-items: center; gap: ''
        @ ''0.5rem; font-size: 0.7rem;"><neo-badge variant="neutral" data-class="''),
      Attr (''{'neo-badge-primary': $techStep === 'workflow' && $onboardingActive && !$workflowCompleted '' @ ''&& $onboardingStep === 4, 'neo-badge-success': $workflowCompleted}''),
      Lit (''">4. Create 2/3</neo-badge></div><div style="display: flex; align-items: center; gap: ''
        @ ''0.5rem; font-size: 0.7rem;"><neo-badge variant="neutral" data-class="''),
      Attr (''{'neo-badge-primary': $techStep === 'workflow' && $onboardingActive && !$workflowCompleted '' @ ''&& $onboardingStep === 5, 'neo-badge-success': $workflowCompleted}''),
      Lit (''">5. Create 3/3</neo-badge></div><div style="display: flex; align-items: center; gap: ''
        @ ''0.5rem; font-size: 0.7rem;"><neo-badge variant="neutral" data-class="''),
      Attr (''{'neo-badge-primary': $techStep === 'workflow' && $onboardingActive && !$workflowCompleted '' @ ''&& $onboardingStep === 6, 'neo-badge-success': $workflowCompleted}''),
      Lit ''">6. Finalize</neo-badge></div></div>''] @
     neo_alert_attrs T \<lparr>ao_variant = Some ''info''\<rparr> [(''data-show'', AStr ''$onboardingActive && !$workflowCompleted && $onboardingStep === 2''), (''role'', AStr ''status''), (''style'', AStr ''margin-bottom: 0.5rem;'')] (neo_alert_icon T ([Lit (''<svg xmlns="http://www.w3.org/2000/svg" width="16" height="16" viewBox="0 0 20 20" fill="currentColor"><path ''
        @ ''fill-rule="evenodd" d="M18 10a8 8 0 11-16 0 8 8 0 0116 0zm-7-4a1 1 0 11-2 0 1 1 0 012 ''
        @ ''0zM9 9a1 1 0 000 2v3a1 1 0 001 1h1a1 1 0 100-2v-2a1 1 0 00-1-1H9z" clip-rule="evenodd"></path></svg>'')]) @
     [Lit '' ''] @
     neo_alert_content T (neo_alert_description T ([Lit ''Waiting for your next to-do. Add any task above to continue the workflow.'']))) @ mo_durable_workflow_end T s\<close>

definition mo_async_demos_card :: "templ \<Rightarrow> signals \<Rightarrow> piece list" where
  \<open>mo_async_demos_card T s =
     [Lit (''<neo-card variant="outline"><div data-neo-card-inner><div data-neo-card-header><h3 data-neo-card-title ''
        @ ''style="font-size: 0.875rem;">Async Demos</h3></div><div data-neo-card-body><neo-tabs ''
        @ ''value="queue" id="async-demos-tabs-morpheus" style="display: block;"><neo-tablist aria-label="Async ''
        @ ''demos"><neo-tab value="queue" id="async-demos-tabs-tab-queue" aria-controls="async-demos-tabs-panel-queue" ''
        @ ''data-on:click__prevent="$sidebarTab = 'queue'">Queue + Retry</neo-tab> '')] @
     (if sg_llm_enabled s \<or> sg_simulated_llm s then [Lit (''<neo-tab value="ai" id="async-demos-tabs-tab-ai" aria-controls="async-demos-tabs-panel-ai" ''
        @ ''data-on:click__prevent="$sidebarTab = 'ai'">AI Suggest</neo-tab> '')]
     else []) @
     (if sg_dag_nats_enabled s then [Lit (''<neo-tab value="workflow" id="async-demos-tabs-tab-workflow" aria-controls="async-demos-tabs-panel-workflow" ''
        @ ''data-on:click__prevent="$sidebarTab = 'workflow'">Durable Workflow</neo-tab>'')]
     else []) @
     [Lit (''</neo-tablist> <neo-tabpanel value="queue" id="async-demos-tabs-panel-queue" data-show="$sidebarTab ''
        @ ''=== 'queue' || !$sidebarTab">'')] @
     mo_queue_retry_panel T @
     [Lit ''</neo-tabpanel> ''] @
     (if sg_llm_enabled s \<or> sg_simulated_llm s then [Lit ''<neo-tabpanel value="ai" id="async-demos-tabs-panel-ai" data-show="$sidebarTab === 'ai'">''] @
     mo_ai_suggest_panel T @
     [Lit ''</neo-tabpanel> '']
     else []) @
     (if sg_dag_nats_enabled s then [Lit (''<neo-tabpanel value="workflow" id="async-demos-tabs-panel-workflow" data-show="$sidebarTab ''
        @ ''=== 'workflow'">'')] @
     mo_durable_workflow_panel T s @
     [Lit ''</neo-tabpanel>'']
     else []) @
     [Lit ''</neo-tabs></div></div></neo-card>'']\<close>

definition mo_delete_confirm :: "piece list" where
  \<open>mo_delete_confirm =
     [Lit (''<neo-dialog id="confirm-delete-modal" data-on:close="$confirmingDeleteId = '' @ js_empty
        @ ''; $confirmingDeleteTitle = '' @ js_empty
        @ ''; $deleting = false"><dialog><header data-neo-dialog-header><h2 data-neo-dialog-title ''
        @ ''style="display: flex; align-items: center; gap: 0.5rem; color: var(--neo-color-danger, ''
        @ ''#dc2626);"><svg xmlns="http://www.w3.org/2000/svg" width="20" height="20" viewBox="0 ''
        @ ''0 24 24" fill="none" stroke="currentColor" stroke-width="2"><path d="M10.29 3.86L1.82 ''
        @ ''18a2 2 0 001.71 3h16.94a2 2 0 001.71-3L13.71 3.86a2 2 0 00-3.42 0z"></path><line x1="12" ''
        @ ''y1="9" x2="12" y2="13"></line><line x1="12" y1="17" x2="12.01" y2="17"></line></svg> ''
        @ ''Delete this todo?</h2></header><div data-neo-dialog-body><p style="font-size: 0.875rem;">This ''
        @ ''will permanently remove <span style="font-weight: 600;" data-text="$confirmingDeleteTitle"></span>. ''
        @ ''This can't be undone.</p></div><footer data-neo-dialog-footer><neo-button variant="ghost" ''
        @ ''size="sm" data-on:click="document.getElementById('confirm-delete-modal').open = false">Cancel</neo-button> ''
        @ ''<neo-button variant="danger" size="sm" data-neo-dialog-trigger="confirm-delete-modal" ''
        @ ''data-attr:disabled="$deleting" data-on:click="$deleting = true; document.getElementById('confirm-delete-modal').open ''
        @ ''= false; @post('/api/todos/' + $confirmingDeleteId + '/delete?clientID=' + encodeURIComponent($clientID ''
        @ ''|| '' @ js_empty
        @ '') + '&skin=morpheus')"><span data-show="!$deleting">Delete</span> <span data-show="$deleting" ''
        @ ''style="display: inline-flex; align-items: center; gap: 0.25rem;"><neo-spinner size="sm"></neo-spinner> ''
        @ ''<span>Deleting</span></span></neo-button></footer></dialog></neo-dialog>'')]\<close>

definition mo_realtime :: "piece list" where
  \<open>mo_realtime =
     [Lit ''<button id="sse-opener" style="display: none;" data-on:click="'',
      Attr (''@get('/api/todos/stream?clientID=' + encodeURIComponent(window.__gogogoClientID || '' @ js_empty @ '') + '&skin=morpheus', { permanent: true })''),
      Lit (''" aria-hidden="true"></button><script type="module">''
        @ nl 2 @ ''(function () {''
        @ nl 3 @ ''try {''
        @ nl 4 @ ''if (window.__gogogoSSEWired) return;''
        @ nl 4 @ ''window.__gogogoSSEWired = true;''
        @ nl 4 @ ''var cid = sessionStorage.getItem("gogogo_cid");''
        @ nl 4 @ ''if (!cid) { cid = crypto.randomUUID(); sessionStorage.setItem("gogogo_cid", cid); }''
        @ nl 4 @ ''window.__gogogoClientID = cid;''
        @ nl 4 @ ''function openSSE() {''
        @ nl 5 @ ''var btn = document.getElementById("sse-opener");''
        @ nl 5 @ ''if (btn) btn.click();''
        @ nl 4 @ ''}''
        @ nl 4 @ ''document.addEventListener("datastar-ready", openSSE);''
        @ nl 4 @ ''setTimeout(openSSE, 1500);''
        @ nl 4 @ ''document.addEventListener("visibilitychange", function () {''
        @ nl 5
        @ ''if (!document.hidden) { var btn = document.getElementById("sse-opener"); if (btn) btn.click(); ''
        @ ''}''
        @ nl 4 @ ''});''
        @ nl 3 @ ''} catch (e) { console.warn("SSE init:", e); }''
        @ nl 2 @ ''})();''
        @ nl 1 @ ''</script><script>''
        @ nl 2 @ ''(function(){''
        @ nl 3 @ ''var sub = null;''
        @ nl 3 @ ''function connect() {''
        @ nl 4 @ ''if (sub) return;''
        @ nl 4 @ ''sub = new EventSource("/api/realtime");''
        @ nl 4 @ ''sub.addEventListener("PB_CONNECT", function () {''
        @ nl 5 @ ''var rc = new EventSource("/api/realtime?sub=todos");''
        @ nl 5 @ ''rc.addEventListener("PB_RECORD", function (e) {''
        @ nl 6 @ ''try {''
        @ nl 7 @ ''var d = JSON.parse(e.data);''
        @ nl 7 @ ''if (d.record && d.action && window.datastar) {''
        @ nl 8 @ ''window.datastar.actions.get("/api/todos/fragment?skin=morpheus");''
        @ nl 7 @ ''}''
        @ nl 6 @ ''} catch (e) {}''
        @ nl 5 @ ''});''
        @ nl 4 @ ''});''
        @ nl 3 @ ''}''
        @ nl 3 @ ''connect();''
        @ nl 2 @ ''})();''
        @ nl 1 @ ''</script>'')]\<close>

definition mo_grid_css :: "piece list" where
  \<open>mo_grid_css =
     [Lit (''<style>''
        @ nl 2 @ ''@media (min-width: 1024px) {''
        @ nl 3 @ ''.cal14-grid { grid-template-columns: 3fr 2fr !important; }''
        @ nl 2 @ ''}''
        @ nl 1 @ ''</style>'')]\<close>

definition mo_todo_page :: "view_env \<Rightarrow> bytes \<Rightarrow> signals \<Rightarrow> bytes \<Rightarrow> bytes \<Rightarrow> bytes \<Rightarrow> bool \<Rightarrow> bytes \<Rightarrow> piece list" where
  \<open>mo_todo_page V title s email build commit offline skin =
     [Lit ''<!doctype html><html lang="en" data-signals="'',
      Attr ''{"theme":"light"}'',
      Lit (''" data-attr:data-theme="$theme" data-class:dark="$theme === 'dark'"><head><meta charset="utf-8"><meta ''
        @ ''name="viewport" content="width=device-width, initial-scale=1"><title>''),
      Esc title,
      Lit ''</title>''] @
     active_skin_assets skin @
     theme_head @
     offline_sync_script offline @
     [Lit (''</head><body style="background: var(--page-bg, #f5f5f4); margin: 0; min-height: 100vh; ''
        @ ''font-family: system-ui, -apple-system, sans-serif;">'')] @
     navbar (ve_templ V) email ''todo'' build commit @
     skin_selector (ve_templ V) (ve_skins V) skin @
     offline_banner offline @
     [Lit ''<div style="max-width: 80rem; margin: 2rem auto 0; padding: 0 1rem;"><div data-signals="'',
      Attr (marshal_signals (ve_time V) s),
      Lit (''" data-on:gogogo__queued__window="$loading = false; $newTitle = '' @ js_empty
        @ ''; $deleting = false; $confirmingDeleteId = '' @ js_empty @ ''; $confirmingDeleteTitle = '' @ js_empty
        @ ''; $aiStep = 0">'')] @
     mo_header s @
     [Lit (''<div style="display: grid; grid-template-columns: 1fr; gap: 1.25rem;" class="cal14-grid"><!-- ''
        @ ''LEFT: Tasks card (3/5 on lg) --><div class="cal14-left" style="display: flex; flex-direction: ''
        @ ''column; gap: 1.25rem;">'')] @
     mo_tasks_card V s @
     [Lit (''</div><!-- RIGHT: Realtime + Async Demo Tabs (2/5 on lg) --><div class="cal14-right" ''
        @ ''style="display: flex; flex-direction: column; gap: 1rem;">'')] @
     mo_realtime_card (ve_templ V) @
     mo_async_demos_card (ve_templ V) s @
     [Lit ''</div></div>''] @
     mo_delete_confirm @
     [Lit (''</div></div><div id="toast-container" style="position: fixed; right: 1rem; bottom: 1rem; ''
        @ ''z-index: 100; display: flex; flex-direction: column-reverse; gap: 0.5rem; max-width: ''
        @ ''24rem;"></div><neo-toaster position="bottom-right" id="neo-toaster"></neo-toaster>'')] @
     mo_realtime @
     mo_grid_css @
     [Lit ''</body></html>'']\<close>

subsection \<open>Where the values stand\<close>

lemma flow_element:
  assumes "templ_attributes T" and "\<forall>(k, v) \<in> set attrs. plain_name k" and "flow Data cs = Data"
    and "map_option content_of (tag_at (ends Data start)) = Some Data" and "ends Data fin = Data"
  shows "flow Data ([Lit start] @ tp_attributes T attrs @ [Lit ''>''] @ cs @ [Lit fin]) = Data"
proof -
  obtain n where n: "tag_at (ends Data start) = Some n" "content_of n = Data" using assms(4) by auto
  show ?thesis
    using ends_tag(1) [OF tag_at_attributes [OF assms(1) n(1) assms(2)], of "[]"] n(2) assms(3,5) by simp
qed

lemma flow_alert_parts:
  assumes "templ_attributes T" and "\<forall>(k, v) \<in> set attrs. plain_name k" and "flow Data cs = Data"
  shows "flow Data (neo_alert_icon_attrs T attrs cs) = Data" "flow Data (neo_alert_content_attrs T attrs cs) = Data"
    "flow Data (neo_alert_description_attrs T attrs cs) = Data" "flow Data (neo_alert_actions_attrs T attrs cs) = Data"
  unfolding neo_alert_icon_attrs_def neo_alert_content_attrs_def neo_alert_description_attrs_def neo_alert_actions_attrs_def
  by (rule flow_element [OF assms]; simp add: reading del: append.simps)+

lemma flow_alert_title_attrs:
  assumes "templ_attributes T" and "\<forall>(k, v) \<in> set attrs. plain_name k" and "flow Data cs = Data"
  shows "flow Data (neo_alert_title_attrs T level attrs cs) = Data"
proof -
  have h: "flow Data ([Lit (''<h'' @ d # '' data-neo-alert-title'')] @ tp_attributes T attrs @ [Lit ''>''] @ cs @
      [Lit (''</h'' @ d # ''>'')]) = Data" if "d \<in> set ''123456''" for d
    by (rule flow_element [OF assms]) (use that in \<open>auto simp: reading simp del: append.simps\<close>)
  show ?thesis
    using h [of "CHR ''1''"] h [of "CHR ''2''"] h [of "CHR ''3''"] h [of "CHR ''4''"] h [of "CHR ''5''"] h [of "CHR ''6''"]
    by (simp add: neo_alert_title_attrs_def)
qed

lemma flow_alert_simple [simp]:
  assumes "templ_attributes T" and "flow Data cs = Data"
  shows "flow Data (neo_alert_icon T cs) = Data" "flow Data (neo_alert_content T cs) = Data"
    "flow Data (neo_alert_description T cs) = Data" "flow Data (neo_alert_actions T cs) = Data"
    "flow Data (neo_alert_title T level cs) = Data"
  using assms flow_alert_parts [OF assms(1) _ assms(2), of "[]"] flow_alert_title_attrs [OF assms(1) _ assms(2), of "[]"]
  by (simp_all add: neo_alert_icon_def neo_alert_content_def neo_alert_description_def neo_alert_actions_def neo_alert_title_def)

lemma plain_string_attr: "plain_name n \<Longrightarrow> \<forall>(k, v) \<in> set (string_attr n a). plain_name k"
  by (simp add: string_attr_def split: option.splits)

lemma flow_alert_attrs [simp]:
  assumes "templ_attributes T" and "\<forall>(k, v) \<in> set attrs. plain_name k" and "flow Data cs = Data"
  shows "flow Data (neo_alert_attrs T opts attrs cs) = Data"
proof -
  have "tag_at (ends Data ''<neo-alert'') = Some ''neo-alert''" by (simp add: reading)
  from tag_at_attributes [OF assms(1) tag_at_attributes [OF assms(1) this plain_string_attr] assms(2)]
  have "tag_at (flow (flow (ends Data ''<neo-alert'') (tp_attributes T (string_attr ''variant'' (ao_variant opts))))
      (tp_attributes T attrs)) = Some ''neo-alert''"
    by (simp add: plain_name_def is_space_def)
  from ends_tag(1) [OF this, of "[]"] show ?thesis
    using assms(3) by (simp add: neo_alert_attrs_def reading)
qed

lemma flow_alert [simp]: "templ_attributes T \<Longrightarrow> flow Data cs = Data \<Longrightarrow> flow Data (neo_alert T opts cs) = Data"
  by (simp add: neo_alert_def)

lemma flow_checkbox [simp]:
  assumes "templ_attributes T"
  shows "flow Data (neo_checkbox T opts) = Data"
proof -
  let ?m = \<open>flow Data ([Lit ''<neo-checkbox role="checkbox"''] @
     (if attr_or False (cb_indeterminate opts) then [Lit '' indeterminate aria-checked="mixed"''] else []) @
     [Lit '' else''] @
     (if attr_or False (cb_checked opts) then [Lit '' checked aria-checked="true"'']
     else [Lit '' aria-checked="false"'']) @
     (if attr_or False (cb_disabled opts) then [Lit '' disabled aria-disabled="true" tabindex="-1"'']
     else [Lit '' tabindex="0"'']))\<close>
  let ?as = "\<lambda>n a. tp_attributes T (string_attr n (a opts))"
  have t1: "tag_at ?m = Some ''neo-checkbox''" by (simp add: reading)
  have t2: "tag_at (flow ?m (?as ''size'' cb_size)) = Some ''neo-checkbox''"
    by (rule tag_at_attributes [OF assms t1 plain_string_attr]) (simp add: plain_name_def is_space_def)
  have t3: "tag_at (flow (flow ?m (?as ''size'' cb_size)) (?as ''aria-label'' cb_aria_label)) = Some ''neo-checkbox''"
    by (rule tag_at_attributes [OF assms t2 plain_string_attr]) (simp add: plain_name_def is_space_def)
  have t4: "tag_at (flow (flow (flow ?m (?as ''size'' cb_size)) (?as ''aria-label'' cb_aria_label)) (tp_attributes T [])) =
      Some ''neo-checkbox''"
    by (rule tag_at_attributes [OF assms t3]) simp
  from ends_tag(1) [OF t4, of "''</neo-checkbox>''"] show ?thesis
    by (simp add: neo_checkbox_def neo_checkbox_attrs_def reading)
qed

lemma flow_mo_todo_item_region [simp]:
  "templ_attributes (ve_templ V) \<Longrightarrow> flow Data (mo_todo_item_region V item) = Data"
  by (simp add: mo_todo_item_region_def reading del: append.simps)

lemma flow_mo_todo_list_region [simp]:
  "templ_attributes (ve_templ V) \<Longrightarrow> flow Data (mo_todo_list_region V s) = Data"
  by (simp add: mo_todo_list_region_def reading flow_concat del: append.simps)

lemma flow_mo_todo_item [simp]: "templ_attributes (ve_templ V) \<Longrightarrow> flow Data (mo_todo_item V item) = Data"
  by (simp add: mo_todo_item_def reading del: append.simps)

lemma flow_mo_todo_list [simp]: "templ_attributes (ve_templ V) \<Longrightarrow> flow Data (mo_todo_list V s) = Data"
  by (simp add: mo_todo_list_def reading flow_concat del: append.simps)

lemma flow_mo_suggestions [simp]: "flow Data (mo_suggestions xs) = Data"
  by (simp add: mo_suggestions_def reading flow_concat del: append.simps)

lemma flow_mo_parts [simp]:
  "flow Data mo_filter_tabs = Data" "flow Data mo_create_form = Data" "flow Data (mo_header s) = Data"
  "flow Data mo_delete_confirm = Data" "flow Data mo_realtime = Data" "flow Data mo_grid_css = Data"
  by (simp_all add: mo_filter_tabs_def mo_create_form_def mo_header_def mo_delete_confirm_def mo_realtime_def mo_grid_css_def
    reading del: append.simps)

lemma flow_mo_tasks_card [simp]: "templ_attributes (ve_templ V) \<Longrightarrow> flow Data (mo_tasks_card V s) = Data"
  by (simp add: mo_tasks_card_def reading del: append.simps)

lemma flow_mo_realtime_card [simp]: "templ_attributes T \<Longrightarrow> flow Data (mo_realtime_card T) = Data"
  by (simp add: mo_realtime_card_def reading del: append.simps)

lemma flow_mo_queue_retry_panel [simp]: "templ_attributes T \<Longrightarrow> flow Data (mo_queue_retry_panel T) = Data"
  by (simp add: mo_queue_retry_panel_def plain_name_def reading del: append.simps)

lemma flow_mo_ai_suggest_panel [simp]: "templ_attributes T \<Longrightarrow> flow Data (mo_ai_suggest_panel T) = Data"
  by (simp add: mo_ai_suggest_panel_def plain_name_def reading del: append.simps)

lemma flow_mo_durable_workflow_end [simp]: "templ_attributes T \<Longrightarrow> flow Data (mo_durable_workflow_end T s) = Data"
  by (simp add: mo_durable_workflow_end_def plain_name_def reading del: append.simps)

lemma flow_mo_durable_workflow_panel [simp]: "templ_attributes T \<Longrightarrow> flow Data (mo_durable_workflow_panel T s) = Data"
  by (simp add: mo_durable_workflow_panel_def plain_name_def reading del: append.simps)

lemma flow_mo_async_demos_card [simp]: "templ_attributes T \<Longrightarrow> flow Data (mo_async_demos_card T s) = Data"
  by (simp add: mo_async_demos_card_def reading del: append.simps)

lemma flow_mo_todo_page [simp]:
  "templ_attributes (ve_templ V) \<Longrightarrow> flow Data (mo_todo_page V title s email build commit offline skin) = Data"
  by (simp add: mo_todo_page_def reading del: append.simps)

end
