(* ===== verification/MorpheusIds.thy ===== *)
theory MorpheusIds
  imports PageIds MorpheusView
begin

text \<open>
  Which targets of events the page of the Morpheus skin has: the list and the container of notifications,
  and, as it is first served, no place for suggestions.
\<close>

abbreviation (input) suggestions_id :: bytes where "suggestions_id \<equiv> ''suggestions-region''"

subsection \<open>Elements of the library\<close>

lemma seek_alert_parts:
  assumes "templ_attributes T" and "\<forall>(a, v) \<in> set attrs. plain_name a \<and> a \<noteq> ''id''"
    and "seek i (Data, Other, b) cs = (Data, Other, b)"
  shows "seek i (Data, Other, b) (neo_alert_icon_attrs T attrs cs) = (Data, Other, b)"
    "seek i (Data, Other, b) (neo_alert_content_attrs T attrs cs) = (Data, Other, b)"
    "seek i (Data, Other, b) (neo_alert_description_attrs T attrs cs) = (Data, Other, b)"
    "seek i (Data, Other, b) (neo_alert_actions_attrs T attrs cs) = (Data, Other, b)"
  unfolding neo_alert_icon_attrs_def neo_alert_content_attrs_def neo_alert_description_attrs_def neo_alert_actions_attrs_def
  by (rule seek_element [OF assms(1,2) _ _ _ _ assms(3)], simp add: seeking reading del: append.simps, simp, simp,
      simp add: reading, simp add: seeking reading del: append.simps)+

lemma seek_alert_title_attrs:
  assumes "templ_attributes T" and "\<forall>(a, v) \<in> set attrs. plain_name a \<and> a \<noteq> ''id''"
    and "seek i (Data, Other, b) cs = (Data, Other, b)"
  shows "seek i (Data, Other, b) (neo_alert_title_attrs T level attrs cs) = (Data, Other, b)"
proof -
  have h: "seek i (Data, Other, b) ([Lit (''<h'' @ d # '' data-neo-alert-title'')] @ tp_attributes T attrs @ [Lit ''>''] @ cs @
      [Lit (''</h'' @ d # ''>'')]) = (Data, Other, b)" if "d \<in> set ''123456''" for d
    by (rule seek_element [OF assms(1,2) _ _ _ _ assms(3), where m = "AttrName [CHR ''h'', d]" and k = Other and n = "[CHR ''h'', d]"])
      (use that in \<open>auto simp: seeking reading simp del: append.simps\<close>)
  show ?thesis
    using h [of "CHR ''1''"] h [of "CHR ''2''"] h [of "CHR ''3''"] h [of "CHR ''4''"] h [of "CHR ''5''"] h [of "CHR ''6''"]
    by (simp add: neo_alert_title_attrs_def)
qed

lemma seek_alert_simple [simp]:
  assumes "templ_attributes T" and "seek i (Data, Other, b) cs = (Data, Other, b)"
  shows "seek i (Data, Other, b) (neo_alert_icon T cs) = (Data, Other, b)"
    "seek i (Data, Other, b) (neo_alert_content T cs) = (Data, Other, b)"
    "seek i (Data, Other, b) (neo_alert_description T cs) = (Data, Other, b)"
    "seek i (Data, Other, b) (neo_alert_actions T cs) = (Data, Other, b)"
    "seek i (Data, Other, b) (neo_alert_title T level cs) = (Data, Other, b)"
  using assms seek_alert_parts [OF assms(1) _ assms(2), of "[]"] seek_alert_title_attrs [OF assms(1) _ assms(2), of "[]"]
  by (simp_all add: neo_alert_icon_def neo_alert_content_def neo_alert_description_def neo_alert_actions_def neo_alert_title_def)

lemma other_string_attr: "plain_name n \<Longrightarrow> n \<noteq> ''id'' \<Longrightarrow> \<forall>(a, v) \<in> set (string_attr n x). plain_name a \<and> a \<noteq> ''id''"
  by (simp add: string_attr_def split: option.splits)

lemma seek_alert_attrs [simp]:
  assumes "templ_attributes T" and "\<forall>(a, v) \<in> set attrs. plain_name a \<and> a \<noteq> ''id''"
    and "seek i (Data, Other, b) cs = (Data, Other, b)"
  shows "seek i (Data, Other, b) (neo_alert_attrs T opts attrs cs) = (Data, Other, b)"
proof -
  have v: "\<forall>(a, v) \<in> set (string_attr ''variant'' (ao_variant opts)). plain_name a \<and> a \<noteq> ''id''"
    by (rule other_string_attr) (simp_all add: plain_name_def is_space_def)
  obtain m k where s1: "seek i (TagName ''neo-alert'', Other, b) (tp_attributes T (string_attr ''variant'' (ao_variant opts))) = (m, k, b)"
      "tag_at m = Some ''neo-alert''" "settled k"
    by (rule seek_attributes [OF assms(1) v, of "TagName ''neo-alert''" "''neo-alert''" Other i b]) simp_all
  obtain m' k' where s2: "seek i (m, k, b) (tp_attributes T attrs) = (m', k', b)" "tag_at m' = Some ''neo-alert''" "settled k'"
    using seek_attributes [OF assms(1,2) s1(2,3)] by blast
  show ?thesis
    using s1(1) s2(1) seek_close [OF s2(2,3), of i b "[]"] assms(3)
    by (simp add: neo_alert_attrs_def seeking reading)
qed

lemma seek_alert [simp]:
  "templ_attributes T \<Longrightarrow> seek i (Data, Other, b) cs = (Data, Other, b) \<Longrightarrow> seek i (Data, Other, b) (neo_alert T opts cs) = (Data, Other, b)"
  by (simp add: neo_alert_def)

lemma seek_checkbox [simp]:
  assumes "templ_attributes T"
  shows "seek i (Data, Other, b) (neo_checkbox T opts) = (Data, Other, b)"
proof -
  let ?s = \<open>seek i (Data, Other, b) ([Lit ''<neo-checkbox role="checkbox"''] @
     (if attr_or False (cb_indeterminate opts) then [Lit '' indeterminate aria-checked="mixed"''] else []) @
     [Lit '' else''] @
     (if attr_or False (cb_checked opts) then [Lit '' checked aria-checked="true"'']
     else [Lit '' aria-checked="false"'']) @
     (if attr_or False (cb_disabled opts) then [Lit '' disabled aria-disabled="true" tabindex="-1"'']
     else [Lit '' tabindex="0"'']))\<close>
  have s: "?s = (ValEnd ''neo-checkbox'', Other, b)" by (simp add: seeking reading del: append.simps)
  have size: "\<forall>(a, v) \<in> set (string_attr ''size'' (cb_size opts)). plain_name a \<and> a \<noteq> ''id''"
    and label: "\<forall>(a, v) \<in> set (string_attr ''aria-label'' (cb_aria_label opts)). plain_name a \<and> a \<noteq> ''id''"
    by (rule other_string_attr; simp add: plain_name_def is_space_def)+
  obtain m1 k1 where s1: "seek i (ValEnd ''neo-checkbox'', Other, b) (tp_attributes T (string_attr ''size'' (cb_size opts))) = (m1, k1, b)"
      "tag_at m1 = Some ''neo-checkbox''" "settled k1"
    by (rule seek_attributes [OF assms size, of "ValEnd ''neo-checkbox''" "''neo-checkbox''" Other i b]) simp_all
  obtain m2 k2 where s2: "seek i (m1, k1, b) (tp_attributes T (string_attr ''aria-label'' (cb_aria_label opts))) = (m2, k2, b)"
      "tag_at m2 = Some ''neo-checkbox''" "settled k2"
    using seek_attributes [OF assms label s1(2,3)] by blast
  obtain m3 k3 where s3: "seek i (m2, k2, b) (tp_attributes T []) = (m3, k3, b)" "tag_at m3 = Some ''neo-checkbox''" "settled k3"
    by (rule seek_attributes [OF assms _ s2(2,3), of "[]" i b]) simp_all
  show ?thesis
    using s s1(1) s2(1) s3(1) seek_close [OF s3(2,3), of i b "''</neo-checkbox>''"]
    by (simp add: neo_checkbox_def neo_checkbox_attrs_def seeking reading)
qed

subsection \<open>No place for suggestions\<close>

lemma seek_mo_todo_item [simp]: "templ_attributes (ve_templ V) \<Longrightarrow> 
    seek i (Data, Other, b) (mo_todo_item V item) = (Data, Other, b \<or> i = ''todo-'' @ td_id item)"
  by (simp add: mo_todo_item_def seeking reading del: append.simps)

lemma seek_mo_todo_list [simp]: "templ_attributes (ve_templ V) \<Longrightarrow> seek suggestions_id (Data, Other, b) (mo_todo_list V s) = (Data, Other, b)"
  by (simp add: mo_todo_list_def seeking reading seek_concat del: append.simps)

lemma seek_mo_filter_tabs [simp]: "seek suggestions_id (Data, Other, b) mo_filter_tabs = (Data, Other, b)"
  by (simp add: mo_filter_tabs_def seeking reading del: append.simps)

lemma seek_mo_create_form [simp]: "seek suggestions_id (Data, Other, b) mo_create_form = (Data, Other, b)"
  by (simp add: mo_create_form_def seeking reading del: append.simps)

lemma seek_mo_header [simp]: "seek suggestions_id (Data, Other, b) (mo_header s) = (Data, Other, b)"
  by (simp add: mo_header_def seeking reading del: append.simps)

lemma seek_mo_tasks_card [simp]: "templ_attributes (ve_templ V) \<Longrightarrow> suggestions_of s = [] \<Longrightarrow>
    seek suggestions_id (Data, Other, b) (mo_tasks_card V s) = (Data, Other, b)"
  by (simp add: mo_tasks_card_def seeking reading del: append.simps)

lemma seek_mo_realtime_card [simp]: "templ_attributes T \<Longrightarrow> seek suggestions_id (Data, Other, b) (mo_realtime_card T) = (Data, Other, b)"
  by (simp add: mo_realtime_card_def seeking reading del: append.simps)

lemma seek_mo_queue_retry_panel [simp]: "templ_attributes T \<Longrightarrow> seek suggestions_id (Data, Other, b) (mo_queue_retry_panel T) = (Data, Other, b)"
  by (simp add: mo_queue_retry_panel_def plain_name_def seeking reading del: append.simps)

lemma seek_mo_ai_suggest_panel [simp]: "templ_attributes T \<Longrightarrow> seek suggestions_id (Data, Other, b) (mo_ai_suggest_panel T) = (Data, Other, b)"
  by (simp add: mo_ai_suggest_panel_def plain_name_def seeking reading del: append.simps)

lemma seek_mo_durable_workflow_end [simp]: "templ_attributes T \<Longrightarrow> seek suggestions_id (Data, Other, b) (mo_durable_workflow_end T s) = (Data, Other, b)"
  by (simp add: mo_durable_workflow_end_def plain_name_def seeking reading del: append.simps)

lemma seek_mo_durable_workflow_panel [simp]: "templ_attributes T \<Longrightarrow> seek suggestions_id (Data, Other, b) (mo_durable_workflow_panel T s) = (Data, Other, b)"
  by (simp add: mo_durable_workflow_panel_def plain_name_def seeking reading del: append.simps)

lemma seek_mo_async_demos_card [simp]: "templ_attributes T \<Longrightarrow> seek suggestions_id (Data, Other, b) (mo_async_demos_card T s) = (Data, Other, b)"
  by (simp add: mo_async_demos_card_def seeking reading del: append.simps)

lemma seek_mo_delete_confirm [simp]: "seek suggestions_id (Data, Other, b) mo_delete_confirm = (Data, Other, b)"
  by (simp add: mo_delete_confirm_def seeking reading del: append.simps)

lemma seek_mo_realtime [simp]: "seek suggestions_id (Data, Other, b) mo_realtime = (Data, Other, b)"
  by (simp add: mo_realtime_def seeking reading del: append.simps)

lemma seek_mo_grid_css [simp]: "seek suggestions_id (Data, Other, b) mo_grid_css = (Data, Other, b)"
  by (simp add: mo_grid_css_def seeking reading del: append.simps)

lemma mo_no_suggestions:
  assumes "templ_attributes (ve_templ V)" and "suggestions_of s = []"
  shows "\<not> has_id ''suggestions-region'' (mo_todo_page V title s email build commit offline skin)"
  using assms by (simp add: has_id_seek mo_todo_page_def seeking reading del: append.simps)

subsection \<open>The list and the notifications\<close>

lemma mo_list: "offers ''todo-list'' (mo_todo_list V s)"
  unfolding mo_todo_list_def append_Cons append_Nil
  by (rule offers_literal) (simp add: seeking reading del: append.simps)

lemma offers_mo_tasks_card:
  "templ_attributes (ve_templ V) \<Longrightarrow> offers ''todo-list'' (mo_tasks_card V s)"
  unfolding mo_tasks_card_def
  by (rule offers_left [OF _ mo_list], simp | rule offers_right, simp add: reading del: append.simps)+

lemma offers_mo_toasts:
  \<open>offers ''toast-container'' [Lit (''</div></div><div id="toast-container" style="position: fixed; right: 1rem; bottom: 1rem; ''
        @ ''z-index: 100; display: flex; flex-direction: column-reverse; gap: 0.5rem; max-width: ''
        @ ''24rem;"></div><neo-toaster position="bottom-right" id="neo-toaster"></neo-toaster>'')]\<close>
  by (rule offers_literal) (simp add: seeking reading del: append.simps)

lemma mo_todo_page_targets:
  assumes "templ_attributes (ve_templ V)"
  shows "has_id ''todo-list'' (mo_todo_page V title s email build commit offline skin)"
    "has_id ''toast-container'' (mo_todo_page V title s email build commit offline skin)"
proof -
  have "offers ''todo-list'' (mo_todo_page V title s email build commit offline skin)"
    "offers ''toast-container'' (mo_todo_page V title s email build commit offline skin)"
    using assms unfolding mo_todo_page_def
    by - (rule offers_left [OF _ offers_mo_tasks_card], simp, assumption | rule offers_left [OF _ offers_mo_toasts], simp add: reading del: append.simps
        | rule offers_right, simp add: reading del: append.simps)+
  then show "has_id ''todo-list'' (mo_todo_page V title s email build commit offline skin)"
    "has_id ''toast-container'' (mo_todo_page V title s email build commit offline skin)"
    using assms by (simp_all add: offersD)
qed

end
