(* ===== verification/Views.thy ===== *)
theory Views
  imports TodoView BasecoatView MorpheusView TodoHandlers
begin

text \<open>
  What the handlers answer with, as bytes: the documents and fragments of the pages' theories, chosen as
  \<open>handleIndex\<close>, \<open>renderTodoListRegion\<close>, \<open>streamSuggestResult\<close> and \<open>emitToast\<close> choose them, and that a browser
  reads each of them as it is meant, whatever the values.
\<close>

subsection \<open>Documents and fragments\<close>

definition todo_page_title :: bytes where
  "todo_page_title = ''Todos '' @ u_dash @ '' gogogo-fullstack-template''"

definition todo_page :: "view_env \<Rightarrow> signals \<Rightarrow> bytes \<Rightarrow> bytes \<Rightarrow> bytes \<Rightarrow> bool \<Rightarrow> bytes \<Rightarrow> piece list" where
  "todo_page V s email build commit offline skin =
     (if skin = ''morpheus'' then mo_todo_page V todo_page_title s email build commit offline skin
      else if skin = ''basecoat'' then bc_todo_page V todo_page_title s email build commit offline skin
      else todo_layout V todo_page_title s email build commit offline skin)"

fun region_markup :: "view_env \<Rightarrow> region \<Rightarrow> piece list" where
  "region_markup V (TodoListRegion skin s) =
     (if skin = ''morpheus'' then mo_todo_list_region V s
      else if skin = ''basecoat'' then bc_todo_list_region V s
      else todo_list_region V s)"
| "region_markup V (SuggestionsList xs) = suggestions_list (case xs of None \<Rightarrow> [] | Some ys \<Rightarrow> ys)"

text \<open>The target of an event that changes the page, and what it is sent: \<open>toast\<close> is the new notification's id.\<close>

definition event_patch :: "view_env \<Rightarrow> bytes \<Rightarrow> sse_event \<Rightarrow> (bytes \<times> piece list) option" where
  "event_patch V toast ev = (case ev of
     PatchRegion sel r _ \<Rightarrow> Some (sel, region_markup V r)
   | Toast message kind \<Rightarrow> Some (''#toast-container'', toast_message (ve_templ V) message kind toast)
   | _ \<Rightarrow> None)"

datatype document =
    Login_doc bytes bytes
  | Landing_doc bytes bytes bytes
  | Config_doc "bytes \<Rightarrow> bytes" "row_view \<Rightarrow> bytes" page_data bytes bytes bytes
  | Boards_doc bytes "board_meta list" bytes bytes bool
  | Boards_fragment "board_meta list"
  | Board_doc bytes bytes bytes bytes bool
  | Todo_doc signals bytes bytes bytes bool bytes
  | Region_fragment region
  | Toast_fragment bytes bytes bytes

fun markup :: "view_env \<Rightarrow> document \<Rightarrow> piece list" where
  "markup V (Login_doc next_url err) = login_page next_url err"
| "markup V (Landing_doc email build commit) = landing_page (ve_templ V) email build commit"
| "markup V (Config_doc note describe d email build commit) = config_page (ve_templ V) note describe d email build commit"
| "markup V (Boards_doc email boards build commit offline) = whiteboard_list_page (ve_templ V) email boards build commit offline"
| "markup V (Boards_fragment boards) = whiteboard_list_fragment (ve_templ V) boards"
| "markup V (Board_doc email doc_id build commit offline) = board_page (ve_templ V) email doc_id build commit offline"
| "markup V (Todo_doc s email build commit offline skin) = todo_page V s email build commit offline skin"
| "markup V (Region_fragment r) = region_markup V r"
| "markup V (Toast_fragment message kind toast) = toast_message (ve_templ V) message kind toast"

lemma flow_markup [simp]:
  assumes "templ_attributes (ve_templ V)"
  shows "flow Data (markup V d) = Data"
proof (cases d)
  case (Todo_doc s email build commit offline skin)
  then show ?thesis using assms by (simp add: todo_page_def)
next
  case (Region_fragment r)
  then show ?thesis using assms by (cases r) simp_all
qed simp_all

subsection \<open>Documents are read as they are meant\<close>

text \<open>C9: Every page and every fragment the handlers send is read by a browser exactly as the template means
  it: each value (a todo's title, an error message, the address to return to, a name in the configuration)
  is read as text or as the value of its attribute, unchanged, and the tags, attributes and scripts that
  are read are the same as with all values left out.  The parameter is templ's escaping.\<close>
theorem documents_read_as_meant:
  assumes "templ_escapes (ve_templ V)" and "templ_attributes (ve_templ V)"
  shows "ends Data (render (ve_templ V) (markup V d)) = Data \<and>
    read_of Data (render (ve_templ V) (markup V d)) = meaning Data (markup V d) \<and>
    filter own_markup (read_of Data (render (ve_templ V) (markup V d))) =
      filter own_markup (read_of Data (render (ve_templ V) (map blank (markup V d))))"
  using flow_sound [OF assms(1), of Data "markup V d"] values_add_no_markup [OF assms(1), of Data "markup V d"] assms(2)
  by simp

definition plain_templ :: templ where
  "plain_templ = \<lparr>tp_text = html_escape, tp_attr = html_escape, tp_bool = (\<lambda>b. if b then ''true'' else ''false''),
     tp_url = id, tp_classes = (\<lambda>cs. concat (map (\<lambda>(n, b). if b then n @ '' '' else '''') cs)),
     tp_attributes = (\<lambda>as. concat (map attribute_pieces as))\<rparr>"

lemma plain_templ_laws: "templ_escapes plain_templ" "templ_attributes plain_templ"
  by (auto simp: plain_templ_def templ_escapes_def templ_attributes_def)

definition plain_view :: view_env where
  "plain_view = \<lparr>ve_templ = plain_templ, ve_now = 0, ve_day = (\<lambda>_. ''01/01''), ve_time = (\<lambda>_. ''''), ve_skins = [''daisyui'']\<rparr>"

theorem documents_read_as_meant_witness:
  "ends Data (render plain_templ (login_page ''/todo'' ''<script>alert(1)</script>'')) = Data \<and>
   read_of Data (render plain_templ (login_page ''/todo'' ''<script>alert(1)</script>'')) =
     meaning Data (login_page ''/todo'' ''<script>alert(1)</script>'')"
  using documents_read_as_meant [of plain_view "Login_doc ''/todo'' ''<script>alert(1)</script>''"] plain_templ_laws
  by (simp add: plain_view_def)

end
