(* ===== verification/Targets.thy ===== *)
theory Targets
  imports Views BasecoatIds MorpheusIds TodoStream
begin

text \<open>
  An event patches the element whose id it names.  Which of the events of the todo stream find their
  element in the page a browser was served, by skin.
\<close>

definition reads_id :: "view_env \<Rightarrow> document \<Rightarrow> bytes \<Rightarrow> bool" where
  "reads_id V d i \<longleftrightarrow> i \<in> set (element_ids (read_of Data (render (ve_templ V) (markup V d))))"

text \<open>An event is lost when it is sent to an element the page does not have.\<close>

definition lost :: "view_env \<Rightarrow> document \<Rightarrow> bytes \<Rightarrow> sse_event \<Rightarrow> bool" where
  "lost V d toast ev = (case event_patch V toast ev of None \<Rightarrow> False
     | Some (selector, _) \<Rightarrow> \<not> (hd selector = CHR ''#'' \<and> reads_id V d (tl selector)))"

lemma reads_id_is:
  assumes "templ_escapes (ve_templ V)" and "templ_attributes (ve_templ V)"
  shows "reads_id V d i \<longleftrightarrow> has_id i (markup V d)"
  using flow_sound [OF assms(1), of Data "markup V d"] assms(2) by (simp add: reads_id_def has_id_def)

lemma todo_page_ids:
  assumes "templ_attributes (ve_templ V)"
  shows "has_id ''todo-list'' (todo_page V s email build commit offline skin)"
    and "has_id ''toast-container'' (todo_page V s email build commit offline skin) \<longleftrightarrow> skin \<noteq> ''basecoat''"
    and "suggestions_of s = [] \<Longrightarrow>
      has_id ''suggestions-region'' (todo_page V s email build commit offline skin) \<longleftrightarrow> skin \<noteq> ''morpheus''"
  using assms by (simp_all add: todo_page_def mo_todo_page_targets bc_targets todo_layout_targets bc_no_toasts mo_no_suggestions)

lemma index_serves_no_suggestions:
  "snd (TodoHandlers.handle_index h online e w) = RPage p s email \<Longrightarrow> suggestions_of s = []"
  by (auto simp: TodoHandlers.handle_index_def Let_def split: option.splits prod.splits)

lemma index_serves_page:
  "ev_auth e = Some u \<Longrightarrow> \<exists>p s. snd (TodoHandlers.handle_index h online e w) = RPage p s (us_email u)"
  by (simp add: TodoHandlers.handle_index_def Let_def split: prod.splits)

text \<open>C10: A page that has been served for a skin, and the events its browser then gets when an AI suggestion is
  finished: the signals always arrive, the clickable suggestions are lost exactly in the Morpheus page,
  which has no element for them as long as there are none, and the notification is lost exactly in the
  BasecoatUI page, which has no container for notifications.  A new list always finds its element.\<close>
theorem suggestions_lost_by_skin:
  assumes "templ_escapes (ve_templ V)" and "templ_attributes (ve_templ V)"
    and "snd (TodoHandlers.handle_index h online e w) = RPage p s email"
  shows "map (lost V (Todo_doc s email build commit offline skin) toast) (message_events h' e' now (suggest_result ss err) st) =
      [False, skin = ''morpheus'', skin = ''basecoat''] \<and>
    \<not> lost V (Todo_doc s email build commit offline skin) toast (PatchRegion ''#todo-list'' r morph)"
  using index_serves_no_suggestions [OF assms(3)] assms(2)
  by (simp add: suggest_result_events lost_def event_patch_def emit_toast_def reads_id_is [OF assms(1,2)] todo_page_ids)

definition ann_event :: event where
  "ann_event = (fresh_event (demo_request '''' '''' ''''))\<lparr>ev_auth := Some \<lparr>us_id = ''ann'', us_email = ''ann@a''\<rparr>\<rparr>"

theorem suggestions_lost_by_skin_witness:
  "\<exists>s. map (lost plain_view (Todo_doc s ''ann@a'' '''' '''' False ''morpheus'') ''t1'')
     (message_events demo_handler ann_event 0 (suggest_result (Some [''Buy milk'']) '''') (mem_store demo_rows)) =
     [False, True, False]"
proof -
  obtain p s where "snd (TodoHandlers.handle_index demo_handler 0 ann_event (demo_world demo_rows)) = RPage p s ''ann@a''"
    using index_serves_page [of ann_event "\<lparr>us_id = ''ann'', us_email = ''ann@a''\<rparr>" demo_handler 0 "demo_world demo_rows"] by (auto simp: ann_event_def)
  from suggestions_lost_by_skin [of plain_view, OF _ _ this, of "''''" "''''" False "''morpheus''" "''t1''" demo_handler ann_event 0
      "Some [''Buy milk'']" "''''" "mem_store demo_rows" "TodoListRegion '''' s" False]
  show ?thesis using plain_templ_laws by (auto simp: plain_view_def)
qed

end
