(* ===== verification/Spec2Isabelle.thy ===== *)
theory Spec2Isabelle
  imports Hub GoLib Json Jobs Retry Workers Transport Store PBStore CRDTStore CRDTContract CRDTSync
    Auth CrudProxy Signals TodoHandlers Replication Llm TodoStream SuggestFlow DagNats Onboarding Realtime GoUrl AppConfig ConfigView Collab CollabSync DemoBoard PresenceMsg Presence Whiteboard BoardPeers BoardSync Boot Wiring Commands Seed Skins WorkerPool
    Markup ElementIds Pages PageIds TodoView BasecoatView BasecoatIds MorpheusView MorpheusIds Views Targets
begin

text \<open>
  A verification development of the Go template application in \<open>src/\<close>: a PocketBase server with a todo
  list, a collaborative whiteboard, a job queue, server-sent events and cross-instance synchronisation
  over NATS.  The theories follow the packages; each definition is a translation of the function, type or
  range of lines that the manifest names for it.

  \<^bold>\<open>How the program is put together.\<close>  \<open>cmd/web\<close> and \<open>cmd/desktop\<close> call \<open>internal/server.Run\<close>, which opens
  PocketBase (\<open>db\<close>), binds the seed and the serve hook of \<open>router\<close>, starts the queue's workers and makes the
  todo handler.  A browser holds one event stream per page, a channel in the hub of \<open>internal/queue\<close>.  The
  handlers of \<open>features/todo\<close> work on an \<open>EntityStore\<close>, of which there are two strategies: rows of PocketBase
  (\<open>pbstore\<close>) or a Loro document per owner that is projected into the same rows (\<open>crdtstore\<close>).  Slow work
  (AI suggestions, the retry demo) goes through the queue to a worker that reports every attempt to the
  client's stream.  Mutations are published for other instances (\<open>internal/nats/crudproxy.go\<close>), signals of no
  lasting value go through a broadcaster (\<open>realtime.go\<close>, \<open>inmemory.go\<close>), and whiteboards exchange Loro updates
  and presence messages (\<open>internal/collab\<close>).

  \<^bold>\<open>Theories and what they model.\<close>

  \<^item> \<open>Prelude\<close>, \<open>GoLib\<close>, \<open>Json\<close>, \<open>GoUrl\<close>: Go's notions and the parts of its standard library the code uses: range
    order over maps, string functions, \<open>encoding/json\<close> with Go's decoding rules into structs, \<open>net/url\<close>.
    The round trip of the JSON encoder and decoder carries the proofs about every message format.

  \<^item> \<open>Hub\<close>: \<open>internal/queue/ssehub.go\<close>.  Clients, replay rings, user ids and drops; \<open>Send\<close> and \<open>SendBlocking\<close>
    are split at their unlocked windows, interleavings are the step relation \<open>hub_step\<close>, and the invariant
    holds in every reachable state.

  \<^item> \<open>Jobs\<close>, \<open>Retry\<close>, \<open>Workers\<close>, \<open>WorkerPool\<close>: \<open>handlers.go\<close>, \<open>retry.go\<close>, \<open>workers.go\<close> and \<open>goqite.go\<close>.  The job's
    wire form, the attempts with their feedback, the worker loop over a queue, and four workers beside each
    other on a queue whose messages reappear after a timeout (step relation \<open>pool_step\<close>).

  \<^item> \<open>Store\<close>, \<open>PBStore\<close>, \<open>CRDTStore\<close>, \<open>CRDTContract\<close>, \<open>CRDTSync\<close>, \<open>Transport\<close>: \<open>features/store\<close>.  The contract of
    \<open>EntityStore\<close> is the locale \<open>entity_store\<close>, interpreted on both strategies; beside it what a restart finds,
    how two instances converge and how ops are framed and deduplicated.

  \<^item> \<open>Auth\<close>, \<open>Signals\<close>, \<open>TodoHandlers\<close>, \<open>TodoStream\<close>, \<open>SuggestFlow\<close>, \<open>Llm\<close>: \<open>features/auth\<close>, \<open>features/todo\<close> and
    \<open>internal/llm\<close>.  Requests, sessions, every todo handler, the event stream with all its message types, the
    LLM client, and AI suggest from the job to the browser.  The lemmas about requests hold for any store that
    satisfies the contract.

  \<^item> \<open>CrudProxy\<close>, \<open>Replication\<close>: \<open>internal/nats/crudproxy.go\<close> and its composition with the handlers: what a server
    makes of the messages of an edge instance.

  \<^item> \<open>DagNats\<close>, \<open>Onboarding\<close>, \<open>Realtime\<close>: the workflow engine's client, the onboarding's polling, and the
    broadcasters behind the locale \<open>todo_broadcaster\<close>, interpreted on both.

  \<^item> \<open>Collab\<close>, \<open>CollabSync\<close>, \<open>DemoBoard\<close>, \<open>PresenceMsg\<close>, \<open>Presence\<close>, \<open>Whiteboard\<close>, \<open>BoardPeers\<close>, \<open>BoardSync\<close>:
    \<open>internal/collab\<close> and \<open>features/whiteboard\<close>.  Shapes and their ops on a Loro map, the workers and both
    persisters (locale \<open>persister\<close>), presence, every whiteboard handler, the table of peers under concurrent
    connections (step relation \<open>peer_step\<close>), and several instances on one network (\<open>net_step\<close>).

  \<^item> \<open>AppConfig\<close>, \<open>ConfigView\<close>: \<open>config\<close>, \<open>internal/secrets\<close> and \<open>features/config\<close>: loading, the secrets file and
    the masked page.

  \<^item> \<open>Boot\<close>, \<open>Wiring\<close>, \<open>Commands\<close>, \<open>Seed\<close>, \<open>Skins\<close>: \<open>internal/nats/embedded.go\<close>, \<open>internal/server\<close>, \<open>router\<close>, \<open>cmd\<close>,
    \<open>db\<close> and \<open>web/skins\<close>: starting NATS, what a process ends up connected to, the tasks of the onboarding
    workflow, the proxy of its console, collections and rules, the skins' helpers.

  \<^item> \<open>Markup\<close>, \<open>ElementIds\<close>, \<open>Pages\<close>, \<open>TodoView\<close>, \<open>BasecoatView\<close>, \<open>MorpheusView\<close>, \<open>Views\<close>: the \<open>*_templ.go\<close> files and
    what chooses among them.  \<open>Pages\<close> holds the components all skins share (\<open>internal/components\<close>, the views of
    \<open>features/auth\<close>, \<open>config\<close>, \<open>landing\<close>, \<open>whiteboard\<close>, the assets of the skins), the next three the todo page of
    each skin (\<open>features/todo/components\<close>, \<open>web/skins/basecoat\<close>, \<open>web/skins/morpheus\<close> with the alert and checkbox of
    \<open>neolib\<close>), \<open>Views\<close> the dispatch by skin.  A component is the list of the pieces it writes, literal or escaped.
    \<open>Markup\<close> also holds a reader of HTML (\<open>react\<close>) and a check of where values stand (\<open>flow\<close>), which every
    component passes; \<open>flow_sound\<close> makes of it that a browser reads what the template means.

  \<^item> \<open>PageIds\<close>, \<open>BasecoatIds\<close>, \<open>MorpheusIds\<close>, \<open>Targets\<close>: the ids of the elements in the todo pages and the events that
    find their element there.

  \<^bold>\<open>State and data.\<close>  A struct is a record, a union or a set of outcomes a datatype, a Go map a partial map, a Go
  string or byte slice a list of \<open>char\<close>, one per byte; text in messages is taken to be valid UTF-8, so that
  Go's replacement of invalid bytes, and of U+2028 and U+2029 in JSON, does not show; \<open>trim_space\<close> knows the white
  space of Unicode.  Unsigned counters that can wrap are words (\<open>version\<close>,
  FNV), other integers are mathematical with the 64-bit bounds written where they are read from text.  Times
  are integers.  Errors are values of a sum or option type; an early return, a panic and a nil receiver
  are branches.  What a handler changes is passed explicitly.

  \<^bold>\<open>Concurrency.\<close>  Code under one mutex is one step.  Where the code lets go of a mutex, or several goroutines
  or processes act, the steps are the rules of an \<open>inductive\<close> relation and the statements are about every
  reachable state or every list of steps (\<open>Hub\<close>, \<open>WorkerPool\<close>, \<open>BoardPeers\<close>, \<open>CollabSync\<close>, \<open>Realtime\<close>).  The order in which
  Go ranges over a map is an argument (\<open>range_order\<close>, or the rank \<open>cs_rank\<close> of the CRDT store).

  \<^bold>\<open>Parameters.\<close>  Libraries and services outside \<open>src/\<close> are arguments of the definitions that call them, and
  what the code relies on is a named predicate about them: PocketBase (\<open>core_app\<close> with \<open>app_laws\<close>,
  \<open>board_app\<close>, \<open>accounts\<close>, \<open>schema_app\<close> with \<open>schema_laws\<close>), Loro (\<open>loro_api\<close> with \<open>loro_laws\<close>, \<open>board_api\<close> with
  \<open>board_laws\<close> and \<open>merge_laws\<close>), NATS and JetStream (\<open>jetstream\<close>, \<open>nats_conn\<close>, \<open>todo_stream_api\<close> with
  \<open>todo_stream_laws\<close>, \<open>kv_api\<close>), goqite (\<open>timed_queue\<close> with \<open>timed_laws\<close>), retry-go, GoAI, the HTTP exchange with
  DagNats (\<open>http\<close>), age, the IPv6 check of \<open>net/url\<close>, and templ (\<open>templ\<close> with \<open>templ_escapes\<close> and \<open>templ_attributes\<close>).  Every such predicate is shown to hold for a concrete small instance, in
  the witness of a property that assumes it.  What the predicates leave open is as telling as what they say:
  \<open>timed_laws\<close> gives out a message only when it is visible and not received too often; \<open>js_contract\<close> drops a
  repeated publish only within a bounded window, and a publish that fails may still have been accepted;
  \<open>edits_available\<close> and \<open>inserts_available\<close> are apart because the unique index refuses new rows and not edits.
  One predicate says more than its library does: \<open>todo_stream_laws\<close> leaves out that JetStream may deliver a
  message again when its acknowledgement was lost.

  \<^bold>\<open>Bounds and fuel.\<close>  The recursive JSON parser takes the length of its input plus one as fuel, which is enough
  because every call consumes a byte (the round trip does not need more).  Other loops are structural, have a
  termination proof by a measure, or run over a list of outcomes (polls, attempts, deliveries, the \<open>tick\<close>s of a worker) so that a run
  that does not end is a list without the ending outcome; the theorems that something ends say so.

  \<^bold>\<open>What the properties show.\<close>  Each property stands in the theory of the component it completes, behind the
  text with its claim id: that the stores keep owners apart and survive restarts; that the hub loses
  nothing it promises to keep; that jobs, retries and suggestions reach the client they belong to; that
  sessions begin and end; that edge and server, two CRDT instances and the boards of several instances agree
  when everything has been delivered; that secrets are read back and not shown; that seeded rules stay; that
  quoted text cannot leave its expression, nor any value its place in a page.  Some properties state precisely what the code does where
  it does not do what its comments say: clearing without a session, streams without a session, the
  unprotected configuration page, the durable name shared by all processes, the web process that is never
  wired for replication, the server's op subscription that reaches no owner, the creates the unique index refuses, and the events that have no target in the page of a skin.

  \<^bold>\<open>Not modelled.\<close>  The components of the vendored library \<open>web/skins/morpheus/neolib\<close> that no page calls (all but
  the alert, the checkbox and the optional attributes).  The rendering of a component stops when the response
  cannot be written; the model's components are written completely.  Of HTML only what the pages use is read;
  everything else leads the reader to the mode \<open>Broken\<close>, which the check refuses.
  Registration of routes, logging, the SQLite set-up, the start and stop of goroutines, the desktop's window
  and demo cursor, and the servers of third parties.  JavaScript, in the pages and under \<open>web/resources/static\<close> (the
  service worker among it), is text that is sent; only how the browser reads a quoted string is modelled, in \<open>Skins\<close>.
\<close>

end
